(* ===== verification/Prelude.thy ===== *)
theory Prelude
  imports Main
begin

section \<open>Shared vocabulary: ordered maps, ordered sets, stable sorting\<close>

text \<open>
  The generic part of the development. A JavaScript \<open>Map\<close> (and a plain object used as a record)
  keeps its keys in insertion order and a write to a present key keeps the key's place; it is an
  association list here, with \<open>oput\<close>, \<open>odel\<close> and \<open>oget\<close>. A JavaScript \<open>Set\<close> is a list
  without repetition. \<open>Array.prototype.sort\<close> is a stable sort under a comparator. The interfaces
  the components rely on are the locales \<open>keyed_store\<close> and \<open>comparator\<close>.
\<close>

named_theorems js_map \<open>lookups after writes to ordered maps and sets\<close>
named_theorems js_text \<open>evaluation of the string operations\<close>
named_theorems defs \<open>definitions of the operations, for evaluating a concrete input\<close>

subsection \<open>Lists\<close>

lemma find_SomeD: "List.find P xs = Some x \<Longrightarrow> x \<in> set xs \<and> P x"
  by (induction xs) (auto split: if_splits)

lemma find_None_iff_all: "List.find P xs = None \<longleftrightarrow> (\<forall>x\<in>set xs. \<not> P x)"
  by (induction xs) auto

lemma find_Some_ex: "(\<exists>x\<in>set xs. P x) \<Longrightarrow> \<exists>y. List.find P xs = Some y"
  by (induction xs) auto

lemma find_map: "List.find P (map f xs) = map_option f (List.find (P \<circ> f) xs)"
  by (induction xs) auto

lemma distinct_map_eqD: "distinct (map f xs) \<Longrightarrow> x \<in> set xs \<Longrightarrow> y \<in> set xs \<Longrightarrow> f x = f y \<Longrightarrow> x = y"
  by (simp add: distinct_map inj_on_def)

lemma distinct_map_filterI: "distinct (map f xs) \<Longrightarrow> distinct (map f (filter P xs))"
  by (induction xs) auto

subsection \<open>Ordered maps\<close>

type_synonym ('k, 'v) omap = "('k \<times> 'v) list"

abbreviation oget :: "('k, 'v) omap \<Rightarrow> 'k \<Rightarrow> 'v option" where
  "oget \<equiv> map_of"

fun oput :: "'k \<Rightarrow> 'v \<Rightarrow> ('k, 'v) omap \<Rightarrow> ('k, 'v) omap" where
  "oput k v [] = [(k, v)]"
| "oput k v ((k', v') # m) = (if k' = k then (k, v) # m else (k', v') # oput k v m)"

definition odel :: "'k \<Rightarrow> ('k, 'v) omap \<Rightarrow> ('k, 'v) omap" where
  "odel k m = filter (\<lambda>kv. fst kv \<noteq> k) m"

definition ohas :: "('k, 'v) omap \<Rightarrow> 'k \<Rightarrow> bool" where
  "ohas m k \<longleftrightarrow> k \<in> set (map fst m)"

definition okeys_distinct :: "('k, 'v) omap \<Rightarrow> bool" where
  "okeys_distinct m \<longleftrightarrow> distinct (map fst m)"

text \<open>\<open>Object.assign\<close> and object spread write one map's entries onto another, left to right;
  \<open>new Map(entries)\<close> and \<open>Object.fromEntries\<close> start from the empty map.\<close>

definition oassign :: "('k, 'v) omap \<Rightarrow> ('k, 'v) omap \<Rightarrow> ('k, 'v) omap" where
  "oassign m kvs = foldl (\<lambda>acc kv. oput (fst kv) (snd kv) acc) m kvs"

definition of_entries :: "('k \<times> 'v) list \<Rightarrow> ('k, 'v) omap" where
  "of_entries kvs = oassign [] kvs"

lemma oget_oput [simp, js_map]: "oget (oput k v m) = (oget m)(k \<mapsto> v)"
  by (induction m) (auto simp: fun_eq_iff)

lemma set_oput: "kv \<in> set (oput k v m) \<Longrightarrow> kv = (k, v) \<or> kv \<in> set m"
  by (induction m) (auto split: if_splits)

lemma oget_odel [simp, js_map]: "oget (odel k m) = (oget m)(k := None)"
  by (induction m) (auto simp: odel_def fun_eq_iff)

lemma keys_oput [simp, js_map]: "fst ` set (oput k v m) = insert k (fst ` set m)"
  by (simp flip: dom_map_of_conv_image_fst)

lemma keys_odel [simp, js_map]: "fst ` set (odel k m) = fst ` set m - {k}"
  by (auto simp: odel_def)

lemma okeys_distinct_oput [simp, intro]: "okeys_distinct m \<Longrightarrow> okeys_distinct (oput k v m)"
  unfolding okeys_distinct_def
proof (induction m)
  case (Cons kv m)
  obtain j w where kv: "kv = (j, w)" by (cases kv)
  with Cons show ?case by (cases "j = k") simp_all
qed simp

lemma okeys_distinct_odel [simp, intro]: "okeys_distinct m \<Longrightarrow> okeys_distinct (odel k m)"
  by (auto simp: okeys_distinct_def odel_def intro: distinct_map_filterI)

lemma okeys_distinct_Nil [simp]: "okeys_distinct []"
  by (simp add: okeys_distinct_def)

lemma ohas_iff_oget: "ohas m k \<longleftrightarrow> oget m k \<noteq> None"
  by (simp add: ohas_def map_of_eq_None_iff)

lemma oput_absent: "k \<notin> fst ` set m \<Longrightarrow> oput k v m = m @ [(k, v)]"
  by (induction m) auto

lemma oput_keys_present: "k \<in> fst ` set m \<Longrightarrow> map fst (oput k v m) = map fst m"
proof (induction m)
  case (Cons kv m)
  obtain j w where kv: "kv = (j, w)" by (cases kv)
  with Cons show ?case by (cases "j = k") simp_all
qed simp

lemma oassign_Nil [simp]: "oassign m [] = m"
  by (simp add: oassign_def)

lemma oassign_Cons [simp]: "oassign m ((k, v) # kvs) = oassign (oput k v m) kvs"
  by (simp add: oassign_def)

lemma oget_oassign [js_map]: "oget (oassign m kvs) = oget m ++ oget (rev kvs)"
proof (induction kvs arbitrary: m)
  case (Cons kv kvs)
  then show ?case by (cases kv) (simp add: map_add_def fun_eq_iff split: option.splits)
qed simp

lemma oget_of_entries [js_map]: "oget (of_entries kvs) = oget (rev kvs)"
  by (simp add: of_entries_def oget_oassign)

lemma okeys_distinct_oassign [simp, intro]: "okeys_distinct m \<Longrightarrow> okeys_distinct (oassign m kvs)"
  by (induction kvs arbitrary: m) (auto simp: split_paired_all)

lemma okeys_distinct_of_entries [simp]: "okeys_distinct (of_entries kvs)"
  by (simp add: of_entries_def)

lemma keys_oassign [simp]: "fst ` set (oassign m kvs) = fst ` set m \<union> fst ` set kvs"
proof (induction kvs arbitrary: m)
  case (Cons kv kvs)
  obtain k v where kv: "kv = (k, v)" by (cases kv)
  with Cons show ?case by (simp del: keys_oput) (simp add: keys_oput)
qed simp

lemma oassign_distinct_self: "distinct (map fst (m @ kvs)) \<Longrightarrow> oassign m kvs = m @ kvs"
proof (induction kvs arbitrary: m)
  case (Cons kv kvs)
  obtain k v where kv: "kv = (k, v)" by (cases kv)
  with Cons.prems have "oput k v m = m @ [(k, v)]" by (intro oput_absent) auto
  with Cons.IH[of "m @ [(k, v)]"] Cons.prems kv show ?case by simp
qed simp

lemma of_entries_distinct: "distinct (map fst kvs) \<Longrightarrow> of_entries kvs = kvs"
  by (simp add: of_entries_def oassign_distinct_self)

lemma oget_rev_distinct: "okeys_distinct m \<Longrightarrow> oget (rev m) = oget m"
proof -
  assume "okeys_distinct m"
  then have "distinct (map fst m)" "distinct (map fst (rev m))"
    by (simp_all add: okeys_distinct_def rev_map[symmetric])
  then show ?thesis by (intro map_of_eqI) (auto simp del: map_of_eq_None_iff)
qed

subsection \<open>Ordered sets\<close>

definition sadd :: "'a \<Rightarrow> 'a list \<Rightarrow> 'a list" where
  "sadd x xs = (if x \<in> set xs then xs else xs @ [x])"

definition sdel :: "'a \<Rightarrow> 'a list \<Rightarrow> 'a list" where
  "sdel x xs = filter (\<lambda>y. y \<noteq> x) xs"

definition set_of :: "'a list \<Rightarrow> 'a list" where
  "set_of xs = foldl (\<lambda>acc x. sadd x acc) [] xs"

lemma set_sadd [simp, js_map]: "set (sadd x xs) = insert x (set xs)"
  by (auto simp: sadd_def)

lemma set_sdel [simp, js_map]: "set (sdel x xs) = set xs - {x}"
  by (auto simp: sdel_def)

lemma distinct_sadd [simp, intro]: "distinct xs \<Longrightarrow> distinct (sadd x xs)"
  by (auto simp: sadd_def)

lemma distinct_sdel [simp, intro]: "distinct xs \<Longrightarrow> distinct (sdel x xs)"
  by (simp add: sdel_def)

lemma set_foldl_sadd: "set (foldl (\<lambda>acc x. sadd x acc) ys xs) = set ys \<union> set xs"
  by (induction xs arbitrary: ys) auto

lemma distinct_foldl_sadd: "distinct ys \<Longrightarrow> distinct (foldl (\<lambda>acc x. sadd x acc) ys xs)"
  by (induction xs arbitrary: ys) auto

lemma set_set_of [simp, js_map]: "set (set_of xs) = set xs"
  by (simp add: set_of_def set_foldl_sadd)

lemma distinct_set_of [simp]: "distinct (set_of xs)"
  by (simp add: set_of_def distinct_foldl_sadd)

subsection \<open>The interface of a keyed store\<close>

text \<open>What a component needs of the map it keeps its objects in: a write is read back, a removal
  is read back as absent, and the other keys are untouched.\<close>

locale keyed_store =
  fixes empty :: "'m"
    and put :: "'k \<Rightarrow> 'v \<Rightarrow> 'm \<Rightarrow> 'm"
    and remove :: "'k \<Rightarrow> 'm \<Rightarrow> 'm"
    and get :: "'m \<Rightarrow> 'k \<Rightarrow> 'v option"
    and invar :: "'m \<Rightarrow> bool"
  assumes get_empty: "get empty k = None"
    and get_put: "invar m \<Longrightarrow> get (put k v m) = (get m)(k \<mapsto> v)"
    and get_remove: "invar m \<Longrightarrow> get (remove k m) = (get m)(k := None)"
    and invar_empty: "invar empty"
    and invar_put: "invar m \<Longrightarrow> invar (put k v m)"
    and invar_remove: "invar m \<Longrightarrow> invar (remove k m)"
begin

text \<open>Runs of writes, the shape of every batch: the removals named first, then the writes, the
  last write to a key winning.\<close>

lemma invar_removes: "invar m \<Longrightarrow> invar (foldl (\<lambda>a k. remove k a) m ks)"
  by (induction ks arbitrary: m) (auto intro: invar_remove)

lemma get_removes:
  "invar m \<Longrightarrow> get (foldl (\<lambda>a k. remove k a) m ks) = (\<lambda>k. if k \<in> set ks then None else get m k)"
  by (induction ks arbitrary: m) (auto simp: get_remove invar_remove fun_eq_iff)

lemma invar_puts: "invar m \<Longrightarrow> invar (foldl (\<lambda>a x. put (key x) (val x) a) m xs)"
  by (induction xs arbitrary: m) (auto intro: invar_put)

lemma get_puts:
  "invar m \<Longrightarrow> get (foldl (\<lambda>a x. put (key x) (val x) a) m xs)
     = get m ++ map_of (rev (map (\<lambda>x. (key x, val x)) xs))"
proof (induction xs arbitrary: m)
  case (Cons x xs)
  then show ?case
    by (auto simp: get_put invar_put fun_eq_iff map_add_def split: option.splits)
qed (simp add: fun_eq_iff)

text \<open>Rewriting one stored value in place, where it is present.\<close>

definition revise :: "'k \<Rightarrow> ('v \<Rightarrow> 'v) \<Rightarrow> 'm \<Rightarrow> 'm" where
  "revise k f m = (case get m k of Some v \<Rightarrow> put k (f v) m | None \<Rightarrow> m)"

lemma invar_revise: "invar m \<Longrightarrow> invar (revise k f m)"
  by (auto simp: revise_def intro: invar_put split: option.splits)

lemma get_revise: "invar m \<Longrightarrow> get (revise k f m) j = (if j = k then map_option f (get m k) else get m j)"
  by (auto simp: revise_def get_put split: option.splits)

lemma dom_revise: "invar m \<Longrightarrow> dom (get (revise k f m)) = dom (get m)"
  by (auto simp: dom_def get_revise split: if_splits)

end

interpretation om: keyed_store "[]" oput odel oget okeys_distinct
  by unfold_locales simp_all

subsection \<open>Stable sorting under a comparator\<close>

text \<open>A comparator answers a number: negative or zero where the first argument may stand before
  the second. \<open>sort_by\<close> is the stable sort the language prescribes; it equals the engine's result
  for every comparator that is a total preorder.\<close>

fun insert_by :: "('a \<Rightarrow> 'a \<Rightarrow> int) \<Rightarrow> 'a \<Rightarrow> 'a list \<Rightarrow> 'a list" where
  "insert_by cmp x [] = [x]"
| "insert_by cmp x (y # ys) = (if cmp x y \<le> 0 then x # y # ys else y # insert_by cmp x ys)"

fun sort_by :: "('a \<Rightarrow> 'a \<Rightarrow> int) \<Rightarrow> 'a list \<Rightarrow> 'a list" where
  "sort_by cmp [] = []"
| "sort_by cmp (x # xs) = insert_by cmp x (sort_by cmp xs)"

lemma set_insert_by [simp]: "set (insert_by cmp x xs) = insert x (set xs)"
  by (induction xs) auto

lemma set_sort_by [simp]: "set (sort_by cmp xs) = set xs"
  by (induction xs) auto

lemma length_insert_by [simp]: "length (insert_by cmp x xs) = Suc (length xs)"
  by (induction xs) auto

lemma length_sort_by [simp]: "length (sort_by cmp xs) = length xs"
  by (induction xs) auto

lemma filter_insert_by_not: "\<not> P x \<Longrightarrow> filter P (insert_by cmp x xs) = filter P xs"
  by (induction xs) auto

lemma distinct_map_insert_by:
  "distinct (map f (insert_by cmp x xs)) \<longleftrightarrow> f x \<notin> f ` set xs \<and> distinct (map f xs)"
  by (induction xs) auto

lemma distinct_map_sort_by [simp]: "distinct (map f (sort_by cmp xs)) \<longleftrightarrow> distinct (map f xs)"
  by (induction xs) (auto simp: distinct_map_insert_by)

lemma distinct_map_filter_insert_by:
  "distinct (map f (filter P (insert_by cmp x xs))) \<longleftrightarrow> distinct (map f (filter P (x # xs)))"
proof (induction xs)
  case (Cons y xs)
  then show ?case by (cases "P x"; cases "P y") (auto simp: image_iff)
qed simp

lemma distinct_map_filter_sort_by:
  "distinct (map f (filter P (sort_by cmp xs))) \<longleftrightarrow> distinct (map f (filter P xs))"
  by (induction xs) (auto simp: distinct_map_filter_insert_by)

locale comparator =
  fixes cmp :: "'a \<Rightarrow> 'a \<Rightarrow> int"
  assumes total: "cmp a b \<le> 0 \<or> cmp b a \<le> 0"
    and trans: "cmp a b \<le> 0 \<Longrightarrow> cmp b c \<le> 0 \<Longrightarrow> cmp a c \<le> 0"
begin

lemma sorted_insert_by:
  "sorted_wrt (\<lambda>a b. cmp a b \<le> 0) xs \<Longrightarrow> sorted_wrt (\<lambda>a b. cmp a b \<le> 0) (insert_by cmp x xs)"
proof (induction xs)
  case (Cons y ys)
  show ?case
  proof (cases "cmp x y \<le> 0")
    case True
    with Cons.prems show ?thesis by (auto intro: trans)
  next
    case False
    with total have "cmp y x \<le> 0" by blast
    with False Cons show ?thesis by auto
  qed
qed simp

lemma sorted_sort_by: "sorted_wrt (\<lambda>a b. cmp a b \<le> 0) (sort_by cmp xs)"
  by (induction xs) (auto intro: sorted_insert_by)

text \<open>Stability: the elements standing level with one another keep the order they had.\<close>

lemma filter_insert_by_level:
  "\<forall>y. P y \<longrightarrow> cmp x y \<le> 0 \<Longrightarrow> P x \<Longrightarrow> sorted_wrt (\<lambda>a b. cmp a b \<le> 0) xs
   \<Longrightarrow> filter P (insert_by cmp x xs) = x # filter P xs"
proof (induction xs)
  case (Cons y ys)
  then show ?case by auto
qed simp

end

text \<open>What the sorts of lists by a name rely on of \<open>localeCompare\<close>, under any key of their elements.\<close>

locale collation =
  fixes lc :: "string \<Rightarrow> string \<Rightarrow> int"
  assumes lc_total: "lc a b \<le> 0 \<or> lc b a \<le> 0"
    and lc_trans: "lc a b \<le> 0 \<Longrightarrow> lc b c \<le> 0 \<Longrightarrow> lc a c \<le> 0"
begin

lemma comparator_on: "comparator (\<lambda>a b. lc (f a) (f b))"
  by unfold_locales (use lc_total lc_trans in blast)+

lemma comparator_reversed: "comparator (\<lambda>a b. lc (f b) (f a))"
  by unfold_locales (use lc_total lc_trans in blast)+

lemma sorted_on: "sorted_wrt (\<lambda>a b. lc (f a) (f b) \<le> 0) (sort_by (\<lambda>a b. lc (f a) (f b)) xs)"
  by (rule comparator.sorted_sort_by[OF comparator_on])

lemma sorted_reversed: "sorted_wrt (\<lambda>a b. lc (f b) (f a) \<le> 0) (sort_by (\<lambda>a b. lc (f b) (f a)) xs)"
  by (rule comparator.sorted_sort_by[OF comparator_reversed])

end

end
