(* ===== verification/JsValue.thy ===== *)
theory JsValue
  imports Prelude
begin

section \<open>JavaScript values: strings, numbers and JSON\<close>

text \<open>
  The part of the language the code uses. A string is a list of code units below 256 (Latin-1),
  so \<open>trim\<close> and \<open>toLowerCase\<close> are the ECMAScript functions on that range. A finite number is
  kept as the shortest decimal that denotes it, \<open>Dec m e\<close> for \<open>m * 10 ^ e\<close> with \<open>m\<close> not divisible
  by ten: that is the form \<open>String(n)\<close> prints and JSON carries. A property value is a \<open>json\<close>;
  \<open>undefined\<close> is \<open>None\<close> of \<open>json option\<close>.
\<close>

subsection \<open>Strings\<close>

definition code :: "char \<Rightarrow> nat" where
  "code c = of_char c"

definition is_space :: "char \<Rightarrow> bool" where
  "is_space c \<longleftrightarrow> code c \<in> {9, 10, 11, 12, 13, 32, 160}"

definition trim :: "string \<Rightarrow> string" where
  "trim s = rev (dropWhile is_space (rev (dropWhile is_space s)))"

definition lower_char :: "char \<Rightarrow> char" where
  "lower_char c = (let n = code c in
     if 65 \<le> n \<and> n \<le> 90 \<or> 192 \<le> n \<and> n \<le> 222 \<and> n \<noteq> 215 then char_of (n + 32) else c)"

definition toLowerCase :: "string \<Rightarrow> string" where
  "toLowerCase s = map lower_char s"

fun join :: "string \<Rightarrow> string list \<Rightarrow> string" where
  "join sep [] = []"
| "join sep [x] = x"
| "join sep (x # y # ys) = x @ sep @ join sep (y # ys)"

fun starts_with :: "string \<Rightarrow> string \<Rightarrow> bool" where
  "starts_with s [] = True"
| "starts_with [] (p # ps) = False"
| "starts_with (c # s) (p # ps) = (c = p \<and> starts_with s ps)"

fun str_includes :: "string \<Rightarrow> string \<Rightarrow> bool" where
  "str_includes [] p = (p = [])"
| "str_includes (c # s) p = (starts_with (c # s) p \<or> str_includes s p)"

fun split_on :: "char \<Rightarrow> string \<Rightarrow> string list" where
  "split_on c [] = [[]]"
| "split_on c (ch # s) = (if ch = c then [] # split_on c s
     else (case split_on c s of w # ws \<Rightarrow> (ch # w) # ws | [] \<Rightarrow> [[ch]]))"

lemma toLowerCase_append [simp]: "toLowerCase (a @ b) = toLowerCase a @ toLowerCase b"
  by (simp add: toLowerCase_def)

lemma code_lt [simp]: "code c < 256"
  by (simp add: code_def)

lemma code_char_of [simp]: "n < 256 \<Longrightarrow> code (char_of n) = n"
  by (simp add: code_def)

lemma lower_char_idem [simp]: "lower_char (lower_char c) = lower_char c"
proof -
  have "code c < 256" by simp
  then show ?thesis by (auto simp: lower_char_def Let_def)
qed

lemma toLowerCase_idem [simp]: "toLowerCase (toLowerCase s) = toLowerCase s"
  by (simp add: toLowerCase_def)

lemma starts_with_iff: "starts_with s p \<longleftrightarrow> (\<exists>r. s = p @ r)"
  by (induction s p rule: starts_with.induct) auto

lemma str_includes_iff: "str_includes s p \<longleftrightarrow> (\<exists>a b. s = a @ p @ b)"
proof (induction s p rule: str_includes.induct)
  case (2 c s p)
  show ?case
  proof
    assume "str_includes (c # s) p"
    then consider "\<exists>r. c # s = p @ r" | "\<exists>a b. s = a @ p @ b"
      using 2 by (auto simp: starts_with_iff)
    then show "\<exists>a b. c # s = a @ p @ b"
      by cases (metis append_Nil, metis append_Cons)
  next
    assume "\<exists>a b. c # s = a @ p @ b"
    then obtain a b where ab: "c # s = a @ p @ b" by blast
    show "str_includes (c # s) p"
    proof (cases a)
      case Nil
      with ab have "\<exists>r. c # s = p @ r" by auto
      then show ?thesis by (simp only: str_includes.simps starts_with_iff simp_thms)
    next
      case (Cons x a')
      with ab have "s = a' @ p @ b" by simp
      with 2 show ?thesis by auto
    qed
  qed
qed auto

lemma trim_Nil [simp]: "trim [] = []"
  by (simp add: trim_def)

subsection \<open>Numbers\<close>

datatype jsnum = NaN | Infty bool | Dec int int

function norm_dec :: "int \<Rightarrow> int \<Rightarrow> jsnum" where
  "norm_dec m e = (if m = 0 then Dec 0 0
     else if m mod 10 = 0 then norm_dec (m div 10) (e + 1) else Dec m e)"
  by pat_completeness auto
termination
proof (relation "measure (\<lambda>(m, e). nat \<bar>m\<bar>)", goal_cases)
  case (2 m e)
  then obtain k where "m = 10 * k" "k \<noteq> 0" by (metis mod_0_imp_dvd dvd_def mult_zero_right)
  then show ?case by simp
qed simp

declare norm_dec.simps [simp del]

definition js_int :: "int \<Rightarrow> jsnum" where
  "js_int n = norm_dec n 0"

text \<open>Comparison by value.\<close>

definition dec_le :: "int \<Rightarrow> int \<Rightarrow> int \<Rightarrow> int \<Rightarrow> bool" where
  "dec_le m e n f = (let l = min e f in m * 10 ^ nat (e - l) \<le> n * 10 ^ nat (f - l))"

fun num_le :: "jsnum \<Rightarrow> jsnum \<Rightarrow> bool" where
  "num_le NaN _ = False"
| "num_le _ NaN = False"
| "num_le (Infty False) _ = True"
| "num_le _ (Infty True) = True"
| "num_le (Infty True) _ = False"
| "num_le _ (Infty False) = False"
| "num_le (Dec m e) (Dec n f) = dec_le m e n f"

definition num_lt :: "jsnum \<Rightarrow> jsnum \<Rightarrow> bool" where
  "num_lt a b \<longleftrightarrow> num_le a b \<and> \<not> num_le b a"

definition math_max :: "jsnum \<Rightarrow> jsnum \<Rightarrow> jsnum" where
  "math_max a b = (if a = NaN \<or> b = NaN then NaN else if num_le a b then b else a)"

definition math_min :: "jsnum \<Rightarrow> jsnum \<Rightarrow> jsnum" where
  "math_min a b = (if a = NaN \<or> b = NaN then NaN else if num_le a b then a else b)"

definition is_finite :: "jsnum \<Rightarrow> bool" where
  "is_finite n = (case n of Dec _ _ \<Rightarrow> True | _ \<Rightarrow> False)"

definition num_positive :: "jsnum \<Rightarrow> bool" where
  "num_positive n = (case n of Dec m _ \<Rightarrow> 0 < m | Infty b \<Rightarrow> b | NaN \<Rightarrow> False)"

lemma num_le_total: "a \<noteq> NaN \<Longrightarrow> b \<noteq> NaN \<Longrightarrow> num_le a b \<or> num_le b a"
  by (cases "(a, b)" rule: num_le.cases) (auto simp: dec_le_def Let_def min.commute)

lemma ten_power_pos: "\<not> (10::int) ^ k \<le> 0"
  by (simp add: not_le)

lemma dec_le_zero [simp]: "dec_le 0 0 m e \<longleftrightarrow> 0 \<le> m" "dec_le m e 0 0 \<longleftrightarrow> m \<le> 0"
  by (auto simp: dec_le_def Let_def zero_le_mult_iff mult_le_0_iff ten_power_pos)

lemma num_lt_zero: "num_lt (Dec 0 0) n \<longleftrightarrow> num_positive n"
proof (cases n)
  case (Infty b)
  then show ?thesis by (cases b) (simp_all add: num_lt_def num_positive_def)
qed (auto simp: num_lt_def num_positive_def)

subsection \<open>Printing numbers\<close>

text \<open>\<open>Number::toString\<close>: plain notation between \<open>10 ^ -7\<close> and \<open>10 ^ 21\<close>, exponent notation
  outside it.\<close>

fun nat_digits :: "nat \<Rightarrow> string" where
  "nat_digits n = (if n < 10 then [char_of (48 + n)] else nat_digits (n div 10) @ [char_of (48 + n mod 10)])"

declare nat_digits.simps [simp del]

definition dec_string :: "nat \<Rightarrow> int \<Rightarrow> string" where
  "dec_string m e = (let s = nat_digits m; k = int (length s); n = k + e in
     if k \<le> n \<and> n \<le> 21 then s @ replicate (nat (n - k)) (CHR ''0'')
     else if 0 < n \<and> n \<le> 21 then take (nat n) s @ ''.'' @ drop (nat n) s
     else if -6 < n \<and> n \<le> 0 then ''0.'' @ replicate (nat (- n)) (CHR ''0'') @ s
     else (let x = n - 1; ex = (if x < 0 then ''e-'' else ''e+'') @ nat_digits (nat \<bar>x\<bar>) in
       (if length s = 1 then s else take 1 s @ ''.'' @ drop 1 s) @ ex))"

fun num_string :: "jsnum \<Rightarrow> string" where
  "num_string NaN = ''NaN''"
| "num_string (Infty b) = (if b then ''Infinity'' else ''-Infinity'')"
| "num_string (Dec m e) = (if m < 0 then ''-'' @ dec_string (nat (- m)) e else dec_string (nat m) e)"

subsection \<open>Reading numbers\<close>

definition is_digit :: "char \<Rightarrow> bool" where
  "is_digit c \<longleftrightarrow> 48 \<le> code c \<and> code c \<le> 57"

definition digits_val :: "string \<Rightarrow> int" where
  "digits_val s = foldl (\<lambda>a c. 10 * a + int (code c - 48)) 0 s"

lemma nat_digits_read: "list_all is_digit (nat_digits n) \<and> nat_digits n \<noteq> [] \<and> digits_val (nat_digits n) = int n"
proof (induction n rule: nat_digits.induct)
  case (1 n)
  have digit: "is_digit (char_of (48 + d)) \<and> code (char_of (48 + d)) = 48 + d" if "d < 10" for d :: nat
    using that by (simp add: is_digit_def)
  show ?case
  proof (cases "n < 10")
    case True
    then show ?thesis using digit[of n] by (simp add: nat_digits.simps[of n] digits_val_def)
  next
    case False
    have "int n = 10 * int (n div 10) + int (n mod 10)" by (simp add: zdiv_int zmod_int)
    with 1[OF False] False digit[of "n mod 10"] show ?thesis
      by (simp add: nat_digits.simps[of n] digits_val_def)
  qed
qed

text \<open>A sign before the rest of a string: whether it is a minus, and what stands behind it.\<close>

definition signed_rest :: "string \<Rightarrow> bool \<times> string" where
  "signed_rest s = (case s of [] \<Rightarrow> (False, s)
     | c # t \<Rightarrow> if c = CHR ''-'' then (True, t) else if c = CHR ''+'' then (False, t) else (False, s))"

text \<open>An optional exponent part, which must end the string.\<close>

definition read_exponent :: "string \<Rightarrow> int option" where
  "read_exponent s = (case s of [] \<Rightarrow> Some 0
     | c # r \<Rightarrow> if c \<in> {CHR ''e'', CHR ''E''} then
         (let (neg, ds) = signed_rest r in
          if ds \<noteq> [] \<and> list_all is_digit ds then Some (if neg then - digits_val ds else digits_val ds) else None)
       else None)"

text \<open>An unsigned decimal literal: digits, an optional fraction, an optional exponent.\<close>

definition read_decimal :: "string \<Rightarrow> (string \<times> string option \<times> int) option" where
  "read_decimal s = (let ip = takeWhile is_digit s; r = dropWhile is_digit s in
     if r \<noteq> [] \<and> hd r = CHR ''.'' then (let fp = takeWhile is_digit (tl r) in
         if ip = [] \<and> fp = [] then None
         else map_option (\<lambda>x. (ip, Some fp, x)) (read_exponent (dropWhile is_digit (tl r))))
     else if ip = [] then None else map_option (\<lambda>x. (ip, None, x)) (read_exponent r))"

definition decimal_value :: "bool \<Rightarrow> string \<times> string option \<times> int \<Rightarrow> jsnum" where
  "decimal_value neg d = (case d of (ip, fp, x) \<Rightarrow>
     let f = (case fp of None \<Rightarrow> [] | Some f \<Rightarrow> f); m = digits_val (ip @ f) in
     norm_dec (if neg then - m else m) (x - int (length f)))"

definition hex_val :: "char \<Rightarrow> nat option" where
  "hex_val c = (let n = code c in
     if 48 \<le> n \<and> n \<le> 57 then Some (n - 48)
     else if 97 \<le> n \<and> n \<le> 102 then Some (n - 87)
     else if 65 \<le> n \<and> n \<le> 70 then Some (n - 55) else None)"

fun radix_val :: "nat \<Rightarrow> int \<Rightarrow> string \<Rightarrow> int option" where
  "radix_val b a [] = Some a"
| "radix_val b a (c # s) = (case hex_val c of None \<Rightarrow> None
     | Some d \<Rightarrow> if d < b then radix_val b (int b * a + int d) s else None)"

definition radix_literal :: "string \<Rightarrow> jsnum option" where
  "radix_literal s = (case s of c0 # c # ds \<Rightarrow>
       (let b = (if c \<in> {CHR ''x'', CHR ''X''} then 16 else if c \<in> {CHR ''o'', CHR ''O''} then 8
                 else if c \<in> {CHR ''b'', CHR ''B''} then 2 else 0) in
        if c0 = CHR ''0'' \<and> b \<noteq> 0 \<and> ds \<noteq> [] then map_option js_int (radix_val b 0 ds) else None)
     | _ \<Rightarrow> None)"

text \<open>\<open>Number(s)\<close> of a string: blank is zero, anything that is no literal is \<open>NaN\<close>.\<close>

definition string_number :: "string \<Rightarrow> jsnum" where
  "string_number s = (let t = trim s in
     if t = [] then Dec 0 0
     else case radix_literal t of Some n \<Rightarrow> n
     | None \<Rightarrow>
       (let (neg, u) = signed_rest t in
        if u = ''Infinity'' then Infty (\<not> neg)
        else case read_decimal u of None \<Rightarrow> NaN | Some d \<Rightarrow> decimal_value neg d))"

subsection \<open>JSON values\<close>

datatype json = JNull | JBool bool | JNum jsnum | JStr string | JArr "json list" | JObj "(string \<times> json) list"

type_synonym props = "(string, json) omap"

text \<open>\<open>String(v)\<close>: an array prints its elements joined by commas, an element that is \<open>null\<close>
  printing nothing; an object prints its class.\<close>

fun js_string :: "json \<Rightarrow> string" where
  "js_string JNull = ''null''"
| "js_string (JBool b) = (if b then ''true'' else ''false'')"
| "js_string (JNum n) = num_string n"
| "js_string (JStr s) = s"
| "js_string (JArr xs) = join '','' (map (\<lambda>x. if x = JNull then [] else js_string x) xs)"
| "js_string (JObj _) = ''[object Object]''"

fun js_number :: "json \<Rightarrow> jsnum" where
  "js_number JNull = Dec 0 0"
| "js_number (JBool b) = (if b then Dec 1 0 else Dec 0 0)"
| "js_number (JNum n) = n"
| "js_number (JStr s) = string_number s"
| "js_number v = string_number (js_string v)"

fun truthy :: "json \<Rightarrow> bool" where
  "truthy JNull = False"
| "truthy (JBool b) = b"
| "truthy (JNum n) = (n \<noteq> NaN \<and> n \<noteq> Dec 0 0)"
| "truthy (JStr s) = (s \<noteq> [])"
| "truthy _ = True"

text \<open>\<open>a ?? b\<close>: the right operand only where the left is \<open>null\<close> or \<open>undefined\<close>.\<close>

definition coalesce :: "json option \<Rightarrow> json \<Rightarrow> json" where
  "coalesce v d = (case v of None \<Rightarrow> d | Some JNull \<Rightarrow> d | Some x \<Rightarrow> x)"

text \<open>\<open>typeof v === 'string'\<close>, with the string.\<close>

definition as_string :: "json option \<Rightarrow> string option" where
  "as_string v = (case v of Some (JStr s) \<Rightarrow> Some s | _ \<Rightarrow> None)"

lemma coalesce_simps [simp]:
  "coalesce None d = d" "coalesce (Some JNull) d = d" "coalesce (Some (JStr s)) d = JStr s"
  "coalesce (Some (JBool b)) d = JBool b" "coalesce (Some (JNum n)) d = JNum n"
  "coalesce (Some (JArr xs)) d = JArr xs" "coalesce (Some (JObj m)) d = JObj m"
  by (simp_all add: coalesce_def)

lemma as_string_Some_iff [simp]: "as_string v = Some s \<longleftrightarrow> v = Some (JStr s)"
  by (auto simp: as_string_def split: option.splits json.splits)

text \<open>\<open>localeCompare\<close> is left to the host by the language. What the code relies on is that it
  orders strings consistently; the model takes it as an argument. \<open>compare_code_units\<close> is the
  plain code-unit order, one such collation.\<close>

fun compare_code_units :: "string \<Rightarrow> string \<Rightarrow> int" where
  "compare_code_units [] [] = 0"
| "compare_code_units [] (b # bs) = -1"
| "compare_code_units (a # as) [] = 1"
| "compare_code_units (a # as) (b # bs) =
     (if code a < code b then -1 else if code b < code a then 1 else compare_code_units as bs)"

lemma compare_code_units_trans:
  "compare_code_units a b \<le> 0 \<Longrightarrow> compare_code_units b c \<le> 0 \<Longrightarrow> compare_code_units a c \<le> 0"
proof (induction a arbitrary: b c)
  case Nil
  then show ?case by (cases c) simp_all
next
  case (Cons x xs)
  then obtain y ys where b: "b = y # ys" by (cases b) simp_all
  with Cons.prems obtain z zs where c: "c = z # zs" by (cases c) simp_all
  from Cons.prems Cons.IH[of ys zs] show ?case
    unfolding b c by (simp split: if_splits)
qed

lemma compare_code_units_total: "compare_code_units a b \<le> 0 \<or> compare_code_units b a \<le> 0"
  by (induction a b rule: compare_code_units.induct) simp_all

interpretation code_units: comparator compare_code_units
  using compare_code_units_total compare_code_units_trans by unfold_locales

interpretation code_unit_collation: collation compare_code_units
  using compare_code_units_total compare_code_units_trans by unfold_locales

end
