(* ===== verification/NumberText.thy ===== *)
theory NumberText
  imports JsValue
begin

section \<open>The text of a number is read back\<close>

text \<open>
  \<open>String(n)\<close> and the number literals of the language are inverse on finite numbers: a number kept as its shortest
  decimal is printed in one of the four notations of \<open>Number::toString\<close> and read back as the same number.
\<close>

lemma digits_val_Nil [simp]: "digits_val [] = 0"
  by (simp add: digits_val_def)

text \<open>A finite number kept as its shortest decimal.\<close>

definition canonical :: "jsnum \<Rightarrow> bool" where
  "canonical n = (case n of Dec m e \<Rightarrow> norm_dec m e = Dec m e | _ \<Rightarrow> False)"

lemma norm_dec_power: "norm_dec (m * 10 ^ j) e = norm_dec m (e + int j)"
proof (induction j arbitrary: e)
  case (Suc j)
  show ?case
  proof (cases "m = 0")
    case False
    have "m * 10 ^ Suc j mod 10 = 0" "m * 10 ^ Suc j div 10 = m * 10 ^ j" by simp_all
    with False Suc[of "e + 1"] show ?thesis by (subst norm_dec.simps) (simp add: algebra_simps)
  qed (simp add: norm_dec.simps)
qed simp

lemma digits_val_snoc: "digits_val (s @ [c]) = 10 * digits_val s + int (code c - 48)"
  by (simp add: digits_val_def)

lemma digits_val_append: "digits_val (a @ b) = digits_val a * 10 ^ length b + digits_val b"
proof (induction b rule: rev_induct)
  case (snoc c b)
  have "digits_val (a @ b @ [c]) = 10 * digits_val (a @ b) + int (code c - 48)"
    using digits_val_snoc[of "a @ b" c] by simp
  with snoc show ?case by (simp add: digits_val_snoc algebra_simps)
qed (simp add: digits_val_def)

lemma digits_val_noughts [simp]: "digits_val (replicate j (CHR ''0'')) = 0"
proof -
  have "code (CHR ''0'') = 48" by code_simp
  then have "foldl (\<lambda>a c. 10 * a + int (code c - 48)) 0 (replicate j (CHR ''0'')) = 0" by (induction j) simp_all
  then show ?thesis by (simp add: digits_val_def)
qed

lemma no_digit: "\<not> is_digit (CHR ''.'')" "\<not> is_digit (CHR ''e'')" "\<not> is_digit (CHR ''-'')" "\<not> is_digit (CHR ''+'')"
  "is_digit (CHR ''0'')"
  by code_simp+

lemma digits_prefix:
  assumes "list_all is_digit ds" and "r = [] \<or> \<not> is_digit (hd r)"
  shows "takeWhile is_digit (ds @ r) = ds" and "dropWhile is_digit (ds @ r) = r"
proof -
  have "takeWhile is_digit r = [] \<and> dropWhile is_digit r = r" using assms(2) by (cases r) auto
  with assms(1) show "takeWhile is_digit (ds @ r) = ds" "dropWhile is_digit (ds @ r) = r"
    by (induction ds) auto
qed

lemma read_exponent_printed:
  "read_exponent ((if x < 0 then ''e-'' else ''e+'') @ nat_digits (nat \<bar>x\<bar>)) = Some x"
proof -
  note digits = nat_digits_read[of "nat \<bar>x\<bar>"]
  show ?thesis
  proof (cases "x < 0")
    case True
    with digits show ?thesis by (simp add: read_exponent_def signed_rest_def)
  next
    case False
    with digits show ?thesis by (simp add: read_exponent_def signed_rest_def)
  qed
qed

text \<open>A literal of whole digits, and one with a fraction.\<close>

lemma read_whole:
  assumes "list_all is_digit ip" and "ip \<noteq> []" and "r = [] \<or> hd r = CHR ''e''"
  shows "read_decimal (ip @ r) = map_option (\<lambda>x. (ip, None, x)) (read_exponent r)"
proof -
  have r: "r = [] \<or> \<not> is_digit (hd r)" using assms(3) no_digit by auto
  show ?thesis unfolding read_decimal_def Let_def digits_prefix[OF assms(1) r] using assms(2,3) no_digit by auto
qed

lemma read_fraction:
  assumes "list_all is_digit ip" and "ip \<noteq> []" and "list_all is_digit fp" and "r = [] \<or> hd r = CHR ''e''"
  shows "read_decimal (ip @ CHR ''.'' # fp @ r) = map_option (\<lambda>x. (ip, Some fp, x)) (read_exponent r)"
proof -
  have r: "r = [] \<or> \<not> is_digit (hd r)" using assms(4) no_digit by auto
  have point: "CHR ''.'' # fp @ r = [] \<or> \<not> is_digit (hd (CHR ''.'' # fp @ r))" using no_digit by simp
  show ?thesis unfolding read_decimal_def Let_def digits_prefix[OF assms(1) point] using assms(2)
    by (simp add: digits_prefix[OF assms(3) r])
qed

lemma nat_digits_head: "0 < n \<Longrightarrow> hd (nat_digits n) \<noteq> CHR ''0''"
proof (induction n rule: nat_digits.induct)
  case (1 n)
  show ?case
  proof (cases "n < 10")
    case True
    have "code (CHR ''0'') = 48" by code_simp
    with True 1(2) have "code (char_of (48 + n)) \<noteq> code (CHR ''0'')" by simp
    then have "char_of (48 + n) \<noteq> CHR ''0''" by metis
    with True show ?thesis by (simp add: nat_digits.simps[of n])
  next
    case False
    with 1 nat_digits_read[of "n div 10"] show ?thesis by (simp add: nat_digits.simps[of n] hd_append)
  qed
qed

lemma nat_digits_single: "n < 10 \<Longrightarrow> length (nat_digits n) = 1"
  by (simp add: nat_digits.simps[of n])

text \<open>What the printed digits are read as.\<close>

definition literal_of :: "nat \<Rightarrow> int \<Rightarrow> string \<times> string option \<times> int" where
  "literal_of m e = (let s = nat_digits m; k = int (length s); n = k + e in
     if k \<le> n \<and> n \<le> 21 then (s @ replicate (nat (n - k)) (CHR ''0''), None, 0)
     else if 0 < n \<and> n \<le> 21 then (take (nat n) s, Some (drop (nat n) s), 0)
     else if - 6 < n \<and> n \<le> 0 then (''0'', Some (replicate (nat (- n)) (CHR ''0'') @ s), 0)
     else if length s = 1 then (s, None, n - 1) else (take 1 s, Some (drop 1 s), n - 1))"

lemma digits_parts: "list_all is_digit (take i (nat_digits n))" "list_all is_digit (drop i (nat_digits n))"
  "list_all is_digit (replicate j (CHR ''0''))"
  using nat_digits_read[of n] no_digit(5) by (auto simp: list_all_iff dest: in_set_takeD in_set_dropD)

lemma read_printed: "read_decimal (dec_string m e) = Some (literal_of m e)"
proof -
  define s where "s = nat_digits m"
  define k where "k = int (length s)"
  define n where "n = k + e"
  define ex where "ex = (if n - 1 < 0 then ''e-'' else ''e+'') @ nat_digits (nat \<bar>n - 1\<bar>)"
  have s: "list_all is_digit s" "s \<noteq> []" using nat_digits_read[of m] by (simp_all add: s_def)
  have digits: "list_all is_digit (take i s)" "list_all is_digit (drop i s)" "list_all is_digit (replicate j (CHR ''0''))" for i j
    using digits_parts by (simp_all add: s_def)
  have none: "read_exponent [] = Some 0" by (simp add: read_exponent_def)
  have exp: "read_exponent ex = Some (n - 1)" unfolding ex_def by (rule read_exponent_printed)
  have e: "ex = [] \<or> hd ex = CHR ''e''" by (simp add: ex_def)
  have printed: "dec_string m e = (if k \<le> n \<and> n \<le> 21 then s @ replicate (nat (n - k)) (CHR ''0'')
     else if 0 < n \<and> n \<le> 21 then take (nat n) s @ ''.'' @ drop (nat n) s
     else if - 6 < n \<and> n \<le> 0 then ''0.'' @ replicate (nat (- n)) (CHR ''0'') @ s
     else (if length s = 1 then s else take 1 s @ ''.'' @ drop 1 s) @ ex)"
    by (simp add: dec_string_def Let_def s_def k_def n_def ex_def)
  have lit: "literal_of m e = (if k \<le> n \<and> n \<le> 21 then (s @ replicate (nat (n - k)) (CHR ''0''), None, 0)
     else if 0 < n \<and> n \<le> 21 then (take (nat n) s, Some (drop (nat n) s), 0)
     else if - 6 < n \<and> n \<le> 0 then (''0'', Some (replicate (nat (- n)) (CHR ''0'') @ s), 0)
     else if length s = 1 then (s, None, n - 1) else (take 1 s, Some (drop 1 s), n - 1))"
    by (simp add: literal_of_def Let_def s_def k_def n_def)
  consider "k \<le> n \<and> n \<le> 21" | "\<not> (k \<le> n \<and> n \<le> 21)" "0 < n \<and> n \<le> 21"
    | "\<not> (k \<le> n \<and> n \<le> 21)" "\<not> (0 < n \<and> n \<le> 21)" "- 6 < n \<and> n \<le> 0"
    | "\<not> (k \<le> n \<and> n \<le> 21)" "\<not> (0 < n \<and> n \<le> 21)" "\<not> (- 6 < n \<and> n \<le> 0)" by blast
  then show ?thesis
  proof cases
    case 1
    with s read_whole[of "s @ replicate (nat (n - k)) (CHR ''0'')" "[]"] digits(3) none show ?thesis
      unfolding printed lit by simp
  next
    case 2
    then have "take (nat n) s \<noteq> []" using s by simp
    from read_fraction[OF digits(1) this digits(2), of "[]"] none 2 show ?thesis unfolding printed lit by simp
  next
    case 3
    with s read_fraction[of "''0''" "replicate (nat (- n)) (CHR ''0'') @ s" "[]"] digits(3) no_digit(5) none show ?thesis
      unfolding printed lit by simp
  next
    case 4
    show ?thesis
    proof (cases "length s = 1")
      case True
      with read_whole[OF s e] exp show ?thesis
        unfolding printed lit if_not_P[OF 4(1)] if_not_P[OF 4(2)] if_not_P[OF 4(3)] by (simp del: One_nat_def)
    next
      case False
      have "take 1 s \<noteq> []" using s by simp
      from read_fraction[OF digits(1) this digits(2) e] exp False show ?thesis
        unfolding printed lit if_not_P[OF 4(1)] if_not_P[OF 4(2)] if_not_P[OF 4(3)] by (simp del: One_nat_def)
    qed
  qed
qed


lemma literal_value: "decimal_value neg (literal_of m e) = norm_dec (if neg then - int m else int m) e"
proof -
  define s where "s = nat_digits m"
  define n where "n = int (length s) + e"
  define v where "v = (if neg then - int m else int m)"
  have s: "s \<noteq> []" "digits_val s = int m" using nat_digits_read[of m] by (simp_all add: s_def)
  have lit: "literal_of m e = (if int (length s) \<le> n \<and> n \<le> 21 then (s @ replicate (nat e) (CHR ''0''), None, 0)
     else if 0 < n \<and> n \<le> 21 then (take (nat n) s, Some (drop (nat n) s), 0)
     else if - 6 < n \<and> n \<le> 0 then (''0'', Some (replicate (nat (- n)) (CHR ''0'') @ s), 0)
     else if length s = 1 then (s, None, n - 1) else (take 1 s, Some (drop 1 s), n - 1))"
    by (simp add: literal_of_def Let_def s_def n_def)
  have zero: "digits_val (CHR ''0'' # t) = digits_val t" for t
    using digits_val_append[of "replicate 1 (CHR ''0'')" t] digits_val_noughts[of 1] by simp
  consider "int (length s) \<le> n \<and> n \<le> 21" | "\<not> (int (length s) \<le> n \<and> n \<le> 21)" "0 < n \<and> n \<le> 21"
    | "\<not> (int (length s) \<le> n \<and> n \<le> 21)" "\<not> (0 < n \<and> n \<le> 21)" "- 6 < n \<and> n \<le> 0"
    | "\<not> (int (length s) \<le> n \<and> n \<le> 21)" "\<not> (0 < n \<and> n \<le> 21)" "\<not> (- 6 < n \<and> n \<le> 0)" by blast
  then have "decimal_value neg (literal_of m e) = norm_dec v e"
  proof cases
    case 1
    then have "0 \<le> e" by (simp add: n_def)
    with 1 norm_dec_power[of v "nat e" 0] show ?thesis
      by (cases neg) (simp_all add: lit decimal_value_def digits_val_append s v_def)
  next
    case 2
    then have "length (drop (nat n) s) = length s - nat n" "nat n \<le> length s" by auto
    with 2 have "- int (length (drop (nat n) s)) = e" by (simp add: n_def)
    with 2 show ?thesis by (simp add: lit decimal_value_def s v_def)
  next
    case 3
    then show ?thesis by (simp add: lit decimal_value_def digits_val_append zero s v_def n_def)
  next
    case 4
    show ?thesis
    proof (cases "length s = 1")
      case True
      then show ?thesis unfolding lit if_not_P[OF 4(1)] if_not_P[OF 4(2)] if_not_P[OF 4(3)]
        by (simp add: decimal_value_def s v_def n_def)
    next
      case False
      then have "1 \<le> length s" using s(1) by (cases s) auto
      then have "n - 1 - int (length (drop 1 s)) = e" by (simp add: n_def)
      with False s(2) show ?thesis unfolding lit if_not_P[OF 4(1)] if_not_P[OF 4(2)] if_not_P[OF 4(3)]
        by (simp add: decimal_value_def v_def del: One_nat_def)
    qed
  qed
  then show ?thesis by (simp add: v_def)
qed

text \<open>The digits before the point are some, start with a nought only where that is all of them, and a point has digits
  behind it.\<close>

lemma literal_well_formed:
  assumes "m = 0 \<Longrightarrow> e = 0" and "literal_of m e = (ip, fp, x)"
  shows "ip \<noteq> [] \<and> (1 < length ip \<longrightarrow> hd ip \<noteq> CHR ''0'') \<and> fp \<noteq> Some []"
proof -
  define s where "s = nat_digits m"
  define n where "n = int (length s) + e"
  have s: "s \<noteq> []" using nat_digits_read[of m] by (simp add: s_def)
  have lead: "0 < m \<Longrightarrow> hd s \<noteq> CHR ''0''" using nat_digits_head by (simp add: s_def)
  have nought: "m = 0 \<Longrightarrow> length s = 1 \<and> n = 1" using assms(1) by (simp add: s_def n_def nat_digits.simps[of 0])
  have lit: "(ip, fp, x) = (if int (length s) \<le> n \<and> n \<le> 21 then (s @ replicate (nat e) (CHR ''0''), None, 0)
     else if 0 < n \<and> n \<le> 21 then (take (nat n) s, Some (drop (nat n) s), 0)
     else if - 6 < n \<and> n \<le> 0 then (''0'', Some (replicate (nat (- n)) (CHR ''0'') @ s), 0)
     else if length s = 1 then (s, None, n - 1) else (take 1 s, Some (drop 1 s), n - 1))"
    unfolding assms(2)[symmetric] by (simp add: literal_of_def Let_def s_def n_def)
  show ?thesis
  proof (cases "m = 0")
    case True
    with nought assms(1) lit s show ?thesis by simp
  next
    case False
    then have h: "hd s \<noteq> CHR ''0''" "length s \<noteq> 1 \<Longrightarrow> drop 1 s \<noteq> []" using lead s by (cases s; auto)+
    from lit s h show ?thesis by (auto split: if_splits)
  qed
qed

text \<open>The characters of a printed number.\<close>

definition number_char :: "char \<Rightarrow> bool" where
  "number_char c \<longleftrightarrow> is_digit c \<or> c \<in> {CHR ''+'', CHR ''-'', CHR ''.'', CHR ''e'', CHR ''E''}"

lemma printed_chars: "list_all number_char (dec_string m e)"
proof -
  have d: "list_all number_char (nat_digits k)" for k
    using nat_digits_read[of k] by (auto simp: list_all_iff number_char_def)
  then have "list_all number_char (take i (nat_digits k))" "list_all number_char (drop i (nat_digits k))" for i k
    by (auto simp: list_all_iff dest: in_set_takeD in_set_dropD)
  moreover have "list_all number_char (replicate j (CHR ''0''))" for j using digits_parts(3)[of j]
    by (simp add: list_all_iff number_char_def)
  moreover have "number_char (CHR ''.'')" "number_char (CHR ''e'')" "number_char (CHR ''-'')" "number_char (CHR ''+'')"
    "number_char (CHR ''0'')" using no_digit(5) by (simp_all add: number_char_def)
  ultimately show ?thesis using d unfolding dec_string_def Let_def by (simp del: One_nat_def)
qed

lemma printed_head: "dec_string m e \<noteq> [] \<and> is_digit (hd (dec_string m e))"
proof -
  obtain c s where s: "nat_digits m = c # s" "is_digit c" using nat_digits_read[of m] by (cases "nat_digits m") auto
  have "take (nat i) (c # s) = c # take (nat i - 1) s" if "0 < i" for i
    using that by (cases "nat i") auto
  with s no_digit(5) show ?thesis by (simp add: dec_string_def Let_def)
qed

end
