(* ===== verification/JsonText.thy ===== *)
theory JsonText
  imports NumberText
begin

section \<open>JSON text: \<open>JSON.stringify\<close> and \<open>JSON.parse\<close>\<close>

text \<open>
  The two functions of the standard library through which the code keeps structured values in a
  string property or in the browser's storage. The printer and the reader go through tokens: a
  value is printed token by token, and read by a machine over the tokens with an explicit stack
  of the arrays and objects still open. A syntax error is \<open>None\<close>, the exception of the language.
  The theorem of the theory is that what is printed is read back.
\<close>

subsection \<open>Tokens\<close>

datatype token = TOpenArr | TCloseArr | TOpenObj | TCloseObj | TColon | TComma
  | TStr string | TNum jsnum | TBool bool | TNull

definition hex_digit :: "nat \<Rightarrow> char" where
  "hex_digit n = char_of (if n < 10 then 48 + n else 87 + n)"

text \<open>The escapes \<open>JSON.stringify\<close> writes: the two-character ones, and \<open>\u00XX\<close> for the other
  control characters.\<close>

definition escape_char :: "char \<Rightarrow> string" where
  "escape_char c = (let n = code c in
     if c = CHR 0x22 then [CHR 0x5C, CHR 0x22]
     else if c = CHR 0x5C then [CHR 0x5C, CHR 0x5C]
     else if n = 8 then [CHR 0x5C, CHR ''b'']
     else if n = 9 then [CHR 0x5C, CHR ''t'']
     else if n = 10 then [CHR 0x5C, CHR ''n'']
     else if n = 12 then [CHR 0x5C, CHR ''f'']
     else if n = 13 then [CHR 0x5C, CHR ''r'']
     else if n < 32 then [CHR 0x5C, CHR ''u'', CHR ''0'', CHR ''0'', hex_digit (n div 16), hex_digit (n mod 16)]
     else [c])"

definition quote :: "string \<Rightarrow> string" where
  "quote s = CHR 0x22 # concat (map escape_char s) @ [CHR 0x22]"

fun token_text :: "token \<Rightarrow> string" where
  "token_text TOpenArr = ''[''"
| "token_text TCloseArr = '']''"
| "token_text TOpenObj = ''{''"
| "token_text TCloseObj = ''}''"
| "token_text TColon = '':''"
| "token_text TComma = '',''"
| "token_text (TStr s) = quote s"
| "token_text (TNum n) = num_string n"
| "token_text (TBool b) = (if b then ''true'' else ''false'')"
| "token_text TNull = ''null''"

subsection \<open>Printing\<close>

fun sep_concat :: "'a list \<Rightarrow> 'a list list \<Rightarrow> 'a list" where
  "sep_concat s [] = []"
| "sep_concat s [x] = x"
| "sep_concat s (x # y # ys) = x @ s @ sep_concat s (y # ys)"

text \<open>A number that is not finite prints as \<open>null\<close>.\<close>

fun tokens_of :: "json \<Rightarrow> token list" where
  "tokens_of JNull = [TNull]"
| "tokens_of (JBool b) = [TBool b]"
| "tokens_of (JNum n) = (if is_finite n then [TNum n] else [TNull])"
| "tokens_of (JStr s) = [TStr s]"
| "tokens_of (JArr xs) = TOpenArr # sep_concat [TComma] (map tokens_of xs) @ [TCloseArr]"
| "tokens_of (JObj m) = TOpenObj # sep_concat [TComma] (map (\<lambda>(k, v). TStr k # TColon # tokens_of v) m) @ [TCloseObj]"

definition json_stringify :: "json \<Rightarrow> string" where
  "json_stringify v = concat (map token_text (tokens_of v))"

subsection \<open>Reading tokens\<close>

definition json_space :: "char \<Rightarrow> bool" where
  "json_space c \<longleftrightarrow> code c \<in> {9, 10, 13, 32}"

text \<open>The rest of a string after its opening quote: its characters and the text behind the
  closing quote. A code unit of 256 and above has no character here and is refused.\<close>

fun read_string :: "string \<Rightarrow> (string \<times> string) option" where
  "read_string [] = None"
| "read_string (c # r) =
    (if c = CHR 0x22 then Some ([], r)
     else if c = CHR 0x5C then
       (case r of
          [] \<Rightarrow> None
        | e # r' \<Rightarrow>
           (if e = CHR ''u'' then
              (case r' of
                 h1 # h2 # h3 # h4 # r'' \<Rightarrow>
                   (case (hex_val h1, hex_val h2, hex_val h3, hex_val h4) of
                      (Some 0, Some 0, Some a, Some b) \<Rightarrow>
                        map_option (\<lambda>(s, t). (char_of (16 * a + b) # s, t)) (read_string r'')
                    | _ \<Rightarrow> None)
               | _ \<Rightarrow> None)
            else
              (case map_of [(CHR 0x22, CHR 0x22), (CHR 0x5C, CHR 0x5C), (CHR ''/'', CHR ''/''),
                            (CHR ''b'', CHR 0x08), (CHR ''t'', CHR 0x09), (CHR ''n'', CHR 0x0A),
                            (CHR ''f'', CHR 0x0C), (CHR ''r'', CHR 0x0D)] e of
                 Some d \<Rightarrow> map_option (\<lambda>(s, t). (d # s, t)) (read_string r')
               | None \<Rightarrow> None)))
     else if code c < 32 then None
     else map_option (\<lambda>(s, t). (c # s, t)) (read_string r))"

lemma read_string_shorter: "read_string s = Some (a, r) \<Longrightarrow> length r < length s"
  by (induction s arbitrary: a r rule: read_string.induct)
     (auto split: if_splits list.splits option.splits nat.splits, fastforce+)

text \<open>JSON's own number grammar: no leading zero, no bare point.\<close>

definition json_number :: "string \<Rightarrow> jsnum option" where
  "json_number s = (let (neg, u) = (if s \<noteq> [] \<and> hd s = CHR ''-'' then (True, tl s) else (False, s)) in
     case read_decimal u of
       None \<Rightarrow> None
     | Some (ip, fp, x) \<Rightarrow>
         if ip = [] \<or> (1 < length ip \<and> hd ip = CHR ''0'') \<or> fp = Some [] then None
         else Some (decimal_value neg (ip, fp, x)))"

definition punctuation :: "char \<Rightarrow> token option" where
  "punctuation c = map_of [(CHR ''['', TOpenArr), (CHR '']'', TCloseArr), (CHR ''{'', TOpenObj),
     (CHR ''}'', TCloseObj), (CHR '':'', TColon), (CHR '','', TComma)] c"

function lex :: "string \<Rightarrow> token list option" where
  "lex [] = Some []"
| "lex (c # r) =
    (if json_space c then lex r
     else case punctuation c of
       Some t \<Rightarrow> map_option ((#) t) (lex r)
     | None \<Rightarrow>
        if c = CHR 0x22 then
          (case read_string r of None \<Rightarrow> None | Some (s, r') \<Rightarrow> map_option ((#) (TStr s)) (lex r'))
        else if c = CHR ''t'' then
          (if take 3 r = ''rue'' then map_option ((#) (TBool True)) (lex (drop 3 r)) else None)
        else if c = CHR ''f'' then
          (if take 4 r = ''alse'' then map_option ((#) (TBool False)) (lex (drop 4 r)) else None)
        else if c = CHR ''n'' then
          (if take 3 r = ''ull'' then map_option ((#) TNull) (lex (drop 3 r)) else None)
        else
          (case json_number (takeWhile number_char (c # r)) of
             None \<Rightarrow> None
           | Some n \<Rightarrow> map_option ((#) (TNum n)) (lex (drop (length (takeWhile number_char (c # r)) - 1) r))))"
  by pat_completeness auto
termination
  by (relation "measure length") (auto dest: read_string_shorter)

declare lex.simps [simp del]

subsection \<open>Reading values\<close>

text \<open>What is still open around the reading position: an array with its elements so far, or an
  object with its members so far and the key whose value is being read.\<close>

datatype frame = FArr "json list" | FObj props string

datatype reading =
    Want "frame list"
  | WantFirst "frame list"
  | WantKeyFirst "frame list"
  | WantKey "frame list" props
  | WantColon "frame list" props string
  | Got "frame list" json

fun begin_value :: "frame list \<Rightarrow> token \<Rightarrow> reading option" where
  "begin_value fs (TStr s) = Some (Got fs (JStr s))"
| "begin_value fs (TNum n) = Some (Got fs (JNum n))"
| "begin_value fs (TBool b) = Some (Got fs (JBool b))"
| "begin_value fs TNull = Some (Got fs JNull)"
| "begin_value fs TOpenArr = Some (WantFirst fs)"
| "begin_value fs TOpenObj = Some (WantKeyFirst fs)"
| "begin_value fs _ = None"

text \<open>One token. A member named twice keeps the later value, as \<open>JSON.parse\<close> does.\<close>

fun read_token :: "reading \<Rightarrow> token \<Rightarrow> reading option" where
  "read_token (Want fs) t = begin_value fs t"
| "read_token (WantFirst fs) TCloseArr = Some (Got fs (JArr []))"
| "read_token (WantFirst fs) t = begin_value (FArr [] # fs) t"
| "read_token (WantKeyFirst fs) TCloseObj = Some (Got fs (JObj []))"
| "read_token (WantKeyFirst fs) (TStr k) = Some (WantColon fs [] k)"
| "read_token (WantKey fs m) (TStr k) = Some (WantColon fs m k)"
| "read_token (WantColon fs m k) TColon = Some (Want (FObj m k # fs))"
| "read_token (Got (FArr xs # fs) v) TComma = Some (Want (FArr (xs @ [v]) # fs))"
| "read_token (Got (FArr xs # fs) v) TCloseArr = Some (Got fs (JArr (xs @ [v])))"
| "read_token (Got (FObj m k # fs) v) TComma = Some (WantKey fs (oput k v m))"
| "read_token (Got (FObj m k # fs) v) TCloseObj = Some (Got fs (JObj (oput k v m)))"
| "read_token _ _ = None"

fun read_tokens :: "reading \<Rightarrow> token list \<Rightarrow> reading option" where
  "read_tokens st [] = Some st"
| "read_tokens st (t # ts) = (case read_token st t of None \<Rightarrow> None | Some st' \<Rightarrow> read_tokens st' ts)"

definition json_parse :: "string \<Rightarrow> json option" where
  "json_parse s = (case lex s of None \<Rightarrow> None
     | Some ts \<Rightarrow> (case read_tokens (Want []) ts of Some (Got [] v) \<Rightarrow> Some v | _ \<Rightarrow> None))"

subsection \<open>What is printed is read back\<close>

text \<open>The values whose text is read back exactly: every number inside finite, and no object with a member twice.\<close>

fun plain :: "json \<Rightarrow> bool" where
  "plain (JNum n) = canonical n"
| "plain (JArr xs) = list_all plain xs"
| "plain (JObj m) = (distinct (map fst m) \<and> list_all (\<lambda>kv. plain (snd kv)) m)"
| "plain _ = True"

lemma hex_val_digit: "n < 16 \<Longrightarrow> hex_val (hex_digit n) = Some n"
  by (auto simp: hex_val_def hex_digit_def Let_def)

lemma code_inj: "code c = code d \<longleftrightarrow> c = d"
  by (simp add: code_def)

lemma char_of_code [simp]: "char_of (code c) = c"
  by (simp add: code_def)

lemma code_named:
  "code c = 8 \<longleftrightarrow> c = CHR 0x08" "code c = 9 \<longleftrightarrow> c = CHR 0x09" "code c = 10 \<longleftrightarrow> c = CHR 0x0A"
  "code c = 12 \<longleftrightarrow> c = CHR 0x0C" "code c = 13 \<longleftrightarrow> c = CHR 0x0D" "code c = 32 \<longleftrightarrow> c = CHR 0x20"
proof -
  have "code (CHR 0x08) = 8" "code (CHR 0x09) = 9" "code (CHR 0x0A) = 10" "code (CHR 0x0C) = 12"
    "code (CHR 0x0D) = 13" "code (CHR 0x20) = 32" by code_simp+
  then show "code c = 8 \<longleftrightarrow> c = CHR 0x08" "code c = 9 \<longleftrightarrow> c = CHR 0x09" "code c = 10 \<longleftrightarrow> c = CHR 0x0A"
    "code c = 12 \<longleftrightarrow> c = CHR 0x0C" "code c = 13 \<longleftrightarrow> c = CHR 0x0D" "code c = 32 \<longleftrightarrow> c = CHR 0x20"
    by (metis code_inj)+
qed

lemma read_string_control:
  assumes "code c < 32"
  shows "read_string ([CHR 0x5C, CHR ''u'', CHR ''0'', CHR ''0'', hex_digit (code c div 16), hex_digit (code c mod 16)] @ t)
    = map_option (\<lambda>(s, r). (c # s, r)) (read_string t)"
proof -
  from assms have "hex_val (hex_digit (code c div 16)) = Some (code c div 16)"
    "hex_val (hex_digit (code c mod 16)) = Some (code c mod 16)"
    by (auto intro!: hex_val_digit)
  moreover have "hex_val (CHR ''0'') = Some 0" by code_simp
  ultimately show ?thesis by simp
qed

lemma read_string_escape: "read_string (escape_char c @ t) = map_option (\<lambda>(s, r). (c # s, r)) (read_string t)"
proof (cases "c \<in> {CHR 0x22, CHR 0x5C, CHR 0x08, CHR 0x09, CHR 0x0A, CHR 0x0C, CHR 0x0D}")
  case True
  then show ?thesis by (auto simp: escape_char_def Let_def code_named)
next
  case named: False
  show ?thesis
  proof (cases "code c < 32")
    case True
    with named have "escape_char c = [CHR 0x5C, CHR ''u'', CHR ''0'', CHR ''0'', hex_digit (code c div 16), hex_digit (code c mod 16)]"
      by (simp add: escape_char_def Let_def code_named)
    with read_string_control[OF True] show ?thesis by (simp only: append_Cons append_Nil)
  next
    case False
    with named have "escape_char c = [c]" by (simp add: escape_char_def Let_def code_named)
    with named False show ?thesis by simp
  qed
qed

lemma read_string_quote: "read_string (concat (map escape_char s) @ CHR 0x22 # r) = Some (s, r)"
  by (induction s) (simp_all add: read_string_escape)

lemma json_number_printed: "canonical n \<Longrightarrow> json_number (num_string n) = Some n"
proof (cases n)
  case (Dec m e)
  assume "canonical n"
  with Dec have c: "norm_dec m e = Dec m e" by (simp add: canonical_def)
  then have nought: "m = 0 \<Longrightarrow> e = 0" by (subst (asm) norm_dec.simps) simp
  obtain ip fp x where lit: "literal_of (nat \<bar>m\<bar>) e = (ip, fp, x)" by (metis prod_cases3)
  have "decimal_value (m < 0) (literal_of (nat \<bar>m\<bar>) e) = n" using c Dec by (simp add: literal_value)
  moreover have "ip \<noteq> [] \<and> (1 < length ip \<longrightarrow> hd ip \<noteq> CHR ''0'') \<and> fp \<noteq> Some []"
    using literal_well_formed[OF _ lit] nought by simp
  moreover have "hd (dec_string (nat m) e) \<noteq> CHR ''-''" using printed_head[of "nat m" e] no_digit(3) by metis
  ultimately show ?thesis using Dec lit read_printed[of "nat \<bar>m\<bar>" e] printed_head[of "nat m" e]
    by (cases "m < 0") (auto simp: json_number_def)
qed (simp_all add: canonical_def)

fun token_plain :: "token \<Rightarrow> bool" where
  "token_plain (TNum n) = canonical n"
| "token_plain _ = True"

text \<open>A number ends where no character of a number follows it.\<close>

fun tokens_apart :: "token list \<Rightarrow> bool" where
  "tokens_apart (TNum n # t # ts) = (t \<in> {TComma, TCloseArr, TCloseObj} \<and> tokens_apart (t # ts))"
| "tokens_apart (t # ts) = tokens_apart ts"
| "tokens_apart [] = True"

lemma json_space_chars: "json_space c \<longleftrightarrow> c \<in> {CHR 0x09, CHR 0x0A, CHR 0x0D, CHR 0x20}"
  by (simp add: json_space_def code_named)

lemma number_head: "canonical n \<Longrightarrow> \<exists>c s. num_string n = c # s \<and> (is_digit c \<or> c = CHR ''-'')"
proof (cases n)
  case (Dec m e)
  then show ?thesis using printed_head[of "nat m" e] by (cases "m < 0"; cases "dec_string (nat m) e") auto
qed (simp_all add: canonical_def)

lemma number_chars: "canonical n \<Longrightarrow> list_all number_char (num_string n)"
proof (cases n)
  case (Dec m e)
  then show ?thesis using printed_chars by (simp add: number_char_def)
qed (simp_all add: canonical_def)

lemma lex_number:
  assumes "canonical n" and "r = [] \<or> \<not> number_char (hd r)"
  shows "lex (num_string n @ r) = map_option ((#) (TNum n)) (lex r)"
proof -
  obtain c s where n: "num_string n = c # s" and c: "is_digit c \<or> c = CHR ''-''" using number_head[OF assms(1)] by blast
  have "takeWhile number_char r = []" using assms(2) by (cases r) auto
  with number_chars[OF assms(1)] have taken: "takeWhile number_char (c # s @ r) = c # s"
    unfolding n by (simp add: takeWhile_append list_all_iff)
  have "\<not> json_space c" "punctuation c = None" "c \<noteq> CHR 0x22" "c \<noteq> CHR ''t''" "c \<noteq> CHR ''f''" "c \<noteq> CHR ''n''"
    using c by (auto simp: json_space_def punctuation_def is_digit_def code_def)
  then show ?thesis unfolding n append_Cons
    by (subst lex.simps(2)) (simp only: taken json_number_printed[OF assms(1), unfolded n] if_False option.case, simp)
qed

lemma lex_token: "token_plain t \<Longrightarrow> (\<forall>n. t = TNum n \<longrightarrow> r = [] \<or> \<not> number_char (hd r)) \<Longrightarrow>
    lex (token_text t @ r) = map_option ((#) t) (lex r)"
proof (cases t)
  case (TNum n)
  moreover assume "token_plain t" "\<forall>n. t = TNum n \<longrightarrow> r = [] \<or> \<not> number_char (hd r)"
  ultimately show ?thesis using lex_number[of n r] by simp
qed (simp_all add: lex.simps(2) json_space_chars punctuation_def quote_def read_string_quote)

lemma lex_tokens: "list_all token_plain ts \<Longrightarrow> tokens_apart ts \<Longrightarrow> lex (concat (map token_text ts)) = Some ts"
proof (induction ts)
  case (Cons t ts)
  have "concat (map token_text ts) = [] \<or> \<not> number_char (hd (concat (map token_text ts)))" if "t = TNum n" for n
    using Cons.prems(2) that by (cases ts) (auto simp: number_char_def is_digit_def code_def)
  moreover have "tokens_apart ts" using Cons.prems(2) by (cases "(t # ts)" rule: tokens_apart.cases) auto
  ultimately show ?case using Cons by (simp add: lex_token)
qed (simp add: lex.simps(1))

lemma list_all_sep_concat:
  "list_all P s \<Longrightarrow> list_all (list_all P) xs \<Longrightarrow> list_all P (sep_concat s xs)"
  by (induction s xs rule: sep_concat.induct) auto

lemma token_plain_tokens_of: "plain v \<Longrightarrow> list_all token_plain (tokens_of v)"
proof (induction v)
  case (JArr xs)
  then have "list_all (list_all token_plain) (map tokens_of xs)" by (simp add: list_all_iff)
  then show ?case by (simp add: list_all_sep_concat)
next
  case (JObj m)
  have "list_all token_plain (case kv of (k, v) \<Rightarrow> TStr k # TColon # tokens_of v)" if "kv \<in> set m" for kv
  proof -
    obtain k v where kv: "kv = (k, v)" by (cases kv)
    from that JObj.prems kv have "plain v" by (auto simp: list_all_iff)
    with JObj.IH[OF that, of v] kv show ?thesis by simp
  qed
  then have "list_all (list_all token_plain) (map (\<lambda>(k, v). TStr k # TColon # tokens_of v) m)"
    unfolding list.pred_map list_all_iff by simp
  then show ?case by (simp add: list_all_sep_concat)
qed simp_all

lemma apart_append:
  "tokens_apart us \<Longrightarrow> ts = [] \<or> hd ts \<in> {TComma, TCloseArr, TCloseObj} \<Longrightarrow> tokens_apart (us @ ts) = tokens_apart ts"
proof (induction us)
  case (Cons t us)
  show ?case
  proof (cases us)
    case Nil
    with Cons.prems show ?thesis by (cases t; cases ts) auto
  next
    case (Cons u us')
    with Cons.prems Cons.IH show ?thesis by (cases t) auto
  qed
qed simp

lemma apart_sep_concat: "list_all tokens_apart xs \<Longrightarrow> tokens_apart (sep_concat [TComma] xs)"
  by (induction "[TComma]" xs rule: sep_concat.induct) (auto simp: apart_append)

lemma apart_tokens_of: "tokens_apart (tokens_of v)"
proof (induction v)
  case (JArr xs)
  then have "tokens_apart (sep_concat [TComma] (map tokens_of xs))" by (intro apart_sep_concat) (simp add: list_all_iff)
  then show ?case by (simp add: apart_append)
next
  case (JObj m)
  then have "list_all tokens_apart (map (\<lambda>(k, v). TStr k # TColon # tokens_of v) m)"
    by (auto simp: list_all_iff snds.simps split: prod.splits)
  then have "tokens_apart (sep_concat [TComma] (map (\<lambda>(k, v). TStr k # TColon # tokens_of v) m))" by (rule apart_sep_concat)
  then show ?case by (simp add: apart_append)
qed simp_all

lemma canonical_finite: "canonical n \<Longrightarrow> is_finite n"
  by (cases n) (simp_all add: canonical_def is_finite_def)

lemma first_token: "\<exists>t ts. tokens_of v = t # ts \<and> t \<noteq> TCloseArr"
  by (cases v) auto

lemma read_tokens_first:
  "read_tokens (WantFirst fs) (tokens_of v @ ts) = read_tokens (Want (FArr [] # fs)) (tokens_of v @ ts)"
proof -
  obtain t us where "tokens_of v = t # us" "t \<noteq> TCloseArr" using first_token by blast
  then show ?thesis by (cases t) simp_all
qed

lemma read_array_rest:
  assumes "\<And>x fs ts. x \<in> set xs \<Longrightarrow> read_tokens (Want fs) (tokens_of x @ ts) = read_tokens (Got fs x) ts"
    and "xs \<noteq> []"
  shows "read_tokens (Want (FArr acc # fs)) (sep_concat [TComma] (map tokens_of xs) @ TCloseArr # ts)
    = read_tokens (Got fs (JArr (acc @ xs))) ts"
  using assms
proof (induction xs arbitrary: acc)
  case (Cons x xs)
  then show ?case by (cases xs) simp_all
qed simp

lemma read_array:
  assumes "\<And>x fs ts. x \<in> set xs \<Longrightarrow> read_tokens (Want fs) (tokens_of x @ ts) = read_tokens (Got fs x) ts"
  shows "read_tokens (WantFirst fs) (sep_concat [TComma] (map tokens_of xs) @ TCloseArr # ts)
    = read_tokens (Got fs (JArr xs)) ts"
proof (cases xs)
  case (Cons x ys)
  have "read_tokens (WantFirst fs) (sep_concat [TComma] (map tokens_of xs) @ TCloseArr # ts)
     = read_tokens (Want (FArr [] # fs)) (sep_concat [TComma] (map tokens_of xs) @ TCloseArr # ts)"
    unfolding Cons by (cases ys) (simp_all add: read_tokens_first)
  also have "\<dots> = read_tokens (Got fs (JArr ([] @ xs))) ts"
    using assms Cons by (intro read_array_rest) auto
  finally show ?thesis by simp
qed simp

abbreviation member_tokens :: "string \<times> json \<Rightarrow> token list" where
  "member_tokens kv \<equiv> (case kv of (k, v) \<Rightarrow> TStr k # TColon # tokens_of v)"

lemma read_object_rest:
  assumes "\<And>k v fs ts. (k, v) \<in> set m \<Longrightarrow> read_tokens (Want fs) (tokens_of v @ ts) = read_tokens (Got fs v) ts"
    and "m \<noteq> []" and "distinct (map fst (acc @ m))"
  shows "read_tokens (WantKey fs acc) (sep_concat [TComma] (map member_tokens m) @ TCloseObj # ts)
    = read_tokens (Got fs (JObj (acc @ m))) ts"
  using assms
proof (induction m arbitrary: acc)
  case (Cons kv m)
  obtain k v where kv: "kv = (k, v)" by (cases kv)
  from Cons.prems kv have put: "oput k v acc = acc @ [(k, v)]" by (intro oput_absent) auto
  from Cons.prems(1) kv have v: "read_tokens (Want fs) (tokens_of v @ ts) = read_tokens (Got fs v) ts" for fs ts
    by auto
  show ?case
  proof (cases m)
    case Nil
    with kv put v show ?thesis by simp
  next
    case (Cons kv' m')
    have "read_tokens (WantKey fs (acc @ [(k, v)])) (sep_concat [TComma] (map member_tokens m) @ TCloseObj # ts)
      = read_tokens (Got fs (JObj ((acc @ [(k, v)]) @ m))) ts"
      using Cons.prems kv \<open>m = kv' # m'\<close> by (intro Cons.IH) auto
    with kv put v Cons show ?thesis by simp
  qed
qed simp

lemma read_object:
  assumes "\<And>k v fs ts. (k, v) \<in> set m \<Longrightarrow> read_tokens (Want fs) (tokens_of v @ ts) = read_tokens (Got fs v) ts"
    and "distinct (map fst m)"
  shows "read_tokens (WantKeyFirst fs) (sep_concat [TComma] (map member_tokens m) @ TCloseObj # ts)
    = read_tokens (Got fs (JObj m)) ts"
proof (cases m)
  case (Cons kv m')
  have "read_tokens (WantKeyFirst fs) (sep_concat [TComma] (map member_tokens m) @ TCloseObj # ts)
     = read_tokens (WantKey fs []) (sep_concat [TComma] (map member_tokens m) @ TCloseObj # ts)"
    unfolding Cons by (cases m'; cases kv) simp_all
  also have "\<dots> = read_tokens (Got fs (JObj ([] @ m))) ts"
    using assms Cons by (intro read_object_rest) auto
  finally show ?thesis by simp
qed simp

lemma read_tokens_of: "plain v \<Longrightarrow> read_tokens (Want fs) (tokens_of v @ ts) = read_tokens (Got fs v) ts"
proof (induction v arbitrary: fs ts)
  case (JArr xs)
  then show ?case by (simp add: read_array list_all_iff)
next
  case (JObj m)
  then have "\<And>k v fs ts. (k, v) \<in> set m \<Longrightarrow> read_tokens (Want fs) (tokens_of v @ ts) = read_tokens (Got fs v) ts"
    by (force simp: list_all_iff snds.simps)
  with JObj.prems show ?case by (simp add: read_object)
qed (simp_all add: canonical_finite)

lemma json_parse_stringify': "plain v \<Longrightarrow> json_parse (json_stringify v) = Some v"
  using read_tokens_of[of v "[]" "[]"]
  by (simp add: json_parse_def json_stringify_def lex_tokens token_plain_tokens_of apart_tokens_of)

lemma json_text_not_empty: "plain v \<Longrightarrow> json_stringify v \<noteq> []"
proof
  assume "plain v" "json_stringify v = []"
  then have "json_parse [] = Some v" using json_parse_stringify'[of v] by simp
  moreover have "json_parse [] = None" by code_simp
  ultimately show False by simp
qed

end
