(* ===== verification/VosTypes.thy ===== *)
theory VosTypes
  imports JsonText
begin

section \<open>Things, relationships and their properties\<close>

text \<open>
  The domain model of \<open>src/types/vos.ts\<close> and the reading of property values of
  \<open>src/utils/propertyMapper.ts\<close> and \<open>src/utils/propertyUpdates.ts\<close>: what arrives wrapped as
  \<open>{typeInfo, value, writeKind}\<close> is unwrapped, and what a Thing states is its override store with
  its own properties on top.
\<close>

subsection \<open>The data\<close>

datatype write_kind = FactOnly | ObservationOnly

datatype inherited_set = InheritedSet (set_source_id: string) (set_source_name: string)
  (set_properties: props) (set_write_kinds: "(string, write_kind) omap option")
  (set_inherited: "(string \<times> inherited_set) list option")

record derived_definition =
  dExpression :: "string option"
  dFunction :: "string option"
  dPath :: "string option"
  dRelatedType :: "string option"
  dPropertyPath :: "string option"
  dScope :: "string option"
  dReads :: "string list option"
  dRisesWith :: "string list option"
  dFallsWith :: "string list option"

record vos_thing =
  tId :: string
  tName :: string
  tIsArchetype :: "bool option"
  tProperties :: props
  tPropertyWriteKinds :: "(string, write_kind) omap option"
  tInheritedOverrides :: "(string \<times> inherited_set) list option"
  tDerivedProperties :: "(string, derived_definition) omap option"

record vos_relationship =
  rId :: string
  rName :: "string option"
  rSubjectId :: string
  rPredicateId :: string
  rTargetId :: string
  rProperties :: props

text \<open>\<open>!thing.IsArchetype\<close>: absent reads as false.\<close>

definition is_archetype :: "vos_thing \<Rightarrow> bool" where
  "is_archetype t \<longleftrightarrow> tIsArchetype t = Some True"

subsection \<open>Unwrapping\<close>

definition isDeclaredWriteKind :: "json option \<Rightarrow> write_kind option" where
  "isDeclaredWriteKind v = (if v = Some (JStr ''FactOnly'') then Some FactOnly
     else if v = Some (JStr ''ObservationOnly'') then Some ObservationOnly else None)"

definition unwrapPropertyValue :: "json \<Rightarrow> json" where
  "unwrapPropertyValue v = (case v of
     JObj m \<Rightarrow> (case oget m ''value'' of Some x \<Rightarrow> x | None \<Rightarrow> v)
   | _ \<Rightarrow> v)"

definition declaredWriteKinds :: "props option \<Rightarrow> (string, write_kind) omap option" where
  "declaredWriteKinds ps = (case ps of None \<Rightarrow> None
     | Some m \<Rightarrow>
        (let kinds = foldl (\<lambda>acc (key, value). case value of
               JObj e \<Rightarrow> (case isDeclaredWriteKind (oget e ''writeKind'') of
                   Some w \<Rightarrow> oput key w acc | None \<Rightarrow> acc)
             | _ \<Rightarrow> acc) [] m
         in if kinds = [] then None else Some kinds))"

definition unwrapProperties :: "props option \<Rightarrow> props" where
  "unwrapProperties ps = (case ps of None \<Rightarrow> []
     | Some m \<Rightarrow> oassign [] (map (\<lambda>(key, value). (key, unwrapPropertyValue value)) m))"

fun unwrapInheritedSet :: "inherited_set \<Rightarrow> inherited_set" where
  "unwrapInheritedSet (InheritedSet sid sname ps wk inh) =
     InheritedSet sid sname (unwrapProperties (Some ps)) (declaredWriteKinds (Some ps))
       (case inh of None \<Rightarrow> None | Some m \<Rightarrow> Some (of_entries (map (\<lambda>(k, s). (k, unwrapInheritedSet s)) m)))"

definition unwrapInheritedPropertySet ::
  "(string \<times> inherited_set) list option \<Rightarrow> (string \<times> inherited_set) list option" where
  "unwrapInheritedPropertySet sets = (case sets of None \<Rightarrow> None
     | Some m \<Rightarrow> Some (of_entries (map (\<lambda>(k, s). (k, unwrapInheritedSet s)) m)))"

definition unwrapThing :: "vos_thing \<Rightarrow> vos_thing" where
  "unwrapThing t = t\<lparr>tProperties := unwrapProperties (Some (tProperties t)),
     tPropertyWriteKinds := declaredWriteKinds (Some (tProperties t)),
     tInheritedOverrides := unwrapInheritedPropertySet (tInheritedOverrides t)\<rparr>"

definition unwrapRelationship :: "vos_relationship \<Rightarrow> vos_relationship" where
  "unwrapRelationship r = r\<lparr>rProperties := unwrapProperties (Some (rProperties r))\<rparr>"

subsection \<open>What a Thing states\<close>

text \<open>The override tree, sources in the order of their names, a farther source below a nearer one.
  \<open>lc\<close> is \<open>localeCompare\<close>.\<close>

abbreviation by_source :: "(string \<Rightarrow> string \<Rightarrow> int) \<Rightarrow> inherited_set list \<Rightarrow> inherited_set list" where
  "by_source lc \<equiv> sort_by (\<lambda>a b. lc (set_source_name a) (set_source_name b))"

function collectSet :: "(string \<Rightarrow> string \<Rightarrow> int) \<Rightarrow> inherited_set \<Rightarrow> props \<Rightarrow> props" where
  "collectSet lc (InheritedSet sid sname ps wk inh) merged =
     oassign (case inh of None \<Rightarrow> merged
       | Some m \<Rightarrow> foldl (\<lambda>acc s. collectSet lc s acc) merged (by_source lc (map snd m))) ps"
  by pat_completeness auto
termination
proof (relation "measure (\<lambda>(lc, s, merged). size s)", goal_cases)
  case (2 lc sid sname ps wk inh merged m acc s)
  then obtain k where "(k, s) \<in> set m" by auto
  then have "size s < size_list (size_prod (\<lambda>_. 0) size) m"
    by (induction m) auto
  with 2 show ?case by simp
qed simp

definition collectOverrides ::
  "(string \<Rightarrow> string \<Rightarrow> int) \<Rightarrow> (string \<times> inherited_set) list option \<Rightarrow> props \<Rightarrow> props" where
  "collectOverrides lc sets merged = (case sets of None \<Rightarrow> merged
     | Some m \<Rightarrow> foldl (\<lambda>acc s. collectSet lc s acc) merged (by_source lc (map snd m)))"

definition statedProperties :: "(string \<Rightarrow> string \<Rightarrow> int) \<Rightarrow> vos_thing \<Rightarrow> props" where
  "statedProperties lc t = oassign (collectOverrides lc (tInheritedOverrides t) []) (tProperties t)"

lemma statedProperties_own:
  "okeys_distinct (tProperties t) \<Longrightarrow> oget (tProperties t) k = Some v \<Longrightarrow> oget (statedProperties lc t) k = Some v"
  by (simp add: statedProperties_def oget_oassign oget_rev_distinct)

lemma statedProperties_no_overrides:
  "tInheritedOverrides t = None \<Longrightarrow> okeys_distinct (tProperties t) \<Longrightarrow> statedProperties lc t = tProperties t"
  by (simp add: statedProperties_def collectOverrides_def okeys_distinct_def oassign_distinct_self)

subsection \<open>Property updates\<close>

definition applyThingPropertyUpdate :: "vos_thing \<Rightarrow> string \<Rightarrow> json \<Rightarrow> vos_thing" where
  "applyThingPropertyUpdate t path v = t\<lparr>tProperties := oput path v (tProperties t)\<rparr>"

definition applyRelationshipPropertyUpdate :: "vos_relationship \<Rightarrow> string \<Rightarrow> json \<Rightarrow> vos_relationship" where
  "applyRelationshipPropertyUpdate r name v = r\<lparr>rProperties := oput name v (rProperties r)\<rparr>"

definition applyThingPropertyRemoval :: "vos_thing \<Rightarrow> string \<Rightarrow> vos_thing" where
  "applyThingPropertyRemoval t path =
     (if \<not> ohas (tProperties t) path then t else t\<lparr>tProperties := odel path (tProperties t)\<rparr>)"

definition applyRelationshipPropertyRemoval :: "vos_relationship \<Rightarrow> string \<Rightarrow> vos_relationship" where
  "applyRelationshipPropertyRemoval r name =
     (if \<not> ohas (rProperties r) name then r else r\<lparr>rProperties := odel name (rProperties r)\<rparr>)"

definition isVisibleRelationship ::
  "string \<Rightarrow> string option \<Rightarrow> string option \<Rightarrow> vos_relationship list \<Rightarrow> bool" where
  "isVisibleRelationship rid selNode selEdge rels =
     (if selEdge \<noteq> None \<and> selEdge \<noteq> Some [] \<and> selEdge = Some rid then True
      else case selNode of None \<Rightarrow> False
      | Some n \<Rightarrow> if n = [] then False
          else (case List.find (\<lambda>r. rId r = rid) rels of None \<Rightarrow> False
            | Some r \<Rightarrow> rSubjectId r = n \<or> rTargetId r = n))"

lemma property_update_id [simp]:
  "tId (applyThingPropertyUpdate t p v) = tId t"
  "tId (applyThingPropertyRemoval t p) = tId t"
  "rId (applyRelationshipPropertyUpdate r p v) = rId r"
  "rId (applyRelationshipPropertyRemoval r p) = rId r"
  by (simp_all add: applyThingPropertyUpdate_def applyThingPropertyRemoval_def
      applyRelationshipPropertyUpdate_def applyRelationshipPropertyRemoval_def)

lemma property_update_lookup [simp]:
  "oget (tProperties (applyThingPropertyUpdate t p v)) = (oget (tProperties t))(p \<mapsto> v)"
  "oget (tProperties (applyThingPropertyRemoval t p)) = (oget (tProperties t))(p := None)"
  "oget (rProperties (applyRelationshipPropertyUpdate r p v)) = (oget (rProperties r))(p \<mapsto> v)"
  "oget (rProperties (applyRelationshipPropertyRemoval r p)) = (oget (rProperties r))(p := None)"
  by (auto simp: applyThingPropertyUpdate_def applyThingPropertyRemoval_def
      applyRelationshipPropertyUpdate_def applyRelationshipPropertyRemoval_def ohas_def fun_eq_iff map_of_eq_None_iff)

text \<open>The property a page keeps its specification in.\<close>

definition DASHBOARD_SPECIFICATION_PROPERTY :: string where
  "DASHBOARD_SPECIFICATION_PROPERTY = ''specification''"

end
