(* ===== verification/PipelineRoles.thy ===== *)
theory PipelineRoles
  imports VosTypes
begin

section \<open>The roles a model binds\<close>

text \<open>
  The role identifiers of \<open>src/pipeline/model.ts\<close>. A model declares a Thing under each of these
  fixed identifiers and binds the archetype or predicate playing the role along \<open>binds\<close>.
\<close>

datatype role =
    RPipeline
  | RPipelineNode
  | RPipelineInput
  | RPipelineOutput
  | RConnection
  | RService
  | RPort
  | RPipelineWire
  | RInputConnector
  | ROutputConnector
  | RTakenOn
  | RSuccess
  | RFail
  | RDecisionPath
  | RComparesWith
  | RChoice
  | RPipelineRun
  | RNodeRun
  | RRange
  | RExternalSystem
  | RMessageKind
  | RCadence
  | ROrchestrator
  | RTrigger
  | RStateWatch
  | RJudgedThing
  | RSends
  | RTold
  | RArrivesAt
  | RStandsFor
  | RPipelineStart
  | RRunResumption
  | RStopRequest
  | RRunStopping
  | RRequestedBy
  | RRepeatedRun
  | RPipelineTell
  | RPipelineFollowOn
  | RPipelineStop
  | RToldThrough

fun ROLE :: "role \<Rightarrow> string" where
  "ROLE RPipeline = ''f8bc9986-6eef-54d9-9940-4aca2497109b''"
| "ROLE RPipelineNode = ''f273f058-e3d6-5a20-aa37-34638ce64735''"
| "ROLE RPipelineInput = ''634f9ae3-2cca-5dd9-84aa-fec4dff07a6d''"
| "ROLE RPipelineOutput = ''880d2158-25a8-5b2b-8b6a-923f21ca153d''"
| "ROLE RConnection = ''d5a3c29f-67c1-55a5-b0e4-9241378bd08d''"
| "ROLE RService = ''768bb2e8-e738-5345-9126-c23ad1513197''"
| "ROLE RPort = ''318d6995-e07b-5c83-acb5-86cd935ba4c6''"
| "ROLE RPipelineWire = ''adfe0071-bbaf-5e7f-abc3-255c08d8735a''"
| "ROLE RInputConnector = ''1f13d260-b2cc-5757-a475-7eb9b7d2323f''"
| "ROLE ROutputConnector = ''7788a338-5eb6-5733-a208-0cf90b4269dd''"
| "ROLE RTakenOn = ''840892f9-2d05-5e98-b573-0699851760c9''"
| "ROLE RSuccess = ''ffb97ba6-4853-5257-92e4-b71a87b79691''"
| "ROLE RFail = ''661cb599-dbca-56ca-a0dc-f9f162e587c3''"
| "ROLE RDecisionPath = ''75c2351b-0e8d-5c97-a20d-18e4d5c46363''"
| "ROLE RComparesWith = ''9bb384be-5a61-5fff-9ed9-c423a2c74c37''"
| "ROLE RChoice = ''043b23a9-d2e8-5a8a-b81c-1a56bf0f525a''"
| "ROLE RPipelineRun = ''b682b68f-0101-5ab4-a7a9-13c3e43df873''"
| "ROLE RNodeRun = ''ca731d14-5acb-5236-b0da-fe8b0836d0d7''"
| "ROLE RRange = ''c081de17-c325-55b7-99ca-16fb835ae545''"
| "ROLE RExternalSystem = ''03164f47-30c0-5984-9215-a81317000ec5''"
| "ROLE RMessageKind = ''0b2082d2-eec5-5eec-85dd-66431d776731''"
| "ROLE RCadence = ''f3883eaf-4e52-5c0c-887b-1bc696578812''"
| "ROLE ROrchestrator = ''da0ee18e-c157-5f94-b2f8-cca2d7337929''"
| "ROLE RTrigger = ''d619eb5c-8cca-5234-8826-2f01bd6b4e7b''"
| "ROLE RStateWatch = ''03590900-eb28-55bf-9731-e9a0c03dce82''"
| "ROLE RJudgedThing = ''63d59765-a9b7-53b8-8a2b-0de3899add18''"
| "ROLE RSends = ''ab3334f4-cb8e-5513-94b4-43debdb73acd''"
| "ROLE RTold = ''08104fb0-e74f-511a-9598-62c20da9083c''"
| "ROLE RArrivesAt = ''79f0afcb-8c66-53dd-8081-43af167fc07a''"
| "ROLE RStandsFor = ''4277647a-93f8-5860-8717-da2a12673dbf''"
| "ROLE RPipelineStart = ''871174ab-c8e4-5712-81e1-b95accaea5ce''"
| "ROLE RRunResumption = ''50c894ed-a33d-56cc-a5a6-92aa82d32f4f''"
| "ROLE RStopRequest = ''159ef90f-8089-5055-b5a9-8839d5e28e7a''"
| "ROLE RRunStopping = ''7acbab6c-58f3-5145-a9c0-18a907197131''"
| "ROLE RRequestedBy = ''f0511a24-8925-5ac0-8f8e-971202c1741a''"
| "ROLE RRepeatedRun = ''7a0975c1-510c-5585-b39e-31995807083f''"
| "ROLE RPipelineTell = ''7fed4d74-0cb1-547d-85d8-bbcfc5992667''"
| "ROLE RPipelineFollowOn = ''0ed6e1fc-cbac-5d4e-b3f0-ef83f4a09e43''"
| "ROLE RPipelineStop = ''a5f12016-a3f9-505c-95c7-d211fd84b8f2''"
| "ROLE RToldThrough = ''d94c1844-76e6-56fa-ae38-d10405d52826''"

text \<open>The roles in the order they are declared, which is the order of \<open>Object.values(ROLE)\<close>.\<close>

definition all_roles :: "role list" where
  "all_roles = [RPipeline, RPipelineNode, RPipelineInput, RPipelineOutput, RConnection, RService, RPort, RPipelineWire, RInputConnector, ROutputConnector, RTakenOn, RSuccess, RFail, RDecisionPath, RComparesWith, RChoice, RPipelineRun, RNodeRun, RRange, RExternalSystem, RMessageKind, RCadence, ROrchestrator, RTrigger, RStateWatch, RJudgedThing, RSends, RTold, RArrivesAt, RStandsFor, RPipelineStart, RRunResumption, RStopRequest, RRunStopping, RRequestedBy, RRepeatedRun, RPipelineTell, RPipelineFollowOn, RPipelineStop, RToldThrough]"

text \<open>The kinds of node that call no service, and the role each is told by, in the order of
  \<open>NODE_KIND_ROLE\<close>.\<close>

datatype node_kind = KInput | KOutput | KTell | KFollowOn | KStop

fun NODE_KIND_ROLE :: "node_kind \<Rightarrow> string" where
  "NODE_KIND_ROLE KInput = ROLE RPipelineInput"
| "NODE_KIND_ROLE KOutput = ROLE RPipelineOutput"
| "NODE_KIND_ROLE KTell = ROLE RPipelineTell"
| "NODE_KIND_ROLE KFollowOn = ROLE RPipelineFollowOn"
| "NODE_KIND_ROLE KStop = ROLE RPipelineStop"

definition node_kinds :: "node_kind list" where
  "node_kinds = [KInput, KOutput, KTell, KFollowOn, KStop]"

lemma set_all_roles: "set all_roles = UNIV"
proof -
  have "r \<in> set all_roles" for r by (cases r) (simp_all add: all_roles_def)
  then show ?thesis by auto
qed

lemma distinct_role_identifiers: "distinct (map ROLE all_roles)"
  by code_simp

lemma ROLE_eq_iff [simp]: "ROLE a = ROLE b \<longleftrightarrow> a = b"
proof
  assume "ROLE a = ROLE b"
  moreover have "inj_on ROLE (set all_roles)"
    using distinct_role_identifiers by (simp add: distinct_map)
  ultimately show "a = b" using set_all_roles by (auto dest: inj_onD)
qed simp

declare ROLE.simps [simp del]

text \<open>The shape of a version 5 identifier: hexadecimal groups of 8, 4, 4, 4 and 12, the third
  opening with the version and the fourth with the variant.\<close>

definition version5 :: "string \<Rightarrow> bool" where
  "version5 s \<longleftrightarrow> length s = 36
     \<and> list_all (\<lambda>i. s ! i = CHR ''-'') [8, 13, 18, 23]
     \<and> list_all (\<lambda>i. i \<in> {8, 13, 18, 23} \<or> hex_val (s ! i) \<noteq> None) [0..<36]
     \<and> s ! 14 = CHR ''5'' \<and> s ! 19 \<in> {CHR ''8'', CHR ''9'', CHR ''a'', CHR ''b''}"

text \<open>The role identifiers are pairwise distinct and each has the shape of a version 5
  identifier, so no two roles of a model are ever read as one.\<close>

theorem role_identifiers:
  "inj ROLE \<and> version5 (ROLE r) \<and> inj NODE_KIND_ROLE"
proof (intro conjI)
  show "inj ROLE" by (rule injI) simp
  have "list_all (\<lambda>r. version5 (ROLE r)) all_roles" by code_simp
  then show "version5 (ROLE r)" using set_all_roles by (auto simp: list_all_iff)
  show "inj NODE_KIND_ROLE"
  proof (rule injI)
    fix a b assume "NODE_KIND_ROLE a = NODE_KIND_ROLE b"
    then show "a = b" by (cases a; cases b) simp_all
  qed
qed

end
