(* ===== verification/PipelineModel.thy ===== *)
theory PipelineModel
  imports PipelineRoles
begin

section \<open>The pipeline model: reading a pipeline out of the graph\<close>

text \<open>
  The class \<open>PipelineModel\<close> of \<open>src/pipeline/model.ts\<close>. Its constructor indexes the Things by
  identifier and the relationships by subject and by target; its methods are the definitions below,
  by the same names, taking the model as their first argument. The memo tables of the class
  (\<open>roleCache\<close>, \<open>boundCache\<close>, \<open>statedCache\<close>) hold results of functions of an unchanging graph and
  are not part of the model. \<open>lc\<close> is \<open>localeCompare\<close>, which the language leaves to the host.
\<close>

subsection \<open>The state and its constructor\<close>

record pipeline_model =
  pm_things :: "vos_thing list"
  pm_byId :: "(string, vos_thing) omap"
  pm_bySubject :: "(string, vos_relationship list) omap"
  pm_byTarget :: "(string, vos_relationship list) omap"
  pm_usedAsPredicate :: "string list"

definition push_at :: "string \<Rightarrow> 'a \<Rightarrow> (string, 'a list) omap \<Rightarrow> (string, 'a list) omap" where
  "push_at k x m = (case oget m k of Some arr \<Rightarrow> oput k (arr @ [x]) m | None \<Rightarrow> oput k [x] m)"

definition index_relationship :: "pipeline_model \<Rightarrow> vos_relationship \<Rightarrow> pipeline_model" where
  "index_relationship m r = m\<lparr>pm_bySubject := push_at (rSubjectId r) r (pm_bySubject m),
     pm_byTarget := push_at (rTargetId r) r (pm_byTarget m),
     pm_usedAsPredicate := sadd (rPredicateId r) (pm_usedAsPredicate m)\<rparr>"

definition newPipelineModel :: "vos_thing list \<Rightarrow> vos_relationship list \<Rightarrow> pipeline_model" where
  "newPipelineModel things rels = foldl index_relationship
     \<lparr>pm_things = things, pm_byId = of_entries (map (\<lambda>t. (tId t, t)) things),
      pm_bySubject = [], pm_byTarget = [], pm_usedAsPredicate = []\<rparr> rels"

definition thing :: "pipeline_model \<Rightarrow> string \<Rightarrow> vos_thing option" where
  "thing m i = oget (pm_byId m) i"

definition relationships_of :: "pipeline_model \<Rightarrow> string \<Rightarrow> vos_relationship list" where
  "relationships_of m i = (case oget (pm_bySubject m) i of None \<Rightarrow> [] | Some rs \<Rightarrow> rs)"

definition relationships_to :: "pipeline_model \<Rightarrow> string \<Rightarrow> vos_relationship list" where
  "relationships_to m i = (case oget (pm_byTarget m) i of None \<Rightarrow> [] | Some rs \<Rightarrow> rs)"

definition predicate_named :: "pipeline_model \<Rightarrow> string \<Rightarrow> vos_relationship \<Rightarrow> bool" where
  "predicate_named m nm r \<longleftrightarrow> map_option tName (thing m (rPredicateId r)) = Some nm"

subsection \<open>Traversals\<close>

definition outgoing :: "pipeline_model \<Rightarrow> string \<Rightarrow> string \<Rightarrow> vos_thing list" where
  "outgoing m subjectId predicateName =
     List.map_filter (\<lambda>r. if predicate_named m predicateName r then thing m (rTargetId r) else None)
       (relationships_of m subjectId)"

definition boundTo :: "pipeline_model \<Rightarrow> string \<Rightarrow> string option" where
  "boundTo m roleId = (case outgoing m roleId ''binds'' of [t] \<Rightarrow> Some (tId t) | _ \<Rightarrow> None)"

definition relationshipsAlong :: "pipeline_model \<Rightarrow> string \<Rightarrow> string \<Rightarrow> vos_relationship list" where
  "relationshipsAlong m subjectId roleId =
     filter (\<lambda>r. Some (rPredicateId r) = boundTo m roleId \<and> thing m (rTargetId r) \<noteq> None)
       (relationships_of m subjectId)"

definition reachedAlong :: "pipeline_model \<Rightarrow> string \<Rightarrow> string \<Rightarrow> vos_thing list" where
  "reachedAlong m subjectId roleId =
     List.map_filter (\<lambda>r. thing m (rTargetId r)) (relationshipsAlong m subjectId roleId)"

record relationship_and_target =
  rt_relationshipId :: string
  rt_thingId :: string

definition relationshipsAndTargetsAlong ::
  "pipeline_model \<Rightarrow> string \<Rightarrow> string \<Rightarrow> relationship_and_target list" where
  "relationshipsAndTargetsAlong m subjectId roleId =
     map (\<lambda>r. \<lparr>rt_relationshipId = rId r, rt_thingId = rTargetId r\<rparr>) (relationshipsAlong m subjectId roleId)"

definition reachingAlong :: "pipeline_model \<Rightarrow> string \<Rightarrow> string \<Rightarrow> vos_thing list" where
  "reachingAlong m targetId roleId =
     List.map_filter (\<lambda>r. if Some (rPredicateId r) = boundTo m roleId then thing m (rSubjectId r) else None)
       (relationships_to m targetId)"

text \<open>The archetypes a Thing is directly of, by identifier.\<close>

definition parents :: "pipeline_model \<Rightarrow> string \<Rightarrow> string list" where
  "parents m i = map tId (outgoing m i ''is'')"

definition model_ids :: "pipeline_model \<Rightarrow> string set" where
  "model_ids m = tId ` ran (thing m)"

lemma finite_model_ids [simp, intro]: "finite (model_ids m)"
  by (simp add: model_ids_def thing_def[abs_def] finite_ran finite_dom_map_of)

lemma outgoing_thing: "t \<in> set (outgoing m s p) \<Longrightarrow> \<exists>i. thing m i = Some t"
  by (auto simp: outgoing_def List.map_filter_def split: if_splits)

lemma parents_subset: "set (parents m i) \<subseteq> model_ids m"
  by (auto simp: parents_def model_ids_def ran_def dest: outgoing_thing)

subsection \<open>The \<open>is\<close> chain\<close>

text \<open>\<open>isBeneath\<close> walks the parents depth first, adding to the one set of Things seen that all its
  recursive calls share. \<open>beneath_loop\<close> is its loop over the parents left; it returns whether the
  archetype was met, and the set as the walk left it.\<close>

function (sequential) beneath_loop ::
  "pipeline_model \<Rightarrow> string \<Rightarrow> string list \<Rightarrow> string list \<Rightarrow> bool \<times> string list" where
  "beneath_loop m a [] seen = (False, seen)"
| "beneath_loop m a (p # ps) seen =
     (if p \<in> set seen then beneath_loop m a ps seen
      else if p = a then (True, p # seen)
      else (case beneath_loop m a (parents m p) (p # seen) of
              (True, seen') \<Rightarrow> (True, seen')
            | (False, seen') \<Rightarrow> beneath_loop m a ps seen'))"
  by pat_completeness auto

lemma beneath_loop_grows:
  "beneath_loop_dom (m, a, ps, seen) \<Longrightarrow> set seen \<subseteq> set (snd (beneath_loop m a ps seen))"
proof (induction m a ps seen rule: beneath_loop.pinduct)
  case (2 m a p ps seen)
  then show ?case
    by (cases "beneath_loop m a (parents m p) (p # seen)")
       (force simp: beneath_loop.psimps split: bool.splits)
qed (simp add: beneath_loop.psimps)

termination beneath_loop
proof (relation "inv_image (finite_psubset <*lex*> less_than)
    (\<lambda>(m, a, ps, seen). ((set ps \<union> model_ids m) - set seen, length ps))", goal_cases)
  case 1
  show ?case by (simp add: wf_finite_psubset wf_lex_prod)
next
  case (2 m a p ps seen)
  then have "(set ps \<union> model_ids m) - set seen = (set (p # ps) \<union> model_ids m) - set seen" by auto
  then show ?case by simp
next
  case (3 m a p ps seen)
  have "(set (parents m p) \<union> model_ids m) - set (p # seen) \<subset> (set (p # ps) \<union> model_ids m) - set seen"
    using 3 parents_subset[of m p] by auto
  then show ?case by (simp add: finite_psubset_def)
next
  case (4 m a p ps seen found seen')
  then have "set (p # seen) \<subseteq> set seen'"
    using beneath_loop_grows[of m a "parents m p" "p # seen"] by (metis snd_conv)
  with 4 have "(set ps \<union> model_ids m) - set seen' \<subset> (set (p # ps) \<union> model_ids m) - set seen"
    by auto
  then show ?case by (simp add: finite_psubset_def)
qed

definition isBeneath :: "pipeline_model \<Rightarrow> string \<Rightarrow> string \<Rightarrow> string list \<Rightarrow> bool" where
  "isBeneath m thingId archetypeId seen = fst (beneath_loop m archetypeId (parents m thingId) seen)"

definition isOf :: "pipeline_model \<Rightarrow> string \<Rightarrow> string \<Rightarrow> bool" where
  "isOf m thingId roleId = (case boundTo m roleId of None \<Rightarrow> False
     | Some archetypeId \<Rightarrow> isBeneath m thingId archetypeId [thingId])"

text \<open>Every Thing that is one of the kinds, and every one that is what the role binds: members,
  never a kind itself.\<close>

definition thingsOfKinds :: "pipeline_model \<Rightarrow> string list \<Rightarrow> vos_thing list" where
  "thingsOfKinds m kindIds = filter (\<lambda>t. \<not> is_archetype t
     \<and> list_ex (\<lambda>k. isBeneath m (tId t) k [tId t]) kindIds) (pm_things m)"

definition thingsOf :: "pipeline_model \<Rightarrow> string \<Rightarrow> vos_thing list" where
  "thingsOf m roleId = filter (\<lambda>t. \<not> is_archetype t \<and> isOf m (tId t) roleId) (pm_things m)"

text \<open>The \<open>is\<close> edges of the model as a relation, and the reading of the walk as reachability.\<close>

definition is_edges :: "pipeline_model \<Rightarrow> (string \<times> string) set" where
  "is_edges m = {(x, y). y \<in> set (parents m x)}"

lemma is_edges_parents [simp]: "(x, y) \<in> is_edges m \<longleftrightarrow> y \<in> set (parents m x)"
  by (simp add: is_edges_def)

lemma beneath_loop_mono: "set seen \<subseteq> set (snd (beneath_loop m a ps seen))"
proof (induction m a ps seen rule: beneath_loop.induct)
  case (2 m a p ps seen)
  obtain b s where bs: "beneath_loop m a (parents m p) (p # seen) = (b, s)" by force
  show ?case
  proof (cases "p \<in> set seen \<or> p = a")
    case True
    with 2(1) show ?thesis by auto
  next
    case False
    with 2(2) bs have "set (p # seen) \<subseteq> set s" by simp
    with 2(3)[OF _ _ bs[symmetric]] False bs show ?thesis by (cases b) auto
  qed
qed simp

lemma beneath_loop_mono': "beneath_loop m a ps seen = (b, s) \<Longrightarrow> set seen \<subseteq> set s"
  using beneath_loop_mono[of seen m a ps] by simp

text \<open>One element of the loop, with the walk beneath it named.\<close>

lemma beneath_loop_Cons:
  assumes "p \<notin> set seen" and "p \<noteq> a" and "beneath_loop m a (parents m p) (p # seen) = (b, s)"
  shows "beneath_loop m a (p # ps) seen = (if b then (True, s) else beneath_loop m a ps s)"
  using assms by simp

lemma beneath_loop_found:
  "fst (beneath_loop m a ps seen) \<Longrightarrow> a \<notin> set seen \<and> (\<exists>p\<in>set ps. (p, a) \<in> (is_edges m)\<^sup>*)"
proof (induction m a ps seen rule: beneath_loop.induct)
  case (2 m a p ps seen)
  show ?case
  proof (cases "p \<in> set seen \<or> p = a")
    case True
    then show ?thesis using 2(1) 2(4) by (cases "p \<in> set seen") auto
  next
    case False
    obtain b s where bs: "beneath_loop m a (parents m p) (p # seen) = (b, s)" by force
    note step = beneath_loop_Cons[OF _ _ bs, of ps]
    show ?thesis
    proof (cases b)
      case True
      with False 2(2) bs have "a \<notin> set (p # seen) \<and> (\<exists>q\<in>set (parents m p). (q, a) \<in> (is_edges m)\<^sup>*)" by simp
      then obtain q where "a \<notin> set seen" "(p, q) \<in> is_edges m" "(q, a) \<in> (is_edges m)\<^sup>*" by auto
      then show ?thesis by (meson converse_rtrancl_into_rtrancl list.set_intros(1))
    next
      case b: False
      with False step 2(4) have "fst (beneath_loop m a ps s)" by simp
      with False b bs 2(3) have "a \<notin> set s \<and> (\<exists>p\<in>set ps. (p, a) \<in> (is_edges m)\<^sup>*)" by force
      with beneath_loop_mono'[OF bs] show ?thesis by auto
    qed
  qed
qed simp

text \<open>A walk that does not meet the archetype has seen everything it could: the parents it was
  given, and the parents of every Thing it added.\<close>

lemma beneath_loop_closed:
  "beneath_loop m a ps seen = (False, s) \<Longrightarrow>
     set ps \<subseteq> set s \<and> a \<notin> set s - set seen \<and> (\<forall>x\<in>set s - set seen. set (parents m x) \<subseteq> set s)"
proof (induction m a ps seen arbitrary: s rule: beneath_loop.induct)
  case (2 m a p ps seen)
  show ?case
  proof (cases "p \<in> set seen \<or> p = a")
    case True
    with 2(4) have "p \<in> set seen" "beneath_loop m a ps seen = (False, s)" by (auto split: if_splits)
    with 2(1) beneath_loop_mono'[of m a ps seen False s] show ?thesis by auto
  next
    case False
    obtain b t where bt: "beneath_loop m a (parents m p) (p # seen) = (b, t)" by force
    note step = beneath_loop_Cons[OF _ _ bt, of ps]
    from False step 2(4) have b: "\<not> b" and rest: "beneath_loop m a ps t = (False, s)"
      by (auto split: if_splits)
    have below: "set (parents m p) \<subseteq> set t \<and> a \<notin> set t - set (p # seen)
        \<and> (\<forall>x\<in>set t - set (p # seen). set (parents m x) \<subseteq> set t)"
      using False b bt 2(2) by simp
    have after: "set ps \<subseteq> set s \<and> a \<notin> set s - set t \<and> (\<forall>x\<in>set s - set t. set (parents m x) \<subseteq> set s)"
      using False b bt rest 2(3) by simp
    from beneath_loop_mono'[OF bt] beneath_loop_mono'[OF rest] False below after
    show ?thesis by (auto, blast+)
  qed
qed simp

lemma beneath_complete:
  assumes "beneath_loop m a (parents m t) [t] = (False, s)"
  shows "(t, x) \<in> (is_edges m)\<^sup>* \<Longrightarrow> x \<in> set s"
proof (induction rule: rtrancl_induct)
  case base
  show ?case using beneath_loop_mono'[OF assms] by simp
next
  case (step y z)
  with beneath_loop_closed[OF assms] show ?case by (cases "y = t") auto
qed

text \<open>The membership test of the class is reachability along \<open>is\<close>, with the Thing itself left out.\<close>

lemma isBeneath_iff:
  "isBeneath m t a [t] \<longleftrightarrow> a \<noteq> t \<and> (t, a) \<in> (is_edges m)\<^sup>+"
proof
  assume "isBeneath m t a [t]"
  then have "a \<noteq> t \<and> (\<exists>p\<in>set (parents m t). (p, a) \<in> (is_edges m)\<^sup>*)"
    using beneath_loop_found[of m a "parents m t" "[t]"] by (simp add: isBeneath_def)
  then show "a \<noteq> t \<and> (t, a) \<in> (is_edges m)\<^sup>+"
    by (auto intro: rtrancl_into_trancl2)
next
  assume a: "a \<noteq> t \<and> (t, a) \<in> (is_edges m)\<^sup>+"
  show "isBeneath m t a [t]"
  proof (rule ccontr)
    assume "\<not> isBeneath m t a [t]"
    then obtain s where s: "beneath_loop m a (parents m t) [t] = (False, s)"
      unfolding isBeneath_def by (metis (full_types) prod.collapse)
    with a beneath_complete[OF s] have "a \<in> set s" by (simp add: trancl_into_rtrancl)
    with a beneath_loop_closed[OF s] show False by simp
  qed
qed

text \<open>C4. Playing a role is reachability. \<open>isOf\<close>, the depth-first walk over a shared set of Things
  seen, answers exactly whether the model binds the role to one Thing and that Thing is reached from
  the given one by one or more \<open>is\<close> relationships. It holds on graphs whose \<open>is\<close> relationships run
  in a circle, where the archetype still never plays its own role.\<close>

theorem isOf_reachable:
  "isOf m t r \<longleftrightarrow> (\<exists>a. boundTo m r = Some a \<and> a \<noteq> t \<and> (t, a) \<in> (is_edges m)\<^sup>+)"
  by (simp add: isOf_def isBeneath_iff split: option.splits)

subsection \<open>Graphs the theorems are tried on\<close>

definition sample_thing :: "string \<Rightarrow> string \<Rightarrow> props \<Rightarrow> vos_thing" where
  "sample_thing i nm ps = \<lparr>tId = i, tName = nm, tIsArchetype = None, tProperties = ps, tPropertyWriteKinds = None,
     tInheritedOverrides = None, tDerivedProperties = None\<rparr>"

definition sample_rel :: "string \<Rightarrow> string \<Rightarrow> string \<Rightarrow> vos_relationship" where
  "sample_rel s p t = \<lparr>rId = s @ '':'' @ p @ '':'' @ t, rName = None, rSubjectId = s, rPredicateId = p, rTargetId = t,
     rProperties = []\<rparr>"

text \<open>The predicates every sample graph has, by identifier and by name, and a role with the Thing it
  binds.\<close>

definition sample_predicates :: "vos_thing list" where
  "sample_predicates = map (\<lambda>nm. sample_thing nm nm []) [''is'', ''has'', ''of'', ''binds'']"

definition sample_role_things :: "(role \<times> string) list \<Rightarrow> vos_thing list" where
  "sample_role_things bs = concat (map (\<lambda>(r, i). [sample_thing (ROLE r) (ROLE r) [], sample_thing i i []]) bs)"

definition sample_role_rels :: "(role \<times> string) list \<Rightarrow> vos_relationship list" where
  "sample_role_rels bs = map (\<lambda>(r, i). sample_rel (ROLE r) ''binds'' i) bs"

end
