(* ===== verification/PipelineReads.thy ===== *)
theory PipelineReads
  imports PipelineModel
begin

section \<open>The pipeline model: ports, wires, catalysts and runs\<close>

text \<open>
  The rest of the class \<open>PipelineModel\<close> and the port functions of \<open>src/pipeline/model.ts\<close>: what a
  node, a connection, a wire, a boundary node and a run are in the graph.
\<close>

subsection \<open>Values a Thing states\<close>

text \<open>\<open>String(values.key ?? '')\<close>, the reading of most string properties.\<close>

definition text_of :: "props \<Rightarrow> string \<Rightarrow> string" where
  "text_of ps key = js_string (coalesce (oget ps key) (JStr []))"

definition stated :: "(string \<Rightarrow> string \<Rightarrow> int) \<Rightarrow> pipeline_model \<Rightarrow> string \<Rightarrow> props" where
  "stated lc m thingId = (case thing m thingId of None \<Rightarrow> [] | Some t \<Rightarrow> statedProperties lc t)"

subsection \<open>Ports\<close>

datatype direction = DirIn | DirOut

record port_information =
  pt_portId :: string
  pt_portName :: string
  pt_direction :: direction
  pt_type :: string
  pt_required :: bool

definition toPort :: "(string \<Rightarrow> string \<Rightarrow> int) \<Rightarrow> pipeline_model \<Rightarrow> vos_thing \<Rightarrow> port_information" where
  "toPort lc m t = (let p = stated lc m (tId t) in
     \<lparr>pt_portId = tId t,
      pt_portName = js_string (coalesce (oget p ''portName'') (JStr (tName t))),
      pt_direction = (if toLowerCase (js_string (coalesce (oget p ''direction'') (JStr ''in''))) = ''out'' then DirOut else DirIn),
      pt_type = text_of p ''type'',
      pt_required = (toLowerCase (js_string (coalesce (oget p ''required'') (JStr ''false''))) = ''true'')\<rparr>)"

definition ports_of :: "(string \<Rightarrow> string \<Rightarrow> int) \<Rightarrow> pipeline_model \<Rightarrow> string \<Rightarrow> port_information list" where
  "ports_of lc m i = map (toPort lc m) (filter (\<lambda>t. isOf m (tId t) (ROLE RPort)) (outgoing m i ''has''))"

text \<open>The loop of \<open>resolvePorts\<close>: a stack whose top is the head of the list, the parents pushed in
  order, so the last pushed is popped first.\<close>

function resolve_loop ::
  "(string \<Rightarrow> string \<Rightarrow> int) \<Rightarrow> pipeline_model \<Rightarrow> string list \<Rightarrow> string list \<Rightarrow> port_information list
   \<Rightarrow> port_information list \<times> string list" where
  "resolve_loop lc m [] seen ports = (ports, seen)"
| "resolve_loop lc m (i # stack) seen ports =
     (if i \<in> set seen then resolve_loop lc m stack seen ports
      else resolve_loop lc m (rev (parents m i) @ stack) (i # seen) (ports @ ports_of lc m i))"
  by pat_completeness auto
termination
proof (relation "inv_image (finite_psubset <*lex*> less_than)
    (\<lambda>(lc, m, stack, seen, ports). ((set stack \<union> model_ids m) - set seen, length stack))", goal_cases)
  case 1
  show ?case by (simp add: wf_finite_psubset wf_lex_prod)
next
  case (2 lc m i stack seen ports)
  then have "(set stack \<union> model_ids m) - set seen = (set (i # stack) \<union> model_ids m) - set seen" by auto
  then show ?case by simp
next
  case (3 lc m i stack seen ports)
  have "(set (rev (parents m i) @ stack) \<union> model_ids m) - set (i # seen) \<subset> (set (i # stack) \<union> model_ids m) - set seen"
    using 3 parents_subset[of m i] by auto
  then show ?case by (simp add: finite_psubset_def)
qed

definition resolvePorts :: "(string \<Rightarrow> string \<Rightarrow> int) \<Rightarrow> pipeline_model \<Rightarrow> string \<Rightarrow> port_information list" where
  "resolvePorts lc m serviceId = fst (resolve_loop lc m [serviceId] [] [])"

record port_relationship =
  pr_portId :: string
  pr_port :: port_information

definition ownPortRelationships :: "(string \<Rightarrow> string \<Rightarrow> int) \<Rightarrow> pipeline_model \<Rightarrow> string \<Rightarrow> port_relationship list" where
  "ownPortRelationships lc m nodeId = map (\<lambda>t. \<lparr>pr_portId = tId t, pr_port = toPort lc m t\<rparr>)
     (filter (\<lambda>t. isOf m (tId t) (ROLE RPort)) (outgoing m nodeId ''has''))"

definition nodeKind :: "pipeline_model \<Rightarrow> string \<Rightarrow> node_kind option" where
  "nodeKind m thingId = List.find (\<lambda>k. isOf m thingId (NODE_KIND_ROLE k)) node_kinds"

definition portOf :: "port_information list option \<Rightarrow> string option \<Rightarrow> direction \<Rightarrow> port_information option" where
  "portOf ports portId dir = (case ports of None \<Rightarrow> None
     | Some ps \<Rightarrow> List.find (\<lambda>p. Some (pt_portId p) = portId \<and> pt_direction p = dir) ps)"

definition wireEnds ::
  "port_information list option \<Rightarrow> string option \<Rightarrow> port_information list option \<Rightarrow> string option
   \<Rightarrow> port_information option \<times> port_information option" where
  "wireEnds sourcePorts sourceHandle targetPorts targetHandle =
     (portOf sourcePorts sourceHandle DirOut, portOf targetPorts targetHandle DirIn)"

definition typesCompatible :: "string \<Rightarrow> string \<Rightarrow> bool" where
  "typesCompatible outType inType = (let a = toLowerCase (trim outType); b = toLowerCase (trim inType) in
     a = [] \<or> b = [] \<or> a = ''any'' \<or> b = ''any'' \<or> a = b)"

datatype connection_verdict = Accept | Ignore | Incompatible string string

record 'n connection_drawn =
  cd_source :: 'n
  cd_sourceHandle :: "string option"
  cd_target :: 'n
  cd_targetHandle :: "string option"

definition judgeConnection ::
  "(string \<times> port_information list) list \<Rightarrow> string connection_drawn \<Rightarrow> connection_verdict" where
  "judgeConnection nodes c =
     (let portsOf = (\<lambda>nodeId. map_option snd (List.find (\<lambda>n. fst n = nodeId) nodes)) in
      case wireEnds (portsOf (cd_source c)) (cd_sourceHandle c) (portsOf (cd_target c)) (cd_targetHandle c) of
        (Some outPort, Some inPort) \<Rightarrow>
          if typesCompatible (pt_type outPort) (pt_type inPort) then Accept
          else Incompatible (if pt_type outPort = [] then ''any'' else pt_type outPort)
                            (if pt_type inPort = [] then ''any'' else pt_type inPort)
      | _ \<Rightarrow> Ignore)"

subsection \<open>Choices\<close>

record choice_information =
  ch_id :: string
  ch_name :: string
  ch_when :: string
  ch_comparesWith :: "string list"

definition choicesOf :: "(string \<Rightarrow> string \<Rightarrow> int) \<Rightarrow> pipeline_model \<Rightarrow> string \<Rightarrow> choice_information list" where
  "choicesOf lc m nodeId = map (\<lambda>choice.
       \<lparr>ch_id = tId choice, ch_name = tName choice,
        ch_when = text_of (stated lc m (tId choice)) ''when'',
        ch_comparesWith = map tId (reachedAlong m (tId choice) (ROLE RComparesWith))\<rparr>)
     (filter (\<lambda>held. isOf m (tId held) (ROLE RDecisionPath)) (outgoing m nodeId ''has''))"

definition offers :: "pipeline_model \<Rightarrow> string \<Rightarrow> port_information \<Rightarrow> bool" where
  "offers m thingId port \<longleftrightarrow> pt_direction port = DirIn
     \<and> list_ex (\<lambda>offered. tId offered = thingId) (reachedAlong m (pt_portId port) (ROLE RChoice))"

definition chosenForEachInPort ::
  "pipeline_model \<Rightarrow> string \<Rightarrow> port_information list \<Rightarrow> (string, string) omap" where
  "chosenForEachInPort m nodeId ports = foldl (\<lambda>chosen t.
       case List.find (offers m (tId t)) ports of
         Some offering \<Rightarrow> oput (pt_portId offering) (tId t) chosen
       | None \<Rightarrow> chosen) [] (reachedAlong m nodeId (ROLE RChoice))"

definition kindsOffered :: "pipeline_model \<Rightarrow> port_information list \<Rightarrow> string list" where
  "kindsOffered m ports = foldl (\<lambda>kinds port. if pt_direction port \<noteq> DirIn then kinds
       else foldl (\<lambda>kinds offered. foldl (\<lambda>kinds kind. sadd (tId kind) kinds) kinds (outgoing m (tId offered) ''is''))
              kinds (reachedAlong m (pt_portId port) (ROLE RChoice))) [] ports"

subsection \<open>Triggers, connections and systems\<close>

text \<open>The breadth-first search of \<open>triggerOf\<close>: the queue holds the connection and then what it is.\<close>

function trigger_loop :: "pipeline_model \<Rightarrow> string list \<Rightarrow> string list \<Rightarrow> string" where
  "trigger_loop m [] seen = []"
| "trigger_loop m (i # queue) seen =
     (if i \<in> set seen then trigger_loop m queue seen
      else case reachedAlong m i (ROLE RTrigger) of
        trigger # _ \<Rightarrow> toLowerCase (trim (tName trigger))
      | [] \<Rightarrow> trigger_loop m (queue @ parents m i) (i # seen))"
  by pat_completeness auto
termination
proof (relation "inv_image (finite_psubset <*lex*> less_than)
    (\<lambda>(m, queue, seen). ((set queue \<union> model_ids m) - set seen, length queue))", goal_cases)
  case 1
  show ?case by (simp add: wf_finite_psubset wf_lex_prod)
next
  case (2 m i queue seen)
  then have "(set queue \<union> model_ids m) - set seen = (set (i # queue) \<union> model_ids m) - set seen" by auto
  then show ?case by simp
next
  case (3 m i queue seen)
  have "(set (queue @ parents m i) \<union> model_ids m) - set (i # seen) \<subset> (set (i # queue) \<union> model_ids m) - set seen"
    using 3 parents_subset[of m i] by auto
  then show ?case by (simp add: finite_psubset_def)
qed

definition triggerOf :: "pipeline_model \<Rightarrow> string \<Rightarrow> string" where
  "triggerOf m connectionId = trigger_loop m [connectionId] []"

definition bindingOf :: "pipeline_model \<Rightarrow> string \<Rightarrow> (string \<times> vos_thing) option" where
  "bindingOf m connectionId = (case List.map_filter (\<lambda>r.
        if predicate_named m ''has'' r then
          (case thing m (rTargetId r) of
             Some service \<Rightarrow> if isOf m (tId service) (ROLE RService) then Some (rId r, service) else None
           | None \<Rightarrow> None)
        else None) (relationships_of m connectionId) of
      [] \<Rightarrow> None | b # _ \<Rightarrow> Some b)"

definition orchestratorService :: "pipeline_model \<Rightarrow> vos_thing option" where
  "orchestratorService m = (case thingsOf m (ROLE ROrchestrator) of [s] \<Rightarrow> Some s | _ \<Rightarrow> None)"

record watched_range =
  wt_rangeId :: string
  wt_name :: string
  wt_kindJudged :: string
  wt_everySeconds :: jsnum

record pipeline_named =
  pn_id :: string
  pn_name :: string

record catalyst_connection =
  cc_connectionId :: string
  cc_name :: string
  cc_trigger :: string
  cc_subdomain :: string
  cc_serviceName :: string
  cc_bindingId :: "string option"
  cc_serviceId :: "string option"
  cc_watches :: "watched_range option"
  cc_startsPipeline :: "pipeline_named option"

definition every_seconds :: "vos_thing \<Rightarrow> jsnum" where
  "every_seconds watched = (let interval = js_number (coalesce (oget (tProperties watched) ''EvaluationIntervalSeconds'') (JNum (Dec 0 0))) in
     if is_finite interval \<and> num_lt (Dec 0 0) interval then interval else Dec 0 0)"

definition catalyst_connection_of :: "pipeline_model \<Rightarrow> vos_thing \<Rightarrow> catalyst_connection" where
  "catalyst_connection_of m connection =
     (let watched = List.find (\<lambda>range. isOf m (tId range) (ROLE RRange)) (reachedAlong m (tId connection) (ROLE RStateWatch));
          started = List.find (\<lambda>pipeline. isOf m (tId pipeline) (ROLE RPipeline)) (reachedAlong m (tId connection) (ROLE RPipelineStart));
          binding = bindingOf m (tId connection) in
      \<lparr>cc_connectionId = tId connection, cc_name = tName connection, cc_trigger = triggerOf m (tId connection),
       cc_subdomain = (case as_string (oget (tProperties connection) ''Subdomain'') of Some s \<Rightarrow> s | None \<Rightarrow> []),
       cc_serviceName = (case binding of Some b \<Rightarrow> tName (snd b) | None \<Rightarrow> []),
       cc_bindingId = map_option fst binding, cc_serviceId = map_option (\<lambda>b. tId (snd b)) binding,
       cc_watches = map_option (\<lambda>range. \<lparr>wt_rangeId = tId range, wt_name = tName range,
           wt_kindJudged = (case reachedAlong m (tId range) (ROLE RJudgedThing) of [] \<Rightarrow> [] | t # _ \<Rightarrow> tName t),
           wt_everySeconds = every_seconds range\<rparr>) watched,
       cc_startsPipeline = map_option (\<lambda>p. \<lparr>pn_id = tId p, pn_name = tName p\<rparr>) started\<rparr>)"

definition catalystConnections :: "pipeline_model \<Rightarrow> catalyst_connection list" where
  "catalystConnections m = map (catalyst_connection_of m)
     (filter (\<lambda>connection. Some (tId connection) \<noteq> boundTo m (ROLE RRunResumption)) (thingsOf m (ROLE RConnection)))"

record message_kind =
  mk_id :: string
  mk_name :: string
  mk_arrivesAtConnectionId :: "string option"

definition messageKind :: "pipeline_model \<Rightarrow> vos_thing \<Rightarrow> message_kind" where
  "messageKind m kind = \<lparr>mk_id = tId kind, mk_name = tName kind,
     mk_arrivesAtConnectionId = map_option tId (List.find (\<lambda>c. isOf m (tId c) (ROLE RConnection))
       (reachedAlong m (tId kind) (ROLE RArrivesAt)))\<rparr>"

record external_system =
  es_id :: string
  es_name :: string
  es_sends :: "message_kind list"
  es_told :: "message_kind list"
  es_toldThroughConnectionId :: "string option"

definition kinds_along :: "(string \<Rightarrow> string \<Rightarrow> int) \<Rightarrow> pipeline_model \<Rightarrow> string \<Rightarrow> string \<Rightarrow> message_kind list" where
  "kinds_along lc m systemId roleId = sort_by (\<lambda>a b. lc (mk_name a) (mk_name b))
     (map (messageKind m) (filter (\<lambda>kind. isOf m (tId kind) (ROLE RMessageKind)) (reachedAlong m systemId roleId)))"

definition externalSystems :: "(string \<Rightarrow> string \<Rightarrow> int) \<Rightarrow> pipeline_model \<Rightarrow> external_system list" where
  "externalSystems lc m = sort_by (\<lambda>a b. lc (es_name a) (es_name b))
     (map (\<lambda>system. \<lparr>es_id = tId system, es_name = tName system,
        es_sends = kinds_along lc m (tId system) (ROLE RSends),
        es_told = kinds_along lc m (tId system) (ROLE RTold),
        es_toldThroughConnectionId = map_option tId (List.find (\<lambda>c. isOf m (tId c) (ROLE RConnection))
          (reachedAlong m (tId system) (ROLE RToldThrough)))\<rparr>) (thingsOf m (ROLE RExternalSystem)))"

subsection \<open>The ends of a pipeline\<close>

text \<open>What a node stands for, with the relationship that says so.\<close>

definition standsFor :: "pipeline_model \<Rightarrow> string \<Rightarrow> relationship_and_target option" where
  "standsFor m nodeId = map_option (\<lambda>r. \<lparr>rt_relationshipId = rId r, rt_thingId = rTargetId r\<rparr>)
     (List.find (\<lambda>r. Some (rPredicateId r) = boundTo m (ROLE RStandsFor) \<and> thing m (rTargetId r) \<noteq> None)
       (relationships_of m nodeId))"

definition end_role :: "bool \<Rightarrow> string" where
  "end_role isInput = (if isInput then ROLE RPipelineInput else ROLE RPipelineOutput)"

definition pipelineWhoseEndStandsFor :: "pipeline_model \<Rightarrow> string \<Rightarrow> bool \<Rightarrow> pipeline_named option" where
  "pipelineWhoseEndStandsFor m thingId isInput =
     (case List.map_filter (\<lambda>node. if \<not> isOf m (tId node) (end_role isInput) then None
          else List.find (\<lambda>subject. isOf m (tId subject) (ROLE RPipeline))
                 (List.map_filter (\<lambda>r. thing m (rSubjectId r)) (relationships_to m (tId node))))
        (reachingAlong m thingId (ROLE RStandsFor)) of
      [] \<Rightarrow> None | p # _ \<Rightarrow> Some \<lparr>pn_id = tId p, pn_name = tName p\<rparr>)"

datatype end_kind = EMessageKind | EExternalSystem | EDoor | EState | ERelationship | EPipeline | ECadence | EOther

record end_information =
  ei_id :: string
  ei_name :: string
  ei_kind :: end_kind
  ei_mayStart :: bool
  ei_mayEnd :: bool

definition endInformation :: "pipeline_model \<Rightarrow> string \<Rightarrow> end_information" where
  "endInformation m thingId =
     (let named = (\<lambda>kind mayStart mayEnd. \<lparr>ei_id = thingId,
            ei_name = (case thing m thingId of None \<Rightarrow> [] | Some t \<Rightarrow> tName t),
            ei_kind = kind, ei_mayStart = mayStart, ei_mayEnd = mayEnd\<rparr>) in
      if thing m thingId = None then named EOther False False
      else if isOf m thingId (ROLE RMessageKind) then
        named EMessageKind (reachingAlong m thingId (ROLE RSends) \<noteq> []) (reachingAlong m thingId (ROLE RTold) \<noteq> [])
      else if isOf m thingId (ROLE RExternalSystem) then
        named EExternalSystem (reachedAlong m thingId (ROLE RSends) \<noteq> []) False
      else if isOf m thingId (ROLE RPipeline) then named EPipeline True False
      else if isOf m thingId (ROLE RRange) then named EState True False
      else if isOf m thingId (ROLE RCadence) then named ECadence True False
      else if isOf m thingId (ROLE RConnection) then
        (let trigger = triggerOf m thingId in
         named (if trigger = ''graph'' then ERelationship else if trigger = ''state'' then EState else EDoor) True False)
      else named EOther False False)"

subsection \<open>The nearest trigger\<close>

abbreviation no_trigger :: "pipeline_model \<Rightarrow> string \<Rightarrow> bool" where
  "no_trigger m i \<equiv> reachedAlong m i (ROLE RTrigger) = []"

text \<open>The state of the breadth-first search from \<open>c\<close>: the queue is a rest \<open>A\<close> of the Things \<open>n\<close>
  steps away followed by Things \<open>B\<close> one step further, and everything nearer has been seen.\<close>

definition trigger_inv ::
  "pipeline_model \<Rightarrow> string \<Rightarrow> nat \<Rightarrow> string list \<Rightarrow> string list \<Rightarrow> string list \<Rightarrow> bool" where
  "trigger_inv m c n A B seen \<longleftrightarrow>
     (\<forall>x\<in>set seen. no_trigger m x \<and> set (parents m x) \<subseteq> set seen \<union> set A \<union> set B)
     \<and> (\<forall>k<n. \<forall>y. (c, y) \<in> is_edges m ^^ k \<longrightarrow> y \<in> set seen)
     \<and> (\<forall>y. (c, y) \<in> is_edges m ^^ n \<longrightarrow> y \<in> set seen \<union> set A)
     \<and> (\<forall>a\<in>set A. (c, a) \<in> is_edges m ^^ n) \<and> (\<forall>b\<in>set B. (c, b) \<in> is_edges m ^^ Suc n)"

lemma trigger_inv_next_layer:
  "trigger_inv m c n [] B seen \<Longrightarrow> trigger_inv m c (Suc n) B [] seen"
proof -
  assume inv: "trigger_inv m c n [] B seen"
  have "y \<in> set seen \<union> set B" if "(c, y) \<in> is_edges m ^^ Suc n" for y
  proof -
    from that obtain x where "(c, x) \<in> is_edges m ^^ n" "(x, y) \<in> is_edges m" by auto
    with inv show ?thesis unfolding trigger_inv_def by fastforce
  qed
  with inv show ?thesis unfolding trigger_inv_def by (auto simp: less_Suc_eq)
qed

lemma trigger_inv_skip: "trigger_inv m c n (i # A) B seen \<Longrightarrow> i \<in> set seen \<Longrightarrow> trigger_inv m c n A B seen"
  unfolding trigger_inv_def by (auto; blast)

lemma trigger_inv_visit:
  "trigger_inv m c n (i # A) B seen \<Longrightarrow> no_trigger m i \<Longrightarrow> trigger_inv m c n A (B @ parents m i) (i # seen)"
  unfolding trigger_inv_def by (auto; blast)

definition nearest_trigger :: "pipeline_model \<Rightarrow> string \<Rightarrow> string \<Rightarrow> bool" where
  "nearest_trigger m c r \<longleftrightarrow>
     (\<exists>x n t ts. (c, x) \<in> is_edges m ^^ n \<and> reachedAlong m x (ROLE RTrigger) = t # ts \<and> r = toLowerCase (trim (tName t))
        \<and> (\<forall>k<n. \<forall>y. (c, y) \<in> is_edges m ^^ k \<longrightarrow> no_trigger m y))
     \<or> (\<forall>y. (c, y) \<in> (is_edges m)\<^sup>* \<longrightarrow> no_trigger m y) \<and> r = []"

lemma trigger_inv_done:
  assumes "trigger_inv m c n [] [] seen"
  shows "nearest_trigger m c []"
proof -
  have "(c, y) \<in> is_edges m ^^ k \<Longrightarrow> y \<in> set seen" for y k
  proof (induction k arbitrary: y)
    case 0
    then show ?case using assms unfolding trigger_inv_def by (cases n) auto
  next
    case (Suc k)
    then show ?case using assms unfolding trigger_inv_def by fastforce
  qed
  then have "(c, y) \<in> (is_edges m)\<^sup>* \<Longrightarrow> y \<in> set seen" for y by (meson rtrancl_imp_relpow)
  with assms show ?thesis unfolding nearest_trigger_def trigger_inv_def by blast
qed

lemma trigger_loop_nearest:
  "trigger_inv m c n A B seen \<Longrightarrow> nearest_trigger m c (trigger_loop m (A @ B) seen)"
proof (induction m "A @ B" seen arbitrary: n A B rule: trigger_loop.induct)
  case (1 m seen)
  then show ?case using trigger_inv_done by simp
next
  case (2 m i queue seen)
  obtain n' A' B' where q: "queue = A' @ B'" and inv: "trigger_inv m c n' (i # A') B' seen"
  proof (cases A)
    case Nil
    with 2(3,4) that[of "queue" "[]" "Suc n"] trigger_inv_next_layer[of m c n B seen] show ?thesis by auto
  next
    case (Cons a A')
    with 2(3,4) that[of A' B n] show ?thesis by auto
  qed
  have head: "A @ B = i # A' @ B'" using 2(3) q by simp
  show ?case
  proof (cases "i \<in> set seen")
    case True
    with 2(1)[OF True q trigger_inv_skip[OF inv True]] head show ?thesis by simp
  next
    case unseen: False
    show ?thesis
    proof (cases "reachedAlong m i (ROLE RTrigger)")
      case Nil
      with 2(2)[OF unseen Nil, of A' "B' @ parents m i" n'] trigger_inv_visit[OF inv Nil] q unseen head
      show ?thesis by simp
    next
      case (Cons t ts)
      from inv have "\<forall>k<n'. \<forall>y. (c, y) \<in> is_edges m ^^ k \<longrightarrow> no_trigger m y" "(c, i) \<in> is_edges m ^^ n'"
        unfolding trigger_inv_def by (blast, simp)
      moreover from Cons unseen head have "trigger_loop m (A @ B) seen = toLowerCase (trim (tName t))" by simp
      ultimately show ?thesis unfolding nearest_trigger_def using Cons by blast
    qed
  qed
qed

text \<open>The nearest trigger decides. \<open>triggerOf\<close>, the breadth-first search up the \<open>is\<close> chain,
  answers with the trimmed, lower-cased name of a trigger declared as few \<open>is\<close> steps above the
  connection as any is, and with the empty name exactly where nothing on the chain declares one.\<close>

lemma triggerOf_nearest: "nearest_trigger m c (triggerOf m c)"
proof -
  have "trigger_inv m c 0 [c] [] []" by (simp add: trigger_inv_def)
  from trigger_loop_nearest[OF this] show ?thesis by (simp add: triggerOf_def)
qed

subsection \<open>Which ends a Thing may be\<close>

text \<open>What may end a pipeline. Only a kind of message may be the end of a pipeline, and only
  where some system is told it; a Thing that is nothing of the kinds the page knows may be neither
  start nor end.\<close>

theorem endInformation_ends:
  "(ei_mayEnd (endInformation m i) \<longleftrightarrow>
      thing m i \<noteq> None \<and> isOf m i (ROLE RMessageKind) \<and> reachingAlong m i (ROLE RTold) \<noteq> [])
   \<and> \<not> (ei_kind (endInformation m i) = EOther
        \<and> (ei_mayStart (endInformation m i) \<or> ei_mayEnd (endInformation m i)))"
  by (auto simp: endInformation_def Let_def)

subsection \<open>Wires between ports\<close>

lemma typesCompatible_sym: "typesCompatible a b = typesCompatible b a"
  by (auto simp: typesCompatible_def Let_def)

lemma typesCompatible_refl: "typesCompatible a a"
  by (simp add: typesCompatible_def Let_def)

lemma portOf_SomeD:
  "portOf ps h d = Some p \<Longrightarrow> (\<exists>xs. ps = Some xs \<and> p \<in> set xs) \<and> Some (pt_portId p) = h \<and> pt_direction p = d"
  by (auto simp: portOf_def dest!: find_SomeD split: option.splits)

end
