(* ===== verification/PipelineRuns.thy ===== *)
theory PipelineRuns
  imports PipelineReads
begin

section \<open>The pipeline model: connections, wires and runs\<close>

text \<open>
  The palette of callable connections, the wires held as Things, the predicates a save writes
  through, and the progress of runs, of the class \<open>PipelineModel\<close>.
\<close>

subsection \<open>Callable connections\<close>

record connection_information =
  ci_connectionId :: string
  ci_name :: string
  ci_subdomain :: string
  ci_serviceId :: string
  ci_ports :: "port_information list"

definition connection_of :: "(string \<Rightarrow> string \<Rightarrow> int) \<Rightarrow> pipeline_model \<Rightarrow> vos_thing \<Rightarrow> connection_information option" where
  "connection_of lc m t =
     (if \<not> isOf m (tId t) (ROLE RConnection) then None
      else case as_string (oget (tProperties t) ''Subdomain'') of
        None \<Rightarrow> None
      | Some subdomain \<Rightarrow>
         if subdomain = [] then None
         else case List.find (\<lambda>s. isOf m (tId s) (ROLE RService)) (outgoing m (tId t) ''has'') of
           None \<Rightarrow> None
         | Some service \<Rightarrow>
            (let ports = resolvePorts lc m (tId service) in
             if ports = [] then None
             else Some \<lparr>ci_connectionId = tId t, ci_name = tName t, ci_subdomain = subdomain,
                        ci_serviceId = tId service, ci_ports = ports\<rparr>))"

definition connections :: "(string \<Rightarrow> string \<Rightarrow> int) \<Rightarrow> pipeline_model \<Rightarrow> connection_information list" where
  "connections lc m = List.map_filter (connection_of lc m) (pm_things m)"

subsection \<open>Wires\<close>

record wire_read =
  wr_wireId :: string
  wr_targetId :: string
  wr_outPortId :: string
  wr_inPortId :: string
  wr_fromPath :: string
  wr_toPath :: string
  wr_itemTransform :: string
  wr_listTransform :: string
  wr_takenOn :: "relationship_and_target list"

text \<open>One relationship of the subject read as a wire. A wire missing its target node or either
  port is skipped; an empty identifier counts as missing.\<close>

definition wire_of :: "(string \<Rightarrow> string \<Rightarrow> int) \<Rightarrow> pipeline_model \<Rightarrow> vos_relationship \<Rightarrow> wire_read option" where
  "wire_of lc m r = (case thing m (rTargetId r) of
     None \<Rightarrow> None
   | Some held \<Rightarrow>
      if \<not> isOf m (tId held) (ROLE RPipelineWire) then None
      else (case (List.find (\<lambda>i. isOf m i (ROLE RPipelineNode)) (map rTargetId (relationships_of m (tId held))),
                  reachedAlong m (tId held) (ROLE RInputConnector),
                  reachedAlong m (tId held) (ROLE ROutputConnector)) of
          (Some target, outPort # _, inPort # _) \<Rightarrow>
            if target = [] then None
            else (let s = stated lc m (tId held) in
              Some \<lparr>wr_wireId = tId held, wr_targetId = target, wr_outPortId = tId outPort, wr_inPortId = tId inPort,
                wr_fromPath = text_of s ''fromPath'', wr_toPath = text_of s ''toPath'',
                wr_itemTransform = text_of s ''itemTransform'', wr_listTransform = text_of s ''listTransform'',
                wr_takenOn = relationshipsAndTargetsAlong m (tId held) (ROLE RTakenOn)\<rparr>)
        | _ \<Rightarrow> None))"

definition outgoingWires :: "(string \<Rightarrow> string \<Rightarrow> int) \<Rightarrow> pipeline_model \<Rightarrow> string \<Rightarrow> wire_read list" where
  "outgoingWires lc m subjectId = List.map_filter (wire_of lc m) (relationships_of m subjectId)"

subsection \<open>The predicates of the write path\<close>

definition predicateIdByName :: "pipeline_model \<Rightarrow> string \<Rightarrow> string option" where
  "predicateIdByName m nm = map_option tId (List.find (\<lambda>t. tName t = nm) (pm_things m))"

definition isHeld :: "pipeline_model \<Rightarrow> string \<Rightarrow> bool" where
  "isHeld m thingId = list_ex (predicate_named m ''has'') (relationships_to m thingId)"

definition wirePredicateId :: "pipeline_model \<Rightarrow> string option" where
  "wirePredicateId m =
     (let wires = filter (\<lambda>t. isOf m (tId t) (ROLE RPipelineWire)) (pm_things m) in
      case List.find (\<lambda>t. tId t \<in> set (pm_usedAsPredicate m)) wires of
        Some t \<Rightarrow> Some (tId t)
      | None \<Rightarrow> map_option tId (List.find (\<lambda>t. \<not> isHeld m (tId t)) wires))"

subsection \<open>Runs\<close>

definition node_id_of :: "vos_thing \<Rightarrow> string option" where
  "node_id_of nodeRun = (case as_string (oget (tProperties nodeRun) ''nodeId'') of
     Some i \<Rightarrow> if i = [] then None else Some i | None \<Rightarrow> None)"

definition is_item_record :: "vos_thing \<Rightarrow> bool" where
  "is_item_record nodeRun \<longleftrightarrow> ohas (tProperties nodeRun) ''index''"

definition nodeRunStatuses :: "pipeline_model \<Rightarrow> string \<Rightarrow> (string, string) omap" where
  "nodeRunStatuses m runId = foldl (\<lambda>out nodeRun.
       if is_item_record nodeRun then out
       else case node_id_of nodeRun of
         Some nodeId \<Rightarrow> oput nodeId (text_of (tProperties nodeRun) ''status'') out
       | None \<Rightarrow> out) [] (outgoing m runId ''has'')"

record node_run_progress =
  np_done :: nat
  np_reached :: nat
  np_spreadOver :: jsnum

definition no_progress :: node_run_progress where
  "no_progress = \<lparr>np_done = 0, np_reached = 0, np_spreadOver = Dec 0 0\<rparr>"

definition count_item :: "vos_thing \<Rightarrow> node_run_progress \<Rightarrow> node_run_progress" where
  "count_item nodeRun entry = entry\<lparr>np_reached := np_reached entry + 1,
     np_spreadOver := math_max (np_spreadOver entry) (js_number (coalesce (oget (tProperties nodeRun) ''total'') (JNum (Dec 0 0)))),
     np_done := (if text_of (tProperties nodeRun) ''status'' \<noteq> ''running'' then np_done entry + 1 else np_done entry)\<rparr>"

definition nodeRunProgress :: "pipeline_model \<Rightarrow> string \<Rightarrow> (string, node_run_progress) omap" where
  "nodeRunProgress m runId = foldl (\<lambda>out nodeRun.
       if \<not> is_item_record nodeRun then out
       else case node_id_of nodeRun of
         None \<Rightarrow> out
       | Some nodeId \<Rightarrow>
          oput nodeId (count_item nodeRun (case oget out nodeId of Some entry \<Rightarrow> entry | None \<Rightarrow> no_progress)) out)
     [] (outgoing m runId ''has'')"

definition runStatus :: "pipeline_model \<Rightarrow> string \<Rightarrow> string option" where
  "runStatus m runId = (case thing m runId of None \<Rightarrow> None | Some t \<Rightarrow> as_string (oget (tProperties t) ''status''))"

record run_information =
  ri_runId :: string
  ri_status :: string
  ri_startedUtc :: string
  ri_requestId :: "string option"

definition run_information_of :: "vos_thing \<Rightarrow> run_information" where
  "run_information_of t = \<lparr>ri_runId = tId t, ri_status = text_of (tProperties t) ''status'',
     ri_startedUtc = text_of (tProperties t) ''startedUtc'',
     ri_requestId = (case as_string (oget (tProperties t) ''requestId'') of
        Some s \<Rightarrow> if s = [] then None else Some s | None \<Rightarrow> None)\<rparr>"

definition is_run_of :: "pipeline_model \<Rightarrow> string \<Rightarrow> vos_thing \<Rightarrow> bool" where
  "is_run_of m pipelineId t \<longleftrightarrow> isOf m (tId t) (ROLE RPipelineRun)
     \<and> list_ex (\<lambda>p. tId p = pipelineId) (outgoing m (tId t) ''of'')"

definition runsOf :: "(string \<Rightarrow> string \<Rightarrow> int) \<Rightarrow> pipeline_model \<Rightarrow> string \<Rightarrow> run_information list" where
  "runsOf lc m pipelineId = sort_by (\<lambda>a b. lc (ri_startedUtc b) (ri_startedUtc a))
     (map run_information_of (filter (is_run_of m pipelineId) (pm_things m)))"

record run_a_restart_stopped =
  rs_runId :: string
  rs_pipelineName :: string
  rs_startedUtc :: string
  rs_reason :: string

definition restart_stopped :: "pipeline_model \<Rightarrow> vos_thing \<Rightarrow> bool" where
  "restart_stopped m run \<longleftrightarrow> oget (tProperties run) ''status'' = Some (JStr ''failed'')
     \<and> isOf m (tId run) (ROLE RPipelineRun)
     \<and> ''interrupted'' \<in> set (map snd (nodeRunStatuses m (tId run)))
     \<and> reachingAlong m (tId run) (ROLE RRepeatedRun) = []"

definition runsARestartStopped :: "(string \<Rightarrow> string \<Rightarrow> int) \<Rightarrow> pipeline_model \<Rightarrow> run_a_restart_stopped list" where
  "runsARestartStopped lc m = sort_by (\<lambda>a b. lc (rs_startedUtc b) (rs_startedUtc a))
     (map (\<lambda>run. \<lparr>rs_runId = tId run,
        rs_pipelineName = (case outgoing m (tId run) ''of'' of [] \<Rightarrow> [] | p # _ \<Rightarrow> tName p),
        rs_startedUtc = text_of (tProperties run) ''startedUtc'',
        rs_reason = text_of (tProperties run) ''error''\<rparr>)
      (filter (restart_stopped m) (pm_things m)))"

subsection \<open>Resolving ports\<close>

text \<open>The Things a service's ports are read from: it and what it is, near or far.\<close>

lemma resolve_loop_seen:
  "set seen \<subseteq> set (snd (resolve_loop lc m stack seen ports))
   \<and> set stack \<subseteq> set (snd (resolve_loop lc m stack seen ports))"
proof (induction lc m stack seen ports rule: resolve_loop.induct)
  case (2 lc m i stack seen ports)
  then show ?case by (cases "i \<in> set seen") auto
qed simp

lemma resolve_loop_closed:
  "\<forall>x\<in>set seen. set (parents m x) \<subseteq> set seen \<union> set stack \<Longrightarrow>
   x \<in> set (snd (resolve_loop lc m stack seen ports)) \<Longrightarrow>
   set (parents m x) \<subseteq> set (snd (resolve_loop lc m stack seen ports))"
proof (induction lc m stack seen ports rule: resolve_loop.induct)
  case (2 lc m i stack seen ports)
  show ?case
  proof (cases "i \<in> set seen")
    case True
    with 2 show ?thesis by (auto simp: insert_absorb)
  next
    case False
    have "\<forall>x\<in>set (i # seen). set (parents m x) \<subseteq> set (i # seen) \<union> set (rev (parents m i) @ stack)"
      using 2(3) by auto
    with 2(2) False 2(4) show ?thesis by simp
  qed
qed auto

lemma resolve_loop_reached:
  "x \<in> set (snd (resolve_loop lc m stack seen ports)) \<Longrightarrow>
   x \<in> set seen \<or> (\<exists>s\<in>set stack. (s, x) \<in> (is_edges m)\<^sup>*)"
proof (induction lc m stack seen ports rule: resolve_loop.induct)
  case (2 lc m i stack seen ports)
  show ?case
  proof (cases "i \<in> set seen")
    case True
    with 2 show ?thesis by auto
  next
    case False
    with 2 have "x \<in> set (i # seen) \<or> (\<exists>s\<in>set (rev (parents m i) @ stack). (s, x) \<in> (is_edges m)\<^sup>*)" by simp
    then show ?thesis
      by (auto intro: converse_rtrancl_into_rtrancl[of i _ "is_edges m"])
  qed
qed simp

lemma resolve_loop_ports:
  "\<exists>new. snd (resolve_loop lc m stack seen ports) = rev new @ seen \<and> distinct new \<and> set new \<inter> set seen = {}
     \<and> fst (resolve_loop lc m stack seen ports) = ports @ concat (map (ports_of lc m) new)"
proof (induction lc m stack seen ports rule: resolve_loop.induct)
  case (2 lc m i stack seen ports)
  show ?case
  proof (cases "i \<in> set seen")
    case True
    with 2 show ?thesis by simp
  next
    case False
    with 2(2) obtain new where n:
      "snd (resolve_loop lc m (rev (parents m i) @ stack) (i # seen) (ports @ ports_of lc m i)) = rev new @ i # seen"
      "distinct new" "set new \<inter> set (i # seen) = {}"
      "fst (resolve_loop lc m (rev (parents m i) @ stack) (i # seen) (ports @ ports_of lc m i))
        = (ports @ ports_of lc m i) @ concat (map (ports_of lc m) new)" by blast
    with False show ?thesis by (intro exI[of _ "i # new"]) auto
  qed
qed simp

text \<open>C24. A service's ports. \<open>resolvePorts\<close> visits every Thing the service is, near or far, exactly
  once, the service first, and answers with the ports those Things hold, in the order of the visits:
  nothing on the \<open>is\<close> chain is missed, nothing is read twice, and a chain that runs in a circle ends.\<close>

theorem resolvePorts_visits_chain:
  "\<exists>visited. distinct visited \<and> set visited = {x. (s, x) \<in> (is_edges m)\<^sup>*} \<and> hd visited = s
     \<and> resolvePorts lc m s = concat (map (ports_of lc m) visited)"
proof -
  let ?run = "resolve_loop lc m [s] [] []"
  obtain new where new: "snd ?run = rev new" "distinct new" "fst ?run = concat (map (ports_of lc m) new)"
    using resolve_loop_ports[of lc m "[s]" "[]" "[]"] by auto
  have sub: "x \<in> set new \<Longrightarrow> (s, x) \<in> (is_edges m)\<^sup>*" for x
    using resolve_loop_reached[of x lc m "[s]" "[]" "[]"] new by simp
  have all: "(s, x) \<in> (is_edges m)\<^sup>* \<Longrightarrow> x \<in> set new" for x
  proof (induction rule: rtrancl_induct)
    case base
    show ?case using resolve_loop_seen[of "[]" lc m "[s]" "[]"] new by simp
  next
    case (step y z)
    then show ?case using resolve_loop_closed[of "[]" m "[s]" y lc "[]"] new by auto
  qed
  have run: "?run = resolve_loop lc m (rev (parents m s)) [s] (ports_of lc m s)" by simp
  obtain rest where rest: "snd ?run = rev rest @ [s]"
    using resolve_loop_ports[of lc m "rev (parents m s)" "[s]" "ports_of lc m s"] run by auto
  with new have "new = s # rest" by (metis append.right_neutral append_Cons rev.simps rev_append rev_rev_ident append_Nil)
  with new sub all show ?thesis unfolding resolvePorts_def by (intro exI[of _ new]) auto
qed

subsection \<open>The progress of runs\<close>

text \<open>The per-item records of a node among the records of a run.\<close>

definition items_of :: "string \<Rightarrow> vos_thing list \<Rightarrow> vos_thing list" where
  "items_of nodeId records = filter (\<lambda>r. is_item_record r \<and> node_id_of r = Some nodeId) records"

definition finished_items :: "vos_thing list \<Rightarrow> vos_thing list" where
  "finished_items records = filter (\<lambda>r. text_of (tProperties r) ''status'' \<noteq> ''running'') records"

definition progress_of :: "vos_thing list \<Rightarrow> node_run_progress" where
  "progress_of records = \<lparr>np_done = length (finished_items records), np_reached = length records,
     np_spreadOver = foldl math_max (Dec 0 0)
        (map (\<lambda>r. js_number (coalesce (oget (tProperties r) ''total'') (JNum (Dec 0 0)))) records)\<rparr>"

abbreviation progress_step ::
  "(string, node_run_progress) omap \<Rightarrow> vos_thing \<Rightarrow> (string, node_run_progress) omap" where
  "progress_step out nodeRun \<equiv> (if \<not> is_item_record nodeRun then out
       else case node_id_of nodeRun of
         None \<Rightarrow> out
       | Some nodeId \<Rightarrow>
          oput nodeId (count_item nodeRun (case oget out nodeId of Some entry \<Rightarrow> entry | None \<Rightarrow> no_progress)) out)"

lemma count_item_progress: "count_item r (progress_of rs) = progress_of (rs @ [r])"
  by (simp add: count_item_def progress_of_def finished_items_def)

lemma progress_of_Nil: "progress_of [] = no_progress"
  by (simp add: progress_of_def no_progress_def finished_items_def)

lemma nodeRunProgress_records:
  "oget (foldl progress_step [] records) nodeId =
     (if items_of nodeId records = [] then None else Some (progress_of (items_of nodeId records)))"
proof (induction records rule: rev_induct)
  case Nil
  then show ?case by (simp add: items_of_def)
next
  case (snoc r records)
  show ?case
  proof (cases "is_item_record r \<and> node_id_of r = Some nodeId")
    case True
    then have "items_of nodeId (records @ [r]) = items_of nodeId records @ [r]" by (simp add: items_of_def)
    with True snoc show ?thesis
      by (simp add: count_item_progress flip: progress_of_Nil split: if_splits)
  next
    case False
    then have "items_of nodeId (records @ [r]) = items_of nodeId records" by (auto simp: items_of_def)
    with False snoc show ?thesis by (auto split: option.splits)
  qed
qed

text \<open>Fan-out progress. A node has an entry exactly where the run holds per-item records of it;
  the entry counts those records, how many of them are no longer running, and the largest total any
  of them names.\<close>

theorem nodeRunProgress_counts:
  "oget (nodeRunProgress m runId) nodeId =
     (let items = items_of nodeId (outgoing m runId ''has'') in
      if items = [] then None else Some (progress_of items))"
  using nodeRunProgress_records[of "outgoing m runId ''has''" nodeId]
  by (simp add: nodeRunProgress_def Let_def)

text \<open>The node's own records, which carry no index: the last written is the node's status.\<close>

abbreviation status_step :: "(string, string) omap \<Rightarrow> vos_thing \<Rightarrow> (string, string) omap" where
  "status_step out nodeRun \<equiv> (if is_item_record nodeRun then out
       else case node_id_of nodeRun of
         Some nodeId \<Rightarrow> oput nodeId (text_of (tProperties nodeRun) ''status'') out
       | None \<Rightarrow> out)"

lemma nodeRunStatuses_records:
  "oget (foldl status_step [] records) nodeId =
     map_option (\<lambda>r. text_of (tProperties r) ''status'')
       (List.find (\<lambda>r. \<not> is_item_record r \<and> node_id_of r = Some nodeId) (rev records))"
  by (induction records rule: rev_induct) (auto split: option.splits)

text \<open>The status of a node is that of the last of its own records; a per-item record never
  changes it.\<close>

theorem nodeRunStatuses_last:
  "oget (nodeRunStatuses m runId) nodeId =
     map_option (\<lambda>r. text_of (tProperties r) ''status'')
       (List.find (\<lambda>r. \<not> is_item_record r \<and> node_id_of r = Some nodeId) (rev (outgoing m runId ''has'')))"
  using nodeRunStatuses_records[of "outgoing m runId ''has''" nodeId] by (simp add: nodeRunStatuses_def)

subsection \<open>The history of runs\<close>

text \<open>The history of a pipeline lists exactly the Things that are runs of it, one entry each,
  newest first under any collation that orders strings consistently.\<close>

theorem runsOf_newest_first:
  assumes "collation lc"
  shows "sorted_wrt (\<lambda>a b. lc (ri_startedUtc b) (ri_startedUtc a) \<le> 0) (runsOf lc m p)
     \<and> set (runsOf lc m p) = run_information_of ` {t \<in> set (pm_things m). is_run_of m p t}
     \<and> length (runsOf lc m p) = length (filter (is_run_of m p) (pm_things m))"
  using collation.sorted_reversed[OF assms, of ri_startedUtc] by (simp add: runsOf_def)

definition run_graph :: pipeline_model where
  "run_graph = newPipelineModel
     (sample_predicates @ sample_role_things [(RPipelineRun, ''run'')]
       @ [sample_thing ''p'' ''p'' [], sample_thing ''early'' ''r1'' [(''startedUtc'', JStr ''2024'')],
          sample_thing ''late'' ''r2'' [(''startedUtc'', JStr ''2025'')]])
     (sample_role_rels [(RPipelineRun, ''run'')]
       @ [sample_rel ''early'' ''is'' ''run'', sample_rel ''early'' ''of'' ''p'',
          sample_rel ''late'' ''is'' ''run'', sample_rel ''late'' ''of'' ''p''])"

lemma runsOf_newest_first_witness:
  "map ri_runId (runsOf compare_code_units run_graph ''p'') = [''late'', ''early'']
   \<and> sorted_wrt (\<lambda>a b. compare_code_units (ri_startedUtc b) (ri_startedUtc a) \<le> 0) (runsOf compare_code_units run_graph ''p'')"
proof
  show "map ri_runId (runsOf compare_code_units run_graph ''p'') = [''late'', ''early'']" by code_simp
qed (use runsOf_newest_first[OF code_unit_collation.collation_axioms, of run_graph "''p''"] in simp)

text \<open>The runs offered for starting again are failed runs with an interrupted node of their own
  and no run repeating them.\<close>

theorem runsARestartStopped_iff:
  "i \<in> rs_runId ` set (runsARestartStopped lc m) \<longleftrightarrow>
     (\<exists>t\<in>set (pm_things m). tId t = i \<and> oget (tProperties t) ''status'' = Some (JStr ''failed'')
        \<and> isOf m i (ROLE RPipelineRun) \<and> reachingAlong m i (ROLE RRepeatedRun) = []
        \<and> (\<exists>nodeId. oget (nodeRunStatuses m i) nodeId = Some ''interrupted''))"
proof -
  have "okeys_distinct (foldl status_step [] records)" for records
    by (induction records rule: rev_induct) (auto split: option.splits)
  then have "okeys_distinct (nodeRunStatuses m r)" for r
    by (simp add: nodeRunStatuses_def)
  then have "''interrupted'' \<in> set (map snd (nodeRunStatuses m r))
      \<longleftrightarrow> (\<exists>nodeId. oget (nodeRunStatuses m r) nodeId = Some ''interrupted'')" for r
    by (force simp: okeys_distinct_def)
  then show ?thesis by (auto simp: runsARestartStopped_def restart_stopped_def image_image)
qed

end
