(* ===== verification/PipelineValidate.thy ===== *)
theory PipelineValidate
  imports PipelineRuns
begin

section \<open>Validation of a drawn pipeline\<close>

text \<open>
  \<open>src/pipeline/validate.ts\<close>: why a drawing will not run, found before it is run. The messages come
  from i18next, which is the argument \<open>tr\<close>: the key and its interpolated values.
\<close>

type_synonym translate = "string \<Rightarrow> (string \<times> string) list \<Rightarrow> string"

record stands_for =
  sf_name :: string
  sf_kind :: end_kind
  sf_mayStart :: bool
  sf_mayEnd :: bool

record validation_node =
  vn_id :: string
  vn_label :: string
  vn_ports :: "port_information list"
  vn_parameterBindings :: "(string, string) omap option"
  vn_kind :: "node_kind option"
  vn_standsFor :: "stands_for option"

record validation_edge =
  ve_source :: string
  ve_sourceHandle :: string
  ve_target :: string
  ve_targetHandle :: string

datatype validation_issue =
    UnboundRequiredInput string string string
  | StartCannotStart string string string
  | EndCannotEnd string string string
  | DanglingWire string string string string string

definition vkey :: "string \<Rightarrow> string \<Rightarrow> string" where
  "vkey nodeId port = nodeId @ '' '' @ port"

definition whyNoEnd :: "end_kind \<Rightarrow> string" where
  "whyNoEnd kind = (if kind = EExternalSystem then ''pipeline.endTellsThroughANode''
     else if kind = EPipeline then ''pipeline.endStartsThroughANode'' else ''pipeline.endCannotEnd'')"

definition end_issues_of :: "translate \<Rightarrow> validation_node \<Rightarrow> validation_issue list" where
  "end_issues_of tr node = (case (vn_kind node, vn_standsFor node) of
     (Some kind, Some s) \<Rightarrow>
       (if kind = KInput \<and> \<not> sf_mayStart s
        then [StartCannotStart (vn_id node) (sf_name s)
               (tr ''pipeline.startCannotStart'' [(''node'', vn_label node), (''named'', sf_name s)])] else [])
       @ (if kind = KOutput \<and> \<not> sf_mayEnd s
        then [EndCannotEnd (vn_id node) (sf_name s)
               (tr (whyNoEnd (sf_kind s)) [(''node'', vn_label node), (''named'', sf_name s)])] else [])
   | _ \<Rightarrow> [])"

definition validateEnds :: "translate \<Rightarrow> validation_node list \<Rightarrow> validation_issue list" where
  "validateEnds tr nodes = concat (map (end_issues_of tr) nodes)"

definition node_by_id :: "validation_node list \<Rightarrow> string \<Rightarrow> validation_node option" where
  "node_by_id nodes i = oget (of_entries (map (\<lambda>n. (vn_id n, n)) nodes)) i"

definition edge_ends ::
  "validation_node list \<Rightarrow> validation_edge \<Rightarrow> port_information option \<times> port_information option" where
  "edge_ends nodes e = wireEnds (map_option vn_ports (node_by_id nodes (ve_source e))) (Some (ve_sourceHandle e))
     (map_option vn_ports (node_by_id nodes (ve_target e))) (Some (ve_targetHandle e))"

definition dangling_issue :: "translate \<Rightarrow> validation_node list \<Rightarrow> validation_edge \<Rightarrow> validation_issue" where
  "dangling_issue tr nodes e = (let (outPort, inPort) = edge_ends nodes e;
       label = (\<lambda>i. case node_by_id nodes i of Some n \<Rightarrow> vn_label n | None \<Rightarrow> i);
       port = (\<lambda>p h. case p of Some q \<Rightarrow> pt_portName q | None \<Rightarrow> h) in
     DanglingWire (ve_source e) (ve_sourceHandle e) (ve_target e) (ve_targetHandle e)
       (tr ''pipeline.danglingWire''
         [(''from'', label (ve_source e) @ ''.'' @ port outPort (ve_sourceHandle e)),
          (''to'', label (ve_target e) @ ''.'' @ port inPort (ve_targetHandle e))]))"

text \<open>The loop over the wires: an issue for a wire whose ends are not both there, otherwise the
  input it satisfies.\<close>

fun wires_loop ::
  "translate \<Rightarrow> validation_node list \<Rightarrow> validation_edge list \<Rightarrow> validation_issue list \<Rightarrow> string list
   \<Rightarrow> validation_issue list \<times> string list" where
  "wires_loop tr nodes [] issues wired = (issues, wired)"
| "wires_loop tr nodes (e # es) issues wired =
     (case edge_ends nodes e of
        (Some _, Some inPort) \<Rightarrow> wires_loop tr nodes es issues (sadd (vkey (ve_target e) (pt_portName inPort)) wired)
      | _ \<Rightarrow> wires_loop tr nodes es (issues @ [dangling_issue tr nodes e]) wired)"

definition required_input :: "port_information \<Rightarrow> bool" where
  "required_input p \<longleftrightarrow> pt_direction p = DirIn \<and> pt_required p"

definition bound_parameter :: "validation_node \<Rightarrow> string \<Rightarrow> bool" where
  "bound_parameter n port = (case vn_parameterBindings n of None \<Rightarrow> False
     | Some b \<Rightarrow> (case oget b port of None \<Rightarrow> False | Some key \<Rightarrow> key \<noteq> []))"

definition unbound_of :: "translate \<Rightarrow> string list \<Rightarrow> validation_node \<Rightarrow> validation_issue list" where
  "unbound_of tr wired n = map (\<lambda>p. UnboundRequiredInput (vn_id n) (pt_portName p)
       (tr ''pipeline.requiredInputUnbound'' [(''port'', pt_portName p), (''node'', vn_label n)]))
     (filter (\<lambda>p. required_input p
        \<and> \<not> (vkey (vn_id n) (pt_portName p) \<in> set wired \<or> bound_parameter n (pt_portName p))) (vn_ports n))"

definition validatePipeline :: "translate \<Rightarrow> validation_node list \<Rightarrow> validation_edge list \<Rightarrow> validation_issue list" where
  "validatePipeline tr nodes edges = (let (issues, wired) = wires_loop tr nodes edges [] [] in
     issues @ concat (map (unbound_of tr wired) nodes))"

subsection \<open>What a clean drawing is\<close>

definition wire_stands :: "validation_node list \<Rightarrow> validation_edge \<Rightarrow> bool" where
  "wire_stands nodes e = (case edge_ends nodes e of (Some _, Some _) \<Rightarrow> True | _ \<Rightarrow> False)"

text \<open>A wire reaches an input: it stands, and it ends at this node in a port of this name.\<close>

definition wire_reaches :: "validation_node list \<Rightarrow> string \<Rightarrow> string \<Rightarrow> validation_edge \<Rightarrow> bool" where
  "wire_reaches nodes nodeId port e = (case edge_ends nodes e of
     (Some _, Some inPort) \<Rightarrow> vkey (ve_target e) (pt_portName inPort) = vkey nodeId port | _ \<Rightarrow> False)"

definition input_satisfied ::
  "validation_node list \<Rightarrow> validation_edge list \<Rightarrow> validation_node \<Rightarrow> port_information \<Rightarrow> bool" where
  "input_satisfied nodes edges n p \<longleftrightarrow>
     list_ex (wire_reaches nodes (vn_id n) (pt_portName p)) edges \<or> bound_parameter n (pt_portName p)"

text \<open>The input a wire satisfies, by its key, where the wire stands.\<close>

definition satisfied_key :: "validation_node list \<Rightarrow> validation_edge \<Rightarrow> string option" where
  "satisfied_key nodes e = (case edge_ends nodes e of
     (Some _, Some inPort) \<Rightarrow> Some (vkey (ve_target e) (pt_portName inPort)) | _ \<Rightarrow> None)"

lemma wire_stands_key: "wire_stands nodes e \<longleftrightarrow> satisfied_key nodes e \<noteq> None"
  by (simp add: wire_stands_def satisfied_key_def split: prod.split option.split)

lemma wire_reaches_key: "wire_reaches nodes i port e \<longleftrightarrow> satisfied_key nodes e = Some (vkey i port)"
  by (simp add: wire_reaches_def satisfied_key_def split: prod.split option.split)

lemma wires_loop_Cons:
  "wires_loop tr nodes (e # es) issues wired = (case satisfied_key nodes e of
     Some k \<Rightarrow> wires_loop tr nodes es issues (sadd k wired)
   | None \<Rightarrow> wires_loop tr nodes es (issues @ [dangling_issue tr nodes e]) wired)"
  by (simp add: satisfied_key_def split: prod.split option.split)

lemma wires_loop_result:
  "fst (wires_loop tr nodes edges issues wired)
      = issues @ map (dangling_issue tr nodes) (filter (\<lambda>e. \<not> wire_stands nodes e) edges)
   \<and> set (snd (wires_loop tr nodes edges issues wired))
      = set wired \<union> {k. \<exists>e\<in>set edges. satisfied_key nodes e = Some k}"
proof (induction edges arbitrary: issues wired)
  case (Cons e es)
  show ?case
  proof (cases "satisfied_key nodes e")
    case None
    then show ?thesis using Cons by (simp add: wires_loop_Cons wire_stands_key del: wires_loop.simps)
  next
    case (Some k)
    then show ?thesis using Cons by (auto simp: wires_loop_Cons wire_stands_key simp del: wires_loop.simps)
  qed
qed simp

lemma wired_satisfies:
  "vkey nodeId port \<in> set (snd (wires_loop tr nodes edges [] [])) \<longleftrightarrow> list_ex (wire_reaches nodes nodeId port) edges"
  by (simp add: wires_loop_result list_ex_iff wire_reaches_key)

lemma node_by_id_find:
  assumes "distinct (map vn_id nodes)"
  shows "node_by_id nodes i = List.find (\<lambda>n. vn_id n = i) nodes"
proof -
  have "node_by_id nodes i = oget (map (\<lambda>n. (vn_id n, n)) nodes) i"
    using assms by (simp add: node_by_id_def of_entries_distinct comp_def)
  also have "\<dots> = List.find (\<lambda>n. vn_id n = i) nodes"
    by (induction nodes) auto
  finally show ?thesis .
qed


text \<open>What the canvas accepts, validation lets stand. Over nodes with distinct identifiers, a wire
  the canvas refuses to draw for want of a port is exactly one that validation would call dangling.\<close>

lemma judged_wires_stand:
  assumes "distinct (map vn_id nodes)"
  shows "judgeConnection (map (\<lambda>n. (vn_id n, vn_ports n)) nodes)
      \<lparr>cd_source = ve_source e, cd_sourceHandle = Some (ve_sourceHandle e),
       cd_target = ve_target e, cd_targetHandle = Some (ve_targetHandle e)\<rparr> = Ignore
    \<longleftrightarrow> \<not> wire_stands nodes e"
proof -
  have ports: "map_option snd (List.find (\<lambda>n. fst n = i) (map (\<lambda>n. (vn_id n, vn_ports n)) nodes))
      = map_option vn_ports (node_by_id nodes i)" for i
    using assms by (simp add: node_by_id_find find_map comp_def option.map_comp)
  show ?thesis
    unfolding judgeConnection_def wire_stands_def edge_ends_def ports
    by (auto simp: Let_def ports split: option.splits prod.splits)
qed

text \<open>The ends of a drawing. \<open>validateEnds\<close> reports nothing exactly where every start that stands
  for something stands for what may start a run and every end for what may end one.\<close>

theorem validateEnds_clean:
  "validateEnds tr nodes = [] \<longleftrightarrow>
     list_all (\<lambda>n. case vn_standsFor n of None \<Rightarrow> True
        | Some s \<Rightarrow> (if vn_kind n = Some KInput then sf_mayStart s
                     else if vn_kind n = Some KOutput then sf_mayEnd s else True)) nodes"
  by (auto simp: validateEnds_def end_issues_of_def list_all_iff split: option.splits if_splits)

subsection \<open>A drawing the statements speak of\<close>

definition sample_port :: "string \<Rightarrow> direction \<Rightarrow> port_information" where
  "sample_port i d = \<lparr>pt_portId = i, pt_portName = i, pt_direction = d, pt_type = ''any'', pt_required = True\<rparr>"

definition sample_node :: "string \<Rightarrow> port_information list \<Rightarrow> validation_node" where
  "sample_node i ps = \<lparr>vn_id = i, vn_label = i, vn_ports = ps, vn_parameterBindings = None,
     vn_kind = None, vn_standsFor = None\<rparr>"

lemma judged_wires_stand_witness:
  "judgeConnection (map (\<lambda>n. (vn_id n, vn_ports n))
       [sample_node ''a'' [sample_port ''p'' DirOut], sample_node ''b'' [sample_port ''q'' DirIn]])
     \<lparr>cd_source = ''a'', cd_sourceHandle = Some ''p'', cd_target = ''b'', cd_targetHandle = Some ''q''\<rparr> \<noteq> Ignore"
proof -
  let ?nodes = "[sample_node ''a'' [sample_port ''p'' DirOut], sample_node ''b'' [sample_port ''q'' DirIn]]"
  let ?e = "\<lparr>ve_source = ''a'', ve_sourceHandle = ''p'', ve_target = ''b'', ve_targetHandle = ''q''\<rparr>"
  have "distinct (map vn_id ?nodes)" by (simp add: sample_node_def)
  moreover have "wire_stands ?nodes ?e" by code_simp
  ultimately show ?thesis using judged_wires_stand[of ?nodes ?e] by simp
qed

end
