(* ===== verification/PipelineSerialize.thy ===== *)
theory PipelineSerialize
  imports PipelineValidate
begin

section \<open>Saving and loading a pipeline\<close>

text \<open>
  \<open>src/pipeline/serialize.ts\<close>. A save is one sequence of awaited calls to the platform; the model is
  the list of those calls, \<open>api_call list\<close>, in the order they are made. The platform is not part of the
  repository: of its answers the save uses only the identifier of a Thing it creates, which is the
  argument \<open>created\<close> (the k-th Thing created), and \<open>crypto.randomUUID\<close> is the argument \<open>uuid\<close> (the
  k-th one drawn). Where a call fails the calls after it are not made: what has happened is then a
  prefix of the list.
\<close>

subsection \<open>The calls\<close>

datatype api_call =
    ApplyFragment string
  | CreateThing string bool
  | AddProperty string string string json
  | SetProperty string string string json
  | CreateRelationship string string string
  | RemoveThing string
  | RemoveRelationship string

text \<open>What has happened when the k-th call, if any, fails.\<close>

definition performed :: "nat option \<Rightarrow> api_call list \<Rightarrow> api_call list" where
  "performed failing ws = (case failing of None \<Rightarrow> ws | Some k \<Rightarrow> take k ws)"

subsection \<open>The editor's nodes and edges\<close>

record editor_node =
  en_id :: string
  en_connectionId :: string
  en_label :: string
  en_x :: jsnum
  en_y :: jsnum
  en_ports :: "port_information list"
  en_parameterBindings :: "(string, string) omap option"
  en_kind :: "node_kind option"
  en_standsForId :: "string option"
  en_choices :: "choice_information list option"
  en_chosen :: "(string, string) omap option"
  en_rule :: "string option"

record editor_edge =
  ee_id :: string
  ee_source :: string
  ee_sourceHandle :: string
  ee_target :: string
  ee_targetHandle :: string
  ee_fromPath :: "string option"
  ee_toPath :: "string option"
  ee_itemTransform :: "string option"
  ee_listTransform :: "string option"
  ee_takenOn :: "string list option"

record loaded_pipeline =
  lp_name :: string
  lp_nodes :: "editor_node list"
  lp_edges :: "editor_edge list"

record saved_pipeline =
  sp_pipelineId :: string
  sp_nodeIdMap :: "(string, string) omap"

text \<open>A string that is there and not empty: the truth of \<open>string | undefined\<close>.\<close>

definition given :: "string option \<Rightarrow> string option" where
  "given s = (if s = Some [] then None else s)"

definition text_or_empty :: "string option \<Rightarrow> string" where
  "text_or_empty s = (case s of None \<Rightarrow> [] | Some x \<Rightarrow> x)"

definition takenOnOf :: "string list option \<Rightarrow> pipeline_model \<Rightarrow> string list" where
  "takenOnOf takenOn m = (case takenOn of Some (t # ts) \<Rightarrow> t # ts
     | _ \<Rightarrow> (case given (boundTo m (ROLE RSuccess)) of Some success \<Rightarrow> [success] | None \<Rightarrow> []))"

subsection \<open>What a save needs the model to declare\<close>

definition PIPELINE_DECLARATIONS :: "string list" where
  "PIPELINE_DECLARATIONS = [''isPredicate'', ''hasPredicate'', ''pipelineArchetype'', ''nodeArchetype'',
     ''wireArchetype'', ''wirePredicate'', ''inputConnector'', ''outputConnector'', ''takenOnPredicate'', ''successResult'']"

definition found_declarations :: "pipeline_model \<Rightarrow> (string, string option) omap" where
  "found_declarations m = [
     (''isPredicate'', predicateIdByName m ''is''), (''hasPredicate'', predicateIdByName m ''has''),
     (''pipelineArchetype'', boundTo m (ROLE RPipeline)), (''nodeArchetype'', boundTo m (ROLE RPipelineNode)),
     (''wireArchetype'', boundTo m (ROLE RPipelineWire)), (''wirePredicate'', wirePredicateId m),
     (''inputConnector'', boundTo m (ROLE RInputConnector)), (''outputConnector'', boundTo m (ROLE ROutputConnector)),
     (''takenOnPredicate'', boundTo m (ROLE RTakenOn)), (''successResult'', boundTo m (ROLE RSuccess))]"

definition declared :: "pipeline_model \<Rightarrow> string \<Rightarrow> bool" where
  "declared m d \<longleftrightarrow> (case oget (found_declarations m) d of Some v \<Rightarrow> given v \<noteq> None | None \<Rightarrow> False)"

definition missing_declarations :: "pipeline_model \<Rightarrow> string list" where
  "missing_declarations m = filter (\<lambda>d. \<not> declared m d) PIPELINE_DECLARATIONS"

text \<open>The checks of a save in the order they are made; the message of the first that fails.\<close>

definition some_given :: "string option \<Rightarrow> bool" where
  "some_given s \<longleftrightarrow> given s \<noteq> None"

definition refusal :: "translate \<Rightarrow> pipeline_model \<Rightarrow> editor_node list \<Rightarrow> string option" where
  "refusal tr m nodes =
     (if missing_declarations m \<noteq> [] then
        Some (tr ''pipeline.noPipelineDeclarations''
          [(''missing'', join '', '' (map (\<lambda>d. tr (''pipeline.declarations.'' @ d) []) (missing_declarations m)))])
      else if list_ex (\<lambda>n. case en_kind n of None \<Rightarrow> False
          | Some k \<Rightarrow> \<not> some_given (boundTo m (NODE_KIND_ROLE k)) \<or> (k \<noteq> KStop \<and> \<not> some_given (boundTo m (ROLE RPort)))) nodes then
        Some (tr ''pipeline.noPortRoles'' [])
      else if list_ex (\<lambda>n. some_given (en_standsForId n)) nodes \<and> \<not> some_given (boundTo m (ROLE RStandsFor)) then
        Some (tr ''pipeline.noStandsForRole'' [])
      else if list_ex (\<lambda>n. case en_choices n of Some (c # cs) \<Rightarrow> True | _ \<Rightarrow> False) nodes
          \<and> \<not> some_given (boundTo m (ROLE RDecisionPath)) then
        Some (tr ''pipeline.noChoiceRole'' [])
      else if list_ex (\<lambda>n. case en_choices n of Some cs \<Rightarrow> list_ex (\<lambda>c. ch_comparesWith c \<noteq> []) cs | None \<Rightarrow> False) nodes
          \<and> \<not> some_given (boundTo m (ROLE RComparesWith)) then
        Some (tr ''pipeline.noComparesWithRole'' [])
      else None)"

subsection \<open>The fragment\<close>

definition env :: "string \<Rightarrow> json \<Rightarrow> json" where
  "env typeInfo value = JObj [(''typeInfo'', JStr typeInfo), (''value'', value)]"

definition str_env :: "string \<Rightarrow> json" where
  "str_env s = env ''vos.String'' (JStr s)"

record fragment_thing =
  ft_Id :: string
  ft_Name :: string
  ft_Properties :: props

record fragment_relationship =
  fr_Name :: string
  fr_Subject :: string
  fr_Predicate :: string
  fr_Target :: string

record save_fold =
  sv_things :: "fragment_thing list"
  sv_relationships :: "fragment_relationship list"
  sv_portsToRetract :: "string list"
  sv_choicesToRetract :: "string list"
  sv_standsForToRetract :: "string list"

definition push_thing :: "string \<Rightarrow> string \<Rightarrow> props \<Rightarrow> save_fold \<Rightarrow> save_fold" where
  "push_thing i nm ps s = s\<lparr>sv_things := sv_things s @ [\<lparr>ft_Id = i, ft_Name = nm, ft_Properties = ps\<rparr>]\<rparr>"

definition push_rel :: "string \<Rightarrow> string \<Rightarrow> string \<Rightarrow> string \<Rightarrow> save_fold \<Rightarrow> save_fold" where
  "push_rel nm subj pred tgt s = s\<lparr>sv_relationships := sv_relationships s
     @ [\<lparr>fr_Name = nm, fr_Subject = subj, fr_Predicate = pred, fr_Target = tgt\<rparr>]\<rparr>"

text \<open>The identifiers a save has narrowed to strings; an identifier only reached where a check has
  found it stands in as the empty string elsewhere.\<close>

record save_ids =
  si_is :: string
  si_has :: string
  si_nodeArchetype :: string
  si_portArchetype :: string
  si_standsFor :: string
  si_choiceArchetype :: string

definition save_ids_of :: "pipeline_model \<Rightarrow> save_ids" where
  "save_ids_of m = \<lparr>si_is = text_or_empty (predicateIdByName m ''is''), si_has = text_or_empty (predicateIdByName m ''has''),
     si_nodeArchetype = text_or_empty (boundTo m (ROLE RPipelineNode)), si_portArchetype = text_or_empty (boundTo m (ROLE RPort)),
     si_standsFor = text_or_empty (boundTo m (ROLE RStandsFor)), si_choiceArchetype = text_or_empty (boundTo m (ROLE RDecisionPath))\<rparr>"

definition direction_text :: "direction \<Rightarrow> string" where
  "direction_text d = (case d of DirIn \<Rightarrow> ''in'' | DirOut \<Rightarrow> ''out'')"

definition node_props :: "editor_node \<Rightarrow> props" where
  "node_props n =
     (let p0 = [(''x'', env ''vos.Double'' (JNum (en_x n))), (''y'', env ''vos.Double'' (JNum (en_y n)))];
          p1 = (case en_parameterBindings n of
                  Some b \<Rightarrow> if b \<noteq> [] then oput ''parameterBindings'' (str_env (json_stringify (JObj (map (\<lambda>(k, v). (k, JStr v)) b)))) p0 else p0
                | None \<Rightarrow> p0)
      in if en_kind n = Some KOutput then oput ''when'' (str_env (text_or_empty (en_rule n))) p1 else p1)"

definition port_props :: "port_information \<Rightarrow> props" where
  "port_props p = [(''portName'', str_env (pt_portName p)), (''direction'', str_env (direction_text (pt_direction p))),
     (''type'', str_env (if pt_type p = [] then ''any'' else pt_type p)),
     (''required'', str_env (if pt_required p then ''true'' else ''false''))]"

text \<open>The ports a save writes as the node's own: none for a stop node, whose ports are its kind's.\<close>

definition declared_ports :: "editor_node \<Rightarrow> port_information list" where
  "declared_ports n = (if en_kind n = Some KStop then [] else en_ports n)"

definition save_port :: "save_ids \<Rightarrow> string \<Rightarrow> save_fold \<Rightarrow> port_information \<Rightarrow> save_fold" where
  "save_port ids thingId s p = push_rel ''has'' thingId (si_has ids) (pt_portId p)
     (push_rel ''is'' (pt_portId p) (si_is ids) (si_portArchetype ids)
       (push_thing (pt_portId p) (pt_portName p) (port_props p) s))"

definition save_choice :: "save_ids \<Rightarrow> string \<Rightarrow> save_fold \<Rightarrow> choice_information \<Rightarrow> save_fold" where
  "save_choice ids thingId s c = push_rel ''has'' thingId (si_has ids) (ch_id c)
     (push_rel ''is'' (ch_id c) (si_is ids) (si_choiceArchetype ids)
       (push_thing (ch_id c) (ch_name c) [(''when'', str_env (ch_when c))] s))"

definition stale_ports :: "(string \<Rightarrow> string \<Rightarrow> int) \<Rightarrow> pipeline_model \<Rightarrow> editor_node \<Rightarrow> string list" where
  "stale_ports lc m n = filter (\<lambda>i. i \<notin> pt_portId ` set (declared_ports n))
     (set_of (map pr_portId (ownPortRelationships lc m (en_id n))))"

definition stale_choices :: "(string \<Rightarrow> string \<Rightarrow> int) \<Rightarrow> pipeline_model \<Rightarrow> string \<Rightarrow> editor_node \<Rightarrow> string list" where
  "stale_choices lc m thingId n = filter (\<lambda>i. i \<notin> ch_id ` set (case en_choices n of None \<Rightarrow> [] | Some cs \<Rightarrow> cs))
     (map ch_id (choicesOf lc m thingId))"

definition save_kind_node ::
  "(string \<Rightarrow> string \<Rightarrow> int) \<Rightarrow> pipeline_model \<Rightarrow> save_ids \<Rightarrow> string \<Rightarrow> editor_node \<Rightarrow> node_kind \<Rightarrow> save_fold \<Rightarrow> save_fold" where
  "save_kind_node lc m ids thingId n kind s0 =
     (let s1 = push_rel ''is'' thingId (si_is ids) (text_or_empty (boundTo m (NODE_KIND_ROLE kind))) s0;
          s2 = foldl (save_port ids thingId) s1 (declared_ports n);
          s3 = s2\<lparr>sv_portsToRetract := sv_portsToRetract s2 @ stale_ports lc m n\<rparr>;
          stood = standsFor m (en_id n);
          s4 = (case stood of Some st \<Rightarrow>
                  if Some (rt_thingId st) \<noteq> en_standsForId n
                  then s3\<lparr>sv_standsForToRetract := sv_standsForToRetract s3 @ [rt_relationshipId st]\<rparr> else s3
                | None \<Rightarrow> s3)
      in case given (en_standsForId n) of
           Some wanted \<Rightarrow> if map_option rt_thingId stood \<noteq> Some wanted
             then push_rel ''standsFor'' thingId (si_standsFor ids) wanted s4 else s4
         | None \<Rightarrow> s4)"

definition save_service_node ::
  "(string \<Rightarrow> string \<Rightarrow> int) \<Rightarrow> pipeline_model \<Rightarrow> save_ids \<Rightarrow> string \<Rightarrow> editor_node \<Rightarrow> save_fold \<Rightarrow> save_fold" where
  "save_service_node lc m ids thingId n s0 =
     (let s1 = push_rel ''has'' thingId (si_has ids) (en_connectionId n) s0;
          s2 = foldl (save_choice ids thingId) s1 (case en_choices n of None \<Rightarrow> [] | Some cs \<Rightarrow> cs)
      in s2\<lparr>sv_choicesToRetract := sv_choicesToRetract s2 @ stale_choices lc m thingId n\<rparr>)"

definition save_node ::
  "(string \<Rightarrow> string \<Rightarrow> int) \<Rightarrow> pipeline_model \<Rightarrow> save_ids \<Rightarrow> string \<Rightarrow> (string, string) omap \<Rightarrow> save_fold \<Rightarrow> editor_node \<Rightarrow> save_fold" where
  "save_node lc m ids pipelineId nodeThingId s n =
     (let thingId = text_or_empty (oget nodeThingId (en_id n));
          s1 = push_rel ''has'' pipelineId (si_has ids) thingId
                 (push_rel ''is'' thingId (si_is ids) (si_nodeArchetype ids)
                   (push_thing thingId (en_label n) (node_props n) s))
      in case en_kind n of Some kind \<Rightarrow> save_kind_node lc m ids thingId n kind s1
         | None \<Rightarrow> save_service_node lc m ids thingId n s1)"

definition thing_json :: "fragment_thing \<Rightarrow> json" where
  "thing_json t = JObj [(''Id'', JStr (ft_Id t)), (''Name'', JStr (ft_Name t)), (''Properties'', JObj (ft_Properties t))]"

definition relationship_json :: "fragment_relationship \<Rightarrow> json" where
  "relationship_json r = JObj [(''Name'', JStr (fr_Name r)), (''Subject'', JStr (fr_Subject r)),
     (''Predicate'', JStr (fr_Predicate r)), (''Target'', JStr (fr_Target r))]"

definition fragment_json :: "string \<Rightarrow> save_fold \<Rightarrow> json" where
  "fragment_json name s = JObj [(''Name'', JStr name), (''Things'', JArr (map thing_json (sv_things s))),
     (''Relationships'', JArr (map relationship_json (sv_relationships s)))]"

text \<open>A loaded node keeps its Thing; a new one draws a fresh identifier. Folded over the nodes, with
  how many identifiers have been drawn.\<close>

definition assign_id ::
  "(nat \<Rightarrow> string) \<Rightarrow> pipeline_model \<Rightarrow> nat \<times> (string, string) omap \<Rightarrow> editor_node \<Rightarrow> nat \<times> (string, string) omap" where
  "assign_id uuid m st n = (if isOf m (en_id n) (ROLE RPipelineNode) then (fst st, oput (en_id n) (en_id n) (snd st))
     else (Suc (fst st), oput (en_id n) (uuid (fst st)) (snd st)))"

subsection \<open>Relating a Thing to exactly the Things wanted\<close>

definition relateToExactly :: "string \<Rightarrow> string \<Rightarrow> string list \<Rightarrow> pipeline_model \<Rightarrow> api_call list" where
  "relateToExactly subjectId roleId wanted m =
     (let held = relationshipsAndTargetsAlong m subjectId roleId; reached = set (map rt_thingId held) in
      map (\<lambda>thingId. CreateRelationship subjectId (text_or_empty (boundTo m roleId)) thingId)
        (filter (\<lambda>thingId. thingId \<notin> reached) wanted)
      @ map (\<lambda>r. RemoveRelationship (rt_relationshipId r)) (filter (\<lambda>r. rt_thingId r \<notin> set wanted) held))"

subsection \<open>Wires\<close>

record desired_wire =
  dw_from :: string
  dw_outPortId :: string
  dw_to :: string
  dw_inPortId :: string
  dw_fromPath :: string
  dw_toPath :: string
  dw_itemTransform :: string
  dw_listTransform :: string
  dw_takenOn :: "string list"

definition wireKey :: "string \<Rightarrow> string \<Rightarrow> string \<Rightarrow> string \<Rightarrow> string" where
  "wireKey from outPortId to inPortId = from @ ''|'' @ outPortId @ ''|'' @ to @ ''|'' @ inPortId"

definition desired_key :: "desired_wire \<Rightarrow> string" where
  "desired_key w = wireKey (dw_from w) (dw_outPortId w) (dw_to w) (dw_inPortId w)"

definition desired_of :: "pipeline_model \<Rightarrow> (string, string) omap \<Rightarrow> editor_edge \<Rightarrow> desired_wire option" where
  "desired_of m nodeThingId e =
     (case (given (oget nodeThingId (ee_source e)), given (oget nodeThingId (ee_target e))) of
        (Some from, Some to) \<Rightarrow> Some \<lparr>dw_from = from, dw_outPortId = ee_sourceHandle e, dw_to = to,
           dw_inPortId = ee_targetHandle e, dw_fromPath = text_or_empty (ee_fromPath e),
           dw_toPath = text_or_empty (ee_toPath e), dw_itemTransform = text_or_empty (ee_itemTransform e),
           dw_listTransform = text_or_empty (ee_listTransform e), dw_takenOn = takenOnOf (ee_takenOn e) m\<rparr>
      | _ \<Rightarrow> None)"

text \<open>The nodes the model holds under the pipeline saved before, and the wires of those nodes, by key.\<close>

definition persistedNodeIds :: "pipeline_model \<Rightarrow> string option \<Rightarrow> string list" where
  "persistedNodeIds m existing = (case given existing of None \<Rightarrow> []
     | Some p \<Rightarrow> map tId (filter (\<lambda>t. isOf m (tId t) (ROLE RPipelineNode)) (outgoing m p ''has'')))"

definition persistedWires ::
  "(string \<Rightarrow> string \<Rightarrow> int) \<Rightarrow> pipeline_model \<Rightarrow> string option \<Rightarrow> (string \<times> wire_read) list" where
  "persistedWires lc m existing = concat (map (\<lambda>nid.
       map (\<lambda>w. (wireKey nid (wr_outPortId w) (wr_targetId w) (wr_inPortId w), w)) (outgoingWires lc m nid))
     (persistedNodeIds m existing))"

definition update_path :: "string \<Rightarrow> string \<Rightarrow> string \<Rightarrow> string \<Rightarrow> api_call list" where
  "update_path wireId name wanted held = (if wanted \<noteq> held then [SetProperty wireId name ''vos.String'' (JStr wanted)] else [])"

definition update_wire :: "pipeline_model \<Rightarrow> desired_wire \<Rightarrow> wire_read \<Rightarrow> api_call list" where
  "update_wire m w existing =
     update_path (wr_wireId existing) ''fromPath'' (dw_fromPath w) (wr_fromPath existing)
     @ update_path (wr_wireId existing) ''toPath'' (dw_toPath w) (wr_toPath existing)
     @ update_path (wr_wireId existing) ''itemTransform'' (dw_itemTransform w) (wr_itemTransform existing)
     @ update_path (wr_wireId existing) ''listTransform'' (dw_listTransform w) (wr_listTransform existing)
     @ relateToExactly (wr_wireId existing) (ROLE RTakenOn) (dw_takenOn w) m"

definition create_wire :: "pipeline_model \<Rightarrow> (string, string) omap \<Rightarrow> string \<Rightarrow> desired_wire \<Rightarrow> api_call list" where
  "create_wire m portNames wire w =
     [CreateThing (text_or_empty (oget portNames (dw_outPortId w)) @ '' to '' @ text_or_empty (oget portNames (dw_inPortId w))) False,
      AddProperty wire ''fromPath'' ''vos.String'' (JStr (dw_fromPath w)),
      AddProperty wire ''toPath'' ''vos.String'' (JStr (dw_toPath w)),
      AddProperty wire ''itemTransform'' ''vos.String'' (JStr (dw_itemTransform w)),
      AddProperty wire ''listTransform'' ''vos.String'' (JStr (dw_listTransform w)),
      CreateRelationship wire (text_or_empty (predicateIdByName m ''is'')) (text_or_empty (boundTo m (ROLE RPipelineWire))),
      CreateRelationship (dw_from w) (text_or_empty (predicateIdByName m ''has'')) wire,
      CreateRelationship wire (text_or_empty (wirePredicateId m)) (dw_to w),
      CreateRelationship wire (text_or_empty (boundTo m (ROLE RInputConnector))) (dw_outPortId w),
      CreateRelationship wire (text_or_empty (boundTo m (ROLE ROutputConnector))) (dw_inPortId w)]
     @ map (\<lambda>t. CreateRelationship wire (text_or_empty (boundTo m (ROLE RTakenOn))) t) (dw_takenOn w)"

text \<open>The loop over the wires wanted, with how many have been created.\<close>

fun wire_writes ::
  "pipeline_model \<Rightarrow> (nat \<Rightarrow> string) \<Rightarrow> (string, string) omap \<Rightarrow> (string, wire_read) omap \<Rightarrow> desired_wire list \<Rightarrow> nat \<Rightarrow> api_call list" where
  "wire_writes m created portNames persisted [] k = []"
| "wire_writes m created portNames persisted (w # ws) k =
     (case oget persisted (desired_key w) of
        Some existing \<Rightarrow> update_wire m w existing @ wire_writes m created portNames persisted ws k
      | None \<Rightarrow> create_wire m portNames (created k) w @ wire_writes m created portNames persisted ws (Suc k))"

subsection \<open>The save\<close>

definition node_relations :: "pipeline_model \<Rightarrow> (string, string) omap \<Rightarrow> editor_node \<Rightarrow> api_call list" where
  "node_relations m nodeThingId n = (if en_kind n \<noteq> None then []
     else concat (map (\<lambda>c. relateToExactly (ch_id c) (ROLE RComparesWith) (ch_comparesWith c) m)
                    (case en_choices n of None \<Rightarrow> [] | Some cs \<Rightarrow> cs))
       @ relateToExactly (text_or_empty (oget nodeThingId (en_id n))) (ROLE RChoice)
           (map snd (case en_chosen n of None \<Rightarrow> [] | Some c \<Rightarrow> c)) m)"

definition retract_node :: "(string \<Rightarrow> string \<Rightarrow> int) \<Rightarrow> pipeline_model \<Rightarrow> string \<Rightarrow> api_call list" where
  "retract_node lc m nid = map (\<lambda>r. RemoveThing (pr_portId r)) (ownPortRelationships lc m nid) @ [RemoveThing nid]"

definition savePipeline ::
  "translate \<Rightarrow> (string \<Rightarrow> string \<Rightarrow> int) \<Rightarrow> (nat \<Rightarrow> string) \<Rightarrow> (nat \<Rightarrow> string) \<Rightarrow> string \<Rightarrow> editor_node list \<Rightarrow> editor_edge list
   \<Rightarrow> pipeline_model \<Rightarrow> string option \<Rightarrow> string + (saved_pipeline \<times> api_call list)" where
  "savePipeline tr lc uuid created name nodes edges m existing =
     (case refusal tr m nodes of Some message \<Rightarrow> Inl message
      | None \<Rightarrow>
       (let ids = save_ids_of m;
            pipelineId = (case existing of Some p \<Rightarrow> p | None \<Rightarrow> uuid 0);
            nodeThingId = snd (foldl (assign_id uuid m) (case existing of Some _ \<Rightarrow> 0 | None \<Rightarrow> 1, []) nodes);
            s0 = push_rel ''is'' pipelineId (si_is ids) (text_or_empty (boundTo m (ROLE RPipeline)))
                   (push_thing pipelineId name [(''published'', env ''vos.Boolean'' (JBool True))]
                     \<lparr>sv_things = [], sv_relationships = [], sv_portsToRetract = [], sv_choicesToRetract = [], sv_standsForToRetract = []\<rparr>);
            s = foldl (save_node lc m ids pipelineId nodeThingId) s0 nodes;
            portNames = of_entries (concat (map (\<lambda>n. map (\<lambda>p. (pt_portId p, pt_portName p)) (en_ports n)) nodes));
            desired = List.map_filter (desired_of m nodeThingId) edges;
            persisted = persistedWires lc m existing
        in Inr (\<lparr>sp_pipelineId = pipelineId, sp_nodeIdMap = nodeThingId\<rparr>,
             [ApplyFragment (json_stringify (fragment_json name s))]
             @ wire_writes m created portNames (of_entries persisted) desired 0
             @ map (\<lambda>(key, w). RemoveThing (wr_wireId w)) (filter (\<lambda>(key, w). key \<notin> desired_key ` set desired) persisted)
             @ concat (map (node_relations m nodeThingId) nodes)
             @ map RemoveThing (sv_portsToRetract s)
             @ map RemoveThing (sv_choicesToRetract s)
             @ map RemoveRelationship (sv_standsForToRetract s)
             @ concat (map (retract_node lc m) (filter (\<lambda>nid. nid \<notin> snd ` set nodeThingId) (persistedNodeIds m existing))))))"

end
