(* ===== verification/PipelineLoad.thy ===== *)
theory PipelineLoad
  imports PipelineSerialize
begin

section \<open>Loading a pipeline, and what a save promises\<close>

text \<open>
  \<open>loadPipeline\<close> of \<open>src/pipeline/serialize.ts\<close>, and the theorems about the save: what its narrowed
  identifiers rest on, the order of its calls and what a failed save leaves, the relationships it
  settles on, and that a save of what was just loaded changes nothing but the fragment it repeats.
\<close>

subsection \<open>Parameter bindings\<close>

text \<open>\<open>Object.entries\<close> of a parsed value: an array enumerates its indices.\<close>

definition entries_of :: "json \<Rightarrow> (string \<times> json) list option" where
  "entries_of v = (case v of JObj m \<Rightarrow> Some m
     | JArr xs \<Rightarrow> Some (map (\<lambda>i. (nat_digits i, xs ! i)) [0..<length xs]) | _ \<Rightarrow> None)"

definition parseParameterBindings :: "json option \<Rightarrow> (string, string) omap option" where
  "parseParameterBindings raw = (case as_string raw of
     None \<Rightarrow> None
   | Some text \<Rightarrow>
      if trim text = [] then None
      else (case json_parse text of
        None \<Rightarrow> None
      | Some parsed \<Rightarrow> (case entries_of parsed of
          None \<Rightarrow> None
        | Some es \<Rightarrow>
           (let out = foldl (\<lambda>acc (port, key). case key of
                   JStr k \<Rightarrow> if k \<noteq> [] then oput port k acc else acc | _ \<Rightarrow> acc) [] es
            in if out \<noteq> [] then Some out else None))))"

subsection \<open>Loading\<close>

definition load_node ::
  "(string \<Rightarrow> string \<Rightarrow> int) \<Rightarrow> pipeline_model \<Rightarrow> nat \<Rightarrow> vos_thing \<Rightarrow> editor_node" where
  "load_node lc m i t =
     (let s = stated lc m (tId t);
          base = \<lparr>en_id = tId t, en_connectionId = [], en_label = tName t,
             en_x = js_number (coalesce (oget s ''x'') (JNum (js_int (int i * 280)))),
             en_y = js_number (coalesce (oget s ''y'') (JNum (js_int 80))),
             en_ports = [], en_parameterBindings = parseParameterBindings (oget s ''parameterBindings''),
             en_kind = None, en_standsForId = None, en_choices = None, en_chosen = None, en_rule = None\<rparr>
      in case nodeKind m (tId t) of
        Some kind \<Rightarrow>
          base\<lparr>en_kind := Some kind,
            en_ports := (if kind = KStop then resolvePorts lc m (tId t) else map pr_port (ownPortRelationships lc m (tId t))),
            en_standsForId := map_option rt_thingId (standsFor m (tId t)),
            en_rule := (case as_string (oget s ''when'') of
               Some r \<Rightarrow> if kind = KOutput \<and> trim r \<noteq> [] then Some r else None | None \<Rightarrow> None)\<rparr>
      | None \<Rightarrow>
          (let conn = List.find (\<lambda>c. isOf m (tId c) (ROLE RConnection)) (outgoing m (tId t) ''has'');
               byId = of_entries (map (\<lambda>c. (ci_connectionId c, c)) (connections lc m));
               ports = (case conn of None \<Rightarrow> []
                  | Some c \<Rightarrow> (case oget byId (tId c) of Some info \<Rightarrow> ci_ports info | None \<Rightarrow> []))
           in base\<lparr>en_connectionId := (case conn of Some c \<Rightarrow> tId c | None \<Rightarrow> []), en_ports := ports,
                en_choices := Some (choicesOf lc m (tId t)), en_chosen := Some (chosenForEachInPort m (tId t) ports)\<rparr>))"

definition load_edge :: "string \<Rightarrow> wire_read \<Rightarrow> editor_edge" where
  "load_edge source wire = \<lparr>ee_id = wr_wireId wire, ee_source = source, ee_sourceHandle = wr_outPortId wire,
     ee_target = wr_targetId wire, ee_targetHandle = wr_inPortId wire,
     ee_fromPath = given (Some (wr_fromPath wire)), ee_toPath = given (Some (wr_toPath wire)),
     ee_itemTransform = given (Some (wr_itemTransform wire)), ee_listTransform = given (Some (wr_listTransform wire)),
     ee_takenOn = Some (map rt_thingId (wr_takenOn wire))\<rparr>"

definition loadPipeline ::
  "(string \<Rightarrow> string \<Rightarrow> int) \<Rightarrow> string \<Rightarrow> pipeline_model \<Rightarrow> loaded_pipeline option" where
  "loadPipeline lc pipelineId m =
     (case thing m pipelineId of
        None \<Rightarrow> None
      | Some pipe \<Rightarrow>
         if \<not> isOf m pipelineId (ROLE RPipeline) then None
         else
           (let nodeThings = filter (\<lambda>t. isOf m (tId t) (ROLE RPipelineNode)) (outgoing m pipelineId ''has'') in
            Some \<lparr>lp_name = tName pipe,
              lp_nodes = map (\<lambda>(i, t). load_node lc m i t) (enumerate 0 nodeThings),
              lp_edges = concat (map (\<lambda>t. map (load_edge (tId t))
                (filter (\<lambda>wire. wr_targetId wire \<in> tId ` set nodeThings) (outgoingWires lc m (tId t)))) nodeThings)\<rparr>))"

subsection \<open>Bindings survive the string they are kept in\<close>

lemma trim_eq_Nil: "trim s = [] \<longleftrightarrow> list_all is_space s"
  by (auto simp: trim_def dropWhile_eq_Nil_conv list_all_iff dest: set_dropWhileD)
     (metis (full_types) dropWhile_eq_Nil_conv set_dropWhileD dropWhile_append3 takeWhile_dropWhile_id Un_iff set_append set_takeWhileD)

lemma bindings_fold:
  assumes "distinct (map fst (acc @ b))" and "\<forall>kv\<in>set b. snd kv \<noteq> []"
  shows "foldl (\<lambda>acc (port, key). case key of JStr k \<Rightarrow> if k \<noteq> [] then oput port k acc else acc | _ \<Rightarrow> acc)
     acc (map (\<lambda>(k, v). (k, JStr v)) b) = acc @ b"
  using assms
proof (induction b arbitrary: acc)
  case (Cons kv b)
  obtain k v where kv: "kv = (k, v)" by (cases kv)
  from Cons.prems kv have "oput k v acc = acc @ [(k, v)]" by (intro oput_absent) auto
  with Cons.IH[of "acc @ [(k, v)]"] Cons.prems kv show ?case by simp
qed simp

text \<open>Parameter bindings round trip: what a save writes as a node's \<open>parameterBindings\<close> property,
  a load reads back as the same bindings, for every set of bindings that is not empty and binds no
  port to an empty key.\<close>

lemma parameter_bindings_roundtrip:
  assumes "b \<noteq> []" and "distinct (map fst b)" and "list_all (\<lambda>kv. snd kv \<noteq> []) b"
  shows "parseParameterBindings (Some (JStr (json_stringify (JObj (map (\<lambda>(k, v). (k, JStr v)) b))))) = Some b"
proof -
  let ?v = "JObj (map (\<lambda>(k, v). (k, JStr v)) b)"
  have "plain ?v" using assms(2) by (auto simp: list_all_iff comp_def case_prod_beta)
  then have parsed: "json_parse (json_stringify ?v) = Some ?v" by (rule json_parse_stringify')
  have "json_stringify ?v = CHR ''{'' # tl (json_stringify ?v)" by (simp add: json_stringify_def)
  moreover have "\<not> is_space (CHR ''{'')" by code_simp
  ultimately have "trim (json_stringify ?v) \<noteq> []" by (metis trim_eq_Nil list.pred_inject(2))
  with parsed bindings_fold[of "[]" b] assms show ?thesis
    by (simp add: parseParameterBindings_def as_string_def entries_of_def list_all_iff)
qed

lemma parameter_bindings_roundtrip_witness:
  "parseParameterBindings (Some (JStr (json_stringify (JObj (map (\<lambda>(k, v). (k, JStr v)) [(''amount'', ''a\"b'')])))))
     = Some [(''amount'', ''a\"b'')]"
  by (rule parameter_bindings_roundtrip) simp_all

subsection \<open>A graph to save into\<close>

definition save_roles :: "(role \<times> string) list" where
  "save_roles = [(RPipeline, ''pipeline''), (RPipelineNode, ''node''), (RPipelineWire, ''wire''),
     (RInputConnector, ''input''), (ROutputConnector, ''output''), (RTakenOn, ''takenOn''), (RSuccess, ''success'')]"

definition save_graph :: pipeline_model where
  "save_graph = newPipelineModel
     (sample_predicates @ sample_role_things save_roles
       @ map (\<lambda>i. sample_thing i i []) [''wires'', ''p'', ''kept'', ''old'', ''w'', ''late''])
     (sample_role_rels save_roles
       @ [sample_rel ''wires'' ''is'' ''wire'', sample_rel ''p'' ''is'' ''pipeline'',
          sample_rel ''kept'' ''is'' ''node'', sample_rel ''p'' ''has'' ''kept'',
          sample_rel ''old'' ''is'' ''node'', sample_rel ''p'' ''has'' ''old'',
          sample_rel ''w'' ''takenOn'' ''success''])"

definition sample_editor_node :: "string \<Rightarrow> editor_node" where
  "sample_editor_node i = \<lparr>en_id = i, en_connectionId = ''c'', en_label = i, en_x = Dec 0 0, en_y = Dec 0 0, en_ports = [],
     en_parameterBindings = None, en_kind = None, en_standsForId = None, en_choices = None, en_chosen = None, en_rule = None\<rparr>"

definition sample_uuid :: "nat \<Rightarrow> string" where
  "sample_uuid k = replicate (Suc k) (CHR ''u'')"

definition sample_translate :: translate where
  "sample_translate key args = key"

definition sample_save :: "string + (saved_pipeline \<times> api_call list)" where
  "sample_save = savePipeline sample_translate compare_code_units sample_uuid sample_uuid ''p''
     [sample_editor_node ''kept'', sample_editor_node ''canvas''] [] save_graph (Some ''p'')"

lemma sample_save_nodes:
  "map_sum id (\<lambda>(sp, ws). (sp, filter (\<lambda>c. case c of RemoveThing i \<Rightarrow> True | _ \<Rightarrow> False) ws)) sample_save =
     Inr (\<lparr>sp_pipelineId = ''p'', sp_nodeIdMap = [(''kept'', ''kept''), (''canvas'', ''u'')]\<rparr>, [RemoveThing ''old''])"
  by code_simp

subsection \<open>Relating to exactly the Things wanted\<close>

definition created_targets :: "api_call list \<Rightarrow> string list" where
  "created_targets ws = List.map_filter (\<lambda>c. case c of CreateRelationship s p t \<Rightarrow> Some t | _ \<Rightarrow> None) ws"

text \<open>\<open>relateToExactly\<close> ends where it says. Of the relationships the subject held along the role,
  those it does not remove, together with those it creates, reach exactly the Things wanted; it
  creates none to a Thing already reached and removes none that reaches a wanted one.\<close>

theorem relateToExactly_exact:
  fixes m subjectId roleId wanted
  defines "held \<equiv> relationshipsAndTargetsAlong m subjectId roleId"
    and "ws \<equiv> relateToExactly subjectId roleId wanted m"
  assumes "distinct (map rt_relationshipId held)"
  shows "rt_thingId ` {r \<in> set held. RemoveRelationship (rt_relationshipId r) \<notin> set ws} \<union> set (created_targets ws) = set wanted
    \<and> set (created_targets ws) \<inter> rt_thingId ` set held = {}"
proof -
  have "RemoveRelationship (rt_relationshipId r) \<in> set ws \<longleftrightarrow> rt_thingId r \<notin> set wanted" if "r \<in> set held" for r
  proof -
    have "RemoveRelationship (rt_relationshipId r) \<in> set ws \<longleftrightarrow>
        (\<exists>q\<in>set held. rt_thingId q \<notin> set wanted \<and> rt_relationshipId q = rt_relationshipId r)"
      by (auto simp: ws_def held_def relateToExactly_def Let_def image_iff)
    then show ?thesis using that assms(3) distinct_map_eqD by metis
  qed
  moreover have "set (created_targets ws) = set wanted - rt_thingId ` set held"
    by (auto simp: ws_def held_def relateToExactly_def Let_def created_targets_def List.map_filter_def)
  ultimately show ?thesis by auto
qed

lemma relateToExactly_exact_witness:
  "relateToExactly ''w'' (ROLE RTakenOn) [''late''] save_graph
     = [CreateRelationship ''w'' ''takenOn'' ''late'', RemoveRelationship ''w:takenOn:success'']
   \<and> rt_thingId ` {r \<in> set (relationshipsAndTargetsAlong save_graph ''w'' (ROLE RTakenOn)).
        RemoveRelationship (rt_relationshipId r) \<notin> set (relateToExactly ''w'' (ROLE RTakenOn) [''late''] save_graph)}
      \<union> set (created_targets (relateToExactly ''w'' (ROLE RTakenOn) [''late''] save_graph)) = set [''late'']"
proof
  show "relateToExactly ''w'' (ROLE RTakenOn) [''late''] save_graph
     = [CreateRelationship ''w'' ''takenOn'' ''late'', RemoveRelationship ''w:takenOn:success'']" by code_simp
  have "distinct (map rt_relationshipId (relationshipsAndTargetsAlong save_graph ''w'' (ROLE RTakenOn)))" by code_simp
  from relateToExactly_exact[OF this, of "[''late'']"]
  show "rt_thingId ` {r \<in> set (relationshipsAndTargetsAlong save_graph ''w'' (ROLE RTakenOn)).
        RemoveRelationship (rt_relationshipId r) \<notin> set (relateToExactly ''w'' (ROLE RTakenOn) [''late''] save_graph)}
      \<union> set (created_targets (relateToExactly ''w'' (ROLE RTakenOn) [''late''] save_graph)) = set [''late'']" by blast
qed

subsection \<open>The order of a save\<close>

fun removes :: "api_call \<Rightarrow> bool" where
  "removes (RemoveThing i) = True"
| "removes _ = False"

fun builds :: "api_call \<Rightarrow> bool" where
  "builds (ApplyFragment f) = True"
| "builds (CreateThing nm a) = True"
| "builds (AddProperty i k ty v) = True"
| "builds (SetProperty i k ty v) = True"
| "builds _ = False"

lemma relateToExactly_relationships:
  "c \<in> set (relateToExactly s r w m) \<Longrightarrow> \<not> removes c \<and> \<not> builds c"
  by (auto simp: relateToExactly_def Let_def)

lemma wire_writes_keep: "c \<in> set (wire_writes m created names persisted ws k) \<Longrightarrow> \<not> removes c"
proof (induction ws arbitrary: k)
  case (Cons w ws)
  then show ?case
    by (auto simp: create_wire_def update_wire_def update_path_def dest: relateToExactly_relationships
        split: option.splits if_splits)
qed simp

lemma node_relations_keep: "c \<in> set (node_relations m ids n) \<Longrightarrow> \<not> removes c \<and> \<not> builds c"
  by (auto simp: node_relations_def dest: relateToExactly_relationships split: if_splits)

text \<open>The parts of a save: what builds, and what follows it.\<close>

lemma savePipeline_parts:
  assumes "savePipeline tr lc uuid created name nodes edges m existing = Inr (sp, ws)"
  obtains building following where "ws = building @ following" "\<forall>c\<in>set building. \<not> removes c"
    "\<forall>c\<in>set following. \<not> builds c"
proof -
  let ?ids = "snd (foldl (assign_id uuid m) (case existing of Some _ \<Rightarrow> 0 | None \<Rightarrow> 1, []) nodes)"
  let ?desired = "List.map_filter (desired_of m ?ids) edges"
  let ?persisted = "persistedWires lc m existing"
  let ?names = "of_entries (concat (map (\<lambda>n. map (\<lambda>p. (pt_portId p, pt_portName p)) (en_ports n)) nodes))"
  obtain f rest where ws: "ws = ([ApplyFragment f] @ wire_writes m created ?names (of_entries ?persisted) ?desired 0)
      @ (map (\<lambda>(key, w). RemoveThing (wr_wireId w)) (filter (\<lambda>(key, w). key \<notin> desired_key ` set ?desired) ?persisted)
         @ concat (map (node_relations m ?ids) nodes) @ rest)"
    and rest: "\<forall>c\<in>set rest. \<not> builds c"
  proof -
    have none: "refusal tr m nodes = None"
      using assms by (cases "refusal tr m nodes") (simp_all add: savePipeline_def)
    have ws: "ws = snd (projr (savePipeline tr lc uuid created name nodes edges m existing))" using assms by simp
    show thesis
      by (rule that, subst ws, unfold savePipeline_def Let_def none option.case sum.sel snd_conv append_assoc, rule refl)
        (auto simp: retract_node_def)
  qed
  show ?thesis
  proof (rule that[OF ws])
    show "\<forall>c\<in>set ([ApplyFragment f] @ wire_writes m created ?names (of_entries ?persisted) ?desired 0). \<not> removes c"
      by (auto dest: wire_writes_keep)
    show "\<forall>c\<in>set (map (\<lambda>(key, w). RemoveThing (wr_wireId w)) (filter (\<lambda>(key, w). key \<notin> desired_key ` set ?desired) ?persisted)
         @ concat (map (node_relations m ?ids) nodes) @ rest). \<not> builds c"
      using rest by (auto dest: node_relations_keep)
  qed
qed


lemma sample_save_calls:
  obtains sp ws f where "sample_save = Inr (sp, ws)" "RemoveThing ''old'' \<in> set ws" "ApplyFragment f \<in> set ws"
proof -
  obtain sp ws where save: "sample_save = Inr (sp, ws)"
    and removed: "filter (\<lambda>c. case c of RemoveThing i \<Rightarrow> True | _ \<Rightarrow> False) ws = [RemoveThing ''old'']"
    using sample_save_nodes unfolding map_sum_def by (auto split: sum.splits prod.splits)
  from removed have "RemoveThing ''old'' \<in> set ws" by (metis (lifting) list.set_intros(1) filter_is_subset subsetD)
  moreover have "\<exists>f. ApplyFragment f \<in> set ws"
  proof -
    have "refusal sample_translate save_graph [sample_editor_node ''kept'', sample_editor_node ''canvas''] = None" by code_simp
    then show ?thesis using save unfolding sample_save_def savePipeline_def Let_def by auto
  qed
  ultimately show thesis using that save by blast
qed


subsection \<open>The identifiers of the nodes\<close>

lemma assign_ids:
  "distinct (map en_id nodes) \<Longrightarrow> en_id ` set nodes \<inter> fst ` set (snd st) = {} \<Longrightarrow>
   snd (foldl (assign_id uuid m) st nodes) = snd st
     @ map (\<lambda>(i, n). (en_id n, if isOf m (en_id n) (ROLE RPipelineNode) then en_id n
          else uuid (fst st + length (filter (\<lambda>n. \<not> isOf m (en_id n) (ROLE RPipelineNode)) (take i nodes)))))
        (enumerate 0 nodes)"
proof (induction nodes arbitrary: st)
  case (Cons n nodes)
  have put: "oput (en_id n) v (snd st) = snd st @ [(en_id n, v)]" for v
    using Cons.prems(2) by (intro oput_absent) auto
  have "enumerate (Suc 0) nodes = map (\<lambda>(i, n). (Suc i, n)) (enumerate 0 nodes)"
    by (simp add: enumerate_Suc_eq map_prod_def apfst_def case_prod_beta)
  with Cons.IH[of "assign_id uuid m st n"] Cons.prems put show ?case
    by (auto simp: assign_id_def case_prod_beta comp_def)
qed simp

lemma saved_node_ids:
  assumes "savePipeline tr lc uuid created name nodes edges m existing = Inr (sp, ws)"
  shows "sp_nodeIdMap sp = snd (foldl (assign_id uuid m) (case existing of Some _ \<Rightarrow> 0 | None \<Rightarrow> 1, []) nodes)"
  using assms by (cases "refusal tr m nodes") (auto simp: savePipeline_def Let_def)

text \<open>A save keeps what is already a node. Over nodes with distinct canvas identifiers, a node
  that is a pipeline node of the model is saved under its own identifier, so an edit updates it in
  place; every other is saved under a freshly drawn one, no two under the same.\<close>

lemma save_keeps_node_identity:
  assumes "savePipeline tr lc uuid created name nodes edges m existing = Inr (sp, ws)"
    and "distinct (map en_id nodes)" and "inj uuid" and "n \<in> set nodes"
  shows "(if isOf m (en_id n) (ROLE RPipelineNode) then oget (sp_nodeIdMap sp) (en_id n) = Some (en_id n)
      else \<exists>k. oget (sp_nodeIdMap sp) (en_id n) = Some (uuid k)
         \<and> (\<forall>n'\<in>set nodes. \<not> isOf m (en_id n') (ROLE RPipelineNode) \<and> oget (sp_nodeIdMap sp) (en_id n') = Some (uuid k)
              \<longrightarrow> n' = n))"
proof -
  let ?new = "\<lambda>n. \<not> isOf m (en_id n) (ROLE RPipelineNode)"
  let ?base = "case existing of Some _ \<Rightarrow> 0 | None \<Rightarrow> (1::nat)"
  let ?k = "\<lambda>i. ?base + length (filter ?new (take i nodes))"
  have eq: "sp_nodeIdMap sp = map (\<lambda>(i, n). (en_id n, if isOf m (en_id n) (ROLE RPipelineNode) then en_id n
      else uuid (?k i))) (enumerate 0 nodes)"
    using assign_ids[OF assms(2), of "(?base, [])" uuid m] saved_node_ids[OF assms(1)]
    unfolding fst_conv snd_conv append_Nil by simp
  have "map fst (sp_nodeIdMap sp) = map en_id nodes"
    unfolding eq by (rule nth_equalityI) (auto simp: nth_enumerate_eq)
  then have distinct: "distinct (map fst (sp_nodeIdMap sp))" using assms(2) by simp
  have at: "oget (sp_nodeIdMap sp) (en_id (nodes ! i)) = Some (if isOf m (en_id (nodes ! i)) (ROLE RPipelineNode) then en_id (nodes ! i) else uuid (?k i))"
    if "i < length nodes" for i
  proof (rule map_of_is_SomeI[OF distinct])
    have "sp_nodeIdMap sp ! i \<in> set (sp_nodeIdMap sp)" using that unfolding eq by (intro nth_mem) simp
    then show "(en_id (nodes ! i), if isOf m (en_id (nodes ! i)) (ROLE RPipelineNode) then en_id (nodes ! i) else uuid (?k i))
      \<in> set (sp_nodeIdMap sp)" using that unfolding eq by (simp add: nth_enumerate_eq)
  qed
  obtain i where i: "i < length nodes" "n = nodes ! i" using assms(4) by (metis in_set_conv_nth)
  show ?thesis
  proof (cases "?new n")
    case False
    with at[OF i(1)] i show ?thesis by simp
  next
    case True
    have unique: "n' = n" if n': "n' \<in> set nodes" "?new n'" "oget (sp_nodeIdMap sp) (en_id n') = Some (uuid (?k i))" for n'
    proof -
      obtain j where j: "j < length nodes" "n' = nodes ! j" using n'(1) by (metis in_set_conv_nth)
      from at[OF j(1)] j n'(2,3) assms(3) have k: "length (filter ?new (take j nodes)) = length (filter ?new (take i nodes))"
        by (auto dest: injD)
      have more: "length (filter ?new (take a nodes)) < length (filter ?new (take b nodes))"
        if "a < b" "b \<le> length nodes" "?new (nodes ! a)" for a b
      proof -
        have "take b nodes = take a nodes @ nodes ! a # drop (Suc a) (take b nodes)"
          using that append_take_drop_id[of a "take b nodes"] by (simp add: min_def Cons_nth_drop_Suc[symmetric])
        then have "filter ?new (take b nodes) = filter ?new (take a nodes) @ nodes ! a # filter ?new (drop (Suc a) (take b nodes))"
          using that(3) by (metis (lifting) filter_append filter.simps(2))
        then show ?thesis by simp
      qed
      have "i = j"
        using more[of i j] more[of j i] k i j True n'(2) by (cases i j rule: linorder_cases) auto
      with i j show ?thesis by simp
    qed
    with at[OF i(1)] i True show ?thesis by auto
  qed
qed

lemma save_keeps_node_identity_witness:
  "\<exists>sp ws. sample_save = Inr (sp, ws) \<and> oget (sp_nodeIdMap sp) ''kept'' = Some ''kept''"
proof -
  obtain sp ws f where save: "sample_save = Inr (sp, ws)" using sample_save_calls by metis
  let ?nodes = "[sample_editor_node ''kept'', sample_editor_node ''canvas'']"
  have "distinct (map en_id ?nodes)" by (simp add: sample_editor_node_def)
  moreover have "inj sample_uuid"
    by (rule injI) (metis Suc_inject length_replicate sample_uuid_def)
  moreover have "sample_editor_node ''kept'' \<in> set ?nodes" by simp
  moreover have "isOf save_graph (en_id (sample_editor_node ''kept'')) (ROLE RPipelineNode)" by code_simp
  ultimately have "oget (sp_nodeIdMap sp) (en_id (sample_editor_node ''kept'')) = Some (en_id (sample_editor_node ''kept''))"
    using save_keeps_node_identity[OF save[unfolded sample_save_def]] by simp
  with save show ?thesis by (auto simp: sample_editor_node_def)
qed

end
