(* ===== verification/Catalysts.thy ===== *)
theory Catalysts
  imports PipelineSerialize
begin

section \<open>What starts a run, what a run leaves, and handing a state over\<close>

text \<open>
  \<open>src/pipeline/catalysts.ts\<close>, the two rails beside the canvas; \<open>src/pipeline/handOver.ts\<close>, the two
  writes that bind a state to the orchestrator; \<open>src/pipeline/stop.ts\<close>, the request that stops a run.
  The two writers are lists of calls in the order they are awaited, as in \<open>PipelineSerialize\<close>.
\<close>

subsection \<open>The rows of the rail\<close>

datatype catalyst_kind = CMessage | CState | CRelationship | CClock

definition KIND_ORDER :: "catalyst_kind list" where
  "KIND_ORDER = [CMessage, CState, CRelationship, CClock]"

record state_handling =
  sh_connectionId :: string
  sh_bindingId :: "string option"
  sh_byOrchestrator :: bool

record catalyst_row =
  cr_id :: string
  cr_kind :: catalyst_kind
  cr_who :: string
  cr_what :: string
  cr_standsForId :: string
  cr_starts :: "pipeline_named option"
  cr_today :: string
  cr_everySeconds :: "jsnum option"
  cr_handling :: "state_handling option"
  cr_offersOrchestrator :: bool

definition kind_index :: "catalyst_kind \<Rightarrow> int" where
  "kind_index k = int (length (takeWhile (\<lambda>j. j \<noteq> k) KIND_ORDER))"

definition row_order :: "(string \<Rightarrow> string \<Rightarrow> int) \<Rightarrow> catalyst_row \<Rightarrow> catalyst_row \<Rightarrow> int" where
  "row_order lc a b =
     (let byKind = kind_index (cr_kind a) - kind_index (cr_kind b); byWho = lc (cr_who a) (cr_who b) in
      if byKind \<noteq> 0 then byKind else if byWho \<noteq> 0 then byWho else lc (cr_what a) (cr_what b))"

definition ordered :: "(string \<Rightarrow> string \<Rightarrow> int) \<Rightarrow> catalyst_row list \<Rightarrow> catalyst_row list" where
  "ordered lc rows = sort_by (row_order lc) rows"

subsection \<open>The rail\<close>

definition startedBy :: "pipeline_model \<Rightarrow> string \<Rightarrow> pipeline_named option" where
  "startedBy m thingId = pipelineWhoseEndStandsFor m thingId True"

text \<open>The first of several optional values that is there: a chain of \<open>??\<close>.\<close>

definition orElse :: "'a option \<Rightarrow> 'a option \<Rightarrow> 'a option" where
  "orElse a b = (case a of Some x \<Rightarrow> Some x | None \<Rightarrow> b)"

definition startedAt :: "pipeline_model \<Rightarrow> catalyst_connection \<Rightarrow> pipeline_named option" where
  "startedAt m door = orElse (startedBy m (cc_connectionId door)) (cc_startsPipeline door)"

definition plain_row :: "string \<Rightarrow> catalyst_kind \<Rightarrow> string \<Rightarrow> string \<Rightarrow> string \<Rightarrow> pipeline_named option \<Rightarrow> string \<Rightarrow> catalyst_row" where
  "plain_row i kind who what standsForId starts today = \<lparr>cr_id = i, cr_kind = kind, cr_who = who, cr_what = what,
     cr_standsForId = standsForId, cr_starts = starts, cr_today = today, cr_everySeconds = None, cr_handling = None,
     cr_offersOrchestrator = False\<rparr>"

text \<open>The door a kind of message arrives at.\<close>

definition doorOf :: "(string, catalyst_connection) omap \<Rightarrow> message_kind \<Rightarrow> catalyst_connection option" where
  "doorOf byId kind = (case given (mk_arrivesAtConnectionId kind) of Some i \<Rightarrow> oget byId i | None \<Rightarrow> None)"

definition message_row ::
  "pipeline_model \<Rightarrow> (string, catalyst_connection) omap \<Rightarrow> external_system \<Rightarrow> message_kind \<Rightarrow> catalyst_row" where
  "message_row m byId system kind =
     (let door = doorOf byId kind in
      plain_row (''message:'' @ es_id system @ '':'' @ mk_id kind) CMessage (es_name system) (mk_name kind) (mk_id kind)
        (orElse (startedBy m (mk_id kind)) (orElse (startedBy m (es_id system)) (Option.bind door (startedAt m))))
        (case door of Some d \<Rightarrow> cc_serviceName d | None \<Rightarrow> []))"

definition message_rows ::
  "pipeline_model \<Rightarrow> (string, catalyst_connection) omap \<Rightarrow> external_system list \<Rightarrow> catalyst_row list" where
  "message_rows m byId systems = concat (map (\<lambda>system. map (message_row m byId system) (es_sends system)) systems)"

definition doors_covered :: "(string, catalyst_connection) omap \<Rightarrow> external_system list \<Rightarrow> string list" where
  "doors_covered byId systems = set_of (map cc_connectionId (List.map_filter (doorOf byId) (concat (map es_sends systems))))"

definition door_row :: "pipeline_model \<Rightarrow> catalyst_connection \<Rightarrow> catalyst_row" where
  "door_row m c = plain_row (''door:'' @ cc_connectionId c) CMessage []
     (if cc_subdomain c \<noteq> [] then cc_subdomain c else cc_name c) (cc_connectionId c) (startedAt m c) (cc_serviceName c)"

definition relationship_row :: "pipeline_model \<Rightarrow> catalyst_connection \<Rightarrow> catalyst_row" where
  "relationship_row m c = plain_row (''relationship:'' @ cc_connectionId c) CRelationship [] (cc_name c) (cc_connectionId c)
     (startedAt m c) (cc_serviceName c)"

definition watching :: "catalyst_connection list \<Rightarrow> string \<Rightarrow> catalyst_connection list" where
  "watching conns rangeId = filter (\<lambda>each. map_option wt_rangeId (cc_watches each) = Some rangeId) conns"

definition handling_of :: "string option \<Rightarrow> catalyst_connection list \<Rightarrow> state_handling option" where
  "handling_of orchestratorId ws = (case ws of
     [w] \<Rightarrow> Some \<lparr>sh_connectionId = cc_connectionId w, sh_bindingId = given (cc_bindingId w),
              sh_byOrchestrator = (orchestratorId \<noteq> None \<and> cc_serviceId w = orchestratorId)\<rparr>
   | _ \<Rightarrow> None)"

definition state_row ::
  "pipeline_model \<Rightarrow> catalyst_connection list \<Rightarrow> string option \<Rightarrow> watched_range \<Rightarrow> catalyst_row" where
  "state_row m conns orchestratorId w =
     (let ws = watching conns (wt_rangeId w); every = wt_everySeconds w; clock = num_lt (Dec 0 0) every;
          handling = handling_of orchestratorId ws in
      \<lparr>cr_id = ''state:'' @ wt_rangeId w, cr_kind = (if clock then CClock else CState), cr_who = wt_kindJudged w,
       cr_what = wt_name w, cr_standsForId = wt_rangeId w,
       cr_starts = orElse (startedBy m (wt_rangeId w))
         (Option.bind (List.find (\<lambda>each. cc_startsPipeline each \<noteq> None) ws) cc_startsPipeline),
       cr_today = (case List.find (\<lambda>each. cc_serviceName each \<noteq> []) ws of Some each \<Rightarrow> cc_serviceName each | None \<Rightarrow> []),
       cr_everySeconds = (if clock then Some every else None), cr_handling = handling,
       cr_offersOrchestrator = (orchestratorId \<noteq> None \<and>
          (case handling of Some h \<Rightarrow> \<not> sh_byOrchestrator h | None \<Rightarrow> False))\<rparr>)"

text \<open>The loop over the connections: the rows outside and inside so far, and the ranges seen.\<close>

fun connection_rows ::
  "pipeline_model \<Rightarrow> catalyst_connection list \<Rightarrow> string option \<Rightarrow> string list \<Rightarrow> catalyst_connection list \<Rightarrow> string list
   \<Rightarrow> catalyst_row list \<times> catalyst_row list" where
  "connection_rows m conns orchestratorId covered [] seen = ([], [])"
| "connection_rows m conns orchestratorId covered (c # cs) seen =
     (if cc_trigger c = ''http'' then
        (if cc_connectionId c \<in> set covered then connection_rows m conns orchestratorId covered cs seen
         else (case connection_rows m conns orchestratorId covered cs seen of (ext, inn) \<Rightarrow> (door_row m c # ext, inn)))
      else if cc_trigger c = ''graph'' then
        (case connection_rows m conns orchestratorId covered cs seen of (ext, inn) \<Rightarrow> (ext, relationship_row m c # inn))
      else (case cc_watches c of
        None \<Rightarrow> connection_rows m conns orchestratorId covered cs seen
      | Some w \<Rightarrow>
         if wt_rangeId w \<in> set seen then connection_rows m conns orchestratorId covered cs seen
         else (case connection_rows m conns orchestratorId covered cs (sadd (wt_rangeId w) seen) of
                 (ext, inn) \<Rightarrow> (ext, state_row m conns orchestratorId w # inn))))"

text \<open>The two groups, external and internal.\<close>

definition catalystRail ::
  "(string \<Rightarrow> string \<Rightarrow> int) \<Rightarrow> pipeline_model \<Rightarrow> catalyst_row list \<times> catalyst_row list" where
  "catalystRail lc m =
     (let conns = catalystConnections m;
          byId = of_entries (map (\<lambda>c. (cc_connectionId c, c)) conns);
          orchestratorId = map_option tId (orchestratorService m);
          systems = externalSystems lc m;
          rows = connection_rows m conns orchestratorId (doors_covered byId systems) conns []
      in (ordered lc (message_rows m byId systems @ fst rows), ordered lc (snd rows)))"

subsection \<open>What a run may leave behind\<close>

datatype output_kind = OAnswer | OPipeline | OExternalSystem | OStop

record output_row =
  or_id :: string
  or_kind :: output_kind
  or_name :: string
  or_told :: "string list option"

definition outputRail ::
  "(string \<Rightarrow> string \<Rightarrow> int) \<Rightarrow> pipeline_model \<Rightarrow> string option \<Rightarrow> output_row list" where
  "outputRail lc m openedPipelineId =
     [\<lparr>or_id = ''answer'', or_kind = OAnswer, or_name = [], or_told = None\<rparr>]
     @ (if some_given (boundTo m (ROLE RPipelineFollowOn)) then
          sort_by (\<lambda>a b. lc (or_name a) (or_name b))
            (map (\<lambda>p. \<lparr>or_id = tId p, or_kind = OPipeline, or_name = tName p, or_told = None\<rparr>)
              (filter (\<lambda>p. Some (tId p) \<noteq> openedPipelineId) (thingsOf m (ROLE RPipeline))))
        else [])
     @ (if some_given (boundTo m (ROLE RPipelineTell)) then
          map (\<lambda>s. \<lparr>or_id = es_id s, or_kind = OExternalSystem, or_name = es_name s, or_told = Some (map mk_name (es_told s))\<rparr>)
            (filter (\<lambda>s. some_given (es_toldThroughConnectionId s)) (externalSystems lc m))
        else [])
     @ (if some_given (boundTo m (ROLE RPipelineStop)) \<and> some_given (boundTo m (ROLE RRequestedBy))
        then [\<lparr>or_id = ''stop'', or_kind = OStop, or_name = [], or_told = None\<rparr>] else [])"

subsection \<open>The two writers\<close>

definition handStateToOrchestrator :: "pipeline_model \<Rightarrow> catalyst_row \<Rightarrow> api_call list" where
  "handStateToOrchestrator m row =
     (case (cr_handling row, orchestratorService m, given (predicateIdByName m ''has'')) of
        (Some h, Some orchestrator, Some hasId) \<Rightarrow>
          if \<not> cr_offersOrchestrator row then []
          else [CreateRelationship (sh_connectionId h) hasId (tId orchestrator)]
            @ (case given (sh_bindingId h) of Some b \<Rightarrow> [RemoveRelationship b] | None \<Rightarrow> [])
      | _ \<Rightarrow> [])"

text \<open>\<open>created\<close> is the identifier the platform gives the request.\<close>

definition stopRun :: "translate \<Rightarrow> string \<Rightarrow> string \<Rightarrow> string \<Rightarrow> pipeline_model \<Rightarrow> string + api_call list" where
  "stopRun tr created runId reason m =
     (case (given (predicateIdByName m ''is''), given (boundTo m (ROLE RStopRequest)), given (boundTo m (ROLE RRunStopping))) of
        (Some isId, Some kind, Some stops) \<Rightarrow> Inr
          [CreateThing (tr ''pipeline.stopRequestName'' []) False,
           CreateRelationship created isId kind,
           SetProperty created ''reason'' ''vos.String'' (JStr reason),
           CreateRelationship created stops runId]
      | _ \<Rightarrow> Inl (tr ''pipeline.noStopRoles'' []))"

subsection \<open>The rail is complete\<close>

text \<open>The ranges some connection, neither a door nor a predicate, watches.\<close>

definition watched_ranges :: "catalyst_connection list \<Rightarrow> string set" where
  "watched_ranges conns = {r. \<exists>c\<in>set conns. cc_trigger c \<notin> {''http'', ''graph''} \<and> map_option wt_rangeId (cc_watches c) = Some r}"

abbreviation is_state_row :: "catalyst_row \<Rightarrow> bool" where
  "is_state_row r \<equiv> cr_kind r = CState \<or> cr_kind r = CClock"

lemma row_kinds [simp]:
  "is_state_row (state_row m conns o' w)" "cr_standsForId (state_row m conns o' w) = wt_rangeId w"
  "cr_kind (relationship_row m c) = CRelationship" "cr_kind (door_row m c) = CMessage"
  "cr_kind (message_row m b s k) = CMessage"
  "cr_id (door_row m c) = ''door:'' @ cc_connectionId c"
  by (simp_all add: state_row_def relationship_row_def door_row_def message_row_def plain_row_def Let_def)

lemma connection_rows_skips:
  assumes "cc_trigger c = ''http'' \<or> cc_trigger c = ''graph'' \<or> cc_watches c = None"
  shows "filter is_state_row (snd (connection_rows m conns o' cov (c # cs) seen))
    = filter is_state_row (snd (connection_rows m conns o' cov cs seen))"
proof -
  obtain ext inn where rest: "connection_rows m conns o' cov cs seen = (ext, inn)" by fastforce
  show ?thesis
  proof (cases "cc_trigger c = ''http''")
    case True
    then show ?thesis unfolding connection_rows.simps(2) rest by simp
  next
    case False
    then show ?thesis using assms unfolding connection_rows.simps(2) rest
      by (cases "cc_trigger c = ''graph''") simp_all
  qed
qed

lemma connection_rows_states:
  "distinct (map cr_standsForId (filter is_state_row (snd (connection_rows m conns o' cov cs seen))))
   \<and> cr_standsForId ` set (filter is_state_row (snd (connection_rows m conns o' cov cs seen))) = watched_ranges cs - set seen"
proof (induction cs arbitrary: seen)
  case Nil
  show ?case by (simp add: watched_ranges_def)
next
  case (Cons c cs)
  show ?case
  proof (cases "cc_trigger c = ''http'' \<or> cc_trigger c = ''graph'' \<or> cc_watches c = None")
    case True
    then have "watched_ranges (c # cs) = watched_ranges cs" by (auto simp: watched_ranges_def)
    moreover have "filter is_state_row (snd (connection_rows m conns o' cov (c # cs) seen))
        = filter is_state_row (snd (connection_rows m conns o' cov cs seen))"
      using True by (rule connection_rows_skips)
    ultimately show ?thesis using Cons.IH[of seen] by (simp only:)
  next
    case False
    then obtain w where w: "cc_watches c = Some w" by auto
    with False have ranges: "watched_ranges (c # cs) = insert (wt_rangeId w) (watched_ranges cs)"
      by (auto simp: watched_ranges_def)
    show ?thesis
    proof (cases "wt_rangeId w \<in> set seen")
      case True
      with False w ranges Cons.IH[of seen] show ?thesis by auto
    next
      case new: False
      let ?rest = "connection_rows m conns o' cov cs (sadd (wt_rangeId w) seen)"
      have step: "snd (connection_rows m conns o' cov (c # cs) seen) = state_row m conns o' w # snd ?rest"
        using False new w by (simp split: prod.splits)
      have IH: "distinct (map cr_standsForId (filter is_state_row (snd ?rest)))"
        "cr_standsForId ` set (filter is_state_row (snd ?rest)) = watched_ranges cs - insert (wt_rangeId w) (set seen)"
        using Cons.IH[of "sadd (wt_rangeId w) seen"] by simp_all
      have "filter is_state_row (state_row m conns o' w # snd ?rest) = state_row m conns o' w # filter is_state_row (snd ?rest)"
        by (simp only: filter.simps row_kinds if_True)
      with IH ranges new show ?thesis unfolding step by (simp only: list.map list.set image_insert row_kinds distinct.simps) auto
    qed
  qed
qed

text \<open>The states of the rail. Among the internal rows there is exactly one for each state that
  some connection (neither a door nor a predicate) watches, however many connections watch it.\<close>

lemma catalystRail_states:
  "distinct (map cr_standsForId (filter is_state_row (snd (catalystRail lc m))))
   \<and> cr_standsForId ` {r \<in> set (snd (catalystRail lc m)). is_state_row r} = watched_ranges (catalystConnections m)"
  using connection_rows_states[of m "catalystConnections m"]
  by (simp add: catalystRail_def Let_def ordered_def distinct_map_filter_sort_by)

subsection \<open>Handing a state over\<close>

lemma connection_rows_offers:
  "r \<in> set (snd (connection_rows m conns o' cov cs seen)) \<Longrightarrow> cr_offersOrchestrator r \<Longrightarrow>
   \<exists>w. r = state_row m conns o' w"
proof (induction m conns o' cov cs seen rule: connection_rows.induct)
  case (2 m conns o' cov c cs seen)
  then show ?case
    by (auto simp: relationship_row_def plain_row_def split: if_splits option.splits prod.splits)
qed simp

lemma plain_not_offered [simp]: "\<not> cr_offersOrchestrator (message_row m b s k)" "\<not> cr_offersOrchestrator (door_row m c)"
  by (simp_all add: message_row_def door_row_def plain_row_def Let_def)

lemma connection_rows_external:
  "r \<in> set (fst (connection_rows m conns o' cov cs seen)) \<Longrightarrow> \<not> cr_offersOrchestrator r"
  by (induction m conns o' cov cs seen rule: connection_rows.induct) (auto split: if_splits option.splits prod.splits)

text \<open>Which rows may be handed over. A row of either rail offers the orchestrator exactly where
  the model holds one orchestrator and the row is a state watched by exactly one connection, which
  calls some other service or none; the handling it carries is that connection's.\<close>

lemma catalystRail_offers:
  assumes "r \<in> set (fst (catalystRail lc m)) \<union> set (snd (catalystRail lc m))" and "cr_offersOrchestrator r"
  shows "\<exists>o' c. orchestratorService m = Some o' \<and> watching (catalystConnections m) (cr_standsForId r) = [c]
     \<and> cc_serviceId c \<noteq> Some (tId o') \<and> cr_handling r = Some \<lparr>sh_connectionId = cc_connectionId c,
          sh_bindingId = given (cc_bindingId c), sh_byOrchestrator = False\<rparr>"
proof -
  let ?conns = "catalystConnections m"
  let ?o = "map_option tId (orchestratorService m)"
  obtain w where r: "r = state_row m ?conns ?o w"
    using assms by (auto simp: catalystRail_def Let_def ordered_def message_rows_def
        dest: connection_rows_offers connection_rows_external)
  from assms(2) obtain o' h where o': "orchestratorService m = Some o'"
    and h: "handling_of ?o (watching ?conns (wt_rangeId w)) = Some h" "\<not> sh_byOrchestrator h"
    by (auto simp: r state_row_def Let_def split: option.splits)
  from h(1) obtain c where c: "watching ?conns (wt_rangeId w) = [c]"
    by (auto simp: handling_of_def split: list.splits)
  with o' h have "h = \<lparr>sh_connectionId = cc_connectionId c, sh_bindingId = given (cc_bindingId c), sh_byOrchestrator = False\<rparr>"
    "cc_serviceId c \<noteq> Some (tId o')"
    by (auto simp: handling_of_def)
  moreover have "cr_handling r = handling_of ?o (watching ?conns (wt_rangeId w))"
    by (simp add: r state_row_def Let_def)
  ultimately show ?thesis using o' c h by (simp add: r)
qed

definition rail_graph :: pipeline_model where
  "rail_graph = (let bs = [(RConnection, ''conn''), (RStateWatch, ''watch''), (RRange, ''range''), (ROrchestrator, ''orch''), (RService, ''svc'')] in
     newPipelineModel (sample_predicates @ sample_role_things bs @ map (\<lambda>i. sample_thing i i []) [''c'', ''r'', ''o'', ''s''])
       (sample_role_rels bs @ [sample_rel ''c'' ''is'' ''conn'', sample_rel ''r'' ''is'' ''range'',
          sample_rel ''o'' ''is'' ''orch'', sample_rel ''c'' ''watch'' ''r'',
          sample_rel ''s'' ''is'' ''svc'', sample_rel ''c'' ''has'' ''s'']))"

lemma catalystRail_offers_witness:
  "\<exists>(r :: catalyst_row) o'. cr_standsForId r = ''r'' \<and> cr_offersOrchestrator r \<and> orchestratorService rail_graph = Some o'
     \<and> watching (catalystConnections rail_graph) ''r'' \<noteq> []"
proof -
  have one: "map (\<lambda>r. (cr_standsForId r, cr_offersOrchestrator r)) (snd (catalystRail compare_code_units rail_graph)) = [(''r'', True)]"
    by code_simp
  then obtain r where r: "r \<in> set (snd (catalystRail compare_code_units rail_graph))" "cr_standsForId r = ''r''" "cr_offersOrchestrator r"
    by (auto simp: map_eq_Cons_conv)
  then have "r \<in> set (fst (catalystRail compare_code_units rail_graph)) \<union> set (snd (catalystRail compare_code_units rail_graph))" by simp
  from catalystRail_offers[OF this r(3)] obtain o' c where "orchestratorService rail_graph = Some o'"
    "watching (catalystConnections rail_graph) (cr_standsForId r) = [c]" by blast
  with r show ?thesis by (intro exI[of _ r] exI[of _ o']) simp
qed




definition offered_row :: catalyst_row where
  "offered_row = hd (snd (catalystRail compare_code_units rail_graph))"


end
