(* ===== verification/EditorState.thy ===== *)
theory EditorState
  imports PipelineReads
begin

section \<open>The editor's own state: undo history, values passed on, choices removed\<close>

text \<open>
  \<open>src/pipeline/history.ts\<close>, \<open>passedOn.ts\<close> and \<open>withoutChoices\<close> of \<open>wireDrawing.ts\<close>: the canvas
  between two saves.
\<close>

subsection \<open>Undo history\<close>

definition MAX_HISTORY :: nat where
  "MAX_HISTORY = 50"

record 'a editor_history =
  eh_past :: "'a list"
  eh_baseline :: "'a option"

definition newEditorHistory :: "'a option \<Rightarrow> 'a editor_history" where
  "newEditorHistory baseline = \<lparr>eh_past = [], eh_baseline = baseline\<rparr>"

text \<open>\<open>push\<close>, and \<open>shift\<close> where the history is over its bound.\<close>

definition recordState :: "'a \<Rightarrow> 'a editor_history \<Rightarrow> 'a editor_history" where
  "recordState previous h = (let past = eh_past h @ [previous] in
     h\<lparr>eh_past := (if length past > MAX_HISTORY then tl past else past)\<rparr>)"

definition canUndo :: "'a editor_history \<Rightarrow> bool" where
  "canUndo h \<longleftrightarrow> length (eh_past h) > 0"

definition undo :: "'a editor_history \<Rightarrow> 'a option \<times> 'a editor_history" where
  "undo h = (if eh_past h = [] then (None, h) else (Some (last (eh_past h)), h\<lparr>eh_past := butlast (eh_past h)\<rparr>))"

definition commit :: "'a \<Rightarrow> 'a editor_history \<Rightarrow> 'a editor_history" where
  "commit state h = h\<lparr>eh_baseline := Some state, eh_past := []\<rparr>"

definition rollbackTarget :: "'a editor_history \<Rightarrow> 'a option" where
  "rollbackTarget h = eh_baseline h"

definition history_size :: "'a editor_history \<Rightarrow> nat" where
  "history_size h = length (eh_past h)"

text \<open>A session: the operations in the order the editor makes them, with the answers its undos got.\<close>

datatype 'a history_op = Record 'a | Undo | Commit 'a

fun history_step :: "'a editor_history \<Rightarrow> 'a history_op \<Rightarrow> 'a option list \<times> 'a editor_history" where
  "history_step h (Record s) = ([], recordState s h)"
| "history_step h Undo = ([fst (undo h)], snd (undo h))"
| "history_step h (Commit s) = ([], commit s h)"

fun history_run :: "'a editor_history \<Rightarrow> 'a history_op list \<Rightarrow> 'a option list \<times> 'a editor_history" where
  "history_run h [] = ([], h)"
| "history_run h (opn # ops) = (let (a, h') = history_step h opn; (b, h'') = history_run h' ops in (a @ b, h''))"

text \<open>What the history promises: an unbounded stack, emptied by a commit, with the last committed
  state beside it.\<close>

fun stack_step :: "'a list \<times> 'a option \<Rightarrow> 'a history_op \<Rightarrow> 'a option list \<times> ('a list \<times> 'a option)" where
  "stack_step (st, base) (Record s) = ([], (s # st, base))"
| "stack_step (st, base) Undo = (case st of [] \<Rightarrow> ([None], ([], base)) | s # st' \<Rightarrow> ([Some s], (st', base)))"
| "stack_step (st, base) (Commit s) = ([], ([], Some s))"

fun stack_run :: "'a list \<times> 'a option \<Rightarrow> 'a history_op list \<Rightarrow> 'a option list \<times> ('a list \<times> 'a option)" where
  "stack_run st [] = ([], st)"
| "stack_run st (opn # ops) = (let (a, st') = stack_step st opn; (b, st'') = stack_run st' ops in (a @ b, st''))"

text \<open>The bounded history keeps the most recent part of the stack.\<close>

definition keeps_recent :: "'a editor_history \<Rightarrow> 'a list \<times> 'a option \<Rightarrow> bool" where
  "keeps_recent h st \<longleftrightarrow> eh_baseline h = snd st
     \<and> (\<exists>dropped. fst st = rev (eh_past h) @ dropped)
     \<and> length (eh_past h) \<le> MAX_HISTORY"

text \<open>An answer of the bounded history is the stack's, or says that nothing is left to undo.\<close>

definition answer_agrees :: "'a option \<Rightarrow> 'a option \<Rightarrow> bool" where
  "answer_agrees a b \<longleftrightarrow> a = None \<or> a = b"

lemma tl_last_suffix: "xs \<noteq> [] \<Longrightarrow> rev (tl xs) @ [hd xs] = rev xs"
  by (cases xs) auto

lemma history_step_keeps:
  assumes "keeps_recent h st"
  shows "keeps_recent (snd (history_step h opn)) (snd (stack_step st opn))
     \<and> list_all2 answer_agrees (fst (history_step h opn)) (fst (stack_step st opn))"
proof -
  obtain s b dropped where st: "st = (s, b)" "s = rev (eh_past h) @ dropped" "eh_baseline h = b"
    "length (eh_past h) \<le> MAX_HISTORY"
    using assms by (cases st) (auto simp: keeps_recent_def)
  show ?thesis
  proof (cases opn)
    case (Record x)
    have "\<exists>d. x # s = rev (tl (eh_past h @ [x])) @ d"
      using tl_last_suffix[of "eh_past h @ [x]"] st(2) by (metis append.assoc append_Cons rev_append
          append_is_Nil_conv list.discI rev.simps(2) rev_rev_ident append_Nil rev.simps(1))
    with Record st show ?thesis by (auto simp: keeps_recent_def recordState_def Let_def)
  next
    case Undo
    show ?thesis
    proof (cases "eh_past h" rule: rev_cases)
      case Nil
      with Undo st show ?thesis
        by (cases s) (auto simp: keeps_recent_def undo_def answer_agrees_def)
    next
      case (snoc xs x)
      with Undo st show ?thesis by (auto simp: keeps_recent_def undo_def answer_agrees_def)
    qed
  next
    case (Commit x)
    with st show ?thesis by (simp add: keeps_recent_def commit_def)
  qed
qed

lemma history_run_keeps:
  "keeps_recent h st \<Longrightarrow> keeps_recent (snd (history_run h ops)) (snd (stack_run st ops))
     \<and> list_all2 answer_agrees (fst (history_run h ops)) (fst (stack_run st ops))"
proof (induction ops arbitrary: h st)
  case (Cons opn ops)
  from history_step_keeps[OF Cons.prems, of opn] Cons.IH[of "snd (history_step h opn)" "snd (stack_step st opn)"]
  show ?case by (auto simp: split_beta intro: list_all2_appendI)
qed simp


text \<open>An edit is undone exactly. Undoing right after a record gives back the recorded state, and
  the history is what it was, less its oldest state where it was full.\<close>

theorem undo_record:
  "undo (recordState s h) =
     (Some s, if length (eh_past h) \<ge> MAX_HISTORY then h\<lparr>eh_past := tl (eh_past h)\<rparr> else h)"
  by (cases "eh_past h") (auto simp: undo_def recordState_def Let_def MAX_HISTORY_def)

subsection \<open>Values passed on\<close>

text \<open>A value passed on is an in port and an out port of one name. \<open>inId\<close> and \<open>outId\<close> are the two
  identifiers \<open>crypto.randomUUID\<close> answers with.\<close>

definition passedOn :: "string \<Rightarrow> string \<Rightarrow> string \<Rightarrow> port_information list" where
  "passedOn inId outId portName =
     [\<lparr>pt_portId = inId, pt_portName = portName, pt_direction = DirIn, pt_type = ''any'', pt_required = True\<rparr>,
      \<lparr>pt_portId = outId, pt_portName = portName, pt_direction = DirOut, pt_type = ''any'', pt_required = False\<rparr>]"

definition ports_named :: "direction \<Rightarrow> string \<Rightarrow> port_information list \<Rightarrow> port_information list" where
  "ports_named d n ports = filter (\<lambda>p. pt_direction p = d \<and> pt_portName p = n) ports"

fun index_of :: "'a \<Rightarrow> 'a list \<Rightarrow> nat option" where
  "index_of x [] = None"
| "index_of x (y # ys) = (if x = y then Some 0 else map_option Suc (index_of x ys))"

definition passedOnThrough :: "port_information list \<Rightarrow> port_information \<Rightarrow> port_information option" where
  "passedOnThrough ports taken =
     (case index_of taken (ports_named DirIn (pt_portName taken) ports) of
        None \<Rightarrow> None
      | Some i \<Rightarrow> (let outs = ports_named DirOut (pt_portName taken) ports in
          if i < length outs then Some (outs ! i) else None))"

definition withPartner :: "port_information list \<Rightarrow> string \<Rightarrow> string list" where
  "withPartner ports inPortId =
     (case List.find (\<lambda>p. pt_portId p = inPortId \<and> pt_direction p = DirIn) ports of
        None \<Rightarrow> []
      | Some taken \<Rightarrow> (case passedOnThrough ports taken of
            None \<Rightarrow> [pt_portId taken]
          | Some partner \<Rightarrow> sadd (pt_portId partner) [pt_portId taken]))"

definition renamePassedOn :: "port_information list \<Rightarrow> string \<Rightarrow> string \<Rightarrow> port_information list" where
  "renamePassedOn ports inPortId portName = (let renamed = withPartner ports inPortId in
     map (\<lambda>p. if pt_portId p \<in> set renamed then p\<lparr>pt_portName := portName\<rparr> else p) ports)"

definition removePassedOn :: "port_information list \<Rightarrow> string \<Rightarrow> port_information list" where
  "removePassedOn ports inPortId = (let removed = withPartner ports inPortId in
     filter (\<lambda>p. pt_portId p \<notin> set removed) ports)"

text \<open>The invariant of a node that passes values on: as many in ports of each name as out ports.\<close>

definition paired :: "port_information list \<Rightarrow> bool" where
  "paired ports \<longleftrightarrow> (\<forall>n. length (ports_named DirIn n ports) = length (ports_named DirOut n ports))"

lemma index_of_bound: "index_of x xs = Some i \<Longrightarrow> i < length xs \<and> xs ! i = x"
  by (induction xs arbitrary: i) (auto split: if_splits)

lemma index_of_member: "x \<in> set xs \<Longrightarrow> \<exists>i. index_of x xs = Some i"
  by (induction xs) auto

lemma withPartner_paired:
  assumes "paired ports" and "List.find (\<lambda>p. pt_portId p = i \<and> pt_direction p = DirIn) ports = Some taken"
  obtains partner where "partner \<in> set ports" "pt_direction partner = DirOut"
    "pt_portName partner = pt_portName taken" "set (withPartner ports i) = {pt_portId taken, pt_portId partner}"
proof -
  from assms(2) have t: "taken \<in> set ports" "pt_direction taken = DirIn" by (auto dest: find_SomeD)
  then have "taken \<in> set (ports_named DirIn (pt_portName taken) ports)" by (simp add: ports_named_def)
  from index_of_member[OF this] obtain k
    where k: "index_of taken (ports_named DirIn (pt_portName taken) ports) = Some k" by blast
  let ?outs = "ports_named DirOut (pt_portName taken) ports"
  from k index_of_bound[OF k] assms(1) have len: "k < length ?outs" by (simp add: paired_def)
  then have "?outs ! k \<in> set ?outs" by (rule nth_mem)
  then have "?outs ! k \<in> set ports" "pt_direction (?outs ! k) = DirOut" "pt_portName (?outs ! k) = pt_portName taken"
    by (auto simp: ports_named_def)
  moreover have "set (withPartner ports i) = {pt_portId taken, pt_portId (?outs ! k)}"
    using assms(2) k len by (auto simp: withPartner_def passedOnThrough_def Let_def)
  ultimately show ?thesis using that by blast
qed

text \<open>Counting ports while one of them, told by its identifier, is rewritten or left out.\<close>

lemma length_filter_rewrite_one:
  assumes "distinct (map f xs)" and "x \<in> set xs"
  shows "length (filter P (map (\<lambda>y. if f y = f x then g y else y) xs)) + (if P x then 1 else 0)
       = length (filter P xs) + (if P (g x) then 1 else 0)"
  using assms
proof (induction xs)
  case (Cons z zs)
  show ?case
  proof (cases "z = x")
    case True
    with Cons.prems have "\<forall>y\<in>set zs. f y \<noteq> f x" by (simp add: image_iff) metis
    then have "map (\<lambda>y. if f y = f x then g y else y) zs = zs" by (auto intro!: map_idI)
    with True show ?thesis by simp
  next
    case False
    with Cons.prems have "f z \<noteq> f x" by auto
    with False Cons show ?thesis by auto
  qed
qed simp

lemma length_filter_remove_one:
  assumes "distinct (map f xs)" and "x \<in> set xs"
  shows "length (filter P (filter (\<lambda>y. f y \<noteq> f x) xs)) + (if P x then 1 else 0) = length (filter P xs)"
  using assms
proof (induction xs)
  case (Cons z zs)
  show ?case
  proof (cases "z = x")
    case True
    with Cons.prems have "\<forall>y\<in>set zs. f y \<noteq> f x" by (simp add: image_iff) metis
    then have "filter (\<lambda>y. f y \<noteq> f x) zs = zs" by (auto intro!: filter_True)
    with True show ?thesis by simp
  next
    case False
    with Cons.prems have "f z \<noteq> f x" by auto
    with False Cons show ?thesis by auto
  qed
qed simp

lemma length_ports_removed:
  assumes "distinct (map pt_portId ports)" and "x \<in> set ports"
  shows "length (ports_named d n (filter (\<lambda>y. pt_portId y \<noteq> pt_portId x) ports))
      + (if pt_direction x = d \<and> pt_portName x = n then 1 else 0) = length (ports_named d n ports)"
  unfolding ports_named_def using assms by (rule length_filter_remove_one)

lemma length_ports_renamed:
  assumes "distinct (map pt_portId ports)" and "x \<in> set ports"
  shows "length (ports_named d n (map (\<lambda>y. if pt_portId y = pt_portId x then y\<lparr>pt_portName := name\<rparr> else y) ports))
      + (if pt_direction x = d \<and> pt_portName x = n then 1 else 0)
      = length (ports_named d n ports) + (if pt_direction x = d \<and> name = n then 1 else 0)"
  using length_filter_rewrite_one[OF assms, of "\<lambda>p. pt_direction p = d \<and> pt_portName p = n" "\<lambda>y. y\<lparr>pt_portName := name\<rparr>"]
  unfolding ports_named_def by simp

text \<open>Removing a value passed on takes its in port and the out port it is paired with, and
  leaves every other value paired.\<close>

theorem removePassedOn_paired:
  assumes "distinct (map pt_portId ports)" and "paired ports"
  shows "paired (removePassedOn ports i)"
proof (cases "List.find (\<lambda>p. pt_portId p = i \<and> pt_direction p = DirIn) ports")
  case None
  with assms(2) show ?thesis by (simp add: removePassedOn_def withPartner_def)
next
  case (Some taken)
  then have t: "taken \<in> set ports" "pt_direction taken = DirIn" by (auto dest: find_SomeD)
  obtain partner where p: "partner \<in> set ports" "pt_direction partner = DirOut"
    "pt_portName partner = pt_portName taken" "set (withPartner ports i) = {pt_portId taken, pt_portId partner}"
    using withPartner_paired[OF assms(2) Some] .
  let ?less = "filter (\<lambda>y. pt_portId y \<noteq> pt_portId taken) ports"
  have "pt_portId partner \<noteq> pt_portId taken"
    using distinct_map_eqD[OF assms(1) p(1) t(1)] p(2) t(2) by auto
  with p(1) have "partner \<in> set ?less" by simp
  then have second: "length (ports_named d n (filter (\<lambda>y. pt_portId y \<noteq> pt_portId partner) ?less))
      + (if pt_direction partner = d \<and> pt_portName partner = n then 1 else 0) = length (ports_named d n ?less)" for d n
    using assms(1) by (intro length_ports_removed distinct_map_filterI)
  have removed: "removePassedOn ports i = filter (\<lambda>y. pt_portId y \<noteq> pt_portId partner) ?less"
    unfolding removePassedOn_def p(4) Let_def by (simp add: conj_commute)
  have "length (ports_named d n (removePassedOn ports i))
      + (if pt_direction partner = d \<and> pt_portName taken = n then 1 else 0)
      + (if pt_direction taken = d \<and> pt_portName taken = n then 1 else 0)
      = length (ports_named d n ports)" for d n
    using second[of d n] length_ports_removed[OF assms(1) t(1), of d n]
    unfolding removed p(3) by linarith
  note count = this
  have "length (ports_named DirIn n (removePassedOn ports i)) = length (ports_named DirOut n (removePassedOn ports i))" for n
    using count[of DirIn n] count[of DirOut n] t(2) p(2) assms(2)[unfolded paired_def, rule_format, of n] by simp
  then show ?thesis by (simp add: paired_def)
qed

text \<open>Renaming a value passed on renames both its ports, so that every name still has as many in
  ports as out ports, also while two values share a name.\<close>

theorem renamePassedOn_paired:
  assumes "distinct (map pt_portId ports)" and "paired ports"
  shows "paired (renamePassedOn ports i name)"
proof (cases "List.find (\<lambda>p. pt_portId p = i \<and> pt_direction p = DirIn) ports")
  case None
  with assms(2) show ?thesis by (simp add: renamePassedOn_def withPartner_def)
next
  case (Some taken)
  then have t: "taken \<in> set ports" "pt_direction taken = DirIn" by (auto dest: find_SomeD)
  obtain partner where p: "partner \<in> set ports" "pt_direction partner = DirOut"
    "pt_portName partner = pt_portName taken" "set (withPartner ports i) = {pt_portId taken, pt_portId partner}"
    using withPartner_paired[OF assms(2) Some] .
  let ?to = "\<lambda>q::port_information. q\<lparr>pt_portName := name\<rparr>"
  let ?once = "map (\<lambda>y. if pt_portId y = pt_portId taken then ?to y else y) ports"
  have "pt_portId partner \<noteq> pt_portId taken"
    using distinct_map_eqD[OF assms(1) p(1) t(1)] p(2) t(2) by auto
  then have mem: "partner \<in> set ?once" using p(1) by force
  have ids: "map pt_portId ?once = map pt_portId ports" by (simp add: comp_def if_distrib)
  have second: "length (ports_named d n (map (\<lambda>y. if pt_portId y = pt_portId partner then ?to y else y) ?once))
      + (if pt_direction partner = d \<and> pt_portName partner = n then 1 else 0)
      = length (ports_named d n ?once) + (if pt_direction partner = d \<and> name = n then 1 else 0)" for d n
    by (intro length_ports_renamed) (simp_all only: ids assms(1) mem)
  have renamed: "renamePassedOn ports i name = map (\<lambda>y. if pt_portId y = pt_portId partner then ?to y else y) ?once"
    unfolding renamePassedOn_def p(4) Let_def by simp
  have "length (ports_named d n (renamePassedOn ports i name))
      + (if pt_direction partner = d \<and> pt_portName taken = n then 1 else 0)
      + (if pt_direction taken = d \<and> pt_portName taken = n then 1 else 0)
      = length (ports_named d n ports)
      + (if pt_direction partner = d \<and> name = n then 1 else 0)
      + (if pt_direction taken = d \<and> name = n then 1 else 0)" for d n
    using second[of d n] length_ports_renamed[OF assms(1) t(1), of d n name]
    unfolding renamed p(3) by linarith
  note count = this
  have "length (ports_named DirIn n (renamePassedOn ports i name)) = length (ports_named DirOut n (renamePassedOn ports i name))" for n
    using count[of DirIn n] count[of DirOut n] t(2) p(2) assms(2)[unfolded paired_def, rule_format, of n] by simp
  then show ?thesis by (simp add: paired_def)
qed

subsection \<open>Choices removed\<close>

record wire_data =
  wd_fromPath :: "string option"
  wd_toPath :: "string option"
  wd_itemTransform :: "string option"
  wd_listTransform :: "string option"
  wd_takenOn :: "string list option"

record canvas_edge =
  ce_source :: string
  ce_data :: "wire_data option"

definition taken_on :: "canvas_edge \<Rightarrow> string list" where
  "taken_on e = (case ce_data e of None \<Rightarrow> [] | Some d \<Rightarrow> (case wd_takenOn d of None \<Rightarrow> [] | Some t \<Rightarrow> t))"

definition without_choices_edge :: "string \<Rightarrow> string list \<Rightarrow> canvas_edge \<Rightarrow> canvas_edge" where
  "without_choices_edge nodeId removed edge =
     (case map_option wd_takenOn (ce_data edge) of
        Some (Some takenOn) \<Rightarrow>
          if ce_source edge \<noteq> nodeId \<or> \<not> list_ex (\<lambda>i. i \<in> set removed) takenOn then edge
          else edge\<lparr>ce_data := map_option (\<lambda>d. d\<lparr>wd_takenOn := Some (filter (\<lambda>i. i \<notin> set removed) takenOn)\<rparr>) (ce_data edge)\<rparr>
      | _ \<Rightarrow> edge)"

definition withoutChoices :: "canvas_edge list \<Rightarrow> string \<Rightarrow> string list \<Rightarrow> canvas_edge list" where
  "withoutChoices edges nodeId removed = map (without_choices_edge nodeId removed) edges"

lemma without_choices_taken_on:
  "taken_on (without_choices_edge nodeId removed e) =
     (if ce_source e = nodeId then filter (\<lambda>i. i \<notin> set removed) (taken_on e) else taken_on e)
   \<and> ce_source (without_choices_edge nodeId removed e) = ce_source e"
  by (auto simp: without_choices_edge_def taken_on_def list_ex_iff filter_id_conv split: option.splits)

text \<open>A choice that is gone marks no wire of its node: \<open>withoutChoices\<close> drops exactly the removed
  choices from the wires leaving the node and keeps every other marking and every other wire.\<close>

theorem withoutChoices_taken_on:
  "map taken_on (withoutChoices edges nodeId removed) =
     map (\<lambda>e. if ce_source e = nodeId then filter (\<lambda>i. i \<notin> set removed) (taken_on e) else taken_on e) edges
   \<and> map ce_source (withoutChoices edges nodeId removed) = map ce_source edges"
  by (simp add: withoutChoices_def without_choices_taken_on comp_def)

subsection \<open>Witnesses\<close>

lemma passedOn_paired: "paired (passedOn a b n)"
  by (simp add: paired_def passedOn_def ports_named_def)

lemma removePassedOn_paired_witness:
  "paired (removePassedOn (passedOn ''i'' ''o'' ''value'') ''i'')"
  using removePassedOn_paired[of "passedOn ''i'' ''o'' ''value''" "''i''"] passedOn_paired
  by (simp add: passedOn_def)

lemma renamePassedOn_paired_witness:
  "paired (renamePassedOn (passedOn ''i'' ''o'' ''value'') ''i'' ''amount'')"
  using renamePassedOn_paired[of "passedOn ''i'' ''o'' ''value''" "''i''" "''amount''"] passedOn_paired
  by (simp add: passedOn_def)

end
