(* ===== verification/ModelStore.thy ===== *)
theory ModelStore
  imports VosTypes
begin

section \<open>The model store\<close>

text \<open>
  \<open>src/stores/modelStore.ts\<close>: what every page draws. Beside the store's arrays the module keeps an
  index by identifier per array (\<open>KeptById\<close>), written in place and trusted while the array it was
  last built from is, by reference, the array the store holds. References matter here, so arrays are
  modelled in an explicit store: an array is its position in a list of arrays, a new array is
  appended, and an array is never written in place. What the pages read is \<open>view\<close>.
\<close>

subsection \<open>A batch\<close>

record model_batch =
  mb_thingUpserts :: "vos_thing list"
  mb_thingRemovals :: "string list"
  mb_relationshipUpserts :: "vos_relationship list"
  mb_relationshipRemovals :: "string list"
  mb_thingPropertyUpdates :: "(string \<times> string \<times> json) list"
  mb_relationshipPropertyUpdates :: "(string \<times> string \<times> json) list"
  mb_thingPropertyRemovals :: "(string \<times> string) list"
  mb_relationshipPropertyRemovals :: "(string \<times> string) list"
  mb_thingStateUpdates :: "(string \<times> string list) list"

definition empty_batch :: model_batch where
  "empty_batch = \<lparr>mb_thingUpserts = [], mb_thingRemovals = [], mb_relationshipUpserts = [],
     mb_relationshipRemovals = [], mb_thingPropertyUpdates = [], mb_relationshipPropertyUpdates = [],
     mb_thingPropertyRemovals = [], mb_relationshipPropertyRemovals = [], mb_thingStateUpdates = []\<rparr>"

subsection \<open>The index kept by identifier\<close>

record 'a kept_by_id =
  kb_index :: "(string, 'a) omap"
  kb_builtFrom :: "nat option"

definition newKeptById :: "'a kept_by_id" where
  "newKeptById = \<lparr>kb_index = [], kb_builtFrom = None\<rparr>"

text \<open>The map a list of objects makes, by identifier.\<close>

definition by_id :: "('a \<Rightarrow> string) \<Rightarrow> 'a list \<Rightarrow> (string, 'a) omap" where
  "by_id ident xs = of_entries (map (\<lambda>x. (ident x, x)) xs)"

definition forThe :: "('a \<Rightarrow> string) \<Rightarrow> 'a list list \<Rightarrow> nat \<Rightarrow> 'a kept_by_id \<Rightarrow> 'a kept_by_id" where
  "forThe ident arrays entries k =
     (if kb_builtFrom k = Some entries then k
      else \<lparr>kb_index = by_id ident (arrays ! entries), kb_builtFrom = Some entries\<rparr>)"

text \<open>The new array is the next position of the store of arrays.\<close>

definition asArray :: "'a list list \<Rightarrow> 'a kept_by_id \<Rightarrow> 'a list list \<times> nat \<times> 'a kept_by_id" where
  "asArray arrays k = (arrays @ [map snd (kb_index k)], length arrays, k\<lparr>kb_builtFrom := Some (length arrays)\<rparr>)"

definition forget :: "'a kept_by_id \<Rightarrow> 'a kept_by_id" where
  "forget k = \<lparr>kb_index = [], kb_builtFrom = None\<rparr>"

subsection \<open>The state\<close>

record model_store =
  ms_thingArrays :: "vos_thing list list"
  ms_relationshipArrays :: "vos_relationship list list"
  ms_things :: nat
  ms_relationships :: nat
  ms_thingStates :: "(string, string list) omap"
  ms_thingStatesVersion :: nat
  ms_loadsApplied :: nat
  ms_loaded :: bool
  ms_holdsWholeModel :: bool
  ms_thingsById :: "vos_thing kept_by_id"
  ms_relationshipsById :: "vos_relationship kept_by_id"

definition newModelStore :: model_store where
  "newModelStore = \<lparr>ms_thingArrays = [[]], ms_relationshipArrays = [[]], ms_things = 0, ms_relationships = 0,
     ms_thingStates = [], ms_thingStatesVersion = 0, ms_loadsApplied = 0, ms_loaded = False,
     ms_holdsWholeModel = False, ms_thingsById = newKeptById, ms_relationshipsById = newKeptById\<rparr>"

definition things_of_store :: "model_store \<Rightarrow> vos_thing list" where
  "things_of_store s = ms_thingArrays s ! ms_things s"

definition relationships_of_store :: "model_store \<Rightarrow> vos_relationship list" where
  "relationships_of_store s = ms_relationshipArrays s ! ms_relationships s"

subsection \<open>Applying a batch to a map\<close>

text \<open>\<open>const current = map.get(id); if (current) map.set(id, f(current))\<close>.\<close>

definition revise_at :: "string \<Rightarrow> ('a \<Rightarrow> 'a) \<Rightarrow> (string, 'a) omap \<Rightarrow> (string, 'a) omap" where
  "revise_at k f m = (case oget m k of Some v \<Rightarrow> oput k (f v) m | None \<Rightarrow> m)"

definition thing_writes :: "model_batch \<Rightarrow> (string, vos_thing) omap \<Rightarrow> (string, vos_thing) omap" where
  "thing_writes b m =
     (let m1 = foldl (\<lambda>a i. odel i a) m (mb_thingRemovals b);
          m2 = foldl (\<lambda>a t. oput (tId t) t a) m1 (mb_thingUpserts b);
          m3 = foldl (\<lambda>a (i, p, v). revise_at i (\<lambda>t. applyThingPropertyUpdate t p v) a) m2 (mb_thingPropertyUpdates b)
      in foldl (\<lambda>a (i, p). revise_at i (\<lambda>t. applyThingPropertyRemoval t p) a) m3 (mb_thingPropertyRemovals b))"

definition relationship_writes :: "model_batch \<Rightarrow> (string, vos_relationship) omap \<Rightarrow> (string, vos_relationship) omap" where
  "relationship_writes b m =
     (let m1 = foldl (\<lambda>a i. odel i a) m (mb_relationshipRemovals b);
          m2 = foldl (\<lambda>a r. oput (rId r) r a) m1 (mb_relationshipUpserts b);
          m3 = foldl (\<lambda>a (i, n, v). revise_at i (\<lambda>r. applyRelationshipPropertyUpdate r n v) a) m2 (mb_relationshipPropertyUpdates b)
      in foldl (\<lambda>a (i, n). revise_at i (\<lambda>r. applyRelationshipPropertyRemoval r n) a) m3 (mb_relationshipPropertyRemovals b))"

definition touch_things :: "model_batch \<Rightarrow> bool" where
  "touch_things b \<longleftrightarrow> mb_thingUpserts b \<noteq> [] \<or> mb_thingRemovals b \<noteq> []
     \<or> mb_thingPropertyUpdates b \<noteq> [] \<or> mb_thingPropertyRemovals b \<noteq> []"

definition touch_relationships :: "model_batch \<Rightarrow> bool" where
  "touch_relationships b \<longleftrightarrow> mb_relationshipUpserts b \<noteq> [] \<or> mb_relationshipRemovals b \<noteq> []
     \<or> mb_relationshipPropertyUpdates b \<noteq> [] \<or> mb_relationshipPropertyRemovals b \<noteq> []"

text \<open>The states left after the removals of a batch, and whether any removal took one away.\<close>

definition remove_states :: "string list \<Rightarrow> (string, string list) omap \<Rightarrow> (string, string list) omap \<times> bool" where
  "remove_states removed states = foldl (\<lambda>(st, moved) i. (odel i st, moved \<or> ohas st i)) (states, False) removed"

definition write_states ::
  "(string, vos_thing) omap \<Rightarrow> (string \<times> string list) list \<Rightarrow> (string, string list) omap \<Rightarrow> (string, string list) omap" where
  "write_states held updates states = foldl (\<lambda>st (i, sts). if ohas held i then oput i sts st else st) states updates"

subsection \<open>The actions\<close>

definition setThings :: "nat \<Rightarrow> model_store \<Rightarrow> model_store" where
  "setThings things s = s\<lparr>ms_thingsById := forget (ms_thingsById s), ms_things := things, ms_thingStates := [],
     ms_thingStatesVersion := ms_thingStatesVersion s + 1, ms_loadsApplied := ms_loadsApplied s + 1\<rparr>"

definition setRelationships :: "nat \<Rightarrow> model_store \<Rightarrow> model_store" where
  "setRelationships relationships s =
     s\<lparr>ms_relationshipsById := forget (ms_relationshipsById s), ms_relationships := relationships\<rparr>"

definition seedThingStates :: "(string, string list) omap \<Rightarrow> model_store \<Rightarrow> model_store" where
  "seedThingStates states s = s\<lparr>ms_thingStates := states, ms_thingStatesVersion := ms_thingStatesVersion s + 1\<rparr>"

definition batch_things :: "model_batch \<Rightarrow> model_store \<Rightarrow> model_store" where
  "batch_things b s = (if \<not> touch_things b then s
     else (let k = forThe tId (ms_thingArrays s) (ms_things s) (ms_thingsById s) in
       case asArray (ms_thingArrays s) (k\<lparr>kb_index := thing_writes b (kb_index k)\<rparr>) of
         (arrays, r, k') \<Rightarrow> s\<lparr>ms_thingArrays := arrays, ms_things := r, ms_thingsById := k'\<rparr>))"

definition batch_relationships :: "model_batch \<Rightarrow> model_store \<Rightarrow> model_store" where
  "batch_relationships b s = (if \<not> touch_relationships b then s
     else (let k = forThe rId (ms_relationshipArrays s) (ms_relationships s) (ms_relationshipsById s) in
       case asArray (ms_relationshipArrays s) (k\<lparr>kb_index := relationship_writes b (kb_index k)\<rparr>) of
         (arrays, r, k') \<Rightarrow> s\<lparr>ms_relationshipArrays := arrays, ms_relationships := r, ms_relationshipsById := k'\<rparr>))"

definition applyBatch :: "model_batch \<Rightarrow> model_store \<Rightarrow> model_store" where
  "applyBatch b s =
     (let (states1, removed) = (if touch_things b then remove_states (mb_thingRemovals b) (ms_thingStates s) else (ms_thingStates s, False));
          s2 = batch_relationships b (batch_things b s);
          given_states = mb_thingStateUpdates b \<noteq> [];
          s3 = (if given_states then s2\<lparr>ms_thingsById := forThe tId (ms_thingArrays s2) (ms_things s2) (ms_thingsById s2)\<rparr> else s2);
          states3 = (if given_states then write_states (kb_index (ms_thingsById s3)) (mb_thingStateUpdates b) states1 else states1)
      in s3\<lparr>ms_thingStates := states3,
           ms_thingStatesVersion := (if removed \<or> given_states then ms_thingStatesVersion s + 1 else ms_thingStatesVersion s)\<rparr>)"

definition markLoaded :: "bool \<Rightarrow> model_store \<Rightarrow> model_store" where
  "markLoaded wholeModel s = s\<lparr>ms_loaded := True, ms_holdsWholeModel := wholeModel\<rparr>"

definition clearModel :: "model_store \<Rightarrow> model_store" where
  "clearModel s = s\<lparr>ms_thingsById := forget (ms_thingsById s), ms_relationshipsById := forget (ms_relationshipsById s),
     ms_thingArrays := ms_thingArrays s @ [[]], ms_relationshipArrays := ms_relationshipArrays s @ [[]],
     ms_things := length (ms_thingArrays s), ms_relationships := length (ms_relationshipArrays s),
     ms_loaded := False, ms_holdsWholeModel := False, ms_thingStates := [],
     ms_thingStatesVersion := ms_thingStatesVersion s + 1\<rparr>"

text \<open>Every way the store is written: its actions, a caller making an array to give it, and a write
  of the store that does not go through its actions.\<close>

datatype store_action =
    NewThings "vos_thing list" | NewRelationships "vos_relationship list"
  | SetThings nat | SetRelationships nat | SeedThingStates "(string, string list) omap"
  | ApplyBatch model_batch | MarkLoaded bool | Clear
  | WriteThings nat | WriteRelationships nat

fun store_step :: "store_action \<Rightarrow> model_store \<Rightarrow> model_store" where
  "store_step (NewThings xs) s = s\<lparr>ms_thingArrays := ms_thingArrays s @ [xs]\<rparr>"
| "store_step (NewRelationships xs) s = s\<lparr>ms_relationshipArrays := ms_relationshipArrays s @ [xs]\<rparr>"
| "store_step (SetThings r) s = setThings r s"
| "store_step (SetRelationships r) s = setRelationships r s"
| "store_step (SeedThingStates st) s = seedThingStates st s"
| "store_step (ApplyBatch b) s = applyBatch b s"
| "store_step (MarkLoaded w) s = markLoaded w s"
| "store_step Clear s = clearModel s"
| "store_step (WriteThings r) s = s\<lparr>ms_things := r\<rparr>"
| "store_step (WriteRelationships r) s = s\<lparr>ms_relationships := r\<rparr>"

text \<open>An action may only name an array there is.\<close>

fun names_arrays :: "model_store \<Rightarrow> store_action \<Rightarrow> bool" where
  "names_arrays s (SetThings r) \<longleftrightarrow> r < length (ms_thingArrays s)"
| "names_arrays s (WriteThings r) \<longleftrightarrow> r < length (ms_thingArrays s)"
| "names_arrays s (SetRelationships r) \<longleftrightarrow> r < length (ms_relationshipArrays s)"
| "names_arrays s (WriteRelationships r) \<longleftrightarrow> r < length (ms_relationshipArrays s)"
| "names_arrays s _ \<longleftrightarrow> True"

inductive store_reachable :: "model_store \<Rightarrow> bool" where
  initial: "store_reachable newModelStore"
| action: "store_reachable s \<Longrightarrow> names_arrays s a \<Longrightarrow> store_reachable (store_step a s)"

subsection \<open>The kept index agrees with the arrays\<close>

definition keyed :: "('a \<Rightarrow> string) \<Rightarrow> (string, 'a) omap \<Rightarrow> bool" where
  "keyed ident m \<longleftrightarrow> okeys_distinct m \<and> (\<forall>kv\<in>set m. ident (snd kv) = fst kv)"

definition kept_ok :: "('a \<Rightarrow> string) \<Rightarrow> 'a list list \<Rightarrow> 'a kept_by_id \<Rightarrow> bool" where
  "kept_ok ident arrays k \<longleftrightarrow> (case kb_builtFrom k of None \<Rightarrow> True
     | Some r \<Rightarrow> r < length arrays \<and> kb_index k = by_id ident (arrays ! r))"

lemma keyed_Nil [simp]: "keyed ident []"
  by (simp add: keyed_def)

lemma keyed_oput [intro]: "keyed ident m \<Longrightarrow> ident v = k \<Longrightarrow> keyed ident (oput k v m)"
  unfolding keyed_def using set_oput by fastforce

lemma keyed_odel [intro]: "keyed ident m \<Longrightarrow> keyed ident (odel k m)"
  by (auto simp: keyed_def odel_def okeys_distinct_def intro: distinct_map_filterI)

lemma keyed_oget: "keyed ident m \<Longrightarrow> oget m k = Some v \<Longrightarrow> ident v = k"
  by (force simp: keyed_def dest: map_of_SomeD)

lemma keyed_revise_at: "keyed ident m \<Longrightarrow> (\<And>x. ident (f x) = ident x) \<Longrightarrow> keyed ident (revise_at k f m)"
  by (auto simp: revise_at_def dest: keyed_oget split: option.splits)

lemma keyed_fold: "(\<And>x m. keyed ident m \<Longrightarrow> keyed ident (f m x)) \<Longrightarrow> keyed ident m \<Longrightarrow> keyed ident (foldl f m xs)"
  by (induction xs arbitrary: m) auto

lemma keyed_by_id [simp]: "keyed ident (by_id ident xs)"
proof -
  have "keyed ident (foldl (\<lambda>acc x. oput (ident x) x acc) [] xs)" by (rule keyed_fold) auto
  then show ?thesis by (simp add: by_id_def of_entries_def oassign_def foldl_map)
qed

lemma by_id_snd: "keyed ident m \<Longrightarrow> by_id ident (map snd m) = m"
proof -
  assume m: "keyed ident m"
  then have "map (\<lambda>x. (ident x, x)) (map snd m) = m" by (auto simp: keyed_def intro!: map_idI)
  with m show ?thesis by (simp add: by_id_def keyed_def okeys_distinct_def of_entries_distinct)
qed

lemma keyed_thing_writes: "keyed tId m \<Longrightarrow> keyed tId (thing_writes b m)"
  unfolding thing_writes_def Let_def
  by (intro keyed_fold keyed_revise_at; (simp add: case_prod_beta)?) (auto intro!: keyed_revise_at keyed_fold simp: case_prod_beta)

lemma keyed_relationship_writes: "keyed rId m \<Longrightarrow> keyed rId (relationship_writes b m)"
  unfolding relationship_writes_def Let_def
  by (intro keyed_fold keyed_revise_at; (simp add: case_prod_beta)?) (auto intro!: keyed_revise_at keyed_fold simp: case_prod_beta)

lemma forThe_index: "kept_ok ident arrays k \<Longrightarrow> kb_index (forThe ident arrays r k) = by_id ident (arrays ! r)"
  by (auto simp: forThe_def kept_ok_def)

lemma kept_ok_forThe: "kept_ok ident arrays k \<Longrightarrow> r < length arrays \<Longrightarrow> kept_ok ident arrays (forThe ident arrays r k)"
  by (auto simp: forThe_def kept_ok_def)

lemma kept_ok_append: "kept_ok ident arrays k \<Longrightarrow> kept_ok ident (arrays @ xs) k"
  by (auto simp: kept_ok_def nth_append split: option.splits)

lemma kept_ok_new [simp]: "kept_ok ident arrays (forget k)" "kept_ok ident arrays newKeptById"
  by (simp_all add: kept_ok_def forget_def newKeptById_def)

definition store_ok :: "model_store \<Rightarrow> bool" where
  "store_ok s \<longleftrightarrow> kept_ok tId (ms_thingArrays s) (ms_thingsById s)
     \<and> kept_ok rId (ms_relationshipArrays s) (ms_relationshipsById s)
     \<and> ms_things s < length (ms_thingArrays s) \<and> ms_relationships s < length (ms_relationshipArrays s)"

lemma batch_things_ok: "store_ok s \<Longrightarrow> store_ok (batch_things b s)"
  by (auto simp: store_ok_def batch_things_def asArray_def Let_def forThe_index)
     (simp_all add: kept_ok_def by_id_snd keyed_thing_writes)

lemma batch_relationships_ok: "store_ok s \<Longrightarrow> store_ok (batch_relationships b s)"
  by (auto simp: store_ok_def batch_relationships_def asArray_def Let_def forThe_index)
     (simp_all add: kept_ok_def by_id_snd keyed_relationship_writes)

lemma applyBatch_ok: "store_ok s \<Longrightarrow> store_ok (applyBatch b s)"
proof -
  assume "store_ok s"
  then have "store_ok (batch_relationships b (batch_things b s))"
    by (intro batch_relationships_ok batch_things_ok)
  then show ?thesis
    by (auto simp: applyBatch_def Let_def store_ok_def case_prod_beta intro: kept_ok_forThe)
qed

lemma store_step_ok: "store_ok s \<Longrightarrow> names_arrays s a \<Longrightarrow> store_ok (store_step a s)"
  by (cases a)
     (auto simp: applyBatch_ok, auto simp: store_ok_def kept_ok_append setThings_def setRelationships_def
        seedThingStates_def markLoaded_def clearModel_def)

lemma reachable_ok: "store_reachable s \<Longrightarrow> store_ok s"
proof (induction rule: store_reachable.induct)
  case initial
  show ?case by (simp add: store_ok_def newModelStore_def)
next
  case (action s a)
  then show ?case by (simp add: store_step_ok)
qed

subsection \<open>What the pages read\<close>

record model_view =
  vw_things :: "vos_thing list"
  vw_relationships :: "vos_relationship list"
  vw_states :: "(string, string list) omap"
  vw_version :: nat
  vw_loads :: nat
  vw_loaded :: bool
  vw_whole :: bool

definition view :: "model_store \<Rightarrow> model_view" where
  "view s = \<lparr>vw_things = things_of_store s, vw_relationships = relationships_of_store s, vw_states = ms_thingStates s,
     vw_version = ms_thingStatesVersion s, vw_loads = ms_loadsApplied s, vw_loaded = ms_loaded s, vw_whole = ms_holdsWholeModel s\<rparr>"

text \<open>A batch applied with no kept index: every map is built afresh from the arrays.\<close>

definition spec_batch :: "model_batch \<Rightarrow> model_view \<Rightarrow> model_view" where
  "spec_batch b v =
     (let things = (if touch_things b then map snd (thing_writes b (by_id tId (vw_things v))) else vw_things v);
          relationships = (if touch_relationships b then map snd (relationship_writes b (by_id rId (vw_relationships v)))
                           else vw_relationships v);
          left = foldl (\<lambda>st i. odel i st) (vw_states v) (mb_thingRemovals b);
          taken = list_ex (ohas (vw_states v)) (mb_thingRemovals b)
      in v\<lparr>vw_things := things, vw_relationships := relationships,
          vw_states := write_states (by_id tId things) (mb_thingStateUpdates b) left,
          vw_version := (if taken \<or> mb_thingStateUpdates b \<noteq> [] then vw_version v + 1 else vw_version v)\<rparr>)"

lemma remove_states_eq:
  "remove_states is st = (foldl (\<lambda>st i. odel i st) st is, list_ex (ohas st) is)"
proof -
  have "foldl (\<lambda>(st, moved) i. (odel i st, moved \<or> ohas st i)) (st, mv) is
      = (foldl (\<lambda>st i. odel i st) st is, mv \<or> list_ex (ohas st) is)" for mv
  proof (induction "is" arbitrary: st mv)
    case (Cons i "is")
    have "ohas st i \<or> list_ex (ohas (odel i st)) is \<longleftrightarrow> ohas st i \<or> list_ex (ohas st) is"
      by (auto simp: list_ex_iff ohas_def odel_def)
    with Cons show ?case by simp
  qed simp
  then show ?thesis by (simp add: remove_states_def)
qed

lemma batch_things_view:
  assumes "store_ok s"
  shows "things_of_store (batch_things b s)
      = (if touch_things b then map snd (thing_writes b (by_id tId (things_of_store s))) else things_of_store s)"
    and "relationships_of_store (batch_things b s) = relationships_of_store s"
  using assms by (auto simp: batch_things_def things_of_store_def relationships_of_store_def asArray_def Let_def forThe_index store_ok_def)

lemma batch_relationships_view:
  assumes "store_ok s"
  shows "relationships_of_store (batch_relationships b s)
      = (if touch_relationships b then map snd (relationship_writes b (by_id rId (relationships_of_store s))) else relationships_of_store s)"
    and "things_of_store (batch_relationships b s) = things_of_store s"
  using assms by (auto simp: batch_relationships_def things_of_store_def relationships_of_store_def asArray_def Let_def forThe_index store_ok_def)

lemma batch_keeps [simp]:
  "ms_thingStates (batch_things b s) = ms_thingStates s" "ms_thingStates (batch_relationships b s) = ms_thingStates s"
  "ms_thingStatesVersion (batch_things b s) = ms_thingStatesVersion s"
  "ms_thingStatesVersion (batch_relationships b s) = ms_thingStatesVersion s"
  "ms_loadsApplied (batch_things b s) = ms_loadsApplied s" "ms_loadsApplied (batch_relationships b s) = ms_loadsApplied s"
  "ms_loaded (batch_things b s) = ms_loaded s" "ms_loaded (batch_relationships b s) = ms_loaded s"
  "ms_holdsWholeModel (batch_things b s) = ms_holdsWholeModel s"
  "ms_holdsWholeModel (batch_relationships b s) = ms_holdsWholeModel s"
  by (simp_all add: batch_things_def batch_relationships_def asArray_def Let_def)

lemma applyBatch_view:
  assumes "store_ok s"
  shows "view (applyBatch b s) = spec_batch b (view s)"
proof -
  let ?s2 = "batch_relationships b (batch_things b s)"
  have ok: "store_ok (batch_things b s)" "store_ok ?s2"
    using assms by (auto intro: batch_relationships_ok batch_things_ok)
  have held: "kb_index (forThe tId (ms_thingArrays ?s2) (ms_things ?s2) (ms_thingsById ?s2)) = by_id tId (things_of_store ?s2)"
    using ok(2) by (simp add: store_ok_def forThe_index things_of_store_def)
  have view2: "things_of_store ?s2 = vw_things (spec_batch b (view s))" "relationships_of_store ?s2 = vw_relationships (spec_batch b (view s))"
    using batch_things_view[OF assms, of b] batch_relationships_view[OF ok(1), of b]
    by (simp_all add: spec_batch_def view_def Let_def)
  have removed: "(if touch_things b then remove_states (mb_thingRemovals b) (ms_thingStates s) else (ms_thingStates s, False))
      = (foldl (\<lambda>st i. odel i st) (ms_thingStates s) (mb_thingRemovals b), list_ex (ohas (ms_thingStates s)) (mb_thingRemovals b))"
    by (auto simp: remove_states_eq touch_things_def)
  have store: "things_of_store (applyBatch b s) = things_of_store ?s2" "relationships_of_store (applyBatch b s) = relationships_of_store ?s2"
    by (simp_all add: applyBatch_def Let_def case_prod_beta things_of_store_def relationships_of_store_def)
  show ?thesis
    using view2 store unfolding view_def spec_batch_def
    by (simp add: applyBatch_def removed held Let_def write_states_def)
qed

text \<open>C1. The kept index is invisible. Whatever actions, loads and writes of the store by other ways
  came before, applying a batch leaves the pages exactly what they would read had every map been
  built afresh from the arrays they were drawing.\<close>

theorem applyBatch_refines:
  assumes "store_reachable s"
  shows "view (applyBatch b s) = spec_batch b (view s)"
  using applyBatch_view[OF reachable_ok[OF assms]] .


definition sample_vos_thing :: "string \<Rightarrow> vos_thing" where
  "sample_vos_thing i = \<lparr>tId = i, tName = i, tIsArchetype = None, tProperties = [], tPropertyWriteKinds = None,
     tInheritedOverrides = None, tDerivedProperties = None\<rparr>"

definition one_write :: model_batch where
  "one_write = empty_batch\<lparr>mb_thingUpserts := [sample_vos_thing ''t''], mb_thingPropertyUpdates := [(''t'', ''p'', JBool True)]\<rparr>"

lemma applyBatch_refines_witness:
  "view (applyBatch one_write (clearModel newModelStore)) = spec_batch one_write (view (clearModel newModelStore))
   \<and> map (\<lambda>t. tProperties t) (vw_things (spec_batch one_write (view (clearModel newModelStore)))) = [[(''p'', JBool True)]]"
proof
  have "store_reachable (store_step Clear newModelStore)" by (rule store_reachable.intros)+ simp
  then have "store_reachable (clearModel newModelStore)" by simp
  then show "view (applyBatch one_write (clearModel newModelStore)) = spec_batch one_write (view (clearModel newModelStore))"
    by (rule applyBatch_refines)
  show "map (\<lambda>t. tProperties t) (vw_things (spec_batch one_write (view (clearModel newModelStore)))) = [[(''p'', JBool True)]]"
    by code_simp
qed

subsection \<open>What a batch means\<close>

lemma revise_at_om: "revise_at = om.revise"
  by (intro ext) (simp add: revise_at_def om.revise_def)

lemma oget_revisions:
  "okeys_distinct m \<Longrightarrow> oget (foldl (\<lambda>a x. revise_at (key x) (f x) a) m xs) i
     = map_option (\<lambda>v. foldl (\<lambda>v x. f x v) v (filter (\<lambda>x. key x = i) xs)) (oget m i)"
proof (induction xs arbitrary: m)
  case (Cons x xs)
  then show ?case
    by (simp add: revise_at_om om.invar_revise om.get_revise option.map_comp comp_def)
qed (simp add: option.map_ident)

lemma distinct_revisions: "okeys_distinct m \<Longrightarrow> okeys_distinct (foldl (\<lambda>a x. revise_at (key x) (f x) a) m xs)"
proof (induction xs arbitrary: m)
  case (Cons x xs)
  from Cons.prems have "okeys_distinct (revise_at (key x) (f x) m)" by (simp add: revise_at_om om.invar_revise)
  then show ?case using Cons.IH by simp
qed simp

text \<open>The last of the Things a batch carries under an identifier, and the property changes it makes
  to one Thing: its updates in order, then its removals.\<close>

definition upserted :: "model_batch \<Rightarrow> string \<Rightarrow> vos_thing option" where
  "upserted b i = List.find (\<lambda>t. tId t = i) (rev (mb_thingUpserts b))"

definition revised :: "model_batch \<Rightarrow> string \<Rightarrow> vos_thing \<Rightarrow> vos_thing" where
  "revised b i t = foldl (\<lambda>t (j, p). applyThingPropertyRemoval t p)
     (foldl (\<lambda>t (j, p, v). applyThingPropertyUpdate t p v) t (filter (\<lambda>(j, p, v). j = i) (mb_thingPropertyUpdates b)))
     (filter (\<lambda>(j, p). j = i) (mb_thingPropertyRemovals b))"

lemma map_of_find: "map_of (map (\<lambda>x. (f x, x)) xs) i = List.find (\<lambda>x. f x = i) xs"
  by (induction xs) auto

lemma oget_thing_writes:
  assumes "okeys_distinct m"
  shows "oget (thing_writes b m) i = map_option (revised b i)
     (case upserted b i of Some t \<Rightarrow> Some t | None \<Rightarrow> if i \<in> set (mb_thingRemovals b) then None else oget m i)"
proof -
  let ?m1 = "foldl (\<lambda>a i. odel i a) m (mb_thingRemovals b)"
  let ?m2 = "foldl (\<lambda>a t. oput (tId t) t a) ?m1 (mb_thingUpserts b)"
  let ?m3 = "foldl (\<lambda>a x. revise_at (fst x) (\<lambda>t. applyThingPropertyUpdate t (fst (snd x)) (snd (snd x))) a) ?m2 (mb_thingPropertyUpdates b)"
  have d1: "okeys_distinct ?m1" using om.invar_removes[OF assms] .
  have d2: "okeys_distinct ?m2" using om.invar_puts[OF d1, of tId "\<lambda>t. t"] by simp
  have d3: "okeys_distinct ?m3" by (rule distinct_revisions[OF d2])
  have "oget ?m2 i = (case upserted b i of Some t \<Rightarrow> Some t | None \<Rightarrow> if i \<in> set (mb_thingRemovals b) then None else oget m i)"
    using om.get_puts[OF d1, of tId "\<lambda>t. t"] om.get_removes[OF assms, of "mb_thingRemovals b"]
    by (simp add: map_add_def rev_map map_of_find upserted_def)
  moreover have "thing_writes b m = foldl (\<lambda>a x. revise_at (fst x) (\<lambda>t. applyThingPropertyRemoval t (snd x)) a) ?m3 (mb_thingPropertyRemovals b)"
    unfolding thing_writes_def Let_def split_def ..
  moreover have "revised b i = (\<lambda>v. foldl (\<lambda>v x. applyThingPropertyRemoval v (snd x))
      (foldl (\<lambda>v x. applyThingPropertyUpdate v (fst (snd x)) (snd (snd x))) v (filter (\<lambda>x. fst x = i) (mb_thingPropertyUpdates b)))
      (filter (\<lambda>x. fst x = i) (mb_thingPropertyRemovals b)))"
    unfolding revised_def split_def ..
  ultimately show ?thesis
    by (simp only: oget_revisions[OF d3] oget_revisions[OF d2] option.map_comp comp_def)
qed

lemma vw_things_applyBatch:
  "store_ok s \<Longrightarrow> things_of_store (applyBatch b s)
     = (if touch_things b then map snd (thing_writes b (by_id tId (things_of_store s))) else things_of_store s)"
  using applyBatch_view[of s b] by (simp add: view_def spec_batch_def Let_def)

lemma applyBatch_things_lookup:
  assumes "store_ok s"
  shows "oget (by_id tId (things_of_store (applyBatch b s))) i = map_option (revised b i)
     (case upserted b i of Some t \<Rightarrow> Some t
      | None \<Rightarrow> if i \<in> set (mb_thingRemovals b) then None else oget (by_id tId (things_of_store s)) i)"
proof (cases "touch_things b")
  case True
  have "okeys_distinct (by_id tId (things_of_store s))" by (simp add: by_id_def)
  with True assms show ?thesis
    by (simp add: vw_things_applyBatch by_id_snd keyed_thing_writes oget_thing_writes)
next
  case False
  with assms show ?thesis
    by (cases "oget (by_id tId (things_of_store s)) i")
       (simp_all add: vw_things_applyBatch touch_things_def upserted_def revised_def)
qed

text \<open>What a batch does to a Thing. After a batch the Thing held under an identifier is the last
  the batch carried under it, else the one held before unless the batch removes it, with the batch's
  property updates and then its property removals applied.\<close>

lemma applyBatch_thing:
  assumes "store_reachable s"
  shows "oget (by_id tId (things_of_store (applyBatch b s))) i = map_option (revised b i)
     (case upserted b i of Some t \<Rightarrow> Some t
      | None \<Rightarrow> if i \<in> set (mb_thingRemovals b) then None else oget (by_id tId (things_of_store s)) i)"
  using applyBatch_things_lookup[OF reachable_ok[OF assms]] .

lemma applyBatch_thing_witness:
  "oget (by_id tId (things_of_store (applyBatch one_write newModelStore))) ''t''
     = Some ((sample_vos_thing ''t'')\<lparr>tProperties := [(''p'', JBool True)]\<rparr>)"
proof -
  have "upserted one_write ''t'' = Some (sample_vos_thing ''t'')" by code_simp
  moreover have "revised one_write ''t'' (sample_vos_thing ''t'') = (sample_vos_thing ''t'')\<lparr>tProperties := [(''p'', JBool True)]\<rparr>"
    by code_simp
  ultimately show ?thesis using applyBatch_thing[OF initial, of one_write "''t''"] by simp
qed

subsection \<open>The states a Thing holds\<close>

definition states_held :: "model_store \<Rightarrow> bool" where
  "states_held s \<longleftrightarrow> dom (oget (ms_thingStates s)) \<subseteq> tId ` set (things_of_store s)"

lemma dom_by_id [simp]: "dom (oget (by_id ident xs)) = ident ` set xs"
  by (simp add: by_id_def of_entries_def dom_map_of_conv_image_fst image_image)

lemma write_states_dom:
  "dom (oget (write_states held us st)) \<subseteq> dom (oget st) \<union> dom (oget held)"
proof (induction us arbitrary: st)
  case (Cons u us)
  obtain i sts where u: "u = (i, sts)" by (cases u)
  show ?case
  proof (cases "ohas held i")
    case True
    then have "i \<in> dom (oget held)" by (auto simp: ohas_iff_oget)
    moreover have "dom (oget (oput i sts st)) = insert i (dom (oget st))" by simp
    moreover have "write_states held (u # us) st = write_states held us (oput i sts st)"
      using True by (simp add: u write_states_def)
    ultimately show ?thesis using Cons[of "oput i sts st"] by (simp only:) blast
  next
    case False
    with Cons[of st] show ?thesis by (simp add: u write_states_def)
  qed
qed (simp add: write_states_def)

lemma applyBatch_states:
  assumes "store_ok s"
  shows "ms_thingStates (applyBatch b s) = write_states (by_id tId (things_of_store (applyBatch b s)))
      (mb_thingStateUpdates b) (foldl (\<lambda>st i. odel i st) (ms_thingStates s) (mb_thingRemovals b))"
  using applyBatch_view[OF assms, of b] by (simp add: view_def spec_batch_def Let_def)

lemma applyBatch_version:
  assumes "store_ok s"
  shows "ms_thingStatesVersion (applyBatch b s) = (if list_ex (ohas (ms_thingStates s)) (mb_thingRemovals b) \<or> mb_thingStateUpdates b \<noteq> []
      then ms_thingStatesVersion s + 1 else ms_thingStatesVersion s)"
  using applyBatch_view[OF assms, of b] by (simp add: view_def spec_batch_def Let_def)

lemma dom_odels: "dom (oget (foldl (\<lambda>st i. odel i st) st is)) = dom (oget st) - set is"
  by (induction "is" arbitrary: st) auto

lemma odels_absent: "\<not> list_ex (ohas st) is \<Longrightarrow> foldl (\<lambda>st i. odel i st) st is = st"
proof (induction "is")
  case (Cons i "is")
  then have "odel i st = st" by (auto simp: odel_def ohas_def intro!: filter_True)
  with Cons show ?case by simp
qed simp

text \<open>States are kept for held Things and watched by their version. If every Thing with recorded
  states is held, that is so after a batch; a seed of states of held Things and every load keep it
  too. And no action but a write past the store's own changes the recorded states without moving
  their version, which is what redraws the pages.\<close>

lemma thing_states_tracked:
  assumes "store_reachable s" and "names_arrays s a"
    and "case a of WriteThings r \<Rightarrow> False | SeedThingStates st \<Rightarrow> dom (oget st) \<subseteq> tId ` set (things_of_store s) | _ \<Rightarrow> True"
  shows "(states_held s \<longrightarrow> states_held (store_step a s))
     \<and> (ms_thingStatesVersion (store_step a s) = ms_thingStatesVersion s \<longrightarrow> ms_thingStates (store_step a s) = ms_thingStates s)"
proof -
  note ok = reachable_ok[OF assms(1)]
  show ?thesis
  proof (cases a)
    case (ApplyBatch b)
    let ?left = "foldl (\<lambda>st i. odel i st) (ms_thingStates s) (mb_thingRemovals b)"
    have "states_held (applyBatch b s)" if held: "states_held s"
    proof -
      have left: "dom (oget ?left) = dom (oget (ms_thingStates s)) - set (mb_thingRemovals b)" by (rule dom_odels)
      have kept: "i \<in> tId ` set (things_of_store (applyBatch b s))"
        if i: "i \<in> tId ` set (things_of_store s)" "i \<notin> set (mb_thingRemovals b)" for i
      proof -
        have "i \<in> dom (oget (by_id tId (things_of_store s)))" using i(1) by simp
        then obtain t where "oget (by_id tId (things_of_store s)) i = Some t" by blast
        with i(2) have "oget (by_id tId (things_of_store (applyBatch b s))) i \<noteq> None"
          by (simp add: applyBatch_things_lookup[OF ok] split: option.splits)
        then have "i \<in> dom (oget (by_id tId (things_of_store (applyBatch b s))))" by blast
        then show ?thesis by (simp only: dom_by_id)
      qed
      have written: "dom (oget (ms_thingStates (applyBatch b s))) \<subseteq> dom (oget ?left) \<union> tId ` set (things_of_store (applyBatch b s))"
        using write_states_dom[of "by_id tId (things_of_store (applyBatch b s))" "mb_thingStateUpdates b" ?left]
        by (simp only: applyBatch_states[OF ok] dom_by_id)
      show ?thesis unfolding states_held_def
      proof
        fix i assume i: "i \<in> dom (oget (ms_thingStates (applyBatch b s)))"
        from subsetD[OF written i] show "i \<in> tId ` set (things_of_store (applyBatch b s))"
        proof (rule UnE)
          assume "i \<in> dom (oget ?left)"
          then have i: "i \<in> dom (oget (ms_thingStates s)) - set (mb_thingRemovals b)" unfolding left .
          then have out: "i \<notin> set (mb_thingRemovals b)" by (rule DiffE)
          show ?thesis by (rule kept[OF subsetD[OF held[unfolded states_held_def] DiffD1[OF i]] out])
        qed
      qed
    qed
    moreover have "ms_thingStates (applyBatch b s) = ms_thingStates s"
      if "ms_thingStatesVersion (applyBatch b s) = ms_thingStatesVersion s"
      using that by (auto simp: applyBatch_version[OF ok] applyBatch_states[OF ok] odels_absent write_states_def split: if_splits)
    ultimately show ?thesis using ApplyBatch by simp
  qed (insert assms(2,3) ok, simp_all add: states_held_def things_of_store_def store_ok_def nth_append setThings_def
        setRelationships_def seedThingStates_def markLoaded_def clearModel_def)
qed



lemma thing_states_tracked_witness:
  "let a = ApplyBatch (one_write\<lparr>mb_thingStateUpdates := [(''t'', [''Full'']), (''gone'', [])]\<rparr>) in
   states_held (store_step a newModelStore) \<and> ms_thingStates (store_step a newModelStore) = [(''t'', [''Full''])]"
proof -
  let ?a = "ApplyBatch (one_write\<lparr>mb_thingStateUpdates := [(''t'', [''Full'']), (''gone'', [])]\<rparr>)"
  have "states_held newModelStore" by (simp add: states_held_def newModelStore_def)
  with thing_states_tracked[OF initial, of ?a] have "states_held (store_step ?a newModelStore)" by simp
  moreover have "ms_thingStates (store_step ?a newModelStore) = [(''t'', [''Full''])]" by code_simp
  ultimately show ?thesis by simp
qed


end
