(* ===== verification/Sse.thy ===== *)
theory Sse
  imports VosTypes "HOL-Library.Multiset"
begin

section \<open>The live subscription\<close>

text \<open>
  \<open>src/hooks/useSse.ts\<close>: the one object subscription and the one system stream the mounted pages
  share. The module's variables are the record \<open>sse\<close>; everything that can happen to it (a page
  mounting or leaving, a timer, a microtask, an answer of the platform to one of the opens in flight,
  an event of a stream) is an \<open>sse_action\<close>, and each action runs to completion, as the language runs
  the code between two awaits. An open in flight is a record in \<open>ss_opens\<close> standing at one of its
  awaits. Three fields record what the module did and are read by none of its code: the identifiers
  the platform granted, those handed back, and what was raised to the handlers. A selector is its
  JSON value.
\<close>

subsection \<open>Selectors and deliveries\<close>

type_synonym selector = json

definition WHOLE_MODEL :: selector where
  "WHOLE_MODEL = JObj [(''all'', JBool True)]"

definition selector_all :: "selector \<Rightarrow> bool" where
  "selector_all s = (case s of JObj m \<Rightarrow> (case oget m ''all'' of Some v \<Rightarrow> truthy v | None \<Rightarrow> False) | _ \<Rightarrow> False)"

text \<open>The body of the request that opens a subscription: a whole-model page declines the snapshot.\<close>

definition open_body :: "selector \<Rightarrow> json" where
  "open_body s = (case s of JObj m \<Rightarrow> if selector_all s then JObj (oput ''includeSnapshot'' (JBool False) m) else s | _ \<Rightarrow> s)"

definition PROPERTY_EVENTS :: "string list" where
  "PROPERTY_EVENTS = [''PropertyChanged'', ''PropertyDeleted'', ''RelationshipPropertyChanged'',
     ''RelationshipPropertyDeleted'', ''PropertyObserved'']"

definition toArguments :: "string \<Rightarrow> json option \<Rightarrow> json option list" where
  "toArguments kind data = (if kind \<in> set PROPERTY_EVENTS then
       (case data of Some (JObj d) \<Rightarrow> [oget d ''EntityId'', oget d ''PropertyName'', oget d ''Value'']
        | _ \<Rightarrow> [None, None, None])
     else [data])"

text \<open>The handlers called for an event, with the arguments each is called with. A handler that
  throws does not keep the event from those after it.\<close>

definition deliverToListeners :: "(string \<times> 'h) list \<Rightarrow> string \<Rightarrow> json option \<Rightarrow> ('h \<times> json option list) list" where
  "deliverToListeners handlers kind data =
     map (\<lambda>h. (snd h, toArguments kind data)) (filter (\<lambda>h. fst h = kind) handlers)"

text \<open>A snapshot in the shape the store holds.\<close>

record covered_objects =
  co_things :: "vos_thing list"
  co_relationships :: "vos_relationship list"
  co_thingStates :: "(string, string list) omap"

definition coveredBy :: "(vos_thing \<times> string list) list option \<Rightarrow> vos_relationship list option \<Rightarrow> covered_objects" where
  "coveredBy snapshot_things snapshot_relationships =
     (let things = (case snapshot_things of None \<Rightarrow> [] | Some ts \<Rightarrow> ts);
          relationships = (case snapshot_relationships of None \<Rightarrow> [] | Some rs \<Rightarrow> rs)
      in \<lparr>co_things = map (\<lambda>t. unwrapThing (fst t)) things, co_relationships = map unwrapRelationship relationships,
          co_thingStates = of_entries (map (\<lambda>t. (tId (fst t), snd t)) things)\<rparr>)"

subsection \<open>The state\<close>

datatype connection_state = Connecting | Live | Lost

datatype open_phase = AwaitToken | AwaitResponse | AwaitBody | AwaitStreamToken

record open_in_flight =
  op_generation :: nat
  op_phase :: open_phase
  op_selector :: selector
  op_granted :: "(string \<times> jsnum) option"

datatype raised = RaisedChanging selector | RaisedOpened string jsnum bool

record sse =
  ss_objectSource :: "string option"
  ss_systemSource :: bool
  ss_openSubscriptionId :: "string option"
  ss_referenceCount :: nat
  ss_connectionState :: connection_state
  ss_reconnectTimer :: "nat option"
  ss_reconnectAttempt :: nat
  ss_generation :: nat
  ss_consumedWatermark :: "jsnum option"
  ss_declared :: "(nat \<times> selector) list"
  ss_defaultSelector :: selector
  ss_openedFor :: "string option"
  ss_settling :: bool
  ss_following :: bool
  ss_opens :: "open_in_flight list"
  ss_granted :: "string list"
  ss_released :: "string list"
  ss_raised :: "raised list"

definition newSse :: sse where
  "newSse = \<lparr>ss_objectSource = None, ss_systemSource = False, ss_openSubscriptionId = None, ss_referenceCount = 0,
     ss_connectionState = Connecting, ss_reconnectTimer = None, ss_reconnectAttempt = 0, ss_generation = 0,
     ss_consumedWatermark = None, ss_declared = [], ss_defaultSelector = WHOLE_MODEL, ss_openedFor = None,
     ss_settling = False, ss_following = False, ss_opens = [], ss_granted = [], ss_released = [], ss_raised = []\<rparr>"

definition effectiveSelector :: "sse \<Rightarrow> selector" where
  "effectiveSelector s = (if ss_declared s \<noteq> [] then snd (last (ss_declared s)) else ss_defaultSelector s)"

subsection \<open>Opening and closing\<close>

definition releaseSubscription :: "string option \<Rightarrow> sse \<Rightarrow> sse" where
  "releaseSubscription i s = (case i of None \<Rightarrow> s
     | Some x \<Rightarrow> if x = [] then s else s\<lparr>ss_released := ss_released s @ [x]\<rparr>)"

definition closeStreams :: "sse \<Rightarrow> sse" where
  "closeStreams s = (releaseSubscription (ss_openSubscriptionId s)
     (s\<lparr>ss_objectSource := None, ss_systemSource := False\<rparr>))\<lparr>ss_openSubscriptionId := None\<rparr>"

definition reconnect_delays :: "nat list" where
  "reconnect_delays = [1000, 2000, 5000, 10000, 30000]"

definition scheduleReconnect :: "sse \<Rightarrow> sse" where
  "scheduleReconnect s = (if ss_reconnectTimer s \<noteq> None then s
     else s\<lparr>ss_connectionState := Lost,
            ss_reconnectTimer := Some (reconnect_delays ! min (ss_reconnectAttempt s) (length reconnect_delays - 1)),
            ss_reconnectAttempt := ss_reconnectAttempt s + 1\<rparr>)"

text \<open>\<open>openStreams\<close> up to its first await.\<close>

definition openStreams :: "sse \<Rightarrow> sse" where
  "openStreams s =
     (let s1 = closeStreams (s\<lparr>ss_generation := ss_generation s + 1\<rparr>);
          s2 = (if ss_connectionState s1 = Live then s1\<lparr>ss_connectionState := Connecting\<rparr> else s1);
          sel = effectiveSelector s2
      in s2\<lparr>ss_openedFor := Some (json_stringify sel),
            ss_opens := ss_opens s2 @ [\<lparr>op_generation = ss_generation s2, op_phase = AwaitToken, op_selector = sel, op_granted = None\<rparr>]\<rparr>)"

definition superseded :: "open_in_flight \<Rightarrow> sse \<Rightarrow> bool" where
  "superseded op s \<longleftrightarrow> op_generation op \<noteq> ss_generation s \<or> ss_referenceCount s = 0"

text \<open>The end of an open, whichever way it ends: what it was granted and did not adopt is handed back.\<close>

definition finish_open :: "nat \<Rightarrow> sse \<Rightarrow> sse" where
  "finish_open i s = releaseSubscription (map_option fst (op_granted (ss_opens s ! i)))
     (s\<lparr>ss_opens := take i (ss_opens s) @ drop (Suc i) (ss_opens s)\<rparr>)"

definition advance_open :: "nat \<Rightarrow> open_in_flight \<Rightarrow> sse \<Rightarrow> sse" where
  "advance_open i op s = s\<lparr>ss_opens := (ss_opens s)[i := op]\<rparr>"

text \<open>The streams attached, and the subscription recorded as the live one.\<close>

definition adopt :: "nat \<Rightarrow> sse \<Rightarrow> sse" where
  "adopt i s = (let op = ss_opens s ! i in case op_granted op of
     None \<Rightarrow> s
   | Some (subscriptionId, watermark) \<Rightarrow>
      (let resumeFrom = (case ss_consumedWatermark s of Some w \<Rightarrow> w | None \<Rightarrow> watermark) in
       s\<lparr>ss_consumedWatermark := Some resumeFrom, ss_objectSource := Some subscriptionId, ss_systemSource := True,
         ss_openSubscriptionId := Some subscriptionId, ss_opens := take i (ss_opens s) @ drop (Suc i) (ss_opens s),
         ss_raised := ss_raised s @ [RaisedOpened subscriptionId watermark (selector_all (op_selector op))]\<rparr>))"

text \<open>The answers to the awaits of the open at a position; \<open>None\<close> and \<open>False\<close> stand for a rejected
  promise, which the open catches.\<close>

datatype post_answer = PostOk | PostRefused | PostThrew

definition token_answered :: "nat \<Rightarrow> bool \<Rightarrow> sse \<Rightarrow> sse" where
  "token_answered i ok s = (let op = ss_opens s ! i in
     if \<not> ok then finish_open i (scheduleReconnect s)
     else if superseded op s then finish_open i s
     else advance_open i (op\<lparr>op_phase := AwaitResponse\<rparr>) s)"

definition post_answered :: "nat \<Rightarrow> post_answer \<Rightarrow> sse \<Rightarrow> sse" where
  "post_answered i answer s = (let op = ss_opens s ! i in case answer of
     PostThrew \<Rightarrow> finish_open i (scheduleReconnect s)
   | PostRefused \<Rightarrow> finish_open i (if superseded op s then s else scheduleReconnect s)
   | PostOk \<Rightarrow> advance_open i (op\<lparr>op_phase := AwaitBody\<rparr>) s)"

definition body_read :: "nat \<Rightarrow> (string \<times> jsnum) option \<Rightarrow> sse \<Rightarrow> sse" where
  "body_read i answer s = (let op = ss_opens s ! i in case answer of
     None \<Rightarrow> finish_open i (scheduleReconnect s)
   | Some (subscriptionId, watermark) \<Rightarrow>
      (let op' = op\<lparr>op_phase := AwaitStreamToken, op_granted := Some (subscriptionId, watermark)\<rparr>;
           s' = advance_open i op' (s\<lparr>ss_granted := ss_granted s @ [subscriptionId]\<rparr>)
       in if superseded op s then finish_open i s' else s'))"

definition stream_token_answered :: "nat \<Rightarrow> bool \<Rightarrow> sse \<Rightarrow> sse" where
  "stream_token_answered i ok s = (let op = ss_opens s ! i in
     if \<not> ok then finish_open i (scheduleReconnect s)
     else if superseded op s then finish_open i s
     else adopt i s)"

subsection \<open>Following the declarations\<close>

definition followDeclarations :: "sse \<Rightarrow> sse" where
  "followDeclarations s = (if ss_following s \<or> ss_settling s then s else s\<lparr>ss_following := True\<rparr>)"

definition follow :: "sse \<Rightarrow> sse" where
  "follow s =
     (let s1 = s\<lparr>ss_settling := False\<rparr>; sel = effectiveSelector s1 in
      if ss_referenceCount s1 = 0 then s1
      else if Some (json_stringify sel) = ss_openedFor s1 then s1
      else openStreams (s1\<lparr>ss_consumedWatermark := None, ss_raised := ss_raised s1 @ [RaisedChanging sel]\<rparr>))"

definition microtask :: "sse \<Rightarrow> sse" where
  "microtask s = (let s1 = s\<lparr>ss_following := False\<rparr> in
     if ss_openedFor s1 \<noteq> None \<and> ss_declared s1 = [] then s1\<lparr>ss_settling := True\<rparr> else follow s1)"

definition resubscribe :: "sse \<Rightarrow> sse" where
  "resubscribe s = (if ss_referenceCount s = 0 then s
     else openStreams (s\<lparr>ss_settling := False, ss_consumedWatermark := None\<rparr>))"

text \<open>A page's effect and its cleanup: an entry of its own, compared by identity when it is taken
  back. The declaration is parsed back from the text it was rendered to.\<close>

definition declare_page :: "nat \<Rightarrow> selector \<Rightarrow> sse \<Rightarrow> sse" where
  "declare_page k sel s = (case json_parse (json_stringify sel) of
     Some parsed \<Rightarrow> followDeclarations (s\<lparr>ss_declared := ss_declared s @ [(k, parsed)]\<rparr>) | None \<Rightarrow> s)"

fun take_back :: "nat \<Rightarrow> (nat \<times> selector) list \<Rightarrow> (nat \<times> selector) list" where
  "take_back k [] = []"
| "take_back k (e # es) = (if fst e = k then es else e # take_back k es)"

definition leave_page :: "nat \<Rightarrow> sse \<Rightarrow> sse" where
  "leave_page k s = followDeclarations (s\<lparr>ss_declared := take_back k (ss_declared s)\<rparr>)"

definition declare_default :: "selector \<Rightarrow> sse \<Rightarrow> sse" where
  "declare_default sel s = (case json_parse (json_stringify sel) of
     Some parsed \<Rightarrow> followDeclarations (s\<lparr>ss_defaultSelector := parsed\<rparr>) | None \<Rightarrow> s)"

definition leave_default :: "sse \<Rightarrow> sse" where
  "leave_default s = followDeclarations (s\<lparr>ss_defaultSelector := WHOLE_MODEL\<rparr>)"

definition acquire :: "sse \<Rightarrow> sse" where
  "acquire s = (let s1 = s\<lparr>ss_referenceCount := ss_referenceCount s + 1\<rparr> in
     if ss_referenceCount s1 = 1 then followDeclarations s1 else s1)"

definition release :: "sse \<Rightarrow> sse" where
  "release s = (if ss_referenceCount s > 1 then s\<lparr>ss_referenceCount := ss_referenceCount s - 1\<rparr>
     else (closeStreams (s\<lparr>ss_referenceCount := 0, ss_generation := ss_generation s + 1, ss_reconnectTimer := None,
        ss_settling := False, ss_reconnectAttempt := 0, ss_consumedWatermark := None, ss_openedFor := None\<rparr>))
        \<lparr>ss_connectionState := Connecting\<rparr>)"

definition reconnect_fired :: "sse \<Rightarrow> sse" where
  "reconnect_fired s = (let s1 = s\<lparr>ss_reconnectTimer := None\<rparr> in
     if ss_referenceCount s1 > 0 then openStreams s1 else s1)"

subsection \<open>The events of the streams\<close>

text \<open>An event of the object stream moves the position on, never back.\<close>

definition object_event :: "string \<Rightarrow> sse \<Rightarrow> sse" where
  "object_event lastEventId s = (if lastEventId = [] then s
     else (let sequence = string_number lastEventId in
       if is_finite sequence \<and> (case ss_consumedWatermark s of None \<Rightarrow> True | Some w \<Rightarrow> num_lt w sequence)
       then s\<lparr>ss_consumedWatermark := Some sequence\<rparr> else s))"

definition object_opened :: "sse \<Rightarrow> sse" where
  "object_opened s = s\<lparr>ss_reconnectAttempt := 0, ss_connectionState := Live\<rparr>"

text \<open>Asking for more of the open subscription, and giving it back: the request made, where one is.\<close>

definition addToSubscription :: "selector \<Rightarrow> sse \<Rightarrow> (string \<times> string) option" where
  "addToSubscription sel s = (case ss_openSubscriptionId s of None \<Rightarrow> None
     | Some i \<Rightarrow> if i = [] then None else Some (i, json_stringify sel))"

definition removeFromSubscription :: "string list \<Rightarrow> sse \<Rightarrow> (string \<times> string) option" where
  "removeFromSubscription ids s = (case ss_openSubscriptionId s of None \<Rightarrow> None
     | Some i \<Rightarrow> if i = [] \<or> ids = [] then None else Some (i, json_stringify (JObj [(''ids'', JArr (map JStr ids))])))"


subsection \<open>What can happen\<close>

datatype sse_action =
    Acquire | Release | DeclarePage nat selector | LeavePage nat | DeclareDefault selector | LeaveDefault
  | Microtask | SettleTimer | ReconnectTimer | Resubscribe
  | TokenAnswered nat bool | PostAnswered nat post_answer | BodyRead nat "(string \<times> jsnum) option"
  | StreamTokenAnswered nat bool
  | ObjectOpened | StreamFailed | ObjectEvent string

fun perform :: "sse_action \<Rightarrow> sse \<Rightarrow> sse" where
  "perform Acquire s = acquire s"
| "perform Release s = release s"
| "perform (DeclarePage k sel) s = declare_page k sel s"
| "perform (LeavePage k) s = leave_page k s"
| "perform (DeclareDefault sel) s = declare_default sel s"
| "perform LeaveDefault s = leave_default s"
| "perform Microtask s = microtask s"
| "perform SettleTimer s = follow s"
| "perform ReconnectTimer s = reconnect_fired s"
| "perform Resubscribe s = resubscribe s"
| "perform (TokenAnswered i ok) s = token_answered i ok s"
| "perform (PostAnswered i answer) s = post_answered i answer s"
| "perform (BodyRead i answer) s = body_read i answer s"
| "perform (StreamTokenAnswered i ok) s = stream_token_answered i ok s"
| "perform ObjectOpened s = object_opened s"
| "perform StreamFailed s = scheduleReconnect s"
| "perform (ObjectEvent lastEventId) s = object_event lastEventId s"

text \<open>When each can happen: a timer only while it is set, an answer only to an open standing at that
  await, an event only from an attached stream. The platform grants identifiers that are not empty.\<close>

definition standing_at :: "sse \<Rightarrow> nat \<Rightarrow> open_phase \<Rightarrow> bool" where
  "standing_at s i p \<longleftrightarrow> i < length (ss_opens s) \<and> op_phase (ss_opens s ! i) = p"

fun enabled :: "sse \<Rightarrow> sse_action \<Rightarrow> bool" where
  "enabled s Microtask \<longleftrightarrow> ss_following s"
| "enabled s SettleTimer \<longleftrightarrow> ss_settling s"
| "enabled s ReconnectTimer \<longleftrightarrow> ss_reconnectTimer s \<noteq> None"
| "enabled s (TokenAnswered i ok) \<longleftrightarrow> standing_at s i AwaitToken"
| "enabled s (PostAnswered i answer) \<longleftrightarrow> standing_at s i AwaitResponse"
| "enabled s (BodyRead i answer) \<longleftrightarrow> standing_at s i AwaitBody \<and> (case answer of Some (x, w) \<Rightarrow> x \<noteq> [] | None \<Rightarrow> True)"
| "enabled s (StreamTokenAnswered i ok) \<longleftrightarrow> standing_at s i AwaitStreamToken"
| "enabled s ObjectOpened \<longleftrightarrow> ss_objectSource s \<noteq> None"
| "enabled s StreamFailed \<longleftrightarrow> ss_objectSource s \<noteq> None \<or> ss_systemSource s"
| "enabled s (ObjectEvent lastEventId) \<longleftrightarrow> ss_objectSource s \<noteq> None"
| "enabled s _ \<longleftrightarrow> True"

inductive sse_reachable :: "sse \<Rightarrow> bool" where
  start: "sse_reachable newSse"
| move: "sse_reachable s \<Longrightarrow> enabled s a \<Longrightarrow> sse_reachable (perform a s)"

fun run_actions :: "sse_action list \<Rightarrow> sse \<Rightarrow> sse" where
  "run_actions [] s = s"
| "run_actions (a # as) s = run_actions as (perform a s)"

fun all_enabled :: "sse_action list \<Rightarrow> sse \<Rightarrow> bool" where
  "all_enabled [] s \<longleftrightarrow> True"
| "all_enabled (a # as) s \<longleftrightarrow> enabled s a \<and> all_enabled as (perform a s)"

lemma reachable_run: "sse_reachable s \<Longrightarrow> all_enabled as s \<Longrightarrow> sse_reachable (run_actions as s)"
  by (induction as arbitrary: s) (auto intro: move)

subsection \<open>The invariant\<close>

definition in_flight_ids :: "sse \<Rightarrow> string list" where
  "in_flight_ids s = List.map_filter (\<lambda>op. map_option fst (op_granted op)) (ss_opens s)"

text \<open>The opens in flight: none newer than the generation, no two of one generation, granted an
  identifier exactly while waiting for the stream token, and the newest asking for what the module
  says it opened for.\<close>

definition opens_ok :: "sse \<Rightarrow> bool" where
  "opens_ok s \<longleftrightarrow> (\<forall>op\<in>set (ss_opens s). op_generation op \<le> ss_generation s
        \<and> (op_granted op \<noteq> None \<longleftrightarrow> op_phase op = AwaitStreamToken)
        \<and> (\<forall>x w. op_granted op = Some (x, w) \<longrightarrow> x \<noteq> [])
        \<and> (op_generation op = ss_generation s \<longrightarrow> ss_referenceCount s > 0 \<and>
             ss_openedFor s = Some (json_stringify (op_selector op)) \<and> ss_openSubscriptionId s = None))
     \<and> distinct (map op_generation (ss_opens s))"

definition live_ok :: "sse \<Rightarrow> bool" where
  "live_ok s \<longleftrightarrow> ss_objectSource s = ss_openSubscriptionId s \<and> (ss_systemSource s \<longleftrightarrow> ss_openSubscriptionId s \<noteq> None)
     \<and> ss_openSubscriptionId s \<noteq> Some []
     \<and> (ss_referenceCount s = 0 \<longrightarrow> ss_openSubscriptionId s = None \<and> ss_openedFor s = None \<and> \<not> ss_settling s)"

definition pending :: "sse \<Rightarrow> bool" where
  "pending s \<longleftrightarrow> ss_following s \<or> ss_settling s"

definition coverage_ok :: "sse \<Rightarrow> bool" where
  "coverage_ok s \<longleftrightarrow> (ss_referenceCount s > 0 \<and> \<not> pending s \<longrightarrow> ss_openedFor s = Some (json_stringify (effectiveSelector s)))
     \<and> (ss_settling s \<longrightarrow> ss_openedFor s \<noteq> None)"

definition driven_ok :: "sse \<Rightarrow> bool" where
  "driven_ok s \<longleftrightarrow> (ss_openedFor s \<noteq> None \<longrightarrow> ss_reconnectTimer s \<noteq> None
     \<or> (\<exists>op\<in>set (ss_opens s). op_generation op = ss_generation s) \<or> ss_openSubscriptionId s \<noteq> None)"

definition ledger_ok :: "sse \<Rightarrow> bool" where
  "ledger_ok s \<longleftrightarrow> mset (ss_granted s) = mset (ss_released s) + mset (in_flight_ids s)
     + mset (case ss_openSubscriptionId s of None \<Rightarrow> [] | Some i \<Rightarrow> [i])"

definition sse_ok :: "sse \<Rightarrow> bool" where
  "sse_ok s \<longleftrightarrow> opens_ok s \<and> live_ok s \<and> coverage_ok s \<and> driven_ok s \<and> ledger_ok s"

definition base_ok :: "sse \<Rightarrow> bool" where
  "base_ok s \<longleftrightarrow> opens_ok s \<and> live_ok s \<and> ledger_ok s"

lemmas oks = opens_ok_def live_ok_def coverage_ok_def driven_ok_def ledger_ok_def in_flight_ids_def pending_def effectiveSelector_def

lemma releaseSubscription_fields [simp]:
  "ss_objectSource (releaseSubscription i s) = ss_objectSource s" "ss_systemSource (releaseSubscription i s) = ss_systemSource s"
  "ss_openSubscriptionId (releaseSubscription i s) = ss_openSubscriptionId s"
  "ss_referenceCount (releaseSubscription i s) = ss_referenceCount s" "ss_reconnectTimer (releaseSubscription i s) = ss_reconnectTimer s"
  "ss_generation (releaseSubscription i s) = ss_generation s" "ss_declared (releaseSubscription i s) = ss_declared s"
  "ss_defaultSelector (releaseSubscription i s) = ss_defaultSelector s" "ss_openedFor (releaseSubscription i s) = ss_openedFor s"
  "ss_settling (releaseSubscription i s) = ss_settling s" "ss_following (releaseSubscription i s) = ss_following s"
  "ss_opens (releaseSubscription i s) = ss_opens s" "ss_granted (releaseSubscription i s) = ss_granted s"
  "ss_consumedWatermark (releaseSubscription i s) = ss_consumedWatermark s"
  "ss_connectionState (releaseSubscription i s) = ss_connectionState s"
  by (auto simp: releaseSubscription_def split: option.splits)

lemma released_after [simp]:
  "i \<noteq> Some [] \<Longrightarrow> ss_released (releaseSubscription i s) = ss_released s @ (case i of None \<Rightarrow> [] | Some x \<Rightarrow> [x])"
  by (auto simp: releaseSubscription_def split: option.splits)

lemma scheduleReconnect_fields [simp]:
  "ss_objectSource (scheduleReconnect s) = ss_objectSource s" "ss_systemSource (scheduleReconnect s) = ss_systemSource s"
  "ss_openSubscriptionId (scheduleReconnect s) = ss_openSubscriptionId s"
  "ss_referenceCount (scheduleReconnect s) = ss_referenceCount s"
  "ss_generation (scheduleReconnect s) = ss_generation s" "ss_declared (scheduleReconnect s) = ss_declared s"
  "ss_defaultSelector (scheduleReconnect s) = ss_defaultSelector s" "ss_openedFor (scheduleReconnect s) = ss_openedFor s"
  "ss_settling (scheduleReconnect s) = ss_settling s" "ss_following (scheduleReconnect s) = ss_following s"
  "ss_opens (scheduleReconnect s) = ss_opens s" "ss_granted (scheduleReconnect s) = ss_granted s"
  "ss_released (scheduleReconnect s) = ss_released s" "ss_consumedWatermark (scheduleReconnect s) = ss_consumedWatermark s"
  "ss_reconnectTimer (scheduleReconnect s) \<noteq> None"
  by (simp_all add: scheduleReconnect_def)

lemma scheduleReconnect_ok: "sse_ok s \<Longrightarrow> sse_ok (scheduleReconnect s)"
  by (auto simp: sse_ok_def oks)

lemma scheduleReconnect_base: "base_ok s \<Longrightarrow> base_ok (scheduleReconnect s)"
  by (simp add: base_ok_def oks)

text \<open>An open taken out of the list.\<close>

lemma opens_split: "i < length xs \<Longrightarrow> xs = take i xs @ xs ! i # drop (Suc i) xs"
  by (rule id_take_nth_drop)

lemma without_subset: "set (take i xs @ drop (Suc i) xs) \<subseteq> set xs"
  by (auto dest: in_set_takeD in_set_dropD)

lemma without_distinct: "distinct (map f xs) \<Longrightarrow> distinct (map f (take i xs @ drop (Suc i) xs))"
proof (cases "i < length xs")
  case True
  assume xs: "distinct (map f xs)"
  obtain as x bs where parts: "as = take i xs" "bs = drop (Suc i) xs" "x = xs ! i" by blast
  with opens_split[OF True] have "xs = as @ x # bs" by simp
  with xs have "distinct (map f (as @ bs))" by auto
  with parts show ?thesis by simp
qed simp

lemma in_flight_without:
  "i < length xs \<Longrightarrow> mset (List.map_filter g xs) = mset (List.map_filter g (take i xs @ drop (Suc i) xs))
     + mset (case g (xs ! i) of None \<Rightarrow> [] | Some y \<Rightarrow> [y])"
proof -
  assume i: "i < length xs"
  have app: "List.map_filter g (as @ bs) = List.map_filter g as @ List.map_filter g bs" for as bs
    by (simp add: List.map_filter_def)
  have "List.map_filter g xs = List.map_filter g (take i xs @ xs ! i # drop (Suc i) xs)" using opens_split[OF i] by simp
  then show ?thesis by (simp add: app List.map_filter_simps split: option.splits)
qed

lemma opens_okD:
  assumes "opens_ok s" and "i < length (ss_opens s)"
  shows "op_generation (ss_opens s ! i) \<le> ss_generation s"
    and "op_granted (ss_opens s ! i) \<noteq> None \<longleftrightarrow> op_phase (ss_opens s ! i) = AwaitStreamToken"
    and "op_granted (ss_opens s ! i) \<noteq> Some ([], w)"
    and "op_generation (ss_opens s ! i) = ss_generation s \<Longrightarrow> ss_referenceCount s > 0
      \<and> ss_openedFor s = Some (json_stringify (op_selector (ss_opens s ! i))) \<and> ss_openSubscriptionId s = None"
  using assms nth_mem[OF assms(2)] unfolding opens_ok_def by (blast, blast, blast, blast)

lemma finish_open_fields [simp]:
  "ss_objectSource (finish_open i s) = ss_objectSource s" "ss_systemSource (finish_open i s) = ss_systemSource s"
  "ss_openSubscriptionId (finish_open i s) = ss_openSubscriptionId s"
  "ss_referenceCount (finish_open i s) = ss_referenceCount s" "ss_reconnectTimer (finish_open i s) = ss_reconnectTimer s"
  "ss_generation (finish_open i s) = ss_generation s" "ss_declared (finish_open i s) = ss_declared s"
  "ss_defaultSelector (finish_open i s) = ss_defaultSelector s" "ss_openedFor (finish_open i s) = ss_openedFor s"
  "ss_settling (finish_open i s) = ss_settling s" "ss_following (finish_open i s) = ss_following s"
  "ss_opens (finish_open i s) = take i (ss_opens s) @ drop (Suc i) (ss_opens s)" "ss_granted (finish_open i s) = ss_granted s"
  "ss_consumedWatermark (finish_open i s) = ss_consumedWatermark s"
  by (simp_all add: finish_open_def)

lemma finish_open_base: "base_ok s \<Longrightarrow> i < length (ss_opens s) \<Longrightarrow> base_ok (finish_open i s)"
proof -
  assume ok: "base_ok s" and i: "i < length (ss_opens s)"
  let ?op = "ss_opens s ! i"
  have named: "map_option fst (op_granted ?op) \<noteq> Some []" using ok i opens_okD(3)[of s i] by (auto simp: base_ok_def)
  have "opens_ok (finish_open i s)"
    using ok without_subset[of i "ss_opens s"] without_distinct[of op_generation "ss_opens s" i]
    by (auto simp: base_ok_def opens_ok_def subset_iff simp del: set_append map_append)
  moreover have "ledger_ok (finish_open i s)"
    using ok in_flight_without[OF i, of "\<lambda>op. map_option fst (op_granted op)"] named
    by (simp add: base_ok_def ledger_ok_def in_flight_ids_def) (simp add: finish_open_def ac_simps)
  ultimately show ?thesis using ok by (simp add: base_ok_def live_ok_def)
qed

lemma finish_scheduled_ok: "sse_ok s \<Longrightarrow> i < length (ss_opens s) \<Longrightarrow> sse_ok (finish_open i (scheduleReconnect s))"
  using finish_open_base[of "scheduleReconnect s" i] scheduleReconnect_base[of s]
  by (auto simp: sse_ok_def base_ok_def coverage_ok_def driven_ok_def pending_def effectiveSelector_def)

lemma current_stays:
  "\<exists>op\<in>set xs. op_generation op = g \<Longrightarrow> i < length xs \<Longrightarrow> op_generation (xs ! i) \<noteq> g \<Longrightarrow>
   \<exists>op\<in>set (take i xs @ drop (Suc i) xs). op_generation op = g"
  using opens_split[of i xs] by (metis Un_iff list.set_intros(2) set_ConsD set_append)

lemma finish_superseded_ok:
  assumes "sse_ok s" and "i < length (ss_opens s)" and "superseded (ss_opens s ! i) s"
  shows "sse_ok (finish_open i s)"
proof -
  have "op_generation (ss_opens s ! i) \<noteq> ss_generation s"
    using assms opens_okD(4)[of s i] by (auto simp: superseded_def sse_ok_def)
  then have "driven_ok (finish_open i s)"
    using assms(1,2) current_stays[of "ss_opens s" "ss_generation s" i] by (auto simp: sse_ok_def driven_ok_def simp del: set_append)
  then show ?thesis using finish_open_base[of s i] assms(1,2)
    by (simp add: sse_ok_def base_ok_def coverage_ok_def pending_def effectiveSelector_def)
qed

lemma driven_alt: "driven_ok s \<longleftrightarrow> (ss_openedFor s \<noteq> None \<longrightarrow> ss_reconnectTimer s \<noteq> None
     \<or> ss_generation s \<in> set (map op_generation (ss_opens s)) \<or> ss_openSubscriptionId s \<noteq> None)"
  by (auto simp: driven_ok_def intro: rev_image_eqI)

text \<open>An open moved on to its next await.\<close>

lemma advance_ok:
  assumes "sse_ok s" and "i < length (ss_opens s)" and "p \<noteq> AwaitStreamToken" and "op_phase (ss_opens s ! i) \<noteq> AwaitStreamToken"
  shows "sse_ok (advance_open i ((ss_opens s ! i)\<lparr>op_phase := p\<rparr>) s)"
proof -
  let ?op = "ss_opens s ! i" and ?s' = "advance_open i ((ss_opens s ! i)\<lparr>op_phase := p\<rparr>) s"
  have none: "op_granted ?op = None" using assms opens_okD(2)[of s i] unfolding sse_ok_def by blast
  have gens: "map op_generation (ss_opens ?s') = map op_generation (ss_opens s)"
    using assms(2) by (simp add: advance_open_def map_update list_update_same_conv)
  have granted: "map op_granted (ss_opens ?s') = map op_granted (ss_opens s)"
    using assms(2) by (simp add: advance_open_def map_update list_update_same_conv)
  have ids: "in_flight_ids ?s' = in_flight_ids s"
  proof -
    have "in_flight_ids t = List.map_filter (map_option fst) (map op_granted (ss_opens t))" for t
      by (simp add: in_flight_ids_def List.map_filter_def filter_map comp_def)
    then show ?thesis using granted by simp
  qed
  have "opens_ok ?s'"
    using assms none gens by (auto simp: sse_ok_def opens_ok_def advance_open_def dest!: set_update_subset_insert[THEN subsetD])
  moreover have "driven_ok ?s'"
    using assms(1) unfolding sse_ok_def driven_alt gens by (simp add: advance_open_def)
  moreover have "ledger_ok ?s'" using assms(1) ids by (simp add: sse_ok_def ledger_ok_def) (simp add: advance_open_def)
  ultimately show ?thesis using assms(1) by (simp add: sse_ok_def) (simp add: advance_open_def live_ok_def coverage_ok_def pending_def effectiveSelector_def)
qed


lemma granted_ok:
  assumes "sse_ok s" and "i < length (ss_opens s)" and "op_phase (ss_opens s ! i) = AwaitBody" and "x \<noteq> []"
  shows "sse_ok (advance_open i ((ss_opens s ! i)\<lparr>op_phase := AwaitStreamToken, op_granted := Some (x, w)\<rparr>)
     (s\<lparr>ss_granted := ss_granted s @ [x]\<rparr>))" (is "sse_ok ?s'")
proof -
  let ?op = "ss_opens s ! i" and ?new = "(ss_opens s ! i)\<lparr>op_phase := AwaitStreamToken, op_granted := Some (x, w)\<rparr>"
  have none: "op_granted ?op = None" using assms opens_okD(2)[of s i] unfolding sse_ok_def by (metis open_phase.distinct(11))
  have opens: "ss_opens ?s' = (ss_opens s)[i := ?new]" by (simp add: advance_open_def)
  have gens: "map op_generation (ss_opens ?s') = map op_generation (ss_opens s)"
    using assms(2) by (simp add: advance_open_def map_update list_update_same_conv)
  have "opens_ok ?s'"
    using assms gens by (auto simp: sse_ok_def opens_ok_def advance_open_def dest!: set_update_subset_insert[THEN subsetD])
  moreover have "driven_ok ?s'"
    using assms(1) unfolding sse_ok_def driven_alt gens by (simp add: advance_open_def)
  moreover have "ledger_ok ?s'"
  proof -
    let ?g = "\<lambda>op. map_option fst (op_granted op)"
    have same: "take i ((ss_opens s)[i := ?new]) = take i (ss_opens s)" "drop (Suc i) ((ss_opens s)[i := ?new]) = drop (Suc i) (ss_opens s)"
      by simp_all
    have "mset (in_flight_ids ?s') = mset (in_flight_ids s) + {#x#}"
      using in_flight_without[of i "ss_opens s" ?g] in_flight_without[of i "ss_opens ?s'" ?g] assms(2) none
      unfolding opens in_flight_ids_def by (simp add: same)
    then show ?thesis using assms(1) by (simp add: sse_ok_def ledger_ok_def) (simp add: advance_open_def)
  qed
  ultimately show ?thesis using assms(1)
    by (simp add: sse_ok_def) (simp add: advance_open_def live_ok_def coverage_ok_def pending_def effectiveSelector_def)
qed

text \<open>An adopted open: the subscription it was granted becomes the live one.\<close>

lemma adopt_ok:
  assumes "sse_ok s" and "i < length (ss_opens s)" and "op_phase (ss_opens s ! i) = AwaitStreamToken"
    and "\<not> superseded (ss_opens s ! i) s"
  shows "sse_ok (adopt i s)"
proof -
  let ?op = "ss_opens s ! i"
  have ok: "opens_ok s" "live_ok s" "ledger_ok s" "coverage_ok s" using assms(1) by (simp_all add: sse_ok_def)
  from opens_okD(2)[OF ok(1) assms(2)] assms(3) obtain x w where g: "op_granted ?op = Some (x, w)" by auto
  have named: "x \<noteq> []" using opens_okD(3)[OF ok(1) assms(2)] g by auto
  have cur: "op_generation ?op = ss_generation s" "ss_referenceCount s > 0" using assms(4) by (auto simp: superseded_def)
  with opens_okD(4)[OF ok(1) assms(2)] have none: "ss_openSubscriptionId s = None" by blast
  have older: "op_generation op \<noteq> ss_generation s" if "op \<in> set (take i (ss_opens s) @ drop (Suc i) (ss_opens s))" for op
  proof -
    have "distinct (map op_generation (take i (ss_opens s) @ ?op # drop (Suc i) (ss_opens s)))"
      using ok(1) opens_split[OF assms(2)] by (simp add: opens_ok_def)
    then have "op_generation ?op \<notin> op_generation ` set (take i (ss_opens s) @ drop (Suc i) (ss_opens s))" by auto
    with imageI[OF that, of op_generation] cur show ?thesis by metis
  qed
  have "opens_ok (adopt i s)"
    using ok(1) older without_subset[of i "ss_opens s"] without_distinct[of op_generation "ss_opens s" i]
    by (simp add: adopt_def g opens_ok_def Let_def subset_iff del: set_append map_append) blast
  moreover have "ledger_ok (adopt i s)"
    using ok(3) in_flight_without[OF assms(2), of "\<lambda>op. map_option fst (op_granted op)"] none
    by (simp add: adopt_def g ledger_ok_def in_flight_ids_def Let_def)
  moreover have "live_ok (adopt i s)" using cur named by (simp add: adopt_def g live_ok_def Let_def)
  moreover have "coverage_ok (adopt i s)" using ok(4) by (simp add: adopt_def g coverage_ok_def pending_def effectiveSelector_def Let_def)
  moreover have "driven_ok (adopt i s)" by (simp add: adopt_def g driven_ok_def Let_def)
  ultimately show ?thesis by (simp add: sse_ok_def)
qed

subsection \<open>Opening, closing and following\<close>

lemma closeStreams_fields [simp]:
  "ss_objectSource (closeStreams s) = None" "\<not> ss_systemSource (closeStreams s)"
  "ss_openSubscriptionId (closeStreams s) = None" "ss_referenceCount (closeStreams s) = ss_referenceCount s"
  "ss_reconnectTimer (closeStreams s) = ss_reconnectTimer s"
  "ss_generation (closeStreams s) = ss_generation s" "ss_declared (closeStreams s) = ss_declared s"
  "ss_defaultSelector (closeStreams s) = ss_defaultSelector s" "ss_openedFor (closeStreams s) = ss_openedFor s"
  "ss_settling (closeStreams s) = ss_settling s" "ss_following (closeStreams s) = ss_following s"
  "ss_opens (closeStreams s) = ss_opens s" "ss_granted (closeStreams s) = ss_granted s"
  "ss_consumedWatermark (closeStreams s) = ss_consumedWatermark s"
  by (simp_all add: closeStreams_def)

lemma closeStreams_released:
  "ss_openSubscriptionId s \<noteq> Some [] \<Longrightarrow>
   ss_released (closeStreams s) = ss_released s @ (case ss_openSubscriptionId s of None \<Rightarrow> [] | Some x \<Rightarrow> [x])"
  by (simp add: closeStreams_def releaseSubscription_def split: option.splits)

lemma closeStreams_ledger: "live_ok s \<Longrightarrow> ledger_ok s \<Longrightarrow> ledger_ok (closeStreams s)"
  by (simp add: ledger_ok_def in_flight_ids_def live_ok_def closeStreams_released ac_simps)

lemma openStreams_fields:
  "ss_generation (openStreams s) = ss_generation s + 1" "ss_referenceCount (openStreams s) = ss_referenceCount s"
  "ss_opens (openStreams s) = ss_opens s @ [\<lparr>op_generation = ss_generation s + 1, op_phase = AwaitToken,
     op_selector = effectiveSelector s, op_granted = None\<rparr>]"
  "ss_openedFor (openStreams s) = Some (json_stringify (effectiveSelector s))"
  "ss_objectSource (openStreams s) = None" "\<not> ss_systemSource (openStreams s)"
  "ss_openSubscriptionId (openStreams s) = None" "ss_settling (openStreams s) = ss_settling s"
  "ss_following (openStreams s) = ss_following s" "ss_declared (openStreams s) = ss_declared s"
  "ss_defaultSelector (openStreams s) = ss_defaultSelector s" "ss_granted (openStreams s) = ss_granted s"
  "ss_released (openStreams s) = ss_released (closeStreams (s\<lparr>ss_generation := ss_generation s + 1\<rparr>))"
  "ss_reconnectTimer (openStreams s) = ss_reconnectTimer s" "ss_consumedWatermark (openStreams s) = ss_consumedWatermark s"
  by (simp_all add: openStreams_def Let_def effectiveSelector_def)

lemma openStreams_ok:
  assumes "base_ok s" and "ss_referenceCount s > 0"
  shows "sse_ok (openStreams s)"
proof -
  have ok: "opens_ok s" "live_ok s" "ledger_ok s" using assms(1) by (simp_all add: base_ok_def)
  have less: "op_generation op < ss_generation s + 1" if "op \<in> set (ss_opens s)" for op
    using ok(1) that by (auto simp: opens_ok_def less_Suc_eq_le)
  then have "opens_ok (openStreams s)"
    using ok(1) assms(2) by (fastforce simp: opens_ok_def openStreams_fields)
  moreover have "ledger_ok (openStreams s)"
    using closeStreams_ledger[of "s\<lparr>ss_generation := ss_generation s + 1\<rparr>"] ok
    by (simp add: ledger_ok_def in_flight_ids_def openStreams_fields live_ok_def List.map_filter_def)
  ultimately show ?thesis using assms(2)
    by (simp add: sse_ok_def live_ok_def coverage_ok_def driven_ok_def openStreams_fields effectiveSelector_def)
qed

lemma sse_ok_base: "sse_ok s \<Longrightarrow> base_ok s"
  by (simp add: sse_ok_def base_ok_def)

lemma followDeclarations_ok:
  assumes "opens_ok s" "live_ok s" "driven_ok s" "ledger_ok s" "ss_settling s \<longrightarrow> ss_openedFor s \<noteq> None"
  shows "sse_ok (followDeclarations s)"
  using assms by (auto simp: followDeclarations_def sse_ok_def oks)

lemma declared_ok: "sse_ok s \<Longrightarrow> sse_ok (followDeclarations (s\<lparr>ss_declared := d, ss_defaultSelector := e\<rparr>))"
  by (rule followDeclarations_ok) (simp_all add: sse_ok_def oks)

lemma follow_ok:
  assumes "base_ok s" "driven_ok s"
  shows "sse_ok (follow s)"
proof -
  let ?s1 = "s\<lparr>ss_settling := False\<rparr>"
  have base: "base_ok ?s1" "driven_ok ?s1" using assms by (auto simp: base_ok_def oks)
  show ?thesis
  proof (cases "ss_referenceCount s = 0 \<or> Some (json_stringify (effectiveSelector ?s1)) = ss_openedFor s")
    case True
    then have "follow s = ?s1" by (auto simp: follow_def Let_def)
    with base True show ?thesis by (auto simp: sse_ok_def base_ok_def coverage_ok_def pending_def)
  next
    case False
    then have "follow s = openStreams (?s1\<lparr>ss_consumedWatermark := None, ss_raised := ss_raised s @ [RaisedChanging (effectiveSelector ?s1)]\<rparr>)"
      by (simp add: follow_def Let_def)
    moreover have "base_ok (?s1\<lparr>ss_consumedWatermark := None, ss_raised := ss_raised s @ [RaisedChanging (effectiveSelector ?s1)]\<rparr>)"
      using base(1) by (simp add: base_ok_def oks)
    ultimately show ?thesis using openStreams_ok False by simp
  qed
qed

lemma microtask_ok: "sse_ok s \<Longrightarrow> sse_ok (microtask s)"
proof -
  assume ok: "sse_ok s"
  let ?s1 = "s\<lparr>ss_following := False\<rparr>"
  have base: "base_ok ?s1" "driven_ok ?s1" using ok by (auto simp: sse_ok_def base_ok_def oks)
  show ?thesis
  proof (cases "ss_openedFor s \<noteq> None \<and> ss_declared s = []")
    case True
    then have "microtask s = ?s1\<lparr>ss_settling := True\<rparr>" by (simp add: microtask_def Let_def)
    with base True show ?thesis by (auto simp: sse_ok_def base_ok_def oks)
  next
    case False
    then have "microtask s = follow ?s1" by (auto simp: microtask_def Let_def)
    with follow_ok[OF base] show ?thesis by simp
  qed
qed

lemma release_ok: "sse_ok s \<Longrightarrow> sse_ok (release s)"
proof (cases "ss_referenceCount s > 1")
  case True
  assume "sse_ok s"
  with True show ?thesis by (auto simp: release_def sse_ok_def oks)
next
  case False
  assume ok: "sse_ok s"
  let ?s1 = "s\<lparr>ss_referenceCount := 0, ss_generation := ss_generation s + 1, ss_reconnectTimer := None,
        ss_settling := False, ss_reconnectAttempt := 0, ss_consumedWatermark := None, ss_openedFor := None\<rparr>"
  have live: "ss_openSubscriptionId s \<noteq> Some []" using ok by (simp add: sse_ok_def live_ok_def)
  have "ledger_ok (closeStreams ?s1)"
    using ok live by (simp add: sse_ok_def ledger_ok_def in_flight_ids_def closeStreams_released ac_simps)
  moreover have "opens_ok (closeStreams ?s1)" using ok by (fastforce simp: sse_ok_def opens_ok_def)
  moreover have "release s = (closeStreams ?s1)\<lparr>ss_connectionState := Connecting\<rparr>" using False by (simp add: release_def)
  ultimately show ?thesis by (simp add: sse_ok_def oks)
qed

lemma perform_ok:
  assumes "sse_ok s" and "enabled s a"
  shows "sse_ok (perform a s)"
proof (cases a)
  case Acquire
  with assms show ?thesis
    by (auto simp: acquire_def Let_def followDeclarations_def sse_ok_def oks)
next
  case (DeclarePage k sel)
  with declared_ok[OF assms(1), where e = "ss_defaultSelector s"] assms(1) show ?thesis
    by (simp add: declare_page_def split: option.splits)
next
  case (LeavePage k)
  with declared_ok[OF assms(1), where e = "ss_defaultSelector s"] show ?thesis by (simp add: leave_page_def)
next
  case (DeclareDefault sel)
  with declared_ok[OF assms(1), where d = "ss_declared s"] assms(1) show ?thesis
    by (simp add: declare_default_def split: option.splits)
next
  case LeaveDefault
  with declared_ok[OF assms(1), where d = "ss_declared s"] show ?thesis by (simp add: leave_default_def)
next
  case SettleTimer
  with follow_ok sse_ok_base[OF assms(1)] assms(1) show ?thesis by (simp add: sse_ok_def)
next
  case ReconnectTimer
  have "base_ok (s\<lparr>ss_reconnectTimer := None\<rparr>)" using sse_ok_base[OF assms(1)] by (simp add: base_ok_def oks)
  with openStreams_ok ReconnectTimer show ?thesis using assms(1)
    by (auto simp: reconnect_fired_def Let_def sse_ok_def live_ok_def coverage_ok_def driven_ok_def base_ok_def)
next
  case Resubscribe
  have "base_ok (s\<lparr>ss_settling := False, ss_consumedWatermark := None\<rparr>)" using sse_ok_base[OF assms(1)] by (simp add: base_ok_def oks)
  with openStreams_ok Resubscribe assms(1) show ?thesis by (simp add: resubscribe_def)
next
  case (TokenAnswered i ok)
  with assms advance_ok[OF assms(1), of i AwaitResponse] show ?thesis
    by (auto simp: token_answered_def Let_def standing_at_def intro: finish_scheduled_ok finish_superseded_ok)
next
  case (PostAnswered i answer)
  with assms advance_ok[OF assms(1), of i AwaitBody] show ?thesis
    by (auto simp: post_answered_def Let_def standing_at_def intro: finish_scheduled_ok finish_superseded_ok split: post_answer.splits)
next
  case (BodyRead i answer)
  show ?thesis
  proof (cases answer)
    case None
    with BodyRead assms show ?thesis by (auto simp: body_read_def Let_def standing_at_def intro: finish_scheduled_ok)
  next
    case (Some xw)
    obtain x w where xw: "xw = (x, w)" by (cases xw)
    let ?s' = "advance_open i ((ss_opens s ! i)\<lparr>op_phase := AwaitStreamToken, op_granted := Some (x, w)\<rparr>)
       (s\<lparr>ss_granted := ss_granted s @ [x]\<rparr>)"
    from BodyRead Some xw assms have i: "i < length (ss_opens s)" "op_phase (ss_opens s ! i) = AwaitBody" "x \<noteq> []"
      by (auto simp: standing_at_def)
    have ok': "sse_ok ?s'" by (rule granted_ok[OF assms(1) i])
    have "superseded (ss_opens ?s' ! i) ?s' \<longleftrightarrow> superseded (ss_opens s ! i) s" "i < length (ss_opens ?s')"
      using i(1) by (auto simp: superseded_def advance_open_def)
    with ok' show ?thesis unfolding BodyRead Some xw
      using finish_superseded_ok[OF ok'] by (simp add: body_read_def Let_def)
  qed
next
  case (StreamTokenAnswered i ok)
  with assms show ?thesis
    by (auto simp: stream_token_answered_def Let_def standing_at_def intro: finish_scheduled_ok finish_superseded_ok adopt_ok)
next
  case ObjectOpened
  with assms show ?thesis by (simp add: object_opened_def sse_ok_def oks)
next
  case (ObjectEvent e)
  with assms show ?thesis by (auto simp: object_event_def Let_def sse_ok_def oks)
qed (use assms in \<open>simp_all add: release_ok microtask_ok scheduleReconnect_ok\<close>)

lemma reachable_sse_ok: "sse_reachable s \<Longrightarrow> sse_ok s"
proof (induction rule: sse_reachable.induct)
  case start
  show ?case by (simp add: newSse_def sse_ok_def oks List.map_filter_def)
next
  case (move s a)
  then show ?case by (simp add: perform_ok)
qed


lemmas sse_eval = newSse_def acquire_def release_def declare_page_def leave_page_def followDeclarations_def
  follow_def microtask_def resubscribe_def openStreams_def closeStreams_def releaseSubscription_def scheduleReconnect_def
  effectiveSelector_def superseded_def finish_open_def advance_open_def adopt_def token_answered_def post_answered_def
  body_read_def stream_token_answered_def object_opened_def reconnect_delays_def standing_at_def Let_def

subsection \<open>What the pages are promised\<close>

text \<open>C2. No subscription is lost. Every subscription the platform granted has been handed back
  once for each time it was granted, or is held by an open still in flight, or is the live one; the
  attached stream is the live subscription's; and with no page left and no open in flight every one
  granted has been handed back.\<close>

theorem subscriptions_accounted_for:
  assumes "sse_reachable s"
  shows "mset (ss_granted s) = mset (ss_released s) + mset (in_flight_ids s)
       + mset (case ss_openSubscriptionId s of None \<Rightarrow> [] | Some i \<Rightarrow> [i])
     \<and> ss_objectSource s = ss_openSubscriptionId s
     \<and> (ss_referenceCount s = 0 \<and> ss_opens s = [] \<longrightarrow> mset (ss_released s) = mset (ss_granted s))"
  using reachable_sse_ok[OF assms] by (auto simp: sse_ok_def oks List.map_filter_def)

text \<open>An open that gets its subscription, and a page that leaves while another open is in flight.\<close>

definition opened_trace :: "sse_action list" where
  "opened_trace = [Acquire, Microtask, TokenAnswered 0 True, PostAnswered 0 PostOk, BodyRead 0 (Some (''s1'', Dec 7 0)),
     StreamTokenAnswered 0 True, ObjectOpened]"

definition left_trace :: "sse_action list" where
  "left_trace = opened_trace @ [Resubscribe, TokenAnswered 0 True, PostAnswered 0 PostOk, Release,
     BodyRead 0 (Some (''s2'', Dec 9 0))]"

lemma subscriptions_accounted_for_witness:
  "ss_granted (run_actions left_trace newSse) = [''s1'', ''s2''] \<and> mset (ss_released (run_actions left_trace newSse)) = {#''s1'', ''s2''#}"
proof -
  obtain s where s: "s = run_actions left_trace newSse" by blast
  have "all_enabled left_trace newSse" by (simp add: sse_eval left_trace_def opened_trace_def)
  with start have "sse_reachable s" unfolding s by (rule reachable_run)
  moreover have "ss_granted s = [''s1'', ''s2'']" "ss_referenceCount s = 0" "ss_opens s = []"
    by (simp_all add: s sse_eval left_trace_def opened_trace_def)
  ultimately have "mset (ss_released s) = mset (ss_granted s)" "ss_granted s = [''s1'', ''s2'']"
    using subscriptions_accounted_for[of s] by blast+
  then show ?thesis unfolding s[symmetric] by simp
qed

text \<open>C22. The subscription settles on what the pages declared. While a page is mounted and neither a
  microtask nor a settling timer is pending, the streams were last opened for exactly what is
  declared now, and the one open in flight that may still be adopted asks for just that.\<close>

theorem coverage_settles:
  assumes "sse_reachable s"
  shows "(ss_referenceCount s > 0 \<and> \<not> ss_following s \<and> \<not> ss_settling s \<longrightarrow>
        ss_openedFor s = Some (json_stringify (effectiveSelector s)))
     \<and> (\<forall>op\<in>set (ss_opens s). \<not> superseded op s \<longrightarrow> ss_openedFor s = Some (json_stringify (op_selector op)))"
  using reachable_sse_ok[OF assms] by (auto simp: sse_ok_def coverage_ok_def opens_ok_def pending_def superseded_def)

definition site_types :: selector where
  "site_types = JObj [(''types'', JArr [JStr ''Site''])]"

lemma site_types_parsed: "json_parse (json_stringify site_types) = Some site_types"
  by (rule json_parse_stringify') (simp add: site_types_def)

lemma site_types_text: "json_stringify site_types = ''{\"types\":[\"Site\"]}''" "json_stringify WHOLE_MODEL = ''{\"all\":true}''"
  by code_simp+

lemma site_types_differ: "json_stringify site_types \<noteq> json_stringify WHOLE_MODEL"
  unfolding site_types_text by simp

definition declared_trace :: "sse_action list" where
  "declared_trace = [Acquire, Microtask, DeclarePage 0 site_types, Microtask]"

lemma coverage_settles_witness:
  "ss_openedFor (run_actions declared_trace newSse) = Some ''{\"types\":[\"Site\"]}''"
proof -
  obtain s where s: "s = run_actions declared_trace newSse" by blast
  have "all_enabled declared_trace newSse" by (simp add: sse_eval declared_trace_def site_types_parsed)
  with start have "sse_reachable s" unfolding s by (rule reachable_run)
  moreover have "ss_referenceCount s = 1" "\<not> ss_following s" "\<not> ss_settling s" "effectiveSelector s = site_types"
    by (simp_all add: s sse_eval declared_trace_def site_types_parsed site_types_differ)
  ultimately have "ss_openedFor s = Some (json_stringify site_types)" using coverage_settles[of s] by simp
  then show ?thesis unfolding s[symmetric] site_types_text .
qed

text \<open>C23. A mounted page is never left waiting for nothing. While any page is mounted there is a live
  subscription, or an open of the current generation in flight, or a reconnect or a follow that will
  start one.\<close>

theorem never_stuck:
  assumes "sse_reachable s" and "ss_referenceCount s > 0"
  shows "ss_openSubscriptionId s \<noteq> None \<or> (\<exists>op\<in>set (ss_opens s). \<not> superseded op s)
     \<or> ss_reconnectTimer s \<noteq> None \<or> ss_following s"
  using reachable_sse_ok[OF assms(1)] assms(2)
  by (auto simp: sse_ok_def coverage_ok_def driven_ok_def pending_def superseded_def)

lemma never_stuck_witness:
  "ss_reconnectTimer (run_actions [Acquire, Microtask, TokenAnswered 0 False] newSse) \<noteq> None"
proof -
  obtain s where s: "s = run_actions [Acquire, Microtask, TokenAnswered 0 False] newSse" by blast
  have "all_enabled [Acquire, Microtask, TokenAnswered 0 False] newSse" by (simp add: sse_eval)
  with start have "sse_reachable s" unfolding s by (rule reachable_run)
  moreover have "ss_referenceCount s > 0" "ss_openSubscriptionId s = None" "ss_opens s = []" "\<not> ss_following s"
    by (simp_all add: s sse_eval)
  ultimately have "ss_reconnectTimer s \<noteq> None" using never_stuck[of s] by simp
  then show ?thesis unfolding s .
qed

text \<open>The position never rewinds. Except where the coverage changes, the subscription is asked for
  again, or the last page leaves, an action leaves the position in the stream where it was or moves
  it to a larger one.\<close>

lemma watermark_never_rewinds:
  assumes "ss_consumedWatermark s = Some w" and "a \<notin> {Release, Microtask, SettleTimer, Resubscribe}"
  shows "\<exists>w'. ss_consumedWatermark (perform a s) = Some w' \<and> (w' = w \<or> num_lt w w')"
  using assms
  by (cases a)
     (auto simp: acquire_def declare_page_def leave_page_def declare_default_def leave_default_def followDeclarations_def
        reconnect_fired_def token_answered_def post_answered_def body_read_def stream_token_answered_def advance_open_def
        adopt_def object_opened_def object_event_def openStreams_fields Let_def
        split: option.splits post_answer.splits prod.splits)

lemma watermark_never_rewinds_witness:
  "ss_consumedWatermark (run_actions opened_trace newSse) = Some (Dec 7 0)
   \<and> (\<exists>w'. ss_consumedWatermark (perform (ObjectEvent ''12'') (run_actions opened_trace newSse)) = Some w'
       \<and> (w' = Dec 7 0 \<or> num_lt (Dec 7 0) w'))"
proof -
  have at: "ss_consumedWatermark (run_actions opened_trace newSse) = Some (Dec 7 0)"
    by (simp add: sse_eval opened_trace_def)
  with watermark_never_rewinds[OF at, of "ObjectEvent ''12''"] show ?thesis by simp
qed

text \<open>An open that was superseded and then fails still schedules a reconnect, over a live stream: the
  refusal path asks whether the open was superseded first, the rejection path does not.\<close>

definition stale_failure_trace :: "sse_action list" where
  "stale_failure_trace = [Acquire, Microtask, Resubscribe,
     TokenAnswered 1 True, PostAnswered 1 PostOk, BodyRead 1 (Some (''s'', Dec 7 0)), StreamTokenAnswered 1 True, ObjectOpened]"

lemma stale_failure_disturbs_live:
  "all_enabled (stale_failure_trace @ [TokenAnswered 0 False]) newSse
   \<and> superseded (ss_opens (run_actions stale_failure_trace newSse) ! 0) (run_actions stale_failure_trace newSse)
   \<and> ss_connectionState (run_actions stale_failure_trace newSse) = Live
   \<and> ss_reconnectTimer (run_actions stale_failure_trace newSse) = None
   \<and> ss_connectionState (run_actions (stale_failure_trace @ [TokenAnswered 0 False]) newSse) = Lost
   \<and> ss_reconnectTimer (run_actions (stale_failure_trace @ [TokenAnswered 0 False]) newSse) = Some 1000"
  by (simp add: sse_eval stale_failure_trace_def)

end
