(* ===== verification/ModelData.thy ===== *)
theory ModelData
  imports ModelStore Sse
begin

section \<open>Keeping the store with the stream\<close>

text \<open>
  \<open>src/hooks/useModelData.ts\<close>: the shell's handlers of the stream. Changes to Things and
  relationships are buffered and flushed together, 150 milliseconds after the first; a subscription
  that opens, a cleared model and a page changing what it covers are applied at once. The state is
  the store, the buffer, whether the flush timer is set, what the page has selected, and what was
  asked of the other modules. The flash of a changed node or edge is drawing and is left out.
\<close>

subsection \<open>The buffer\<close>

datatype property_change = Given json | Retracted

record pending_changes =
  pd_thingUpserts :: "(string, vos_thing) omap"
  pd_thingRemove :: "string list"
  pd_relationshipUpserts :: "(string, vos_relationship) omap"
  pd_relationshipRemove :: "string list"
  pd_thingProperties :: "(string, (string, property_change) omap) omap"
  pd_relationshipProperties :: "(string, (string, property_change) omap) omap"
  pd_thingStates :: "(string, string list) omap"

definition no_pending :: pending_changes where
  "no_pending = \<lparr>pd_thingUpserts = [], pd_thingRemove = [], pd_relationshipUpserts = [], pd_relationshipRemove = [],
     pd_thingProperties = [], pd_relationshipProperties = [], pd_thingStates = []\<rparr>"

definition recordProperty ::
  "(string, (string, property_change) omap) omap \<Rightarrow> string \<Rightarrow> string \<Rightarrow> property_change
   \<Rightarrow> (string, (string, property_change) omap) omap" where
  "recordProperty buffer entityId propertyName change =
     oput entityId (oput propertyName change (case oget buffer entityId of Some ps \<Rightarrow> ps | None \<Rightarrow> [])) buffer"

text \<open>The property changes of a buffer as the batch takes them: values given, then values retracted.\<close>

definition property_updates :: "(string, (string, property_change) omap) omap \<Rightarrow> (string \<times> string \<times> json) list" where
  "property_updates buffer = concat (map (\<lambda>(i, ps). List.map_filter (\<lambda>(p, c). case c of Given v \<Rightarrow> Some (i, p, v) | Retracted \<Rightarrow> None) ps) buffer)"

definition property_removals :: "(string, (string, property_change) omap) omap \<Rightarrow> (string \<times> string) list" where
  "property_removals buffer = concat (map (\<lambda>(i, ps). List.map_filter (\<lambda>(p, c). case c of Given v \<Rightarrow> None | Retracted \<Rightarrow> Some (i, p)) ps) buffer)"

definition flush_batch :: "pending_changes \<Rightarrow> model_batch" where
  "flush_batch pd = \<lparr>mb_thingUpserts = map snd (pd_thingUpserts pd), mb_thingRemovals = pd_thingRemove pd,
     mb_relationshipUpserts = map snd (pd_relationshipUpserts pd), mb_relationshipRemovals = pd_relationshipRemove pd,
     mb_thingPropertyUpdates = property_updates (pd_thingProperties pd),
     mb_relationshipPropertyUpdates = property_updates (pd_relationshipProperties pd),
     mb_thingPropertyRemovals = property_removals (pd_thingProperties pd),
     mb_relationshipPropertyRemovals = property_removals (pd_relationshipProperties pd),
     mb_thingStateUpdates = pd_thingStates pd\<rparr>"

subsection \<open>The state and the loads\<close>

record model_data =
  md_store :: model_store
  md_pending :: pending_changes
  md_timer :: bool
  md_selectedNodeId :: "string option"
  md_selectedEdgeId :: "string option"
  md_statesMoved :: "string list list"
  md_resubscribed :: nat
  md_reloads :: "bool list"
  md_toasts :: nat

definition newModelData :: model_data where
  "newModelData = \<lparr>md_store = newModelStore, md_pending = no_pending, md_timer = False, md_selectedNodeId = None,
     md_selectedEdgeId = None, md_statesMoved = [], md_resubscribed = 0, md_reloads = [], md_toasts = 0\<rparr>"

text \<open>The properties a load asks for: those the model declares, with the one the navigation reads
  added where any is declared; none where the settings could not be read.\<close>

definition declaredModelLoadProperties :: "string list option \<Rightarrow> string list" where
  "declaredModelLoadProperties settings = (case settings of None \<Rightarrow> []
     | Some declared \<Rightarrow> if declared \<noteq> [] \<and> DASHBOARD_SPECIFICATION_PROPERTY \<notin> set declared
         then declared @ [DASHBOARD_SPECIFICATION_PROPERTY] else declared)"

definition holdsNarrowedSet :: "model_data \<Rightarrow> bool" where
  "holdsNarrowedSet d \<longleftrightarrow> ms_loaded (md_store d) \<and> \<not> ms_holdsWholeModel (md_store d)"

definition leaveANarrowedSet :: "selector \<Rightarrow> model_data \<Rightarrow> model_data" where
  "leaveANarrowedSet sel d = (if selector_all sel \<and> holdsNarrowedSet d then d\<lparr>md_store := clearModel (md_store d)\<rparr> else d)"

text \<open>An array handed to the store, and the store's action on it.\<close>

definition give_things :: "vos_thing list \<Rightarrow> model_store \<Rightarrow> model_store" where
  "give_things ts s = store_step (SetThings (length (ms_thingArrays s))) (store_step (NewThings ts) s)"

definition give_relationships :: "vos_relationship list \<Rightarrow> model_store \<Rightarrow> model_store" where
  "give_relationships rs s = store_step (SetRelationships (length (ms_relationshipArrays s))) (store_step (NewRelationships rs) s)"

text \<open>A whole-model read that answers, and one that fails.\<close>

definition reload_answered :: "vos_thing list \<Rightarrow> vos_relationship list \<Rightarrow> model_data \<Rightarrow> model_data" where
  "reload_answered ts rs d = d\<lparr>md_store := markLoaded True (give_relationships rs (give_things ts (md_store d)))\<rparr>"

definition reload_failed :: "bool \<Rightarrow> model_data \<Rightarrow> model_data" where
  "reload_failed silent d = (if silent then d else d\<lparr>md_toasts := md_toasts d + 1\<rparr>)"

text \<open>A subscription opened: its snapshot is the load, or a whole-model read is started, silent where
  a page is already drawn.\<close>

definition loadWhatOpened :: "covered_objects option \<Rightarrow> model_data \<Rightarrow> model_data" where
  "loadWhatOpened covered d = (case covered of
     Some c \<Rightarrow> d\<lparr>md_store := markLoaded False (seedThingStates (co_thingStates c)
        (give_relationships (co_relationships c) (give_things (co_things c) (md_store d))))\<rparr>
   | None \<Rightarrow> d\<lparr>md_reloads := md_reloads d @ [ms_loaded (md_store d)]\<rparr>)"

subsection \<open>The handlers\<close>

definition schedule :: "model_data \<Rightarrow> model_data" where
  "schedule d = d\<lparr>md_timer := True\<rparr>"

definition flush :: "model_data \<Rightarrow> model_data" where
  "flush d = d\<lparr>md_timer := False, md_pending := no_pending, md_store := applyBatch (flush_batch (md_pending d)) (md_store d)\<rparr>"

text \<open>An empty or absent identifier is nothing to act on.\<close>

definition onThingProperty :: "string option \<Rightarrow> string option \<Rightarrow> property_change \<Rightarrow> model_data \<Rightarrow> model_data" where
  "onThingProperty thingId path change d = (case (thingId, path) of
     (Some i, Some p) \<Rightarrow> if i = [] then d
       else schedule (d\<lparr>md_pending := (md_pending d)\<lparr>pd_thingProperties := recordProperty (pd_thingProperties (md_pending d)) i p change\<rparr>\<rparr>)
   | _ \<Rightarrow> d)"

definition onRelationshipProperty :: "string option \<Rightarrow> string option \<Rightarrow> property_change \<Rightarrow> model_data \<Rightarrow> model_data" where
  "onRelationshipProperty relationshipId name change d = (case (relationshipId, name) of
     (Some i, Some p) \<Rightarrow>
       if i = [] then d
       else if \<not> isVisibleRelationship i (md_selectedNodeId d) (md_selectedEdgeId d) (relationships_of_store (md_store d)) then d
       else schedule (d\<lparr>md_pending := (md_pending d)
              \<lparr>pd_relationshipProperties := recordProperty (pd_relationshipProperties (md_pending d)) i p change\<rparr>\<rparr>)
   | _ \<Rightarrow> d)"

definition thingArrived :: "(vos_thing \<times> string list) option \<Rightarrow> model_data \<Rightarrow> model_data" where
  "thingArrived carried d = (case carried of None \<Rightarrow> d
     | Some (raw, states) \<Rightarrow>
        (let t = unwrapThing raw; pd = md_pending d;
             pd' = pd\<lparr>pd_thingRemove := sdel (tId t) (pd_thingRemove pd), pd_thingUpserts := oput (tId t) t (pd_thingUpserts pd)\<rparr>
         in schedule (d\<lparr>md_pending := (if holdsNarrowedSet d then pd'\<lparr>pd_thingStates := oput (tId t) states (pd_thingStates pd)\<rparr> else pd')\<rparr>)))"

definition thingGone :: "string option \<Rightarrow> model_data \<Rightarrow> model_data" where
  "thingGone entity d = (case entity of None \<Rightarrow> d
     | Some i \<Rightarrow> if i = [] then d
        else (let pd = md_pending d in
          schedule (d\<lparr>md_pending := pd\<lparr>pd_thingUpserts := odel i (pd_thingUpserts pd), pd_thingRemove := sadd i (pd_thingRemove pd)\<rparr>\<rparr>)))"

definition relationshipArrived :: "vos_relationship option \<Rightarrow> model_data \<Rightarrow> model_data" where
  "relationshipArrived carried d = (case carried of None \<Rightarrow> d
     | Some raw \<Rightarrow>
        (let r = unwrapRelationship raw; pd = md_pending d in
         schedule (d\<lparr>md_pending := pd\<lparr>pd_relationshipRemove := sdel (rId r) (pd_relationshipRemove pd),
            pd_relationshipUpserts := oput (rId r) r (pd_relationshipUpserts pd)\<rparr>\<rparr>)))"

definition relationshipGone :: "string option \<Rightarrow> model_data \<Rightarrow> model_data" where
  "relationshipGone entity d = (case entity of None \<Rightarrow> d
     | Some i \<Rightarrow> if i = [] then d
        else (let pd = md_pending d in
          schedule (d\<lparr>md_pending := pd\<lparr>pd_relationshipUpserts := odel i (pd_relationshipUpserts pd),
             pd_relationshipRemove := sadd i (pd_relationshipRemove pd)\<rparr>\<rparr>)))"

text \<open>A change of states: the entity, its states now, and those it left. One missing its entity or
  its set is nothing.\<close>

definition stateChange :: "string option \<Rightarrow> string list option \<Rightarrow> string list option \<Rightarrow> (string \<times> string list \<times> string list) option" where
  "stateChange entity current exited = (case (entity, current) of
     (Some i, Some states) \<Rightarrow> if i = [] then None else Some (i, states, case exited of None \<Rightarrow> [] | Some e \<Rightarrow> e)
   | _ \<Rightarrow> None)"

definition statesTouched :: "(string \<times> string list \<times> string list) option \<Rightarrow> string list" where
  "statesTouched change = (case change of Some (i, states, exited) \<Rightarrow> states @ exited | None \<Rightarrow> [])"

definition statesChanged :: "(string \<times> string list \<times> string list) option \<Rightarrow> model_data \<Rightarrow> model_data" where
  "statesChanged change d =
     (let d1 = d\<lparr>md_statesMoved := md_statesMoved d @ [statesTouched change]\<rparr> in
      case change of
        Some (i, states, exited) \<Rightarrow> if holdsNarrowedSet d1
          then schedule (d1\<lparr>md_pending := (md_pending d1)\<lparr>pd_thingStates := oput i states (pd_thingStates (md_pending d1))\<rparr>\<rparr>) else d1
      | None \<Rightarrow> d1)"

definition relationshipStatesChanged :: "(string \<times> string list \<times> string list) option \<Rightarrow> model_data \<Rightarrow> model_data" where
  "relationshipStatesChanged change d = d\<lparr>md_statesMoved := md_statesMoved d @ [statesTouched change]\<rparr>"

text \<open>The events, by the handler each is registered with: \<open>ThingCreated\<close> and \<open>ThingEntered\<close> are
  arrivals, \<open>ThingDeleted\<close> and \<open>ThingLeft\<close> departures, and so for relationships.\<close>

datatype stream_event =
    ThingArrives "(vos_thing \<times> string list) option" | ThingGoes "string option"
  | RelationshipArrives "vos_relationship option" | RelationshipGoes "string option"
  | ThingProperty "string option" "string option" property_change
  | RelationshipProperty "string option" "string option" property_change
  | SubscriptionChanging selector | SubscriptionOpens "covered_objects option"
  | ModelChanged | ModelCleared
  | StatesChanged "string option" "string list option" "string list option"
  | RelationshipStatesChanged "string option" "string list option" "string list option"

fun on_event :: "stream_event \<Rightarrow> model_data \<Rightarrow> model_data" where
  "on_event (ThingArrives carried) d = thingArrived carried d"
| "on_event (ThingGoes entity) d = thingGone entity d"
| "on_event (RelationshipArrives carried) d = relationshipArrived carried d"
| "on_event (RelationshipGoes entity) d = relationshipGone entity d"
| "on_event (ThingProperty i p c) d = onThingProperty i p c d"
| "on_event (RelationshipProperty i p c) d = onRelationshipProperty i p c d"
| "on_event (SubscriptionChanging sel) d = leaveANarrowedSet sel d"
| "on_event (SubscriptionOpens covered) d = loadWhatOpened covered d"
| "on_event ModelChanged d = d\<lparr>md_resubscribed := md_resubscribed d + 1\<rparr>"
| "on_event ModelCleared d = d\<lparr>md_store := clearModel (md_store d)\<rparr>"
| "on_event (StatesChanged i c e) d = statesChanged (stateChange i c e) d"
| "on_event (RelationshipStatesChanged i c e) d = relationshipStatesChanged (stateChange i c e) d"

definition window :: "stream_event list \<Rightarrow> model_data \<Rightarrow> model_data" where
  "window es d = foldl (\<lambda>d e. on_event e d) d es"

subsection \<open>A window of changes, applied together or one by one\<close>

text \<open>A Thing as a reader sees it: its properties as a map, whatever order they were written in.\<close>

definition snapshot :: "vos_thing \<Rightarrow> vos_thing \<times> (string \<rightharpoonup> json)" where
  "snapshot t = (t\<lparr>tProperties := []\<rparr>, oget (tProperties t))"

definition change_snapshot :: "string \<Rightarrow> property_change \<Rightarrow> vos_thing \<times> (string \<rightharpoonup> json) \<Rightarrow> vos_thing \<times> (string \<rightharpoonup> json)" where
  "change_snapshot p c s = (fst s, (snd s)(p := (case c of Given v \<Rightarrow> Some v | Retracted \<Rightarrow> None)))"

text \<open>What one event says of the Things held, applied on its own.\<close>

fun live_things :: "stream_event \<Rightarrow> (string \<rightharpoonup> vos_thing \<times> (string \<rightharpoonup> json)) \<Rightarrow> (string \<rightharpoonup> vos_thing \<times> (string \<rightharpoonup> json))" where
  "live_things (ThingArrives (Some (raw, states))) m = m(tId raw \<mapsto> snapshot (unwrapThing raw))"
| "live_things (ThingGoes (Some i)) m = (if i = [] then m else m(i := None))"
| "live_things (ThingProperty (Some i) (Some p) c) m = (if i = [] then m else m(i := map_option (change_snapshot p c) (m i)))"
| "live_things _ m = m"

text \<open>The events that are buffered, and a window in which no Thing arrives after a property of it
  changed.\<close>

fun buffered :: "stream_event \<Rightarrow> bool" where
  "buffered (SubscriptionChanging sel) \<longleftrightarrow> False"
| "buffered (SubscriptionOpens c) \<longleftrightarrow> False"
| "buffered ModelCleared \<longleftrightarrow> False"
| "buffered _ \<longleftrightarrow> True"

fun no_late_arrival :: "string list \<Rightarrow> stream_event list \<Rightarrow> bool" where
  "no_late_arrival changed [] \<longleftrightarrow> True"
| "no_late_arrival changed (ThingArrives (Some (raw, states)) # es) \<longleftrightarrow> tId raw \<notin> set changed \<and> no_late_arrival changed es"
| "no_late_arrival changed (ThingProperty (Some i) p c # es) \<longleftrightarrow> no_late_arrival (i # changed) es"
| "no_late_arrival changed (_ # es) \<longleftrightarrow> no_late_arrival changed es"

definition changes_of :: "pending_changes \<Rightarrow> string \<Rightarrow> (string, property_change) omap" where
  "changes_of pd i = (case oget (pd_thingProperties pd) i of None \<Rightarrow> [] | Some ps \<Rightarrow> ps)"

definition overlay :: "(string, property_change) omap \<Rightarrow> vos_thing \<times> (string \<rightharpoonup> json) \<Rightarrow> vos_thing \<times> (string \<rightharpoonup> json)" where
  "overlay ps s = (fst s, \<lambda>p. case oget ps p of None \<Rightarrow> snd s p | Some (Given v) \<Rightarrow> Some v | Some Retracted \<Rightarrow> None)"

text \<open>What a buffer says of the Things held, over what was held when it was empty.\<close>

definition pending_things ::
  "pending_changes \<Rightarrow> (string \<rightharpoonup> vos_thing \<times> (string \<rightharpoonup> json)) \<Rightarrow> (string \<rightharpoonup> vos_thing \<times> (string \<rightharpoonup> json))" where
  "pending_things pd base i = map_option (overlay (changes_of pd i))
     (case oget (pd_thingUpserts pd) i of Some t \<Rightarrow> Some (snapshot t)
      | None \<Rightarrow> if i \<in> set (pd_thingRemove pd) then None else base i)"

definition pending_ok :: "pending_changes \<Rightarrow> bool" where
  "pending_ok pd \<longleftrightarrow> keyed tId (pd_thingUpserts pd) \<and> okeys_distinct (pd_thingProperties pd)
     \<and> (\<forall>ips\<in>set (pd_thingProperties pd). okeys_distinct (snd ips))"

lemma overlay_Nil [simp]: "overlay [] s = s"
  by (simp add: overlay_def)

lemma overlay_oput: "overlay (oput p c ps) s = change_snapshot p c (overlay ps s)"
  by (auto simp: overlay_def change_snapshot_def fun_eq_iff split: property_change.splits)

lemma overlay_oput_fun: "overlay (oput p c ps) = (\<lambda>s. change_snapshot p c (overlay ps s))"
  by (rule ext) (rule overlay_oput)

lemma tId_unwrapThing [simp]: "tId (unwrapThing t) = tId t"
  by (simp add: unwrapThing_def)

lemma changes_recorded:
  "changes_of (pd\<lparr>pd_thingProperties := recordProperty (pd_thingProperties pd) i p c\<rparr>) j
     = (if j = i then oput p c (changes_of pd i) else changes_of pd j)"
  by (auto simp: changes_of_def recordProperty_def split: option.splits)

lemma recorded_ok: "pending_ok pd \<Longrightarrow> pending_ok (pd\<lparr>pd_thingProperties := recordProperty (pd_thingProperties pd) i p c\<rparr>)"
proof -
  assume ok: "pending_ok pd"
  have "okeys_distinct (case oget (pd_thingProperties pd) i of Some ps \<Rightarrow> ps | None \<Rightarrow> [])"
    using ok by (force simp: pending_ok_def dest: map_of_SomeD split: option.splits)
  with ok show ?thesis by (auto simp: pending_ok_def recordProperty_def dest!: set_oput)
qed

lemma buffered_event:
  assumes "buffered e" and "pending_ok (md_pending d)" and "case e of ThingArrives (Some (raw, st)) \<Rightarrow> changes_of (md_pending d) (tId raw) = [] | _ \<Rightarrow> True"
  shows "pending_things (md_pending (on_event e d)) base = live_things e (pending_things (md_pending d) base)"
    and "pending_ok (md_pending (on_event e d))" and "md_store (on_event e d) = md_store d"
    and "\<And>j. changes_of (md_pending (on_event e d)) j \<noteq> [] \<Longrightarrow> changes_of (md_pending d) j \<noteq> [] \<or> (\<exists>p c. e = ThingProperty (Some j) p c)"
proof -
  have "pending_things (md_pending (on_event e d)) base = live_things e (pending_things (md_pending d) base)
    \<and> pending_ok (md_pending (on_event e d)) \<and> md_store (on_event e d) = md_store d
    \<and> (\<forall>j. changes_of (md_pending (on_event e d)) j \<noteq> [] \<longrightarrow> changes_of (md_pending d) j \<noteq> [] \<or> (\<exists>p c. e = ThingProperty (Some j) p c))"
  proof (cases e)
    case (ThingArrives carried)
    then show ?thesis using assms
      by (auto simp: thingArrived_def schedule_def Let_def pending_ok_def pending_things_def changes_of_def fun_eq_iff split: option.splits)
  next
    case (ThingGoes entity)
    then show ?thesis using assms
      by (auto simp: thingGone_def schedule_def Let_def pending_ok_def pending_things_def changes_of_def fun_eq_iff split: option.splits)
  next
    case (RelationshipArrives carried)
    then show ?thesis using assms
      by (auto simp: relationshipArrived_def schedule_def Let_def pending_ok_def pending_things_def changes_of_def fun_eq_iff split: option.splits)
  next
    case (RelationshipGoes entity)
    then show ?thesis using assms
      by (auto simp: relationshipGone_def schedule_def Let_def pending_ok_def pending_things_def changes_of_def fun_eq_iff split: option.splits)
  next
    case (ThingProperty i p c)
    show ?thesis
    proof (cases "\<exists>i' p'. i = Some i' \<and> p = Some p' \<and> i' \<noteq> []")
      case True
      then obtain i' p' where ip: "i = Some i'" "p = Some p'" "i' \<noteq> []" by blast
      then have pd: "md_pending (on_event e d) = (md_pending d)\<lparr>pd_thingProperties := recordProperty (pd_thingProperties (md_pending d)) i' p' c\<rparr>"
        "md_store (on_event e d) = md_store d"
        by (simp_all add: ThingProperty onThingProperty_def schedule_def)
      have "pending_things (md_pending (on_event e d)) base = live_things e (pending_things (md_pending d) base)"
        unfolding pd unfolding ThingProperty ip
        using ip(3) by (auto simp: fun_eq_iff pending_things_def changes_recorded overlay_oput_fun option.map_comp comp_def)
      then show ?thesis using recorded_ok[OF assms(2)] pd
        by (auto simp: changes_recorded ThingProperty ip split: if_splits)
    next
      case False
      then have "on_event e d = d" "live_things e m = m" for m
        by (auto simp: ThingProperty onThingProperty_def split: option.splits) (cases i; cases p; auto)
      with assms(2) show ?thesis by simp
    qed
  next
    case (RelationshipProperty i p c)
    then show ?thesis using assms
      by (auto simp: onRelationshipProperty_def schedule_def Let_def pending_ok_def pending_things_def changes_of_def fun_eq_iff split: option.splits)
  next
    case (StatesChanged i c x)
    then show ?thesis using assms
      by (auto simp: statesChanged_def schedule_def Let_def pending_ok_def pending_things_def changes_of_def fun_eq_iff split: option.splits)
  next
    case (RelationshipStatesChanged i c x)
    then show ?thesis using assms
      by (auto simp: relationshipStatesChanged_def)
  qed (use assms in simp_all)
  then show "pending_things (md_pending (on_event e d)) base = live_things e (pending_things (md_pending d) base)"
    and "pending_ok (md_pending (on_event e d))" and "md_store (on_event e d) = md_store d"
    and "\<And>j. changes_of (md_pending (on_event e d)) j \<noteq> [] \<Longrightarrow> changes_of (md_pending d) j \<noteq> [] \<or> (\<exists>p c. e = ThingProperty (Some j) p c)"
    by blast+
qed


lemma window_pending:
  assumes "list_all buffered es" and "no_late_arrival changed es" and "pending_ok (md_pending d)"
    and "\<And>j. changes_of (md_pending d) j \<noteq> [] \<Longrightarrow> j \<in> set changed"
  shows "pending_things (md_pending (window es d)) base = foldl (\<lambda>m e. live_things e m) (pending_things (md_pending d) base) es
    \<and> pending_ok (md_pending (window es d)) \<and> md_store (window es d) = md_store d"
  using assms
proof (induction es arbitrary: changed d)
  case Nil
  then show ?case by (simp add: window_def)
next
  case (Cons e es)
  have arr: "case e of ThingArrives (Some (raw, st)) \<Rightarrow> changes_of (md_pending d) (tId raw) = [] | _ \<Rightarrow> True"
  proof -
    have "changes_of (md_pending d) j = []" if "j \<notin> set changed" for j using Cons.prems(4) that by blast
    with Cons.prems(2) show ?thesis by (auto split: stream_event.splits option.splits)
  qed
  have e: "buffered e" using Cons.prems(1) by simp
  note step = buffered_event[OF e Cons.prems(3) arr]
  let ?changed = "case e of ThingProperty (Some i) p c \<Rightarrow> i # changed | _ \<Rightarrow> changed"
  have late: "no_late_arrival ?changed es"
    using Cons.prems(2) by (cases "(changed, e # es)" rule: no_late_arrival.cases) auto
  have mine: "j \<in> set ?changed" if "changes_of (md_pending (on_event e d)) j \<noteq> []" for j
    using step(4)[OF that] Cons.prems(4)[of j] by (auto split: stream_event.splits option.splits)
  have rest: "list_all buffered es" using Cons.prems(1) by simp
  from Cons.IH[OF rest late step(2) mine] step(1,3) show ?case by (simp add: window_def)
qed

subsection \<open>The flush\<close>

lemma find_keyed: "keyed ident m \<Longrightarrow> List.find (\<lambda>x. ident x = i) (rev (map snd m)) = oget m i"
proof -
  assume m: "keyed ident m"
  have "List.find (\<lambda>x. ident x = i) (map snd m') = oget m' i" if "\<forall>kv\<in>set m'. ident (snd kv) = fst kv" for m'
    using that by (induction m') auto
  from this[of "rev m"] m show ?thesis by (simp add: keyed_def oget_rev_distinct rev_map)
qed

lemma filter_entity:
  assumes "okeys_distinct buffer" and "\<And>ips r. r \<in> set (g ips) \<Longrightarrow> fst r = fst ips"
  shows "filter (\<lambda>r. fst r = i) (concat (map g buffer)) = (case oget buffer i of None \<Rightarrow> [] | Some ps \<Rightarrow> g (i, ps))"
  using assms(1)
proof (induction buffer)
  case (Cons ips buffer)
  obtain j ps where ips: "ips = (j, ps)" by (cases ips)
  have own: "filter (\<lambda>r. fst r = i) (g (j, ps)) = (if j = i then g (j, ps) else [])"
    using assms(2)[of _ "(j, ps)"] by (auto simp: filter_empty_conv intro!: filter_True)
  from Cons.prems ips have "okeys_distinct buffer" "oget buffer j = None" by (auto simp: okeys_distinct_def map_of_eq_None_iff)
  with Cons.IH own ips show ?case by (auto split: option.splits)
qed simp

lemma flush_updates:
  "okeys_distinct (pd_thingProperties pd) \<Longrightarrow> filter (\<lambda>r. fst r = i) (mb_thingPropertyUpdates (flush_batch pd))
     = List.map_filter (\<lambda>(p, c). case c of Given v \<Rightarrow> Some (i, p, v) | Retracted \<Rightarrow> None) (changes_of pd i)"
  unfolding flush_batch_def changes_of_def property_updates_def model_batch.simps
  by (subst filter_entity) (auto simp: List.map_filter_def split: option.splits property_change.splits)

lemma flush_removals:
  "okeys_distinct (pd_thingProperties pd) \<Longrightarrow> filter (\<lambda>r. fst r = i) (mb_thingPropertyRemovals (flush_batch pd))
     = List.map_filter (\<lambda>(p, c). case c of Given v \<Rightarrow> None | Retracted \<Rightarrow> Some (i, p)) (changes_of pd i)"
  unfolding flush_batch_def changes_of_def property_removals_def model_batch.simps
  by (subst filter_entity) (auto simp: List.map_filter_def split: option.splits property_change.splits)

lemma snapshot_update [simp]: "snapshot (applyThingPropertyUpdate t p v) = (fst (snapshot t), (snd (snapshot t))(p \<mapsto> v))"
  by (simp add: snapshot_def applyThingPropertyUpdate_def)

lemma snapshot_removal [simp]: "snapshot (applyThingPropertyRemoval t p) = (fst (snapshot t), (snd (snapshot t))(p := None))"
proof -
  have "oget (tProperties (applyThingPropertyRemoval t p)) = (oget (tProperties t))(p := None)" by simp
  moreover have "(applyThingPropertyRemoval t p)\<lparr>tProperties := []\<rparr> = t\<lparr>tProperties := []\<rparr>"
    by (simp add: applyThingPropertyRemoval_def)
  ultimately show ?thesis by (simp add: snapshot_def)
qed

lemma snapshot_updates:
  "okeys_distinct ps \<Longrightarrow>
   snapshot (foldl (\<lambda>t (j, p, v). applyThingPropertyUpdate t p v) t
      (List.map_filter (\<lambda>(p, c). case c of Given v \<Rightarrow> Some (i, p, v) | Retracted \<Rightarrow> None) ps))
     = (fst (snapshot t), \<lambda>p. case oget ps p of Some (Given v) \<Rightarrow> Some v | _ \<Rightarrow> snd (snapshot t) p)"
proof (induction ps arbitrary: t)
  case (Cons pc ps)
  obtain p c where pc: "pc = (p, c)" by (cases pc)
  with Cons.prems have ps: "okeys_distinct ps" "oget ps p = None" by (auto simp: okeys_distinct_def map_of_eq_None_iff)
  show ?case
  proof (cases c)
    case (Given v)
    with Cons.IH[OF ps(1), of "applyThingPropertyUpdate t p v"] pc ps(2) show ?thesis
      by (auto simp: List.map_filter_simps fun_eq_iff split: option.splits property_change.splits)
  next
    case Retracted
    with Cons.IH[OF ps(1), of t] pc ps(2) show ?thesis
      by (auto simp: List.map_filter_simps fun_eq_iff split: option.splits property_change.splits)
  qed
qed (simp add: List.map_filter_simps)

lemma snapshot_removals:
  "snapshot (foldl (\<lambda>t (j, p). applyThingPropertyRemoval t p) t
      (List.map_filter (\<lambda>(p, c). case c of Given v \<Rightarrow> None | Retracted \<Rightarrow> Some (i, p)) ps))
     = (fst (snapshot t), \<lambda>p. if (p, Retracted) \<in> set ps then None else snd (snapshot t) p)"
proof (induction ps arbitrary: t)
  case (Cons pc ps)
  obtain p c where pc: "pc = (p, c)" by (cases pc)
  show ?case
  proof (cases c)
    case (Given v)
    with Cons.IH[of t] pc show ?thesis by (simp add: List.map_filter_simps)
  next
    case Retracted
    with Cons.IH[of "applyThingPropertyRemoval t p"] pc show ?thesis
      by (auto simp: List.map_filter_simps fun_eq_iff)
  qed
qed (simp add: List.map_filter_simps)

lemma snapshot_revised:
  assumes "pending_ok pd"
  shows "snapshot (revised (flush_batch pd) i t) = overlay (changes_of pd i) (snapshot t)"
proof -
  let ?ps = "changes_of pd i"
  have ps: "okeys_distinct ?ps" using assms by (force simp: pending_ok_def changes_of_def dest: map_of_SomeD split: option.splits)
  have member: "(p, Retracted) \<in> set ?ps \<longleftrightarrow> oget ?ps p = Some Retracted" for p
    using ps by (simp add: okeys_distinct_def)
  have f: "filter (\<lambda>(j, p, v). j = i) xs = filter (\<lambda>r. fst r = i) xs" for xs :: "(string \<times> string \<times> json) list"
    by (simp add: split_def)
  have g: "filter (\<lambda>(j, p). j = i) xs = filter (\<lambda>r. fst r = i) xs" for xs :: "(string \<times> string) list"
    by (simp add: split_def)
  have "okeys_distinct (pd_thingProperties pd)" using assms by (simp add: pending_ok_def)
  then show ?thesis
    unfolding revised_def f g
    by (auto simp: flush_updates flush_removals snapshot_removals snapshot_updates[OF ps] member overlay_def fun_eq_iff
        split: option.splits property_change.splits)
qed

text \<open>C6. A window applied together is the window applied one by one. For any window of buffered
  events in which no Thing arrives after a property of it changed, flushing the buffer leaves under
  every identifier the Thing that applying each event on its own would: the same Thing with the same
  value for every property.\<close>

theorem flush_coalesces:
  assumes "store_reachable (md_store d)" and "md_pending d = no_pending"
    and "list_all buffered es" and "no_late_arrival [] es"
  shows "map_option snapshot (oget (by_id tId (things_of_store (md_store (flush (window es d))))) i)
     = foldl (\<lambda>m e. live_things e m) (\<lambda>i. map_option snapshot (oget (by_id tId (things_of_store (md_store d))) i)) es i"
proof -
  let ?base = "\<lambda>i. map_option snapshot (oget (by_id tId (things_of_store (md_store d))) i)"
  let ?pd = "md_pending (window es d)"
  have empty: "pending_ok (md_pending d)" "changes_of (md_pending d) j = []" for j
    by (simp_all add: assms(2) no_pending_def pending_ok_def changes_of_def)
  have start: "pending_things (md_pending d) ?base = ?base"
    by (simp add: fun_eq_iff pending_things_def assms(2) no_pending_def changes_of_def option.map_comp comp_def option.map_ident)
  have w: "pending_things ?pd ?base = foldl (\<lambda>m e. live_things e m) ?base es" "pending_ok ?pd" "md_store (window es d) = md_store d"
    using window_pending[OF assms(3,4) empty(1), of ?base] empty(2) start by simp_all
  have up: "upserted (flush_batch ?pd) i = oget (pd_thingUpserts ?pd) i"
    using find_keyed[of tId "pd_thingUpserts ?pd" i] w(2) by (simp add: upserted_def flush_batch_def pending_ok_def)
  have snap: "map_option snapshot (map_option (revised (flush_batch ?pd) i) x) = map_option (overlay (changes_of ?pd i)) (map_option snapshot x)" for x
    by (cases x) (simp_all add: snapshot_revised[OF w(2)])
  have store: "md_store (flush (window es d)) = applyBatch (flush_batch ?pd) (md_store d)" by (simp add: flush_def w(3))
  have gone: "mb_thingRemovals (flush_batch ?pd) = pd_thingRemove ?pd" by (simp add: flush_batch_def)
  have "map_option snapshot (oget (by_id tId (things_of_store (md_store (flush (window es d))))) i) = pending_things ?pd ?base i"
    using applyBatch_things_lookup[OF reachable_ok[OF assms(1)], of "flush_batch ?pd" i]
    by (simp add: store up snap gone pending_things_def split: option.splits)
  with w(1) show ?thesis by simp
qed


definition sample_window :: "stream_event list" where
  "sample_window = [ThingArrives (Some (sample_vos_thing ''t'', [])), ThingProperty (Some ''t'') (Some ''p'') (Given (JBool False)),
     ThingProperty (Some ''t'') (Some ''q'') (Given (JBool False)), ThingProperty (Some ''t'') (Some ''p'') Retracted,
     ThingGoes (Some ''u'')]"

lemma flush_coalesces_witness:
  "map_option snd (map_option snapshot (oget (by_id tId (things_of_store (md_store (flush (window sample_window newModelData))))) ''t''))
     = Some [''q'' \<mapsto> JBool False]"
proof -
  have "store_reachable (md_store newModelData)" by (simp add: newModelData_def store_reachable.initial)
  moreover have "md_pending newModelData = no_pending" "list_all buffered sample_window" "no_late_arrival [] sample_window"
    by (simp_all add: newModelData_def sample_window_def)
  ultimately have both: "map_option snapshot (oget (by_id tId (things_of_store (md_store (flush (window sample_window newModelData))))) ''t'')
      = foldl (\<lambda>m e. live_things e m) (\<lambda>i. map_option snapshot (oget (by_id tId (things_of_store (md_store newModelData))) i)) sample_window ''t''"
    by (rule flush_coalesces)
  show ?thesis unfolding both
    by (simp add: sample_window_def change_snapshot_def snapshot_def unwrapThing_def unwrapProperties_def sample_vos_thing_def fun_eq_iff)
qed

text \<open>A window outside that condition. A Thing leaves what the page covers and comes back with its
  property changed, all in one window: the older change, still in the buffer, is written over the
  value the arrival carried.\<close>

definition late_window :: "stream_event list" where
  "late_window = [ThingProperty (Some ''t'') (Some ''p'') (Given (JBool False)), ThingGoes (Some ''t''),
     ThingArrives (Some ((sample_vos_thing ''t'')\<lparr>tProperties := [(''p'', JBool True)]\<rparr>, []))]"

lemma late_arrival_overwritten:
  "map_option tProperties (oget (by_id tId (things_of_store (md_store (flush (window late_window newModelData))))) ''t'')
     = Some [(''p'', JBool False)]
   \<and> map_option snd (foldl (\<lambda>m e. live_things e m) (\<lambda>i. None) late_window ''t'') = Some [''p'' \<mapsto> JBool True]"
proof
  show "map_option tProperties (oget (by_id tId (things_of_store (md_store (flush (window late_window newModelData))))) ''t'')
     = Some [(''p'', JBool False)]" by code_simp
  show "map_option snd (foldl (\<lambda>m e. live_things e m) (\<lambda>i. None) late_window ''t'') = Some [''p'' \<mapsto> JBool True]"
    by (simp add: late_window_def snapshot_def unwrapThing_def unwrapProperties_def unwrapPropertyValue_def sample_vos_thing_def fun_eq_iff)
qed

subsection \<open>The pages are never shown a narrower set as the whole model\<close>

text \<open>What counts as the whole model. When a page asks for the whole model while a narrowed set is
  held, the store is emptied at once; a snapshot loaded by a subscription is always marked as a
  narrowed set, and nothing but a whole-model read that answered marks the store as whole.\<close>

lemma narrowed_never_whole:
  "\<not> holdsNarrowedSet (leaveANarrowedSet WHOLE_MODEL d)
   \<and> (holdsNarrowedSet d \<longrightarrow> things_of_store (md_store (leaveANarrowedSet WHOLE_MODEL d)) = [])
   \<and> \<not> ms_holdsWholeModel (md_store (on_event (SubscriptionOpens (Some c)) d))
   \<and> (ms_holdsWholeModel (md_store (on_event e d)) \<longrightarrow> ms_holdsWholeModel (md_store d))
   \<and> (ms_holdsWholeModel (md_store (flush d)) \<longleftrightarrow> ms_holdsWholeModel (md_store d))"
proof (intro conjI)
  have all: "selector_all WHOLE_MODEL" by code_simp
  show "\<not> holdsNarrowedSet (leaveANarrowedSet WHOLE_MODEL d)"
    by (auto simp: leaveANarrowedSet_def holdsNarrowedSet_def all clearModel_def)
  show "holdsNarrowedSet d \<longrightarrow> things_of_store (md_store (leaveANarrowedSet WHOLE_MODEL d)) = []"
    by (simp add: leaveANarrowedSet_def all clearModel_def things_of_store_def)
  show "\<not> ms_holdsWholeModel (md_store (on_event (SubscriptionOpens (Some c)) d))"
    by (simp add: loadWhatOpened_def markLoaded_def)
  have clear: "\<not> ms_holdsWholeModel (clearModel s)" for s by (simp add: clearModel_def)
  show "ms_holdsWholeModel (md_store (on_event e d)) \<longrightarrow> ms_holdsWholeModel (md_store d)"
    by (cases e)
       (auto simp: thingArrived_def thingGone_def relationshipArrived_def relationshipGone_def onThingProperty_def
          onRelationshipProperty_def statesChanged_def relationshipStatesChanged_def schedule_def leaveANarrowedSet_def
          loadWhatOpened_def markLoaded_def clear Let_def split: option.splits if_splits)
  show "ms_holdsWholeModel (md_store (flush d)) \<longleftrightarrow> ms_holdsWholeModel (md_store d)"
    by (simp add: flush_def applyBatch_def Let_def case_prod_beta)
qed

lemma narrowed_never_whole_witness:
  "let d = on_event (SubscriptionOpens (Some \<lparr>co_things = [sample_vos_thing ''t''], co_relationships = [], co_thingStates = []\<rparr>)) newModelData in
   holdsNarrowedSet d \<and> things_of_store (md_store (leaveANarrowedSet WHOLE_MODEL d)) = []"
proof -
  let ?d = "on_event (SubscriptionOpens (Some \<lparr>co_things = [sample_vos_thing ''t''], co_relationships = [], co_thingStates = []\<rparr>)) newModelData"
  have "holdsNarrowedSet ?d" by (simp add: holdsNarrowedSet_def loadWhatOpened_def markLoaded_def)
  with narrowed_never_whole[of ?d] show ?thesis by (simp add: Let_def del: on_event.simps)
qed


end
