(* ===== verification/EffectiveProperties.thy ===== *)
theory EffectiveProperties
  imports VosTypes
begin

section \<open>What a Thing resolves along its archetypes\<close>

text \<open>
  The resolution of \<open>src/utils/propertyMapper.ts\<close> (\<open>effectiveProperties\<close>, \<open>effectiveDerivedDefinitions\<close>)
  and of \<open>src/utils/propertyOrigin.ts\<close> (\<open>valueOrigin\<close>). The first two walk the \<open>is\<close> chain with a set
  of identifiers being visited, written and unwritten around each recursion, and the first keeps every
  result it computes: both are threaded through as the state here. The walk is on fuel, \<open>None\<close> where
  it runs out; how much is enough is proved below. A result is kept by the Thing it is of, which is its
  identifier: a lookup holds one Thing for each. \<open>lc\<close> is \<open>localeCompare\<close>.
\<close>

record is_lookup =
  il_byId :: "(string, vos_thing) omap"
  il_isParents :: "(string, string list) omap"

text \<open>The Things a Thing directly \<open>is\<close>, those the lookup holds. A Thing without an identifier has none.\<close>

definition held_parents :: "is_lookup \<Rightarrow> vos_thing \<Rightarrow> vos_thing list" where
  "held_parents l t = (if tId t = [] then [] else
     List.map_filter (oget (il_byId l)) (case oget (il_isParents l) (tId t) of Some ids \<Rightarrow> ids | None \<Rightarrow> []))"

abbreviation by_name :: "(string \<Rightarrow> string \<Rightarrow> int) \<Rightarrow> vos_thing list \<Rightarrow> vos_thing list" where
  "by_name lc \<equiv> sort_by (\<lambda>a b. lc (tName a) (tName b))"

definition parents_to_fold :: "(string \<Rightarrow> string \<Rightarrow> int) \<Rightarrow> is_lookup \<Rightarrow> vos_thing \<Rightarrow> string list \<Rightarrow> vos_thing list" where
  "parents_to_fold lc l t visiting = by_name lc (filter (\<lambda>p. tId p \<notin> set visiting) (held_parents l t))"

text \<open>One fold per parent, the state running on from each to the next.\<close>

fun fold_parents ::
  "(vos_thing \<Rightarrow> string list \<times> 'c \<Rightarrow> ('r \<times> string list \<times> 'c) option) \<Rightarrow> ('r \<Rightarrow> 'r \<Rightarrow> 'r)
   \<Rightarrow> vos_thing list \<Rightarrow> 'r \<times> string list \<times> 'c \<Rightarrow> ('r \<times> string list \<times> 'c) option" where
  "fold_parents resolve merge [] st = Some st"
| "fold_parents resolve merge (p # ps) (merged, st) = (case resolve p st of None \<Rightarrow> None
     | Some (r, st') \<Rightarrow> fold_parents resolve merge ps (merge merged r, st'))"

definition foldInAncestors ::
  "(string \<Rightarrow> string \<Rightarrow> int) \<Rightarrow> is_lookup \<Rightarrow> vos_thing
   \<Rightarrow> (vos_thing \<Rightarrow> string list \<times> 'c \<Rightarrow> ('r \<times> string list \<times> 'c) option) \<Rightarrow> ('r \<Rightarrow> 'r \<Rightarrow> 'r)
   \<Rightarrow> 'r \<times> string list \<times> 'c \<Rightarrow> ('r \<times> string list \<times> 'c) option" where
  "foldInAncestors lc l t resolve merge st =
     (case st of (merged, visiting, c) \<Rightarrow>
       (let ps = parents_to_fold lc l t visiting in
        if ps = [] then Some st
        else map_option (\<lambda>(m, visiting', c'). (m, sdel (tId t) visiting', c'))
               (fold_parents resolve merge ps (merged, sadd (tId t) visiting, c))))"

text \<open>The results kept for a lookup, by the Thing they are of.\<close>

type_synonym effective_cache = "(string, props) omap"

fun resolveEffective ::
  "nat \<Rightarrow> (string \<Rightarrow> string \<Rightarrow> int) \<Rightarrow> is_lookup \<Rightarrow> vos_thing \<Rightarrow> string list \<times> effective_cache
   \<Rightarrow> (props \<times> string list \<times> effective_cache) option" where
  "resolveEffective 0 lc l t st = None"
| "resolveEffective (Suc n) lc l t (visiting, cache) =
     (case oget cache (tId t) of Some cached \<Rightarrow> Some (cached, visiting, cache)
      | None \<Rightarrow>
        (case foldInAncestors lc l t (resolveEffective n lc l) oassign ([], visiting, cache) of None \<Rightarrow> None
         | Some (merged, visiting', cache') \<Rightarrow>
            (let result = oassign (collectOverrides lc (tInheritedOverrides t) merged) (tProperties t)
             in Some (result, visiting', oput (tId t) result cache'))))"

text \<open>A call of \<open>effectiveProperties\<close>: nothing is being visited, and what is kept carries on.\<close>

definition effectiveProperties ::
  "nat \<Rightarrow> (string \<Rightarrow> string \<Rightarrow> int) \<Rightarrow> is_lookup \<Rightarrow> vos_thing \<Rightarrow> effective_cache \<Rightarrow> (props \<times> effective_cache) option" where
  "effectiveProperties n lc l t cache = map_option (\<lambda>(r, visiting, c). (r, c)) (resolveEffective n lc l t ([], cache))"

fun resolveDefinitions ::
  "nat \<Rightarrow> (string \<Rightarrow> string \<Rightarrow> int) \<Rightarrow> is_lookup \<Rightarrow> vos_thing \<Rightarrow> string list \<times> unit
   \<Rightarrow> ((string, derived_definition) omap \<times> string list \<times> unit) option" where
  "resolveDefinitions 0 lc l t st = None"
| "resolveDefinitions (Suc n) lc l t (visiting, u) =
     map_option (\<lambda>(merged, st'). (oassign merged (case tDerivedProperties t of Some ds \<Rightarrow> ds | None \<Rightarrow> []), st'))
       (foldInAncestors lc l t (resolveDefinitions n lc l) oassign ([], visiting, u))"

definition effectiveDerivedDefinitions ::
  "nat \<Rightarrow> (string \<Rightarrow> string \<Rightarrow> int) \<Rightarrow> is_lookup \<Rightarrow> vos_thing \<Rightarrow> (string, derived_definition) omap option" where
  "effectiveDerivedDefinitions n lc l t = map_option fst (resolveDefinitions n lc l t ([], ()))"

subsection \<open>Where a value came from\<close>

datatype origin_kind = Stated | Measured | Assumed | UnknownOrigin

record value_origin =
  vo_origin :: origin_kind
  vo_assumedFrom :: "string option"

text \<open>The first answer of a Thing's override sets, the nested ones of a set after its own.\<close>

function first_in_set :: "(inherited_set \<Rightarrow> 'a option) \<Rightarrow> inherited_set \<Rightarrow> 'a option" where
  "first_in_set read (InheritedSet sid sname ps wk inh) =
     (case read (InheritedSet sid sname ps wk inh) of Some answer \<Rightarrow> Some answer
      | None \<Rightarrow> (case inh of None \<Rightarrow> None
         | Some m \<Rightarrow> foldr (\<lambda>s rest. case first_in_set read s of Some answer \<Rightarrow> Some answer | None \<Rightarrow> rest) (map snd m) None))"
  by pat_completeness auto
termination
proof (relation "measure (\<lambda>(read, s). size s)", goal_cases)
  case (2 read sid sname ps wk inh m a s)
  then obtain k where "(k, s) \<in> set m" by auto
  then have "size s < size_list (size_prod (\<lambda>_. 0) size) m"
    by (induction m) auto
  with 2 show ?case by simp
qed simp

fun first_some :: "('b \<Rightarrow> 'a option) \<Rightarrow> 'b list \<Rightarrow> 'a option" where
  "first_some f [] = None"
| "first_some f (x # xs) = (case f x of Some v \<Rightarrow> Some v | None \<Rightarrow> first_some f xs)"

definition firstInStoredSets :: "(string \<times> inherited_set) list option \<Rightarrow> (inherited_set \<Rightarrow> 'a option) \<Rightarrow> 'a option" where
  "firstInStoredSets sets read = (case sets of None \<Rightarrow> None | Some m \<Rightarrow> first_some (first_in_set read) (map snd m))"

definition not_null :: "json option \<Rightarrow> json option" where
  "not_null v = (if v = Some JNull then None else v)"

definition storedValue :: "vos_thing \<Rightarrow> string \<Rightarrow> json option" where
  "storedValue t p = (case not_null (oget (tProperties t) p) of Some own \<Rightarrow> Some own
     | None \<Rightarrow> firstInStoredSets (tInheritedOverrides t) (\<lambda>s. not_null (oget (set_properties s) p)))"

definition storedWriteKind :: "vos_thing \<Rightarrow> string \<Rightarrow> write_kind option" where
  "storedWriteKind t p = (case Option.bind (tPropertyWriteKinds t) (\<lambda>m. oget m p) of Some k \<Rightarrow> Some k
     | None \<Rightarrow> firstInStoredSets (tInheritedOverrides t) (\<lambda>s. Option.bind (set_write_kinds s) (\<lambda>m. oget m p)))"

definition ancestorsInPrecedenceOrder :: "(string \<Rightarrow> string \<Rightarrow> int) \<Rightarrow> is_lookup \<Rightarrow> vos_thing \<Rightarrow> vos_thing list" where
  "ancestorsInPrecedenceOrder lc l t = sort_by (\<lambda>a b. lc (tName b) (tName a))
     (List.map_filter (oget (il_byId l)) (case oget (il_isParents l) (tId t) of Some ids \<Rightarrow> ids | None \<Rightarrow> []))"

text \<open>The depth-first walk of \<open>statedBy\<close> and of \<open>declaredWriteKind\<close>: the Things still to ask, nearest
  first, and those visited. It ends because a Thing is gone into once.\<close>

definition lookup_ids :: "is_lookup \<Rightarrow> string set" where
  "lookup_ids l = tId ` snd ` set (il_byId l)"

lemma finite_lookup_ids [simp]: "finite (lookup_ids l)"
  by (simp add: lookup_ids_def)

lemma map_filter_oget_snd: "x \<in> set (List.map_filter (oget m) ids) \<Longrightarrow> x \<in> snd ` set m"
  by (force simp: List.map_filter_def dest: map_of_SomeD)

lemma ancestors_ids: "tId ` set (ancestorsInPrecedenceOrder lc l t) \<subseteq> lookup_ids l"
  by (auto simp: ancestorsInPrecedenceOrder_def lookup_ids_def dest!: map_filter_oget_snd)

function first_up :: "(vos_thing \<Rightarrow> bool) \<Rightarrow> (string \<Rightarrow> string \<Rightarrow> int) \<Rightarrow> is_lookup \<Rightarrow> vos_thing list \<Rightarrow> string list \<Rightarrow> vos_thing option" where
  "first_up holds lc l [] visiting = None"
| "first_up holds lc l (t # ts) visiting =
     (if holds t then Some t
      else if tId t \<in> set visiting then first_up holds lc l ts visiting
      else first_up holds lc l (ancestorsInPrecedenceOrder lc l t @ ts) (sadd (tId t) visiting))"
  by pat_completeness auto
termination
proof (relation "measures [\<lambda>(holds, lc, l, ts, visiting). card (lookup_ids l \<union> tId ` set ts - set visiting),
    \<lambda>(holds, lc, l, ts, visiting). length ts]", goal_cases)
  case 1 then show ?case by simp
next
  case (2 holds lc l t ts visiting)
  then have "lookup_ids l \<union> tId ` set ts - set visiting = lookup_ids l \<union> tId ` set (t # ts) - set visiting" by auto
  then show ?case by simp
next
  case (3 holds lc l t ts visiting)
  then have "lookup_ids l \<union> tId ` set (ancestorsInPrecedenceOrder lc l t @ ts) - set (sadd (tId t) visiting)
      \<subset> lookup_ids l \<union> tId ` set (t # ts) - set visiting"
    using ancestors_ids[of lc l t] by auto
  then show ?case by (simp add: psubset_card_mono)
qed

definition statedBy :: "(string \<Rightarrow> string \<Rightarrow> int) \<Rightarrow> is_lookup \<Rightarrow> vos_thing \<Rightarrow> string \<Rightarrow> vos_thing option" where
  "statedBy lc l t p = first_up (\<lambda>t. storedValue t p \<noteq> None) lc l [t] []"

definition declaredWriteKind :: "(string \<Rightarrow> string \<Rightarrow> int) \<Rightarrow> is_lookup \<Rightarrow> vos_thing \<Rightarrow> string \<Rightarrow> write_kind option" where
  "declaredWriteKind lc l t p = Option.bind (first_up (\<lambda>t. storedWriteKind t p \<noteq> None) lc l [t] []) (\<lambda>t. storedWriteKind t p)"

definition valueOrigin :: "(string \<Rightarrow> string \<Rightarrow> int) \<Rightarrow> is_lookup \<Rightarrow> vos_thing \<Rightarrow> string \<Rightarrow> value_origin" where
  "valueOrigin lc l t p = (case statedBy lc l t p of
     None \<Rightarrow> \<lparr>vo_origin = UnknownOrigin, vo_assumedFrom = None\<rparr>
   | Some source \<Rightarrow>
      if source \<noteq> t then \<lparr>vo_origin = Assumed, vo_assumedFrom = Some (tName source)\<rparr>
      else (case declaredWriteKind lc l t p of
          Some FactOnly \<Rightarrow> \<lparr>vo_origin = Stated, vo_assumedFrom = None\<rparr>
        | Some ObservationOnly \<Rightarrow> \<lparr>vo_origin = Measured, vo_assumedFrom = None\<rparr>
        | None \<Rightarrow> \<lparr>vo_origin = UnknownOrigin, vo_assumedFrom = None\<rparr>))"

subsection \<open>Looking a value up in what was folded\<close>

lemma first_some_append: "first_some f (xs @ ys) = (case first_some f xs of Some v \<Rightarrow> Some v | None \<Rightarrow> first_some f ys)"
  by (induction xs) (auto split: option.splits)

lemma first_some_None_iff: "first_some f xs = None \<longleftrightarrow> (\<forall>x\<in>set xs. f x = None)"
  by (induction xs) (auto split: option.splits)

lemma first_some_find: "first_some f xs = Option.bind (List.find (\<lambda>x. f x \<noteq> None) xs) f"
  by (induction xs) (auto split: option.splits)

lemma first_some_cong: "(\<And>x. x \<in> set xs \<Longrightarrow> f x = g x) \<Longrightarrow> first_some f xs = first_some g xs"
  by (induction xs) (auto split: option.splits)

lemma first_some_bind:
  "(\<And>x y. x \<in> set xs \<Longrightarrow> f x = Some y \<Longrightarrow> g y \<noteq> None) \<Longrightarrow>
   first_some (\<lambda>x. Option.bind (f x) g) xs = Option.bind (first_some f xs) g"
proof (induction xs)
  case (Cons x xs)
  show ?case
  proof (cases "f x")
    case (Some y)
    with Cons.prems[of x y] show ?thesis by auto
  next
    case None
    have "first_some (\<lambda>x. Option.bind (f x) g) xs = Option.bind (first_some f xs) g"
      by (rule Cons.IH) (use Cons.prems in auto)
    with None show ?thesis by simp
  qed
qed simp

lemma foldr_first_some:
  "foldr (\<lambda>s rest. case f s of Some answer \<Rightarrow> Some answer | None \<Rightarrow> rest) xs None = first_some f xs"
  by (induction xs) (auto split: option.splits)

lemma find_sorted_first:
  "sorted_wrt R xs \<Longrightarrow> List.find Q xs = Some x \<Longrightarrow> y \<in> set xs \<Longrightarrow> Q y \<Longrightarrow> y = x \<or> R x y"
  by (induction xs) (auto split: if_splits)

text \<open>Two lists of the same elements, both in an order that tells them apart, answer alike.\<close>

lemma first_some_sorted:
  assumes "sorted_wrt R xs" and "sorted_wrt R ys" and same: "set xs = set ys"
    and tell: "\<And>a b. a \<in> set xs \<Longrightarrow> b \<in> set xs \<Longrightarrow> R a b \<Longrightarrow> R b a \<Longrightarrow> a = b"
  shows "first_some f xs = first_some f ys"
proof -
  let ?Q = "\<lambda>x. f x \<noteq> None"
  have "List.find ?Q xs = List.find ?Q ys"
  proof (cases "List.find ?Q xs")
    case None
    with same have "List.find ?Q ys = None" by (simp add: find_None_iff_all)
    with None show ?thesis by simp
  next
    case (Some x)
    have x: "x \<in> set ys" "?Q x" using find_SomeD[OF Some] same by simp_all
    then obtain y where y: "List.find ?Q ys = Some y" using find_Some_ex[of ys ?Q] by blast
    have "y \<in> set xs" and "?Q y" using find_SomeD[OF y] same by simp_all
    have "x = y"
    proof (rule ccontr)
      assume ne: "x \<noteq> y"
      then have "R x y" using find_sorted_first[OF assms(1) Some \<open>y \<in> set xs\<close> \<open>?Q y\<close>] by simp
      moreover have "R y x" using find_sorted_first[OF assms(2) y x] ne by simp
      ultimately show False using tell[of x y] x(1) same \<open>y \<in> set xs\<close> ne by simp
    qed
    with Some y show ?thesis by simp
  qed
  then show ?thesis by (simp add: first_some_find)
qed

lemma oget_foldl_merge:
  assumes "\<And>s m. s \<in> set xs \<Longrightarrow> oget (f m s) = oget m ++ oget (f [] s)"
  shows "oget (foldl f m xs) = oget m ++ oget (foldl f [] xs)"
  using assms
proof (induction xs arbitrary: m)
  case (Cons x xs)
  have rest: "oget (foldl f m' xs) = oget m' ++ oget (foldl f [] xs)" for m'
    by (rule Cons.IH) (rule Cons.prems, simp)
  have here: "oget (f m' x) = oget m' ++ oget (f [] x)" for m'
    by (rule Cons.prems) simp
  show ?case unfolding foldl_Cons rest[of "f m x"] rest[of "f [] x"] here[of m] by simp
qed simp

lemma inherited_set_induct [case_names InheritedSet]:
  assumes step: "\<And>sid sname ps wk inh. (\<And>m k s. inh = Some m \<Longrightarrow> (k, s) \<in> set m \<Longrightarrow> P s)
      \<Longrightarrow> P (InheritedSet sid sname ps wk inh)"
  shows "P s"
proof (induction s rule: measure_induct_rule[where f = size])
  case (less s)
  obtain sid sname ps wk inh where s: "s = InheritedSet sid sname ps wk inh" by (cases s)
  show ?case unfolding s
  proof (rule step)
    fix m k u assume "inh = Some m" and u: "(k, u) \<in> set m"
    moreover from u have "size u < size_list (size_prod (\<lambda>_. 0) size) m" by (induction m) auto
    ultimately have "size u < size s" using s by simp
    then show "P u" by (rule less.IH)
  qed
qed

lemma oget_collectSet: "oget (collectSet lc s m) = oget m ++ oget (collectSet lc s [])"
proof (induction s arbitrary: m rule: inherited_set_induct)
  case (InheritedSet sid sname ps wk inh)
  show ?case
  proof (cases inh)
    case (Some sets)
    have "oget (foldl (\<lambda>acc s. collectSet lc s acc) m (by_source lc (map snd sets)))
        = oget m ++ oget (foldl (\<lambda>acc s. collectSet lc s acc) [] (by_source lc (map snd sets)))"
    proof (rule oget_foldl_merge)
      fix u acc assume "u \<in> set (by_source lc (map snd sets))"
      then obtain k where "(k, u) \<in> set sets" by auto
      then show "oget (collectSet lc u acc) = oget acc ++ oget (collectSet lc u [])" by (rule InheritedSet[OF Some])
    qed
    then show ?thesis unfolding Some by (simp add: oget_oassign)
  qed (simp add: oget_oassign)
qed

lemma oget_collectOverrides: "oget (collectOverrides lc sets m) = oget m ++ oget (collectOverrides lc sets [])"
  by (auto simp: collectOverrides_def split: option.split intro!: oget_foldl_merge oget_collectSet)

lemma oget_layered:
  "oget (oassign (collectOverrides lc (tInheritedOverrides t) m) (tProperties t)) = oget m ++ oget (statedProperties lc t)"
  using oget_collectOverrides[of lc "tInheritedOverrides t" m]
  by (simp add: statedProperties_def oget_oassign)


subsection \<open>Precedence\<close>

text \<open>The Thing a name is answered from, as the precedence has it: the Thing itself where it states
  the name, otherwise the last of its archetypes by name that has an answer.\<close>

fun source_at :: "nat \<Rightarrow> (string \<Rightarrow> string \<Rightarrow> int) \<Rightarrow> is_lookup \<Rightarrow> string \<Rightarrow> vos_thing \<Rightarrow> vos_thing option" where
  "source_at 0 lc l p t = None"
| "source_at (Suc n) lc l p t = (if oget (statedProperties lc t) p \<noteq> None then Some t
     else first_some (source_at n lc l p) (rev (by_name lc (held_parents l t))))"

definition value_at :: "nat \<Rightarrow> (string \<Rightarrow> string \<Rightarrow> int) \<Rightarrow> is_lookup \<Rightarrow> string \<Rightarrow> vos_thing \<Rightarrow> json option" where
  "value_at n lc l p t = Option.bind (source_at n lc l p t) (\<lambda>s. oget (statedProperties lc s) p)"

text \<open>A lookup as an index of Things is: each Thing under its own identifier. And a model whose \<open>is\<close>
  relationships do not run in a circle: a Thing ranks above what it \<open>is\<close>.\<close>

definition keyed_lookup :: "is_lookup \<Rightarrow> bool" where
  "keyed_lookup l \<longleftrightarrow> list_all (\<lambda>(i, t). tId t = i \<and> i \<noteq> []) (il_byId l)"

definition climbs :: "is_lookup \<Rightarrow> (string \<Rightarrow> nat) \<Rightarrow> bool" where
  "climbs l rank \<longleftrightarrow> list_all (\<lambda>(i, ids). list_all (\<lambda>q. rank (tId q) < rank i) (List.map_filter (oget (il_byId l)) ids)) (il_isParents l)"

abbreviation held :: "is_lookup \<Rightarrow> vos_thing \<Rightarrow> bool" where
  "held l t \<equiv> oget (il_byId l) (tId t) = Some t"

lemma map_filter_get: "x \<in> set (List.map_filter (oget m) ids) \<Longrightarrow> \<exists>i\<in>set ids. oget m i = Some x"
  by (auto simp: List.map_filter_def)

lemma parent_of:
  assumes "q \<in> set (held_parents l t)"
  shows "\<exists>ids. (tId t, ids) \<in> set (il_isParents l) \<and> q \<in> set (List.map_filter (oget (il_byId l)) ids)"
proof (cases "oget (il_isParents l) (tId t)")
  case None
  with assms show ?thesis by (simp add: held_parents_def List.map_filter_def split: if_splits)
next
  case (Some ids)
  with assms have "q \<in> set (List.map_filter (oget (il_byId l)) ids)" by (simp add: held_parents_def split: if_splits)
  with map_of_SomeD[OF Some] show ?thesis by blast
qed

lemma keyed_held: "keyed_lookup l \<Longrightarrow> oget (il_byId l) i = Some q \<Longrightarrow> held l q \<and> tId q = i \<and> i \<noteq> []"
  using map_of_SomeD[of "il_byId l" i q] by (auto simp: keyed_lookup_def list_all_iff)

lemma parent_held:
  assumes "keyed_lookup l" and "q \<in> set (held_parents l t)" shows "held l q"
proof -
  obtain ids where "q \<in> set (List.map_filter (oget (il_byId l)) ids)" using parent_of[OF assms(2)] by blast
  then obtain i where "oget (il_byId l) i = Some q" using map_filter_get by fast
  then show ?thesis using keyed_held[OF assms(1)] by blast
qed

lemma parent_rank:
  assumes "climbs l rank" and "q \<in> set (held_parents l t)" shows "rank (tId q) < rank (tId t)"
proof -
  obtain ids where "(tId t, ids) \<in> set (il_isParents l)" and "q \<in> set (List.map_filter (oget (il_byId l)) ids)"
    using parent_of[OF assms(2)] by blast
  with assms(1) show ?thesis unfolding climbs_def list_all_iff by fast
qed

lemma source_states: "source_at n lc l p t = Some s \<Longrightarrow> oget (statedProperties lc s) p \<noteq> None"
proof (induction n arbitrary: t)
  case (Suc n)
  show ?case
  proof (cases "oget (statedProperties lc t) p = None")
    case True
    with Suc.prems have "first_some (source_at n lc l p) (rev (by_name lc (held_parents l t))) = Some s" by simp
    then obtain q where "source_at n lc l p q = Some s"
      unfolding first_some_find by (auto simp: Option.bind_eq_Some_conv)
    then show ?thesis by (rule Suc.IH)
  qed (use Suc.prems in simp)
qed simp

lemma source_fuel:
  assumes "climbs l rank"
  shows "rank (tId t) < n \<Longrightarrow> rank (tId t) < m \<Longrightarrow> source_at n lc l p t = source_at m lc l p t"
proof (induction n arbitrary: m t)
  case (Suc n)
  then obtain k where m: "m = Suc k" by (cases m) simp_all
  have "first_some (source_at n lc l p) (rev (by_name lc (held_parents l t)))
      = first_some (source_at k lc l p) (rev (by_name lc (held_parents l t)))"
  proof (rule first_some_cong)
    fix q assume "q \<in> set (rev (by_name lc (held_parents l t)))"
    then have "rank (tId q) < rank (tId t)" using parent_rank[OF assms] by simp
    with Suc.prems m have "rank (tId q) < n" "rank (tId q) < k" by simp_all
    then show "source_at n lc l p q = source_at k lc l p q" by (rule Suc.IH)
  qed
  with m show ?case by simp
qed simp

text \<open>What is kept is right: each result kept is what its Thing resolves.\<close>

definition kept_right :: "(string \<Rightarrow> string \<Rightarrow> int) \<Rightarrow> is_lookup \<Rightarrow> (string \<Rightarrow> nat) \<Rightarrow> effective_cache \<Rightarrow> bool" where
  "kept_right lc l rank c \<longleftrightarrow> (\<forall>t r p. held l t \<longrightarrow> oget c (tId t) = Some r \<longrightarrow> okeys_distinct r \<and> oget r p = value_at (Suc (rank (tId t))) lc l p t)"

lemma kept_right_Nil [simp]: "kept_right lc l rank []"
  by (simp add: kept_right_def)

lemma okeys_distinct_collectSet: "okeys_distinct m \<Longrightarrow> okeys_distinct (collectSet lc s m)"
proof (induction s arbitrary: m rule: inherited_set_induct)
  case (InheritedSet sid sname ps wk inh)
  show ?case
  proof (cases inh)
    case (Some sets)
    have "okeys_distinct (foldl (\<lambda>acc s. collectSet lc s acc) m xs)" if "set xs \<subseteq> snd ` set sets" for xs
      using that InheritedSet.prems
    proof (induction xs arbitrary: m)
      case (Cons x xs)
      then obtain k where "(k, x) \<in> set sets" by auto
      with Cons InheritedSet.IH[OF Some] show ?case by simp
    qed simp
    then show ?thesis unfolding Some by simp
  qed (use InheritedSet.prems in simp)
qed

lemma okeys_distinct_collectOverrides: "okeys_distinct m \<Longrightarrow> okeys_distinct (collectOverrides lc sets m)"
proof -
  have "okeys_distinct m \<Longrightarrow> okeys_distinct (foldl (\<lambda>acc s. collectSet lc s acc) m xs)" for xs
    by (induction xs arbitrary: m) (simp_all add: okeys_distinct_collectSet)
  then show "okeys_distinct m \<Longrightarrow> ?thesis" by (simp add: collectOverrides_def split: option.split)
qed

lemma fold_parents_values:
  assumes "\<And>q c. q \<in> set ps \<Longrightarrow> kept_right lc l rank c \<Longrightarrow>
      \<exists>r c'. resolve q (V, c) = Some (r, V, c') \<and> kept_right lc l rank c' \<and> okeys_distinct r \<and> (\<forall>p. oget r p = f p q)"
    and "kept_right lc l rank c" and "okeys_distinct m"
  shows "\<exists>m' c'. fold_parents resolve oassign ps (m, V, c) = Some (m', V, c') \<and> kept_right lc l rank c' \<and> okeys_distinct m'
     \<and> (\<forall>p. oget m' p = (case first_some (f p) (rev ps) of Some v \<Rightarrow> Some v | None \<Rightarrow> oget m p))"
  using assms
proof (induction ps arbitrary: m c)
  case (Cons q ps)
  obtain r c1 where q: "resolve q (V, c) = Some (r, V, c1)" "kept_right lc l rank c1" "okeys_distinct r" "\<forall>p. oget r p = f p q"
    using Cons.prems(1)[of q c] Cons.prems(2) by auto
  from q(3,4) have assign: "oget (oassign m r) p = (case f p q of Some v \<Rightarrow> Some v | None \<Rightarrow> oget m p)" for p
    by (simp add: oget_oassign oget_rev_distinct map_add_def)
  obtain m' c' where rest: "fold_parents resolve oassign ps (oassign m r, V, c1) = Some (m', V, c')" "kept_right lc l rank c'" "okeys_distinct m'"
    "\<forall>p. oget m' p = (case first_some (f p) (rev ps) of Some v \<Rightarrow> Some v | None \<Rightarrow> oget (oassign m r) p)"
    using Cons.IH[of c1 "oassign m r"] Cons.prems(1,3) q(2) by auto
  have "oget m' p = (case first_some (f p) (rev (q # ps)) of Some v \<Rightarrow> Some v | None \<Rightarrow> oget m p)" for p
    using rest(4) assign[of p] by (simp add: first_some_append split: option.splits)
  with rest(1,2,3) q(1) show ?case by auto
qed simp

lemma parents_to_fold_ranked:
  assumes "climbs l rank" and "\<forall>v\<in>set V. rank (tId t) < rank v"
  shows "parents_to_fold lc l t V = by_name lc (held_parents l t)"
proof -
  have "filter (\<lambda>p. tId p \<notin> set V) (held_parents l t) = held_parents l t"
    using parent_rank[OF assms(1), of _ t] assms(2) by (fastforce simp: filter_id_conv)
  then show ?thesis by (simp add: parents_to_fold_def)
qed

lemma by_name_Nil [simp]: "by_name lc xs = [] \<longleftrightarrow> xs = []"
  using length_sort_by[of "\<lambda>a b. lc (tName a) (tName b)" xs] by (metis length_0_conv)

lemma sdel_sadd: "x \<notin> set V \<Longrightarrow> sdel x (sadd x V) = V"
  by (auto simp: sdel_def sadd_def filter_id_conv)

lemma case_option_self: "(case x of None \<Rightarrow> None | Some v \<Rightarrow> Some v) = x"
  by (cases x) simp_all

lemma resolve_ranked:
  assumes keyed: "keyed_lookup l" and climbs: "climbs l rank"
  shows "rank (tId t) < n \<Longrightarrow> held l t \<Longrightarrow> \<forall>v\<in>set V. rank (tId t) < rank v \<Longrightarrow> kept_right lc l rank c \<Longrightarrow>
    \<exists>r c'. resolveEffective n lc l t (V, c) = Some (r, V, c') \<and> kept_right lc l rank c' \<and> okeys_distinct r
      \<and> (\<forall>p. oget r p = value_at n lc l p t)"
proof (induction n arbitrary: t V c)
  case (Suc n)
  note fuel = source_fuel[OF climbs]
  show ?case
  proof (cases "oget c (tId t)")
    case (Some r)
    have "value_at (Suc (rank (tId t))) lc l p t = value_at (Suc n) lc l p t" for p
      using fuel[of t "Suc (rank (tId t))" "Suc n" lc p] Suc.prems(1) by (simp add: value_at_def del: source_at.simps)
    with Suc.prems(2,4) Some show ?thesis unfolding kept_right_def by simp
  next
    case None
    let ?ps = "by_name lc (held_parents l t)"
    have own: "tId t \<notin> set V" using Suc.prems(3) by auto
    have child: "\<exists>r c'. resolveEffective n lc l q (sadd (tId t) V, c) = Some (r, sadd (tId t) V, c') \<and> kept_right lc l rank c'
        \<and> okeys_distinct r \<and> (\<forall>p. oget r p = value_at n lc l p q)"
      if "q \<in> set ?ps" and "kept_right lc l rank c" for q c
    proof (rule Suc.IH)
      from that have q: "q \<in> set (held_parents l t)" by simp
      show "rank (tId q) < n" using parent_rank[OF climbs q] Suc.prems(1) by simp
      show "held l q" by (rule parent_held[OF keyed q])
      show "\<forall>v\<in>set (sadd (tId t) V). rank (tId q) < rank v"
        using parent_rank[OF climbs q] Suc.prems(3) by fastforce
    qed (rule that(2))
    obtain m c1 where folded: "foldInAncestors lc l t (resolveEffective n lc l) oassign ([], V, c) = Some (m, V, c1)"
      and kept: "kept_right lc l rank c1" and m: "okeys_distinct m" "\<forall>p. oget m p = first_some (\<lambda>q. value_at n lc l p q) (rev ?ps)"
    proof (cases "held_parents l t = []")
      case True
      then show ?thesis using that[of "[]" c] Suc.prems(4)
        by (simp add: foldInAncestors_def parents_to_fold_ranked[OF climbs Suc.prems(3)])
    next
      case False
      have "\<exists>m c1. fold_parents (resolveEffective n lc l) oassign ?ps ([], sadd (tId t) V, c) = Some (m, sadd (tId t) V, c1)
          \<and> kept_right lc l rank c1 \<and> okeys_distinct m
          \<and> (\<forall>p. oget m p = (case first_some (\<lambda>q. value_at n lc l p q) (rev ?ps) of Some v \<Rightarrow> Some v | None \<Rightarrow> oget [] p))"
        by (rule fold_parents_values) (use child Suc.prems(4) in simp_all)
      then obtain m c1
        where *: "fold_parents (resolveEffective n lc l) oassign ?ps ([], sadd (tId t) V, c) = Some (m, sadd (tId t) V, c1)"
          "kept_right lc l rank c1" "okeys_distinct m" "\<forall>p. oget m p = (case first_some (\<lambda>q. value_at n lc l p q) (rev ?ps) of Some v \<Rightarrow> Some v | None \<Rightarrow> oget [] p)"
        by blast
      from *(4) have looked: "\<forall>p. oget m p = first_some (\<lambda>q. value_at n lc l p q) (rev ?ps)"
        by (simp only: map_of.simps(1) case_option_self simp_thms)
      have "sdel (tId t) (sadd (tId t) V) = V" using own by (rule sdel_sadd)
      with *(1) False have "foldInAncestors lc l t (resolveEffective n lc l) oassign ([], V, c) = Some (m, V, c1)"
        by (simp add: foldInAncestors_def parents_to_fold_ranked[OF climbs Suc.prems(3)])
      then show ?thesis by (rule that[OF _ *(2,3) looked])
    qed
    let ?r = "oassign (collectOverrides lc (tInheritedOverrides t) m) (tProperties t)"
    have answer: "oget ?r p = value_at (Suc n) lc l p t" for p
    proof -
      have "first_some (\<lambda>q. value_at n lc l p q) (rev ?ps) = Option.bind (first_some (source_at n lc l p) (rev ?ps)) (\<lambda>s. oget (statedProperties lc s) p)"
        unfolding value_at_def by (rule first_some_bind) (rule source_states)
      with m show ?thesis by (auto simp: oget_layered map_add_def value_at_def split: option.splits)
    qed
    have distinct: "okeys_distinct ?r" by (intro okeys_distinct_oassign okeys_distinct_collectOverrides m)
    have same: "u = t" if "held l u" "tId u = tId t" for u using that Suc.prems(2) by simp
    have "kept_right lc l rank (oput (tId t) ?r c1)"
      unfolding kept_right_def
    proof (intro allI impI)
      fix u r p assume u: "held l u" "oget (oput (tId t) ?r c1) (tId u) = Some r"
      show "okeys_distinct r \<and> oget r p = value_at (Suc (rank (tId u))) lc l p u"
      proof (cases "tId u = tId t")
        case True
        with u(2) have "r = ?r" by simp
        moreover have "value_at (Suc n) lc l p t = value_at (Suc (rank (tId t))) lc l p t"
          unfolding value_at_def using fuel[of t "Suc (rank (tId t))" "Suc n" lc p] Suc.prems(1) by simp
        ultimately show ?thesis using same[OF u(1) True] answer[of p] distinct by simp
      next
        case False
        with u kept show ?thesis unfolding kept_right_def by simp
      qed
    qed
    with folded answer distinct None show ?thesis by (simp add: Let_def)
  qed
qed simp



definition archetype_thing :: "string \<Rightarrow> props \<Rightarrow> vos_thing" where
  "archetype_thing i ps = \<lparr>tId = i, tName = i, tIsArchetype = None, tProperties = ps, tPropertyWriteKinds = None,
     tInheritedOverrides = None, tDerivedProperties = None\<rparr>"

text \<open>A tank is a vessel and a store; both archetypes give it a capacity.\<close>

definition tank_lookup :: is_lookup where
  "tank_lookup = \<lparr>il_byId = [(''tank'', archetype_thing ''tank'' [(''level'', JBool True)]),
       (''store'', archetype_thing ''store'' [(''capacity'', JStr ''small'')]),
       (''vessel'', archetype_thing ''vessel'' [(''capacity'', JStr ''large''), (''level'', JNull)])],
     il_isParents = [(''tank'', [''vessel'', ''store''])]\<rparr>"

definition tank_rank :: "string \<Rightarrow> nat" where
  "tank_rank i = (if i = ''tank'' then 1 else 0)"

lemma tank_facts:
  "keyed_lookup tank_lookup" "climbs tank_lookup tank_rank"
  "held tank_lookup (archetype_thing ''tank'' [(''level'', JBool True)])"
  by (simp_all add: keyed_lookup_def climbs_def tank_lookup_def tank_rank_def archetype_thing_def List.map_filter_simps)

lemmas tank_eval = eval_nat_numeral statedProperties_def collectOverrides_def archetype_thing_def tank_lookup_def
  held_parents_def List.map_filter_simps code_def



subsection \<open>The walk ends\<close>

text \<open>Two walks share the fold over the archetypes. What the proof that a walk ends needs of either is
  a law: where the fold over a Thing's archetypes answers and leaves the identifiers being visited as it
  found them, so does the walk.\<close>

definition no_self_is :: "is_lookup \<Rightarrow> bool" where
  "no_self_is l \<longleftrightarrow> list_all (\<lambda>(i, ids). list_all (\<lambda>q. tId q \<noteq> i) (List.map_filter (oget (il_byId l)) ids)) (il_isParents l)"

lemma not_own_parent:
  assumes "no_self_is l" and "q \<in> set (held_parents l t)" shows "tId q \<noteq> tId t"
proof -
  obtain ids where "(tId t, ids) \<in> set (il_isParents l)" and "q \<in> set (List.map_filter (oget (il_byId l)) ids)"
    using parent_of[OF assms(2)] by blast
  with assms(1) show ?thesis unfolding no_self_is_def list_all_iff by fast
qed

lemma parent_ids: "q \<in> set (held_parents l t) \<Longrightarrow> tId q \<in> lookup_ids l"
  by (auto simp: held_parents_def lookup_ids_def split: if_splits dest!: map_filter_oget_snd)

lemma fold_parents_returns:
  assumes "\<And>q c. q \<in> set ps \<Longrightarrow> \<exists>r c'. resolve q (V, c) = Some (r, V, c')"
  shows "\<exists>m' c'. fold_parents resolve merge ps (m, V, c) = Some (m', V, c')"
  using assms
proof (induction ps arbitrary: m c)
  case (Cons q ps)
  from Cons.prems[of q c] obtain r c1 where "resolve q (V, c) = Some (r, V, c1)" by auto
  moreover have "\<exists>m' c'. fold_parents resolve merge ps (merge m r, V, c1) = Some (m', V, c')"
    by (rule Cons.IH) (rule Cons.prems, simp)
  ultimately show ?case by simp
qed simp

locale guarded_walk =
  fixes walk :: "nat \<Rightarrow> vos_thing \<Rightarrow> string list \<times> 'c \<Rightarrow> ('r \<times> string list \<times> 'c) option"
    and lc :: "string \<Rightarrow> string \<Rightarrow> int" and l :: is_lookup and merge :: "'r \<Rightarrow> 'r \<Rightarrow> 'r" and start :: 'r
  assumes walk_step: "foldInAncestors lc l t (walk n) merge (start, V, c) = Some (m, V, c1) \<Longrightarrow>
      \<exists>r c'. walk (Suc n) t (V, c) = Some (r, V, c')"
begin

lemma walk_one:
  assumes no_self: "no_self_is l" and own: "tId t \<notin> set V"
    and child: "\<And>q c. q \<in> set (held_parents l t) \<Longrightarrow> tId q \<notin> set (sadd (tId t) V) \<Longrightarrow>
        \<exists>r c'. walk n q (sadd (tId t) V, c) = Some (r, sadd (tId t) V, c')"
  shows "\<exists>r c'. walk (Suc n) t (V, c) = Some (r, V, c')"
proof (cases "parents_to_fold lc l t V = []")
  case True
  then show ?thesis by (intro walk_step) (simp add: foldInAncestors_def)
next
  case False
  have "\<exists>m' c'. fold_parents (walk n) merge (parents_to_fold lc l t V) (start, sadd (tId t) V, c) = Some (m', sadd (tId t) V, c')"
  proof (rule fold_parents_returns)
    fix q c assume q: "q \<in> set (parents_to_fold lc l t V)"
    then have "q \<in> set (held_parents l t)" "tId q \<notin> set V" by (simp_all add: parents_to_fold_def)
    with not_own_parent[OF no_self] child show "\<exists>r c'. walk n q (sadd (tId t) V, c) = Some (r, sadd (tId t) V, c')" by simp
  qed
  then obtain m c1 where "fold_parents (walk n) merge (parents_to_fold lc l t V) (start, sadd (tId t) V, c) = Some (m, sadd (tId t) V, c1)"
    by blast
  with False sdel_sadd[OF own] have "foldInAncestors lc l t (walk n) merge (start, V, c) = Some (m, V, c1)"
    by (simp add: foldInAncestors_def)
  then show ?thesis by (rule walk_step)
qed

lemma walk_held:
  assumes no_self: "no_self_is l"
  shows "tId t \<in> lookup_ids l \<Longrightarrow> tId t \<notin> set V \<Longrightarrow> card (lookup_ids l - set V) < n \<Longrightarrow>
    \<exists>r c'. walk n t (V, c) = Some (r, V, c')"
proof (induction n arbitrary: t V c)
  case (Suc n)
  show ?case
  proof (rule walk_one[OF no_self Suc.prems(2)])
    fix q c assume q: "q \<in> set (held_parents l t)" "tId q \<notin> set (sadd (tId t) V)"
    have "lookup_ids l - set (sadd (tId t) V) \<subset> lookup_ids l - set V" using Suc.prems(1,2) by auto
    then have "card (lookup_ids l - set (sadd (tId t) V)) < card (lookup_ids l - set V)"
      by (intro psubset_card_mono) simp_all
    with Suc.prems(3) have "card (lookup_ids l - set (sadd (tId t) V)) < n" by simp
    with Suc.IH[OF parent_ids[OF q(1)] q(2)] show "\<exists>r c'. walk n q (sadd (tId t) V, c) = Some (r, sadd (tId t) V, c')" .
  qed
qed simp

lemma walk_returns:
  assumes "no_self_is l" and "Suc (card (lookup_ids l)) < n"
  shows "\<exists>r c'. walk n t ([], c) = Some (r, [], c')"
proof -
  from assms(2) obtain k where n: "n = Suc k" and k: "card (lookup_ids l) < k" by (cases n) simp_all
  show ?thesis unfolding n
  proof (rule walk_one[OF assms(1)])
    fix q c assume q: "q \<in> set (held_parents l t)" "tId q \<notin> set (sadd (tId t) [])"
    have "card (lookup_ids l - set (sadd (tId t) [])) \<le> card (lookup_ids l)" by (intro card_mono) auto
    with k have "card (lookup_ids l - set (sadd (tId t) [])) < k" by simp
    with walk_held[OF assms(1) parent_ids[OF q(1)] q(2)]
    show "\<exists>r c'. walk k q (sadd (tId t) [], c) = Some (r, sadd (tId t) [], c')" .
  qed simp
qed

end

interpretation effective: guarded_walk "\<lambda>n. resolveEffective n lc l" lc l oassign "[]" for lc l
  by unfold_locales (simp add: Let_def split: option.split)

interpretation definitions: guarded_walk "\<lambda>n. resolveDefinitions n lc l" lc l oassign "[]" for lc l
  by unfold_locales simp

lemma resolution_walks_return:
  assumes "no_self_is l" and "Suc (card (lookup_ids l)) < n"
  shows "\<exists>r kept. effectiveProperties n lc l t cache = Some (r, kept)"
    and "\<exists>ds. effectiveDerivedDefinitions n lc l t = Some ds"
  using effective.walk_returns[OF assms, of lc t cache] definitions.walk_returns[OF assms, of lc t "()"]
  by (auto simp: effectiveProperties_def effectiveDerivedDefinitions_def)

text \<open>C30. Resolution ends on malformed models. Whatever circles the \<open>is\<close> relationships of a model run
  in, both resolutions of a Thing return an answer, going no deeper than two levels below the number
  of Things, as long as no Thing is directly itself.\<close>

theorem resolution_ends:
  assumes "no_self_is l" and "Suc (card (lookup_ids l)) < n"
  shows "(\<exists>r kept. effectiveProperties n lc l t cache = Some (r, kept))
     \<and> (\<exists>ds. effectiveDerivedDefinitions n lc l t = Some ds)"
  using resolution_walks_return[OF assms] by blast

text \<open>Two Things each of which is the other.\<close>

definition circle_lookup :: is_lookup where
  "circle_lookup = \<lparr>il_byId = [(''a'', archetype_thing ''a'' [(''one'', JNull)]), (''b'', archetype_thing ''b'' [(''two'', JNull)])],
     il_isParents = [(''a'', [''b'']), (''b'', [''a''])]\<rparr>"

lemma resolution_ends_witness:
  "\<exists>r kept. effectiveProperties 4 compare_code_units circle_lookup (archetype_thing ''a'' [(''one'', JNull)]) [] = Some (r, kept)"
proof -
  have "no_self_is circle_lookup" by (simp add: no_self_is_def circle_lookup_def archetype_thing_def List.map_filter_simps)
  moreover have "Suc (card (lookup_ids circle_lookup)) < 4" by (simp add: lookup_ids_def circle_lookup_def archetype_thing_def)
  ultimately show ?thesis using resolution_ends by blast
qed

lemmas circle_eval = eval_nat_numeral effectiveProperties_def foldInAncestors_def parents_to_fold_def sadd_def sdel_def
  oassign_def collectOverrides_def circle_lookup_def archetype_thing_def held_parents_def List.map_filter_simps

text \<open>In a circle the answer depends on what was asked before: what is kept while another Thing is being
  visited lacks what that Thing supplies, and is kept for good.\<close>

lemma circle_first:
  "effectiveProperties 4 compare_code_units circle_lookup (archetype_thing ''b'' [(''two'', JNull)]) []
     = Some ([(''one'', JNull), (''two'', JNull)],
         [(''a'', [(''one'', JNull)]), (''b'', [(''one'', JNull), (''two'', JNull)])])"
  by code_simp

lemma circle_order_dependent:
  "effectiveProperties 4 compare_code_units circle_lookup (archetype_thing ''a'' [(''one'', JNull)]) []
     = Some ([(''two'', JNull), (''one'', JNull)],
         [(''b'', [(''two'', JNull)]), (''a'', [(''two'', JNull), (''one'', JNull)])])"
  "effectiveProperties 4 compare_code_units circle_lookup (archetype_thing ''b'' [(''two'', JNull)])
     [(''b'', [(''two'', JNull)]), (''a'', [(''two'', JNull), (''one'', JNull)])]
     = Some ([(''two'', JNull)], [(''b'', [(''two'', JNull)]), (''a'', [(''two'', JNull), (''one'', JNull)])])"
  by code_simp+

text \<open>Two Things of one name, each itself and the other: the guard is taken off while the walk is still
  inside, and the definitions of either are never found, however deep the walk goes.\<close>

definition knotted_thing :: "string \<Rightarrow> vos_thing" where
  "knotted_thing i = (archetype_thing i [])\<lparr>tName := ''knot''\<rparr>"

definition knotted_lookup :: is_lookup where
  "knotted_lookup = \<lparr>il_byId = [(''a'', knotted_thing ''a''), (''b'', knotted_thing ''b'')],
     il_isParents = [(''a'', [''a'', ''b'']), (''b'', [''b'', ''a''])]\<rparr>"

lemmas knotted_eval = foldInAncestors_def parents_to_fold_def sadd_def sdel_def held_parents_def List.map_filter_simps
  knotted_lookup_def knotted_thing_def archetype_thing_def code_def

lemma knotted_inner:
  "resolveDefinitions n compare_code_units knotted_lookup (knotted_thing ''a'') ([''a''], ()) \<in> {None, Some ([], [], ())}"
  "resolveDefinitions n compare_code_units knotted_lookup (knotted_thing ''b'') ([''b''], ()) \<in> {None, Some ([], [], ())}"
proof -
  consider "n = 0" | "n = 1" | "n = 2" | k where "n = Suc (Suc (Suc k))"
    by (metis One_nat_def Suc_1 not0_implies_Suc)
  note cases = this
  show "resolveDefinitions n compare_code_units knotted_lookup (knotted_thing ''a'') ([''a''], ()) \<in> {None, Some ([], [], ())}"
    by (rule cases) (simp_all add: knotted_eval eval_nat_numeral)
  show "resolveDefinitions n compare_code_units knotted_lookup (knotted_thing ''b'') ([''b''], ()) \<in> {None, Some ([], [], ())}"
    by (rule cases) (simp_all add: knotted_eval eval_nat_numeral)
qed

lemma knotted_never_ends:
  "resolveDefinitions n compare_code_units knotted_lookup (knotted_thing ''a'') ([], ()) = None
   \<and> resolveDefinitions n compare_code_units knotted_lookup (knotted_thing ''b'') ([], ()) = None"
proof (induction n)
  case (Suc n)
  with knotted_inner[of n] show ?case by (auto simp: knotted_eval)
qed simp

lemma definitions_never_found:
  "effectiveDerivedDefinitions n compare_code_units knotted_lookup (knotted_thing ''a'') = None"
  using knotted_never_ends[of n] by (simp add: effectiveDerivedDefinitions_def)


subsection \<open>The origin is of the value drawn\<close>

text \<open>No \<open>null\<close> is stored under the name, by the Thing or in any of its override sets.\<close>

definition null_here :: "string \<Rightarrow> inherited_set \<Rightarrow> unit option" where
  "null_here p s = (if oget (set_properties s) p = Some JNull then Some () else None)"

definition no_null :: "string \<Rightarrow> vos_thing \<Rightarrow> bool" where
  "no_null p t \<longleftrightarrow> oget (tProperties t) p \<noteq> Some JNull \<and> firstInStoredSets (tInheritedOverrides t) (null_here p) = None"

abbreviation value_here :: "string \<Rightarrow> inherited_set \<Rightarrow> json option" where
  "value_here p \<equiv> (\<lambda>s. not_null (oget (set_properties s) p))"

lemma first_in_set_unfold:
  "first_in_set read (InheritedSet sid sname ps wk inh) =
     (case read (InheritedSet sid sname ps wk inh) of Some answer \<Rightarrow> Some answer
      | None \<Rightarrow> (case inh of None \<Rightarrow> None | Some m \<Rightarrow> first_some (first_in_set read) (map snd m)))"
  by (auto simp: foldr_first_some split: option.split)

lemma dom_collect_sets:
  "oget (foldl (\<lambda>acc s. collectSet lc s acc) [] xs) p \<noteq> None \<longleftrightarrow> (\<exists>s\<in>set xs. oget (collectSet lc s []) p \<noteq> None)"
proof (induction xs rule: rev_induct)
  case (snoc x xs)
  let ?m = "foldl (\<lambda>acc s. collectSet lc s acc) [] xs"
  have "oget (foldl (\<lambda>acc s. collectSet lc s acc) [] (xs @ [x])) p = (oget ?m ++ oget (collectSet lc x [])) p"
    using oget_collectSet[of lc x ?m] by simp
  with snoc.IH show ?case by (auto simp: map_add_None simp del: not_None_eq)
qed simp

lemma oget_rev_None: "oget (rev m) p = None \<longleftrightarrow> oget m p = None"
  by (simp add: map_of_eq_None_iff)

lemma stored_in_set:
  assumes "first_in_set (null_here p) s = None"
  shows "first_in_set (value_here p) s \<noteq> None \<longleftrightarrow> oget (collectSet lc s []) p \<noteq> None"
  using assms
proof (induction s rule: inherited_set_induct)
  case (InheritedSet sid sname ps wk inh)
  from InheritedSet.prems have own: "oget ps p \<noteq> Some JNull"
    by (auto simp: first_in_set_unfold null_here_def simp del: first_in_set.simps split: option.splits)
  show ?case
  proof (cases inh)
    case None
    with own show ?thesis
      by (auto simp: first_in_set_unfold not_null_def oget_oassign oget_rev_None simp del: first_in_set.simps split: option.split)
  next
    case (Some m)
    have nested: "first_in_set (null_here p) u = None" if "u \<in> snd ` set m" for u
      using InheritedSet.prems that
      by (auto simp: Some first_in_set_unfold first_some_None_iff simp del: first_in_set.simps split: option.splits)
    have each: "first_in_set (value_here p) u \<noteq> None \<longleftrightarrow> oget (collectSet lc u []) p \<noteq> None" if "u \<in> snd ` set m" for u
    proof -
      from that obtain k where "(k, u) \<in> set m" by auto
      then show ?thesis using InheritedSet.IH[OF Some] nested[OF that] by blast
    qed
    have "first_some (first_in_set (value_here p)) (map snd m) \<noteq> None
        \<longleftrightarrow> (\<exists>u\<in>snd ` set m. first_in_set (value_here p) u \<noteq> None)"
      unfolding first_some_None_iff by simp
    also have "\<dots> \<longleftrightarrow> (\<exists>u\<in>snd ` set m. oget (collectSet lc u []) p \<noteq> None)"
      by (rule bex_cong[OF refl each])
    also have "\<dots> \<longleftrightarrow> oget (foldl (\<lambda>acc s. collectSet lc s acc) [] (by_source lc (map snd m))) p \<noteq> None"
      unfolding dom_collect_sets by simp
    finally have sets: "first_some (first_in_set (value_here p)) (map snd m) \<noteq> None
        \<longleftrightarrow> oget (foldl (\<lambda>acc s. collectSet lc s acc) [] (by_source lc (map snd m))) p \<noteq> None" .
    have "oget (collectSet lc (InheritedSet sid sname ps wk inh) []) p \<noteq> None
        \<longleftrightarrow> oget ps p \<noteq> None \<or> oget (foldl (\<lambda>acc s. collectSet lc s acc) [] (by_source lc (map snd m))) p \<noteq> None"
      by (auto simp: Some oget_oassign map_add_None oget_rev_None simp del: not_None_eq)
    also have "\<dots> \<longleftrightarrow> first_in_set (value_here p) (InheritedSet sid sname ps wk inh) \<noteq> None"
      unfolding sets[symmetric] first_in_set_unfold using own by (auto simp: not_null_def Some split: option.split)
    finally show ?thesis by blast
  qed
qed

lemma stored_iff_stated:
  assumes "no_null p t" shows "storedValue t p \<noteq> None \<longleftrightarrow> oget (statedProperties lc t) p \<noteq> None"
proof (cases "tInheritedOverrides t")
  case None
  with assms show ?thesis
    by (auto simp: no_null_def storedValue_def not_null_def firstInStoredSets_def statedProperties_def collectOverrides_def
        oget_oassign oget_rev_None split: option.splits)
next
  case (Some m)
  have "first_in_set (null_here p) u = None" if "u \<in> snd ` set m" for u
    using assms that by (auto simp: no_null_def Some firstInStoredSets_def first_some_None_iff)
  then have "firstInStoredSets (tInheritedOverrides t) (value_here p) \<noteq> None
      \<longleftrightarrow> (\<exists>u\<in>snd ` set m. oget (collectSet lc u []) p \<noteq> None)"
    unfolding Some firstInStoredSets_def option.case first_some_None_iff using stored_in_set[of p _ lc] by auto
  also have "\<dots> \<longleftrightarrow> oget (collectOverrides lc (tInheritedOverrides t) []) p \<noteq> None"
    unfolding Some collectOverrides_def option.case dom_collect_sets by simp
  finally have sets: "firstInStoredSets (tInheritedOverrides t) (value_here p) \<noteq> None
      \<longleftrightarrow> oget (collectOverrides lc (tInheritedOverrides t) []) p \<noteq> None" .
  have "oget (statedProperties lc t) p \<noteq> None \<longleftrightarrow> oget (tProperties t) p \<noteq> None \<or> oget (collectOverrides lc (tInheritedOverrides t) []) p \<noteq> None"
    by (auto simp: statedProperties_def oget_oassign map_add_None oget_rev_None simp del: not_None_eq)
  with assms show ?thesis unfolding sets[symmetric]
    by (auto simp: no_null_def storedValue_def not_null_def split: option.splits)
qed


text \<open>The names of a Thing's archetypes tell them apart.\<close>

definition names_tell :: "(string \<Rightarrow> string \<Rightarrow> int) \<Rightarrow> is_lookup \<Rightarrow> bool" where
  "names_tell lc l \<longleftrightarrow> list_all (\<lambda>(i, ids). let ps = List.map_filter (oget (il_byId l)) ids in
     list_all (\<lambda>a. list_all (\<lambda>b. lc (tName a) (tName b) \<le> 0 \<longrightarrow> lc (tName b) (tName a) \<le> 0 \<longrightarrow> a = b) ps) ps) (il_isParents l)"

lemma named_apart:
  assumes "names_tell lc l" and "a \<in> set (held_parents l t)" and "b \<in> set (held_parents l t)"
    and "lc (tName a) (tName b) \<le> 0" and "lc (tName b) (tName a) \<le> 0"
  shows "a = b"
proof (cases "oget (il_isParents l) (tId t)")
  case None
  with assms(2) show ?thesis by (simp add: held_parents_def List.map_filter_simps split: if_splits)
next
  case (Some ids)
  from assms(2,3) Some have "a \<in> set (List.map_filter (oget (il_byId l)) ids)" "b \<in> set (List.map_filter (oget (il_byId l)) ids)"
    by (simp_all add: held_parents_def split: if_splits)
  with map_of_SomeD[OF Some] assms(1,4,5) show ?thesis
    unfolding names_tell_def Let_def list_all_iff by fast
qed

lemma same_precedence:
  assumes "collation lc" and "names_tell lc l" and "tId t \<noteq> []"
  shows "first_some f (ancestorsInPrecedenceOrder lc l t) = first_some f (rev (by_name lc (held_parents l t)))"
proof -
  let ?R = "\<lambda>a b. lc (tName b) (tName a) \<le> 0"
  have order: "ancestorsInPrecedenceOrder lc l t = sort_by (\<lambda>a b. lc (tName b) (tName a)) (held_parents l t)"
    using assms(3) by (simp add: ancestorsInPrecedenceOrder_def held_parents_def)
  have "sorted_wrt ?R (sort_by (\<lambda>a b. lc (tName b) (tName a)) (held_parents l t))"
    by (rule collation.sorted_reversed[OF assms(1)])
  moreover have "sorted_wrt ?R (rev (by_name lc (held_parents l t)))"
    unfolding sorted_wrt_rev by (rule collation.sorted_on[OF assms(1)])
  ultimately show ?thesis unfolding order
    by (rule first_some_sorted) (use named_apart[OF assms(2)] in simp_all)
qed

text \<open>An identifier whose Thing resolves nothing under the name.\<close>

definition barren :: "(string \<Rightarrow> string \<Rightarrow> int) \<Rightarrow> is_lookup \<Rightarrow> (string \<Rightarrow> nat) \<Rightarrow> string \<Rightarrow> string \<Rightarrow> bool" where
  "barren lc l rank p i \<longleftrightarrow> (\<forall>u. held l u \<longrightarrow> tId u = i \<longrightarrow> source_at (Suc (rank i)) lc l p u = None)"

definition well_visited :: "(string \<Rightarrow> string \<Rightarrow> int) \<Rightarrow> is_lookup \<Rightarrow> (string \<Rightarrow> nat) \<Rightarrow> string \<Rightarrow> nat \<Rightarrow> string list \<Rightarrow> bool" where
  "well_visited lc l rank p r V \<longleftrightarrow> (\<forall>v\<in>set V. barren lc l rank p v \<or> r \<le> rank v)"

text \<open>One Thing at the front of the walk: it is the end of it where it has a source, and otherwise the
  walk goes on to the rest having visited only what resolves nothing.\<close>

definition walks_on :: "(string \<Rightarrow> string \<Rightarrow> int) \<Rightarrow> is_lookup \<Rightarrow> (string \<Rightarrow> nat) \<Rightarrow> string \<Rightarrow> vos_thing option
   \<Rightarrow> vos_thing list \<Rightarrow> vos_thing list \<Rightarrow> string list \<Rightarrow> bool" where
  "walks_on lc l rank p source front ts V \<longleftrightarrow> (case source of
     Some s \<Rightarrow> first_up (\<lambda>t. storedValue t p \<noteq> None) lc l (front @ ts) V = Some s
   | None \<Rightarrow> (\<exists>W. first_up (\<lambda>t. storedValue t p \<noteq> None) lc l (front @ ts) V = first_up (\<lambda>t. storedValue t p \<noteq> None) lc l ts W
       \<and> (\<forall>w\<in>set W - set V. barren lc l rank p w)))"

lemma walks_on_list:
  assumes each: "\<And>q ts V. q \<in> set xs \<Longrightarrow> well_visited lc l rank p r V \<Longrightarrow> walks_on lc l rank p (f q) [q] ts V"
    and "well_visited lc l rank p r V"
  shows "walks_on lc l rank p (first_some f xs) xs ts V"
  using assms
proof (induction xs arbitrary: V)
  case Nil
  then show ?case by (auto simp: walks_on_def)
next
  case (Cons q xs)
  have front: "walks_on lc l rank p (f q) [q] (xs @ ts) V" by (rule Cons.prems(1)) (simp_all add: Cons.prems(2))
  show ?case
  proof (cases "f q")
    case (Some s)
    with front show ?thesis by (simp add: walks_on_def del: first_up.simps)
  next
    case None
    with front obtain W where W: "first_up (\<lambda>t. storedValue t p \<noteq> None) lc l (q # xs @ ts) V
        = first_up (\<lambda>t. storedValue t p \<noteq> None) lc l (xs @ ts) W" "\<forall>w\<in>set W - set V. barren lc l rank p w"
      by (auto simp: walks_on_def simp del: first_up.simps)
    have "well_visited lc l rank p r W" using W(2) Cons.prems(2) unfolding well_visited_def by blast
    then have "walks_on lc l rank p (first_some f xs) xs ts W" using Cons.IH Cons.prems(1) by simp
    with W None show ?thesis unfolding walks_on_def
      by (auto split: option.splits simp del: first_up.simps)
  qed
qed

lemma walks_on_thing:
  assumes keyed: "keyed_lookup l" and climbs: "climbs l rank" and "collation lc" and tell: "names_tell lc l"
    and nulls: "\<And>u. held l u \<Longrightarrow> no_null p u"
  shows "rank (tId t) < n \<Longrightarrow> held l t \<Longrightarrow> well_visited lc l rank p (Suc (rank (tId t))) V \<Longrightarrow>
    walks_on lc l rank p (source_at n lc l p t) [t] ts V"
proof (induction n arbitrary: t ts V)
  case (Suc n)
  have id: "tId t \<noteq> []" using keyed_held[OF keyed Suc.prems(2)] by simp
  have stored: "storedValue t p \<noteq> None \<longleftrightarrow> oget (statedProperties lc t) p \<noteq> None"
    by (rule stored_iff_stated[OF nulls[OF Suc.prems(2)]])
  have source: "source_at (Suc (rank (tId t))) lc l p t = source_at (Suc n) lc l p t"
    using source_fuel[OF climbs, of t "Suc (rank (tId t))" "Suc n"] Suc.prems(1) by (simp del: source_at.simps)
  show ?case
  proof (cases "storedValue t p \<noteq> None")
    case True
    with stored show ?thesis by (simp add: walks_on_def)
  next
    case False
    show ?thesis
    proof (cases "tId t \<in> set V")
      case True
      with Suc.prems(3) have "barren lc l rank p (tId t)" unfolding well_visited_def by auto
      with Suc.prems(2) source have "source_at (Suc n) lc l p t = None" unfolding barren_def by (simp del: source_at.simps)
      moreover have "first_up (\<lambda>t. storedValue t p \<noteq> None) lc l (t # ts) V = first_up (\<lambda>t. storedValue t p \<noteq> None) lc l ts V"
        using False True by simp
      ultimately show ?thesis unfolding walks_on_def by (auto simp del: source_at.simps first_up.simps)
    next
      case outside: False
      let ?anc = "ancestorsInPrecedenceOrder lc l t"
      have inherited: "source_at (Suc n) lc l p t = first_some (source_at n lc l p) ?anc"
        using False stored by (simp add: same_precedence[OF assms(3) tell id])
      have "walks_on lc l rank p (first_some (source_at n lc l p) ?anc) ?anc ts (sadd (tId t) V)"
      proof (rule walks_on_list[where r = "rank (tId t)"])
        fix q ts' W assume q: "q \<in> set ?anc" and W: "well_visited lc l rank p (rank (tId t)) W"
        from q id have parent: "q \<in> set (held_parents l t)"
          by (simp add: ancestorsInPrecedenceOrder_def held_parents_def)
        note rank = parent_rank[OF climbs parent]
        show "walks_on lc l rank p (source_at n lc l p q) [q] ts' W"
        proof (rule Suc.IH)
          show "rank (tId q) < n" using rank Suc.prems(1) by simp
          show "held l q" by (rule parent_held[OF keyed parent])
          show "well_visited lc l rank p (Suc (rank (tId q))) W" using W rank unfolding well_visited_def by force
        qed
      next
        show "well_visited lc l rank p (rank (tId t)) (sadd (tId t) V)"
          using Suc.prems(3) unfolding well_visited_def by auto
      qed
      moreover have "first_up (\<lambda>t. storedValue t p \<noteq> None) lc l (t # ts) V
          = first_up (\<lambda>t. storedValue t p \<noteq> None) lc l (?anc @ ts) (sadd (tId t) V)"
        using False outside by simp
      moreover have "barren lc l rank p (tId t)" if "source_at (Suc n) lc l p t = None"
        unfolding barren_def
      proof (intro allI impI)
        fix u assume "held l u" and "tId u = tId t"
        with Suc.prems(2) have "u = t" by simp
        with that source show "source_at (Suc (rank (tId t))) lc l p u = None" by simp
      qed
      ultimately show ?thesis unfolding walks_on_def inherited
        by (fastforce simp del: source_at.simps first_up.simps split: option.splits)
    qed
  qed
qed simp

text \<open>C29. The origin shown is of the value shown. In a model whose \<open>is\<close> relationships do not run in a
  circle, whose archetypes are told apart by their names and which stores no \<open>null\<close> under a name, a
  Thing that resolves the name draws exactly what the Thing its origin is read from states, the origin
  is called assumed exactly where that is another Thing, and it then names it; a name that resolves to
  nothing has no origin.\<close>

theorem origin_of_value_drawn:
  assumes "keyed_lookup l" and "climbs l rank" and "held l t" and "rank (tId t) < n" and "collation lc"
    and "names_tell lc l" and "list_all (\<lambda>(i, u). no_null p u) (il_byId l)"
  shows "\<exists>r kept. effectiveProperties n lc l t [] = Some (r, kept) \<and>
    (case statedBy lc l t p of
       None \<Rightarrow> oget r p = None \<and> valueOrigin lc l t p = \<lparr>vo_origin = UnknownOrigin, vo_assumedFrom = None\<rparr>
     | Some s \<Rightarrow> oget r p \<noteq> None \<and> oget r p = oget (statedProperties lc s) p
         \<and> vo_assumedFrom (valueOrigin lc l t p) = (if s = t then None else Some (tName s))
         \<and> (vo_origin (valueOrigin lc l t p) = Assumed \<longleftrightarrow> s \<noteq> t))"
proof -
  obtain r c where r: "resolveEffective n lc l t ([], []) = Some (r, [], c)" "\<forall>p. oget r p = value_at n lc l p t"
    using resolve_ranked[OF assms(1,2,4,3) _ kept_right_Nil, of "[]" lc] by auto
  have "no_null p u" if "held l u" for u using map_of_SomeD[OF that] assms(7) unfolding list_all_iff by fast
  moreover have "well_visited lc l rank p (Suc (rank (tId t))) []" by (simp add: well_visited_def)
  ultimately have "walks_on lc l rank p (source_at n lc l p t) [t] [] []"
    by (intro walks_on_thing[OF assms(1,2,5,6) _ assms(4,3)])
  then have source: "statedBy lc l t p = source_at n lc l p t"
    by (auto simp: walks_on_def statedBy_def simp del: first_up.simps(2) split: option.splits)
  have "value_at n lc l p t \<noteq> None" if "source_at n lc l p t = Some s" for s
    using source_states[OF that] that by (simp add: value_at_def)
  with r show ?thesis unfolding source effectiveProperties_def valueOrigin_def
    by (auto simp: value_at_def source split: option.splits write_kind.splits)
qed

lemma origin_of_value_drawn_witness:
  "\<exists>r kept. effectiveProperties 2 compare_code_units tank_lookup (archetype_thing ''tank'' [(''level'', JBool True)]) [] = Some (r, kept)
     \<and> oget r ''capacity'' = Some (JStr ''large'')
     \<and> vo_assumedFrom (valueOrigin compare_code_units tank_lookup (archetype_thing ''tank'' [(''level'', JBool True)]) ''capacity'') = Some ''vessel''"
proof -
  let ?t = "archetype_thing ''tank'' [(''level'', JBool True)]"
  have rank: "tank_rank (tId ?t) < 2" by (simp add: archetype_thing_def tank_rank_def)
  have tell: "names_tell compare_code_units tank_lookup" by code_simp
  have nulls: "list_all (\<lambda>(i, u). no_null ''capacity'' u) (il_byId tank_lookup)"
    by (simp add: tank_lookup_def archetype_thing_def no_null_def firstInStoredSets_def)
  have stated: "statedBy compare_code_units tank_lookup ?t ''capacity'' = Some (archetype_thing ''vessel'' [(''capacity'', JStr ''large''), (''level'', JNull)])"
    by code_simp
  from origin_of_value_drawn[OF tank_facts rank code_unit_collation.collation_axioms tell nulls]
  show ?thesis unfolding stated by (auto simp: archetype_thing_def statedProperties_def collectOverrides_def)
qed

text \<open>Where two archetypes share a name the two disagree: the value drawn is the later one's, the value
  the origin is read from the earlier one's.\<close>

definition twins_lookup :: is_lookup where
  "twins_lookup = \<lparr>il_byId = [(''x'', archetype_thing ''x'' []),
       (''a'', (archetype_thing ''a'' [(''size'', JStr ''first'')])\<lparr>tName := ''twin''\<rparr>),
       (''b'', (archetype_thing ''b'' [(''size'', JStr ''second'')])\<lparr>tName := ''twin''\<rparr>)],
     il_isParents = [(''x'', [''a'', ''b''])]\<rparr>"

lemma twins_disagree:
  "Option.bind (effectiveProperties 2 compare_code_units twins_lookup (archetype_thing ''x'' []) []) (\<lambda>(r, kept). oget r ''size'') = Some (JStr ''second'')"
  "map_option tId (statedBy compare_code_units twins_lookup (archetype_thing ''x'' []) ''size'') = Some ''a''"
  by code_simp+


end
