(* ===== verification/Colors.thy ===== *)
theory Colors
  imports VosTypes "HOL-Library.Word"
begin

section \<open>Colours of predicates and classes\<close>

text \<open>
  The palettes and the choice of a colour: \<open>src/utils/colors.ts\<close> (the palettes, the hash of a name
  into a palette, the colour of a predicate), \<open>src/utils/predicatePalette.ts\<close> and
  \<open>src/utils/classPalette.ts\<close>. The hash runs on 32-bit signed integers, which \<open>hash << 5\<close> and \<open>| 0\<close>
  make of a number, so it is a word of 32 bits here. A table is looked up by its own keys only; a name
  that is a member of every object (\<open>constructor\<close>, \<open>toString\<close>) is outside the model. Mixing a
  colour toward white and the ink that reads on it are floating-point and left out.
\<close>

subsection \<open>The palettes\<close>

definition INSTANCE_PALETTE :: "string list" where
  "INSTANCE_PALETTE = [''#f87171'', ''#fb923c'', ''#fbbf24'', ''#a3e635'', ''#4ade80'', ''#2dd4bf'', ''#22d3ee'',
     ''#38bdf8'', ''#818cf8'', ''#a78bfa'', ''#c084fc'', ''#e879f9'', ''#f472b6'', ''#fb7185'',
     ''#34d399'', ''#facc15'']"

definition LOGICAL_PALETTE :: "string list" where
  "LOGICAL_PALETTE = [''#fca5a5'', ''#fdba74'', ''#fcd34d'', ''#bef264'', ''#86efac'', ''#5eead4'', ''#67e8f9'',
     ''#7dd3fc'', ''#a5b4fc'', ''#c4b5fd'', ''#d8b4fe'', ''#f0abfc'', ''#f9a8d4'', ''#fda4af'',
     ''#6ee7b7'', ''#fde047'']"

definition ELEMENT_COLORS :: "string list" where
  "ELEMENT_COLORS = [''#6d8ea8'', ''#7a9b6d'', ''#a8846d'', ''#8b7da8'', ''#6da89b'', ''#a88b6d'', ''#6d7fa8'',
     ''#8da86d'']"

definition PREDICATE_PALETTE :: "string list" where
  "PREDICATE_PALETTE = [''#818cf8'', ''#fb7185'', ''#34d399'', ''#fbbf24'', ''#a78bfa'', ''#22d3ee'', ''#f472b6'',
     ''#fb923c'']"

definition CURATED_PREDICATE_COLORS :: "(string, string) omap" where
  "CURATED_PREDICATE_COLORS = [(''is'', ''#a78bfa''), (''has'', ''#86efac''), (''contains'', ''#86efac''),
     (''isContainedIn'', ''#86efac''), (''aggregates'', ''#4ade80''),
     (''isAggregatedBy'', ''#4ade80''), (''nests'', ''#4ade80''), (''hasMember'', ''#86efac''),
     (''hasMaterial'', ''#a8744d''), (''hasLayer'', ''#c8a47e''), (''hasLayerSet'', ''#c8a47e''),
     (''hasConstituent'', ''#c8a47e''), (''hasProfile'', ''#c8a47e''),
     (''hasProfileSet'', ''#c8a47e''), (''hasPort'', ''#f0abfc''), (''connectsTo'', ''#22d3ee''),
     (''connectsElement'', ''#22d3ee''), (''connectsPath'', ''#22d3ee''),
     (''connectsThrough'', ''#22d3ee''), (''services'', ''#67e8f9''), (''voids'', ''#fbbf24''),
     (''fills'', ''#fbbf24''), (''hasBoundary'', ''#fb923c''),
     (''hasClassification'', ''#67e8f9''), (''typeInfo'', ''#67e8f9''),
     (''hasDocument'', ''#a5b4fc''), (''hasConstraint'', ''#a5b4fc''), (''hasActor'', ''#fda4af''),
     (''hasProcess'', ''#bef264''), (''referencedIn'', ''#94a3b8''), (''covers'', ''#c8a47e''),
     (''interferesWith'', ''#f87171''), (''node'', ''#94a3b8''), (''value'', ''#94a3b8'')]"

datatype class_bucket = BSpatial | BStructural | BOpening | BMep | BPort | BFinish | BSite | BMaterial | BTypeDef | BOther

fun BUCKET_COLORS :: "class_bucket \<Rightarrow> string" where
  "BUCKET_COLORS BSpatial = ''#d6c1a3''"
| "BUCKET_COLORS BStructural = ''#7a98b8''"
| "BUCKET_COLORS BOpening = ''#fbbf24''"
| "BUCKET_COLORS BMep = ''#a78bfa''"
| "BUCKET_COLORS BPort = ''#f0abfc''"
| "BUCKET_COLORS BFinish = ''#c8a47e''"
| "BUCKET_COLORS BSite = ''#86efac''"
| "BUCKET_COLORS BMaterial = ''#a8744d''"
| "BUCKET_COLORS BTypeDef = ''#67e8f9''"
| "BUCKET_COLORS BOther = ''#94a3b8''"

definition IFC_BUCKET_TABLE :: "(string, class_bucket) omap" where
  "IFC_BUCKET_TABLE = [(''IfcSite'', BSpatial), (''IfcBuilding'', BSpatial), (''IfcBuildingStorey'', BSpatial),
     (''IfcSpace'', BSpatial), (''IfcProject'', BSpatial), (''IfcZone'', BSpatial),
     (''IfcWall'', BStructural), (''IfcWallStandardCase'', BStructural),
     (''IfcSlab'', BStructural), (''IfcBeam'', BStructural), (''IfcColumn'', BStructural),
     (''IfcFooting'', BStructural), (''IfcRoof'', BStructural), (''IfcMember'', BStructural),
     (''IfcPlate'', BStructural), (''IfcStair'', BStructural), (''IfcStairFlight'', BStructural),
     (''IfcRamp'', BStructural), (''IfcRampFlight'', BStructural), (''IfcRailing'', BStructural),
     (''IfcChimney'', BStructural), (''IfcCurtainWall'', BStructural), (''IfcDoor'', BOpening),
     (''IfcWindow'', BOpening), (''IfcOpeningElement'', BOpening),
     (''IfcDistributionElement'', BMep), (''IfcDistributionFlowElement'', BMep),
     (''IfcDistributionControlElement'', BMep), (''IfcFlowController'', BMep),
     (''IfcFlowTerminal'', BMep), (''IfcFlowSegment'', BMep), (''IfcFlowFitting'', BMep),
     (''IfcFlowMovingDevice'', BMep), (''IfcFlowStorageDevice'', BMep),
     (''IfcFlowTreatmentDevice'', BMep), (''IfcEnergyConversionDevice'', BMep),
     (''IfcDistributionPort'', BPort), (''IfcPort'', BPort), (''IfcCovering'', BFinish),
     (''IfcFurnishingElement'', BFinish), (''IfcFurniture'', BFinish),
     (''IfcSystemFurnitureElement'', BFinish), (''IfcGeographicElement'', BSite),
     (''IfcCivilElement'', BSite), (''IfcMaterial'', BMaterial), (''IfcMaterialLayer'', BMaterial),
     (''IfcMaterialLayerSet'', BMaterial), (''IfcMaterialLayerSetUsage'', BMaterial),
     (''IfcMaterialConstituent'', BMaterial), (''IfcMaterialConstituentSet'', BMaterial),
     (''IfcMaterialProfile'', BMaterial), (''IfcMaterialProfileSet'', BMaterial),
     (''IfcMaterialProfileSetUsage'', BMaterial)]"

record suffix_rule =
  sx_suffix :: string
  sx_bucket :: class_bucket
  sx_prefix :: "string option"

definition SUFFIX_RULES_BY_PROPERTY :: "(string, suffix_rule list) omap" where
  "SUFFIX_RULES_BY_PROPERTY = [(''ifcClass'', [\<lparr>sx_suffix = ''Type'', sx_bucket = BTypeDef, sx_prefix = Some ''Ifc''\<rparr>])]"

definition DEFAULT_BUCKET_TABLES :: "(string, (string, class_bucket) omap) omap" where
  "DEFAULT_BUCKET_TABLES = [(''ifcClass'', IFC_BUCKET_TABLE)]"

subsection \<open>The hash of a name\<close>

definition hash_step :: "32 word \<Rightarrow> char \<Rightarrow> 32 word" where
  "hash_step hash c = push_bit 5 hash - hash + of_nat (code c)"

definition hashStringToIndex :: "string \<Rightarrow> nat \<Rightarrow> nat" where
  "hashStringToIndex s paletteSize = nat \<bar>sint (foldl hash_step 0 s)\<bar> mod paletteSize"

subsection \<open>The colour of a predicate, and of a class\<close>

text \<open>A table's answer, where it is a string that is not empty.\<close>

definition colour_in :: "(string, string) omap \<Rightarrow> string \<Rightarrow> string option" where
  "colour_in table name = (case oget table name of Some [] \<Rightarrow> None | colour \<Rightarrow> colour)"

definition resolvePredicateColor :: "string \<Rightarrow> (string, string) omap \<Rightarrow> string" where
  "resolvePredicateColor name overrides = (case colour_in overrides name of Some colour \<Rightarrow> colour
     | None \<Rightarrow> (case colour_in CURATED_PREDICATE_COLORS name of Some colour \<Rightarrow> colour
     | None \<Rightarrow> PREDICATE_PALETTE ! hashStringToIndex name (length PREDICATE_PALETTE)))"

definition ends_with :: "string \<Rightarrow> string \<Rightarrow> bool" where
  "ends_with s p = starts_with (rev s) (rev p)"

definition rule_applies :: "string \<Rightarrow> suffix_rule \<Rightarrow> bool" where
  "rule_applies v r \<longleftrightarrow> ends_with v (sx_suffix r)
     \<and> (case sx_prefix r of None \<Rightarrow> True | Some p \<Rightarrow> p = [] \<or> starts_with v p)"

definition getClassBucket :: "string \<Rightarrow> string option \<Rightarrow> class_bucket" where
  "getClassBucket propertyName v = (case v of None \<Rightarrow> BOther | Some x \<Rightarrow>
     if x = [] then BOther
     else (case Option.bind (oget DEFAULT_BUCKET_TABLES propertyName) (\<lambda>table. oget table x) of
         Some bucket \<Rightarrow> bucket
       | None \<Rightarrow> (case oget SUFFIX_RULES_BY_PROPERTY propertyName of
           None \<Rightarrow> BOther
         | Some rules \<Rightarrow> (case List.find (rule_applies x) rules of Some r \<Rightarrow> sx_bucket r | None \<Rightarrow> BOther))))"

definition resolveClassColor :: "string \<Rightarrow> string option \<Rightarrow> (string, string) omap \<Rightarrow> string" where
  "resolveClassColor propertyName v overrides = (case Option.bind v (\<lambda>x. if x = [] then None else colour_in overrides x) of
     Some colour \<Rightarrow> colour | None \<Rightarrow> BUCKET_COLORS (getClassBucket propertyName v))"

subsection \<open>The hash is the polynomial, wrapped\<close>

definition polynomial_hash :: "string \<Rightarrow> int" where
  "polynomial_hash s = foldl (\<lambda>h c. 31 * h + int (code c)) 0 s"

lemma hash_step_word: "hash_step (word_of_int h) c = word_of_int (31 * h + int (code c))"
proof -
  have "push_bit 5 (word_of_int h :: 32 word) = word_of_int (32 * h)" by (simp add: push_bit_eq_mult)
  then have "hash_step (word_of_int h) c = word_of_int (32 * h - h + int (code c))" by (simp add: hash_step_def)
  also have "32 * h - h + int (code c) = 31 * h + int (code c)" by simp
  finally show ?thesis .
qed

lemma hash_word: "foldl hash_step (word_of_int h) s = word_of_int (foldl (\<lambda>h c. 31 * h + int (code c)) h s)"
  by (induction s arbitrary: h) (simp_all only: foldl_Nil foldl_Cons hash_step_word)

text \<open>Every name has a colour of its palette. The index of a name is below the size of the palette,
  and it is the polynomial of the name's characters at 31, wrapped to a signed word of 32 bits, its sign
  dropped, whatever the length of the name: so a name has one colour wherever it is drawn.\<close>

theorem hash_index_bounds:
  "(0 < k \<longrightarrow> hashStringToIndex s k < k)
   \<and> hashStringToIndex s k = nat \<bar>signed_take_bit 31 (polynomial_hash s)\<bar> mod k"
proof -
  have "foldl hash_step 0 s = word_of_int (polynomial_hash s)"
    using hash_word[of 0 s] by (simp add: polynomial_hash_def)
  then have "sint (foldl hash_step 0 s) = signed_take_bit 31 (polynomial_hash s)"
    by (simp add: signed_of_int)
  then show ?thesis by (simp add: hashStringToIndex_def)
qed

lemma hash_index_bounds_witness:
  "hashStringToIndex ''consumes'' 8 < 8 \<and> hashStringToIndex ''consumes'' 8 = 1"
proof -
  have "polynomial_hash ''consumes'' = 2825520710647" by (simp add: polynomial_hash_def code_def)
  then have "nat \<bar>signed_take_bit 31 (polynomial_hash ''consumes'')\<bar> mod 8 = 1"
    by (simp add: signed_take_bit_eq_take_bit_shift take_bit_eq_mod)
  with hash_index_bounds[of 8 "''consumes''"] show ?thesis by simp
qed

end
