(* ===== verification/PredicateCluster.thy ===== *)
theory PredicateCluster
  imports Colors
begin

section \<open>Clusters of nodes joined by a predicate\<close>

text \<open>
  \<open>src/utils/predicateCluster.ts\<close>: how often each predicate is used, and the groups of nodes the chosen
  predicates join. The graph is graphology's; what is read of it is its nodes with their kind, its edges
  in the order the library walks them, and the degree it gives a node, which is a parameter.
\<close>

record drawn_edge =
  de_predicateId :: string
  de_label :: string
  de_source :: string
  de_target :: string

record drawn_graph =
  dg_nodes :: "(string, string option) omap"
  dg_edges :: "drawn_edge list"

record predicate_statistics =
  ps_predicateId :: string
  ps_predicateName :: string
  ps_edgeCount :: int
  ps_color :: string

record cluster_map =
  cl_nodeCluster :: "(string, int) omap"
  cl_clusters :: "string list list"
  cl_representatives :: "(int, string) omap"

subsection \<open>How often each predicate is used\<close>

definition buildPredicateStatisticsArray ::
  "(string, string \<times> int) omap \<Rightarrow> (string, string) omap \<Rightarrow> predicate_statistics list" where
  "buildPredicateStatisticsArray counts predicateColors =
     sort_by (\<lambda>a b. ps_edgeCount b - ps_edgeCount a)
       (map (\<lambda>(predicateId, (name, count)). \<lparr>ps_predicateId = predicateId, ps_predicateName = name, ps_edgeCount = count,
          ps_color = resolvePredicateColor name predicateColors\<rparr>) counts)"

definition count_predicate :: "string \<Rightarrow> string \<Rightarrow> (string, string \<times> int) omap \<Rightarrow> (string, string \<times> int) omap" where
  "count_predicate predicateId name counts = (case oget counts predicateId of
     Some (n, count) \<Rightarrow> oput predicateId (n, count + 1) counts
   | None \<Rightarrow> oput predicateId (name, 1) counts)"

definition computePredicateStatistics :: "drawn_graph \<Rightarrow> (string, string) omap \<Rightarrow> predicate_statistics list" where
  "computePredicateStatistics graph predicateColors = buildPredicateStatisticsArray
     (foldl (\<lambda>counts e. count_predicate (de_predicateId e) (if de_label e \<noteq> [] then de_label e else de_predicateId e) counts) []
        (dg_edges graph)) predicateColors"

definition computePredicateStatisticsFromModel ::
  "vos_thing list \<Rightarrow> vos_relationship list \<Rightarrow> (string, string) omap \<Rightarrow> predicate_statistics list" where
  "computePredicateStatisticsFromModel things relationships predicateColors =
     (let thingNames = of_entries (map (\<lambda>t. (tId t, tName t)) things) in
      buildPredicateStatisticsArray
        (foldl (\<lambda>counts r. count_predicate (rPredicateId r)
            (case oget thingNames (rPredicateId r) of Some n \<Rightarrow> n | None \<Rightarrow> rPredicateId r) counts) [] relationships)
        predicateColors)"

subsection \<open>The clusters\<close>

text \<open>An edge joins its two nodes where its predicate is chosen and neither is a predicate itself.\<close>

definition joins :: "drawn_graph \<Rightarrow> string list \<Rightarrow> drawn_edge \<Rightarrow> bool" where
  "joins graph predicateIds e \<longleftrightarrow> de_predicateId e \<in> set predicateIds
     \<and> oget (dg_nodes graph) (de_source e) \<noteq> Some (Some ''predicate'')
     \<and> oget (dg_nodes graph) (de_target e) \<noteq> Some (Some ''predicate'')"

definition neighbours :: "(string, string list) omap \<Rightarrow> string \<Rightarrow> string list" where
  "neighbours adj n = (case oget adj n of Some ns \<Rightarrow> ns | None \<Rightarrow> [])"

definition ensure_node :: "string \<Rightarrow> (string, string list) omap \<Rightarrow> (string, string list) omap" where
  "ensure_node n adj = (if ohas adj n then adj else oput n [] adj)"

definition add_neighbour :: "string \<Rightarrow> string \<Rightarrow> (string, string list) omap \<Rightarrow> (string, string list) omap" where
  "add_neighbour n m adj = oput n (sadd m (neighbours adj n)) adj"

definition join_ends :: "drawn_edge \<Rightarrow> (string, string list) omap \<Rightarrow> (string, string list) omap" where
  "join_ends e adj = add_neighbour (de_target e) (de_source e) (add_neighbour (de_source e) (de_target e)
     (ensure_node (de_target e) (ensure_node (de_source e) adj)))"

definition adjacency :: "drawn_graph \<Rightarrow> string list \<Rightarrow> (string, string list) omap" where
  "adjacency graph predicateIds = foldl (\<lambda>adj e. if joins graph predicateIds e then join_ends e adj else adj) [] (dg_edges graph)"

text \<open>Breadth first from a node: the queue, the nodes visited so far and the component.\<close>

definition all_neighbours :: "(string, string list) omap \<Rightarrow> string set" where
  "all_neighbours adj = set (concat (map snd adj))"

lemma finite_all_neighbours [simp]: "finite (all_neighbours adj)"
  by (simp add: all_neighbours_def)

lemma neighbours_all: "set (neighbours adj n) \<subseteq> all_neighbours adj"
proof (cases "oget adj n")
  case (Some ns)
  with map_of_SomeD[OF Some] show ?thesis by (force simp: neighbours_def all_neighbours_def)
qed (simp add: neighbours_def)

function flood :: "(string, string list) omap \<Rightarrow> string list \<Rightarrow> string list \<Rightarrow> string list \<Rightarrow> string list \<times> string list" where
  "flood adj [] visited component = (component, visited)"
| "flood adj (node # queue) visited component =
     (let fresh = remdups (filter (\<lambda>n. n \<notin> set visited) (neighbours adj node)) in
      flood adj (queue @ fresh) (visited @ fresh) (sadd node component))"
  by pat_completeness auto
termination
proof (relation "measure (\<lambda>(adj, queue, visited, component). 2 * card (all_neighbours adj - set visited) + length queue)", goal_cases)
  case 1 then show ?case by simp
next
  case (2 adj node queue visited component fresh)
  have fresh: "set fresh \<subseteq> all_neighbours adj - set visited" "distinct fresh"
    using neighbours_all[of adj node] by (auto simp: 2)
  have "all_neighbours adj - set (visited @ fresh) = (all_neighbours adj - set visited) - set fresh" by auto
  then have "card (all_neighbours adj - set (visited @ fresh)) = card (all_neighbours adj - set visited) - length fresh"
    using fresh by (simp add: card_Diff_subset distinct_card)
  moreover have "length fresh \<le> card (all_neighbours adj - set visited)"
    using fresh by (metis card_mono distinct_card finite_Diff finite_all_neighbours)
  ultimately show ?case by simp
qed

fun flood_all :: "(string, string list) omap \<Rightarrow> string list \<Rightarrow> string list \<Rightarrow> string list list" where
  "flood_all adj [] visited = []"
| "flood_all adj (start # starts) visited =
     (if start \<in> set visited then flood_all adj starts visited
      else (case flood adj [start] (visited @ [start]) [] of
        (component, visited') \<Rightarrow> component # flood_all adj starts visited'))"

definition cluster_indices :: "string list list \<Rightarrow> (string, int) omap" where
  "cluster_indices clusters = oassign [] (concat (map (\<lambda>(i, component). map (\<lambda>n. (n, int i)) component) (enumerate 0 clusters)))"

definition mark_unclustered :: "(string, int) omap \<Rightarrow> string list \<Rightarrow> (string, int) omap" where
  "mark_unclustered nodeCluster nodes = foldl (\<lambda>m n. if ohas m n then m else oput n (- 1) m) nodeCluster nodes"

text \<open>The first of the nodes of the highest degree; a cluster whose best node has no name has none.\<close>

definition best_of :: "(string \<Rightarrow> int) \<Rightarrow> string list \<Rightarrow> string \<times> int" where
  "best_of degree component = foldl (\<lambda>(bestNode, bestDegree) n. if bestDegree < degree n then (n, degree n) else (bestNode, bestDegree))
     ([], - 1) component"

definition pickClusterRepresentatives :: "(string \<Rightarrow> int) \<Rightarrow> string list list \<Rightarrow> (int, string) omap" where
  "pickClusterRepresentatives degree clusters = oassign [] (List.map_filter (\<lambda>(i, component).
     (let bestNode = fst (best_of degree component) in if bestNode = [] then None else Some (int i, bestNode))) (enumerate 0 clusters))"

definition computeClusters :: "(string \<Rightarrow> int) \<Rightarrow> drawn_graph \<Rightarrow> string list \<Rightarrow> cluster_map" where
  "computeClusters degree graph predicateIds =
     (let adj = adjacency graph predicateIds; clusters = flood_all adj (map fst adj) [] in
      \<lparr>cl_nodeCluster = mark_unclustered (cluster_indices clusters) (map fst (dg_nodes graph)),
       cl_clusters = clusters, cl_representatives = pickClusterRepresentatives degree clusters\<rparr>)"

subsection \<open>The clusters are the connected components\<close>

text \<open>The nodes the chosen predicates join, either way round.\<close>

definition joined :: "drawn_graph \<Rightarrow> string list \<Rightarrow> (string \<times> string) set" where
  "joined graph predicateIds = {(a, b). \<exists>e\<in>set (dg_edges graph). joins graph predicateIds e
     \<and> (a = de_source e \<and> b = de_target e \<or> a = de_target e \<and> b = de_source e)}"

definition adj_edges :: "(string, string list) omap \<Rightarrow> (string \<times> string) set" where
  "adj_edges adj = {(a, b). b \<in> set (neighbours adj a)}"

lemma neighbours_oput [simp]: "neighbours (oput n ns adj) x = (if x = n then ns else neighbours adj x)"
  by (simp add: neighbours_def)

lemma neighbours_add [simp]:
  "set (neighbours (add_neighbour n m adj) x) = set (neighbours adj x) \<union> (if x = n then {m} else {})"
  by (auto simp: add_neighbour_def)

lemma neighbours_ensure [simp]: "neighbours (ensure_node n adj) x = neighbours adj x"
  by (cases "oget adj n") (auto simp: neighbours_def ensure_node_def ohas_iff_oget)

lemma keys_add [simp]: "fst ` set (add_neighbour n m adj) = insert n (fst ` set adj)"
  by (simp add: add_neighbour_def)

lemma keys_ensure [simp]: "fst ` set (ensure_node n adj) = insert n (fst ` set adj)"
  by (auto simp: ensure_node_def ohas_def)

lemma keys_join_ends [simp]: "fst ` set (join_ends e adj) = {de_source e, de_target e} \<union> fst ` set adj"
  by (simp add: join_ends_def insert_commute)

lemma adj_edges_join_ends:
  "adj_edges (join_ends e adj) = {(de_source e, de_target e), (de_target e, de_source e)} \<union> adj_edges adj"
  by (auto simp: adj_edges_def join_ends_def split: if_splits)

lemma adjacency_fold_edges:
  "adj_edges (foldl (\<lambda>adj e. if joins graph ps e then join_ends e adj else adj) adj es)
     = adj_edges adj \<union> {(a, b). \<exists>e\<in>set es. joins graph ps e \<and> (a = de_source e \<and> b = de_target e \<or> a = de_target e \<and> b = de_source e)}"
proof (induction es arbitrary: adj)
  case (Cons e es)
  show ?case unfolding foldl_Cons Cons.IH by (cases "joins graph ps e") (auto simp: adj_edges_join_ends)
qed simp

lemma adjacency_fold_keys:
  "fst ` set (foldl (\<lambda>adj e. if joins graph ps e then join_ends e adj else adj) adj es)
     = fst ` set adj \<union> {a. \<exists>e\<in>set es. joins graph ps e \<and> (a = de_source e \<or> a = de_target e)}"
proof (induction es arbitrary: adj)
  case (Cons e es)
  show ?case unfolding foldl_Cons Cons.IH by (cases "joins graph ps e") auto
qed simp

lemma adjacency_joined:
  "adj_edges (adjacency graph ps) = joined graph ps" "fst ` set (adjacency graph ps) = Domain (joined graph ps)"
  unfolding adjacency_def adjacency_fold_edges adjacency_fold_keys
  by (auto simp: joined_def adj_edges_def neighbours_def)

lemma sym_joined: "sym (joined graph ps)"
  by (auto simp: sym_def joined_def)

text \<open>One flood: from a node outside what earlier floods visited, over a symmetric relation.\<close>

definition flooding :: "(string \<times> string) set \<Rightarrow> string set \<Rightarrow> string \<Rightarrow> string list \<Rightarrow> string list \<Rightarrow> string list \<Rightarrow> bool" where
  "flooding E V0 k queue visited component \<longleftrightarrow>
     set visited = V0 \<union> set component \<union> set queue \<and> set component \<union> set queue \<subseteq> E\<^sup>* `` {k}
     \<and> E `` set component \<subseteq> set visited \<and> k \<in> set component \<union> set queue \<and> distinct component"

lemma flood_flooding:
  "flooding (adj_edges adj) V0 k queue visited component \<Longrightarrow>
   (case flood adj queue visited component of (c, v) \<Rightarrow> flooding (adj_edges adj) V0 k [] v c)"
proof (induction adj queue visited component rule: flood.induct)
  case (2 adj node queue visited component)
  define fresh where "fresh = remdups (filter (\<lambda>n. n \<notin> set visited) (neighbours adj node))"
  have reach: "set fresh \<subseteq> (adj_edges adj)\<^sup>* `` {k}"
  proof
    fix n assume "n \<in> set fresh"
    then have "(node, n) \<in> adj_edges adj" by (simp add: fresh_def adj_edges_def)
    moreover have "(k, node) \<in> (adj_edges adj)\<^sup>*" using 2(2) by (auto simp: flooding_def)
    ultimately show "n \<in> (adj_edges adj)\<^sup>* `` {k}" by (auto intro: rtrancl.rtrancl_into_rtrancl)
  qed
  have "adj_edges adj `` {node} \<subseteq> set visited \<union> set fresh" by (auto simp: fresh_def adj_edges_def)
  with 2(2) reach have "flooding (adj_edges adj) V0 k (queue @ fresh) (visited @ fresh) (sadd node component)"
    unfolding flooding_def by (auto simp: sadd_def)
  from 2(1)[OF fresh_def this] show ?case by (simp add: Let_def fresh_def)
qed simp

lemma closed_apart:
  assumes "sym E" and "E `` V0 \<subseteq> V0" and "k \<notin> V0" shows "E\<^sup>* `` {k} \<inter> V0 = {}"
proof -
  have "x \<notin> V0" if "(k, x) \<in> E\<^sup>*" for x
    using that by (induction) (use assms in \<open>auto simp: sym_def\<close>)
  then show ?thesis by auto
qed

lemma flooding_done:
  assumes "sym E" and "E `` V0 \<subseteq> V0" and "k \<notin> V0" and "flooding E V0 k [] visited component"
  shows "set component = E\<^sup>* `` {k}" and "set visited = V0 \<union> E\<^sup>* `` {k}" and "distinct component"
proof -
  have inside: "x \<in> set component" if "(k, x) \<in> E\<^sup>*" for x
    using that
  proof (induction)
    case base
    with assms(4) show ?case by (simp add: flooding_def)
  next
    case (step y z)
    then have "z \<in> E\<^sup>* `` {k}" by (auto intro: rtrancl.rtrancl_into_rtrancl)
    with closed_apart[OF assms(1-3)] have "z \<notin> V0" by blast
    with step assms(4) show ?case unfolding flooding_def by auto
  qed
  with assms(4) show "set component = E\<^sup>* `` {k}" unfolding flooding_def by auto
  with assms(4) show "set visited = V0 \<union> E\<^sup>* `` {k}" "distinct component" unfolding flooding_def by auto
qed

lemma flood_all_components:
  assumes "sym (adj_edges adj)"
  shows "adj_edges adj `` set visited \<subseteq> set visited \<Longrightarrow>
    (\<forall>C\<in>set (flood_all adj starts visited). \<exists>k. set C = (adj_edges adj)\<^sup>* `` {k})
    \<and> \<Union> (set ` set (flood_all adj starts visited)) = (adj_edges adj)\<^sup>* `` set starts - set visited
    \<and> distinct (concat (flood_all adj starts visited))"
proof (induction starts arbitrary: visited)
  case (Cons start starts)
  let ?E = "adj_edges adj"
  show ?case
  proof (cases "start \<in> set visited")
    case True
    have "?E\<^sup>* `` {start} \<subseteq> set visited"
    proof
      fix x assume "x \<in> ?E\<^sup>* `` {start}"
      then have "(start, x) \<in> ?E\<^sup>*" by simp
      then show "x \<in> set visited" by (induction) (use True Cons.prems in auto)
    qed
    then have "?E\<^sup>* `` set (start # starts) - set visited = ?E\<^sup>* `` set starts - set visited" by auto
    with Cons.IH[OF Cons.prems] True show ?thesis by simp
  next
    case False
    obtain c v where cv: "flood adj [start] (visited @ [start]) [] = (c, v)" by (cases "flood adj [start] (visited @ [start]) []")
    have "flooding ?E (set visited) start [start] (visited @ [start]) []" by (auto simp: flooding_def)
    from flood_flooding[OF this] cv have "flooding ?E (set visited) start [] v c" by simp
    from flooding_done[OF assms Cons.prems False this]
    have c: "set c = ?E\<^sup>* `` {start}" "set v = set visited \<union> ?E\<^sup>* `` {start}" "distinct c" .
    have apart: "?E\<^sup>* `` {start} \<inter> set visited = {}" by (rule closed_apart[OF assms Cons.prems False])
    have "?E `` set v \<subseteq> set v"
      using Cons.prems unfolding c(2) by (auto intro: rtrancl.rtrancl_into_rtrancl)
    note rest = Cons.IH[OF this]
    have "?E\<^sup>* `` set (start # starts) - set visited = ?E\<^sup>* `` {start} \<union> (?E\<^sup>* `` set starts - set v)"
      unfolding c(2) using apart by auto
    with rest c False cv show ?thesis by auto
  qed
qed simp

lemma oget_iff_member: "distinct (map fst m) \<Longrightarrow> oget m k = Some v \<longleftrightarrow> (k, v) \<in> set m"
  by (metis map_of_SomeD map_of_is_SomeI)

lemma index_keys: "map fst (concat (map (\<lambda>(i, component). map (\<lambda>n. (n, int i)) component) (enumerate k cs))) = concat cs"
  by (induction cs arbitrary: k) (simp_all add: comp_def)

lemma cluster_indices_iff:
  assumes "distinct (concat cs)"
  shows "oget (cluster_indices cs) n = Some j \<longleftrightarrow> (\<exists>i<length cs. j = int i \<and> n \<in> set (cs ! i))"
proof -
  let ?m = "concat (map (\<lambda>(i, component). map (\<lambda>n. (n, int i)) component) (enumerate 0 cs))"
  have distinct: "distinct (map fst ?m)" unfolding index_keys by (rule assms)
  then have "oget (cluster_indices cs) n = oget ?m n"
    by (simp add: cluster_indices_def oget_oassign oget_rev_distinct okeys_distinct_def del: map_concat)
  also have "\<dots> = Some j \<longleftrightarrow> (n, j) \<in> set ?m" by (rule oget_iff_member[OF distinct])
  also have "\<dots> \<longleftrightarrow> (\<exists>i<length cs. j = int i \<and> n \<in> set (cs ! i))"
  proof
    assume "(n, j) \<in> set ?m"
    then obtain i c where "(i, c) \<in> set (enumerate 0 cs)" and "n \<in> set c" and "j = int i" by auto
    then show "\<exists>i<length cs. j = int i \<and> n \<in> set (cs ! i)" by (auto simp: in_set_enumerate_eq)
  next
    assume "\<exists>i<length cs. j = int i \<and> n \<in> set (cs ! i)"
    then obtain i where "i < length cs" "j = int i" "n \<in> set (cs ! i)" by blast
    then have "(i, cs ! i) \<in> set (enumerate 0 cs)" by (simp add: in_set_enumerate_eq)
    with \<open>j = int i\<close> \<open>n \<in> set (cs ! i)\<close> show "(n, j) \<in> set ?m" by force
  qed
  finally show ?thesis .
qed

lemma oget_mark_unclustered:
  "oget (mark_unclustered m nodes) n = (case oget m n of Some i \<Rightarrow> Some i | None \<Rightarrow> if n \<in> set nodes then Some (- 1) else None)"
proof (induction nodes arbitrary: m)
  case Nil
  then show ?case by (simp add: mark_unclustered_def split: option.split)
next
  case (Cons x xs)
  have "mark_unclustered m (x # xs) = mark_unclustered (if ohas m x then m else oput x (- 1) m) xs"
    by (simp add: mark_unclustered_def)
  then show ?case by (cases "oget m x"; cases "oget m n") (auto simp: Cons.IH ohas_iff_oget)
qed


text \<open>Two edges of the chosen predicate and one of another: one cluster of three.\<close>

definition sample_graph :: drawn_graph where
  "sample_graph = \<lparr>dg_nodes = [(''a'', None), (''b'', None), (''c'', None), (''d'', None)],
     dg_edges = [\<lparr>de_predicateId = ''p'', de_label = [], de_source = ''a'', de_target = ''b''\<rparr>,
       \<lparr>de_predicateId = ''q'', de_label = [], de_source = ''c'', de_target = ''d''\<rparr>,
       \<lparr>de_predicateId = ''p'', de_label = [], de_source = ''c'', de_target = ''b''\<rparr>]\<rparr>"


lemma best_of_fold:
  fixes degree :: "string \<Rightarrow> int"
  shows "(case foldl (\<lambda>(bestNode, bestDegree) n. if bestDegree < degree n then (n, degree n) else (bestNode, bestDegree)) (bestNode, d) ns of
      (b, e) \<Rightarrow> d \<le> e \<and> (\<forall>n\<in>set ns. degree n \<le> e) \<and> ((b, e) = (bestNode, d) \<or> b \<in> set ns \<and> e = degree b))"
proof (induction ns arbitrary: bestNode d)
  case (Cons n ns)
  show ?case
    using Cons.IH[where bestNode = n and d = "degree n"] Cons.IH[where bestNode = bestNode and d = d] by (cases "d < degree n") (auto split: prod.splits)
qed simp

lemma best_of_best:
  assumes "ns \<noteq> []" and "\<And>n. n \<in> set ns \<Longrightarrow> 0 \<le> degree n"
  shows "fst (best_of degree ns) \<in> set ns \<and> (\<forall>n\<in>set ns. degree n \<le> degree (fst (best_of degree ns)))"
proof -
  from assms obtain n where n: "n \<in> set ns" "0 \<le> degree n" by (cases ns) auto
  obtain b e where be: "best_of degree ns = (b, e)" by (cases "best_of degree ns")
  with best_of_fold[where degree = degree and bestNode = "[]" and d = "- 1" and ns = ns] have "\<forall>n\<in>set ns. degree n \<le> e" "(b, e) = ([], - 1) \<or> b \<in> set ns \<and> e = degree b"
    by (simp_all add: best_of_def)
  with n be show ?thesis by force
qed

lemma representative_keys:
  "distinct (map fst (List.map_filter (\<lambda>(i, c). (let b = f c in if b = [] then None else Some (int i, b))) (enumerate k cs)))
   \<and> fst ` set (List.map_filter (\<lambda>(i, c). (let b = f c in if b = [] then None else Some (int i, b))) (enumerate k cs)) \<subseteq> {int k..}"
proof (induction cs arbitrary: k)
  case (Cons c cs)
  show ?case
  proof (cases "f c = []")
    case True
    with Cons[of "Suc k"] show ?thesis by (auto simp: List.map_filter_simps)
  next
    case False
    have "int k \<notin> fst ` set (List.map_filter (\<lambda>(i, c). (let b = f c in if b = [] then None else Some (int i, b))) (enumerate (Suc k) cs))"
      using Cons[of "Suc k"] by (auto dest: subsetD)
    with False Cons[of "Suc k"] show ?thesis by (auto simp: List.map_filter_simps image_subset_iff)
  qed
qed (simp add: List.map_filter_simps)

lemma representative_at:
  assumes "i < length cs" and "fst (best_of degree (cs ! i)) \<noteq> []"
  shows "oget (pickClusterRepresentatives degree cs) (int i) = Some (fst (best_of degree (cs ! i)))"
proof -
  let ?m = "List.map_filter (\<lambda>(i, component).
     (let bestNode = fst (best_of degree component) in if bestNode = [] then None else Some (int i, bestNode))) (enumerate 0 cs)"
  have distinct: "distinct (map fst ?m)" using representative_keys[of "\<lambda>c. fst (best_of degree c)" 0 cs] by blast
  have "(i, cs ! i) \<in> set (enumerate 0 cs)" using assms(1) by (simp add: in_set_enumerate_eq)
  with assms(2) have "(int i, fst (best_of degree (cs ! i))) \<in> set ?m" by (force simp: List.map_filter_def Let_def)
  with distinct have "oget ?m (int i) = Some (fst (best_of degree (cs ! i)))" by (simp add: oget_iff_member)
  then show ?thesis using distinct
    by (simp add: pickClusterRepresentatives_def oget_oassign oget_rev_distinct okeys_distinct_def)
qed

text \<open>What stands for a collapsed cluster. Where the nodes of the graph have names and no degree is
  negative, every cluster has one representative: a node of the cluster no node of which has a higher
  degree.\<close>

theorem representative_of_cluster:
  assumes "i < length (cl_clusters (computeClusters degree graph predicateIds))"
    and "[] \<notin> set (cl_clusters (computeClusters degree graph predicateIds) ! i)"
    and "\<And>n. 0 \<le> degree n"
  shows "\<exists>r. oget (cl_representatives (computeClusters degree graph predicateIds)) (int i) = Some r
    \<and> r \<in> set (cl_clusters (computeClusters degree graph predicateIds) ! i)
    \<and> (\<forall>n\<in>set (cl_clusters (computeClusters degree graph predicateIds) ! i). degree n \<le> degree r)"
proof -
  define cs where "cs = cl_clusters (computeClusters degree graph predicateIds)"
  have reps: "cl_representatives (computeClusters degree graph predicateIds) = pickClusterRepresentatives degree cs"
    by (simp add: cs_def computeClusters_def Let_def)
  have "sym (adj_edges (adjacency graph predicateIds))" unfolding adjacency_joined by (rule sym_joined)
  from flood_all_components[OF this, of "[]" "map fst (adjacency graph predicateIds)"]
  have "\<forall>C\<in>set cs. \<exists>k. set C = (adj_edges (adjacency graph predicateIds))\<^sup>* `` {k}"
    by (simp add: cs_def computeClusters_def Let_def)
  moreover have "cs ! i \<in> set cs" using assms(1) by (simp add: cs_def)
  ultimately obtain k where "set (cs ! i) = (adj_edges (adjacency graph predicateIds))\<^sup>* `` {k}" by blast
  then have "cs ! i \<noteq> []" by auto
  from best_of_best[OF this, of degree] assms(3)
  have best: "fst (best_of degree (cs ! i)) \<in> set (cs ! i)" "\<forall>n\<in>set (cs ! i). degree n \<le> degree (fst (best_of degree (cs ! i)))"
    by blast+
  from best(1) assms(2) have "fst (best_of degree (cs ! i)) \<noteq> []" by (auto simp: cs_def)
  with representative_at[of i cs degree] assms(1) best show ?thesis
    unfolding reps by (simp add: cs_def)
qed

lemma representative_of_cluster_witness:
  "\<exists>r. oget (cl_representatives (computeClusters (\<lambda>n. if n = ''b'' then 2 else 1) sample_graph [''p''])) 0 = Some r
    \<and> r \<in> {''a'', ''b'', ''c''} \<and> (2::int) \<le> (if r = ''b'' then 2 else 1)"
proof -
  have clusters: "cl_clusters (computeClusters (\<lambda>n. if n = ''b'' then 2 else 1) sample_graph [''p'']) = [[''a'', ''b'', ''c'']]"
    by code_simp
  have degrees: "0 \<le> (if n = ''b'' then 2 else (1::int))" for n by simp
  have "0 < length (cl_clusters (computeClusters (\<lambda>n. if n = ''b'' then 2 else 1) sample_graph [''p'']))"
    and "[] \<notin> set (cl_clusters (computeClusters (\<lambda>n. if n = ''b'' then 2 else 1) sample_graph [''p'']) ! 0)"
    by (simp_all add: clusters)
  from representative_of_cluster[OF this degrees] show ?thesis unfolding clusters by auto
qed

end
