(* ===== verification/TypeFilter.thy ===== *)
theory TypeFilter
  imports VosTypes
begin

section \<open>The types of a model, counted and hidden\<close>

text \<open>
  \<open>src/utils/typeFilter.ts\<close>: which type each Thing is of, how many Things each type has, the groups
  of types sharing a name, and what is left of a model when types are hidden. \<open>lc\<close> is
  \<open>localeCompare\<close>.
\<close>

definition IS_PREDICATE_NAME :: string where
  "IS_PREDICATE_NAME = ''is''"

definition NO_TYPE_ID :: string where
  "NO_TYPE_ID = ''__noType__''"

record type_stat =
  st_typeId :: string
  st_name :: string
  st_instanceCount :: int

record type_group_stat =
  tg_name :: string
  tg_typeIds :: "string list"
  tg_instanceCount :: int

definition thing_names :: "vos_thing list \<Rightarrow> (string, string) omap" where
  "thing_names things = of_entries (map (\<lambda>t. (tId t, tName t)) things)"

text \<open>The type each Thing is of: the target of its first \<open>is\<close> relationship.\<close>

definition buildInstanceTypeIndex :: "vos_thing list \<Rightarrow> vos_relationship list \<Rightarrow> (string, string) omap" where
  "buildInstanceTypeIndex things rels = foldl (\<lambda>acc r.
     if map_option toLowerCase (oget (thing_names things) (rPredicateId r)) \<noteq> Some IS_PREDICATE_NAME then acc
     else if ohas acc (rSubjectId r) then acc else oput (rSubjectId r) (rTargetId r) acc) [] rels"

text \<open>The bucket a Thing falls in, and the buckets in the order their first Thing comes.\<close>

definition bucket_of :: "vos_thing list \<Rightarrow> (string, string) omap \<Rightarrow> vos_thing \<Rightarrow> string" where
  "bucket_of things index t = (case oget index (tId t) of
     Some typeId \<Rightarrow> if typeId \<noteq> [] \<and> ohas (thing_names things) typeId then typeId else NO_TYPE_ID
   | None \<Rightarrow> NO_TYPE_ID)"

definition put_in :: "string \<Rightarrow> string \<Rightarrow> (string, string list) omap \<Rightarrow> (string, string list) omap" where
  "put_in key member m = oput key (sadd member (case oget m key of Some s \<Rightarrow> s | None \<Rightarrow> [])) m"

definition type_buckets :: "vos_thing list \<Rightarrow> vos_relationship list \<Rightarrow> (string, string list) omap" where
  "type_buckets things rels =
     foldl (\<lambda>acc t. put_in (bucket_of things (buildInstanceTypeIndex things rels) t) (tId t) acc) [] things"

definition stat_of :: "vos_thing list \<Rightarrow> string \<times> string list \<Rightarrow> type_stat option" where
  "stat_of things bucket =
     (let name = (if fst bucket = NO_TYPE_ID then Some NO_TYPE_ID else oget (thing_names things) (fst bucket)) in
      case name of None \<Rightarrow> None
      | Some n \<Rightarrow> if n = [] then None
          else Some \<lparr>st_typeId = fst bucket, st_name = n, st_instanceCount = int (length (snd bucket))\<rparr>)"

definition stat_order :: "(string \<Rightarrow> string \<Rightarrow> int) \<Rightarrow> type_stat \<Rightarrow> type_stat \<Rightarrow> int" where
  "stat_order lc a b = (if st_typeId a = NO_TYPE_ID then 1 else if st_typeId b = NO_TYPE_ID then -1
     else (let byCount = st_instanceCount b - st_instanceCount a in if byCount \<noteq> 0 then byCount else lc (st_name a) (st_name b)))"

definition discoverTypes :: "(string \<Rightarrow> string \<Rightarrow> int) \<Rightarrow> vos_thing list \<Rightarrow> vos_relationship list \<Rightarrow> type_stat list" where
  "discoverTypes lc things rels = sort_by (stat_order lc) (List.map_filter (stat_of things) (type_buckets things rels))"

text \<open>The groups by name, each standing where its first member stood.\<close>

definition group_step :: "(string, type_group_stat) omap \<Rightarrow> type_stat \<Rightarrow> (string, type_group_stat) omap" where
  "group_step groups t =
     (let g = (case oget groups (st_name t) of Some g \<Rightarrow> g
               | None \<Rightarrow> \<lparr>tg_name = st_name t, tg_typeIds = [], tg_instanceCount = 0\<rparr>) in
      oput (st_name t) (g\<lparr>tg_typeIds := tg_typeIds g @ [st_typeId t],
         tg_instanceCount := tg_instanceCount g + st_instanceCount t\<rparr>) groups)"

definition groupTypesByName :: "type_stat list \<Rightarrow> type_group_stat list" where
  "groupTypesByName types = map snd (foldl group_step [] types)"

datatype sort_order = CountDesc | CountAsc | NameAsc | NameDesc

definition group_order :: "(string \<Rightarrow> string \<Rightarrow> int) \<Rightarrow> sort_order \<Rightarrow> type_group_stat \<Rightarrow> type_group_stat \<Rightarrow> int" where
  "group_order lc order a b =
     (let noA = (tg_name a = NO_TYPE_ID); noB = (tg_name b = NO_TYPE_ID); d = tg_instanceCount b - tg_instanceCount a in
      if noA \<noteq> noB then (if noA then 1 else -1)
      else (case order of
          CountDesc \<Rightarrow> if d \<noteq> 0 then d else lc (tg_name a) (tg_name b)
        | CountAsc \<Rightarrow> if d \<noteq> 0 then - d else lc (tg_name a) (tg_name b)
        | NameAsc \<Rightarrow> lc (tg_name a) (tg_name b)
        | NameDesc \<Rightarrow> lc (tg_name b) (tg_name a)))"

definition sortTypeGroups :: "(string \<Rightarrow> string \<Rightarrow> int) \<Rightarrow> type_group_stat list \<Rightarrow> sort_order \<Rightarrow> type_group_stat list" where
  "sortTypeGroups lc groups order = sort_by (group_order lc order) groups"

text \<open>Whether a Thing is hidden, and what is left of the model.\<close>

definition thing_hidden :: "(string, string) omap \<Rightarrow> string list \<Rightarrow> vos_thing \<Rightarrow> bool" where
  "thing_hidden index hidden t =
     (let typeId = (case oget index (tId t) of Some i \<Rightarrow> if i = [] then None else Some i | None \<Rightarrow> None) in
      (case typeId of Some i \<Rightarrow> i \<in> set hidden | None \<Rightarrow> NO_TYPE_ID \<in> set hidden) \<or> tId t \<in> set hidden)"

definition applyTypeFilter ::
  "vos_thing list \<Rightarrow> vos_relationship list \<Rightarrow> string list \<Rightarrow> vos_thing list \<times> vos_relationship list" where
  "applyTypeFilter things rels hidden =
     (if hidden = [] then (things, rels)
      else (let index = buildInstanceTypeIndex things rels;
                hiddenIds = set_of (map tId (filter (thing_hidden index hidden) things)) in
        (filter (\<lambda>t. tId t \<notin> set hiddenIds) things,
         filter (\<lambda>r. rSubjectId r \<notin> set hiddenIds \<and> rTargetId r \<notin> set hiddenIds) rels)))"

subsection \<open>Every Thing is counted once\<close>

lemma sum_list_insert_by: "sum_list (map f (insert_by c x xs)) = f x + (sum_list (map f xs) :: int)"
  by (induction xs) auto

lemma sum_list_sort_by: "sum_list (map f (sort_by c xs)) = (sum_list (map f xs) :: int)"
  by (induction xs) (auto simp: sum_list_insert_by)

lemma sum_oput_present:
  "oget m k = Some old \<Longrightarrow> okeys_distinct m \<Longrightarrow>
   sum_list (map (\<lambda>kv. f (snd kv)) (oput k new m)) = sum_list (map (\<lambda>kv. f (snd kv)) m) - f old + (f new :: int)"
proof (induction m)
  case (Cons kv m)
  obtain j w where kv: "kv = (j, w)" by (cases kv)
  with Cons show ?case by (cases "j = k") (auto simp: okeys_distinct_def)
qed simp

lemma sum_oput:
  "okeys_distinct m \<Longrightarrow> sum_list (map (\<lambda>kv. f (snd kv)) (oput k new m))
     = sum_list (map (\<lambda>kv. f (snd kv)) m) - (case oget m k of Some old \<Rightarrow> f old | None \<Rightarrow> 0) + (f new :: int)"
proof (cases "oget m k")
  case None
  then have "k \<notin> fst ` set m" by (simp add: map_of_eq_None_iff)
  with None show ?thesis by (simp add: oput_absent)
next
  case (Some old)
  assume "okeys_distinct m"
  with sum_oput_present[OF Some, of f new] Some show ?thesis by simp
qed

abbreviation members_in :: "(string, string list) omap \<Rightarrow> string \<Rightarrow> string list" where
  "members_in B k \<equiv> (case oget B k of Some s \<Rightarrow> s | None \<Rightarrow> [])"

definition bucket_total :: "(string, string list) omap \<Rightarrow> int" where
  "bucket_total B = sum_list (map (\<lambda>kv. int (length (snd kv))) B)"

lemma put_in_total:
  assumes "okeys_distinct B" and "x \<notin> set (members_in B k)"
  shows "bucket_total (put_in k x B) = bucket_total B + 1"
proof -
  have step: "a = b - c + d \<Longrightarrow> c = l \<Longrightarrow> d = l + 1 \<Longrightarrow> a = b + 1" for a b c d l :: int by simp
  have sadd: "sadd x (members_in B k) = members_in B k @ [x]" using assms(2) unfolding sadd_def by (rule if_not_P)
  show ?thesis
  proof (rule step)
    show "bucket_total (put_in k x B) = bucket_total B - (case oget B k of Some old \<Rightarrow> int (length old) | None \<Rightarrow> 0)
        + int (length (members_in B k @ [x]))"
      unfolding put_in_def sadd bucket_total_def by (rule sum_oput[OF assms(1), of "\<lambda>s. int (length s)"])
    show "(case oget B k of Some old \<Rightarrow> int (length old) | None \<Rightarrow> 0) = int (length (members_in B k))"
      by (simp split: option.splits)
    show "int (length (members_in B k @ [x])) = int (length (members_in B k)) + 1" by simp
  qed
qed

lemma members_put_in:
  "set (members_in (put_in k x B) k) = insert x (set (members_in B k))"
  "j \<noteq> k \<Longrightarrow> members_in (put_in k x B) j = members_in B j"
  by (simp_all only: put_in_def oget_oput fun_upd_same fun_upd_other option.case set_sadd simp_thms)

lemma buckets_sum:
  fixes key :: "vos_thing \<Rightarrow> string"
  assumes "distinct (map tId ts)"
  defines "B \<equiv> foldl (\<lambda>acc t. put_in (key t) (tId t) acc) [] ts"
  shows "okeys_distinct B \<and> (\<forall>k. set (members_in B k) \<subseteq> tId ` set ts) \<and> bucket_total B = int (length ts) \<and> fst ` set B = key ` set ts"
  using assms(1) unfolding B_def
proof (induction ts rule: rev_induct)
  case Nil
  then show ?case by (simp add: bucket_total_def)
next
  case (snoc t ts)
  obtain B where B: "B = foldl (\<lambda>acc t. put_in (key t) (tId t) acc) [] ts" by blast
  have IH: "okeys_distinct B" "\<And>k. set (members_in B k) \<subseteq> tId ` set ts" "bucket_total B = int (length ts)" "fst ` set B = key ` set ts"
    using snoc unfolding B by auto
  have step: "foldl (\<lambda>acc t. put_in (key t) (tId t) acc) [] (ts @ [t]) = put_in (key t) (tId t) B" by (simp add: B)
  have "tId t \<notin> set (members_in B (key t))" using IH(2)[of "key t"] snoc.prems by auto
  with put_in_total[OF IH(1)] IH(3) have "bucket_total (put_in (key t) (tId t) B) = int (length (ts @ [t]))" by simp
  moreover have "set (members_in (put_in (key t) (tId t) B) k) \<subseteq> tId ` set (ts @ [t])" for k
    using IH(2)[of k] IH(2)[of "key t"] members_put_in[where k = "key t" and x = "tId t" and B = B] by (cases "k = key t") auto
  moreover have "fst ` set (put_in (key t) (tId t) B) = key ` set (ts @ [t])" using IH(4) by (simp add: put_in_def)
  moreover have "okeys_distinct (put_in (key t) (tId t) B)" using IH(1) by (simp add: put_in_def)
  ultimately show ?case unfolding step by blast
qed

text \<open>The panel's header adds up. Where the Things have distinct identifiers and no type Thing
  has an empty name, the counts over all buckets sum to the number of Things.\<close>

theorem discoverTypes_counts_all:
  assumes "distinct (map tId things)" and "\<forall>t\<in>set things. tName t \<noteq> []"
  shows "sum_list (map st_instanceCount (discoverTypes lc things rels)) = int (length things)"
proof -
  let ?key = "bucket_of things (buildInstanceTypeIndex things rels)"
  let ?B = "type_buckets things rels"
  have B: "bucket_total ?B = int (length things)" "fst ` set ?B = ?key ` set things"
    using buckets_sum[OF assms(1), of ?key] by (simp_all add: type_buckets_def)
  have named: "\<exists>n. n \<noteq> [] \<and> oget (thing_names things) i = Some n" if "ohas (thing_names things) i" for i
  proof -
    from that obtain n where n: "oget (thing_names things) i = Some n" by (auto simp: ohas_iff_oget)
    then have "(i, n) \<in> (\<lambda>t. (tId t, tName t)) ` set things"
      by (auto simp: thing_names_def oget_of_entries dest!: map_of_SomeD)
    with assms(2) n show ?thesis by auto
  qed
  have stat: "\<exists>s. stat_of things kv = Some s \<and> st_instanceCount s = int (length (snd kv))" if kv: "kv \<in> set ?B" for kv
  proof (cases "fst kv = NO_TYPE_ID")
    case True
    then show ?thesis by (simp add: stat_of_def NO_TYPE_ID_def)
  next
    case False
    from kv B(2) obtain t where "fst kv = ?key t" by (metis imageE imageI)
    with False have "ohas (thing_names things) (fst kv)" by (simp add: bucket_of_def split: option.splits if_splits)
    from named[OF this] obtain n where "n \<noteq> []" "oget (thing_names things) (fst kv) = Some n" by blast
    with False show ?thesis by (simp add: stat_of_def)
  qed
  have "sum_list (map st_instanceCount (List.map_filter (stat_of things) xs)) = bucket_total xs"
    if "set xs \<subseteq> set ?B" for xs
    using that
  proof (induction xs)
    case (Cons kv xs)
    with stat[of kv] obtain s where "stat_of things kv = Some s" "st_instanceCount s = int (length (snd kv))" by auto
    with Cons show ?case by (simp add: List.map_filter_simps bucket_total_def)
  qed (simp add: List.map_filter_simps bucket_total_def)
  from this[of ?B] B(1) show ?thesis by (simp add: discoverTypes_def sum_list_sort_by)
qed

subsection \<open>Hiding types\<close>

text \<open>A Thing's \<open>is\<close> target is in the model or it has none.\<close>

definition types_held :: "vos_thing list \<Rightarrow> vos_relationship list \<Rightarrow> bool" where
  "types_held things rels \<longleftrightarrow> list_all (\<lambda>t. case oget (buildInstanceTypeIndex things rels) (tId t) of
     None \<Rightarrow> True | Some i \<Rightarrow> i \<noteq> [] \<and> ohas (thing_names things) i) things"

text \<open>C25. What hiding leaves. The Things left are, in their order, those not hidden; a relationship is
  left exactly when neither of its ends is the identifier of a hidden Thing; and over a model that
  holds the types of its Things, a Thing is hidden exactly when the bucket it is counted in is
  hidden or it is itself a hidden type. So hiding every bucket leaves nothing.\<close>

theorem applyTypeFilter_buckets:
  fixes things rels hidden
  defines "out \<equiv> applyTypeFilter things rels hidden" and "index \<equiv> buildInstanceTypeIndex things rels"
  assumes "types_held things rels" and "distinct (map tId things)"
  shows "fst out = filter (\<lambda>t. bucket_of things index t \<notin> set hidden \<and> tId t \<notin> set hidden) things
     \<and> (\<forall>r. r \<in> set (snd out) \<longleftrightarrow> r \<in> set rels
          \<and> \<not> (\<exists>t\<in>set things. t \<notin> set (fst out) \<and> (tId t = rSubjectId r \<or> tId t = rTargetId r)))
     \<and> (set (map st_typeId (discoverTypes lc things rels)) \<subseteq> set hidden \<and> (\<forall>t\<in>set things. tName t \<noteq> []) \<longrightarrow> fst out = [])"
proof -
  have hid: "thing_hidden index hidden t \<longleftrightarrow> bucket_of things index t \<in> set hidden \<or> tId t \<in> set hidden"
    if "t \<in> set things" for t
    using assms(3) that
    by (auto simp: types_held_def list_all_iff thing_hidden_def bucket_of_def index_def Let_def split: option.splits)
  have gone: "tId t \<in> tId ` {t \<in> set things. thing_hidden index hidden t} \<longleftrightarrow> thing_hidden index hidden t" if "t \<in> set things" for t
    using that distinct_map_eqD[OF assms(4)] by blast
  have left: "fst out = filter (\<lambda>t. bucket_of things index t \<notin> set hidden \<and> tId t \<notin> set hidden) things"
  proof (cases "hidden = []")
    case True
    then show ?thesis by (simp add: out_def applyTypeFilter_def)
  next
    case False
    then have "fst out = filter (\<lambda>t. tId t \<notin> tId ` {t \<in> set things. thing_hidden index hidden t}) things"
      by (simp add: out_def applyTypeFilter_def index_def Let_def)
    also have "\<dots> = filter (\<lambda>t. bucket_of things index t \<notin> set hidden \<and> tId t \<notin> set hidden) things"
      using gone hid by (intro filter_cong) auto
    finally show ?thesis .
  qed
  have rest: "r \<in> set (snd out) \<longleftrightarrow> r \<in> set rels
      \<and> \<not> (\<exists>t\<in>set things. t \<notin> set (fst out) \<and> (tId t = rSubjectId r \<or> tId t = rTargetId r))" for r
  proof (cases "hidden = []")
    case True
    then show ?thesis by (auto simp: out_def applyTypeFilter_def)
  next
    case False
    have left': "t \<notin> set (fst out) \<longleftrightarrow> thing_hidden index hidden t" if "t \<in> set things" for t
      using that hid left by auto
    have "r \<in> set (snd out) \<longleftrightarrow> r \<in> set rels \<and> rSubjectId r \<notin> tId ` {t \<in> set things. thing_hidden index hidden t}
        \<and> rTargetId r \<notin> tId ` {t \<in> set things. thing_hidden index hidden t}"
      using False by (simp add: out_def applyTypeFilter_def index_def Let_def)
    also have "\<dots> \<longleftrightarrow> r \<in> set rels \<and> \<not> (\<exists>t\<in>set things. t \<notin> set (fst out) \<and> (tId t = rSubjectId r \<or> tId t = rTargetId r))"
      using left' by (auto simp: image_iff)
    finally show ?thesis .
  qed
  have empty: "fst out = []"
    if all: "set (map st_typeId (discoverTypes lc things rels)) \<subseteq> set hidden" and "\<forall>t\<in>set things. tName t \<noteq> []"
  proof -
    have "bucket_of things index t \<in> set hidden" if t: "t \<in> set things" for t
    proof -
      let ?B = "type_buckets things rels"
      have "bucket_of things index t \<in> fst ` set ?B"
        using buckets_sum[OF assms(4), of "bucket_of things index"] t by (auto simp: type_buckets_def index_def)
      then obtain s where s: "(bucket_of things index t, s) \<in> set ?B" by auto
      have "stat_of things (bucket_of things index t, s) \<noteq> None"
      proof (cases "bucket_of things index t = NO_TYPE_ID")
        case True
        then show ?thesis by (simp add: stat_of_def NO_TYPE_ID_def)
      next
        case False
        then have "ohas (thing_names things) (bucket_of things index t)" by (auto simp: bucket_of_def split: option.splits if_splits)
        then obtain n where n: "oget (thing_names things) (bucket_of things index t) = Some n" by (auto simp: ohas_iff_oget)
        then have "n \<in> tName ` set things" by (auto simp: thing_names_def oget_of_entries dest!: map_of_SomeD)
        with \<open>\<forall>t\<in>set things. tName t \<noteq> []\<close> n False show ?thesis by (auto simp: stat_of_def)
      qed
      then obtain st where st: "stat_of things (bucket_of things index t, s) = Some st" by blast
      then have "st_typeId st = bucket_of things index t" by (auto simp: stat_of_def Let_def split: option.splits if_splits)
      moreover have "st \<in> set (discoverTypes lc things rels)"
        using s st by (force simp: discoverTypes_def List.map_filter_def)
      ultimately show ?thesis using all by force
    qed
    then show ?thesis unfolding left by (simp add: filter_empty_conv)
  qed
  show ?thesis using left rest empty by blast
qed

subsection \<open>Tried on concrete models\<close>

definition filter_thing :: "string \<Rightarrow> vos_thing" where
  "filter_thing i = \<lparr>tId = i, tName = i, tIsArchetype = None, tProperties = [], tPropertyWriteKinds = None,
     tInheritedOverrides = None, tDerivedProperties = None\<rparr>"

definition filter_is :: "string \<Rightarrow> string \<Rightarrow> vos_relationship" where
  "filter_is s t = \<lparr>rId = s @ t, rName = None, rSubjectId = s, rPredicateId = ''is'', rTargetId = t, rProperties = []\<rparr>"

definition filter_model :: "vos_thing list" where
  "filter_model = map filter_thing [''is'', ''Pump'', ''p1'', ''p2'']"

lemma discoverTypes_counts_all_witness:
  "sum_list (map st_instanceCount (discoverTypes compare_code_units filter_model [filter_is ''p1'' ''Pump'', filter_is ''p2'' ''Pump''])) = 4"
  using discoverTypes_counts_all[of filter_model compare_code_units "[filter_is ''p1'' ''Pump'', filter_is ''p2'' ''Pump'']"]
  by (simp add: filter_model_def filter_thing_def)

lemma applyTypeFilter_buckets_witness:
  "fst (applyTypeFilter filter_model [filter_is ''p1'' ''Pump'', filter_is ''p2'' ''Pump''] [''Pump'']) = [filter_thing ''is'']"
proof -
  let ?rels = "[filter_is ''p1'' ''Pump'', filter_is ''p2'' ''Pump'']"
  have held: "types_held filter_model ?rels" by code_simp
  have ids: "distinct (map tId filter_model)" by (simp add: filter_model_def filter_thing_def)
  have "fst (applyTypeFilter filter_model ?rels [''Pump''])
      = filter (\<lambda>t. bucket_of filter_model (buildInstanceTypeIndex filter_model ?rels) t \<notin> set [''Pump''] \<and> tId t \<notin> set [''Pump'']) filter_model"
    using applyTypeFilter_buckets[OF held ids] by blast
  also have "\<dots> = [filter_thing ''is'']" by code_simp
  finally show ?thesis .
qed

text \<open>A Thing whose type is not in the model is counted in the bucket of Things with no type, and
  hiding that bucket does not hide it.\<close>

lemma untyped_bucket_not_hidden:
  "map (\<lambda>s. (st_typeId s, st_instanceCount s)) (discoverTypes compare_code_units (map filter_thing [''is'', ''x'']) [filter_is ''x'' ''gone''])
     = [(NO_TYPE_ID, 2)]
   \<and> map tId (fst (applyTypeFilter (map filter_thing [''is'', ''x'']) [filter_is ''x'' ''gone''] [NO_TYPE_ID])) = [''x'']"
  by code_simp

text \<open>A type with an empty name has no row, so the rows no longer add up to the Things.\<close>

lemma nameless_type_uncounted:
  "sum_list (map st_instanceCount (discoverTypes compare_code_units
      [filter_thing ''is'', (filter_thing ''T'')\<lparr>tName := []\<rparr>, filter_thing ''x''] [filter_is ''x'' ''T''])) = 2"
  by code_simp

subsection \<open>Groups by name\<close>

text \<open>One row per name. Grouping the types keeps every count, names no group twice, and lists in
  each group exactly the types of its name, in their order; sorting the groups keeps them all.\<close>

theorem groupTypesByName_groups:
  "sum_list (map tg_instanceCount (sortTypeGroups lc (groupTypesByName types) order)) = sum_list (map st_instanceCount types)
   \<and> distinct (map tg_name (sortTypeGroups lc (groupTypesByName types) order))
   \<and> (\<forall>g\<in>set (sortTypeGroups lc (groupTypesByName types) order).
        tg_typeIds g = map st_typeId (filter (\<lambda>t. st_name t = tg_name g) types) \<and> tg_typeIds g \<noteq> [])"
proof -
  let ?G = "\<lambda>ts. foldl group_step [] ts"
  have "okeys_distinct (?G ts) \<and> (\<forall>kg\<in>set (?G ts). tg_name (snd kg) = fst kg \<and> tg_typeIds (snd kg) \<noteq> []
        \<and> tg_typeIds (snd kg) = map st_typeId (filter (\<lambda>t. st_name t = fst kg) ts))
      \<and> (\<forall>n. n \<notin> fst ` set (?G ts) \<longrightarrow> filter (\<lambda>t. st_name t = n) ts = [])
      \<and> sum_list (map (\<lambda>kg. tg_instanceCount (snd kg)) (?G ts)) = sum_list (map st_instanceCount ts)" for ts
  proof (induction ts rule: rev_induct)
    case Nil
    then show ?case by simp
  next
    case (snoc t ts)
    obtain G where G: "G = ?G ts" by blast
    note IH = snoc[folded G]
    have step: "?G (ts @ [t]) = group_step G t" by (simp add: G)
    show ?case
    proof (cases "oget G (st_name t)")
      case None
      then have out: "st_name t \<notin> fst ` set G" by (simp add: map_of_eq_None_iff)
      let ?g = "\<lparr>tg_name = st_name t, tg_typeIds = [st_typeId t], tg_instanceCount = st_instanceCount t\<rparr>"
      have new: "group_step G t = G @ [(st_name t, ?g)]"
        by (simp add: group_step_def None oput_absent[OF out])
      have "filter (\<lambda>u. st_name u = st_name t) ts = []" using IH out by blast
      moreover have "\<forall>kg\<in>set G. fst kg \<noteq> st_name t" using out by (metis imageI)
      ultimately show ?thesis unfolding step new using IH out by (auto simp: okeys_distinct_def)
    next
      case (Some g)
      let ?g = "g\<lparr>tg_typeIds := tg_typeIds g @ [st_typeId t], tg_instanceCount := tg_instanceCount g + st_instanceCount t\<rparr>"
      have new: "group_step G t = oput (st_name t) ?g G" by (simp add: group_step_def Some)
      have mem: "(st_name t, g) \<in> set G" using Some by (rule map_of_SomeD)
      have total: "sum_list (map (\<lambda>kg. tg_instanceCount (snd kg)) (group_step G t)) = sum_list (map st_instanceCount (ts @ [t]))"
        unfolding new using sum_oput_present[OF Some, of tg_instanceCount ?g] IH by simp
      have each: "tg_name (snd kg) = fst kg \<and> tg_typeIds (snd kg) \<noteq> []
          \<and> tg_typeIds (snd kg) = map st_typeId (filter (\<lambda>u. st_name u = fst kg) (ts @ [t]))" if kg: "kg \<in> set (group_step G t)" for kg
      proof (cases "fst kg = st_name t")
        case True
        have "okeys_distinct (oput (st_name t) ?g G)" using IH by blast
        moreover have "oget (oput (st_name t) ?g G) (fst kg) = Some ?g" using True by simp
        ultimately have "kg = (st_name t, ?g)" using kg True unfolding new okeys_distinct_def
          by (metis eq_key_imp_eq_value map_of_SomeD prod.collapse)
        with IH mem show ?thesis by force
      next
        case False
        have "kg \<in> set G" using kg False unfolding new
        proof (induction G)
          case (Cons h G)
          then show ?case by (cases h) (auto split: if_splits)
        qed simp
        with IH False show ?thesis by auto
      qed
      have keys: "fst ` set (group_step G t) = fst ` set G" unfolding new using mem by (simp add: insert_absorb rev_image_eqI)
      have "okeys_distinct (group_step G t)" unfolding new using IH by blast
      moreover have "\<forall>n. n \<notin> fst ` set (group_step G t) \<longrightarrow> filter (\<lambda>u. st_name u = n) (ts @ [t]) = []"
        unfolding keys using IH mem by (auto simp: rev_image_eqI)
      ultimately show ?thesis unfolding step using each total by blast
    qed
  qed
  from this[of types] have G: "okeys_distinct (?G types)" "\<And>kg. kg \<in> set (?G types) \<Longrightarrow> tg_name (snd kg) = fst kg \<and> tg_typeIds (snd kg) \<noteq> []
        \<and> tg_typeIds (snd kg) = map st_typeId (filter (\<lambda>t. st_name t = fst kg) types)"
    "sum_list (map (\<lambda>kg. tg_instanceCount (snd kg)) (?G types)) = sum_list (map st_instanceCount types)" by blast+
  have "map tg_name (groupTypesByName types) = map fst (?G types)" using G(2) by (simp add: groupTypesByName_def)
  then have "distinct (map tg_name (groupTypesByName types))" using G(1) by (simp only: okeys_distinct_def)
  moreover have "tg_typeIds g = map st_typeId (filter (\<lambda>t. st_name t = tg_name g) types) \<and> tg_typeIds g \<noteq> []"
    if g: "g \<in> set (groupTypesByName types)" for g
  proof -
    from g obtain n where "(n, g) \<in> set (?G types)" by (auto simp: groupTypesByName_def)
    from G(2)[OF this] show ?thesis unfolding fst_conv snd_conv by metis
  qed
  moreover have "sum_list (map tg_instanceCount (groupTypesByName types)) = sum_list (map st_instanceCount types)"
    using G(3) by (simp add: groupTypesByName_def comp_def)
  ultimately show ?thesis unfolding sortTypeGroups_def sum_list_sort_by distinct_map_sort_by set_sort_by by blast
qed

lemma groupTypesByName_groups_witness:
  "let types = [\<lparr>st_typeId = ''a'', st_name = ''Panel'', st_instanceCount = 3\<rparr>, \<lparr>st_typeId = ''b'', st_name = ''Panel'', st_instanceCount = 4\<rparr>] in
   map tg_typeIds (groupTypesByName types) = [[''a'', ''b'']]
   \<and> sum_list (map tg_instanceCount (sortTypeGroups compare_code_units (groupTypesByName types) NameAsc)) = 7"
proof -
  let ?types = "[\<lparr>st_typeId = ''a'', st_name = ''Panel'', st_instanceCount = 3\<rparr>, \<lparr>st_typeId = ''b'', st_name = ''Panel'', st_instanceCount = 4\<rparr>]"
  have "map tg_typeIds (groupTypesByName ?types) = [[''a'', ''b'']]" by code_simp
  moreover have "sum_list (map tg_instanceCount (sortTypeGroups compare_code_units (groupTypesByName ?types) NameAsc))
      = sum_list (map st_instanceCount ?types)"
    using groupTypesByName_groups[of compare_code_units ?types NameAsc] by blast
  ultimately show ?thesis by (simp add: Let_def)
qed


end
