(* ===== verification/Walks.thy ===== *)
theory Walks
  imports Prelude
begin

section \<open>Walks over a stack of Things found\<close>

text \<open>
  Several components answer "everything reached from here" with the same loop: a stack of Things still to
  follow, popped from its end, and what was found so far; of the Things one step away from the popped one,
  those not found before are found and stacked. This theory holds the step of that loop and what every
  such walk returns, whatever the graph looks like.
\<close>

text \<open>Of the children of one Thing, in order, those not found before are found and stacked.\<close>

fun find_children :: "'a list \<Rightarrow> 'a list \<Rightarrow> 'a list \<Rightarrow> 'a list \<times> 'a list" where
  "find_children [] found frontier = (found, frontier)"
| "find_children (c # cs) found frontier =
     (if c \<in> set found then find_children cs found frontier else find_children cs (found @ [c]) (frontier @ [c]))"

lemma find_children_grows:
  "find_children cs found frontier = (found', frontier') \<Longrightarrow>
   \<exists>new. found' = found @ new \<and> frontier' = frontier @ new \<and> set new = set cs - set found \<and> distinct new"
proof (induction cs arbitrary: found frontier)
  case (Cons c cs)
  show ?case
  proof (cases "c \<in> set found")
    case False
    with Cons.prems have "find_children cs (found @ [c]) (frontier @ [c]) = (found', frontier')" by simp
    from Cons.IH[OF this] obtain new where "found' = found @ c # new" "frontier' = frontier @ c # new"
      "set new = set cs - insert c (set found)" "distinct new" by auto
    with False show ?thesis by (intro exI[of _ "c # new"]) auto
  qed (use Cons in auto)
qed simp

lemma find_children_decreases:
  assumes "finite U" and "set cs \<subseteq> U" and "frontier \<noteq> []"
    and step: "find_children cs found (butlast frontier) = (found', frontier')"
  shows "card (U - set found') < card (U - set found)
    \<or> card (U - set found') = card (U - set found) \<and> length frontier' < length frontier"
proof -
  from find_children_grows[OF step] obtain new where new: "found' = found @ new" "frontier' = butlast frontier @ new"
    "set new = set cs - set found" by blast
  show ?thesis
  proof (cases "new = []")
    case True
    with new assms(3) show ?thesis by simp
  next
    case False
    then obtain c where "c \<in> set new" by (cases new) auto
    with new(1,3) assms(2) have "U - set found' \<subset> U - set found" by auto
    with assms(1) show ?thesis by (simp add: psubset_card_mono)
  qed
qed

text \<open>The contract of such a loop: it stops when the stack is empty and follows the last Thing stacked
  otherwise, and all it can find is finite. What it returns is then the closure of the step.\<close>

locale frontier_walk =
  fixes walk :: "'a list \<Rightarrow> 'a list \<Rightarrow> 'a list" and children :: "'a \<Rightarrow> 'a list" and universe :: "'a set"
  assumes walk_done: "walk found [] = found"
    and walk_follow: "frontier \<noteq> [] \<Longrightarrow> walk found frontier =
      (case find_children (children (last frontier)) found (butlast frontier) of (found', frontier') \<Rightarrow> walk found' frontier')"
    and universe_finite: "finite universe"
    and children_known: "set (children x) \<subseteq> universe"
begin

definition one_step :: "('a \<times> 'a) set" where
  "one_step = {(x, c). c \<in> set (children x)}"

lemma frontier_split: "frontier \<noteq> [] \<Longrightarrow> set frontier = insert (last frontier) (set (butlast frontier))"
  by (metis append_butlast_last_id list.simps(15) rotate1.simps(2) set_rotate1)

lemma walk_induct [case_names finished follow]:
  assumes "\<And>found. P found []"
    and "\<And>found frontier found' frontier' new. frontier \<noteq> [] \<Longrightarrow>
      find_children (children (last frontier)) found (butlast frontier) = (found', frontier') \<Longrightarrow>
      found' = found @ new \<Longrightarrow> frontier' = butlast frontier @ new \<Longrightarrow>
      set new = set (children (last frontier)) - set found \<Longrightarrow> distinct new \<Longrightarrow> P found' frontier' \<Longrightarrow> P found frontier"
  shows "P found frontier"
proof -
  let ?R = "measures [\<lambda>(found, frontier). card (universe - set found), \<lambda>(_, frontier). length frontier]"
  have "wf ?R" by simp
  then have "case (found, frontier) of (found, frontier) \<Rightarrow> P found frontier"
  proof (induction "(found, frontier)" arbitrary: found frontier rule: wf_induct_rule)
    case (less found frontier)
    show ?case
    proof (cases "frontier = []")
      case False
      obtain found' frontier' where step:
        "find_children (children (last frontier)) found (butlast frontier) = (found', frontier')" by fastforce
      from find_children_grows[OF step] obtain new where "found' = found @ new" "frontier' = butlast frontier @ new"
        "set new = set (children (last frontier)) - set found" "distinct new" by blast
      moreover have "P found' frontier'"
        using less find_children_decreases[OF universe_finite children_known False step] by auto
      ultimately show ?thesis using assms(2)[OF False step] by simp
    qed (simp add: assms(1))
  qed
  then show ?thesis by simp
qed

lemma walk_sound:
  "set found \<subseteq> one_step\<^sup>* `` {k} \<Longrightarrow> set frontier \<subseteq> set found \<Longrightarrow> set (walk found frontier) \<subseteq> one_step\<^sup>* `` {k}"
proof (induction found frontier rule: walk_induct)
  case (follow found frontier found' frontier' new)
  have "(k, last frontier) \<in> one_step\<^sup>*" using follow.prems follow.hyps(1) last_in_set by blast
  then have "set found' \<subseteq> one_step\<^sup>* `` {k}"
    using follow.hyps follow.prems by (auto simp: one_step_def intro: rtrancl_into_rtrancl)
  moreover have "set frontier' \<subseteq> set found'" using follow by (auto dest: in_set_butlastD)
  ultimately show ?case using follow.IH follow.hyps by (simp add: walk_follow)
qed (simp add: walk_done)

lemma walk_complete:
  assumes "\<And>x. x \<in> set found - set frontier \<Longrightarrow> set (children x) \<subseteq> set found" and "set frontier \<subseteq> set found"
  shows "set found \<subseteq> set (walk found frontier) \<and>
    (\<forall>x \<in> set (walk found frontier). set (children x) \<subseteq> set (walk found frontier))"
  using assms
proof (induction found frontier rule: walk_induct)
  case (follow found frontier found' frontier' new)
  have "set (children x) \<subseteq> set found'" if "x \<in> set found' - set frontier'" for x
    using that follow.hyps follow.prems(1)[of x] frontier_split[of frontier] by (cases "x = last frontier") auto
  moreover have "set frontier' \<subseteq> set found'" using follow by (auto dest: in_set_butlastD)
  ultimately show ?case using follow.IH follow.hyps by (auto simp: walk_follow)
qed (simp add: walk_done)

lemma walk_distinct: "distinct found \<Longrightarrow> distinct (walk found frontier)"
proof (induction found frontier rule: walk_induct)
  case (follow found frontier found' frontier' new)
  then have "distinct found'" by auto
  with follow show ?case by (simp add: walk_follow)
qed (simp add: walk_done)

lemma walk_extends: "\<exists>more. walk found frontier = found @ more"
  by (induction found frontier rule: walk_induct) (auto simp: walk_done walk_follow)

lemma walk_reaches: "set (walk [k] [k]) = one_step\<^sup>* `` {k}"
proof
  show "set (walk [k] [k]) \<subseteq> one_step\<^sup>* `` {k}" by (rule walk_sound) auto
  have closed: "k \<in> set (walk [k] [k])" "\<And>x. x \<in> set (walk [k] [k]) \<Longrightarrow> set (children x) \<subseteq> set (walk [k] [k])"
    using walk_complete[of "[k]" "[k]"] by auto
  show "one_step\<^sup>* `` {k} \<subseteq> set (walk [k] [k])"
  proof clarsimp
    fix x assume "(k, x) \<in> one_step\<^sup>*"
    then show "x \<in> set (walk [k] [k])"
      by (induction rule: rtrancl_induct) (use closed in \<open>auto simp: one_step_def\<close>)
  qed
qed

end

end
