(* ===== verification/GuiSettings.thy ===== *)
theory GuiSettings
  imports VosTypes Walks
begin

section \<open>What a model says its pages are drawn with\<close>

text \<open>
  \<open>src/utils/guiSettings.ts\<close>, with \<open>thingBoundBy\<close> of \<open>src/api/platformRoles.ts\<close> and the walk of
  \<open>src/utils/containment.ts\<close>: the Thing a role binds, the display settings a model states, and what a
  Thing contains. A property bag is \<open>None\<close> where the model binds no settings.
\<close>

subsection \<open>The Thing a role binds\<close>

definition BINDS_PREDICATE_NAME :: string where
  "BINDS_PREDICATE_NAME = ''binds''"

definition DISPLAY_SETTINGS_ROLE_ID :: string where
  "DISPLAY_SETTINGS_ROLE_ID = ''1cb6206a-2726-5008-8188-698b299f5665''"

definition CONTAINMENT_ROLE_ID :: string where
  "CONTAINMENT_ROLE_ID = ''d89c4c7d-c865-5db7-8c55-80df8cb254ec''"

definition IS_PREDICATE :: string where
  "IS_PREDICATE = ''is''"

definition thingBoundBy :: "string \<Rightarrow> vos_thing list \<Rightarrow> vos_relationship list \<Rightarrow> vos_thing option" where
  "thingBoundBy roleId things relationships =
     Option.bind (List.find (\<lambda>t. tName t = BINDS_PREDICATE_NAME) things) (\<lambda>binds.
     Option.bind (List.find (\<lambda>r. rSubjectId r = roleId \<and> rPredicateId r = tId binds) relationships) (\<lambda>binding.
       List.find (\<lambda>t. tId t = rTargetId binding) things))"

subsection \<open>The settings\<close>

record flash_settings =
  fl_flashEdgeSize :: jsnum
  fl_flashNodeSizeFactor :: jsnum
  fl_flashNodeBrighten :: jsnum

record layout_settings =
  ly_repulsion :: jsnum
  ly_gravity :: jsnum
  ly_clusterRepulsion :: jsnum
  ly_scalingRatioMultiplier :: jsnum
  ly_gravityMultiplier :: jsnum
  ly_barnesHutTheta :: jsnum
  ly_slowDown :: jsnum
  ly_strongGravityMode :: bool
  ly_nodeSizeMin :: jsnum
  ly_nodeSizeMax :: jsnum
  ly_nodeSizeSlope :: jsnum
  ly_edgeSize :: jsnum
  ly_classifyingProperty :: string

record number_display_settings =
  nd_floatingPointPrecision :: jsnum
  nd_decimalPrecision :: jsnum

definition LAYOUT_DEFAULTS :: layout_settings where
  "LAYOUT_DEFAULTS = \<lparr>ly_repulsion = Dec 1 (- 1), ly_gravity = Dec 1 (- 4), ly_clusterRepulsion = Dec 4 (- 1),
     ly_scalingRatioMultiplier = js_int 100, ly_gravityMultiplier = js_int 10000, ly_barnesHutTheta = Dec 12 (- 1),
     ly_slowDown = js_int 10, ly_strongGravityMode = True, ly_nodeSizeMin = js_int 1, ly_nodeSizeMax = js_int 6,
     ly_nodeSizeSlope = Dec 4 (- 1), ly_edgeSize = js_int 1, ly_classifyingProperty = ''ifcClass''\<rparr>"

definition NUMBER_DISPLAY_DEFAULTS :: number_display_settings where
  "NUMBER_DISPLAY_DEFAULTS = \<lparr>nd_floatingPointPrecision = js_int 5, nd_decimalPrecision = js_int 5\<rparr>"

definition FLASH_DEFAULTS :: flash_settings where
  "FLASH_DEFAULTS = \<lparr>fl_flashEdgeSize = Dec 15 (- 1), fl_flashNodeSizeFactor = Dec 14 (- 1), fl_flashNodeBrighten = Dec 5 (- 1)\<rparr>"

subsection \<open>Reading one property\<close>

definition num_is_integer :: "jsnum \<Rightarrow> bool" where
  "num_is_integer n = (case n of Dec m e \<Rightarrow> 0 \<le> e \<or> m mod 10 ^ nat (- e) = 0 | _ \<Rightarrow> False)"

definition toDecimalPlaces :: "json option \<Rightarrow> jsnum \<Rightarrow> jsnum" where
  "toDecimalPlaces v fallback = (case v of
     Some (JNum n) \<Rightarrow> if num_is_integer n \<and> num_le (js_int 0) n \<and> num_le n (js_int 20) then n else fallback
   | _ \<Rightarrow> fallback)"

definition toNumber :: "json option \<Rightarrow> jsnum \<Rightarrow> jsnum" where
  "toNumber v fallback = (case v of Some (JNum n) \<Rightarrow> if n \<noteq> NaN then n else fallback | _ \<Rightarrow> fallback)"

definition toBoolean :: "json option \<Rightarrow> bool \<Rightarrow> bool" where
  "toBoolean v fallback = (case v of Some (JBool b) \<Rightarrow> b | _ \<Rightarrow> fallback)"

definition toText :: "json option \<Rightarrow> string \<Rightarrow> string" where
  "toText v fallback = (case v of Some (JStr s) \<Rightarrow> if s \<noteq> [] then s else fallback | _ \<Rightarrow> fallback)"

text \<open>\<open>s.split(',')\<close>.\<close>

fun split_comma :: "string \<Rightarrow> string list" where
  "split_comma [] = [[]]"
| "split_comma (c # s) = (if c = CHR '','' then [] # split_comma s
     else (case split_comma s of [] \<Rightarrow> [[c]] | w # ws \<Rightarrow> (c # w) # ws))"

definition readModelLoadProperties :: "props option \<Rightarrow> string list" where
  "readModelLoadProperties properties = (case Option.bind properties (\<lambda>p. oget p ''ModelLoadProperties'') of
     Some (JStr raw) \<Rightarrow> filter (\<lambda>name. name \<noteq> []) (map trim (split_comma raw))
   | _ \<Rightarrow> [])"

subsection \<open>The property bag and what is read of it\<close>

text \<open>The settings Thing's properties, under those of the first Thing that \<open>is\<close> it.\<close>

definition findGuiSettingsProperties :: "vos_thing list \<Rightarrow> vos_relationship list \<Rightarrow> props option" where
  "findGuiSettingsProperties things relationships =
     (case thingBoundBy DISPLAY_SETTINGS_ROLE_ID things relationships of None \<Rightarrow> None
      | Some settings \<Rightarrow>
       (let isPredicateId = map_option tId (List.find (\<lambda>t. tName t = IS_PREDICATE) things);
            isRelationship = List.find (\<lambda>r. rTargetId r = tId settings \<and> Some (rPredicateId r) = isPredicateId) relationships;
            instance = Option.bind isRelationship (\<lambda>r. List.find (\<lambda>t. tId t = rSubjectId r) things)
        in Some (oassign (oassign [] (tProperties settings)) (case instance of Some t \<Rightarrow> tProperties t | None \<Rightarrow> []))))"

definition readFlashSettings :: "props \<Rightarrow> flash_settings" where
  "readFlashSettings p = \<lparr>fl_flashEdgeSize = toNumber (oget p ''FlashEdgeSize'') (fl_flashEdgeSize FLASH_DEFAULTS),
     fl_flashNodeSizeFactor = toNumber (oget p ''FlashNodeSizeFactor'') (fl_flashNodeSizeFactor FLASH_DEFAULTS),
     fl_flashNodeBrighten = toNumber (oget p ''FlashNodeBrighten'') (fl_flashNodeBrighten FLASH_DEFAULTS)\<rparr>"

definition readLayoutSettings :: "props \<Rightarrow> layout_settings" where
  "readLayoutSettings p = \<lparr>ly_repulsion = toNumber (oget p ''LayoutRepulsion'') (ly_repulsion LAYOUT_DEFAULTS),
     ly_gravity = toNumber (oget p ''LayoutGravity'') (ly_gravity LAYOUT_DEFAULTS),
     ly_clusterRepulsion = toNumber (oget p ''ClusterRepulsion'') (ly_clusterRepulsion LAYOUT_DEFAULTS),
     ly_scalingRatioMultiplier = toNumber (oget p ''LayoutScalingRatioMultiplier'') (ly_scalingRatioMultiplier LAYOUT_DEFAULTS),
     ly_gravityMultiplier = toNumber (oget p ''LayoutGravityMultiplier'') (ly_gravityMultiplier LAYOUT_DEFAULTS),
     ly_barnesHutTheta = toNumber (oget p ''LayoutBarnesHutTheta'') (ly_barnesHutTheta LAYOUT_DEFAULTS),
     ly_slowDown = toNumber (oget p ''LayoutSlowDown'') (ly_slowDown LAYOUT_DEFAULTS),
     ly_strongGravityMode = toBoolean (oget p ''LayoutStrongGravityMode'') (ly_strongGravityMode LAYOUT_DEFAULTS),
     ly_nodeSizeMin = toNumber (oget p ''NodeSizeMin'') (ly_nodeSizeMin LAYOUT_DEFAULTS),
     ly_nodeSizeMax = toNumber (oget p ''NodeSizeMax'') (ly_nodeSizeMax LAYOUT_DEFAULTS),
     ly_nodeSizeSlope = toNumber (oget p ''NodeSizeSlope'') (ly_nodeSizeSlope LAYOUT_DEFAULTS),
     ly_edgeSize = toNumber (oget p ''EdgeSize'') (ly_edgeSize LAYOUT_DEFAULTS),
     ly_classifyingProperty = toText (oget p ''ClassifyingProperty'') (ly_classifyingProperty LAYOUT_DEFAULTS)\<rparr>"

definition extractFlashSettings :: "vos_thing list \<Rightarrow> vos_relationship list \<Rightarrow> flash_settings" where
  "extractFlashSettings things relationships = (case findGuiSettingsProperties things relationships of
     None \<Rightarrow> FLASH_DEFAULTS | Some p \<Rightarrow> readFlashSettings p)"

definition extractLayoutSettings :: "vos_thing list \<Rightarrow> vos_relationship list \<Rightarrow> layout_settings" where
  "extractLayoutSettings things relationships = (case findGuiSettingsProperties things relationships of
     None \<Rightarrow> LAYOUT_DEFAULTS | Some p \<Rightarrow> readLayoutSettings p)"

text \<open>The entries of a parsed object that are colours, written onto a result in order.\<close>

definition put_colours :: "json \<Rightarrow> (string, string) omap \<Rightarrow> (string, string) omap" where
  "put_colours parsed result = (case parsed of
     JObj entries \<Rightarrow> foldl (\<lambda>acc (key, v). case v of
         JStr s \<Rightarrow> if starts_with s ''#'' then oput key s acc else acc | _ \<Rightarrow> acc) result entries
   | _ \<Rightarrow> result)"

definition extractPredicateColors :: "vos_thing list \<Rightarrow> vos_relationship list \<Rightarrow> (string, string) omap" where
  "extractPredicateColors things relationships = (case findGuiSettingsProperties things relationships of
     None \<Rightarrow> []
   | Some p \<Rightarrow> (case oget p ''PredicateColors'' of
       Some (JStr raw) \<Rightarrow> if raw = [] then []
         else (case json_parse raw of None \<Rightarrow> [] | Some parsed \<Rightarrow> put_colours parsed [])
     | _ \<Rightarrow> []))"

definition extractAllGuiSettings ::
  "vos_thing list \<Rightarrow> vos_relationship list \<Rightarrow> flash_settings \<times> layout_settings \<times> (string, string) omap" where
  "extractAllGuiSettings things relationships =
     (let p = findGuiSettingsProperties things relationships;
          flash = (case p of Some q \<Rightarrow> readFlashSettings q | None \<Rightarrow> FLASH_DEFAULTS);
          layout = (case p of Some q \<Rightarrow> readLayoutSettings q | None \<Rightarrow> LAYOUT_DEFAULTS);
          predicateColors = (case p of None \<Rightarrow> []
            | Some q \<Rightarrow> (case oget q ''PredicateColors'' of
                Some v \<Rightarrow> (case v of JStr raw \<Rightarrow>
                    if raw \<noteq> [] then (case json_parse raw of Some parsed \<Rightarrow> put_colours parsed [] | None \<Rightarrow> []) else []
                  | _ \<Rightarrow> [])
              | None \<Rightarrow> []))
      in (flash, layout, predicateColors))"

definition extractNumberDisplaySettings :: "vos_thing list \<Rightarrow> vos_relationship list \<Rightarrow> number_display_settings" where
  "extractNumberDisplaySettings things relationships = (case findGuiSettingsProperties things relationships of
     None \<Rightarrow> NUMBER_DISPLAY_DEFAULTS
   | Some p \<Rightarrow> \<lparr>nd_floatingPointPrecision =
         toDecimalPlaces (oget p ''FloatingPointDisplayPrecision'') (nd_floatingPointPrecision NUMBER_DISPLAY_DEFAULTS),
       nd_decimalPrecision = toDecimalPlaces (oget p ''DecimalDisplayPrecision'') (nd_decimalPrecision NUMBER_DISPLAY_DEFAULTS)\<rparr>)"

subsection \<open>What a Thing contains\<close>

text \<open>The kinds of containment: the Thing the role binds and everything that \<open>is\<close> it, found with the
  children of each Thing and a stack of those still to follow.\<close>

definition is_children :: "vos_thing list \<Rightarrow> vos_relationship list \<Rightarrow> string \<Rightarrow> string list" where
  "is_children things relationships target =
     (let isIds = map tId (filter (\<lambda>t. tName t = IS_PREDICATE) things) in
      map rSubjectId (filter (\<lambda>r. rPredicateId r \<in> set isIds \<and> rTargetId r = target) relationships))"

lemma set_is_children: "set (is_children things relationships x) \<subseteq> set (map rSubjectId relationships)"
  by (auto simp: is_children_def)

text \<open>The stack is popped from its end. A Thing is stacked when it is first found, so the walk ends: either
  the Things still to be found become fewer, or the stack becomes shorter.\<close>

function contain_loop :: "vos_thing list \<Rightarrow> vos_relationship list \<Rightarrow> string list \<Rightarrow> string list \<Rightarrow> string list" where
  "contain_loop things relationships found frontier =
     (if frontier = [] then found
      else (case find_children (is_children things relationships (last frontier)) found (butlast frontier) of
        (found', frontier') \<Rightarrow> contain_loop things relationships found' frontier'))"
  by pat_completeness auto
termination
proof (relation "measures [\<lambda>(things, relationships, found, frontier). card (set (map rSubjectId relationships) - set found),
    \<lambda>(things, relationships, found, frontier). length frontier]", goal_cases)
  case (2 things relationships found frontier found' frontier')
  from find_children_decreases[OF _ set_is_children 2(1) 2(2)[symmetric]] show ?case by auto
qed simp

declare contain_loop.simps [simp del]

definition containmentPredicateIds :: "vos_thing list \<Rightarrow> vos_relationship list \<Rightarrow> string list" where
  "containmentPredicateIds things relationships = (case thingBoundBy CONTAINMENT_ROLE_ID things relationships of
     None \<Rightarrow> []
   | Some kind \<Rightarrow> contain_loop things relationships [tId kind] [tId kind])"

definition thingsContainedBy :: "vos_thing \<Rightarrow> (string, vos_thing) omap \<Rightarrow> vos_relationship list \<Rightarrow> vos_thing list" where
  "thingsContainedBy container things relationships =
     (let predicates = containmentPredicateIds (map snd things) relationships in
      if predicates = [] then []
      else List.map_filter (\<lambda>r. if rSubjectId r = tId container \<and> rPredicateId r \<in> set predicates
             then oget things (rTargetId r) else None) relationships)"

subsection \<open>What the walk finds\<close>

text \<open>One \<open>is\<close> step up to a kind.\<close>

definition is_below :: "vos_thing list \<Rightarrow> vos_relationship list \<Rightarrow> (string \<times> string) set" where
  "is_below things relationships = {(x, c). c \<in> set (is_children things relationships x)}"

interpretation containment: frontier_walk "contain_loop things relationships" "is_children things relationships"
    "set (map rSubjectId relationships)" for things relationships
proof unfold_locales
  show "frontier \<noteq> [] \<Longrightarrow> contain_loop things relationships found frontier =
      (case find_children (is_children things relationships (last frontier)) found (butlast frontier) of
        (found', frontier') \<Rightarrow> contain_loop things relationships found' frontier')" for found frontier
    by (subst contain_loop.simps) simp
qed (simp_all only: set_is_children finite_set, subst contain_loop.simps, simp)

lemma containment_one_step: "containment.one_step things relationships = is_below things relationships"
  by (simp add: containment.one_step_def is_below_def)

text \<open>The kinds of containment are found whole: the walk returns the Thing the containment role binds
  and exactly the Things that lie below it along \<open>is\<close>, however the classification branches, repeats or
  circles.\<close>

lemma containment_kinds:
  "set (containmentPredicateIds things relationships) =
   (case thingBoundBy CONTAINMENT_ROLE_ID things relationships of None \<Rightarrow> {}
    | Some kind \<Rightarrow> (is_below things relationships)\<^sup>* `` {tId kind})"
  by (simp add: containmentPredicateIds_def containment.walk_reaches containment_one_step Image_def split: option.split)

subsection \<open>What is read of the settings\<close>

lemma readFlash_readLayout_settings:
  "extractFlashSettings things relationships = fst (extractAllGuiSettings things relationships)"
  "extractLayoutSettings things relationships = fst (snd (extractAllGuiSettings things relationships))"
  by (auto simp: extractFlashSettings_def extractLayoutSettings_def extractAllGuiSettings_def Let_def split: option.splits)

lemma extractPredicateColors_all:
  "extractPredicateColors things relationships = snd (snd (extractAllGuiSettings things relationships))"
  by (auto simp: extractPredicateColors_def extractAllGuiSettings_def Let_def split: option.splits json.splits)

text \<open>Reading every settings group in one traversal gives what reading each group by itself gives: the
  flash settings, the layout settings and the predicate colours, defaults and settings that do not parse
  included.\<close>

theorem settings_in_one_traversal:
  "extractAllGuiSettings things relationships =
   (extractFlashSettings things relationships, extractLayoutSettings things relationships,
    extractPredicateColors things relationships)"
  by (simp add: readFlash_readLayout_settings extractPredicateColors_all)

definition decimal_places :: "jsnum \<Rightarrow> bool" where
  "decimal_places n \<longleftrightarrow> num_is_integer n \<and> num_le (js_int 0) n \<and> num_le n (js_int 20)"

lemma toDecimalPlaces_places: "decimal_places fallback \<Longrightarrow> decimal_places (toDecimalPlaces v fallback)"
  by (auto simp: toDecimalPlaces_def decimal_places_def split: option.splits json.splits)

lemma default_places: "decimal_places (nd_floatingPointPrecision NUMBER_DISPLAY_DEFAULTS)"
  "decimal_places (nd_decimalPrecision NUMBER_DISPLAY_DEFAULTS)"
  by code_simp+

text \<open>Whatever a model states for its decimal places, an unusable value included, the precisions read are
  whole numbers from 0 to 20, which is what \<open>toFixed\<close> accepts.\<close>

theorem precision_bounds:
  "decimal_places (nd_floatingPointPrecision (extractNumberDisplaySettings things relationships)) \<and>
   decimal_places (nd_decimalPrecision (extractNumberDisplaySettings things relationships))"
  by (auto simp: extractNumberDisplaySettings_def default_places intro: toDecimalPlaces_places split: option.splits)

end
