(* ===== verification/UiStore.thy ===== *)
theory UiStore
  imports PredicateCluster TypeFilter GuiSettings
begin

section \<open>What the pages show: selection, filters, menus and panel\<close>

text \<open>
  \<open>src/stores/uiStore.ts\<close>. The store is a record with the source's fields, local storage an ordered map of
  texts; an operation takes and returns the store, and the storage where it reads or writes it. A \<open>Set\<close> is
  the list of its members in insertion order.
\<close>

type_synonym storage = "(string, string) omap"

subsection \<open>What is kept per model\<close>

definition PANEL_WIDTH_KEY :: string where
  "PANEL_WIDTH_KEY = ''vos-panel-width''"

definition DEFAULT_PANEL_WIDTH :: jsnum where
  "DEFAULT_PANEL_WIDTH = js_int 320"

definition MIN_PANEL_WIDTH :: jsnum where
  "MIN_PANEL_WIDTH = js_int 240"

definition MAX_PANEL_WIDTH :: jsnum where
  "MAX_PANEL_WIDTH = js_int 1600"

definition HIDDEN_TYPES_KEY_PREFIX :: string where
  "HIDDEN_TYPES_KEY_PREFIX = ''vos-hidden-types:''"

definition TYPE_SORT_KEY_PREFIX :: string where
  "TYPE_SORT_KEY_PREFIX = ''vos-type-sort:''"

definition DEFAULT_TYPE_SORT :: sort_order where
  "DEFAULT_TYPE_SORT = CountDesc"

definition VALID_TYPE_SORTS :: "sort_order list" where
  "VALID_TYPE_SORTS = [CountDesc, CountAsc, NameAsc, NameDesc]"

fun sort_text :: "sort_order \<Rightarrow> string" where
  "sort_text CountDesc = ''count-desc''"
| "sort_text CountAsc = ''count-asc''"
| "sort_text NameAsc = ''name-asc''"
| "sort_text NameDesc = ''name-desc''"

text \<open>A model id that is null or empty selects no model.\<close>

definition model_key :: "string option \<Rightarrow> string option" where
  "model_key modelId = (case modelId of Some m \<Rightarrow> if m = [] then None else Some m | None \<Rightarrow> None)"

definition loadHiddenTypeIds :: "storage \<Rightarrow> string option \<Rightarrow> string list" where
  "loadHiddenTypeIds ls modelId = (case model_key modelId of None \<Rightarrow> []
     | Some m \<Rightarrow> (case oget ls (HIDDEN_TYPES_KEY_PREFIX @ m) of None \<Rightarrow> []
       | Some raw \<Rightarrow> if raw = [] then []
           else (case json_parse raw of
               Some (JArr xs) \<Rightarrow> set_of (List.map_filter (\<lambda>x. as_string (Some x)) xs)
             | _ \<Rightarrow> [])))"

definition persistHiddenTypeIds :: "string option \<Rightarrow> string list \<Rightarrow> storage \<Rightarrow> storage" where
  "persistHiddenTypeIds modelId ids ls = (case model_key modelId of None \<Rightarrow> ls
     | Some m \<Rightarrow> if ids = [] then odel (HIDDEN_TYPES_KEY_PREFIX @ m) ls
         else oput (HIDDEN_TYPES_KEY_PREFIX @ m) (json_stringify (JArr (map JStr ids))) ls)"

definition loadTypeSort :: "storage \<Rightarrow> string option \<Rightarrow> sort_order" where
  "loadTypeSort ls modelId = (case model_key modelId of None \<Rightarrow> DEFAULT_TYPE_SORT
     | Some m \<Rightarrow> (case oget ls (TYPE_SORT_KEY_PREFIX @ m) of None \<Rightarrow> DEFAULT_TYPE_SORT
       | Some raw \<Rightarrow> (case List.find (\<lambda>order. sort_text order = raw) VALID_TYPE_SORTS of
             Some order \<Rightarrow> order | None \<Rightarrow> DEFAULT_TYPE_SORT)))"

definition persistTypeSort :: "string option \<Rightarrow> sort_order \<Rightarrow> storage \<Rightarrow> storage" where
  "persistTypeSort modelId order ls = (case model_key modelId of None \<Rightarrow> ls
     | Some m \<Rightarrow> if order = DEFAULT_TYPE_SORT then odel (TYPE_SORT_KEY_PREFIX @ m) ls
         else oput (TYPE_SORT_KEY_PREFIX @ m) (sort_text order) ls)"

text \<open>\<open>parseInt(s, 10)\<close>: white space and a sign, then as many digits as there are.\<close>

definition parseInt :: "string \<Rightarrow> jsnum" where
  "parseInt s = (let t = dropWhile is_space s;
       (neg, u) = (case t of c # r \<Rightarrow> if c = CHR ''-'' then (True, r) else if c = CHR ''+'' then (False, r) else (False, t)
                   | [] \<Rightarrow> (False, t));
       ds = takeWhile is_digit u
     in if ds = [] then NaN else js_int (if neg then - digits_val ds else digits_val ds))"

definition loadPanelWidth :: "storage \<Rightarrow> jsnum" where
  "loadPanelWidth ls = (case oget ls PANEL_WIDTH_KEY of None \<Rightarrow> DEFAULT_PANEL_WIDTH
     | Some stored \<Rightarrow> if stored = [] then DEFAULT_PANEL_WIDTH
         else (let n = parseInt stored in
           if n \<noteq> NaN \<and> num_le MIN_PANEL_WIDTH n \<and> num_le n MAX_PANEL_WIDTH then n else DEFAULT_PANEL_WIDTH))"

subsection \<open>The state\<close>

type_synonym position = "jsnum \<times> jsnum"

record ui_state =
  ui_selectedNodeId :: "string option"
  ui_selectedEdgeId :: "string option"
  ui_hoveredNodeId :: "string option"
  ui_detailPanelWidth :: jsnum
  ui_statesVersion :: int
  ui_stateVersions :: "(string, int) omap"
  ui_currentModelId :: "string option"
  ui_hiddenTypeIds :: "string list"
  ui_typeSortOrder :: sort_order
  ui_hiddenPredicateIds :: "string list"
  ui_activePredicateIds :: "string list"
  ui_clusterMap :: "cluster_map option"
  ui_predicateStatistics :: "predicate_statistics list"
  ui_collapsedClusters :: "int list"
  ui_expandedNodes :: "string list"
  ui_radialMenuOpen :: bool
  ui_radialMenuPosition :: "position option"
  ui_expandedLogicalParents :: "string list"
  ui_semanticZoomEnabled :: bool
  ui_nodeContextMenuOpen :: bool
  ui_nodeContextMenuPosition :: "position option"
  ui_nodeContextMenuNodeId :: "string option"
  ui_isLayoutFrozen :: bool
  ui_isSpreadActive :: bool
  ui_layoutSettings :: layout_settings
  ui_predicateColors :: "(string, string) omap"
  ui_flashSettings :: flash_settings
  ui_flashingNodeIds :: "string list"
  ui_flashingEdgeIds :: "string list"

definition ui_initial :: "storage \<Rightarrow> ui_state" where
  "ui_initial ls = \<lparr>ui_selectedNodeId = None, ui_selectedEdgeId = None, ui_hoveredNodeId = None,
     ui_detailPanelWidth = loadPanelWidth ls, ui_statesVersion = 0, ui_stateVersions = [],
     ui_currentModelId = None, ui_hiddenTypeIds = [], ui_typeSortOrder = DEFAULT_TYPE_SORT,
     ui_hiddenPredicateIds = [], ui_activePredicateIds = [], ui_clusterMap = None, ui_predicateStatistics = [],
     ui_collapsedClusters = [], ui_expandedNodes = [], ui_radialMenuOpen = False, ui_radialMenuPosition = None,
     ui_expandedLogicalParents = [], ui_semanticZoomEnabled = True, ui_nodeContextMenuOpen = False,
     ui_nodeContextMenuPosition = None, ui_nodeContextMenuNodeId = None, ui_isLayoutFrozen = False,
     ui_isSpreadActive = False, ui_layoutSettings = LAYOUT_DEFAULTS, ui_predicateColors = [],
     ui_flashSettings = FLASH_DEFAULTS, ui_flashingNodeIds = [], ui_flashingEdgeIds = []\<rparr>"

text \<open>A member is taken out of a set that has it and put into one that has not.\<close>

definition toggle :: "'a \<Rightarrow> 'a list \<Rightarrow> 'a list" where
  "toggle x s = (if x \<in> set s then sdel x s else sadd x s)"

subsection \<open>Operations that read or write local storage\<close>

definition setDetailPanelWidth :: "jsnum \<Rightarrow> ui_state \<times> storage \<Rightarrow> ui_state \<times> storage" where
  "setDetailPanelWidth width = (\<lambda>(u, ls). let clamped = math_max MIN_PANEL_WIDTH (math_min MAX_PANEL_WIDTH width) in
     (u\<lparr>ui_detailPanelWidth := clamped\<rparr>, oput PANEL_WIDTH_KEY (num_string clamped) ls))"

definition setCurrentModelId :: "string option \<Rightarrow> ui_state \<times> storage \<Rightarrow> ui_state \<times> storage" where
  "setCurrentModelId modelId = (\<lambda>(u, ls).
     (u\<lparr>ui_currentModelId := modelId, ui_hiddenTypeIds := loadHiddenTypeIds ls modelId,
        ui_typeSortOrder := loadTypeSort ls modelId\<rparr>, ls))"

definition setTypeSortOrder :: "sort_order \<Rightarrow> ui_state \<times> storage \<Rightarrow> ui_state \<times> storage" where
  "setTypeSortOrder order = (\<lambda>(u, ls).
     (u\<lparr>ui_typeSortOrder := order\<rparr>, persistTypeSort (ui_currentModelId u) order ls))"

definition toggleHiddenType :: "string \<Rightarrow> ui_state \<times> storage \<Rightarrow> ui_state \<times> storage" where
  "toggleHiddenType typeId = (\<lambda>(u, ls). let next = toggle typeId (ui_hiddenTypeIds u) in
     (u\<lparr>ui_hiddenTypeIds := next\<rparr>, persistHiddenTypeIds (ui_currentModelId u) next ls))"

definition setHiddenTypeIds :: "string list \<Rightarrow> ui_state \<times> storage \<Rightarrow> ui_state \<times> storage" where
  "setHiddenTypeIds ids = (\<lambda>(u, ls).
     (u\<lparr>ui_hiddenTypeIds := set_of ids\<rparr>, persistHiddenTypeIds (ui_currentModelId u) ids ls))"

definition clearHiddenTypeIds :: "ui_state \<times> storage \<Rightarrow> ui_state \<times> storage" where
  "clearHiddenTypeIds = (\<lambda>(u, ls).
     (u\<lparr>ui_hiddenTypeIds := []\<rparr>, persistHiddenTypeIds (ui_currentModelId u) [] ls))"

subsection \<open>Operations on the store alone\<close>

definition selectNode :: "string option \<Rightarrow> ui_state \<Rightarrow> ui_state" where
  "selectNode i u = u\<lparr>ui_selectedNodeId := i, ui_selectedEdgeId := None\<rparr>"

definition selectEdge :: "string option \<Rightarrow> ui_state \<Rightarrow> ui_state" where
  "selectEdge i u = u\<lparr>ui_selectedEdgeId := i, ui_selectedNodeId := None\<rparr>"

definition statesMoved :: "string list \<Rightarrow> ui_state \<Rightarrow> ui_state" where
  "statesMoved states u = u\<lparr>ui_statesVersion := ui_statesVersion u + 1,
     ui_stateVersions := foldl (\<lambda>moved state. oput state (case oget moved state of Some n \<Rightarrow> n + 1 | None \<Rightarrow> 1) moved)
       (oassign [] (ui_stateVersions u)) states\<rparr>"

definition toggleHiddenPredicate :: "string \<Rightarrow> ui_state \<Rightarrow> ui_state" where
  "toggleHiddenPredicate predicateId u = u\<lparr>ui_hiddenPredicateIds := toggle predicateId (ui_hiddenPredicateIds u)\<rparr>"

definition toggleLogicalExpansion :: "string \<Rightarrow> ui_state \<Rightarrow> ui_state" where
  "toggleLogicalExpansion geoNodeId u = u\<lparr>ui_expandedLogicalParents := toggle geoNodeId (ui_expandedLogicalParents u)\<rparr>"

definition expandLogicalParent :: "string \<Rightarrow> ui_state \<Rightarrow> ui_state" where
  "expandLogicalParent i u = (if i \<in> set (ui_expandedLogicalParents u) then u
     else u\<lparr>ui_expandedLogicalParents := sadd i (ui_expandedLogicalParents u)\<rparr>)"

definition openNodeContextMenu :: "string \<Rightarrow> position \<Rightarrow> ui_state \<Rightarrow> ui_state" where
  "openNodeContextMenu nodeId p u = u\<lparr>ui_nodeContextMenuOpen := True, ui_nodeContextMenuPosition := Some p,
     ui_nodeContextMenuNodeId := Some nodeId, ui_radialMenuOpen := False, ui_radialMenuPosition := None\<rparr>"

definition closeNodeContextMenu :: "ui_state \<Rightarrow> ui_state" where
  "closeNodeContextMenu u = u\<lparr>ui_nodeContextMenuOpen := False, ui_nodeContextMenuPosition := None,
     ui_nodeContextMenuNodeId := None\<rparr>"

definition openRadialMenu :: "position \<Rightarrow> ui_state \<Rightarrow> ui_state" where
  "openRadialMenu p u = u\<lparr>ui_radialMenuOpen := True, ui_radialMenuPosition := Some p, ui_nodeContextMenuOpen := False,
     ui_nodeContextMenuPosition := None, ui_nodeContextMenuNodeId := None\<rparr>"

definition closeRadialMenu :: "ui_state \<Rightarrow> ui_state" where
  "closeRadialMenu u = u\<lparr>ui_radialMenuOpen := False, ui_radialMenuPosition := None\<rparr>"

definition addFlashNode :: "string \<Rightarrow> ui_state \<Rightarrow> ui_state" where
  "addFlashNode i u = u\<lparr>ui_flashingNodeIds := sadd i (ui_flashingNodeIds u)\<rparr>"

definition removeFlashNode :: "string \<Rightarrow> ui_state \<Rightarrow> ui_state" where
  "removeFlashNode i u = (if i \<notin> set (ui_flashingNodeIds u) then u
     else u\<lparr>ui_flashingNodeIds := sdel i (ui_flashingNodeIds u)\<rparr>)"

definition addFlashEdge :: "string \<Rightarrow> ui_state \<Rightarrow> ui_state" where
  "addFlashEdge i u = u\<lparr>ui_flashingEdgeIds := sadd i (ui_flashingEdgeIds u)\<rparr>"

definition removeFlashEdge :: "string \<Rightarrow> ui_state \<Rightarrow> ui_state" where
  "removeFlashEdge i u = (if i \<notin> set (ui_flashingEdgeIds u) then u
     else u\<lparr>ui_flashingEdgeIds := sdel i (ui_flashingEdgeIds u)\<rparr>)"

text \<open>A change of the clustering predicates drops the clusters and what was folded in them.\<close>

definition setPredicateIds :: "string list \<Rightarrow> ui_state \<Rightarrow> ui_state" where
  "setPredicateIds ids u = u\<lparr>ui_activePredicateIds := ids, ui_collapsedClusters := [], ui_expandedNodes := [],
     ui_clusterMap := None\<rparr>"

definition togglePredicateId :: "string \<Rightarrow> ui_state \<Rightarrow> ui_state" where
  "togglePredicateId i u = u\<lparr>ui_activePredicateIds := toggle i (ui_activePredicateIds u), ui_collapsedClusters := [],
     ui_expandedNodes := [], ui_clusterMap := None\<rparr>"

definition clearPredicateIds :: "ui_state \<Rightarrow> ui_state" where
  "clearPredicateIds u = u\<lparr>ui_activePredicateIds := [], ui_collapsedClusters := [], ui_expandedNodes := [],
     ui_clusterMap := None\<rparr>"

definition toggleClusterCollapsed :: "int \<Rightarrow> ui_state \<Rightarrow> ui_state" where
  "toggleClusterCollapsed clusterIndex u = u\<lparr>ui_collapsedClusters := toggle clusterIndex (ui_collapsedClusters u)\<rparr>"

definition toggleNodeExpanded :: "string \<Rightarrow> ui_state \<Rightarrow> ui_state" where
  "toggleNodeExpanded nodeId u = u\<lparr>ui_expandedNodes := toggle nodeId (ui_expandedNodes u)\<rparr>"

subsection \<open>Every operation as one step\<close>

datatype ui_action = SelectNode "string option" | SelectEdge "string option" | SetHoveredNodeId "string option"
  | SetDetailPanelWidth jsnum | StatesMoved "string list" | SetCurrentModelId "string option"
  | SetTypeSortOrder sort_order | ToggleHiddenType string | SetHiddenTypeIds "string list" | ClearHiddenTypeIds
  | ToggleHiddenPredicate string | SetHiddenPredicateIds "string list" | ClearHiddenPredicateIds
  | ToggleLogicalExpansion string | ExpandLogicalParent string | ClearLogicalExpansions | SetSemanticZoomEnabled bool
  | OpenNodeContextMenu string position | CloseNodeContextMenu | ToggleLayoutFrozen | ToggleSpreadActive
  | SetLayoutSettings layout_settings | SetPredicateColors "(string, string) omap" | SetFlashSettings flash_settings
  | AddFlashNode string | RemoveFlashNode string | AddFlashEdge string | RemoveFlashEdge string
  | TogglePredicateId string | ClearPredicateIds | SetPredicateIds "string list" | SetClusterMap "cluster_map option"
  | SetPredicateStatistics "predicate_statistics list" | ToggleClusterCollapsed int | ToggleNodeExpanded string
  | OpenRadialMenu position | CloseRadialMenu

fun ui_change :: "ui_action \<Rightarrow> ui_state \<Rightarrow> ui_state" where
  "ui_change (SelectNode i) u = selectNode i u"
| "ui_change (SelectEdge i) u = selectEdge i u"
| "ui_change (SetHoveredNodeId i) u = u\<lparr>ui_hoveredNodeId := i\<rparr>"
| "ui_change (StatesMoved states) u = statesMoved states u"
| "ui_change (ToggleHiddenPredicate p) u = toggleHiddenPredicate p u"
| "ui_change (SetHiddenPredicateIds ids) u = u\<lparr>ui_hiddenPredicateIds := set_of ids\<rparr>"
| "ui_change ClearHiddenPredicateIds u = u\<lparr>ui_hiddenPredicateIds := []\<rparr>"
| "ui_change (ToggleLogicalExpansion g) u = toggleLogicalExpansion g u"
| "ui_change (ExpandLogicalParent i) u = expandLogicalParent i u"
| "ui_change ClearLogicalExpansions u = u\<lparr>ui_expandedLogicalParents := []\<rparr>"
| "ui_change (SetSemanticZoomEnabled enabled) u = u\<lparr>ui_semanticZoomEnabled := enabled\<rparr>"
| "ui_change (OpenNodeContextMenu n p) u = openNodeContextMenu n p u"
| "ui_change CloseNodeContextMenu u = closeNodeContextMenu u"
| "ui_change ToggleLayoutFrozen u = u\<lparr>ui_isLayoutFrozen := \<not> ui_isLayoutFrozen u\<rparr>"
| "ui_change ToggleSpreadActive u = u\<lparr>ui_isSpreadActive := \<not> ui_isSpreadActive u\<rparr>"
| "ui_change (SetLayoutSettings s) u = u\<lparr>ui_layoutSettings := s\<rparr>"
| "ui_change (SetPredicateColors c) u = u\<lparr>ui_predicateColors := c\<rparr>"
| "ui_change (SetFlashSettings s) u = u\<lparr>ui_flashSettings := s\<rparr>"
| "ui_change (AddFlashNode i) u = addFlashNode i u"
| "ui_change (RemoveFlashNode i) u = removeFlashNode i u"
| "ui_change (AddFlashEdge i) u = addFlashEdge i u"
| "ui_change (RemoveFlashEdge i) u = removeFlashEdge i u"
| "ui_change (TogglePredicateId i) u = togglePredicateId i u"
| "ui_change ClearPredicateIds u = clearPredicateIds u"
| "ui_change (SetPredicateIds ids) u = setPredicateIds ids u"
| "ui_change (SetClusterMap m) u = u\<lparr>ui_clusterMap := m\<rparr>"
| "ui_change (SetPredicateStatistics s) u = u\<lparr>ui_predicateStatistics := s\<rparr>"
| "ui_change (ToggleClusterCollapsed c) u = toggleClusterCollapsed c u"
| "ui_change (ToggleNodeExpanded n) u = toggleNodeExpanded n u"
| "ui_change (OpenRadialMenu p) u = openRadialMenu p u"
| "ui_change CloseRadialMenu u = closeRadialMenu u"
| "ui_change _ u = u"

fun ui_step :: "ui_action \<Rightarrow> ui_state \<times> storage \<Rightarrow> ui_state \<times> storage" where
  "ui_step (SetDetailPanelWidth w) us = setDetailPanelWidth w us"
| "ui_step (SetCurrentModelId m) us = setCurrentModelId m us"
| "ui_step (SetTypeSortOrder order) us = setTypeSortOrder order us"
| "ui_step (ToggleHiddenType t) us = toggleHiddenType t us"
| "ui_step (SetHiddenTypeIds ids) us = setHiddenTypeIds ids us"
| "ui_step ClearHiddenTypeIds us = clearHiddenTypeIds us"
| "ui_step a us = (ui_change a (fst us), snd us)"

inductive ui_reachable :: "storage \<Rightarrow> ui_state \<times> storage \<Rightarrow> bool" for stored where
  opened: "ui_reachable stored (ui_initial stored, stored)"
| acted: "ui_reachable stored us \<Longrightarrow> ui_reachable stored (ui_step a us)"


subsection \<open>What is kept is read back\<close>

lemma set_of_distinct: "distinct xs \<Longrightarrow> set_of xs = xs"
proof -
  have "distinct (ys @ xs) \<Longrightarrow> foldl (\<lambda>acc x. sadd x acc) ys xs = ys @ xs" for ys :: "'a list"
    by (induction xs arbitrary: ys) (auto simp: sadd_def)
  then show "distinct xs \<Longrightarrow> set_of xs = xs" by (simp add: set_of_def)
qed

lemma strings_of_texts: "List.map_filter (\<lambda>x. as_string (Some x)) (map JStr ids) = ids"
  by (induction ids) (auto simp: List.map_filter_def as_string_def)

lemma plain_texts: "plain (JArr (map JStr ids))"
  by (induction ids) auto

lemma load_persist_hidden:
  assumes "model_key modelId = Some m"
  shows "loadHiddenTypeIds (persistHiddenTypeIds modelId ids ls) modelId = set_of ids"
proof (cases "ids = []")
  case True
  then show ?thesis using assms by (simp add: loadHiddenTypeIds_def persistHiddenTypeIds_def set_of_def)
next
  case False
  then show ?thesis using assms
    by (simp add: loadHiddenTypeIds_def persistHiddenTypeIds_def json_text_not_empty[OF plain_texts]
        json_parse_stringify'[OF plain_texts] strings_of_texts)
qed

lemma load_persist_sort:
  assumes "model_key modelId = Some m"
  shows "loadTypeSort (persistTypeSort modelId order ls) modelId = order"
  using assms by (cases order) (auto simp: loadTypeSort_def persistTypeSort_def DEFAULT_TYPE_SORT_def VALID_TYPE_SORTS_def)

text \<open>The three kinds of key are apart.\<close>

lemma keys_apart [simp]:
  "HIDDEN_TYPES_KEY_PREFIX \<noteq> TYPE_SORT_KEY_PREFIX" "TYPE_SORT_KEY_PREFIX \<noteq> HIDDEN_TYPES_KEY_PREFIX"
  "HIDDEN_TYPES_KEY_PREFIX @ m \<noteq> TYPE_SORT_KEY_PREFIX @ m'" "TYPE_SORT_KEY_PREFIX @ m \<noteq> HIDDEN_TYPES_KEY_PREFIX @ m'"
  "HIDDEN_TYPES_KEY_PREFIX @ m \<noteq> PANEL_WIDTH_KEY" "TYPE_SORT_KEY_PREFIX @ m \<noteq> PANEL_WIDTH_KEY"
  "PANEL_WIDTH_KEY \<noteq> HIDDEN_TYPES_KEY_PREFIX @ m" "PANEL_WIDTH_KEY \<noteq> TYPE_SORT_KEY_PREFIX @ m"
  by (simp_all add: HIDDEN_TYPES_KEY_PREFIX_def TYPE_SORT_KEY_PREFIX_def PANEL_WIDTH_KEY_def)

text \<open>What local storage keeps for one model, and that both loads read nothing else.\<close>

definition kept_for :: "string \<Rightarrow> storage \<Rightarrow> string option \<times> string option" where
  "kept_for m ls = (oget ls (HIDDEN_TYPES_KEY_PREFIX @ m), oget ls (TYPE_SORT_KEY_PREFIX @ m))"

lemma loads_kept_for:
  "kept_for m ls = kept_for m ls' \<Longrightarrow>
   loadHiddenTypeIds ls (Some m) = loadHiddenTypeIds ls' (Some m) \<and> loadTypeSort ls (Some m) = loadTypeSort ls' (Some m)"
  by (auto simp: kept_for_def loadHiddenTypeIds_def loadTypeSort_def model_key_def)

lemma kept_for_persist:
  assumes "modelId \<noteq> Some m"
  shows "kept_for m (persistHiddenTypeIds modelId ids ls) = kept_for m ls"
    "kept_for m (persistTypeSort modelId order ls) = kept_for m ls"
  using assms
  by (auto simp: kept_for_def persistHiddenTypeIds_def persistTypeSort_def model_key_def split: option.splits if_splits)

lemma kept_for_width [simp]: "kept_for m (oput PANEL_WIDTH_KEY t ls) = kept_for m ls"
  by (auto simp: kept_for_def)

lemma load_persist_other:
  "loadTypeSort (persistHiddenTypeIds modelId ids ls) modelId = loadTypeSort ls modelId"
  "loadHiddenTypeIds (persistTypeSort modelId order ls) modelId = loadHiddenTypeIds ls modelId"
  by (auto simp: loadTypeSort_def loadHiddenTypeIds_def persistHiddenTypeIds_def persistTypeSort_def split: option.splits)

lemma loads_width [simp]:
  "loadTypeSort (oput PANEL_WIDTH_KEY t ls) modelId = loadTypeSort ls modelId"
  "loadHiddenTypeIds (oput PANEL_WIDTH_KEY t ls) modelId = loadHiddenTypeIds ls modelId"
  by (auto simp: loadTypeSort_def loadHiddenTypeIds_def split: option.splits)

subsection \<open>The store and local storage agree\<close>

text \<open>The operations on the store alone leave the model, its filter and its sort alone, and the panel
  width.\<close>

lemmas ui_change_defs = selectNode_def selectEdge_def statesMoved_def toggleHiddenPredicate_def
  toggleLogicalExpansion_def expandLogicalParent_def openNodeContextMenu_def closeNodeContextMenu_def
  openRadialMenu_def closeRadialMenu_def addFlashNode_def removeFlashNode_def addFlashEdge_def removeFlashEdge_def
  setPredicateIds_def togglePredicateId_def clearPredicateIds_def toggleClusterCollapsed_def toggleNodeExpanded_def

lemma ui_change_frame [simp]:
  "ui_currentModelId (ui_change a u) = ui_currentModelId u" "ui_hiddenTypeIds (ui_change a u) = ui_hiddenTypeIds u"
  "ui_typeSortOrder (ui_change a u) = ui_typeSortOrder u" "ui_detailPanelWidth (ui_change a u) = ui_detailPanelWidth u"
  by (cases a; simp add: ui_change_defs)+

definition agrees :: "ui_state \<times> storage \<Rightarrow> bool" where
  "agrees = (\<lambda>(u, ls). distinct (ui_hiddenTypeIds u) \<and> (model_key (ui_currentModelId u) \<noteq> None \<longrightarrow>
     ui_hiddenTypeIds u = loadHiddenTypeIds ls (ui_currentModelId u) \<and> ui_typeSortOrder u = loadTypeSort ls (ui_currentModelId u)))"

lemma distinct_toggle [simp]: "distinct s \<Longrightarrow> distinct (toggle x s)"
  by (simp add: toggle_def)

lemma distinct_loadHiddenTypeIds [simp]: "distinct (loadHiddenTypeIds ls modelId)"
  by (auto simp: loadHiddenTypeIds_def split: option.splits json.splits)

text \<open>A step is one of the six operations on local storage, or a change of the store alone.\<close>

lemma ui_step_cases [case_names width model sort toggled set cleared local]:
  obtains w where "a = SetDetailPanelWidth w" | m where "a = SetCurrentModelId m" | order where "a = SetTypeSortOrder order"
  | t where "a = ToggleHiddenType t" | ids where "a = SetHiddenTypeIds ids" | "a = ClearHiddenTypeIds"
  | "ui_step a us = (ui_change a (fst us), snd us)"
  by (cases a) auto

lemma agrees_step:
  assumes "agrees (u, ls)"
  shows "agrees (ui_step a (u, ls))"
proof (cases rule: ui_step_cases[where a = a and us = "(u, ls)"])
  case width
  with assms show ?thesis by (auto simp: agrees_def setDetailPanelWidth_def Let_def)
next
  case model
  with assms show ?thesis by (auto simp: agrees_def setCurrentModelId_def)
next
  case sort
  with assms show ?thesis by (auto simp: agrees_def setTypeSortOrder_def load_persist_sort load_persist_other)
next
  case toggled
  with assms show ?thesis
    by (auto simp: agrees_def toggleHiddenType_def Let_def load_persist_hidden load_persist_other set_of_distinct)
next
  case set
  with assms show ?thesis by (auto simp: agrees_def setHiddenTypeIds_def load_persist_hidden load_persist_other)
next
  case cleared
  with assms show ?thesis by (auto simp: agrees_def clearHiddenTypeIds_def load_persist_hidden load_persist_other set_of_def)
next
  case local
  with assms show ?thesis by (simp add: agrees_def)
qed

lemma agrees_reachable: "ui_reachable stored us \<Longrightarrow> agrees us"
  by (induction rule: ui_reachable.induct) (simp add: agrees_def ui_initial_def model_key_def, metis agrees_step prod.collapse)

text \<open>Whatever local storage held at the start and whatever the user did since, the filter and the sort
  order shown for the selected model are those a reload would read for it: no operation changes one and
  forgets the other.\<close>

lemma filter_survives_reload:
  assumes "ui_reachable stored (u, ls)" "ui_currentModelId u = Some m" "m \<noteq> []"
  shows "ui_hiddenTypeIds u = loadHiddenTypeIds ls (Some m) \<and> ui_typeSortOrder u = loadTypeSort ls (Some m)"
  using agrees_reachable[OF assms(1)] assms(2,3) by (simp add: agrees_def model_key_def)

theorem filter_survives_reload_witness:
  "let (u, ls) = ui_step (ToggleHiddenType ''t2'') (ui_step (ToggleHiddenType ''t1'')
     (ui_step (SetCurrentModelId (Some ''m'')) (ui_initial [], []))) in
   ui_hiddenTypeIds u = [''t1'', ''t2''] \<and> loadHiddenTypeIds ls (Some ''m'') = [''t1'', ''t2'']"
proof -
  let ?w = "ui_step (ToggleHiddenType ''t2'') (ui_step (ToggleHiddenType ''t1'')
     (ui_step (SetCurrentModelId (Some ''m'')) (ui_initial [], [])))"
  have "ui_reachable [] ?w" by (intro ui_reachable.intros)
  moreover have "ui_currentModelId (fst ?w) = Some ''m''" "ui_hiddenTypeIds (fst ?w) = [''t1'', ''t2'']" by code_simp+
  ultimately show ?thesis using filter_survives_reload[of "[]" "fst ?w" "snd ?w" "''m''"] by (simp add: split_beta)
qed

text \<open>A run of operations, and a run during which a model is never the selected one.\<close>

definition ui_run :: "ui_action list \<Rightarrow> ui_state \<times> storage \<Rightarrow> ui_state \<times> storage" where
  "ui_run as us = foldl (\<lambda>s a. ui_step a s) us as"

fun away_from :: "string \<Rightarrow> ui_action list \<Rightarrow> ui_state \<times> storage \<Rightarrow> bool" where
  "away_from m [] us = True"
| "away_from m (a # as) us = (ui_currentModelId (fst us) \<noteq> Some m \<and> away_from m as (ui_step a us))"

lemma kept_for_step:
  "ui_currentModelId u \<noteq> Some m \<Longrightarrow> kept_for m (snd (ui_step a (u, ls))) = kept_for m ls"
  by (cases rule: ui_step_cases[where a = a and us = "(u, ls)"]) (auto simp: setDetailPanelWidth_def setCurrentModelId_def
      setTypeSortOrder_def toggleHiddenType_def setHiddenTypeIds_def clearHiddenTypeIds_def Let_def kept_for_persist)

lemma kept_for_run: "away_from m as us \<Longrightarrow> kept_for m (snd (ui_run as us)) = kept_for m (snd us)"
  by (induction as arbitrary: us) (simp_all add: ui_run_def, metis kept_for_step prod.collapse)

text \<open>Leaving a model for another and coming back, with any operations in between that do not select it,
  finds its hidden types and its sort order as they were left: filter state is kept per model.\<close>

lemma filter_restored_on_return:
  assumes "ui_reachable stored us" "ui_currentModelId (fst us) = Some m" "m \<noteq> []"
    and "away_from m as (setCurrentModelId other us)"
  shows "let back = setCurrentModelId (Some m) (ui_run as (setCurrentModelId other us)) in
    ui_hiddenTypeIds (fst back) = ui_hiddenTypeIds (fst us) \<and> ui_typeSortOrder (fst back) = ui_typeSortOrder (fst us)"
proof -
  obtain u ls where us: "us = (u, ls)" by fastforce
  obtain u' ls' where run: "ui_run as (setCurrentModelId other us) = (u', ls')" by fastforce
  have "kept_for m ls' = kept_for m ls"
    using kept_for_run[OF assms(4)] run us by (simp add: setCurrentModelId_def)
  from loads_kept_for[OF this] agrees_reachable[OF assms(1)] assms(2,3) run us
  show ?thesis by (simp add: Let_def setCurrentModelId_def agrees_def model_key_def)
qed

theorem filter_restored_on_return_witness:
  "let w = ui_step (SetTypeSortOrder NameAsc) (ui_step (SetCurrentModelId (Some ''m'')) (ui_initial [], [])) in
   ui_typeSortOrder (fst (setCurrentModelId (Some ''m'') (ui_run [ToggleHiddenType ''t'', SetTypeSortOrder CountAsc]
     (setCurrentModelId (Some ''n'') w)))) = NameAsc"
proof -
  let ?w = "ui_step (SetTypeSortOrder NameAsc) (ui_step (SetCurrentModelId (Some ''m'')) (ui_initial [], []))"
  have "ui_reachable [] ?w" by (intro ui_reachable.intros)
  moreover have "ui_currentModelId (fst ?w) = Some ''m''" "ui_typeSortOrder (fst ?w) = NameAsc"
    "away_from ''m'' [ToggleHiddenType ''t'', SetTypeSortOrder CountAsc] (setCurrentModelId (Some ''n'') ?w)" by code_simp+
  ultimately show ?thesis
    using filter_restored_on_return[of "[]" ?w "''m''" "[ToggleHiddenType ''t'', SetTypeSortOrder CountAsc]" "Some ''n''"]
    by (simp add: Let_def)
qed

subsection \<open>Selection and menus\<close>

definition one_thing_open :: "ui_state \<Rightarrow> bool" where
  "one_thing_open u \<longleftrightarrow> (ui_selectedNodeId u = None \<or> ui_selectedEdgeId u = None)
     \<and> \<not> (ui_radialMenuOpen u \<and> ui_nodeContextMenuOpen u)
     \<and> (ui_radialMenuOpen u \<longleftrightarrow> ui_radialMenuPosition u \<noteq> None)
     \<and> (ui_nodeContextMenuOpen u \<longleftrightarrow> ui_nodeContextMenuPosition u \<noteq> None)
     \<and> (ui_nodeContextMenuOpen u \<longleftrightarrow> ui_nodeContextMenuNodeId u \<noteq> None)"

text \<open>What the invariant reads; only the selections and the menu operations change it.\<close>

definition shown ::
  "ui_state \<Rightarrow> (string option \<times> string option) \<times> (bool \<times> position option) \<times> bool \<times> position option \<times> string option" where
  "shown u = ((ui_selectedNodeId u, ui_selectedEdgeId u), (ui_radialMenuOpen u, ui_radialMenuPosition u),
     ui_nodeContextMenuOpen u, ui_nodeContextMenuPosition u, ui_nodeContextMenuNodeId u)"

fun shows_other :: "ui_action \<Rightarrow> bool" where
  "shows_other (SelectNode _) = True"
| "shows_other (SelectEdge _) = True"
| "shows_other (OpenNodeContextMenu _ _) = True"
| "shows_other CloseNodeContextMenu = True"
| "shows_other (OpenRadialMenu _) = True"
| "shows_other CloseRadialMenu = True"
| "shows_other _ = False"

lemma shown_change: "\<not> shows_other a \<Longrightarrow> shown (ui_change a u) = shown u"
  by (cases a; simp add: shown_def ui_change_defs)

lemma shown_step: "\<not> shows_other a \<Longrightarrow> shown (fst (ui_step a (u, ls))) = shown u"
  by (cases rule: ui_step_cases[where a = a and us = "(u, ls)"]) (simp_all add: shown_change, simp_all add: shown_def setDetailPanelWidth_def
      setCurrentModelId_def setTypeSortOrder_def toggleHiddenType_def setHiddenTypeIds_def clearHiddenTypeIds_def Let_def)

lemma one_thing_open_shown: "shown u = shown v \<Longrightarrow> one_thing_open u = one_thing_open v"
  by (simp add: shown_def one_thing_open_def)

lemma one_thing_open_other:
  "one_thing_open u \<Longrightarrow> shows_other a \<Longrightarrow> one_thing_open (fst (ui_step a (u, ls)))"
  by (cases a; simp only: shows_other.simps ui_step.simps ui_change.simps fst_conv;
      auto simp: one_thing_open_def ui_change_defs)

lemma one_thing_open_step: "one_thing_open (fst us) \<Longrightarrow> one_thing_open (fst (ui_step a us))"
  using one_thing_open_other[of "fst us" a "snd us"] one_thing_open_shown[OF shown_step, of a "fst us" "snd us"]
  by (cases "shows_other a") auto

text \<open>C31. In every reachable state a node or an edge is selected, never both; the radial menu and the node
  menu are never open together; and a menu has a position, and a node menu its node, exactly when it is
  open.\<close>

theorem one_selection_one_menu:
  assumes "ui_reachable stored (u, ls)"
  shows "one_thing_open u"
proof -
  have "one_thing_open (fst us)" if "ui_reachable stored us" for us
    using that by induction (simp add: one_thing_open_def ui_initial_def, rule one_thing_open_step)
  with assms show ?thesis by fastforce
qed


theorem one_selection_one_menu_witness:
  "let u = ui_step (OpenNodeContextMenu ''n'' (js_int 1, js_int 2)) (ui_step (OpenRadialMenu (js_int 0, js_int 0))
     (ui_initial [], [])) in one_thing_open (fst u) \<and> ui_nodeContextMenuOpen (fst u)"
proof -
  let ?u = "ui_step (OpenNodeContextMenu ''n'' (js_int 1, js_int 2)) (ui_step (OpenRadialMenu (js_int 0, js_int 0))
     (ui_initial [], []))"
  have "ui_reachable [] ?u" by (intro ui_reachable.intros)
  moreover have "ui_nodeContextMenuOpen (fst ?u)" by (simp add: openNodeContextMenu_def)
  ultimately show ?thesis using one_selection_one_menu[of "[]" "fst ?u" "snd ?u"] by (simp only: Let_def prod.collapse)
qed

subsection \<open>The panel width\<close>

lemma norm_dec_value: "0 \<le> e \<Longrightarrow> \<exists>m' e'. norm_dec m e = Dec m' e' \<and> 0 \<le> e' \<and> m' * 10 ^ nat e' = m * 10 ^ nat e"
proof (induction m e rule: norm_dec.induct)
  case (1 m e)
  show ?case
  proof (cases "m \<noteq> 0 \<and> m mod 10 = 0")
    case True
    then have "m = 10 * (m div 10)" by auto
    moreover have "nat (e + 1) = Suc (nat e)" using 1(2) by simp
    ultimately have "(m div 10) * 10 ^ nat (e + 1) = m * 10 ^ nat e" by (metis mult.assoc mult.commute power_Suc)
    moreover from 1 True obtain m' e' where "norm_dec (m div 10) (e + 1) = Dec m' e'" "0 \<le> e'"
      "m' * 10 ^ nat e' = (m div 10) * 10 ^ nat (e + 1)" by auto
    ultimately show ?thesis using True by (simp add: norm_dec.simps[of m])
  qed (use 1(2) in \<open>auto simp: norm_dec.simps[of m]\<close>)
qed

lemma num_le_js_int [simp]: "num_le (js_int a) (js_int b) \<longleftrightarrow> a \<le> b"
proof -
  have scaled: "m * 10 ^ nat e = (m * 10 ^ nat (e - l)) * 10 ^ nat l" if "0 \<le> l" "l \<le> e" for m e l :: int
    using that by (simp add: power_add[symmetric] nat_add_distrib[symmetric] mult.assoc)
  obtain m e n f where "js_int a = Dec m e" "0 \<le> e" "m * 10 ^ nat e = a" "js_int b = Dec n f" "0 \<le> f" "n * 10 ^ nat f = b"
    using norm_dec_value[of 0 a] norm_dec_value[of 0 b] by (auto simp: js_int_def)
  then show ?thesis using scaled[of "min e f" e m] scaled[of "min e f" f n]
    by (simp add: dec_le_def Let_def) (metis mult_le_cancel_right_pos zero_less_power zero_less_numeral)
qed

lemma js_int_not_NaN [simp]: "js_int a \<noteq> NaN"
  using norm_dec_value[of 0 a] by (auto simp: js_int_def)

definition panel_width_ok :: "jsnum \<Rightarrow> bool" where
  "panel_width_ok w \<longleftrightarrow> num_le MIN_PANEL_WIDTH w \<and> num_le w MAX_PANEL_WIDTH"

lemma loadPanelWidth_ok: "panel_width_ok (loadPanelWidth ls)"
  by (auto simp: panel_width_ok_def loadPanelWidth_def DEFAULT_PANEL_WIDTH_def MIN_PANEL_WIDTH_def MAX_PANEL_WIDTH_def
      Let_def split: option.splits)

lemma clamped_ok: "w \<noteq> NaN \<Longrightarrow> panel_width_ok (math_max MIN_PANEL_WIDTH (math_min MAX_PANEL_WIDTH w))"
  using num_le_total[of w MAX_PANEL_WIDTH] num_le_total[of w MIN_PANEL_WIDTH]
  by (auto simp: panel_width_ok_def math_max_def math_min_def MIN_PANEL_WIDTH_def MAX_PANEL_WIDTH_def)

lemma clamped_ok':
  "math_max MIN_PANEL_WIDTH (math_min MAX_PANEL_WIDTH w) \<noteq> NaN \<Longrightarrow> panel_width_ok (math_max MIN_PANEL_WIDTH (math_min MAX_PANEL_WIDTH w))"
  using clamped_ok[of w] by (cases "w = NaN") (simp_all add: math_max_def math_min_def)

lemma width_reachable:
  "ui_reachable stored us \<Longrightarrow> ui_detailPanelWidth (fst us) \<noteq> NaN \<longrightarrow> panel_width_ok (ui_detailPanelWidth (fst us))"
proof (induction rule: ui_reachable.induct)
  case opened
  then show ?case by (simp add: ui_initial_def loadPanelWidth_ok)
next
  case (acted us a)
  then show ?case
    using clamped_ok' by (cases rule: ui_step_cases[where a = a and us = us])
      (auto simp: setDetailPanelWidth_def setCurrentModelId_def setTypeSortOrder_def toggleHiddenType_def
        setHiddenTypeIds_def clearHiddenTypeIds_def Let_def split: prod.splits)
qed

text \<open>Every whole width a panel can have is read back as written.\<close>

lemma nat_digits_short: "n < 10 ^ Suc k \<Longrightarrow> length (nat_digits n) \<le> Suc k"
proof (induction k arbitrary: n)
  case (Suc k)
  show ?case
  proof (cases "n < 10")
    case False
    from Suc.prems have "n div 10 < 10 ^ Suc k" by (simp add: div_less_iff_less_mult)
    with Suc.IH False show ?thesis by (simp add: nat_digits.simps[of n])
  qed (simp add: nat_digits.simps[of n])
qed (simp add: nat_digits.simps)

lemma digits_val_zeros: "digits_val (s @ replicate k (CHR ''0'')) = digits_val s * 10 ^ k"
proof (induction k)
  case (Suc k)
  have "digits_val (s @ replicate (Suc k) (CHR ''0'')) = 10 * digits_val (s @ replicate k (CHR ''0''))"
    by (simp add: digits_val_def replicate_append_same[symmetric] code_def del: replicate_append_same)
  with Suc show ?case by simp
qed simp

lemma whole_width_read:
  assumes "240 \<le> n" "n \<le> 1600"
  shows "parseInt (num_string (js_int n)) = js_int n \<and> num_string (js_int n) \<noteq> []"
proof -
  obtain m e where me: "js_int n = Dec m e" "0 \<le> e" "m * 10 ^ nat e = n"
    using norm_dec_value[of 0 n] by (auto simp: js_int_def)
  have pos: "0 < m" using me(3) assms(1) by (metis less_le_trans mult_pos_pos not_less zero_less_mult_pos2 zero_less_numeral zero_less_power)
  have "nat e < 4"
  proof (rule ccontr)
    assume "\<not> nat e < 4"
    then have "(10::int) ^ 4 \<le> 10 ^ nat e" by (intro power_increasing) auto
    also have "\<dots> \<le> m * 10 ^ nat e" using pos by simp
    finally show False using me(3) assms(2) by simp
  qed
  moreover have "m \<le> m * 10 ^ nat e" using pos by simp
  then have "length (nat_digits (nat m)) \<le> 4" using nat_digits_short[of "nat m" 3] me(3) assms(2) by simp
  ultimately have printed: "num_string (js_int n) = nat_digits (nat m) @ replicate (nat e) (CHR ''0'')"
    using me(1,2) pos by (simp add: dec_string_def Let_def)
  let ?s = "nat_digits (nat m) @ replicate (nat e) (CHR ''0'')"
  have digits: "list_all is_digit ?s" "?s \<noteq> []" "digits_val ?s = n"
    using nat_digits_read[of "nat m"] me(3) pos by (auto simp: digits_val_zeros is_digit_def code_def list_all_iff)
  then obtain c r where cr: "?s = c # r" "is_digit c" by (cases ?s) auto
  then have "\<not> is_space c" "c \<noteq> CHR ''-''" "c \<noteq> CHR ''+''" by (auto simp: is_space_def is_digit_def code_def)
  moreover have "takeWhile is_digit ?s = ?s" using digits(1) unfolding takeWhile_eq_all_conv list_all_iff .
  ultimately have "parseInt ?s = js_int n" using digits(3) unfolding cr(1) by (simp add: parseInt_def Let_def)
  with printed digits(2) show ?thesis by simp
qed

text \<open>The detail panel's width is always between 240 and 1600 unless the page sets a width that is not a
  number, and whatever whole width the page asks for, a reload reads back the width it was clamped to.\<close>

lemma panel_width_kept:
  "(ui_reachable stored (u, ls) \<longrightarrow> ui_detailPanelWidth u \<noteq> NaN \<longrightarrow> panel_width_ok (ui_detailPanelWidth u)) \<and>
   ui_detailPanelWidth (fst (setDetailPanelWidth (js_int n) (u, ls))) = js_int (max 240 (min 1600 n)) \<and>
   loadPanelWidth (snd (setDetailPanelWidth (js_int n) (u, ls))) = js_int (max 240 (min 1600 n))"
proof -
  let ?n = "max 240 (min 1600 n)"
  have "math_max MIN_PANEL_WIDTH (math_min MAX_PANEL_WIDTH (js_int n)) = js_int ?n"
    by (auto simp: math_max_def math_min_def MIN_PANEL_WIDTH_def MAX_PANEL_WIDTH_def max_def min_def)
  with width_reachable[of stored "(u, ls)"] whole_width_read[of ?n] show ?thesis
    by (auto simp: setDetailPanelWidth_def Let_def loadPanelWidth_def MIN_PANEL_WIDTH_def MAX_PANEL_WIDTH_def)
qed

theorem panel_width_kept_witness:
  "panel_width_ok (ui_detailPanelWidth (fst (ui_step (SetDetailPanelWidth (js_int 9000)) (ui_initial [], [])))) \<and>
   loadPanelWidth (snd (setDetailPanelWidth (js_int 9000) (ui_initial [], []))) = js_int 1600"
proof -
  let ?w = "ui_step (SetDetailPanelWidth (js_int 9000)) (ui_initial [], [])"
  have "ui_reachable [] ?w" by (intro ui_reachable.intros)
  moreover have "ui_detailPanelWidth (fst ?w) \<noteq> NaN"
    using panel_width_kept[of "[]" "ui_initial []" "[]" 9000] by simp
  ultimately show ?thesis
    using panel_width_kept[of "[]" "fst ?w" "snd ?w" 9000] panel_width_kept[of "[]" "ui_initial []" "[]" 9000] by simp
qed

end
