(* ===== verification/ApiClient.thy ===== *)
theory ApiClient
  imports PipelineValidate
begin

section \<open>The sign-in: tokens, their refresh and the requests that carry them\<close>

text \<open>
  \<open>src/api/client.ts\<close>. The client object is a record with the source's fields; around it stand the clock, the
  browser's armed timers, the requests in flight and what was sent. An operation runs to its first \<open>await\<close> and
  leaves the request it waits for in flight; the answer, in any order and at any time, is a later step. A token
  at hand resolves at once. \<open>API_KEY\<close> is the argument \<open>key\<close>, empty where the build has none; what the broker
  answers is an argument of the step that receives it.
\<close>

subsection \<open>The client and its surroundings\<close>

record authenticated_user =
  us_Id :: string
  us_Username :: string
  us_Role :: string
  us_MustChangePassword :: bool

record token_data =
  td_token :: string
  td_user :: authenticated_user
  td_model :: "(string \<times> string) option"

text \<open>The reads and writes the client offers, told apart by what they do with an answer.\<close>

datatype request_kind = FetchModels | GetJson | GetText | GetBytes | PostJson | PutJson | DelJson | MintStreamToken

text \<open>A request in flight; an exchange of the API key knows the request that waits for its token. A request
  made as an \<open>action\<close> is reported when it ends.\<close>

datatype call = Login | RestoreSession | SwitchModel | Refresh | Logout | ChangePassword
  | Request request_kind bool | Report bool | ExchangeKey "call option"

text \<open>What a request was sent with: a bearer token, and the model an exchange names.\<close>

record sent =
  sn_call :: call
  sn_bearer :: "string option"
  sn_model :: "string option"

record api_client =
  ac_token :: "string option"
  ac_tokenExpiry :: "int option"
  ac_currentUser :: "authenticated_user option"
  ac_currentModelId :: "string option"
  ac_currentModelName :: "string option"
  ac_refreshTimer :: "nat option"

record api_world = api_client +
  aw_now :: int
  aw_armed :: "(nat \<times> int) list"
  aw_nextTimer :: nat
  aw_inFlight :: "call list"
  aw_sent :: "sent list"
  aw_prompts :: nat
  aw_userUpdates :: "authenticated_user list"

definition client_start :: "int \<Rightarrow> api_world" where
  "client_start t = \<lparr>ac_token = None, ac_tokenExpiry = None, ac_currentUser = None, ac_currentModelId = None,
     ac_currentModelName = None, ac_refreshTimer = None, aw_now = t, aw_armed = [], aw_nextTimer = 1, aw_inFlight = [],
     aw_sent = [], aw_prompts = 0, aw_userUpdates = []\<rparr>"

text \<open>An empty string is no token and no model id.\<close>

definition present :: "string option \<Rightarrow> bool" where
  "present v \<longleftrightarrow> v \<noteq> None \<and> v \<noteq> Some []"

subsection \<open>The token and its timer\<close>

definition clearTimeout :: "nat option \<Rightarrow> api_world \<Rightarrow> api_world" where
  "clearTimeout t w = (case t of None \<Rightarrow> w | Some i \<Rightarrow> w\<lparr>aw_armed := filter (\<lambda>(j, due). j \<noteq> i) (aw_armed w)\<rparr>)"

definition scheduleRefresh :: "api_world \<Rightarrow> api_world" where
  "scheduleRefresh w = (let w1 = clearTimeout (ac_refreshTimer w) w in
     case ac_tokenExpiry w of None \<Rightarrow> w1
     | Some expiry \<Rightarrow> (let millisecondsUntilExpiry = expiry - aw_now w;
           refreshAt = max (millisecondsUntilExpiry * 8 div 10) 10000
         in w1\<lparr>ac_refreshTimer := Some (aw_nextTimer w), aw_nextTimer := aw_nextTimer w + 1,
              aw_armed := aw_armed w1 @ [(aw_nextTimer w, aw_now w + refreshAt)]\<rparr>))"

definition applyToken :: "string \<Rightarrow> api_world \<Rightarrow> api_world" where
  "applyToken token w = scheduleRefresh (w\<lparr>ac_token := Some token, ac_tokenExpiry := Some (aw_now w + 25 * 60 * 1000)\<rparr>)"

definition applyTokenResponse :: "token_data \<Rightarrow> api_world \<Rightarrow> api_world" where
  "applyTokenResponse d w = applyToken (td_token d) (case td_model d of
       None \<Rightarrow> w\<lparr>ac_currentUser := Some (td_user d)\<rparr>
     | Some (i, name) \<Rightarrow> w\<lparr>ac_currentUser := Some (td_user d), ac_currentModelId := Some i, ac_currentModelName := Some name\<rparr>)"

definition cancelRefresh :: "api_world \<Rightarrow> api_world" where
  "cancelRefresh w = (if ac_refreshTimer w = None then w else (clearTimeout (ac_refreshTimer w) w)\<lparr>ac_refreshTimer := None\<rparr>)"

definition forgetToken :: "api_world \<Rightarrow> api_world" where
  "forgetToken w = (cancelRefresh w)\<lparr>ac_token := None, ac_tokenExpiry := None\<rparr>"

definition authenticationRequired :: "api_world \<Rightarrow> api_world" where
  "authenticationRequired w = w\<lparr>aw_prompts := aw_prompts w + 1\<rparr>"

definition isAuthenticated :: "api_world \<Rightarrow> bool" where
  "isAuthenticated w \<longleftrightarrow> present (ac_token w) \<and> (case ac_tokenExpiry w of Some e \<Rightarrow> aw_now w < e | None \<Rightarrow> False)"

definition authorizationHeaders :: "api_world \<Rightarrow> (string, string) omap" where
  "authorizationHeaders w = (case ac_token w of
     Some t \<Rightarrow> if t = [] then [] else [(''Authorization'', ''Bearer '' @ t)] | None \<Rightarrow> [])"

subsection \<open>Sending\<close>

definition send :: "call \<Rightarrow> string option \<Rightarrow> string option \<Rightarrow> api_world \<Rightarrow> api_world" where
  "send c bearer model w = w\<lparr>aw_inFlight := aw_inFlight w @ [c],
     aw_sent := aw_sent w @ [\<lparr>sn_call = c, sn_bearer = bearer, sn_model = model\<rparr>]\<rparr>"

text \<open>\<open>ensureToken\<close>: what waits for the token goes out with the one at hand; otherwise the key is exchanged,
  for the current model; without a key the person is asked to sign in and nothing goes out.\<close>

definition ensureToken :: "string \<Rightarrow> call option \<Rightarrow> api_world \<Rightarrow> api_world" where
  "ensureToken key waiting w =
     (if isAuthenticated w then (case waiting of None \<Rightarrow> w | Some c \<Rightarrow> send c (ac_token w) None w)
      else if key \<noteq> [] then send (ExchangeKey waiting) None
             (if present (ac_currentModelId w) then ac_currentModelId w else None) w
      else authenticationRequired w)"

text \<open>The report of an action: another request, whose failure is swallowed.\<close>

definition reportAction :: "string \<Rightarrow> bool \<Rightarrow> api_world \<Rightarrow> api_world" where
  "reportAction key succeeded w = ensureToken key (Some (Report succeeded)) w"

text \<open>What ends without its answer: an action is reported as failed.\<close>

definition abandoned :: "string \<Rightarrow> call option \<Rightarrow> api_world \<Rightarrow> api_world" where
  "abandoned key waiting w = (case waiting of
     Some ChangePassword \<Rightarrow> reportAction key False w
   | Some (Request k True) \<Rightarrow> reportAction key False w
   | _ \<Rightarrow> w)"

text \<open>A request that carries a token, sent or abandoned.\<close>

definition with_token :: "string \<Rightarrow> call option \<Rightarrow> api_world \<Rightarrow> api_world" where
  "with_token key waiting w = (if isAuthenticated w \<or> key \<noteq> [] then ensureToken key waiting w
     else abandoned key waiting (ensureToken key waiting w))"

subsection \<open>The operations, up to their first await\<close>

definition login :: "api_world \<Rightarrow> api_world" where
  "login w = send Login None None w"

definition restoreSession :: "api_world \<Rightarrow> api_world" where
  "restoreSession w = send RestoreSession None None w"

definition switchModel :: "string \<Rightarrow> api_world \<Rightarrow> api_world" where
  "switchModel key w = with_token key (Some SwitchModel) w"

definition rescopeToModel :: "string \<Rightarrow> string \<Rightarrow> api_world \<Rightarrow> api_world" where
  "rescopeToModel key modelId w = (if key \<noteq> [] then ensureToken key None
       ((forgetToken w)\<lparr>ac_currentModelId := None, ac_currentModelName := None\<rparr>)
     else switchModel key w)"

definition signedOut :: "api_world \<Rightarrow> api_world" where
  "signedOut w = (forgetToken w)\<lparr>ac_currentUser := None, ac_currentModelId := None, ac_currentModelName := None\<rparr>"

definition logout :: "api_world \<Rightarrow> api_world" where
  "logout w = (let w1 = cancelRefresh w in
     if present (ac_token w1) then send Logout (ac_token w1) None w1 else signedOut w1)"

definition changePassword :: "string \<Rightarrow> api_world \<Rightarrow> api_world" where
  "changePassword key w = with_token key (Some ChangePassword) w"

definition request :: "string \<Rightarrow> request_kind \<Rightarrow> bool \<Rightarrow> api_world \<Rightarrow> api_world" where
  "request key k as_action w = with_token key (Some (Request k as_action)) w"

text \<open>The refresh the timer starts; where it cannot, the person is signed out and asked to sign in.\<close>

definition refreshFailed :: "api_world \<Rightarrow> api_world" where
  "refreshFailed w = authenticationRequired (logout w)"

definition refreshToken :: "api_world \<Rightarrow> api_world" where
  "refreshToken w = (if \<not> present (ac_token w) then refreshFailed w else send Refresh (ac_token w) None w)"

definition timerFires :: "nat \<Rightarrow> api_world \<Rightarrow> api_world" where
  "timerFires i w = (if list_ex (\<lambda>(j, due). j = i \<and> due \<le> aw_now w) (aw_armed w)
     then refreshToken (w\<lparr>aw_armed := filter (\<lambda>(j, due). j \<noteq> i) (aw_armed w)\<rparr>) else w)"

subsection \<open>The answers\<close>

text \<open>A request fails, or is answered with a status and a body; a body that is none of what the operation reads
  counts as one that does not parse.\<close>

datatype answer_body = NotJson | TokenData token_data | TokenOnly "string option" | JsonBody json

datatype answer = Failed | Answered nat answer_body

definition ok_status :: "nat \<Rightarrow> bool" where
  "ok_status s \<longleftrightarrow> 200 \<le> s \<and> s < 300"

text \<open>\<open>assertOk\<close>: the state it leaves; a 401 drops the token and asks the person to sign in.\<close>

definition dropToken :: "api_world \<Rightarrow> api_world" where
  "dropToken w = authenticationRequired (w\<lparr>ac_token := None, ac_tokenExpiry := None\<rparr>)"

definition assertOk :: "nat \<Rightarrow> api_world \<Rightarrow> api_world" where
  "assertOk status w = (if status = 401 then dropToken w else w)"

definition tokenAnswered :: "answer \<Rightarrow> api_world \<Rightarrow> api_world" where
  "tokenAnswered a w = (case a of
     Answered s (TokenData d) \<Rightarrow> if ok_status s then applyTokenResponse d w else w | _ \<Rightarrow> w)"

definition refreshAnswered :: "answer \<Rightarrow> api_world \<Rightarrow> api_world" where
  "refreshAnswered a w = (case a of
     Answered s (TokenData d) \<Rightarrow> if ok_status s
       then (let w1 = applyTokenResponse d w in w1\<lparr>aw_userUpdates := aw_userUpdates w1 @ [td_user d]\<rparr>) else refreshFailed w
   | _ \<Rightarrow> refreshFailed w)"

text \<open>The new token of a changed password, or none, and then the old one is dropped; the action is reported
  before the user is marked.\<close>

definition passwordAnswered :: "string \<Rightarrow> answer \<Rightarrow> api_world \<Rightarrow> api_world" where
  "passwordAnswered key a w = (case a of
     Answered s body \<Rightarrow> (let w1 = assertOk s w in
       case (ok_status s, body) of
         (True, TokenOnly token) \<Rightarrow>
           (let w2 = (case token of Some t \<Rightarrow> if t \<noteq> [] then applyToken t w1 else forgetToken w1 | None \<Rightarrow> forgetToken w1);
                w3 = reportAction key True w2
            in w3\<lparr>ac_currentUser := map_option (\<lambda>u. u\<lparr>us_MustChangePassword := False\<rparr>) (ac_currentUser w3)\<rparr>)
       | _ \<Rightarrow> reportAction key False w1)
   | Failed \<Rightarrow> reportAction key False w)"

definition exchangeAnswered :: "string \<Rightarrow> call option \<Rightarrow> answer \<Rightarrow> api_world \<Rightarrow> api_world" where
  "exchangeAnswered key waiting a w = (case a of
     Failed \<Rightarrow> abandoned key waiting w
   | Answered s body \<Rightarrow> if \<not> ok_status s then abandoned key waiting (dropToken w)
       else (case body of
           TokenOnly (Some t) \<Rightarrow>
             (let w1 = w\<lparr>ac_token := Some t, ac_tokenExpiry := Some (aw_now w + 4 * 60 * 1000)\<rparr> in
              case waiting of None \<Rightarrow> w1 | Some c \<Rightarrow> send c (Some t) None w1)
         | _ \<Rightarrow> abandoned key waiting w))"

text \<open>What a request hands its caller.\<close>

datatype outcome = Value json | Body answer_body | NoBytes | ApiError nat answer_body | AuthenticationRequired
  | NetworkError | NotParsed

definition read_answer :: "request_kind \<Rightarrow> answer \<Rightarrow> outcome" where
  "read_answer k a = (case a of Failed \<Rightarrow> NetworkError
     | Answered s body \<Rightarrow>
        if k = GetBytes \<and> s = 404 then NoBytes
        else if s = 401 \<and> k \<noteq> FetchModels then AuthenticationRequired
        else if \<not> ok_status s then ApiError s body
        else if k = GetJson then (if s = 204 then Value (JArr []) else (case body of JsonBody v \<Rightarrow> Value v | _ \<Rightarrow> Value (JArr [])))
        else if k \<in> {GetText, GetBytes} then Body body
        else (case body of JsonBody v \<Rightarrow> Value v | _ \<Rightarrow> NotParsed))"

definition outcome_ok :: "outcome \<Rightarrow> bool" where
  "outcome_ok out = (case out of Value v \<Rightarrow> True | Body b \<Rightarrow> True | NoBytes \<Rightarrow> True | _ \<Rightarrow> False)"

definition requestAnswered :: "string \<Rightarrow> request_kind \<Rightarrow> bool \<Rightarrow> answer \<Rightarrow> api_world \<Rightarrow> api_world" where
  "requestAnswered key k as_action a w =
     (let w1 = (case a of Answered s body \<Rightarrow> if k = FetchModels then w else assertOk s w | Failed \<Rightarrow> w)
      in if as_action then reportAction key (outcome_ok (read_answer k a)) w1 else w1)"

definition receive :: "string \<Rightarrow> nat \<Rightarrow> answer \<Rightarrow> api_world \<Rightarrow> api_world" where
  "receive key i a w = (if length (aw_inFlight w) \<le> i then w
     else (let w1 = w\<lparr>aw_inFlight := take i (aw_inFlight w) @ drop (Suc i) (aw_inFlight w)\<rparr> in
       case aw_inFlight w ! i of
         Login \<Rightarrow> tokenAnswered a w1
       | RestoreSession \<Rightarrow> tokenAnswered a w1
       | SwitchModel \<Rightarrow> tokenAnswered a w1
       | Refresh \<Rightarrow> refreshAnswered a w1
       | Logout \<Rightarrow> signedOut w1
       | ChangePassword \<Rightarrow> passwordAnswered key a w1
       | Request k as_action \<Rightarrow> requestAnswered key k as_action a w1
       | Report succeeded \<Rightarrow> w1
       | ExchangeKey waiting \<Rightarrow> exchangeAnswered key waiting a w1))"

subsection \<open>Every step of the client\<close>

datatype client_action = DoLogin | DoRestoreSession | DoSwitchModel | DoRescope string | DoLogout | DoChangePassword
  | DoRequest request_kind bool | DoEnsureToken | TimerFires nat | Answer nat answer | Passes nat

fun client_step :: "string \<Rightarrow> client_action \<Rightarrow> api_world \<Rightarrow> api_world" where
  "client_step key DoLogin w = login w"
| "client_step key DoRestoreSession w = restoreSession w"
| "client_step key DoSwitchModel w = switchModel key w"
| "client_step key (DoRescope m) w = rescopeToModel key m w"
| "client_step key DoLogout w = logout w"
| "client_step key DoChangePassword w = changePassword key w"
| "client_step key (DoRequest k as_action) w = request key k as_action w"
| "client_step key DoEnsureToken w = ensureToken key None w"
| "client_step key (TimerFires i) w = timerFires i w"
| "client_step key (Answer i a) w = receive key i a w"
| "client_step key (Passes d) w = w\<lparr>aw_now := aw_now w + int d\<rparr>"

inductive client_reachable :: "string \<Rightarrow> int \<Rightarrow> api_world \<Rightarrow> bool" for key t where
  started: "client_reachable key t (client_start t)"
| stepped: "client_reachable key t w \<Longrightarrow> client_reachable key t (client_step key a w)"

subsection \<open>The message of a refusal\<close>

text \<open>The constructor of \<open>ApiError\<close>: the error or the message of a JSON body, the body itself otherwise, and a
  translated message where that is empty. Reading a member of \<open>null\<close> raises, and the body stands.\<close>

definition api_error_message :: "translate \<Rightarrow> nat \<Rightarrow> string \<Rightarrow> string" where
  "api_error_message tr status body =
     (let or_else = (\<lambda>v rest. case v of Some x \<Rightarrow> if truthy x then x else rest | None \<Rightarrow> rest);
          message = (case json_parse body of
              Some (JObj m) \<Rightarrow> or_else (oget m ''error'') (or_else (oget m ''message'') (JStr body))
            | _ \<Rightarrow> JStr body)
      in if truthy message then js_string message else tr ''common.requestFailed'' [(''status'', num_string (js_int (int status)))])"

subsection \<open>The timer and the token\<close>

text \<open>At most one timer is armed, the one the client knows; a token has an expiry; an exchange is in flight only
  where there is a key, and what waits for it is not itself an exchange.\<close>

definition one_timer :: "api_world \<Rightarrow> bool" where
  "one_timer w \<longleftrightarrow> aw_armed w = [] \<or> (\<exists>t due. aw_armed w = [(t, due)] \<and> ac_refreshTimer w = Some t)"

definition token_dated :: "api_world \<Rightarrow> bool" where
  "token_dated w \<longleftrightarrow> (ac_token w = None \<longleftrightarrow> ac_tokenExpiry w = None)"

definition waits_plain :: "call option \<Rightarrow> bool" where
  "waits_plain waiting \<longleftrightarrow> (\<forall>x. waiting \<noteq> Some (ExchangeKey x))"

definition exchanges_keyed :: "string \<Rightarrow> api_world \<Rightarrow> bool" where
  "exchanges_keyed key w \<longleftrightarrow> (\<forall>waiting. ExchangeKey waiting \<in> set (aw_inFlight w) \<longrightarrow> key \<noteq> [] \<and> waits_plain waiting)"

definition kept :: "string \<Rightarrow> api_world \<Rightarrow> bool" where
  "kept key w \<longleftrightarrow> one_timer w \<and> token_dated w \<and> exchanges_keyed key w"

named_theorems client_kept

lemma armed_clearTimeout [simp]: "one_timer w \<Longrightarrow> aw_armed (clearTimeout (ac_refreshTimer w) w) = []"
  by (auto simp: one_timer_def clearTimeout_def split: option.split)

lemma clearTimeout_frame [simp]:
  "ac_token (clearTimeout t w) = ac_token w" "ac_tokenExpiry (clearTimeout t w) = ac_tokenExpiry w"
  "aw_inFlight (clearTimeout t w) = aw_inFlight w" "aw_now (clearTimeout t w) = aw_now w"
  "ac_refreshTimer (clearTimeout t w) = ac_refreshTimer w" "ac_currentUser (clearTimeout t w) = ac_currentUser w"
  "ac_currentModelId (clearTimeout t w) = ac_currentModelId w" "ac_currentModelName (clearTimeout t w) = ac_currentModelName w"
  by (simp_all add: clearTimeout_def split: option.split)

lemma armed_cancelRefresh: "one_timer w \<Longrightarrow> aw_armed (cancelRefresh w) = []"
  by (auto simp: cancelRefresh_def, simp add: one_timer_def)

lemma cancelRefresh_frame [simp]:
  "ac_token (cancelRefresh w) = ac_token w" "ac_tokenExpiry (cancelRefresh w) = ac_tokenExpiry w"
  "aw_inFlight (cancelRefresh w) = aw_inFlight w" "aw_now (cancelRefresh w) = aw_now w"
  "ac_currentUser (cancelRefresh w) = ac_currentUser w"
  by (simp_all add: cancelRefresh_def)

lemma forgetToken_frame [simp]:
  "ac_token (forgetToken w) = None" "ac_tokenExpiry (forgetToken w) = None" "aw_inFlight (forgetToken w) = aw_inFlight w"
  "one_timer w \<Longrightarrow> aw_armed (forgetToken w) = []"
  by (simp_all add: forgetToken_def armed_cancelRefresh)

text \<open>A token applied has its timer: due five minutes before the token expires.\<close>

lemma applyToken_armed:
  assumes "one_timer w"
  shows "\<exists>t. aw_armed (applyToken token w) = [(t, aw_now w + 20 * 60 * 1000)] \<and> ac_refreshTimer (applyToken token w) = Some t
    \<and> ac_token (applyToken token w) = Some token \<and> ac_tokenExpiry (applyToken token w) = Some (aw_now w + 25 * 60 * 1000)
    \<and> aw_inFlight (applyToken token w) = aw_inFlight w"
proof -
  have "one_timer (w\<lparr>ac_token := Some token, ac_tokenExpiry := Some (aw_now w + 25 * 60 * 1000)\<rparr>)"
    using assms by (simp add: one_timer_def)
  from armed_clearTimeout[OF this] show ?thesis by (simp add: applyToken_def scheduleRefresh_def Let_def)
qed

lemma applyTokenResponse_as: "\<exists>w'. applyTokenResponse d w = applyToken (td_token d) w' \<and> aw_armed w' = aw_armed w
    \<and> ac_refreshTimer w' = ac_refreshTimer w \<and> aw_inFlight w' = aw_inFlight w \<and> aw_now w' = aw_now w"
  unfolding applyTokenResponse_def by (rule exI, rule conjI, rule refl) (simp split: option.split)

lemma kept_applyToken [client_kept]: "kept key w \<Longrightarrow> kept key (applyToken token w)"
  using applyToken_armed[of w token] by (auto simp: kept_def one_timer_def token_dated_def exchanges_keyed_def)

lemma kept_applyTokenResponse [client_kept]: "kept key w \<Longrightarrow> kept key (applyTokenResponse d w)"
proof -
  assume w: "kept key w"
  obtain w' where w': "applyTokenResponse d w = applyToken (td_token d) w'" "aw_armed w' = aw_armed w"
    "ac_refreshTimer w' = ac_refreshTimer w" "aw_inFlight w' = aw_inFlight w" using applyTokenResponse_as[of d w] by blast
  then have "one_timer w'" using w by (simp add: kept_def one_timer_def)
  from applyToken_armed[OF this, of "td_token d"] w w' show ?thesis
    by (auto simp: kept_def one_timer_def token_dated_def exchanges_keyed_def)
qed

lemma kept_send [client_kept]:
  "kept key w \<Longrightarrow> (\<And>x. c = ExchangeKey x \<Longrightarrow> key \<noteq> [] \<and> waits_plain x) \<Longrightarrow> kept key (send c bearer model w)"
  by (auto simp: kept_def send_def one_timer_def token_dated_def exchanges_keyed_def)

lemma kept_authenticationRequired [client_kept]: "kept key w \<Longrightarrow> kept key (authenticationRequired w)"
  by (simp add: kept_def authenticationRequired_def one_timer_def token_dated_def exchanges_keyed_def)

lemma kept_dropToken [client_kept]: "kept key w \<Longrightarrow> kept key (dropToken w)"
  by (simp add: kept_def dropToken_def authenticationRequired_def one_timer_def token_dated_def exchanges_keyed_def)

lemma kept_cancelRefresh [client_kept]: "kept key w \<Longrightarrow> kept key (cancelRefresh w)"
  using armed_cancelRefresh[of w] by (simp add: kept_def one_timer_def token_dated_def exchanges_keyed_def)

lemma kept_forgetToken [client_kept]: "kept key w \<Longrightarrow> kept key (forgetToken w)"
  by (simp add: kept_def one_timer_def token_dated_def exchanges_keyed_def)

lemma kept_fields [client_kept]:
  "kept key w \<Longrightarrow> kept key (w\<lparr>ac_currentUser := u\<rparr>)"
  "kept key w \<Longrightarrow> kept key (w\<lparr>ac_currentModelId := m, ac_currentModelName := n\<rparr>)"
  "kept key w \<Longrightarrow> kept key (w\<lparr>aw_userUpdates := us\<rparr>)"
  "kept key w \<Longrightarrow> kept key (w\<lparr>ac_token := Some tok, ac_tokenExpiry := Some e\<rparr>)"
  "kept key w \<Longrightarrow> kept key (w\<lparr>aw_now := n'\<rparr>)"
  by (simp_all add: kept_def one_timer_def token_dated_def exchanges_keyed_def)

lemma kept_signedOut [client_kept]: "kept key w \<Longrightarrow> kept key (signedOut w)"
proof -
  assume "kept key w"
  then have "kept key (forgetToken w)" by (rule client_kept)
  then show ?thesis by (simp add: signedOut_def kept_def one_timer_def token_dated_def exchanges_keyed_def)
qed

lemma kept_logout [client_kept]: "kept key w \<Longrightarrow> kept key (logout w)"
  by (auto simp: logout_def Let_def intro!: client_kept)

lemma kept_refreshFailed [client_kept]: "kept key w \<Longrightarrow> kept key (refreshFailed w)"
  by (simp add: refreshFailed_def client_kept)

lemma kept_ensureToken [client_kept]: "kept key w \<Longrightarrow> waits_plain waiting \<Longrightarrow> kept key (ensureToken key waiting w)"
  by (auto simp: ensureToken_def waits_plain_def intro!: client_kept split: option.split)

lemma kept_reportAction [client_kept]: "kept key w \<Longrightarrow> kept key (reportAction key b w)"
  by (simp add: reportAction_def client_kept waits_plain_def)

lemma kept_abandoned [client_kept]: "kept key w \<Longrightarrow> kept key (abandoned key waiting w)"
  by (auto simp: abandoned_def intro!: client_kept split: option.splits call.splits bool.splits)

lemma kept_with_token [client_kept]: "kept key w \<Longrightarrow> waits_plain waiting \<Longrightarrow> kept key (with_token key waiting w)"
  by (auto simp: with_token_def intro!: client_kept)

lemma kept_tokenAnswered [client_kept]: "kept key w \<Longrightarrow> kept key (tokenAnswered a w)"
  by (auto simp: tokenAnswered_def intro!: client_kept split: answer.split answer_body.split)

lemma kept_refreshAnswered [client_kept]: "kept key w \<Longrightarrow> kept key (refreshAnswered a w)"
  by (auto simp: refreshAnswered_def Let_def intro!: client_kept split: answer.split answer_body.split)

lemma kept_assertOk [client_kept]: "kept key w \<Longrightarrow> kept key (assertOk s w)"
  by (simp add: assertOk_def client_kept)

lemma kept_passwordAnswered [client_kept]: "kept key w \<Longrightarrow> kept key (passwordAnswered key a w)"
  by (auto simp: passwordAnswered_def Let_def intro!: client_kept split: answer.split answer_body.split option.split bool.split)

lemma kept_exchangeAnswered [client_kept]:
  "kept key w \<Longrightarrow> waits_plain waiting \<Longrightarrow> kept key (exchangeAnswered key waiting a w)"
  by (auto simp: exchangeAnswered_def Let_def waits_plain_def intro!: client_kept split: answer.split answer_body.split option.split)

lemma kept_requestAnswered [client_kept]: "kept key w \<Longrightarrow> kept key (requestAnswered key k b a w)"
  by (auto simp: requestAnswered_def Let_def intro!: client_kept split: answer.split)

lemma kept_answered_call:
  "kept key w \<Longrightarrow> kept key (w\<lparr>aw_inFlight := take i (aw_inFlight w) @ drop (Suc i) (aw_inFlight w)\<rparr>)"
  by (auto simp: kept_def one_timer_def token_dated_def exchanges_keyed_def dest: in_set_takeD in_set_dropD)


lemma kept_receive: "kept key w \<Longrightarrow> kept key (receive key i a w)"
proof -
  assume w: "kept key w"
  show ?thesis
  proof (cases "length (aw_inFlight w) \<le> i")
    case False
    then have "aw_inFlight w ! i \<in> set (aw_inFlight w)" by simp
    with w have "\<And>x. aw_inFlight w ! i = ExchangeKey x \<Longrightarrow> waits_plain x" by (auto simp: kept_def exchanges_keyed_def)
    with False kept_answered_call[OF w, of i] show ?thesis
      by (simp add: receive_def Let_def) (auto intro!: client_kept split: call.split)
  qed (simp add: receive_def w)
qed

lemma kept_timerFires: "kept key w \<Longrightarrow> kept key (timerFires i w)"
proof -
  assume w: "kept key w"
  have "kept key (w\<lparr>aw_armed := filter (\<lambda>(j, due). j \<noteq> i) (aw_armed w)\<rparr>)"
    using w by (cases "aw_armed w") (auto simp: kept_def one_timer_def token_dated_def exchanges_keyed_def)
  then show ?thesis using w by (auto simp: timerFires_def refreshToken_def intro!: client_kept)
qed

lemma kept_step: "kept key w \<Longrightarrow> kept key (client_step key a w)"
  by (cases a) (auto simp: login_def restoreSession_def switchModel_def rescopeToModel_def changePassword_def request_def
      waits_plain_def kept_receive kept_timerFires intro!: client_kept)

lemma kept_reachable: "client_reachable key t w \<Longrightarrow> kept key w"
proof (induction rule: client_reachable.induct)
  case started
  show ?case by (simp add: client_start_def kept_def one_timer_def token_dated_def exchanges_keyed_def)
qed (rule kept_step)

text \<open>However requests, answers, timers and the passing of time interleave, at most one refresh timer is
  armed and it is the one the client can cancel, and the client holds a token exactly when it holds an
  expiry for it.\<close>

theorem one_refresh_timer:
  assumes "client_reachable key t w"
  shows "length (aw_armed w) \<le> 1 \<and> (\<forall>(i, due) \<in> set (aw_armed w). ac_refreshTimer w = Some i) \<and>
    (ac_token w = None \<longleftrightarrow> ac_tokenExpiry w = None)"
  using kept_reachable[OF assms] by (auto simp: kept_def one_timer_def token_dated_def)

subsection \<open>A session is tended\<close>

text \<open>Where people sign in: a token is about to be refreshed, being refreshed, or being given up.\<close>

definition attended :: "api_world \<Rightarrow> bool" where
  "attended w \<longleftrightarrow> ac_token w = None \<or> Refresh \<in> set (aw_inFlight w) \<or> Logout \<in> set (aw_inFlight w)
     \<or> (\<exists>i e. aw_armed w = [(i, e - 5 * 60 * 1000)] \<and> ac_tokenExpiry w = Some e)"

named_theorems client_attended

lemma attended_applyToken [client_attended]: "one_timer w \<Longrightarrow> attended (applyToken token w)"
  using applyToken_armed[of w token] by (auto simp: attended_def)

lemma attended_applyTokenResponse [client_attended]: "one_timer w \<Longrightarrow> attended (applyTokenResponse d w)"
proof -
  assume w: "one_timer w"
  obtain w' where "applyTokenResponse d w = applyToken (td_token d) w'" "aw_armed w' = aw_armed w"
    "ac_refreshTimer w' = ac_refreshTimer w" using applyTokenResponse_as[of d w] by blast
  with w show ?thesis using attended_applyToken[of w'] by (simp add: one_timer_def)
qed

lemma attended_send [client_attended]: "attended w \<Longrightarrow> attended (send c b m w)"
  by (auto simp: attended_def send_def)

lemma attended_no_token: "ac_token w = None \<Longrightarrow> attended w"
  by (simp add: attended_def)

lemma attended_authenticationRequired [client_attended]: "attended w \<Longrightarrow> attended (authenticationRequired w)"
  by (simp add: attended_def authenticationRequired_def)

lemma attended_user [client_attended]: "attended w \<Longrightarrow> attended (w\<lparr>ac_currentUser := u\<rparr>)"
  by (simp add: attended_def)

lemma attended_updates [client_attended]: "attended w \<Longrightarrow> attended (w\<lparr>aw_userUpdates := us\<rparr>)"
  by (simp add: attended_def)

lemma attended_ensureToken [client_attended]: "attended w \<Longrightarrow> attended (ensureToken key waiting w)"
  by (auto simp: ensureToken_def intro!: client_attended split: option.split)

lemma attended_reportAction [client_attended]: "attended w \<Longrightarrow> attended (reportAction key b w)"
  by (simp add: reportAction_def client_attended)

lemma attended_abandoned [client_attended]: "attended w \<Longrightarrow> attended (abandoned key waiting w)"
  by (auto simp: abandoned_def intro!: client_attended split: option.splits call.splits bool.splits)

lemma attended_with_token [client_attended]: "attended w \<Longrightarrow> attended (with_token key waiting w)"
  by (auto simp: with_token_def intro!: client_attended)

lemma attended_dropToken [client_attended]: "attended (dropToken w)"
  by (simp add: dropToken_def attended_def authenticationRequired_def)

lemma attended_assertOk [client_attended]: "attended w \<Longrightarrow> attended (assertOk s w)"
  by (simp add: assertOk_def client_attended)

lemma attended_signedOut [client_attended]: "attended (signedOut w)"
  by (simp add: attended_def signedOut_def)

text \<open>Signing out needs no earlier attention: the token goes at once or once the platform knows.\<close>

lemma attended_logout [client_attended]: "attended (logout w)"
proof (cases "present (ac_token (cancelRefresh w))")
  case True
  then show ?thesis by (simp add: logout_def Let_def attended_def send_def)
qed (simp add: logout_def Let_def attended_signedOut)

lemma attended_refreshFailed [client_attended]: "attended (refreshFailed w)"
  by (simp add: refreshFailed_def client_attended)

lemma attended_tokenAnswered: "one_timer w \<Longrightarrow> attended w \<Longrightarrow> attended (tokenAnswered a w)"
  by (auto simp: tokenAnswered_def intro!: client_attended split: answer.split answer_body.split)

lemma attended_refreshAnswered: "one_timer w \<Longrightarrow> attended (refreshAnswered a w)"
  by (auto simp: refreshAnswered_def Let_def intro!: client_attended split: answer.split answer_body.split)

lemma one_timer_assertOk: "one_timer w \<Longrightarrow> one_timer (assertOk s w)"
  by (simp add: assertOk_def dropToken_def authenticationRequired_def one_timer_def)

lemma attended_forgetToken [client_attended]: "attended (forgetToken w)"
  by (simp add: attended_def)

lemma attended_passwordAnswered: "one_timer w \<Longrightarrow> attended w \<Longrightarrow> attended (passwordAnswered key a w)"
  by (auto simp: passwordAnswered_def Let_def one_timer_assertOk intro!: client_attended
      split: answer.split answer_body.split option.split bool.split)

lemma attended_requestAnswered: "attended w \<Longrightarrow> attended (requestAnswered key k b a w)"
  by (auto simp: requestAnswered_def Let_def intro!: client_attended split: answer.split)

lemma in_set_without: "x \<in> set xs \<Longrightarrow> i < length xs \<Longrightarrow> xs ! i \<noteq> x \<Longrightarrow> x \<in> set (take i xs @ drop (Suc i) xs)"
  by (metis Un_iff id_take_nth_drop in_set_conv_decomp set_ConsD set_append)

lemma attended_receive:
  assumes "kept [] w" "attended w"
  shows "attended (receive [] i a w)"
proof (cases "length (aw_inFlight w) \<le> i")
  case False
  let ?c = "aw_inFlight w ! i"
  let ?w = "w\<lparr>aw_inFlight := take i (aw_inFlight w) @ drop (Suc i) (aw_inFlight w)\<rparr>"
  have timer: "one_timer ?w" using assms(1) by (simp add: kept_def one_timer_def)
  have "?c \<in> set (aw_inFlight w)" using False by simp
  then have plain: "?c \<noteq> ExchangeKey x" for x using assms(1) by (auto simp: kept_def exchanges_keyed_def)
  have "attended ?w" if "?c \<noteq> Refresh" "?c \<noteq> Logout"
    using assms(2) that False in_set_without[of Refresh "aw_inFlight w" i] in_set_without[of Logout "aw_inFlight w" i]
    by (auto simp: attended_def)
  with False timer plain show ?thesis
    by (cases ?c) (simp_all add: receive_def Let_def attended_tokenAnswered attended_refreshAnswered attended_signedOut
        attended_passwordAnswered attended_requestAnswered, blast)
qed (simp add: receive_def assms)

lemma attended_step:
  assumes "kept [] w" "attended w"
  shows "attended (client_step [] a w)"
proof (cases a)
  case (TimerFires i)
  then show ?thesis using assms(2)
    by (auto simp: timerFires_def refreshToken_def attended_refreshFailed, simp add: attended_def send_def)
next
  case (Passes d)
  then show ?thesis using assms(2) by (simp add: attended_def)
qed (use assms in \<open>auto simp: login_def restoreSession_def switchModel_def rescopeToModel_def changePassword_def request_def
      attended_receive intro!: client_attended\<close>)

text \<open>C37. Where people sign in with a password, a token the client holds is never left to run out: a refresh is
  armed for five minutes before it expires, or a refresh is under way, or the person is being signed out.\<close>

theorem session_tended:
  assumes "client_reachable [] t w" "ac_token w \<noteq> None"
  shows "Refresh \<in> set (aw_inFlight w) \<or> Logout \<in> set (aw_inFlight w) \<or>
    (\<exists>i e. aw_armed w = [(i, e - 5 * 60 * 1000)] \<and> ac_tokenExpiry w = Some e)"
proof -
  have tended: "attended w" using assms(1)
  proof (induction rule: client_reachable.induct)
    case (stepped w a)
    then show ?case using attended_step kept_reachable by blast
  qed (simp add: attended_def client_start_def)
  from tended assms(2) show ?thesis unfolding attended_def by blast
qed

definition sample_login :: "string \<Rightarrow> answer" where
  "sample_login token = Answered 200 (TokenData \<lparr>td_token = token,
     td_user = \<lparr>us_Id = ''u1'', us_Username = ''ada'', us_Role = ''Admin'', us_MustChangePassword = False\<rparr>,
     td_model = Some (''m1'', ''House'')\<rparr>)"

definition client_run :: "string \<Rightarrow> client_action list \<Rightarrow> api_world \<Rightarrow> api_world" where
  "client_run key as w = foldl (\<lambda>w a. client_step key a w) w as"

lemma client_run_reachable: "client_reachable key t w \<Longrightarrow> client_reachable key t (client_run key as w)"
  by (induction as arbitrary: w) (auto simp: client_run_def intro: client_reachable.intros)

theorem one_refresh_timer_witness:
  "aw_armed (client_run [] [DoLogin, DoLogin, Answer 0 (sample_login ''a''), Answer 0 (sample_login ''b'')] (client_start 0))
     = [(2, 1200000)] \<and>
   length (aw_armed (client_run [] [DoLogin, DoLogin, Answer 0 (sample_login ''a''), Answer 0 (sample_login ''b'')] (client_start 0))) \<le> 1"
  using one_refresh_timer[OF client_run_reachable[OF started], of "[]"
      "[DoLogin, DoLogin, Answer 0 (sample_login ''a''), Answer 0 (sample_login ''b'')]" 0]
  by (intro conjI, code_simp, blast)

theorem session_tended_witness:
  "\<exists>i e. aw_armed (client_run [] [DoLogin, Answer 0 (sample_login ''a'')] (client_start 0)) = [(i, e - 5 * 60 * 1000)]"
proof -
  let ?w = "client_run [] [DoLogin, Answer 0 (sample_login ''a'')] (client_start 0)"
  have "client_reachable [] 0 ?w" by (intro client_run_reachable started)
  moreover have "ac_token ?w \<noteq> None" "aw_inFlight ?w = []" by code_simp+
  ultimately show ?thesis using session_tended[of 0 ?w] by auto
qed

subsection \<open>Signed out stays signed out\<close>

fun signs_in :: "call \<Rightarrow> bool" where
  "signs_in (Request k b) = False"
| "signs_in (Report b) = False"
| "signs_in Logout = False"
| "signs_in _ = True"

definition signed_out :: "api_world \<Rightarrow> bool" where
  "signed_out w \<longleftrightarrow> ac_token w = None \<and> ac_currentUser w = None \<and> ac_currentModelId w = None \<and> ac_currentModelName w = None
     \<and> aw_armed w = [] \<and> (\<forall>c \<in> set (aw_inFlight w). \<not> signs_in c)"

named_theorems stays_out

lemma out_prompt [stays_out]: "signed_out w \<Longrightarrow> signed_out (authenticationRequired w)"
  by (simp add: signed_out_def authenticationRequired_def)

lemma out_ensureToken [stays_out]: "signed_out w \<Longrightarrow> signed_out (ensureToken [] waiting w)"
  by (simp add: ensureToken_def isAuthenticated_def present_def signed_out_def authenticationRequired_def)

lemma out_reportAction [stays_out]: "signed_out w \<Longrightarrow> signed_out (reportAction [] b w)"
  by (simp add: reportAction_def stays_out)

lemma out_abandoned [stays_out]: "signed_out w \<Longrightarrow> signed_out (abandoned [] waiting w)"
  by (auto simp: abandoned_def intro!: stays_out split: option.splits call.splits bool.splits)

lemma out_with_token [stays_out]: "signed_out w \<Longrightarrow> signed_out (with_token [] waiting w)"
  by (auto simp: with_token_def intro!: stays_out)

lemma out_assertOk [stays_out]: "signed_out w \<Longrightarrow> signed_out (assertOk s w)"
  by (simp add: assertOk_def dropToken_def signed_out_def authenticationRequired_def)

lemma out_requestAnswered [stays_out]: "signed_out w \<Longrightarrow> signed_out (requestAnswered [] k b a w)"
  by (auto simp: requestAnswered_def Let_def intro!: stays_out split: answer.split)

lemma signedOut_out:
  assumes "one_timer w" "\<And>c. c \<in> set (aw_inFlight w) \<Longrightarrow> \<not> signs_in c"
  shows "signed_out (signedOut w)"
  using assms by (simp add: signed_out_def signedOut_def)

lemma out_receive: "signed_out w \<Longrightarrow> signed_out (receive [] i a w)"
proof -
  assume w: "signed_out w"
  let ?w = "w\<lparr>aw_inFlight := take i (aw_inFlight w) @ drop (Suc i) (aw_inFlight w)\<rparr>"
  have w': "signed_out ?w" using w by (auto simp: signed_out_def dest: in_set_takeD in_set_dropD)
  then have "signed_out (signedOut ?w)" by (intro signedOut_out) (auto simp: signed_out_def one_timer_def)
  moreover have "\<not> signs_in (aw_inFlight w ! i)" if "\<not> length (aw_inFlight w) \<le> i"
    using w that by (simp add: signed_out_def)
  ultimately show ?thesis using w w'
    by (cases "aw_inFlight w ! i") (auto simp: receive_def Let_def intro!: stays_out)
qed

lemma out_step: "signed_out w \<Longrightarrow> a \<noteq> DoLogin \<Longrightarrow> a \<noteq> DoRestoreSession \<Longrightarrow> signed_out (client_step [] a w)"
proof (cases a)
  case DoLogout
  assume w: "signed_out w"
  then have "signed_out (signedOut (cancelRefresh w))"
    by (intro signedOut_out) (auto simp: signed_out_def one_timer_def armed_cancelRefresh)
  with w DoLogout show ?thesis by (simp add: logout_def Let_def present_def signed_out_def)
next
  case (TimerFires i)
  assume "signed_out w"
  with TimerFires show ?thesis by (simp add: timerFires_def signed_out_def)
next
  case (Passes d)
  assume "signed_out w"
  with Passes show ?thesis by (simp add: signed_out_def)
qed (auto simp: switchModel_def rescopeToModel_def changePassword_def request_def out_receive intro!: stays_out)

text \<open>A sign-out that completes while no answer that could sign in is still on its way is final: whatever
  the pages, the timers and the broker do afterwards, the client holds no token, no user and no model until a
  person signs in or a session is restored.\<close>

lemma logout_lasts:
  assumes "client_reachable [] t w" "i < length (aw_inFlight w)" "aw_inFlight w ! i = Logout"
    and "\<forall>c \<in> set (aw_inFlight w). \<not> signs_in c"
    and "DoLogin \<notin> set as" "DoRestoreSession \<notin> set as"
  shows "signed_out (client_run [] as (receive [] i a w))"
proof -
  let ?w = "w\<lparr>aw_inFlight := take i (aw_inFlight w) @ drop (Suc i) (aw_inFlight w)\<rparr>"
  have "one_timer ?w" using kept_reachable[OF assms(1)] by (simp add: kept_def one_timer_def)
  then have "signed_out (signedOut ?w)"
    using assms(4) by (intro signedOut_out) (auto dest: in_set_takeD in_set_dropD)
  then have "signed_out (receive [] i a w)" using assms(2,3) by (simp add: receive_def Let_def)
  then show ?thesis using assms(5,6)
    by (induction as rule: rev_induct) (auto simp: client_run_def out_step)
qed

theorem logout_lasts_witness:
  "signed_out (client_run [] [DoRequest GetJson False, DoSwitchModel] (receive [] 0 Failed
     (client_run [] [DoLogin, Answer 0 (sample_login ''a''), DoLogout] (client_start 0))))"
proof (rule logout_lasts)
  show "client_reachable [] 0 (client_run [] [DoLogin, Answer 0 (sample_login ''a''), DoLogout] (client_start 0))"
    by (intro client_run_reachable started)
qed code_simp+

text \<open>The proviso is needed: a refresh answered after the sign-out has completed signs the person back in.\<close>

lemma refresh_outlives_logout:
  "let w = client_run [] [DoLogin, Answer 0 (sample_login ''a''), Passes 1200000, TimerFires 1, DoLogout,
       Answer 1 (Answered 200 NotJson), Answer 0 (sample_login ''b'')] (client_start 0)
   in ac_token w = Some ''b'' \<and> ac_currentUser w \<noteq> None \<and> ac_currentModelId w = Some ''m1'' \<and> aw_armed w \<noteq> []"
  by (simp add: client_run_def client_start_def login_def send_def receive_def sample_login_def tokenAnswered_def
      ok_status_def applyTokenResponse_def applyToken_def scheduleRefresh_def clearTimeout_def timerFires_def
      refreshToken_def present_def logout_def cancelRefresh_def signedOut_def forgetToken_def refreshAnswered_def Let_def)

text \<open>With an API key, moving to another model exchanges the key for no model in particular: the model asked for
  is nowhere in what is sent.\<close>

lemma rescope_names_no_model:
  "key \<noteq> [] \<Longrightarrow> aw_sent (rescopeToModel key m w)
     = aw_sent w @ [\<lparr>sn_call = ExchangeKey None, sn_bearer = None, sn_model = None\<rparr>]"
  by (simp add: rescopeToModel_def ensureToken_def isAuthenticated_def present_def send_def forgetToken_def cancelRefresh_def
      clearTimeout_def split: option.split)

end
