(* ===== verification/Dashboards.thy ===== *)
theory Dashboards
  imports Complex_Main VosTypes
begin

section \<open>What a dashboard is made of\<close>

text \<open>
  \<open>src/types/dashboard.ts\<close> and the selector of \<open>src/types/subscription.ts\<close>: the bindings a widget reads
  through, the widgets, the sections and the specification. An optional field is an \<open>option\<close>. A binding a
  specification names inside another and does not write is \<open>None\<close>.
\<close>

subsection \<open>Bindings\<close>

datatype step_direction = Out | In

datatype number_format = FInteger | FDecimal1 | FDecimal2 | FPercent | FPercent1 | FPercentOutOf100 | FHours | FCompact
  | FBytes | FMoney

datatype reduction = RCount | RSum | RAverage | RMin | RMax

datatype filter_operator = OpEq | OpNe | OpGt | OpGe | OpLt | OpLe | OpIn

record property_filter =
  pf_property :: string
  pf_operator :: filter_operator
  pf_value :: json

record scope_reference =
  sr_viaPredicate :: string
  sr_direction :: "step_direction option"

record relation_step =
  rs_predicate :: string
  rs_direction :: "step_direction option"
  rs_archetype :: "string option"
  rs_inState :: "string option"
  rs_notInState :: "string option"

record verdict_candidate =
  vc_state :: string
  vc_reads :: string
  vc_levers :: "(string \<times> string) option"

record origin_source =
  os_via :: "relation_step list option"
  os_resolvedAt :: "string option"

datatype history_fold = FoldHour | FoldDay | FoldMonth | FoldYear | FoldHourOfDay | FoldDayOfYear | FoldMonthOfYear
  | FoldHourOfDayDayOfYear | FoldMonthOfYearHourOfDay | FoldAll

datatype history_function = HMin | HMax | HAverage | HSum | HCount | HPercentile | HShareWithin | HCountAtOrBelow
  | HCountAbove | HSumAbove | HSumBelow

datatype binding =
    Const jsnum
  | StateCount string "scope_reference option" "string option" "string option"
  | StateList string "string option" "scope_reference option" "jsnum option" "string option" "string list option"
      "(string \<times> binding option) list option"
  | ThingList string "scope_reference option" "jsnum option" "(string \<times> binding option) list option" "string option"
      "property_filter list option"
  | Aggregate string reduction "string option" "property_filter list option" "scope_reference option"
  | PropertyOf string string
  | Related "relation_step list" "string option" "string option"
  | StateOf "string list" "string option"
  | Verdict "verdict_candidate list" "string option" "relation_step list option"
  | Origin string "string option" "relation_step list option" "(string \<times> string) list" "origin_source option"
  | Working string "string option" "relation_step list option"
  | Ratio "binding option" "binding option"
  | CompareEntities "string list" "(string \<times> binding option) list option"
  | Timeseries string string "string option" reduction jsnum jsnum "jsnum option" "scope_reference option"
  | Latest "binding option"
  | Service string "json option" "string option"
  | History string jsnum "history_step list"
and bound_number = Written jsnum | Bound binding
and history_step = HistoryStep history_fold history_function "bound_number option" "bound_number option"
    "bound_number option" "bound_number option"

definition SCOPE_REFERENCE :: string where
  "SCOPE_REFERENCE = ''$scope''"

subsection \<open>Widgets\<close>

datatype delta_direction = UpGood | DownGood | NeitherGood

record kpi_widget =
  kw_title :: string
  kw_value :: binding
  kw_format :: "number_format option"
  kw_unit :: "string option"
  kw_target :: "jsnum option"
  kw_targetLabel :: "string option"
  kw_direction :: "delta_direction option"
  kw_delta :: "binding option"
  kw_spark :: "binding option"
  kw_sparkBaseline :: "binding option"
  kw_sparkBaselineLabel :: "string option"
  kw_footnote :: "string option"
  kw_origin :: "binding option"

record funnel_stage =
  fs_label :: string
  fs_sublabel :: "string option"
  fs_color :: "string option"
  fs_count :: binding
  fs_drill :: "binding option"

datatype cell_render = RenderText | RenderBadge | RenderAgebar | RenderId

record table_column =
  tc_key :: string
  tc_label :: string
  tc_numeric :: "bool option"
  tc_format :: "number_format option"
  tc_render :: "cell_render option"

record funnel_widget =
  fw_title :: "string option"
  fw_hint :: "string option"
  fw_stages :: "funnel_stage list"
  fw_drillColumns :: "table_column list option"
  fw_searchable :: "bool option"
  fw_searchKeys :: "string list option"
  fw_searchNoun :: "string option"
  fw_rowDetail :: "bool option"

record bullet_row =
  br_label :: string
  br_value :: binding
  br_max :: "jsnum option"
  br_target :: "jsnum option"
  br_band :: "(jsnum \<times> jsnum) option"
  br_direction :: "delta_direction option"
  br_format :: "number_format option"

record bullet_widget =
  bw_title :: "string option"
  bw_rows :: "bullet_row list"

datatype sort_direction = Ascending | Descending

record table_widget =
  tw_title :: "string option"
  tw_hint :: "string option"
  tw_columns :: "table_column list"
  tw_rows :: binding
  tw_minWidth :: "int option"
  tw_sortKey :: "string option"
  tw_sortDirection :: "sort_direction option"
  tw_visibleRows :: "int option"
  tw_searchable :: "bool option"
  tw_searchKeys :: "string list option"
  tw_rowDetail :: "bool option"

record gantt_widget =
  gw_title :: "string option"
  gw_hint :: "string option"
  gw_rows :: binding
  gw_ticks :: "string list option"
  gw_now :: "jsnum option"

record leader_metric =
  lm_key :: string
  lm_label :: string
  lm_format :: "number_format option"
  lm_direction :: "delta_direction option"
  lm_weight :: "jsnum option"
  lm_best :: "jsnum option"
  lm_worst :: "jsnum option"

record leaderboard_widget =
  lw_title :: "string option"
  lw_hint :: "string option"
  lw_entities :: binding
  lw_metrics :: "leader_metric list"
  lw_labelKey :: "string option"
  lw_sublabelKey :: "string option"

datatype severity = SevGood | SevWarning | SevCritical

record exception_bucket =
  eb_label :: string
  eb_value :: binding
  eb_severity :: severity

record exception_widget =
  ew_title :: "string option"
  ew_hint :: "string option"
  ew_buckets :: "exception_bucket list"
  ew_note :: "string option"

record verdict_row =
  vr_label :: string
  vr_verdicts :: binding
  vr_format :: "number_format option"
  vr_unit :: "string option"

record verdict_widget =
  vw_title :: "string option"
  vw_hint :: "string option"
  vw_rows :: "verdict_row list"

record working_row =
  wk_label :: string
  wk_value :: binding
  wk_working :: binding
  wk_format :: "number_format option"
  wk_unit :: "string option"

record working_widget =
  ww_title :: "string option"
  ww_hint :: "string option"
  ww_rows :: "working_row list"

record range_series =
  ra_recordedHigh :: binding
  ra_designHigh :: binding
  ra_averageHigh :: binding
  ra_mean :: binding
  ra_averageLow :: binding
  ra_designLow :: binding
  ra_recordedLow :: binding

record range_band =
  rb_label :: string
  rb_from :: "binding option"
  rb_to :: "binding option"
  rb_colour :: string

record range_bar_widget =
  rw_title :: "string option"
  rw_hint :: "string option"
  rw_months :: range_series
  rw_annual :: "range_series option"
  rw_bands :: "range_band list option"
  rw_format :: "number_format option"
  rw_unit :: "string option"
  rw_floor :: "jsnum option"
  rw_ceiling :: "jsnum option"

record line_series_widget =
  ls_title :: "string option"
  ls_hint :: "string option"
  ls_series :: "(string \<times> binding) list"
  ls_format :: "number_format option"
  ls_unit :: "string option"
  ls_floor :: "jsnum option"
  ls_ceiling :: "jsnum option"

record sun_position =
  sp_latitude :: binding
  sp_longitude :: binding
  sp_utcOffsetSeconds :: "binding option"

record heatmap_widget =
  hw_title :: "string option"
  hw_hint :: "string option"
  hw_value :: binding
  hw_sun :: "sun_position option"
  hw_format :: "number_format option"
  hw_unit :: "string option"
  hw_floor :: "jsnum option"
  hw_ceiling :: "jsnum option"

datatype colour_source = ColourWritten string | ColourBound binding

record stacked_shares_class =
  sc_label :: string
  sc_colour :: colour_source
  sc_share :: binding

record stacked_shares_widget =
  sw_title :: "string option"
  sw_hint :: "string option"
  sw_classes :: "stacked_shares_class list"

record diverging_bar_side =
  ds_label :: string
  ds_value :: binding
  ds_threshold :: "binding option"

record diverging_bar_widget =
  dw_title :: "string option"
  dw_hint :: "string option"
  dw_up :: diverging_bar_side
  dw_down :: diverging_bar_side
  dw_format :: "number_format option"
  dw_unit :: "string option"

record small_multiples_series =
  sm_label :: string
  sm_value :: binding
  sm_unit :: "string option"
  sm_format :: "number_format option"

record small_multiples_widget =
  mw_title :: "string option"
  mw_hint :: "string option"
  mw_bars :: small_multiples_series
  mw_line :: small_multiples_series
  mw_band :: "range_band option"

datatype asked_kind = AskText | AskNumber | AskDatetime | AskSecret | AskChoice | AskMultichoice

record asked_value =
  av_key :: string
  av_label :: string
  av_kind :: "asked_kind option"
  av_options :: "binding option"
  av_shows :: "string list option"
  av_optional :: "bool option"

record action_choice =
  ch_label :: string
  ch_target :: "string option"
  ch_viaPredicate :: "string option"
  ch_act :: "string option"

record action_records =
  ar_via :: string
  ar_archetype :: "string option"
  ar_predicate :: "string option"
  ar_repeatable :: "bool option"
  ar_choices :: "action_choice list"

record action_widget =
  aw_title :: "string option"
  aw_hint :: "string option"
  aw_rows :: binding
  aw_label :: "string option"
  aw_shows :: "string list option"
  aw_asks :: "asked_value list option"
  aw_writes :: action_records

record form_widget =
  fm_title :: "string option"
  fm_hint :: "string option"
  fm_fields :: "asked_value list"
  fm_submit :: string
  fm_preview :: "(string \<times> string) option"
  fm_via :: string
  fm_act :: string
  fm_archetype :: "string option"

subsection \<open>Sections and the specification\<close>

definition GRID_COLUMNS :: int where
  "GRID_COLUMNS = 12"

record placement =
  pl_column :: int
  pl_row :: int
  pl_width :: int
  pl_height :: int

datatype widget_kind = Kpi kpi_widget | Funnel funnel_widget | Bullet bullet_widget | Table table_widget
  | Gantt gantt_widget | Leaderboard leaderboard_widget | VerdictList verdict_widget | WorkingList working_widget
  | ExceptionBar exception_widget | RangeBar range_bar_widget | LineSeries line_series_widget | Heatmap heatmap_widget
  | StackedShares stacked_shares_widget | DivergingBar diverging_bar_widget | SmallMultiples small_multiples_widget
  | Action action_widget | Form form_widget

record widget =
  wg_kind :: widget_kind
  wg_placement :: "placement option"

datatype section_layout = KpiStrip | Split | Single | Grid

record dashboard_section =
  se_title :: "string option"
  se_hint :: "string option"
  se_layout :: "section_layout option"
  se_widths :: "rat list option"
  se_widgets :: "widget list"
  se_theme :: "string option"
  se_facts :: "bool option"
  se_tab :: "string option"

datatype shown_properties = AllProperties | Keys "string list"

datatype relation_specification =
  RelationSpecification string "step_direction option" "string option" "string option" "shown_properties option"
    "bool option" "relation_specification list option"

record detail_specification =
  de_titleProperty :: "string option"
  de_subtitleProperty :: "string option"
  de_propertyGroups :: "(string \<times> string list) list option"
  de_relations :: "relation_specification list option"
  de_history :: "bool option option"

record compare_configuration =
  cc_label :: string
  cc_archetype :: string

datatype composed_column = ColumnProperty string "bool option" | ColumnPath "relation_step list" "string option" string
  | ColumnState "string list"

record composition =
  co_kind :: string
  co_columns :: "composed_column list"
  co_inState :: "string option"
  co_moment :: "string option"
  co_where :: "property_filter list option"
  co_sortKey :: "string option"
  co_sortDirection :: "sort_direction option"

record dashboard_specification =
  sp_title :: string
  sp_subtitle :: "string option"
  sp_icon :: "string option"
  sp_compare :: "compare_configuration option"
  sp_sections :: "dashboard_section list"
  sp_refreshSeconds :: "jsnum option"
  sp_detail :: "detail_specification option"
  sp_translations :: "(string, (string, string) omap) omap option"
  sp_composed :: "composition option"
  sp_designed :: "bool option"

subsection \<open>The selector of a subscription\<close>

datatype traverse_direction = Outgoing | Incoming | Both

record traverse_rule =
  tr_predicate :: "string option"
  tr_predicateRole :: "string option"
  tr_direction :: "traverse_direction option"
  tr_depth :: "int option"

record subscription_selector =
  sl_all :: "bool option"
  sl_ids :: "string list option"
  sl_names :: "string list option"
  sl_types :: "string list option"
  sl_typeIds :: "string list option"
  sl_boundTypes :: "string list option"
  sl_boundArchetypes :: "string list option"
  sl_traverse :: "traverse_rule list option"
  sl_includeIsAncestors :: "bool option"
  sl_includeRelationships :: "bool option"
  sl_includeLaterMatches :: "bool option"
  sl_includeObservations :: "bool option"

end
