(* ===== verification/DashboardSubscription.thy ===== *)
theory DashboardSubscription
  imports Dashboards GuiSettings "HOL-Library.Sublist"
begin

section \<open>The subscription a dashboard opens\<close>

text \<open>
  \<open>src/api/dashboardSubscription.ts\<close>, with the roles of \<open>src/api/landIntakeRoles.ts\<close>,
  \<open>src/api/platformRoles.ts\<close> and \<open>src/api/propertyNames.ts\<close> it asks for: from a specification to the
  selector the platform reads. The platform itself is not modelled; what is proved is what the selector asks
  it for.
\<close>

subsection \<open>The roles\<close>

definition LAND_INTAKE_ROLE :: "(string, string) omap" where
  "LAND_INTAKE_ROLE = [
     (''SiteStudy'', ''e9036a23-21c1-5956-b0d8-a212e8ad8272''),
     (''Site'', ''84e29a09-b999-5b22-b82c-d101723d96d1''),
     (''AllocationCategory'', ''2cdde53d-72b8-54d3-aaa5-e5a9cc56b9e6''),
     (''CategorizedAs'', ''e0fd16d3-1feb-509b-8753-f4197b1288be''),
     (''WaterDemandComponent'', ''69c31cd9-313d-56dc-b554-3aa0cc24d427''),
     (''PropertyName'', ''a44ad23e-44ed-5992-8360-1fdabc1a6240''),
     (''ProposedSite'', ''ac8f6596-7dd4-53bb-bcc9-01d3f7b78b5b''),
     (''PersonalDetail'', ''2e154d0e-6477-5e2b-9d61-faf40f7d39d1''),
     (''SharedDocument'', ''a3605555-fa7a-50c0-9422-3085734c5c22''),
     (''Shares'', ''bdd517c7-e2d1-5b2f-a8ef-dad58e1fc8c7''),
     (''BoundarySource'', ''ec334dde-46d5-5696-9f80-5963dcea3dc7''),
     (''ObtainedBy'', ''fffc87a4-7fef-5a2c-b56e-dee55bab3ea3''),
     (''HazardType'', ''84c01d40-c4d9-56ec-b31a-b168be53e2f9''),
     (''Assesses'', ''d6515c5a-ce3e-5484-a1b4-ab19d5fb9876''),
     (''HazardLevel'', ''0b02fd28-a6c5-5f1c-ac48-3b82fe33a462''),
     (''ReportedLevel'', ''bb61c39c-019f-502b-9232-6f9acd848817''),
     (''SubmissionDisposition'', ''f4c54fc1-2c17-54bc-b8e8-c467e8fa321a''),
     (''ResolvedAs'', ''92e4581a-4936-58b1-a783-36a051aa0a43''),
     (''Theme'', ''d81072a6-1f26-5d4c-a8ce-59957f25ca29''),
     (''SubmitterFindingsDashboard'', ''3a2e1317-ea1d-5f38-be9d-6c2faf0a30a7''),
     (''RootPlace'', ''18d228a8-2bed-5b05-8026-2526cf939dfd''),
     (''PlaceNesting'', ''c3c9edde-b271-5a52-8f23-cc6bae9ea1d1''),
     (''Decision'', ''b29b4a43-211b-5d07-9ca1-761675bafc6b''),
     (''Consideration'', ''9727515b-7d2d-5654-993a-0a672ca55626''),
     (''Constraint'', ''389ba00e-3e4e-5559-8f9c-de9da5d4356d''),
     (''DecisionSubject'', ''aee6f88a-f53c-5ddf-a469-95d62544a857''),
     (''Chosen'', ''969edafa-9d2b-56d7-b017-49ae65ce141b''),
     (''DecidedUnder'', ''505d8032-d3b7-5c9b-8cfb-a8bdda126624''),
     (''Decider'', ''83ee7bd0-bc28-5888-bce3-636a4bd27fea''),
     (''Refusal'', ''530a0d7f-5cac-5bb9-8ca7-c2d6fb63b50b''),
     (''Support'', ''9b0bc62e-90fa-5c77-9238-4b20b606053b''),
     (''ConsiderationCause'', ''a6a352aa-731f-5a89-a04c-48eef142d4fd''),
     (''ConsiderationEvidence'', ''fe9f09f2-1d77-5867-adcc-4db302552ae5''),
     (''RefusedCandidate'', ''3634a526-0bab-5e7b-ae8f-6d822ce7c1b1''),
     (''BasemapSource'', ''61066752-41d5-5bea-a1cd-5450e6603486'')]"

definition land_role :: "string \<Rightarrow> string" where
  "land_role name = (case oget LAND_INTAKE_ROLE name of Some i \<Rightarrow> i | None \<Rightarrow> [])"

definition PAGE_ROLE_ID :: string where
  "PAGE_ROLE_ID = ''a18768bc-b4e7-513c-864f-842d674c1858''"

definition PROPERTY_NAME_ROLE :: string where
  "PROPERTY_NAME_ROLE = land_role ''PropertyName''"

definition NAMES_PROPERTY_OF_PREDICATE :: string where
  "NAMES_PROPERTY_OF_PREDICATE = ''namesPropertyOf''"

definition DECISION_ROLES_A_DETAIL_CARD_READS :: "string list" where
  "DECISION_ROLES_A_DETAIL_CARD_READS = map land_role [''Constraint'', ''DecisionSubject'', ''Chosen'', ''DecidedUnder'',
     ''Refusal'', ''Support'', ''ConsiderationCause'', ''ConsiderationEvidence'', ''RefusedCandidate'']"

definition empty_selector :: subscription_selector where
  "empty_selector = \<lparr>sl_all = None, sl_ids = None, sl_names = None, sl_types = None, sl_typeIds = None, sl_boundTypes = None,
     sl_boundArchetypes = None, sl_traverse = None, sl_includeIsAncestors = None, sl_includeRelationships = None,
     sl_includeLaterMatches = None, sl_includeObservations = None\<rparr>"

definition NAVIGATION_AND_SETTINGS :: subscription_selector where
  "NAVIGATION_AND_SETTINGS = empty_selector\<lparr>sl_ids := Some [PAGE_ROLE_ID, DISPLAY_SETTINGS_ROLE_ID],
     sl_boundTypes := Some [PAGE_ROLE_ID], sl_boundArchetypes := Some [DISPLAY_SETTINGS_ROLE_ID],
     sl_names := Some [IS_PREDICATE, BINDS_PREDICATE_NAME], sl_includeLaterMatches := Some True\<rparr>"

definition UNBOUNDED_DEPTH :: int where
  "UNBOUNDED_DEPTH = 2147483647"

text \<open>\<open>IDENTIFIER\<close>: five groups of hexadecimal digits, 8-4-4-4-12, in either case.\<close>

definition is_hex :: "char \<Rightarrow> bool" where
  "is_hex c \<longleftrightarrow> hex_val c \<noteq> None"

fun hex_groups :: "nat list \<Rightarrow> string \<Rightarrow> bool" where
  "hex_groups [] s = False"
| "hex_groups [n] s = (length s = n \<and> list_all is_hex s)"
| "hex_groups (n # ns) s = (list_all is_hex (take n s) \<and> length (take n s) = n \<and>
     (case drop n s of c # r \<Rightarrow> c = CHR ''-'' \<and> hex_groups ns r | [] \<Rightarrow> False))"

definition is_identifier :: "string \<Rightarrow> bool" where
  "is_identifier s = hex_groups [8, 4, 4, 4, 12] s"

subsection \<open>The bindings of a widget\<close>

definition ruleFor :: "string \<Rightarrow> step_direction option \<Rightarrow> int \<Rightarrow> traverse_rule" where
  "ruleFor predicate direction depth = \<lparr>tr_predicate = Some predicate, tr_predicateRole = None,
     tr_direction = Some (if direction = Some In then Incoming else Outgoing), tr_depth = Some depth\<rparr>"

definition series_bindings :: "range_series \<Rightarrow> binding list" where
  "series_bindings p = [ra_recordedHigh p, ra_designHigh p, ra_averageHigh p, ra_mean p, ra_averageLow p, ra_designLow p,
     ra_recordedLow p]"

definition list_or_empty :: "'a list option \<Rightarrow> 'a list" where
  "list_or_empty v = (case v of Some xs \<Rightarrow> xs | None \<Rightarrow> [])"

definition widgetBindings :: "widget \<Rightarrow> binding option list" where
  "widgetBindings w = (case wg_kind w of
     Kpi k \<Rightarrow> [Some (kw_value k), kw_delta k, kw_spark k, kw_sparkBaseline k, kw_origin k]
   | Funnel f \<Rightarrow> concat (map (\<lambda>stage. [Some (fs_count stage), fs_drill stage]) (fw_stages f))
   | Bullet b \<Rightarrow> map (\<lambda>row. Some (br_value row)) (bw_rows b)
   | Table t \<Rightarrow> [Some (tw_rows t)]
   | Gantt g \<Rightarrow> [Some (gw_rows g)]
   | Leaderboard l \<Rightarrow> [Some (lw_entities l)]
   | VerdictList v \<Rightarrow> map (\<lambda>row. Some (vr_verdicts row)) (vw_rows v)
   | WorkingList k \<Rightarrow> concat (map (\<lambda>row. [Some (wk_value row), Some (wk_working row)]) (ww_rows k))
   | ExceptionBar e \<Rightarrow> map (\<lambda>bucket. Some (eb_value bucket)) (ew_buckets e)
   | RangeBar r \<Rightarrow> map Some (concat (map (\<lambda>period. case period of Some p \<Rightarrow> series_bindings p | None \<Rightarrow> [])
         [Some (rw_months r), rw_annual r]))
       @ concat (map (\<lambda>band. [rb_from band, rb_to band]) (list_or_empty (rw_bands r)))
   | LineSeries l \<Rightarrow> map (\<lambda>entry. Some (snd entry)) (ls_series l)
   | Heatmap h \<Rightarrow> [Some (hw_value h), map_option sp_latitude (hw_sun h), map_option sp_longitude (hw_sun h),
       Option.bind (hw_sun h) sp_utcOffsetSeconds]
   | StackedShares s \<Rightarrow> concat (map (\<lambda>entry. [Some (sc_share entry),
       (case sc_colour entry of ColourBound b \<Rightarrow> Some b | ColourWritten c \<Rightarrow> None)]) (sw_classes s))
   | DivergingBar d \<Rightarrow> [Some (ds_value (dw_up d)), ds_threshold (dw_up d), Some (ds_value (dw_down d)), ds_threshold (dw_down d)]
   | SmallMultiples m \<Rightarrow> [Some (sm_value (mw_bars m)), Some (sm_value (mw_line m)), Option.bind (mw_band m) rb_from,
       Option.bind (mw_band m) rb_to]
   | Action a \<Rightarrow> Some (aw_rows a) # map av_options (list_or_empty (aw_asks a))
   | Form f \<Rightarrow> map av_options (fm_fields f))"

definition written_ones :: "'a option list \<Rightarrow> 'a list" where
  "written_ones xs = List.map_filter (\<lambda>x. x) xs"

text \<open>What a binding nests.\<close>

definition bound_of :: "bound_number option \<Rightarrow> binding option" where
  "bound_of v = (case v of Some (Bound b) \<Rightarrow> Some b | _ \<Rightarrow> None)"

definition step_bindings :: "history_step \<Rightarrow> binding option list" where
  "step_bindings step = (case step of HistoryStep period function percentile low high threshold \<Rightarrow>
     [bound_of percentile, bound_of low, bound_of high, bound_of threshold])"

definition computed_of :: "binding \<Rightarrow> (string \<times> binding option) list" where
  "computed_of b = (case b of
     StateList st ex sc most arch ps computed \<Rightarrow> list_or_empty computed
   | ThingList arch sc most computed st wh \<Rightarrow> list_or_empty computed
   | CompareEntities ps computed \<Rightarrow> list_or_empty computed
   | _ \<Rightarrow> [])"

definition inner_bindings :: "binding \<Rightarrow> binding list" where
  "inner_bindings b = written_ones (
     (case b of Ratio numerator denominator \<Rightarrow> [numerator, denominator] | _ \<Rightarrow> [])
     @ (case b of Latest series \<Rightarrow> [series] | _ \<Rightarrow> [])
     @ (case b of History p w steps \<Rightarrow> concat (map step_bindings steps) | _ \<Rightarrow> [])
     @ map snd (computed_of b))"

lemma set_written_ones [simp]: "set (written_ones xs) = {x. Some x \<in> set xs}"
  by (force simp: written_ones_def List.map_filter_def)

lemma in_size_list: "x \<in> set xs \<Longrightarrow> f x < size_list f xs"
  by (induction xs) auto

lemma columns_smaller:
  "(k, Some b') \<in> set cols \<Longrightarrow> size b' < size_list (size_prod (\<lambda>x. 0) (size_option size)) cols"
  using in_size_list[of "(k, Some b')" cols "size_prod (\<lambda>x. 0) (size_option size)"] by simp

lemma step_smaller: "Some b' \<in> set (step_bindings st) \<Longrightarrow> size b' < size st"
  by (cases st) (auto simp: step_bindings_def bound_of_def split: option.splits bound_number.splits)

lemma inner_smaller: "b' \<in> set (inner_bindings b) \<Longrightarrow> size b' < size b"
proof (cases b)
  case (History p w steps)
  assume "b' \<in> set (inner_bindings b)"
  then obtain st where "st \<in> set steps" "Some b' \<in> set (step_bindings st)"
    using History by (auto simp: inner_bindings_def computed_of_def)
  with in_size_list[of st steps size] step_smaller[of b' st] History show ?thesis by simp
qed (auto simp: inner_bindings_def computed_of_def list_or_empty_def split: option.splits dest!: columns_smaller)

function withNested :: "binding \<Rightarrow> binding list" where
  "withNested b = b # concat (map withNested (inner_bindings b))"
  by pat_completeness auto
termination by (relation "measure size") (auto simp: inner_smaller)

declare withNested.simps [simp del]

definition slotsOf :: "widget \<Rightarrow> binding list" where
  "slotsOf w = written_ones (widgetBindings w)"

definition bindingsOf :: "widget \<Rightarrow> binding list" where
  "bindingsOf w = concat (map withNested (slotsOf w))"

definition specificationBindings :: "dashboard_specification \<Rightarrow> binding list" where
  "specificationBindings sp = concat (map bindingsOf (concat (map se_widgets (sp_sections sp))))"

subsection \<open>The walks\<close>

text \<open>Each path from a relation of the detail card to one that nests none.\<close>

fun detail_paths :: "relation_specification \<Rightarrow> relation_step list list" where
  "detail_paths (RelationSpecification predicate direction archetype label properties inline relations) =
     (let step = \<lparr>rs_predicate = predicate, rs_direction = direction, rs_archetype = None, rs_inState = None, rs_notInState = None\<rparr>;
          below = (case relations of None \<Rightarrow> [] | Some rs \<Rightarrow> concat (map detail_paths rs))
      in if below \<noteq> [] then map (\<lambda>path. step # path) below else [[step]])"

definition detailWalks :: "relation_specification list option \<Rightarrow> relation_step list list" where
  "detailWalks relations = (case relations of None \<Rightarrow> [] | Some rs \<Rightarrow> concat (map detail_paths rs))"

definition bindingWalk :: "binding \<Rightarrow> relation_step list option" where
  "bindingWalk b = (case b of
     Origin property thing via reads source \<Rightarrow>
       Some (list_or_empty via @ (case source of Some src \<Rightarrow> list_or_empty (os_via src) | None \<Rightarrow> []))
   | Related via thing property \<Rightarrow> Some via
   | Verdict states thing via \<Rightarrow> via
   | Working property thing via \<Rightarrow> via
   | _ \<Rightarrow> None)"

definition specificationWalks :: "dashboard_specification \<Rightarrow> relation_step list list" where
  "specificationWalks sp = filter (\<lambda>via. via \<noteq> []) (written_ones (map bindingWalk (specificationBindings sp)))
     @ detailWalks (Option.bind (sp_detail sp) de_relations)"

subsection \<open>The rules\<close>

definition scope_of :: "binding \<Rightarrow> scope_reference option" where
  "scope_of b = (case b of
     StateCount st sc arch ex \<Rightarrow> sc
   | StateList st ex sc most arch ps computed \<Rightarrow> sc
   | ThingList arch sc most computed st wh \<Rightarrow> sc
   | Aggregate arch red p wh sc \<Rightarrow> sc
   | Timeseries arch happened p red secs n per sc \<Rightarrow> sc
   | _ \<Rightarrow> None)"

definition step_key :: "string \<Rightarrow> step_direction option \<Rightarrow> string" where
  "step_key predicate direction = predicate @ '':'' @ (if direction = Some In then ''in'' else ''out'')"

definition scope_rule_step :: "string list \<times> traverse_rule list \<Rightarrow> binding \<Rightarrow> string list \<times> traverse_rule list" where
  "scope_rule_step = (\<lambda>(seen, rules) b. case scope_of b of None \<Rightarrow> (seen, rules)
     | Some sc \<Rightarrow> (let key = step_key (sr_viaPredicate sc) (sr_direction sc) in
         if key \<in> set seen then (seen, rules)
         else (sadd key seen, rules @ [ruleFor (sr_viaPredicate sc) (sr_direction sc) UNBOUNDED_DEPTH])))"

definition scopeRules :: "dashboard_specification \<Rightarrow> traverse_rule list" where
  "scopeRules sp = snd (foldl scope_rule_step ([], []) (specificationBindings sp))"

definition step_at :: "relation_step list \<Rightarrow> nat \<Rightarrow> relation_step option" where
  "step_at walk position = (if position < length walk then Some (walk ! position) else None)"

definition walk_rule_step ::
  "nat \<Rightarrow> string list \<times> traverse_rule list \<Rightarrow> relation_step list \<Rightarrow> string list \<times> traverse_rule list" where
  "walk_rule_step position = (\<lambda>(seen, rules) walk. case step_at walk position of None \<Rightarrow> (seen, rules)
     | Some step \<Rightarrow> (let key = step_key (rs_predicate step) (rs_direction step) in
         if key \<in> set seen then (seen, rules)
         else (sadd key seen, rules @ [ruleFor (rs_predicate step) (rs_direction step) 1])))"

definition position_rules :: "relation_step list list \<Rightarrow> nat \<Rightarrow> traverse_rule list" where
  "position_rules walks position = snd (foldl (walk_rule_step position) ([], []) walks)"

definition walkRules :: "relation_step list list \<Rightarrow> traverse_rule list" where
  "walkRules walks = (let deepest = foldl (\<lambda>longest walk. max longest (length walk)) 0 walks
     in concat (map (position_rules walks) [0..<deepest]))"

subsection \<open>What is asked for by type and by name\<close>

definition reads_its_type_locally :: "binding \<Rightarrow> bool" where
  "reads_its_type_locally b = (case b of
     ThingList arch sc most computed st wh \<Rightarrow> True
   | Aggregate arch red p wh sc \<Rightarrow> True
   | StateList st ex sc most arch ps computed \<Rightarrow> True
   | _ \<Rightarrow> False)"

definition archetype_of :: "binding \<Rightarrow> string option" where
  "archetype_of b = (case b of
     StateCount st sc arch ex \<Rightarrow> arch
   | StateList st ex sc most arch ps computed \<Rightarrow> arch
   | ThingList arch sc most computed st wh \<Rightarrow> Some arch
   | Aggregate arch red p wh sc \<Rightarrow> Some arch
   | Timeseries arch happened p red secs n per sc \<Rightarrow> Some arch
   | _ \<Rightarrow> None)"

definition drawn_type :: "string option \<Rightarrow> binding \<Rightarrow> string option" where
  "drawn_type scopeId b = (if \<not> reads_its_type_locally b then None
     else case archetype_of b of None \<Rightarrow> None
       | Some archetype \<Rightarrow> if archetype \<noteq> [] \<and> (scope_of b = None \<or> scopeId = None) then Some archetype else None)"

definition drawnTypes :: "dashboard_specification \<Rightarrow> string option \<Rightarrow> string list" where
  "drawnTypes sp scopeId = set_of ((case sp_compare sp of Some c \<Rightarrow> [cc_archetype c] | None \<Rightarrow> [])
     @ written_ones (map (drawn_type scopeId) (specificationBindings sp)))"

definition thing_of :: "binding \<Rightarrow> string option" where
  "thing_of b = (case b of
     PropertyOf thing p \<Rightarrow> Some thing
   | Related via thing p \<Rightarrow> thing
   | StateOf states thing \<Rightarrow> thing
   | Verdict states thing via \<Rightarrow> thing
   | Origin p thing via reads source \<Rightarrow> thing
   | Working p thing via \<Rightarrow> thing
   | _ \<Rightarrow> None)"

definition named_thing :: "binding \<Rightarrow> string option" where
  "named_thing b = (case thing_of b of None \<Rightarrow> None
     | Some thing \<Rightarrow> if thing \<noteq> [] \<and> thing \<noteq> SCOPE_REFERENCE then Some thing else None)"

definition namedThings :: "dashboard_specification \<Rightarrow> string list \<times> string list" where
  "namedThings sp = (let referenced = set_of (written_ones (map named_thing (specificationBindings sp))) in
     (filter is_identifier referenced, filter (\<lambda>reference. \<not> is_identifier reference) referenced))"

definition offersLevers :: "dashboard_specification \<Rightarrow> bool" where
  "offersLevers sp = list_ex (\<lambda>b. case b of Verdict states thing via \<Rightarrow> list_ex (\<lambda>state. vc_levers state \<noteq> None) states | _ \<Rightarrow> False)
     (specificationBindings sp)"

definition traversal :: "dashboard_specification \<Rightarrow> traverse_rule list" where
  "traversal sp = scopeRules sp @ walkRules (specificationWalks sp)
     @ (if offersLevers sp then [ruleFor NAMES_PROPERTY_OF_PREDICATE (Some Out) 1] else [])
     @ [ruleFor BINDS_PREDICATE_NAME (Some Out) 1]"

definition subscriptionForSpecification :: "dashboard_specification \<Rightarrow> string option \<Rightarrow> subscription_selector" where
  "subscriptionForSpecification sp scopeId =
     (let (ids, names) = namedThings sp; levers = offersLevers sp; traverse = traversal sp;
          selector = empty_selector\<lparr>
            sl_ids := Some (set_of (list_or_empty (sl_ids NAVIGATION_AND_SETTINGS)
              @ (case scopeId of Some i \<Rightarrow> if i \<noteq> [] then [i] else [] | None \<Rightarrow> [])
              @ ids @ (if levers then [PROPERTY_NAME_ROLE] else []) @ DECISION_ROLES_A_DETAIL_CARD_READS)),
            sl_boundTypes := Some (list_or_empty (sl_boundTypes NAVIGATION_AND_SETTINGS)
              @ (if levers then [PROPERTY_NAME_ROLE] else [])),
            sl_boundArchetypes := sl_boundArchetypes NAVIGATION_AND_SETTINGS,
            sl_types := Some (drawnTypes sp scopeId),
            sl_names := Some (set_of (list_or_empty (sl_names NAVIGATION_AND_SETTINGS)
              @ written_ones (map tr_predicate traverse) @ names)),
            sl_includeLaterMatches := Some True, sl_includeObservations := Some True\<rparr>
      in if traverse \<noteq> [] then selector\<lparr>sl_traverse := Some traverse\<rparr> else selector)"

subsection \<open>The rules reproduce the walks\<close>

text \<open>The word and the direction can be read off a key, so a rule is asked for once and stands for every step
  with its key.\<close>

lemma step_key_inj:
  assumes "step_key p d = step_key p' d'"
  shows "p = p' \<and> (d = Some In \<longleftrightarrow> d' = Some In)"
proof -
  have "last (step_key p d) = (if d = Some In then CHR ''n'' else CHR ''t'')" for p d by (simp add: step_key_def)
  then have "(if d = Some In then CHR ''n'' else CHR ''t'') = (if d' = Some In then CHR ''n'' else CHR ''t'')"
    using assms by metis
  then have "d = Some In \<longleftrightarrow> d' = Some In" by (simp split: if_splits)
  with assms show ?thesis by (auto simp: step_key_def)
qed

lemma ruleFor_key: "step_key p d = step_key p' d' \<Longrightarrow> ruleFor p d n = ruleFor p' d' n"
  using step_key_inj[of p d p' d'] by (auto simp: ruleFor_def)

text \<open>Folding steps into rules, each key once: a rule for every step taken, and only for those.\<close>

definition dedup_rule :: "int \<Rightarrow> string list \<times> traverse_rule list \<Rightarrow> string \<times> step_direction option \<Rightarrow> string list \<times> traverse_rule list" where
  "dedup_rule depth = (\<lambda>(seen, rules) (p, d). if step_key p d \<in> set seen then (seen, rules)
     else (sadd (step_key p d) seen, rules @ [ruleFor p d depth]))"

lemma dedup_rules:
  assumes "\<And>p d. step_key p d \<in> set (fst acc) \<Longrightarrow> ruleFor p d depth \<in> set (snd acc)"
  shows "set (snd (foldl (dedup_rule depth) acc steps)) = set (snd acc) \<union> (\<lambda>(p, d). ruleFor p d depth) ` set steps"
  using assms
proof (induction steps arbitrary: acc)
  case (Cons x steps)
  obtain seen rules p d where [simp]: "acc = (seen, rules)" "x = (p, d)" by (metis surj_pair)
  have "step_key p' d' \<in> set (fst (dedup_rule depth acc x)) \<Longrightarrow> ruleFor p' d' depth \<in> set (snd (dedup_rule depth acc x))" for p' d'
    using Cons.prems ruleFor_key[of p' d' p d depth] by (auto simp: dedup_rule_def)
  from Cons.IH[OF this] Cons.prems[of p d] show ?case by (auto simp: dedup_rule_def)
qed simp

lemma scope_rules_dedup:
  "foldl scope_rule_step acc bs = foldl (dedup_rule UNBOUNDED_DEPTH) acc
     (map (\<lambda>sc. (sr_viaPredicate sc, sr_direction sc)) (List.map_filter scope_of bs))"
  by (induction bs arbitrary: acc)
    (auto simp: scope_rule_step_def dedup_rule_def List.map_filter_simps Let_def split: option.split prod.split)

lemma position_rules_dedup:
  "foldl (walk_rule_step position) acc walks = foldl (dedup_rule 1) acc
     (map (\<lambda>st. (rs_predicate st, rs_direction st)) (List.map_filter (\<lambda>w. step_at w position) walks))"
  by (induction walks arbitrary: acc)
    (auto simp: walk_rule_step_def dedup_rule_def List.map_filter_simps Let_def split: option.split prod.split)

lemma set_scopeRules:
  "set (scopeRules sp) = {ruleFor (sr_viaPredicate sc) (sr_direction sc) UNBOUNDED_DEPTH | sc b.
     b \<in> set (specificationBindings sp) \<and> scope_of b = Some sc}"
  unfolding scopeRules_def scope_rules_dedup
  by (subst dedup_rules) (force simp: List.map_filter_def image_iff)+

lemma set_position_rules:
  "set (position_rules walks position) =
     {ruleFor (rs_predicate (w ! position)) (rs_direction (w ! position)) 1 | w. w \<in> set walks \<and> position < length w}"
  unfolding position_rules_def position_rules_dedup
  by (subst dedup_rules) (force simp: List.map_filter_def image_iff step_at_def split: if_splits)+

definition walk_rule :: "relation_step \<Rightarrow> traverse_rule" where
  "walk_rule st = ruleFor (rs_predicate st) (rs_direction st) 1"

lemma deepest_bound:
  "w \<in> set walks \<or> length w \<le> n \<Longrightarrow> length w \<le> foldl (\<lambda>longest walk. max longest (length walk)) n walks"
proof (induction walks arbitrary: n)
  case (Cons a walks)
  from Cons.IH[of "max n (length a)"] Cons.prems show ?case by (auto simp: le_max_iff_disj)
qed simp

lemma subseq_concat: "list_all2 (\<lambda>x ys. x \<in> set ys) xs yss \<Longrightarrow> subseq xs (concat yss)"
proof (induction xs yss rule: list_all2_induct)
  case (Cons x xs ys yss)
  then have "subseq [x] ys" by (simp add: subseq_singleton_left)
  from list_emb_append_mono[OF this Cons(3)] show ?case by simp
qed simp

lemma walk_subseq:
  assumes "w \<in> set walks"
  shows "subseq (map walk_rule w) (walkRules walks)"
proof -
  let ?n = "foldl (\<lambda>longest walk. max longest (length walk)) 0 walks"
  have n: "length w \<le> ?n" using assms by (intro deepest_bound) simp
  have "list_all2 (\<lambda>x ys. x \<in> set ys) (map walk_rule w) (map (position_rules walks) [0..<length w])"
    using assms by (auto simp: list_all2_conv_all_nth set_position_rules walk_rule_def)
  then have "subseq (map walk_rule w) (concat (map (position_rules walks) [0..<length w]))" by (rule subseq_concat)
  also have "subseq \<dots> (concat (map (position_rules walks) [0..<?n]))"
    using upt_add_eq_append[of 0 "length w" "?n - length w"] n by (intro prefix_imp_subseq) simp
  finally show ?thesis by (simp add: walkRules_def Let_def)
qed

subsection \<open>What the selector asks for\<close>

lemma selector_fields [simp]:
  "sl_traverse (subscriptionForSpecification sp scopeId) = Some (traversal sp)"
  "sl_types (subscriptionForSpecification sp scopeId) = Some (drawnTypes sp scopeId)"
  "sl_ids (subscriptionForSpecification sp scopeId) = Some (set_of ([PAGE_ROLE_ID, DISPLAY_SETTINGS_ROLE_ID]
     @ (case scopeId of Some i \<Rightarrow> if i \<noteq> [] then [i] else [] | None \<Rightarrow> [])
     @ fst (namedThings sp) @ (if offersLevers sp then [PROPERTY_NAME_ROLE] else []) @ DECISION_ROLES_A_DETAIL_CARD_READS))"
  "sl_names (subscriptionForSpecification sp scopeId) = Some (set_of ([IS_PREDICATE, BINDS_PREDICATE_NAME]
     @ written_ones (map tr_predicate (traversal sp)) @ snd (namedThings sp)))"
  "sl_boundTypes (subscriptionForSpecification sp scopeId)
     = Some (PAGE_ROLE_ID # (if offersLevers sp then [PROPERTY_NAME_ROLE] else []))"
  by (simp_all add: subscriptionForSpecification_def traversal_def Let_def split_beta NAVIGATION_AND_SETTINGS_def
      empty_selector_def list_or_empty_def)



lemma roles_are_identifiers:
  "list_all is_identifier (PAGE_ROLE_ID # DISPLAY_SETTINGS_ROLE_ID # PROPERTY_NAME_ROLE # DECISION_ROLES_A_DETAIL_CARD_READS)"
  by code_simp

text \<open>Whatever a specification names, the platform is sent only identifiers as ids, none twice, which it would
  refuse otherwise: a reference that is no identifier goes to the names.\<close>

lemma ids_are_identifiers:
  assumes "scopeId = None \<or> scopeId = Some [] \<or> (\<exists>i. scopeId = Some i \<and> is_identifier i)"
  shows "list_all is_identifier (the (sl_ids (subscriptionForSpecification sp scopeId))) \<and>
    distinct (the (sl_ids (subscriptionForSpecification sp scopeId))) \<and>
    list_all is_identifier (the (sl_boundTypes (subscriptionForSpecification sp scopeId)))"
  using assms roles_are_identifiers
  by (auto simp: list_all_iff namedThings_def Let_def split: option.splits if_splits)

text \<open>What a binding nests is read as much as the binding itself.\<close>

lemma withNested_self [simp]: "b \<in> set (withNested b)"
  by (simp add: withNested.simps[of b])

lemma withNested_closed: "b' \<in> set (withNested b) \<Longrightarrow> b'' \<in> set (inner_bindings b') \<Longrightarrow> b'' \<in> set (withNested b)"
proof (induction b rule: withNested.induct)
  case (1 b)
  show ?case
  proof (cases "b' = b")
    case True
    with 1 show ?thesis by (force simp: withNested.simps[of b])
  next
    case False
    with 1 show ?thesis by (auto simp: withNested.simps[of b])
  qed
qed

lemma nested_bindings_read:
  "b \<in> set (specificationBindings sp) \<Longrightarrow> b' \<in> set (inner_bindings b) \<Longrightarrow> b' \<in> set (specificationBindings sp)"
  by (auto simp: specificationBindings_def bindingsOf_def dest: withNested_closed)

subsection \<open>A page\<close>

definition step_along :: "string \<Rightarrow> step_direction option \<Rightarrow> relation_step" where
  "step_along p d = \<lparr>rs_predicate = p, rs_direction = d, rs_archetype = None, rs_inState = None, rs_notInState = None\<rparr>"

text \<open>A roster of devices with a computed column two steps away, narrowed to the selected entity.\<close>

definition sample_roster :: binding where
  "sample_roster = ThingList ''Device'' (Some \<lparr>sr_viaPredicate = ''in'', sr_direction = None\<rparr>) None
     (Some [(''site'', Some (Related [step_along ''at'' None, step_along ''owns'' (Some In)] (Some ''Base'') None))]) None None"

definition sample_page :: dashboard_specification where
  "sample_page = \<lparr>sp_title = ''Devices'', sp_subtitle = None, sp_icon = None, sp_compare = None,
     sp_sections = [\<lparr>se_title = None, se_hint = None, se_layout = None, se_widths = None,
       se_widgets = [\<lparr>wg_kind = Table \<lparr>tw_title = None, tw_hint = None, tw_columns = [], tw_rows = sample_roster,
         tw_minWidth = None, tw_sortKey = None, tw_sortDirection = None, tw_visibleRows = None, tw_searchable = None,
         tw_searchKeys = None, tw_rowDetail = None\<rparr>, wg_placement = None\<rparr>],
       se_theme = None, se_facts = None, se_tab = None\<rparr>],
     sp_refreshSeconds = None, sp_detail = None, sp_translations = None, sp_composed = None, sp_designed = None\<rparr>"

lemma sample_bindings:
  "specificationBindings sample_page = [sample_roster, Related [step_along ''at'' None, step_along ''owns'' (Some In)] (Some ''Base'') None]"
  by (simp add: sample_page_def specificationBindings_def bindingsOf_def slotsOf_def widgetBindings_def written_ones_def
      withNested.simps inner_bindings_def computed_of_def sample_roster_def list_or_empty_def List.map_filter_simps)

lemma sample_detail [simp]: "sp_detail sample_page = None"
  by (simp add: sample_page_def)

lemma sample_walks: "specificationWalks sample_page = [[step_along ''at'' None, step_along ''owns'' (Some In)]]"
  by (simp add: specificationWalks_def sample_bindings bindingWalk_def written_ones_def List.map_filter_simps sample_roster_def
      detailWalks_def)



theorem ids_are_identifiers_witness:
  "list_all is_identifier (the (sl_ids (subscriptionForSpecification sample_page (Some PAGE_ROLE_ID))))"
  using ids_are_identifiers[of "Some PAGE_ROLE_ID" sample_page] roles_are_identifiers by simp

end
