(* ===== verification/GridLayout.thy ===== *)
theory GridLayout
  imports Dashboards
begin

section \<open>Where the widgets of a section stand\<close>

text \<open>
  \<open>src/utils/gridLayout.ts\<close>. Columns, rows and sizes are whole numbers; the stated widths of a split are
  exact fractions, so the rounding of floating-point division is not represented. A widget that a section's
  widths leave without one stands nowhere: its placement, and those after it, are no numbers, and the
  placements are \<open>None\<close>.
\<close>

subsection \<open>Sizes\<close>

definition GRID_ROW_HEIGHT :: int where
  "GRID_ROW_HEIGHT = 40"

definition GRID_GAP :: int where
  "GRID_GAP = 14"

definition STRIP_COLUMNS :: int where
  "STRIP_COLUMNS = 4"

definition SPARK_ROWS :: int where
  "SPARK_ROWS = 2"

definition TABLE_ROWS_ASSUMED :: int where
  "TABLE_ROWS_ASSUMED = 8"

definition TABLE_CHROME_PIXELS :: int where
  "TABLE_CHROME_PIXELS = 120"

definition TABLE_ROW_PIXELS :: int where
  "TABLE_ROW_PIXELS = 36"

definition FORM_CHROME_PIXELS :: int where
  "FORM_CHROME_PIXELS = 110"

definition FORM_FIELD_PIXELS :: int where
  "FORM_FIELD_PIXELS = 50"

definition MULTICHOICE_FIELDS :: int where
  "MULTICHOICE_FIELDS = 3"

text \<open>Width and height.\<close>

fun DEFAULT_SIZE :: "widget_kind \<Rightarrow> int \<times> int" where
  "DEFAULT_SIZE (Kpi k) = (3, 3)"
| "DEFAULT_SIZE (Funnel f) = (6, 8)"
| "DEFAULT_SIZE (Bullet b) = (6, 6)"
| "DEFAULT_SIZE (Table t) = (6, 8)"
| "DEFAULT_SIZE (Gantt g) = (12, 7)"
| "DEFAULT_SIZE (Leaderboard l) = (6, 7)"
| "DEFAULT_SIZE (VerdictList v) = (6, 5)"
| "DEFAULT_SIZE (WorkingList w) = (6, 5)"
| "DEFAULT_SIZE (ExceptionBar e) = (12, 3)"
| "DEFAULT_SIZE (RangeBar r) = (6, 7)"
| "DEFAULT_SIZE (LineSeries l) = (6, 7)"
| "DEFAULT_SIZE (Heatmap h) = (6, 7)"
| "DEFAULT_SIZE (StackedShares s) = (6, 4)"
| "DEFAULT_SIZE (DivergingBar d) = (6, 5)"
| "DEFAULT_SIZE (SmallMultiples m) = (6, 6)"
| "DEFAULT_SIZE (Action a) = (6, 8)"
| "DEFAULT_SIZE (Form f) = (4, 8)"

text \<open>\<open>Math.ceil\<close> of a quotient of whole numbers.\<close>

definition rowsFor :: "int \<Rightarrow> int" where
  "rowsFor pixels = max 1 (- ((- (pixels + GRID_GAP)) div (GRID_ROW_HEIGHT + GRID_GAP)))"

definition field_rows :: "asked_value \<Rightarrow> int" where
  "field_rows field = (if av_kind field = Some AskMultichoice then MULTICHOICE_FIELDS else 1)"

definition defaultSizeOf :: "widget \<Rightarrow> int \<times> int" where
  "defaultSizeOf w = (case DEFAULT_SIZE (wg_kind w) of (width, height) \<Rightarrow>
     (case wg_kind w of
       Kpi k \<Rightarrow> if kw_spark k \<noteq> None then (width, height + SPARK_ROWS) else (width, height)
     | Table t \<Rightarrow> (let rows = (case tw_visibleRows t of Some n \<Rightarrow> n | None \<Rightarrow> TABLE_ROWS_ASSUMED) in
         (width, rowsFor (TABLE_CHROME_PIXELS + rows * TABLE_ROW_PIXELS)))
     | Form f \<Rightarrow> (let fields = foldl (\<lambda>sum field. sum + field_rows field) 0 (fm_fields f) in
         (width, rowsFor (FORM_CHROME_PIXELS + fields * FORM_FIELD_PIXELS)))
     | _ \<Rightarrow> (width, height)))"

definition is_kpi :: "widget \<Rightarrow> bool" where
  "is_kpi w = (case wg_kind w of Kpi k \<Rightarrow> True | _ \<Rightarrow> False)"

definition layoutOf :: "dashboard_section \<Rightarrow> section_layout" where
  "layoutOf s = (case se_layout s of Some l \<Rightarrow> l | None \<Rightarrow> if list_all is_kpi (se_widgets s) then KpiStrip else Single)"

subsection \<open>Splitting the columns\<close>

definition exact_shares :: "rat list \<Rightarrow> rat list" where
  "exact_shares widths = (let total = sum_list widths in
     map (\<lambda>width. if total > 0 then width / total * rat_of_int GRID_COLUMNS
                  else rat_of_int GRID_COLUMNS / rat_of_nat (length widths)) widths)"

text \<open>The wider fraction first, the earlier of two alike first.\<close>

definition by_fraction :: "nat \<times> rat \<Rightarrow> nat \<times> rat \<Rightarrow> int" where
  "by_fraction = (\<lambda>(i, f) (j, g). if g - f \<noteq> 0 then (if g - f < 0 then -1 else 1) else int i - int j)"

fun grow :: "nat list \<Rightarrow> int \<Rightarrow> int list \<Rightarrow> int list \<times> int" where
  "grow [] left scaled = (scaled, left)"
| "grow (i # is) left scaled = (if left \<le> 0 then (scaled, left) else grow is (left - 1) (scaled[i := scaled ! i + 1]))"

fun first_index_of :: "'a \<Rightarrow> 'a list \<Rightarrow> nat" where
  "first_index_of x [] = 0"
| "first_index_of x (y # ys) = (if x = y then 0 else Suc (first_index_of x ys))"

function shrink :: "int \<Rightarrow> int list \<Rightarrow> int list" where
  "shrink left scaled = (if 0 \<le> left then scaled
     else (let widest = first_index_of (Max (set scaled)) scaled in shrink (left + 1) (scaled[widest := scaled ! widest - 1])))"
  by pat_completeness auto
termination by (relation "measure (\<lambda>(left, _). nat (- left))") auto

declare shrink.simps [simp del]

definition splitWidths :: "rat list \<Rightarrow> int list" where
  "splitWidths widths = (if widths = [] then []
     else (let exact = exact_shares widths;
               scaled = map (\<lambda>share. max 1 \<lfloor>share\<rfloor>) exact;
               byFraction = sort_by by_fraction (zip [0..<length exact] (map (\<lambda>share. share - rat_of_int \<lfloor>share\<rfloor>) exact));
               (grown, left) = grow (map fst byFraction) (GRID_COLUMNS - sum_list scaled) scaled
           in shrink left grown))"

subsection \<open>Placements\<close>

definition reading_before :: "placement \<times> nat \<Rightarrow> placement \<times> nat \<Rightarrow> int" where
  "reading_before = (\<lambda>(a, i) (b, j). if pl_row a - pl_row b \<noteq> 0 then pl_row a - pl_row b
     else if pl_column a - pl_column b \<noteq> 0 then pl_column a - pl_column b else int i - int j)"

definition readingOrder :: "placement list \<Rightarrow> nat list" where
  "readingOrder placements = map snd (sort_by reading_before (zip placements [0..<length placements]))"

definition bottomOf :: "placement list \<Rightarrow> int" where
  "bottomOf placements = foldl (\<lambda>bottom p. max bottom (pl_row p + pl_height p)) 0 placements"

definition strip_placements :: "(int \<times> int) list \<Rightarrow> placement list" where
  "strip_placements sizes = (let across = min (int (length sizes)) STRIP_COLUMNS; width = GRID_COLUMNS div across in
     map (\<lambda>(index, sz). \<lparr>pl_column = (int index mod across) * width, pl_row = (int index div across) * snd sz,
            pl_width = width, pl_height = snd sz\<rparr>) (zip [0..<length sizes] sizes))"

fun split_placements :: "int \<Rightarrow> int list \<Rightarrow> (int \<times> int) list \<Rightarrow> placement list option" where
  "split_placements column widths [] = Some []"
| "split_placements column [] (sz # sizes) = None"
| "split_placements column (w # widths) (sz # sizes) =
     map_option (\<lambda>ps. \<lparr>pl_column = column, pl_row = 0, pl_width = w, pl_height = snd sz\<rparr> # ps)
       (split_placements (column + w) widths sizes)"

definition stack_one :: "section_layout \<Rightarrow> placement list \<Rightarrow> widget \<Rightarrow> placement list" where
  "stack_one layout placed w = (let own = (if layout = Grid then wg_placement w else None) in
     placed @ [case own of Some p \<Rightarrow> p
       | None \<Rightarrow> \<lparr>pl_column = 0, pl_row = bottomOf placed, pl_width = GRID_COLUMNS, pl_height = snd (defaultSizeOf w)\<rparr>])"

definition placementsOf :: "dashboard_section \<Rightarrow> placement list option" where
  "placementsOf s = (let layout = layoutOf s; sizes = map defaultSizeOf (se_widgets s) in
     if layout = KpiStrip then Some (strip_placements sizes)
     else if layout = Split then split_placements 0
       (splitWidths (case se_widths s of Some ws \<Rightarrow> ws | None \<Rightarrow> map (\<lambda>_. 1) (se_widgets s))) sizes
     else Some (foldl (stack_one layout) [] (se_widgets s)))"

subsection \<open>What a section is drawn with\<close>

text \<open>\<open>num_text\<close> is the text of a stated width.\<close>

datatype cell_style = Unstyled | OrderedAt nat | CellAt string string

record section_grid =
  sg_gridTemplateColumns :: string
  sg_gridAutoRows :: "string option"
  sg_cells :: "cell_style list"

definition int_text :: "int \<Rightarrow> string" where
  "int_text n = num_string (js_int n)"

definition span_text :: "int \<Rightarrow> int \<Rightarrow> string" where
  "span_text start count = int_text (start + 1) @ '' / span '' @ int_text count"

definition sectionGrid :: "(rat \<Rightarrow> string) \<Rightarrow> dashboard_section \<Rightarrow> bool \<Rightarrow> section_grid option" where
  "sectionGrid num_text s wide =
     (let layout = layoutOf s; none = map (\<lambda>_. Unstyled) (se_widgets s);
          plain_column = \<lparr>sg_gridTemplateColumns = ''minmax(0, 1fr)'', sg_gridAutoRows = None, sg_cells = none\<rparr>
      in if \<not> wide then
           (if layout \<noteq> Grid then Some plain_column
            else map_option (\<lambda>ps. plain_column\<lparr>sg_cells := foldl (\<lambda>cells (position, i). cells[i := OrderedAt position]) none
                   (zip [0..<length ps] (readingOrder ps))\<rparr>) (placementsOf s))
         else (case layout of
           Grid \<Rightarrow> map_option (\<lambda>ps. \<lparr>sg_gridTemplateColumns = ''repeat('' @ int_text GRID_COLUMNS @ '', minmax(0, 1fr))'',
               sg_gridAutoRows = Some (int_text GRID_ROW_HEIGHT @ ''px''),
               sg_cells = map (\<lambda>p. CellAt (span_text (pl_column p) (pl_width p)) (span_text (pl_row p) (pl_height p))) ps\<rparr>)
             (placementsOf s)
         | KpiStrip \<Rightarrow> Some (plain_column\<lparr>sg_gridTemplateColumns :=
               ''repeat('' @ int_text (min (int (length (se_widgets s))) STRIP_COLUMNS) @ '', minmax(0, 1fr))''\<rparr>)
         | Split \<Rightarrow> Some (plain_column\<lparr>sg_gridTemplateColumns := join '' '' (map (\<lambda>w. ''minmax(0, '' @ num_text w @ ''fr)'')
               (case se_widths s of Some ws \<Rightarrow> ws | None \<Rightarrow> map (\<lambda>_. 1) (se_widgets s)))\<rparr>)
         | Single \<Rightarrow> Some plain_column))"

subsection \<open>The columns of a split add up\<close>

lemma sum_list_update: "i < length xs \<Longrightarrow> sum_list (xs[i := y]) = sum_list xs - xs ! i + (y :: int)"
  by (induction xs arbitrary: i) (auto split: nat.split)

lemma grow_sum:
  assumes "left \<le> int (length is)" "\<forall>i \<in> set is. i < length scaled"
  shows "sum_list (fst (grow is left scaled)) + snd (grow is left scaled) = sum_list scaled + left
    \<and> length (fst (grow is left scaled)) = length scaled \<and> snd (grow is left scaled) \<le> 0
    \<and> (list_all (\<lambda>w. 1 \<le> w) scaled \<longrightarrow> list_all (\<lambda>w. 1 \<le> w) (fst (grow is left scaled)))"
  using assms
proof (induction "is" left scaled rule: grow.induct)
  case (2 i "is" left scaled)
  show ?case
  proof (cases "left \<le> 0")
    case False
    have "list_all (\<lambda>w. 1 \<le> w) scaled \<Longrightarrow> list_all (\<lambda>w. 1 \<le> w) (scaled[i := scaled ! i + 1])"
      using 2(3) by (auto simp: list_all_length nth_list_update)
    with 2 False show ?thesis by (simp add: sum_list_update)
  qed simp
qed simp

lemma first_index_member: "x \<in> set xs \<Longrightarrow> first_index_of x xs < length xs \<and> xs ! first_index_of x xs = x"
  by (induction xs) auto

lemma shrink_sum:
  assumes "scaled \<noteq> []" "left \<le> 0"
  shows "sum_list (shrink left scaled) = sum_list scaled + left \<and> length (shrink left scaled) = length scaled"
  using assms
proof (induction left scaled rule: shrink.induct)
  case (1 left scaled)
  let ?i = "first_index_of (Max (set scaled)) scaled"
  have "?i < length scaled" using first_index_member[of "Max (set scaled)" scaled] 1(2) by simp
  then show ?case using 1 by (cases "left = 0") (auto simp: shrink.simps[of left] shrink.simps[of 0] Let_def sum_list_update)
qed

lemma shrink_floor:
  assumes "scaled \<noteq> []" "list_all (\<lambda>w. k \<le> w) scaled" "k * int (length scaled) \<le> sum_list scaled + left"
  shows "list_all (\<lambda>w. k \<le> w) (shrink left scaled)"
  using assms
proof (induction left scaled rule: shrink.induct)
  case (1 left scaled)
  let ?m = "Max (set scaled)"
  let ?i = "first_index_of ?m scaled"
  have i: "?i < length scaled" "scaled ! ?i = ?m" using first_index_member[of ?m scaled] 1(2) by simp_all
  show ?case
  proof (cases "0 \<le> left")
    case False
    have "sum_list scaled \<le> ?m * int (length scaled)"
      using sum_list_mono[of scaled "\<lambda>x. x" "\<lambda>_. ?m"] by (simp add: sum_list_triv mult.commute)
    then have "k * int (length scaled) < ?m * int (length scaled)" using 1(4) False by linarith
    then have "k < ?m" using mult_less_cancel_right by (smt (verit) of_nat_0_le_iff)
    then have "list_all (\<lambda>w. k \<le> w) (scaled[?i := scaled ! ?i - 1])"
      using 1(3) i by (auto simp: list_all_length nth_list_update)
    then show ?thesis using 1 False i by (simp add: shrink.simps[of left] Let_def sum_list_update)
  qed (use 1 in \<open>simp add: shrink.simps[of left]\<close>)
qed

lemma sum_exact_shares: "widths \<noteq> [] \<Longrightarrow> sum_list (exact_shares widths) = 12"
proof -
  have scaled: "sum_list (map (\<lambda>w. w / t * c) ws) = sum_list ws / t * c" for t c :: rat and ws
    by (induction ws) (auto simp: add_divide_distrib distrib_right)
  assume ne: "widths \<noteq> []"
  show ?thesis
  proof (cases "0 < sum_list widths")
    case True
    then have "exact_shares widths = map (\<lambda>w. w / sum_list widths * 12) widths" by (simp add: exact_shares_def GRID_COLUMNS_def Let_def)
    with scaled[of "sum_list widths" 12 widths] True show ?thesis by (simp only:) simp
  next
    case False
    then have "exact_shares widths = map (\<lambda>w. 12 / rat_of_nat (length widths)) widths"
      by (simp add: exact_shares_def GRID_COLUMNS_def Let_def)
    with ne show ?thesis by (simp add: sum_list_triv)
  qed
qed

lemma sum_floor: "xs \<noteq> [] \<Longrightarrow> sum_list xs - rat_of_nat (length xs) < rat_of_int (sum_list (map floor xs))"
proof (induction xs)
  case (Cons x xs)
  have "x - 1 < rat_of_int \<lfloor>x\<rfloor>" by linarith
  with Cons show ?case by (cases "xs = []") auto
qed simp

lemma splitWidths_facts:
  assumes "widths \<noteq> []"
  shows "length (splitWidths widths) = length widths \<and> sum_list (splitWidths widths) = GRID_COLUMNS
    \<and> (\<forall>k \<le> 1. k * int (length widths) \<le> 12 \<longrightarrow> list_all (\<lambda>w. k \<le> w) (splitWidths widths))"
proof -
  let ?exact = "exact_shares widths"
  let ?scaled = "map (\<lambda>share. max 1 \<lfloor>share\<rfloor>) ?exact"
  let ?order = "map fst (sort_by by_fraction (zip [0..<length ?exact] (map (\<lambda>share. share - rat_of_int \<lfloor>share\<rfloor>) ?exact)))"
  let ?left = "12 - sum_list ?scaled"
  have len: "length ?exact = length widths" by (simp add: exact_shares_def Let_def)
  then have ne: "?exact \<noteq> []" using assms by auto
  have "sum_list (map floor ?exact) \<le> sum_list ?scaled" by (intro sum_list_mono) simp
  moreover have "12 - rat_of_nat (length widths) < rat_of_int (sum_list (map floor ?exact))"
    using sum_floor[OF ne] sum_exact_shares[OF assms] len by simp
  then have "rat_of_int (12 - int (length widths)) < rat_of_int (sum_list (map floor ?exact))" by simp
  then have "12 - int (length widths) < sum_list (map floor ?exact)" by (simp only: of_int_less_iff)
  ultimately have left: "?left \<le> int (length ?order)" using len by simp
  have inside: "\<forall>i \<in> set ?order. i < length ?scaled" by (auto dest: set_zip_leftD)
  obtain grown rest where g: "grow ?order ?left ?scaled = (grown, rest)" by fastforce
  from grow_sum[OF left inside] g len
  have grown: "sum_list grown + rest = 12" "length grown = length widths" "rest \<le> 0" "list_all (\<lambda>w. 1 \<le> w) grown"
    by (auto simp: list_all_iff)
  have split: "splitWidths widths = shrink rest grown"
    using assms g by (simp add: splitWidths_def Let_def GRID_COLUMNS_def)
  have "grown \<noteq> []" using grown(2) assms by auto
  moreover have "list_all (\<lambda>w. k \<le> w) grown" if "k \<le> 1" for k using grown(4) that by (auto simp: list_all_iff)
  ultimately show ?thesis using shrink_sum[of grown rest] shrink_floor[of grown _ rest] grown split
    by (auto simp: GRID_COLUMNS_def)
qed

text \<open>However a split states its widths, the columns it is drawn in add up to the grid's twelve exactly, one
  number per widget; and while there are no more widgets than columns every widget keeps at least one.\<close>

lemma splitWidths_exact:
  assumes "widths \<noteq> []"
  shows "length (splitWidths widths) = length widths \<and> sum_list (splitWidths widths) = GRID_COLUMNS
    \<and> (length widths \<le> 12 \<longrightarrow> list_all (\<lambda>w. 1 \<le> w) (splitWidths widths))"
  using splitWidths_facts[OF assms] by auto

theorem splitWidths_exact_witness:
  "length (splitWidths [1, 1, 5 / 2]) = 3 \<and> sum_list (splitWidths [1, 1, 5 / 2]) = GRID_COLUMNS
   \<and> list_all (\<lambda>w. 1 \<le> w) (splitWidths [1, 1, 5 / 2])"
  using splitWidths_exact[of "[1, 1, 5 / 2]"] by simp

text \<open>Past twelve widgets one is left without a column.\<close>

lemma thirteenth_widget_unseen: "\<not> list_all (\<lambda>w. 1 \<le> w) (splitWidths (replicate 13 1))"
proof
  assume "list_all (\<lambda>w. 1 \<le> w) (splitWidths (replicate 13 1))"
  then have "13 \<le> sum_list (splitWidths (replicate 13 1))"
    using sum_list_mono[of "splitWidths (replicate 13 1)" "\<lambda>_. 1" "\<lambda>w. w"] splitWidths_facts[of "replicate 13 1"]
    by (simp add: sum_list_triv list_all_iff)
  then show False using splitWidths_facts[of "replicate 13 1"] by (simp add: GRID_COLUMNS_def)
qed

subsection \<open>Widgets do not cover one another\<close>

definition overlap :: "placement \<Rightarrow> placement \<Rightarrow> bool" where
  "overlap p q \<longleftrightarrow> pl_column p < pl_column q + pl_width q \<and> pl_column q < pl_column p + pl_width p
     \<and> pl_row p < pl_row q + pl_height q \<and> pl_row q < pl_row p + pl_height p"

definition apart :: "placement list \<Rightarrow> bool" where
  "apart ps \<longleftrightarrow> sorted_wrt (\<lambda>p q. \<not> overlap p q) ps"

definition in_columns :: "placement \<Rightarrow> bool" where
  "in_columns p \<longleftrightarrow> 0 \<le> pl_column p \<and> pl_column p + pl_width p \<le> GRID_COLUMNS"

lemma split_placements_apart:
  assumes "length widths = length sizes" "list_all (\<lambda>w. 0 \<le> w) widths"
  shows "\<exists>ps. split_placements column widths sizes = Some ps \<and> length ps = length sizes \<and> apart ps
    \<and> (\<forall>p \<in> set ps. column \<le> pl_column p \<and> pl_column p + pl_width p \<le> column + sum_list widths)"
  using assms
proof (induction column widths sizes rule: split_placements.induct)
  case (3 column w widths sz sizes)
  then obtain ps where ps: "split_placements (column + w) widths sizes = Some ps" "length ps = length sizes" "apart ps"
    "\<forall>p \<in> set ps. column + w \<le> pl_column p \<and> pl_column p + pl_width p \<le> column + w + sum_list widths" by auto
  have "0 \<le> sum_list widths" using 3(3) by (simp add: list_all_iff sum_list_nonneg)
  with ps 3(3) show ?case by (force simp: apart_def overlap_def)
qed (auto simp: apart_def)

lemma bottomOf_append: "bottomOf (ps @ [p]) = max (bottomOf ps) (pl_row p + pl_height p)"
  by (simp add: bottomOf_def)

lemma below_bottom: "p \<in> set ps \<Longrightarrow> pl_row p + pl_height p \<le> bottomOf ps"
  by (induction ps rule: rev_induct) (auto simp: bottomOf_append)

lemma stacked_apart:
  assumes "layout \<noteq> Grid"
  shows "length (foldl (stack_one layout) [] ws) = length ws \<and> apart (foldl (stack_one layout) [] ws)
    \<and> (\<forall>p \<in> set (foldl (stack_one layout) [] ws). in_columns p)"
proof (induction ws rule: rev_induct)
  case (snoc w ws)
  then show ?case using assms
    by (auto simp: stack_one_def Let_def apart_def sorted_wrt_append overlap_def in_columns_def GRID_COLUMNS_def
        dest: below_bottom)
qed (simp add: apart_def)

lemma strip_cells_apart:
  assumes "0 < across" "0 \<le> h" "0 \<le> w" "i \<noteq> j"
  shows "\<not> overlap \<lparr>pl_column = (int i mod across) * w, pl_row = (int i div across) * h, pl_width = w, pl_height = h\<rparr>
                 \<lparr>pl_column = (int j mod across) * w, pl_row = (int j div across) * h, pl_width = w, pl_height = h\<rparr>"
proof -
  have step: "a * c + c \<le> b * c" if "a < b" "0 \<le> c" for a b c :: int
    using mult_right_mono[of "a + 1" b c] that by (simp add: distrib_right)
  show ?thesis
  proof (cases "int i mod across = int j mod across")
    case True
    with assms(4) have "int i div across \<noteq> int j div across" by (metis div_mult_mod_eq of_nat_eq_iff)
    then consider "int i div across < int j div across" | "int j div across < int i div across" by linarith
    then show ?thesis using step[OF _ assms(2)] by cases (fastforce simp: overlap_def)+
  next
    case False
    then consider "int i mod across < int j mod across" | "int j mod across < int i mod across" by linarith
    then show ?thesis using step[OF _ assms(3)] by cases (fastforce simp: overlap_def)+
  qed
qed

lemma strip_columns:
  assumes "0 < n"
  shows "let across = min (int n) STRIP_COLUMNS in 0 < across \<and> across * (GRID_COLUMNS div across) = GRID_COLUMNS"
proof -
  have "min (int n) 4 \<in> {1, 2, 3, 4}" using assms by auto
  then show ?thesis by (auto simp: Let_def STRIP_COLUMNS_def GRID_COLUMNS_def)
qed

lemma strip_apart:
  assumes "\<forall>sz \<in> set sizes. snd sz = h" "0 \<le> h"
  shows "length (strip_placements sizes) = length sizes \<and> apart (strip_placements sizes)
    \<and> (\<forall>p \<in> set (strip_placements sizes). in_columns p)"
proof (cases "sizes = []")
  case False
  let ?across = "min (int (length sizes)) STRIP_COLUMNS"
  let ?w = "GRID_COLUMNS div ?across"
  have across: "0 < ?across" "?across * ?w = GRID_COLUMNS" using strip_columns[of "length sizes"] False by (simp_all add: Let_def)
  have w: "0 \<le> ?w" using across by (simp add: GRID_COLUMNS_def pos_imp_zdiv_nonneg_iff)
  have nth: "strip_placements sizes ! i = \<lparr>pl_column = (int i mod ?across) * ?w, pl_row = (int i div ?across) * h,
      pl_width = ?w, pl_height = h\<rparr>" if "i < length sizes" for i
    using that assms(1) by (simp add: strip_placements_def Let_def)
  have len: "length (strip_placements sizes) = length sizes" by (simp add: strip_placements_def Let_def)
  have "apart (strip_placements sizes)"
    unfolding apart_def sorted_wrt_iff_nth_less
    using nth len strip_cells_apart[OF across(1) assms(2) w] by (simp add: less_imp_neq)
  moreover have "in_columns (strip_placements sizes ! i)" if "i < length sizes" for i
  proof -
    have "int i mod ?across + 1 \<le> ?across" using across(1) pos_mod_bound[of ?across "int i"] by linarith
    from mult_right_mono[OF this w] across(2) w across(1) show ?thesis
      by (simp add: nth[OF that] in_columns_def distrib_right)
  qed
  ultimately show ?thesis using len by (metis in_set_conv_nth)
qed (simp add: strip_placements_def apart_def)

lemma default_height_positive: "1 \<le> snd (defaultSizeOf w)"
  by (cases "wg_kind w") (auto simp: defaultSizeOf_def Let_def rowsFor_def SPARK_ROWS_def)

text \<open>C40. In every layout but the free grid the widgets of a section stand within the twelve columns and no two
  of them cover one another: a split whose widths are as many as its widgets, a stack, and a strip whose
  figures are equally tall.\<close>

theorem placements_apart:
  assumes "layoutOf s \<noteq> Grid"
    and "layoutOf s = KpiStrip \<Longrightarrow> \<forall>w \<in> set (se_widgets s). snd (defaultSizeOf w) = h"
    and "layoutOf s = Split \<Longrightarrow> \<forall>ws. se_widths s = Some ws \<longrightarrow> length ws = length (se_widgets s)"
  shows "\<exists>ps. placementsOf s = Some ps \<and> length ps = length (se_widgets s) \<and> apart ps \<and> (\<forall>p \<in> set ps. in_columns p)"
proof (cases "layoutOf s")
  case KpiStrip
  show ?thesis
  proof (cases "se_widgets s = []")
    case False
    then obtain w where "w \<in> set (se_widgets s)" by (cases "se_widgets s") auto
    then have "0 \<le> h" using assms(2)[OF KpiStrip] default_height_positive[of w] by auto
    with strip_apart[of "map defaultSizeOf (se_widgets s)" h] assms(2)[OF KpiStrip] KpiStrip show ?thesis
      by (simp add: placementsOf_def Let_def)
  qed (use KpiStrip in \<open>simp add: placementsOf_def strip_placements_def apart_def\<close>)
next
  case Split
  let ?ws = "case se_widths s of Some ws \<Rightarrow> ws | None \<Rightarrow> map (\<lambda>_. 1) (se_widgets s)"
  have len: "length ?ws = length (se_widgets s)" using assms(3)[OF Split] by (simp split: option.split)
  show ?thesis
  proof (cases "se_widgets s = []")
    case False
    with len have "?ws \<noteq> []" by auto
    from splitWidths_facts[OF this] len
    have "length (splitWidths ?ws) = length (map defaultSizeOf (se_widgets s))" "sum_list (splitWidths ?ws) = GRID_COLUMNS"
      "list_all (\<lambda>w. 0 \<le> w) (splitWidths ?ws)" by auto
    with split_placements_apart[of "splitWidths ?ws" "map defaultSizeOf (se_widgets s)" 0] Split show ?thesis
      by (auto simp: placementsOf_def Let_def in_columns_def)
  qed (use Split in \<open>simp add: placementsOf_def apart_def\<close>)
next
  case Single
  with stacked_apart[of Single "se_widgets s"] show ?thesis by (simp add: placementsOf_def Let_def)
qed (use assms(1) in simp)

definition sample_kpi :: "binding option \<Rightarrow> widget" where
  "sample_kpi spark = \<lparr>wg_kind = Kpi \<lparr>kw_title = ''Load'', kw_value = Const (js_int 1), kw_format = None, kw_unit = None,
     kw_target = None, kw_targetLabel = None, kw_direction = None, kw_delta = None, kw_spark = spark, kw_sparkBaseline = None,
     kw_sparkBaselineLabel = None, kw_footnote = None, kw_origin = None\<rparr>, wg_placement = None\<rparr>"

definition sample_section :: "section_layout option \<Rightarrow> widget list \<Rightarrow> dashboard_section" where
  "sample_section layout ws = \<lparr>se_title = None, se_hint = None, se_layout = layout, se_widths = None, se_widgets = ws,
     se_theme = None, se_facts = None, se_tab = None\<rparr>"

theorem placements_apart_witness:
  "\<exists>ps. placementsOf (sample_section None (replicate 5 (sample_kpi None))) = Some ps \<and> length ps = 5 \<and> apart ps"
proof -
  let ?s = "sample_section None (replicate 5 (sample_kpi None))"
  have "layoutOf ?s = KpiStrip" "\<forall>w \<in> set (se_widgets ?s). snd (defaultSizeOf w) = 3" "length (se_widgets ?s) = 5"
    by (simp_all add: sample_section_def sample_kpi_def layoutOf_def list_all_iff is_kpi_def defaultSizeOf_def)
  with placements_apart[of ?s 3] show ?thesis by auto
qed

text \<open>A strip of figures that are not equally tall is placed over itself: the second row starts where a row of the
  height of its own figure would, not under the tallest of the first.\<close>

lemma strip_covers_itself:
  "case placementsOf (sample_section None (sample_kpi (Some (Const (js_int 1))) # replicate 4 (sample_kpi None))) of
     Some ps \<Rightarrow> overlap (ps ! 0) (ps ! 4) | None \<Rightarrow> False"
  by (simp add: placementsOf_def sample_section_def layoutOf_def is_kpi_def sample_kpi_def defaultSizeOf_def
      strip_placements_def overlap_def STRIP_COLUMNS_def GRID_COLUMNS_def SPARK_ROWS_def Let_def numeral_eq_Suc upt_rec)

subsection \<open>Reading order\<close>

lemma reading_comparator: "comparator reading_before"
  by unfold_locales (auto simp: reading_before_def split: if_splits)

interpretation reading: comparator reading_before
  by (rule reading_comparator)

text \<open>The reading order lists every placement once, each after all that stand in a higher row, or in the same
  row further left.\<close>

theorem readingOrder_reads:
  "distinct (readingOrder ps) \<and> set (readingOrder ps) = {..<length ps} \<and>
   sorted_wrt (\<lambda>i j. pl_row (ps ! i) < pl_row (ps ! j) \<or>
     pl_row (ps ! i) = pl_row (ps ! j) \<and> pl_column (ps ! i) \<le> pl_column (ps ! j)) (readingOrder ps)"
proof (intro conjI)
  let ?z = "zip ps [0..<length ps]"
  show "distinct (readingOrder ps)" by (simp add: readingOrder_def)
  show "set (readingOrder ps) = {..<length ps}" by (force simp: readingOrder_def set_zip image_iff)
  have "sorted_wrt (\<lambda>a b. reading_before a b \<le> 0) (sort_by reading_before ?z)" by (rule reading.sorted_sort_by)
  moreover have "fst x = ps ! snd x" if "x \<in> set (sort_by reading_before ?z)" for x
    using that by (auto simp: set_zip)
  ultimately show "sorted_wrt (\<lambda>i j. pl_row (ps ! i) < pl_row (ps ! j) \<or>
     pl_row (ps ! i) = pl_row (ps ! j) \<and> pl_column (ps ! i) \<le> pl_column (ps ! j)) (readingOrder ps)"
    unfolding readingOrder_def sorted_wrt_map
    by (elim sorted_wrt_mono_rel[rotated]) (auto simp: reading_before_def split_beta split: if_splits)
qed

end
