(* ===== verification/DesignEdits.thy ===== *)
theory DesignEdits
  imports GridLayout "HOL-Library.Multiset"
begin

section \<open>The edits of the Design page\<close>

text \<open>
  \<open>src/utils/designEdits.ts\<close>: every edit as a function over the specification. Reading the widgets of a
  section that is not there raises, and moving a widget or a section that is not there leaves something that is
  neither: these are \<open>None\<close>. The writing of a page's own fields, where the required title can be taken away, is left out.
\<close>

record grid_item =
  gi_i :: string
  gi_x :: int
  gi_y :: int
  gi_w :: int
  gi_h :: int

definition withSection :: "dashboard_specification \<Rightarrow> nat \<Rightarrow> dashboard_section \<Rightarrow> dashboard_specification" where
  "withSection sp index next = sp\<lparr>sp_sections := map (\<lambda>(pos, section). if pos = index then next else section)
     (zip [0..<length (sp_sections sp)] (sp_sections sp))\<rparr>"

definition section_at :: "dashboard_specification \<Rightarrow> nat \<Rightarrow> dashboard_section option" where
  "section_at sp index = (if index < length (sp_sections sp) then Some (sp_sections sp ! index) else None)"

definition withWidgets :: "dashboard_specification \<Rightarrow> nat \<Rightarrow> widget list \<Rightarrow> dashboard_specification" where
  "withWidgets sp index widgets = (case section_at sp index of None \<Rightarrow> sp
     | Some s \<Rightarrow> withSection sp index (s\<lparr>se_widgets := widgets\<rparr>))"

definition withWidgetAdded :: "dashboard_specification \<Rightarrow> nat \<Rightarrow> widget \<Rightarrow> placement \<Rightarrow> dashboard_specification option" where
  "withWidgetAdded sp section w p = Option.bind (section_at sp section)
     (\<lambda>s. Some (withWidgets sp section (se_widgets s @ [w\<lparr>wg_placement := Some p\<rparr>])))"

text \<open>The placement at an index of a list that may be shorter, or have a hole there.\<close>

definition placement_at :: "placement option list \<Rightarrow> nat \<Rightarrow> placement option" where
  "placement_at ps index = (if index < length ps then ps ! index else None)"

definition placed_at :: "placement option list \<Rightarrow> nat \<times> widget \<Rightarrow> placement option" where
  "placed_at ps = (\<lambda>(index, w). case placement_at ps index of Some p \<Rightarrow> Some p | None \<Rightarrow> wg_placement w)"

definition withPlacements :: "dashboard_specification \<Rightarrow> nat \<Rightarrow> placement option list \<Rightarrow> dashboard_specification option" where
  "withPlacements sp section ps = Option.bind (section_at sp section) (\<lambda>s.
     let held = zip [0..<length (se_widgets s)] (se_widgets s) in
     if list_all (\<lambda>(index, w). wg_placement w = placed_at ps (index, w)) held then Some sp
     else Some (withWidgets sp section (map (\<lambda>(index, w). w\<lparr>wg_placement := placed_at ps (index, w)\<rparr>) held)))"

definition withWidgetRemoved :: "dashboard_specification \<Rightarrow> nat \<Rightarrow> nat \<Rightarrow> dashboard_specification option" where
  "withWidgetRemoved sp section index = Option.bind (section_at sp section) (\<lambda>s. Some (withWidgets sp section
     (map snd (filter (\<lambda>(pos, w). pos \<noteq> index) (zip [0..<length (se_widgets s)] (se_widgets s))))))"

definition withWidgetReplaced :: "dashboard_specification \<Rightarrow> nat \<Rightarrow> nat \<Rightarrow> widget \<Rightarrow> dashboard_specification option" where
  "withWidgetReplaced sp section index next = Option.bind (section_at sp section) (\<lambda>s. Some (withWidgets sp section
     (map (\<lambda>(pos, held). if pos = index then next else held) (zip [0..<length (se_widgets s)] (se_widgets s)))))"

definition withWidgetMoved ::
  "dashboard_specification \<Rightarrow> nat \<times> nat \<Rightarrow> nat \<Rightarrow> placement \<Rightarrow> dashboard_specification option" where
  "withWidgetMoved sp from toSection p = (case from of (section, index) \<Rightarrow>
     Option.bind (section_at sp section) (\<lambda>s. if length (se_widgets s) \<le> index then None
       else Option.bind (withWidgetRemoved sp section index) (\<lambda>sp'. withWidgetAdded sp' toSection (se_widgets s ! index) p)))"

definition withSectionAdded :: "dashboard_specification \<Rightarrow> dashboard_specification" where
  "withSectionAdded sp = sp\<lparr>sp_sections := sp_sections sp @ [\<lparr>se_title = None, se_hint = None, se_layout = Some Grid,
     se_widths = None, se_widgets = [], se_theme = None, se_facts = None, se_tab = None\<rparr>]\<rparr>"

definition withSectionRemoved :: "dashboard_specification \<Rightarrow> nat \<Rightarrow> dashboard_specification" where
  "withSectionRemoved sp index = sp\<lparr>sp_sections := map snd (filter (\<lambda>(pos, section). pos \<noteq> index)
     (zip [0..<length (sp_sections sp)] (sp_sections sp)))\<rparr>"

datatype move_direction = Earlier | Later

definition withSectionMoved :: "dashboard_specification \<Rightarrow> nat \<Rightarrow> move_direction \<Rightarrow> dashboard_specification option" where
  "withSectionMoved sp index direction =
     (let to = (if direction = Earlier then int index - 1 else int index + 1); sections = sp_sections sp in
      if to < 0 \<or> int (length sections) \<le> to then Some sp
      else if length sections \<le> index then None
      else Some (sp\<lparr>sp_sections := sections[index := sections ! nat to, nat to := sections ! index]\<rparr>))"

text \<open>An empty text takes the key away; a key the patch does not hold is kept.\<close>

definition written_text :: "string option \<Rightarrow> string option option \<Rightarrow> string option" where
  "written_text held patch = (case patch of None \<Rightarrow> held | Some None \<Rightarrow> None
     | Some (Some s) \<Rightarrow> if s = [] then None else Some s)"

definition withSectionWritten ::
  "dashboard_specification \<Rightarrow> nat \<Rightarrow> string option option \<Rightarrow> string option option \<Rightarrow> dashboard_specification" where
  "withSectionWritten sp index title hint = (case section_at sp index of None \<Rightarrow> sp
     | Some s \<Rightarrow> withSection sp index
         (s\<lparr>se_title := written_text (se_title s) title, se_hint := written_text (se_hint s) hint\<rparr>))"

text \<open>\<open>String(index)\<close> of an index below \<open>10 ^ 21\<close>.\<close>

definition index_text :: "nat \<Rightarrow> string" where
  "index_text i = nat_digits i"

definition layoutItemsOf :: "dashboard_section \<Rightarrow> grid_item list" where
  "layoutItemsOf s = map (\<lambda>(index, w). let p = (case wg_placement w of Some p \<Rightarrow> p
       | None \<Rightarrow> \<lparr>pl_column = 0, pl_row = 0, pl_width = 1, pl_height = 1\<rparr>)
     in \<lparr>gi_i = index_text index, gi_x = pl_column p, gi_y = pl_row p, gi_w = pl_width p, gi_h = pl_height p\<rparr>)
     (zip [0..<length (se_widgets s)] (se_widgets s))"

definition placementsFromLayout :: "grid_item list \<Rightarrow> nat \<Rightarrow> placement option list" where
  "placementsFromLayout layout n = map (\<lambda>index. map_option
       (\<lambda>item. \<lparr>pl_column = gi_x item, pl_row = gi_y item, pl_width = gi_w item, pl_height = gi_h item\<rparr>)
       (List.find (\<lambda>candidate. gi_i candidate = index_text index) layout)) [0..<n]"

subsection \<open>Nothing is lost by a move\<close>

lemma withSection_update: "index < length (sp_sections sp) \<Longrightarrow> sp_sections (withSection sp index s) = (sp_sections sp)[index := s]"
  by (auto simp: withSection_def intro!: nth_equalityI)

lemma withWidgets_sections:
  "index < length (sp_sections sp) \<Longrightarrow>
   sp_sections (withWidgets sp index ws) = (sp_sections sp)[index := (sp_sections sp ! index)\<lparr>se_widgets := ws\<rparr>]"
  by (simp add: withWidgets_def section_at_def withSection_update)

text \<open>What every widget of a page draws, and what is drawn of it with one section's widgets changed.\<close>

definition drawn_kinds :: "dashboard_section list \<Rightarrow> widget_kind multiset" where
  "drawn_kinds ss = mset (map wg_kind (concat (map se_widgets ss)))"

lemma drawn_kinds_update:
  "i < length ss \<Longrightarrow> drawn_kinds (ss[i := (ss ! i)\<lparr>se_widgets := ws\<rparr>]) + mset (map wg_kind (se_widgets (ss ! i)))
     = drawn_kinds ss + mset (map wg_kind ws)"
proof (induction ss arbitrary: i)
  case (Cons s ss)
  then show ?case by (cases i) (auto simp: drawn_kinds_def ac_simps)
qed simp

lemma without_index:
  "i < length ws \<Longrightarrow> mset ws = add_mset (ws ! i) (mset (map snd (filter (\<lambda>(pos, w). pos \<noteq> i) (zip [0..<length ws] ws))))"
proof (induction ws rule: rev_induct)
  case (snoc w ws)
  have all: "filter (\<lambda>(pos, w). pos \<noteq> length ws) (zip [0..<length ws] ws) = zip [0..<length ws] ws"
    by (auto simp: filter_id_conv dest: set_zip_leftD)
  show ?case
  proof (cases "i = length ws")
    case True
    with all show ?thesis by simp
  next
    case False
    with snoc show ?thesis by (simp add: nth_append)
  qed
qed simp

text \<open>Moving a widget, within a section or to another, neither loses nor doubles one: the page draws the same
  widgets before and after, and the moved one stands last in its section at the place it was put.\<close>

lemma moved_widget_kept:
  assumes "fr < length (sp_sections sp)" "i < length (se_widgets (sp_sections sp ! fr))" "to < length (sp_sections sp)"
  shows "\<exists>sp'. withWidgetMoved sp (fr, i) to p = Some sp' \<and> drawn_kinds (sp_sections sp') = drawn_kinds (sp_sections sp)
    \<and> last (se_widgets (sp_sections sp' ! to)) = (se_widgets (sp_sections sp ! fr) ! i)\<lparr>wg_placement := Some p\<rparr>"
proof -
  let ?ws = "se_widgets (sp_sections sp ! fr)"
  let ?rest = "map snd (filter (\<lambda>(pos, w). pos \<noteq> i) (zip [0..<length ?ws] ?ws))"
  let ?w = "(?ws ! i)\<lparr>wg_placement := Some p\<rparr>"
  define sp1 where "sp1 = withWidgets sp fr ?rest"
  have s1: "sp_sections sp1 = (sp_sections sp)[fr := (sp_sections sp ! fr)\<lparr>se_widgets := ?rest\<rparr>]"
    using assms(1) by (simp add: sp1_def withWidgets_sections)
  have to: "to < length (sp_sections sp1)" using assms(3) s1 by simp
  define sp2 where "sp2 = withWidgets sp1 to (se_widgets (sp_sections sp1 ! to) @ [?w])"
  have s2: "sp_sections sp2 = (sp_sections sp1)[to := (sp_sections sp1 ! to)\<lparr>se_widgets := se_widgets (sp_sections sp1 ! to) @ [?w]\<rparr>]"
    using to by (simp add: sp2_def withWidgets_sections)
  have "withWidgetMoved sp (fr, i) to p = Some sp2"
    using assms to by (simp add: withWidgetMoved_def section_at_def withWidgetRemoved_def withWidgetAdded_def sp1_def sp2_def)
  moreover have "drawn_kinds (sp_sections sp2) = drawn_kinds (sp_sections sp1) + {#wg_kind (?ws ! i)#}"
    using drawn_kinds_update[OF to, of "se_widgets (sp_sections sp1 ! to) @ [?w]"] s2 by simp
  moreover have "mset (map wg_kind ?ws) = add_mset (wg_kind (?ws ! i)) (mset (map wg_kind ?rest))"
    using arg_cong[OF without_index[OF assms(2)], of "image_mset wg_kind"]
    by (simp add: multiset.map_comp)
  with drawn_kinds_update[OF assms(1), of ?rest] s1
  have "drawn_kinds (sp_sections sp1) + {#wg_kind (?ws ! i)#} = drawn_kinds (sp_sections sp)" by simp
  ultimately show ?thesis using to s2 by auto
qed

definition sample_design :: dashboard_specification where
  "sample_design = \<lparr>sp_title = ''Design'', sp_subtitle = None, sp_icon = None, sp_compare = None,
     sp_sections = [sample_section (Some Grid) [sample_kpi None], sample_section (Some Grid) []],
     sp_refreshSeconds = None, sp_detail = None, sp_translations = None, sp_composed = None, sp_designed = None\<rparr>"

theorem moved_widget_kept_witness:
  "\<exists>sp'. withWidgetMoved sample_design (0, 0) 1 \<lparr>pl_column = 2, pl_row = 0, pl_width = 3, pl_height = 3\<rparr> = Some sp'
    \<and> drawn_kinds (sp_sections sp') = drawn_kinds (sp_sections sample_design)"
  using moved_widget_kept[of 0 sample_design 0 1 "\<lparr>pl_column = 2, pl_row = 0, pl_width = 3, pl_height = 3\<rparr>"]
  by (auto simp: sample_design_def sample_section_def)

subsection \<open>What the grid reports\<close>

lemma index_text_inj: "index_text i = index_text j \<longleftrightarrow> i = j"
  by (metis index_text_def nat_digits_read of_nat_eq_iff)

lemma length_layoutItemsOf [simp]: "length (layoutItemsOf s) = length (se_widgets s)"
  by (simp add: layoutItemsOf_def)

lemma layoutItemsOf_nth:
  "i < length (se_widgets s) \<Longrightarrow> gi_i (layoutItemsOf s ! i) = index_text i"
  by (simp add: layoutItemsOf_def Let_def)

lemma find_item:
  assumes "mset items = mset (layoutItemsOf s)" "i < length (se_widgets s)"
  shows "List.find (\<lambda>candidate. gi_i candidate = index_text i) items = Some (layoutItemsOf s ! i)"
proof -
  have items: "set items = set (layoutItemsOf s)" using assms(1) by (rule mset_eq_setD)
  have unique: "x = layoutItemsOf s ! i" if "x \<in> set items" "gi_i x = index_text i" for x
    using that items by (auto simp: in_set_conv_nth layoutItemsOf_nth index_text_inj)
  have "layoutItemsOf s ! i \<in> set items" using items assms(2) by simp
  then obtain y where y: "List.find (\<lambda>candidate. gi_i candidate = index_text i) items = Some y"
    using find_Some_ex[of items "\<lambda>candidate. gi_i candidate = index_text i"] layoutItemsOf_nth[OF assms(2)] by blast
  with find_SomeD[OF y] unique show ?thesis by simp
qed

lemma placements_of_items:
  assumes "mset items = mset (layoutItemsOf s)" "\<forall>w \<in> set (se_widgets s). wg_placement w \<noteq> None"
  shows "placementsFromLayout items (length (se_widgets s)) = map wg_placement (se_widgets s)"
proof (rule nth_equalityI)
  fix i assume "i < length (placementsFromLayout items (length (se_widgets s)))"
  then have i: "i < length (se_widgets s)" by (simp add: placementsFromLayout_def)
  then obtain p where p: "wg_placement (se_widgets s ! i) = Some p" using assms(2) nth_mem by fastforce
  with i find_item[OF assms(1) i] show "placementsFromLayout items (length (se_widgets s)) ! i = map wg_placement (se_widgets s) ! i"
    by (simp add: placementsFromLayout_def layoutItemsOf_def Let_def)
qed (simp add: placementsFromLayout_def)

text \<open>What the canvas hands the grid and the grid hands back, in whatever order, is what the section held: the
  placements read back are the section's own, and a report that moved nothing leaves the specification
  as it was, so nothing is drawn, reported and written again.\<close>

lemma layout_report_roundtrip:
  assumes "section_at sp i = Some s" "\<forall>w \<in> set (se_widgets s). wg_placement w \<noteq> None"
    and "mset items = mset (layoutItemsOf s)"
  shows "placementsFromLayout items (length (se_widgets s)) = map wg_placement (se_widgets s) \<and>
    withPlacements sp i (placementsFromLayout items (length (se_widgets s))) = Some sp"
  using placements_of_items[OF assms(3,2)] assms(1)
  by (auto simp: withPlacements_def Let_def list_all_iff set_zip placed_at_def placement_at_def split: option.split)

theorem layout_report_roundtrip_witness:
  "let p = \<lparr>pl_column = 2, pl_row = 1, pl_width = 3, pl_height = 4\<rparr>; q = \<lparr>pl_column = 6, pl_row = 0, pl_width = 6, pl_height = 2\<rparr>;
       s = sample_section (Some Grid) [(sample_kpi None)\<lparr>wg_placement := Some p\<rparr>, (sample_kpi None)\<lparr>wg_placement := Some q\<rparr>];
       sp = sample_design\<lparr>sp_sections := [s]\<rparr>
   in withPlacements sp 0 (placementsFromLayout (rev (layoutItemsOf s)) 2) = Some sp"
proof -
  define p where "p = \<lparr>pl_column = 2, pl_row = 1, pl_width = 3, pl_height = (4 :: int)\<rparr>"
  define q where "q = \<lparr>pl_column = 6, pl_row = 0, pl_width = 6, pl_height = (2 :: int)\<rparr>"
  define s where "s = sample_section (Some Grid) [(sample_kpi None)\<lparr>wg_placement := Some p\<rparr>, (sample_kpi None)\<lparr>wg_placement := Some q\<rparr>]"
  define sp where "sp = sample_design\<lparr>sp_sections := [s]\<rparr>"
  have "section_at sp 0 = Some s" by (simp add: section_at_def sp_def)
  moreover have "\<forall>w \<in> set (se_widgets s). wg_placement w \<noteq> None" "length (se_widgets s) = 2"
    by (simp_all add: s_def sample_section_def)
  ultimately have "withPlacements sp 0 (placementsFromLayout (rev (layoutItemsOf s)) 2) = Some sp"
    using layout_report_roundtrip[of sp 0 s "rev (layoutItemsOf s)", THEN conjunct2] by (simp only: mset_rev)
  then show ?thesis by (simp add: Let_def p_def q_def s_def sp_def)
qed

end
