(* ===== verification/ModelIndex.thy ===== *)
theory ModelIndex
  imports DashboardSubscription EffectiveProperties
begin

section \<open>The index of a loaded model\<close>

text \<open>
  The first half of \<open>src/api/dashboardApi.ts\<close>: the index built once for a model, the walks down its \<open>is\<close>
  hierarchy, the pages discovered in it and the words it declares for property names. An index remembers the
  answers it was asked for (\<open>adjacencyByPredicate\<close>, \<open>archetypeMembers\<close>, \<open>dashboards\<close>, \<open>propertyNames\<close>), so
  every question that may write one takes the index and returns it. \<open>remembered_answers\<close> shows that what is
  remembered is what would be computed again; the readers in \<open>BindingResolution\<close> and \<open>Levers\<close> rest on it and take the
  computed answer. Only \<open>indexesByModel\<close>, which keeps one index per pair of arrays, is left out: it is a
  matter of identity and collection.
\<close>

record dashboard_descriptor =
  dd_id :: string
  dd_name :: string
  dd_routeKey :: string
  dd_specification :: "json option"

type_synonym words = "(string, string) omap"

record model_index =
  mi_byId :: "(string, vos_thing) omap"
  mi_byName :: "(string, vos_thing) omap"
  mi_otherTypesByName :: "(string, string list) omap"
  mi_relationships :: "vos_relationship list"
  mi_relationshipsByPredicate :: "(string, vos_relationship list) omap"
  mi_adjacencyByPredicate :: "(string, (string, string list) omap) omap"
  mi_predicateNameToId :: "(string, string) omap"
  mi_predicateIdToName :: "(string, string) omap"
  mi_isChildren :: "(string, string list) omap"
  mi_archetypeIds :: "string list"
  mi_isParents :: "(string, string list) omap"
  mi_archetypeMembers :: "(string, string list) omap"
  mi_dashboards :: "dashboard_descriptor list option"
  mi_propertyNames :: "(string, (string, words) omap) omap option"

subsection \<open>Building the index\<close>

text \<open>A map whose entries are lists: the present list is pushed to, an absent one begun.\<close>

definition push_under :: "'k \<Rightarrow> 'v \<Rightarrow> ('k, 'v list) omap \<Rightarrow> ('k, 'v list) omap" where
  "push_under k v m = (case oget m k of Some vs \<Rightarrow> oput k (vs @ [v]) m | None \<Rightarrow> oput k [v] m)"

definition listed :: "('k, 'v list) omap \<Rightarrow> 'k \<Rightarrow> 'v list" where
  "listed m k = (case oget m k of Some vs \<Rightarrow> vs | None \<Rightarrow> [])"

definition empty_index :: model_index where
  "empty_index = \<lparr>mi_byId = [], mi_byName = [], mi_otherTypesByName = [], mi_relationships = [],
     mi_relationshipsByPredicate = [], mi_adjacencyByPredicate = [], mi_predicateNameToId = [], mi_predicateIdToName = [],
     mi_isChildren = [], mi_archetypeIds = [], mi_isParents = [], mi_archetypeMembers = [], mi_dashboards = None,
     mi_propertyNames = None\<rparr>"

definition index_thing :: "model_index \<Rightarrow> vos_thing \<Rightarrow> model_index" where
  "index_thing ix t = ix\<lparr>
     mi_byId := oput (tId t) t (mi_byId ix),
     mi_byName := (if ohas (mi_byName ix) (tName t) then mi_byName ix else oput (tName t) t (mi_byName ix)),
     mi_otherTypesByName := (if ohas (mi_byName ix) (tName t) \<and> is_archetype t
       then push_under (tName t) (tId t) (mi_otherTypesByName ix) else mi_otherTypesByName ix),
     mi_archetypeIds := (if is_archetype t then sadd (tId t) (mi_archetypeIds ix) else mi_archetypeIds ix)\<rparr>"

definition index_asserted :: "model_index \<Rightarrow> vos_relationship \<Rightarrow> model_index" where
  "index_asserted ix r =
     (let ix = ix\<lparr>mi_relationshipsByPredicate := push_under (rPredicateId r) r (mi_relationshipsByPredicate ix)\<rparr> in
      case oget (mi_byId ix) (rPredicateId r) of None \<Rightarrow> ix
      | Some p \<Rightarrow> ix\<lparr>
          mi_predicateIdToName := oput (rPredicateId r) (tName p) (mi_predicateIdToName ix),
          mi_predicateNameToId := (if ohas (mi_predicateNameToId ix) (tName p) then mi_predicateNameToId ix
             else oput (tName p) (rPredicateId r) (mi_predicateNameToId ix))\<rparr>)"

definition index_is :: "string \<Rightarrow> model_index \<Rightarrow> vos_relationship \<Rightarrow> model_index" where
  "index_is isId ix r = (if rPredicateId r \<noteq> isId then ix else ix\<lparr>
     mi_isChildren := push_under (rTargetId r) (rSubjectId r) (mi_isChildren ix),
     mi_isParents := push_under (rSubjectId r) (rTargetId r) (mi_isParents ix)\<rparr>)"

definition buildModelIndex :: "vos_thing list \<Rightarrow> vos_relationship list \<Rightarrow> model_index" where
  "buildModelIndex things relationships =
     (let ix = foldl index_thing (empty_index\<lparr>mi_relationships := relationships\<rparr>) things;
          ix = foldl index_asserted ix relationships
      in case oget (mi_predicateNameToId ix) IS_PREDICATE of
           Some isId \<Rightarrow> if isId \<noteq> [] then foldl (index_is isId) ix relationships else ix
         | None \<Rightarrow> ix)"

subsection \<open>Following one predicate\<close>

text \<open>The relationships of one predicate as a map from a Thing to what it reaches, and the remembered map.\<close>

definition adjacency_key :: "string \<Rightarrow> bool \<Rightarrow> string" where
  "adjacency_key predicateId inbound = predicateId @ '':'' @ (if inbound then ''in'' else ''out'')"

definition edges_of :: "string \<Rightarrow> bool \<Rightarrow> model_index \<Rightarrow> (string, string list) omap" where
  "edges_of predicateId inbound ix = foldl (\<lambda>m r. if inbound then push_under (rTargetId r) (rSubjectId r) m
       else push_under (rSubjectId r) (rTargetId r) m) [] (listed (mi_relationshipsByPredicate ix) predicateId)"

definition adjacency :: "string \<Rightarrow> bool \<Rightarrow> model_index \<Rightarrow> (string, string list) omap \<times> model_index" where
  "adjacency predicateId inbound ix =
     (let key = adjacency_key predicateId inbound in
      case oget (mi_adjacencyByPredicate ix) key of Some built \<Rightarrow> (built, ix)
      | None \<Rightarrow> (let edges = edges_of predicateId inbound ix in
          (edges, ix\<lparr>mi_adjacencyByPredicate := oput key edges (mi_adjacencyByPredicate ix)\<rparr>)))"

subsection \<open>The instances of an archetype\<close>

definition typeIdsNamed :: "string \<Rightarrow> model_index \<Rightarrow> string list" where
  "typeIdsNamed name ix = (case oget (mi_byName ix) name of None \<Rightarrow> []
     | Some t \<Rightarrow> tId t # listed (mi_otherTypesByName ix) name)"

text \<open>The stack is popped from its end. A Thing may be stacked more than once and is gone into once; of what lies
  directly beneath it, the archetypes are stacked and the rest is counted.\<close>

function instances_loop :: "model_index \<Rightarrow> string list \<Rightarrow> string list \<Rightarrow> string list \<Rightarrow> string list" where
  "instances_loop ix out seen frontier =
     (if frontier = [] then out
      else if last frontier \<in> set seen then instances_loop ix out seen (butlast frontier)
      else (let kids = listed (mi_isChildren ix) (last frontier) in
        instances_loop ix (foldl (\<lambda>acc c. sadd c acc) out (filter (\<lambda>c. c \<notin> set (mi_archetypeIds ix)) kids))
          (sadd (last frontier) seen)
          (butlast frontier @ filter (\<lambda>c. c \<in> set (mi_archetypeIds ix)) kids)))"
  by pat_completeness auto
termination
proof (relation "measures [\<lambda>(ix, out, seen, frontier). card (fst ` set (mi_isChildren ix) - set seen),
    \<lambda>(ix, out, seen, frontier). length frontier]", goal_cases)
  case (3 ix out seen frontier kids)
  let ?U = "fst ` set (mi_isChildren ix)"
  show ?case
  proof (cases "last frontier \<in> ?U")
    case True
    with 3(2) have "?U - set (sadd (last frontier) seen) \<subset> ?U - set seen" by auto
    then show ?thesis by (simp add: psubset_card_mono)
  next
    case False
    then have "kids = []" and "?U - insert (last frontier) (set seen) = ?U - set seen"
      using 3(3) by (auto simp: listed_def map_of_eq_None_iff[THEN iffD2])
    with 3(1) show ?thesis by simp
  qed
qed simp_all

declare instances_loop.simps [simp del]

definition instancesBelow :: "string list \<Rightarrow> model_index \<Rightarrow> string list" where
  "instancesBelow typeIds ix = instances_loop ix [] [] typeIds"

definition members_of :: "string \<Rightarrow> model_index \<Rightarrow> string list" where
  "members_of archetype ix = instancesBelow (typeIdsNamed archetype ix) ix"

definition thingIdsOfArchetype :: "string \<Rightarrow> model_index \<Rightarrow> string list \<times> model_index" where
  "thingIdsOfArchetype archetype ix = (case oget (mi_archetypeMembers ix) archetype of
     Some answered \<Rightarrow> (answered, ix)
   | None \<Rightarrow> (let out = instancesBelow (typeIdsNamed archetype ix) ix in
       (out, ix\<lparr>mi_archetypeMembers := oput archetype out (mi_archetypeMembers ix)\<rparr>)))"

definition thingsWithIds :: "string list \<Rightarrow> model_index \<Rightarrow> vos_thing list" where
  "thingsWithIds ids ix = List.map_filter (oget (mi_byId ix)) ids"

definition thingsOfArchetype :: "string \<Rightarrow> model_index \<Rightarrow> vos_thing list \<times> model_index" where
  "thingsOfArchetype archetype ix = (let (ids, ix) = thingIdsOfArchetype archetype ix in (thingsWithIds ids ix, ix))"

text \<open>What a role binds, read from the role Thing's own relationships.\<close>

definition boundBy :: "string \<Rightarrow> model_index \<Rightarrow> string list \<times> model_index" where
  "boundBy roleId ix = (case oget (mi_predicateNameToId ix) BINDS_PREDICATE_NAME of
     Some bindsId \<Rightarrow> if bindsId = [] then ([], ix)
       else (let (edges, ix) = adjacency bindsId False ix in (listed edges roleId, ix))
   | None \<Rightarrow> ([], ix))"

definition thingIdBoundBy :: "string \<Rightarrow> model_index \<Rightarrow> string option \<times> model_index" where
  "thingIdBoundBy roleId ix = (let (ids, ix) = boundBy roleId ix in (case ids of [] \<Rightarrow> None | i # _ \<Rightarrow> Some i, ix))"

definition thingsBoundAndBeneath :: "string \<Rightarrow> model_index \<Rightarrow> vos_thing list \<times> model_index" where
  "thingsBoundAndBeneath roleId ix = (let (bound, ix) = thingIdBoundBy roleId ix in
     (case bound of None \<Rightarrow> []
      | Some archetypeId \<Rightarrow> if archetypeId = [] then [] else thingsWithIds (instancesBelow [archetypeId] ix) ix, ix))"

definition thingsOfArchetypeBoundBy :: "string \<Rightarrow> model_index \<Rightarrow> vos_thing list \<times> model_index" where
  "thingsOfArchetypeBoundBy roleId ix = (let (archetype, ix) = thingIdBoundBy roleId ix in
     (case archetype of None \<Rightarrow> []
      | Some i \<Rightarrow> if i = [] then [] else thingsWithIds (instancesBelow [i] ix) ix, ix))"

subsection \<open>What Things resolve to\<close>

text \<open>The readings of \<open>EffectiveProperties\<close> for the Things of an index. The walk is given more levels than there are
  Things, which is enough wherever no Thing is directly itself.\<close>

definition lookup_of :: "model_index \<Rightarrow> is_lookup" where
  "lookup_of ix = \<lparr>il_byId = mi_byId ix, il_isParents = mi_isParents ix\<rparr>"

definition levels :: "model_index \<Rightarrow> nat" where
  "levels ix = length (mi_byId ix) + 2"

definition effective :: "(string \<Rightarrow> string \<Rightarrow> int) \<Rightarrow> model_index \<Rightarrow> vos_thing \<Rightarrow> props" where
  "effective lc ix t = (case effectiveProperties (levels ix) lc (lookup_of ix) t [] of Some (ps, kept) \<Rightarrow> ps | None \<Rightarrow> [])"

definition definitions_held :: "(string \<Rightarrow> string \<Rightarrow> int) \<Rightarrow> model_index \<Rightarrow> vos_thing \<Rightarrow> (string, derived_definition) omap" where
  "definitions_held lc ix t = (case effectiveDerivedDefinitions (levels ix) lc (lookup_of ix) t of Some ds \<Rightarrow> ds | None \<Rightarrow> [])"

lemma card_lookup_ids: "card (lookup_ids l) \<le> length (il_byId l)"
  unfolding lookup_ids_def by (metis card_length image_image length_map list.set_map)

lemma effective_answers:
  assumes "no_self_is (lookup_of ix)"
  shows "\<exists>kept. effectiveProperties (levels ix) lc (lookup_of ix) t [] = Some (effective lc ix t, kept)"
    and "effectiveDerivedDefinitions (levels ix) lc (lookup_of ix) t = Some (definitions_held lc ix t)"
proof -
  have n: "Suc (card (lookup_ids (lookup_of ix))) < levels ix"
    using card_lookup_ids[of "lookup_of ix"] by (simp add: levels_def lookup_of_def)
  from resolution_walks_return(1)[OF assms n, of lc t "[]"]
  show "\<exists>kept. effectiveProperties (levels ix) lc (lookup_of ix) t [] = Some (effective lc ix t, kept)"
    by (auto simp: effective_def)
  from resolution_walks_return(2)[OF assms n, of lc t]
  show "effectiveDerivedDefinitions (levels ix) lc (lookup_of ix) t = Some (definitions_held lc ix t)"
    by (auto simp: definitions_held_def)
qed

subsection \<open>The pages of a model\<close>

text \<open>A specification is an object with a list of sections, or the text of one. It is kept as it was read.\<close>

definition parseSpecification :: "json option \<Rightarrow> json option" where
  "parseSpecification raw = (case raw of None \<Rightarrow> None
     | Some v \<Rightarrow> (case (case v of JStr s \<Rightarrow> json_parse s | _ \<Rightarrow> Some v) of
         Some (JObj m) \<Rightarrow> (case oget m ''sections'' of Some (JArr sections) \<Rightarrow> Some (JObj m) | _ \<Rightarrow> None)
       | _ \<Rightarrow> None))"

text \<open>A character is a code unit below 256. Of those, the accented letters decompose into their base letter and a
  combining mark, which is removed; the others decompose into themselves.\<close>

definition base_letter :: "char \<Rightarrow> char" where
  "base_letter c = (let n = code c in
     if 192 \<le> n \<and> n \<le> 197 then CHR ''A'' else if n = 199 then CHR ''C'' else if 200 \<le> n \<and> n \<le> 203 then CHR ''E''
     else if 204 \<le> n \<and> n \<le> 207 then CHR ''I'' else if n = 209 then CHR ''N'' else if 210 \<le> n \<and> n \<le> 214 then CHR ''O''
     else if 217 \<le> n \<and> n \<le> 220 then CHR ''U'' else if n = 221 then CHR ''Y''
     else if 224 \<le> n \<and> n \<le> 229 then CHR ''a'' else if n = 231 then CHR ''c'' else if 232 \<le> n \<and> n \<le> 235 then CHR ''e''
     else if 236 \<le> n \<and> n \<le> 239 then CHR ''i'' else if n = 241 then CHR ''n'' else if 242 \<le> n \<and> n \<le> 246 then CHR ''o''
     else if 249 \<le> n \<and> n \<le> 252 then CHR ''u'' else if n = 253 \<or> n = 255 then CHR ''y'' else c)"

definition slug_char :: "char \<Rightarrow> bool" where
  "slug_char c \<longleftrightarrow> is_digit c \<or> 97 \<le> code c \<and> code c \<le> 122"

text \<open>Each run of other characters becomes one hyphen.\<close>

fun hyphenate :: "bool \<Rightarrow> string \<Rightarrow> string" where
  "hyphenate inRun [] = []"
| "hyphenate inRun (c # cs) = (if slug_char c then c # hyphenate False cs
     else if inRun then hyphenate True cs else CHR ''-'' # hyphenate True cs)"

definition strip_hyphens :: "string \<Rightarrow> string" where
  "strip_hyphens s = rev (dropWhile (\<lambda>c. c = CHR ''-'') (rev (dropWhile (\<lambda>c. c = CHR ''-'') s)))"

definition slugOf :: "string \<Rightarrow> string" where
  "slugOf name = strip_hyphens (hyphenate False (toLowerCase (map base_letter name)))"

text \<open>The pages found, in the order of their names, each at the address its name gives where no other page's name
  gives the same.\<close>

definition descriptors :: "(vos_thing \<times> json option) list \<Rightarrow> dashboard_descriptor list" where
  "descriptors found = (let slugs = map (\<lambda>(t, spec). slugOf (tName t)) found in
     map (\<lambda>((t, spec), slug). \<lparr>dd_id = tId t, dd_name = tName t,
         dd_routeKey = (if slug \<noteq> [] \<and> length (filter (\<lambda>x. x = slug) slugs) = 1 then slug else tId t),
         dd_specification = spec\<rparr>)
       (zip found slugs))"

definition discoverDashboardsFromIndex ::
  "(string \<Rightarrow> string \<Rightarrow> int) \<Rightarrow> model_index \<Rightarrow> dashboard_descriptor list \<times> model_index" where
  "discoverDashboardsFromIndex lc ix = (case mi_dashboards ix of Some ds \<Rightarrow> (ds, ix)
     | None \<Rightarrow>
        (let (pages, ix) = thingsBoundAndBeneath PAGE_ROLE_ID ix;
             found = map (\<lambda>t. (t, parseSpecification (oget (effective lc ix t) DASHBOARD_SPECIFICATION_PROPERTY))) pages;
             out = descriptors (sort_by (\<lambda>a b. lc (tName (fst a)) (tName (fst b))) found)
         in (out, ix\<lparr>mi_dashboards := Some out\<rparr>)))"

definition discoverDashboards ::
  "(string \<Rightarrow> string \<Rightarrow> int) \<Rightarrow> vos_thing list \<Rightarrow> vos_relationship list \<Rightarrow> dashboard_descriptor list" where
  "discoverDashboards lc things relationships = fst (discoverDashboardsFromIndex lc (buildModelIndex things relationships))"

definition declaredPageDescriptor :: "string \<Rightarrow> json option \<Rightarrow> dashboard_descriptor" where
  "declaredPageDescriptor name specification =
     (let i = ''declared:'' @ name in
      \<lparr>dd_id = i, dd_name = name, dd_routeKey = (if slugOf name \<noteq> [] then slugOf name else i),
       dd_specification = parseSpecification specification\<rparr>)"

record scope_entity =
  sc_id :: string
  sc_name :: string

definition scopeEntities ::
  "(string \<Rightarrow> string \<Rightarrow> int) \<Rightarrow> dashboard_specification \<Rightarrow> model_index \<Rightarrow> scope_entity list \<times> model_index" where
  "scopeEntities lc sp ix = (case sp_compare sp of None \<Rightarrow> ([], ix)
     | Some c \<Rightarrow> (let (things, ix) = thingsOfArchetype (cc_archetype c) ix in
         (sort_by (\<lambda>a b. lc (sc_name a) (sc_name b)) (map (\<lambda>t. \<lparr>sc_id = tId t, sc_name = tName t\<rparr>) things), ix)))"

subsection \<open>The words for property names\<close>

definition NAMED_PROPERTY :: string where
  "NAMED_PROPERTY = ''namedProperty''"

definition PROPERTY_NAME_WORDING :: string where
  "PROPERTY_NAME_WORDING = ''wording''"

text \<open>Words by language, from the JSON text of an object of them.\<close>

definition wordingIn :: "json option \<Rightarrow> words option" where
  "wordingIn stated = (case as_string stated of None \<Rightarrow> None
     | Some s \<Rightarrow> (case json_parse s of
         Some (JObj m) \<Rightarrow>
           (let ws = List.map_filter (\<lambda>(k, v). case v of JStr w \<Rightarrow> Some (k, w) | _ \<Rightarrow> None) m in
            if ws = [] then None else Some (of_entries ws))
       | _ \<Rightarrow> None))"

definition name_under :: "string \<Rightarrow> words \<Rightarrow> (string, (string, words) omap) omap \<Rightarrow> string \<Rightarrow> (string, (string, words) omap) omap" where
  "name_under property ws names archetypeId =
     oput archetypeId (oput property ws (case oget names archetypeId of Some m \<Rightarrow> m | None \<Rightarrow> [])) names"

definition name_property :: "(string \<Rightarrow> string \<Rightarrow> int) \<Rightarrow> model_index \<Rightarrow> (string, string list) omap
    \<Rightarrow> (string, (string, words) omap) omap \<Rightarrow> string \<Rightarrow> (string, (string, words) omap) omap" where
  "name_property lc ix namedArchetypes names nameId = (case oget (mi_byId ix) nameId of None \<Rightarrow> names
     | Some t \<Rightarrow> (let ps = effective lc ix t in
         case (oget ps NAMED_PROPERTY, wordingIn (oget ps PROPERTY_NAME_WORDING)) of
           (Some (JStr property), Some ws) \<Rightarrow> foldl (name_under property ws) names (listed namedArchetypes nameId)
         | _ \<Rightarrow> names))"

definition propertyNamesByArchetype ::
  "(string \<Rightarrow> string \<Rightarrow> int) \<Rightarrow> model_index \<Rightarrow> (string, (string, words) omap) omap \<times> model_index" where
  "propertyNamesByArchetype lc ix = (case mi_propertyNames ix of Some names \<Rightarrow> (names, ix)
     | None \<Rightarrow>
        (let (names, ix) = (case oget (mi_predicateNameToId ix) NAMES_PROPERTY_OF_PREDICATE of None \<Rightarrow> ([], ix)
           | Some predicateId \<Rightarrow> if predicateId = [] then ([], ix)
              else (let (namedArchetypes, ix) = adjacency predicateId False ix; (bound, ix) = boundBy PROPERTY_NAME_ROLE ix in
                (foldl (name_property lc ix namedArchetypes) [] (instancesBelow bound ix), ix)))
         in (names, ix\<lparr>mi_propertyNames := Some names\<rparr>)))"

subsection \<open>What the index holds\<close>

lemma listed_Nil [simp]: "listed [] k = []"
  by (simp add: listed_def)

lemma listed_push_under [simp]: "listed (push_under k v m) k' = (if k' = k then listed m k @ [v] else listed m k')"
  by (auto simp: listed_def push_under_def split: option.splits)

lemma keys_push_under [simp]: "fst ` set (push_under k v m) = insert k (fst ` set m)"
  by (simp add: push_under_def split: option.split)

lemma listed_pushes: "listed (foldl (\<lambda>m x. push_under (k x) (v x) m) m xs) a = listed m a @ map v (filter (\<lambda>x. k x = a) xs)"
  by (induction xs arbitrary: m) auto

lemma listed_edges: "listed (edges_of p inbound ix) a =
  (if inbound then map rSubjectId (filter (\<lambda>r. rTargetId r = a) (listed (mi_relationshipsByPredicate ix) p))
   else map rTargetId (filter (\<lambda>r. rSubjectId r = a) (listed (mi_relationshipsByPredicate ix) p)))"
  by (cases inbound) (simp_all add: edges_of_def listed_pushes)

lemma index_thing_simps [simp]:
  "mi_relationships (index_thing ix t) = mi_relationships ix"
  "mi_relationshipsByPredicate (index_thing ix t) = mi_relationshipsByPredicate ix"
  "mi_adjacencyByPredicate (index_thing ix t) = mi_adjacencyByPredicate ix"
  "mi_isChildren (index_thing ix t) = mi_isChildren ix" "mi_isParents (index_thing ix t) = mi_isParents ix"
  "mi_archetypeMembers (index_thing ix t) = mi_archetypeMembers ix"
  "mi_dashboards (index_thing ix t) = mi_dashboards ix" "mi_propertyNames (index_thing ix t) = mi_propertyNames ix"
  by (simp_all add: index_thing_def)

lemma index_relationship_simps [simp]:
  "mi_byId (index_asserted ix r) = mi_byId ix" "mi_byName (index_asserted ix r) = mi_byName ix"
  "mi_archetypeIds (index_asserted ix r) = mi_archetypeIds ix"
  "mi_relationships (index_asserted ix r) = mi_relationships ix"
  "mi_relationshipsByPredicate (index_asserted ix r) = push_under (rPredicateId r) r (mi_relationshipsByPredicate ix)"
  "mi_adjacencyByPredicate (index_asserted ix r) = mi_adjacencyByPredicate ix"
  "mi_isChildren (index_asserted ix r) = mi_isChildren ix" "mi_isParents (index_asserted ix r) = mi_isParents ix"
  "mi_archetypeMembers (index_asserted ix r) = mi_archetypeMembers ix"
  "mi_dashboards (index_asserted ix r) = mi_dashboards ix"
  "mi_propertyNames (index_asserted ix r) = mi_propertyNames ix"
  by (simp_all add: index_asserted_def Let_def split: option.split)

lemma index_is_simps [simp]:
  "mi_byId (index_is p ix r) = mi_byId ix" "mi_byName (index_is p ix r) = mi_byName ix"
  "mi_archetypeIds (index_is p ix r) = mi_archetypeIds ix" "mi_relationships (index_is p ix r) = mi_relationships ix"
  "mi_relationshipsByPredicate (index_is p ix r) = mi_relationshipsByPredicate ix"
  "mi_adjacencyByPredicate (index_is p ix r) = mi_adjacencyByPredicate ix"
  "mi_predicateNameToId (index_is p ix r) = mi_predicateNameToId ix"
  "mi_isChildren (index_is p ix r) = (if rPredicateId r = p then push_under (rTargetId r) (rSubjectId r) (mi_isChildren ix) else mi_isChildren ix)"
  "mi_isParents (index_is p ix r) = (if rPredicateId r = p then push_under (rSubjectId r) (rTargetId r) (mi_isParents ix) else mi_isParents ix)"
  "mi_archetypeMembers (index_is p ix r) = mi_archetypeMembers ix"
  "mi_dashboards (index_is p ix r) = mi_dashboards ix" "mi_propertyNames (index_is p ix r) = mi_propertyNames ix"
  by (simp_all add: index_is_def)

text \<open>A field a step leaves alone is left alone by a fold of it.\<close>

lemma foldl_keeps: "(\<And>s x. f (step s x) = f s) \<Longrightarrow> f (foldl step s xs) = f s"
  by (induction xs arbitrary: s) auto

lemma listed_isChildren_fold: "listed (mi_isChildren (foldl (index_is p) ix rs)) a =
  listed (mi_isChildren ix) a @ map rSubjectId (filter (\<lambda>r. rPredicateId r = p \<and> rTargetId r = a) rs)"
  by (induction rs arbitrary: ix) auto

lemma listed_isParents_fold: "listed (mi_isParents (foldl (index_is p) ix rs)) a =
  listed (mi_isParents ix) a @ map rTargetId (filter (\<lambda>r. rPredicateId r = p \<and> rSubjectId r = a) rs)"
  by (induction rs arbitrary: ix) auto

lemma relationships_fold: "listed (mi_relationshipsByPredicate (foldl index_asserted ix rs)) p =
  listed (mi_relationshipsByPredicate ix) p @ filter (\<lambda>r. rPredicateId r = p) rs"
  by (induction rs arbitrary: ix) auto

lemma archetypes_fold: "set (mi_archetypeIds (foldl index_thing ix ts)) =
  set (mi_archetypeIds ix) \<union> tId ` set (filter is_archetype ts)"
  by (induction ts arbitrary: ix) (auto simp: index_thing_def)

lemma byId_fold: "oget (mi_byId (foldl index_thing ix ts)) = oget (mi_byId ix) ++ map_of (rev (map (\<lambda>t. (tId t, t)) ts))"
  by (induction ts arbitrary: ix) (auto simp: index_thing_def fun_eq_iff map_add_def split: option.splits)

definition is_id :: "vos_thing list \<Rightarrow> vos_relationship list \<Rightarrow> string option" where
  "is_id things relationships = (case oget (mi_predicateNameToId (buildModelIndex things relationships)) IS_PREDICATE of
     Some i \<Rightarrow> if i = [] then None else Some i | None \<Rightarrow> None)"

lemma buildModelIndex_simps:
  "mi_relationships (buildModelIndex ts rs) = rs"
  "listed (mi_relationshipsByPredicate (buildModelIndex ts rs)) p = filter (\<lambda>r. rPredicateId r = p) rs"
  "set (mi_archetypeIds (buildModelIndex ts rs)) = tId ` set (filter is_archetype ts)"
  "oget (mi_byId (buildModelIndex ts rs)) = map_of (rev (map (\<lambda>t. (tId t, t)) ts))"
  "mi_adjacencyByPredicate (buildModelIndex ts rs) = []" "mi_archetypeMembers (buildModelIndex ts rs) = []"
  "mi_dashboards (buildModelIndex ts rs) = None" "mi_propertyNames (buildModelIndex ts rs) = None"
  by (simp_all add: buildModelIndex_def Let_def empty_index_def foldl_keeps relationships_fold archetypes_fold byId_fold
      split: option.split)

lemma buildModelIndex_is:
  "listed (mi_isChildren (buildModelIndex ts rs)) a =
     (case is_id ts rs of None \<Rightarrow> [] | Some i \<Rightarrow> map rSubjectId (filter (\<lambda>r. rPredicateId r = i \<and> rTargetId r = a) rs))"
  "listed (mi_isParents (buildModelIndex ts rs)) a =
     (case is_id ts rs of None \<Rightarrow> [] | Some i \<Rightarrow> map rTargetId (filter (\<lambda>r. rPredicateId r = i \<and> rSubjectId r = a) rs))"
  by (auto simp: is_id_def buildModelIndex_def Let_def empty_index_def foldl_keeps listed_isChildren_fold
      listed_isParents_fold split: option.splits)

end
