(* ===== verification/IndexFacts.thy ===== *)
theory IndexFacts
  imports ModelIndex
begin

section \<open>What an index answers\<close>

text \<open>
  The questions of \<open>ModelIndex\<close> answered in terms of the model: what an archetype's instances are, that
  remembering an answer never changes one, and that every page of a model is listed at an address of its own.
\<close>

subsection \<open>The instances of an archetype\<close>

definition sub_types :: "model_index \<Rightarrow> (string \<times> string) set" where
  "sub_types ix = {(a, c). c \<in> set (listed (mi_isChildren ix) a) \<and> c \<in> set (mi_archetypeIds ix)}"

definition direct_instances :: "model_index \<Rightarrow> string \<Rightarrow> string set" where
  "direct_instances ix a = set (listed (mi_isChildren ix) a) - set (mi_archetypeIds ix)"

lemma set_sadd_fold [simp]: "set (foldl (\<lambda>acc c. sadd c acc) out cs) = set out \<union> set cs"
  by (induction cs arbitrary: out) auto

lemma distinct_sadd_fold: "distinct out \<Longrightarrow> distinct (foldl (\<lambda>acc c. sadd c acc) out cs)"
  by (induction cs arbitrary: out) auto

lemma frontier_last: "fr \<noteq> [] \<Longrightarrow> set fr = insert (last fr) (set (butlast fr))"
  by (metis append_butlast_last_id list.simps(15) rotate1.simps(2) set_rotate1)

lemma instances_loop_distinct: "distinct out \<Longrightarrow> distinct (instances_loop ix out seen fr)"
proof (induction ix out seen fr rule: instances_loop.induct)
  case (1 ix out seen fr)
  then show ?case by (subst instances_loop.simps) (auto simp: Let_def distinct_sadd_fold)
qed

lemma instances_loop_sound:
  "set out \<subseteq> S \<Longrightarrow> set fr \<subseteq> R \<Longrightarrow> sub_types ix `` R \<subseteq> R \<Longrightarrow> (\<And>a. a \<in> R \<Longrightarrow> direct_instances ix a \<subseteq> S)
   \<Longrightarrow> set (instances_loop ix out seen fr) \<subseteq> S"
proof (induction ix out seen fr rule: instances_loop.induct)
  case (1 ix out seen fr)
  show ?case
  proof (cases "fr = []")
    case False
    then have a: "last fr \<in> R" and rest: "set (butlast fr) \<subseteq> R" using "1.prems"(2) frontier_last[of fr] by auto
    have "set (filter (\<lambda>c. c \<notin> set (mi_archetypeIds ix)) (listed (mi_isChildren ix) (last fr))) \<subseteq> S"
      using "1.prems"(4)[OF a] by (auto simp: direct_instances_def)
    moreover have "set (filter (\<lambda>c. c \<in> set (mi_archetypeIds ix)) (listed (mi_isChildren ix) (last fr))) \<subseteq> R"
      using "1.prems"(3) a by (auto simp: sub_types_def)
    ultimately show ?thesis
      using False "1.IH" "1.prems" rest by (subst instances_loop.simps) (simp add: Let_def)
  qed (use 1 in \<open>simp add: instances_loop.simps\<close>)
qed

lemma instances_loop_complete:
  assumes "\<And>x. x \<in> set seen \<Longrightarrow> direct_instances ix x \<subseteq> set out \<and> sub_types ix `` {x} \<subseteq> set seen \<union> set fr"
  shows "\<exists>seen'. set seen \<union> set fr \<subseteq> seen' \<and> sub_types ix `` seen' \<subseteq> seen' \<and> set out \<subseteq> set (instances_loop ix out seen fr)
    \<and> (\<forall>x\<in>seen'. direct_instances ix x \<subseteq> set (instances_loop ix out seen fr))"
  using assms
proof (induction ix out seen fr rule: instances_loop.induct)
  case (1 ix out seen fr)
  consider "fr = []" | "fr \<noteq> []" "last fr \<in> set seen" | "fr \<noteq> []" "last fr \<notin> set seen" by blast
  then show ?case
  proof cases
    case 1
    with "1.prems" show ?thesis by (intro exI[of _ "set seen"]) (auto simp: instances_loop.simps)
  next
    case 2
    have stay: "direct_instances ix x \<subseteq> set out \<and> sub_types ix `` {x} \<subseteq> set seen \<union> set (butlast fr)" if "x \<in> set seen" for x
      using "1.prems"[OF that] 2 frontier_last[of fr] by auto
    have "instances_loop ix out seen fr = instances_loop ix out seen (butlast fr)"
      using 2 by (subst instances_loop.simps) simp
    moreover have "set seen \<union> set (butlast fr) = set seen \<union> set fr" using 2 frontier_last[of fr] by auto
    ultimately show ?thesis using "1.IH"(1)[OF 2] stay by (simp only:)
  next
    case 3
    let ?kids = "listed (mi_isChildren ix) (last fr)"
    let ?out = "foldl (\<lambda>acc c. sadd c acc) out (filter (\<lambda>c. c \<notin> set (mi_archetypeIds ix)) ?kids)"
    let ?fr = "butlast fr @ filter (\<lambda>c. c \<in> set (mi_archetypeIds ix)) ?kids"
    have "direct_instances ix x \<subseteq> set ?out \<and> sub_types ix `` {x} \<subseteq> set (sadd (last fr) seen) \<union> set ?fr"
      if "x \<in> set (sadd (last fr) seen)" for x
      using that "1.prems"[of x] frontier_last[OF 3(1)] by (auto simp: direct_instances_def sub_types_def)
    from "1.IH"(2)[OF 3 refl this] obtain seen' where
      "set (sadd (last fr) seen) \<union> set ?fr \<subseteq> seen'" "sub_types ix `` seen' \<subseteq> seen'"
      "set ?out \<subseteq> set (instances_loop ix ?out (sadd (last fr) seen) ?fr)"
      "\<forall>x\<in>seen'. direct_instances ix x \<subseteq> set (instances_loop ix ?out (sadd (last fr) seen) ?fr)" by auto
    moreover have "instances_loop ix out seen fr = instances_loop ix ?out (sadd (last fr) seen) ?fr"
      using 3 by (subst instances_loop.simps) (simp add: Let_def)
    ultimately show ?thesis using frontier_last[OF 3(1)] by (intro exI[of _ seen']) auto
  qed
qed

lemma set_instancesBelow: "set (instancesBelow ts ix) = \<Union> (direct_instances ix ` ((sub_types ix)\<^sup>* `` set ts))"
proof
  show "set (instancesBelow ts ix) \<subseteq> \<Union> (direct_instances ix ` ((sub_types ix)\<^sup>* `` set ts))"
    unfolding instancesBelow_def by (rule instances_loop_sound[where R = "(sub_types ix)\<^sup>* `` set ts"])
      (auto intro: rtrancl_into_rtrancl)
  obtain seen' where seen': "set ts \<subseteq> seen'" "sub_types ix `` seen' \<subseteq> seen'"
      "\<forall>x\<in>seen'. direct_instances ix x \<subseteq> set (instancesBelow ts ix)"
    using instances_loop_complete[of "[]" ix "[]" ts] by (auto simp: instancesBelow_def)
  have "x \<in> seen'" if "(t, x) \<in> (sub_types ix)\<^sup>*" "t \<in> set ts" for t x
    using that by (induction rule: rtrancl_induct) (use seen' in auto)
  with seen'(3) show "\<Union> (direct_instances ix ` ((sub_types ix)\<^sup>* `` set ts)) \<subseteq> set (instancesBelow ts ix)" by blast
qed

lemma distinct_instancesBelow [simp]: "distinct (instancesBelow ts ix)"
  by (simp add: instancesBelow_def instances_loop_distinct)

text \<open>The types of a name: the first Thing that carries it, and every archetype that does.\<close>

definition types_called :: "vos_thing list \<Rightarrow> string \<Rightarrow> string set" where
  "types_called ts name = (case List.find (\<lambda>t. tName t = name) ts of None \<Rightarrow> {}
     | Some f \<Rightarrow> insert (tId f) (tId ` {t \<in> set ts. tName t = name \<and> is_archetype t}))"

lemma byName_fold: "oget (mi_byName (foldl index_thing ix ts)) name =
  (case oget (mi_byName ix) name of Some t \<Rightarrow> Some t | None \<Rightarrow> List.find (\<lambda>t. tName t = name) ts)"
  by (induction ts arbitrary: ix) (auto simp: index_thing_def ohas_iff_oget split: option.splits)

lemma otherTypes_fold: "set (listed (mi_otherTypesByName (foldl index_thing ix ts)) name) \<union>
    (case oget (mi_byName (foldl index_thing ix ts)) name of Some f \<Rightarrow> {tId f} | None \<Rightarrow> {}) =
  set (listed (mi_otherTypesByName ix) name) \<union> (case oget (mi_byName ix) name of Some f \<Rightarrow> {tId f} | None \<Rightarrow>
    (case List.find (\<lambda>t. tName t = name) ts of Some f \<Rightarrow> {tId f} | None \<Rightarrow> {})) \<union> tId ` {t \<in> set ts. tName t = name \<and> is_archetype t}"
proof (induction ts arbitrary: ix)
  case (Cons t ts)
  show ?case
  proof (cases "tName t = name")
    case True
    then show ?thesis unfolding foldl_Cons Cons.IH
      by (cases "oget (mi_byName ix) name") (auto simp: index_thing_def ohas_iff_oget split: option.splits)
  next
    case False
    have "listed (mi_otherTypesByName (index_thing ix t)) name = listed (mi_otherTypesByName ix) name"
      "oget (mi_byName (index_thing ix t)) name = oget (mi_byName ix) name" using False by (simp_all add: index_thing_def)
    moreover have "{t' \<in> set (t # ts). tName t' = name \<and> is_archetype t'} = {t \<in> set ts. tName t = name \<and> is_archetype t}"
      using False by auto
    ultimately show ?thesis unfolding foldl_Cons Cons.IH using False by (simp cong: option.case_cong)
  qed
qed (auto split: option.splits)

lemma otherTypes_build: "mi_otherTypesByName (buildModelIndex ts rs) = mi_otherTypesByName (foldl index_thing empty_index ts)"
  "mi_byName (buildModelIndex ts rs) = mi_byName (foldl index_thing empty_index ts)"
proof -
  have same: "mi_otherTypesByName (foldl index_thing (ix\<lparr>mi_relationships := rs\<rparr>) ts) = mi_otherTypesByName (foldl index_thing ix ts)
    \<and> mi_byName (foldl index_thing (ix\<lparr>mi_relationships := rs\<rparr>) ts) = mi_byName (foldl index_thing ix ts)" for ix
  proof (induction ts arbitrary: ix)
    case (Cons t ts)
    have "index_thing (ix\<lparr>mi_relationships := rs\<rparr>) t = (index_thing ix t)\<lparr>mi_relationships := rs\<rparr>" by (simp add: index_thing_def)
    with Cons show ?case by simp
  qed simp
  have keeps: "mi_otherTypesByName (index_asserted ix r) = mi_otherTypesByName ix"
    "mi_otherTypesByName (index_is p ix r) = mi_otherTypesByName ix" for ix r p
    by (simp_all add: index_asserted_def index_is_def Let_def split: option.split)
  show "mi_otherTypesByName (buildModelIndex ts rs) = mi_otherTypesByName (foldl index_thing empty_index ts)"
    "mi_byName (buildModelIndex ts rs) = mi_byName (foldl index_thing empty_index ts)"
    using same by (simp_all add: buildModelIndex_def Let_def keeps foldl_keeps split: option.split)
qed

lemma find_name_is: "List.find (\<lambda>t. tName t = name) ts = None \<Longrightarrow> {t \<in> set ts. tName t = name \<and> P t} = {}"
  by (auto simp: find_None_iff_all)

lemma set_typeIdsNamed: "set (typeIdsNamed name (buildModelIndex ts rs)) = types_called ts name"
proof -
  let ?ix = "foldl index_thing empty_index ts"
  have empty: "mi_byName empty_index = []" "mi_otherTypesByName empty_index = []" by (simp_all add: empty_index_def)
  have name: "oget (mi_byName ?ix) name = List.find (\<lambda>t. tName t = name) ts"
    using byName_fold[of empty_index ts name] by (simp add: empty)
  show ?thesis
  proof (cases "List.find (\<lambda>t. tName t = name) ts")
    case (Some f)
    with otherTypes_fold[of empty_index ts name] name show ?thesis
      by (auto simp: typeIdsNamed_def types_called_def otherTypes_build empty)
  qed (simp add: typeIdsNamed_def types_called_def otherTypes_build name)
qed

text \<open>One \<open>is\<close> relationship of a model, from a kind to what is one.\<close>

definition is_one_of :: "vos_thing list \<Rightarrow> vos_relationship list \<Rightarrow> (string \<times> string) set" where
  "is_one_of ts rs = {(rTargetId r, rSubjectId r) | r. r \<in> set rs \<and> is_id ts rs = Some (rPredicateId r)}"

definition archetype_ids :: "vos_thing list \<Rightarrow> string set" where
  "archetype_ids ts = tId ` {t \<in> set ts. is_archetype t}"

lemma sub_types_build: "sub_types (buildModelIndex ts rs) = is_one_of ts rs \<inter> UNIV \<times> archetype_ids ts"
  by (auto simp: sub_types_def is_one_of_def archetype_ids_def buildModelIndex_simps(3) buildModelIndex_is split: option.splits)

lemma direct_instances_build: "direct_instances (buildModelIndex ts rs) a = is_one_of ts rs `` {a} - archetype_ids ts"
  by (auto simp: direct_instances_def is_one_of_def archetype_ids_def buildModelIndex_simps(3) buildModelIndex_is split: option.splits)

text \<open>C8. The members of a type are its instances, however deep the types nest, branch or circle: the Things
  that are not archetypes and are directly of a type of that name or of a type beneath one. Each is answered once,
  and no Thing is missed because another type or Thing carries the name first.\<close>

theorem members_are_instances:
  "set (fst (thingIdsOfArchetype name (buildModelIndex ts rs))) =
     {i. i \<notin> archetype_ids ts \<and> (\<exists>t a. t \<in> types_called ts name
        \<and> (t, a) \<in> (is_one_of ts rs \<inter> UNIV \<times> archetype_ids ts)\<^sup>* \<and> (a, i) \<in> is_one_of ts rs)}
   \<and> distinct (fst (thingIdsOfArchetype name (buildModelIndex ts rs)))"
  by (auto simp: thingIdsOfArchetype_def buildModelIndex_simps(6) Let_def set_instancesBelow set_typeIdsNamed
      sub_types_build direct_instances_build)

subsection \<open>Remembering an answer never changes one\<close>

text \<open>The questions whose answers an index remembers, and an index with nothing remembered.\<close>

datatype index_question = AskMembers string | AskEdges string bool | AskPages | AskNames

datatype index_answer = Members "string list" | Edges "(string, string list) omap" | Pages "dashboard_descriptor list"
  | Names "(string, (string, words) omap) omap"

definition ask :: "(string \<Rightarrow> string \<Rightarrow> int) \<Rightarrow> index_question \<Rightarrow> model_index \<Rightarrow> index_answer \<times> model_index" where
  "ask lc q ix = (case q of
     AskMembers archetype \<Rightarrow> apfst Members (thingIdsOfArchetype archetype ix)
   | AskEdges p inbound \<Rightarrow> apfst Edges (adjacency p inbound ix)
   | AskPages \<Rightarrow> apfst Pages (discoverDashboardsFromIndex lc ix)
   | AskNames \<Rightarrow> apfst Names (propertyNamesByArchetype lc ix))"

fun ask_all :: "(string \<Rightarrow> string \<Rightarrow> int) \<Rightarrow> index_question list \<Rightarrow> model_index \<Rightarrow> index_answer list" where
  "ask_all lc [] ix = []"
| "ask_all lc (q # qs) ix = (case ask lc q ix of (a, ix') \<Rightarrow> a # ask_all lc qs ix')"

definition unremembered :: "model_index \<Rightarrow> model_index" where
  "unremembered ix = ix\<lparr>mi_adjacencyByPredicate := [], mi_archetypeMembers := [], mi_dashboards := None, mi_propertyNames := None\<rparr>"

lemma forget_simps [simp]:
  "mi_byId (unremembered ix) = mi_byId ix" "mi_byName (unremembered ix) = mi_byName ix"
  "mi_isChildren (unremembered ix) = mi_isChildren ix"
  "mi_relationshipsByPredicate (unremembered ix) = mi_relationshipsByPredicate ix"
  "mi_predicateNameToId (unremembered ix) = mi_predicateNameToId ix" "mi_archetypeIds (unremembered ix) = mi_archetypeIds ix"
  "mi_isParents (unremembered ix) = mi_isParents ix" "mi_adjacencyByPredicate (unremembered ix) = []" "mi_archetypeMembers (unremembered ix) = []"
  "mi_dashboards (unremembered ix) = None" "mi_propertyNames (unremembered ix) = None"
  "unremembered (unremembered ix) = unremembered ix"
  by (simp_all add: unremembered_def)

lemma forget_updates [simp]:
  "unremembered (ix\<lparr>mi_adjacencyByPredicate := a\<rparr>) = unremembered ix" "unremembered (ix\<lparr>mi_archetypeMembers := m\<rparr>) = unremembered ix"
  "unremembered (ix\<lparr>mi_dashboards := d\<rparr>) = unremembered ix" "unremembered (ix\<lparr>mi_propertyNames := n\<rparr>) = unremembered ix"
  by (simp_all add: unremembered_def)

text \<open>What is read of an index that is not remembered by it.\<close>

lemma instances_loop_forget: "instances_loop (unremembered ix) out seen fr = instances_loop ix out seen fr"
proof (induction ix out seen fr rule: instances_loop.induct)
  case (1 ix out seen fr)
  show ?case
    by (subst (1 2) instances_loop.simps) (use 1 in \<open>simp add: Let_def\<close>)
qed

lemma effective_forget [simp]: "effective lc (unremembered ix) = effective lc ix"
  by (simp add: effective_def lookup_of_def levels_def fun_eq_iff)

lemma otherTypes_forget [simp]: "mi_otherTypesByName (unremembered ix) = mi_otherTypesByName ix"
  by (simp add: unremembered_def)

lemma reads_forget [simp]:
  "instancesBelow ts (unremembered ix) = instancesBelow ts ix"
  "typeIdsNamed name (unremembered ix) = typeIdsNamed name ix"
  "edges_of p inbound (unremembered ix) = edges_of p inbound ix"
  "thingsWithIds ids (unremembered ix) = thingsWithIds ids ix"
  "name_property lc (unremembered ix) = name_property lc ix"
  by (simp_all add: instancesBelow_def instances_loop_forget typeIdsNamed_def edges_of_def
      thingsWithIds_def name_property_def fun_eq_iff cong: option.case_cong)

lemma same_when_forgotten:
  assumes "unremembered ix = unremembered ix'"
  shows "instancesBelow ts ix = instancesBelow ts ix'" "typeIdsNamed name ix = typeIdsNamed name ix'"
    "edges_of p inbound ix = edges_of p inbound ix'" "effective lc ix = effective lc ix'"
    "thingsWithIds ids ix = thingsWithIds ids ix'" "name_property lc ix = name_property lc ix'"
    "mi_predicateNameToId ix = mi_predicateNameToId ix'"
  using assms reads_forget effective_forget forget_simps by metis+

lemma reads_updates [simp]:
  "instancesBelow ts (ix\<lparr>mi_adjacencyByPredicate := a\<rparr>) = instancesBelow ts ix" "instancesBelow ts (ix\<lparr>mi_archetypeMembers := m\<rparr>) = instancesBelow ts ix" "instancesBelow ts (ix\<lparr>mi_dashboards := d\<rparr>) = instancesBelow ts ix" "instancesBelow ts (ix\<lparr>mi_propertyNames := n\<rparr>) = instancesBelow ts ix"
  "typeIdsNamed name (ix\<lparr>mi_adjacencyByPredicate := a\<rparr>) = typeIdsNamed name ix" "typeIdsNamed name (ix\<lparr>mi_archetypeMembers := m\<rparr>) = typeIdsNamed name ix" "typeIdsNamed name (ix\<lparr>mi_dashboards := d\<rparr>) = typeIdsNamed name ix" "typeIdsNamed name (ix\<lparr>mi_propertyNames := n\<rparr>) = typeIdsNamed name ix"
  "edges_of p inbound (ix\<lparr>mi_adjacencyByPredicate := a\<rparr>) = edges_of p inbound ix" "edges_of p inbound (ix\<lparr>mi_archetypeMembers := m\<rparr>) = edges_of p inbound ix" "edges_of p inbound (ix\<lparr>mi_dashboards := d\<rparr>) = edges_of p inbound ix" "edges_of p inbound (ix\<lparr>mi_propertyNames := n\<rparr>) = edges_of p inbound ix"
  "effective lc (ix\<lparr>mi_adjacencyByPredicate := a\<rparr>) = effective lc ix" "effective lc (ix\<lparr>mi_archetypeMembers := m\<rparr>) = effective lc ix" "effective lc (ix\<lparr>mi_dashboards := d\<rparr>) = effective lc ix" "effective lc (ix\<lparr>mi_propertyNames := n\<rparr>) = effective lc ix"
  "thingsWithIds ids (ix\<lparr>mi_adjacencyByPredicate := a\<rparr>) = thingsWithIds ids ix" "thingsWithIds ids (ix\<lparr>mi_archetypeMembers := m\<rparr>) = thingsWithIds ids ix" "thingsWithIds ids (ix\<lparr>mi_dashboards := d\<rparr>) = thingsWithIds ids ix" "thingsWithIds ids (ix\<lparr>mi_propertyNames := n\<rparr>) = thingsWithIds ids ix"
  "name_property lc (ix\<lparr>mi_adjacencyByPredicate := a\<rparr>) = name_property lc ix" "name_property lc (ix\<lparr>mi_archetypeMembers := m\<rparr>) = name_property lc ix" "name_property lc (ix\<lparr>mi_dashboards := d\<rparr>) = name_property lc ix" "name_property lc (ix\<lparr>mi_propertyNames := n\<rparr>) = name_property lc ix"
  by (rule same_when_forgotten; simp)+

lemma adjacency_key_inj: "adjacency_key p b = adjacency_key p' b' \<longleftrightarrow> p = p' \<and> b = b'"
  using step_key_inj[of p "if b then Some In else Some Out" p' "if b' then Some In else Some Out"]
  by (auto simp: adjacency_key_def step_key_def split: if_splits)

text \<open>What is remembered is what would be answered with nothing remembered.\<close>

definition coherent :: "(string \<Rightarrow> string \<Rightarrow> int) \<Rightarrow> model_index \<Rightarrow> bool" where
  "coherent lc ix \<longleftrightarrow>
     (\<forall>k v. oget (mi_archetypeMembers ix) k = Some v \<longrightarrow> v = fst (thingIdsOfArchetype k (unremembered ix)))
   \<and> (\<forall>p inbound v. oget (mi_adjacencyByPredicate ix) (adjacency_key p inbound) = Some v \<longrightarrow> v = edges_of p inbound ix)
   \<and> (\<forall>ds. mi_dashboards ix = Some ds \<longrightarrow> ds = fst (discoverDashboardsFromIndex lc (unremembered ix)))
   \<and> (\<forall>ns. mi_propertyNames ix = Some ns \<longrightarrow> ns = fst (propertyNamesByArchetype lc (unremembered ix)))"

text \<open>A question asked of a coherent index is answered as if nothing were remembered, and leaves the index coherent
  and otherwise as it was.\<close>

definition kept_coherent :: "(string \<Rightarrow> string \<Rightarrow> int) \<Rightarrow> (model_index \<Rightarrow> 'a \<times> model_index) \<Rightarrow> bool" where
  "kept_coherent lc q \<longleftrightarrow> (\<forall>ix. coherent lc ix \<longrightarrow>
     fst (q ix) = fst (q (unremembered ix)) \<and> unremembered (snd (q ix)) = unremembered ix \<and> coherent lc (snd (q ix)))"

lemma kept_members: "kept_coherent lc (thingIdsOfArchetype archetype)"
  by (auto simp: kept_coherent_def coherent_def thingIdsOfArchetype_def Let_def split: option.splits)

lemma kept_adjacency: "kept_coherent lc (adjacency p inbound)"
  by (auto simp: kept_coherent_def coherent_def adjacency_def Let_def adjacency_key_inj split: option.splits)

lemma coherent_forget: "coherent lc (unremembered ix)"
  by (simp add: coherent_def)

lemma keptD:
  assumes "kept_coherent lc q" and "coherent lc ix"
  shows "fst (q ix) = fst (q (unremembered ix))" "unremembered (snd (q ix)) = unremembered ix" "coherent lc (snd (q ix))"
    "unremembered (snd (q (unremembered ix))) = unremembered ix"
  using assms coherent_forget[of lc ix] unfolding kept_coherent_def by (blast, blast, blast, metis forget_simps)

lemma kept_reading:
  assumes q: "kept_coherent lc q" and f: "\<And>a ix. f a (unremembered ix) = f a ix"
  shows "kept_coherent lc (\<lambda>ix. let (a, ix') = q ix in (f a ix', ix'))"
proof -
  have "f a (snd (q ix)) = f a (snd (q (unremembered ix)))" if "coherent lc ix" for a ix
    using keptD[OF q that] f by metis
  then show ?thesis
    unfolding kept_coherent_def Let_def case_prod_beta using keptD[OF q] by simp
qed

lemma kept_answer: "(\<And>ix. f (unremembered ix) = f ix) \<Longrightarrow> kept_coherent lc (\<lambda>ix. (f ix, ix))"
  by (simp add: kept_coherent_def)

lemma kept_choice:
  assumes "\<And>ix. c (unremembered ix) = c ix" and "\<And>v. kept_coherent lc (q v)"
  shows "kept_coherent lc (\<lambda>ix. q (c ix) ix)"
  using assms by (simp add: kept_coherent_def)

lemma kept_then:
  assumes q: "kept_coherent lc q" and r: "\<And>a. kept_coherent lc (r a)"
  shows "kept_coherent lc (\<lambda>ix. let (a, ix') = q ix in r a ix')"
proof -
  have "fst (r a (snd (q ix))) = fst (r a (snd (q (unremembered ix))))" and "unremembered (snd (r a (snd (q ix)))) = unremembered ix"
    and "coherent lc (snd (r a (snd (q ix))))" if c: "coherent lc ix" for a ix
  proof -
    note q' = keptD[OF q c] and q'' = keptD[OF q coherent_forget[of lc ix]]
    from keptD(1)[OF r q'(3), of a] keptD(1)[OF r q''(3), of a] q'(2,4)
    show "fst (r a (snd (q ix))) = fst (r a (snd (q (unremembered ix))))" by simp
    from keptD(2,3)[OF r q'(3), of a] q'(2)
    show "unremembered (snd (r a (snd (q ix)))) = unremembered ix" "coherent lc (snd (r a (snd (q ix))))" by simp_all
  qed
  then show ?thesis
    unfolding kept_coherent_def Let_def case_prod_beta using keptD(1)[OF q] by simp
qed

lemma kept_boundBy: "kept_coherent lc (boundBy roleId)"
  unfolding boundBy_def
proof (rule kept_choice[where c = "\<lambda>ix. oget (mi_predicateNameToId ix) BINDS_PREDICATE_NAME"])
  show "kept_coherent lc (\<lambda>ix. case v of Some bindsId \<Rightarrow> if bindsId = [] then ([], ix)
       else (let (edges, ix) = adjacency bindsId False ix in (listed edges roleId, ix)) | None \<Rightarrow> ([], ix))" for v
    using kept_reading[OF kept_adjacency, of "\<lambda>edges ix. listed edges roleId"]
    by (cases v; cases "the v = []") (simp_all add: kept_answer)
qed simp

lemma kept_thingIdBoundBy: "kept_coherent lc (thingIdBoundBy roleId)"
  unfolding thingIdBoundBy_def by (rule kept_reading[OF kept_boundBy]) simp

lemma kept_beneath: "kept_coherent lc (thingsBoundAndBeneath roleId)"
  unfolding thingsBoundAndBeneath_def by (rule kept_reading[OF kept_thingIdBoundBy]) (simp split: option.split)

text \<open>An answer remembered when it is first computed.\<close>

lemma kept_remembered:
  assumes q: "kept_coherent lc q"
    and op: "\<And>ix. op ix = (case remembered ix of Some v \<Rightarrow> (v, ix) | None \<Rightarrow> (let (a, ix') = q ix in (a, keep a ix')))"
    and none: "\<And>ix. remembered (unremembered ix) = None"
    and right: "\<And>ix v. coherent lc ix \<Longrightarrow> remembered ix = Some v \<Longrightarrow> v = fst (op (unremembered ix))"
    and keep: "\<And>ix a. unremembered (keep a ix) = unremembered ix"
    and still: "\<And>ix a. coherent lc ix \<Longrightarrow> a = fst (op (unremembered ix)) \<Longrightarrow> coherent lc (keep a ix)"
  shows "kept_coherent lc op"
  unfolding kept_coherent_def
proof (intro allI impI)
  fix ix assume c: "coherent lc ix"
  note q' = keptD[OF q c]
  have fresh: "fst (op (unremembered ix)) = fst (q (unremembered ix))" by (simp add: op none case_prod_beta Let_def)
  show "fst (op ix) = fst (op (unremembered ix)) \<and> unremembered (snd (op ix)) = unremembered ix \<and> coherent lc (snd (op ix))"
  proof (cases "remembered ix")
    case None
    then have "op ix = (fst (q ix), keep (fst (q ix)) (snd (q ix)))" by (simp add: op case_prod_beta Let_def)
    with still[OF q'(3), of "fst (q ix)"] q' fresh keep show ?thesis by simp
  next
    case (Some v)
    then have "op ix = (v, ix)" by (simp add: op)
    with right[OF c Some] c show ?thesis by simp
  qed
qed

lemma kept_pages: "kept_coherent lc (discoverDashboardsFromIndex lc)"
proof (rule kept_remembered[where remembered = mi_dashboards and keep = "\<lambda>out ix. ix\<lparr>mi_dashboards := Some out\<rparr>"])
  let ?out = "\<lambda>pages ix. descriptors (sort_by (\<lambda>a b. lc (tName (fst a)) (tName (fst b)))
    (map (\<lambda>t. (t, parseSpecification (oget (effective lc ix t) DASHBOARD_SPECIFICATION_PROPERTY))) pages))"
  show "kept_coherent lc (\<lambda>ix. let (pages, ix') = thingsBoundAndBeneath PAGE_ROLE_ID ix in (?out pages ix', ix'))"
    by (rule kept_reading[OF kept_beneath]) simp
  show "discoverDashboardsFromIndex lc ix = (case mi_dashboards ix of Some ds \<Rightarrow> (ds, ix)
     | None \<Rightarrow> (let (a, ix') = (let (pages, ix') = thingsBoundAndBeneath PAGE_ROLE_ID ix in (?out pages ix', ix'))
         in (a, ix'\<lparr>mi_dashboards := Some a\<rparr>)))" for ix
    by (simp add: discoverDashboardsFromIndex_def Let_def case_prod_beta split: option.split)
qed (auto simp: coherent_def)

lemma kept_names: "kept_coherent lc (propertyNamesByArchetype lc)"
proof (rule kept_remembered[where remembered = mi_propertyNames and keep = "\<lambda>names ix. ix\<lparr>mi_propertyNames := Some names\<rparr>"])
  let ?read = "\<lambda>v ix. case v of None \<Rightarrow> ([], ix)
    | Some predicateId \<Rightarrow> if predicateId = [] then ([], ix)
      else (let (namedArchetypes, ix) = adjacency predicateId False ix in
        let (bound, ix) = boundBy PROPERTY_NAME_ROLE ix in
          (foldl (name_property lc ix namedArchetypes) [] (instancesBelow bound ix), ix))"
  have "kept_coherent lc (?read v)" for v
  proof (cases v)
    case (Some p)
    have "kept_coherent lc (\<lambda>ix. let (namedArchetypes, ix) = adjacency p False ix in
        let (bound, ix) = boundBy PROPERTY_NAME_ROLE ix in
          (foldl (name_property lc ix namedArchetypes) [] (instancesBelow bound ix), ix))"
      by (rule kept_then[OF kept_adjacency]) (rule kept_reading[OF kept_boundBy], simp)
    with Some show ?thesis by (cases "p = []") (simp_all add: kept_answer)
  qed (simp add: kept_answer)
  then show "kept_coherent lc (\<lambda>ix. ?read (oget (mi_predicateNameToId ix) NAMES_PROPERTY_OF_PREDICATE) ix)"
    by (rule kept_choice[rotated]) simp
  show "propertyNamesByArchetype lc ix = (case mi_propertyNames ix of Some names \<Rightarrow> (names, ix)
     | None \<Rightarrow> (let (a, ix') = ?read (oget (mi_predicateNameToId ix) NAMES_PROPERTY_OF_PREDICATE) ix
         in (a, ix'\<lparr>mi_propertyNames := Some a\<rparr>)))" for ix
    by (simp add: propertyNamesByArchetype_def Let_def case_prod_beta split: option.split)
qed (auto simp: coherent_def)

lemma kept_wrapped: "kept_coherent lc f \<Longrightarrow> kept_coherent lc (\<lambda>ix. apfst g (f ix))"
  by (simp add: kept_coherent_def)

lemma kept_ask: "kept_coherent lc (ask lc q)"
  unfolding ask_def
  by (cases q) (simp_all only: index_question.case kept_wrapped kept_members kept_adjacency kept_pages kept_names)

lemma ask_all_coherent: "coherent lc ix \<Longrightarrow> ask_all lc qs ix = map (\<lambda>q. fst (ask lc q (unremembered ix))) qs"
proof (induction qs arbitrary: ix)
  case (Cons q qs)
  from keptD[OF kept_ask Cons.prems, of q] Cons.IH[of "snd (ask lc q ix)"] show ?case by (simp add: case_prod_beta)
qed simp

text \<open>Remembering never changes an answer. However the questions an index remembers its answers to are
  asked, in whatever order and however often, each is answered as an index built for that question alone would
  answer it: an archetype's members, the Things a predicate reaches, the pages and the names of properties.\<close>

lemma remembered_answers:
  "ask_all lc qs (buildModelIndex ts rs) = map (\<lambda>q. fst (ask lc q (buildModelIndex ts rs))) qs"
proof -
  have fresh: "unremembered (buildModelIndex ts rs) = buildModelIndex ts rs" by (simp add: unremembered_def buildModelIndex_simps)
  from coherent_forget[of lc "buildModelIndex ts rs"] have "coherent lc (buildModelIndex ts rs)" unfolding fresh .
  from ask_all_coherent[OF this] show ?thesis unfolding fresh .
qed

subsection \<open>The pages\<close>

definition address_in :: "string list \<Rightarrow> vos_thing \<Rightarrow> string" where
  "address_in slugs t = (let slug = slugOf (tName t) in
     if slug \<noteq> [] \<and> length (filter (\<lambda>x. x = slug) slugs) = 1 then slug else tId t)"

lemma map_descriptors:
  "map dd_id (descriptors found) = map (\<lambda>(t, spec). tId t) found"
  "map dd_name (descriptors found) = map (\<lambda>(t, spec). tName t) found"
  "map dd_routeKey (descriptors found) = map (\<lambda>(t, spec). address_in (map (\<lambda>(t, spec). slugOf (tName t)) found) t) found"
  by (auto simp: descriptors_def Let_def zip_map2 zip_same_conv_map address_in_def)

lemma two_of:
  assumes "x \<in> set xs" "y \<in> set xs" "x \<noteq> y" "f x = v" "f y = v"
  shows "2 \<le> length (filter (\<lambda>u. u = v) (map f xs))"
proof -
  have "card {x, y} \<le> card (set (filter (\<lambda>u. f u = v) xs))" using assms by (intro card_mono) auto
  also have "\<dots> \<le> length (filter (\<lambda>u. f u = v) xs)" by (rule card_length)
  finally show ?thesis using assms(3) by (simp add: filter_map o_def)
qed

lemma addresses_distinct:
  assumes ids: "distinct (map (\<lambda>(t, spec). tId t) found)"
    and apart: "\<And>a b. a \<in> fst ` set found \<Longrightarrow> b \<in> fst ` set found \<Longrightarrow> tId a \<noteq> tId b \<Longrightarrow> slugOf (tName a) \<noteq> tId b"
  shows "distinct (map dd_routeKey (descriptors found))"
proof -
  define slugs where "slugs = map (\<lambda>(t, spec). slugOf (tName t)) found"
  have once: "slugOf (tName (fst x)) \<noteq> slugOf (tName (fst y)) \<or> length (filter (\<lambda>u. u = slugOf (tName (fst y))) slugs) \<noteq> 1"
    if "x \<in> set found" "y \<in> set found" "x \<noteq> y" for x y
    using two_of[OF that, of "\<lambda>(t, spec). slugOf (tName t)" "slugOf (tName (fst y))"] by (auto simp: case_prod_beta slugs_def)
  have "x = y" if xy: "x \<in> set found" "y \<in> set found" and same: "address_in slugs (fst x) = address_in slugs (fst y)" for x y
  proof (rule ccontr)
    assume ne: "x \<noteq> y"
    with ids xy have "tId (fst x) \<noteq> tId (fst y)" using distinct_map_eqD[OF ids, of x y] by (auto simp: case_prod_beta)
    moreover have "slugOf (tName (fst x)) \<noteq> tId (fst y)" "slugOf (tName (fst y)) \<noteq> tId (fst x)"
      using apart[of "fst x" "fst y"] apart[of "fst y" "fst x"] xy calculation by auto
    moreover have "address_in slugs (fst x) = tId (fst x) \<or> address_in slugs (fst x) = slugOf (tName (fst x))"
      "address_in slugs (fst y) = tId (fst y) \<or>
       address_in slugs (fst y) = slugOf (tName (fst y)) \<and> length (filter (\<lambda>u. u = slugOf (tName (fst y))) slugs) = 1"
      by (auto simp: address_in_def Let_def)
    ultimately show False using same once[OF xy ne] by metis
  qed
  moreover have "distinct found" using ids by (simp add: distinct_map)
  ultimately show ?thesis unfolding map_descriptors slugs_def[symmetric] by (auto simp: distinct_map inj_on_def case_prod_beta)
qed

lemma byId_own: "oget (mi_byId (buildModelIndex ts rs)) i = Some t \<Longrightarrow> tId t = i \<and> t \<in> set ts"
  by (auto simp: buildModelIndex_simps dest!: map_of_SomeD)

lemma distinct_thingsWithIds: "distinct ids \<Longrightarrow> distinct (map tId (thingsWithIds ids (buildModelIndex ts rs)))"
proof (induction ids)
  case (Cons i ids)
  have "tId ` set (thingsWithIds ids (buildModelIndex ts rs)) \<subseteq> set ids"
    by (auto simp: thingsWithIds_def dest!: map_filter_get byId_own)
  with Cons show ?case by (auto simp: thingsWithIds_def map_filter_simps dest: byId_own split: option.split)
qed (simp add: thingsWithIds_def map_filter_simps)

lemma adjacency_reads: "snd (adjacency p inbound ix) = ix\<lparr>mi_adjacencyByPredicate := mi_adjacencyByPredicate (snd (adjacency p inbound ix))\<rparr>"
  by (simp add: adjacency_def Let_def split: option.split)

lemma set_thingsWithIds: "tId ` set (thingsWithIds ids (buildModelIndex ts rs)) = set ids \<inter> tId ` set ts"
proof -
  have held: "i \<in> tId ` set ts \<longleftrightarrow> (\<exists>t. oget (mi_byId (buildModelIndex ts rs)) i = Some t)" for i
    by (simp add: buildModelIndex_simps map_of_eq_None_iff image_image flip: not_None_eq)
  show ?thesis
  proof (induction ids)
    case (Cons i ids)
    then show ?case using held[of i]
      by (auto simp: thingsWithIds_def map_filter_simps dest: byId_own split: option.splits)
  qed (simp add: thingsWithIds_def map_filter_simps)
qed

lemma boundBy_forget: "unremembered (snd (thingIdBoundBy roleId ix)) = unremembered ix"
  by (simp add: thingIdBoundBy_def boundBy_def adjacency_def Let_def case_prod_beta split: option.split)

text \<open>The Things the page role's kind has beneath it, and how they are found.\<close>

definition page_things :: "vos_thing list \<Rightarrow> vos_relationship list \<Rightarrow> vos_thing list" where
  "page_things ts rs = fst (thingsBoundAndBeneath PAGE_ROLE_ID (buildModelIndex ts rs))"

lemma page_things_beneath:
  "page_things ts rs = (case fst (thingIdBoundBy PAGE_ROLE_ID (buildModelIndex ts rs)) of None \<Rightarrow> []
     | Some kind \<Rightarrow> if kind = [] then []
       else thingsWithIds (instancesBelow [kind] (buildModelIndex ts rs)) (buildModelIndex ts rs))"
  by (simp add: page_things_def thingsBoundAndBeneath_def Let_def case_prod_beta
      same_when_forgotten(1)[OF boundBy_forget] same_when_forgotten(5)[OF boundBy_forget] split: option.split)

definition read_page :: "(string \<Rightarrow> string \<Rightarrow> int) \<Rightarrow> model_index \<Rightarrow> vos_thing \<Rightarrow> vos_thing \<times> json option" where
  "read_page lc ix t = (t, parseSpecification (oget (effective lc ix t) DASHBOARD_SPECIFICATION_PROPERTY))"

lemma discovered: "discoverDashboards lc ts rs = descriptors (sort_by (\<lambda>a b. lc (tName (fst a)) (tName (fst b)))
    (map (read_page lc (snd (thingsBoundAndBeneath PAGE_ROLE_ID (buildModelIndex ts rs)))) (page_things ts rs)))"
  by (simp add: discoverDashboards_def discoverDashboardsFromIndex_def buildModelIndex_simps(7) Let_def case_prod_beta
      page_things_def read_page_def[abs_def])

lemma distinct_pages: "distinct (map tId (page_things ts rs))"
  by (auto simp: page_things_beneath distinct_thingsWithIds split: option.split)

lemma fst_read_page [simp]: "fst (read_page lc ix t) = t"
  by (simp add: read_page_def)

text \<open>Every page has an address of its own. Pages of the same name, and pages whose name leaves nothing a URL
  can carry, are told apart by their identifiers, so no page is unreachable behind another, as long as no page is
  named with another's identifier.\<close>

lemma addresses_apart:
  assumes "\<And>a b. a \<in> set (discoverDashboards lc ts rs) \<Longrightarrow> b \<in> set (discoverDashboards lc ts rs) \<Longrightarrow>
    dd_id a \<noteq> dd_id b \<Longrightarrow> slugOf (dd_name a) \<noteq> dd_id b"
  shows "distinct (map dd_routeKey (discoverDashboards lc ts rs))"
proof -
  let ?found = "sort_by (\<lambda>a b. lc (tName (fst a)) (tName (fst b)))
    (map (read_page lc (snd (thingsBoundAndBeneath PAGE_ROLE_ID (buildModelIndex ts rs)))) (page_things ts rs))"
  have pairs: "(\<lambda>d. (dd_id d, dd_name d)) ` set (discoverDashboards lc ts rs) = (\<lambda>x. (tId (fst x), tName (fst x))) ` set ?found"
    unfolding discovered descriptors_def Let_def
    by (simp add: zip_map2 zip_same_conv_map case_prod_beta image_image)
  have "distinct (map dd_routeKey (descriptors ?found))"
  proof (rule addresses_distinct)
    show "distinct (map (\<lambda>(t, spec). tId t) ?found)"
      using distinct_pages[of ts rs] by (simp add: case_prod_beta o_def)
    fix a b assume ab: "a \<in> fst ` set ?found" "b \<in> fst ` set ?found" "tId a \<noteq> tId b"
    from ab(1) have "(tId a, tName a) \<in> (\<lambda>d. (dd_id d, dd_name d)) ` set (discoverDashboards lc ts rs)" unfolding pairs by auto
    moreover from ab(2) have "(tId b, tName b) \<in> (\<lambda>d. (dd_id d, dd_name d)) ` set (discoverDashboards lc ts rs)"
      unfolding pairs by auto
    ultimately show "slugOf (tName a) \<noteq> tId b" using assms ab(3) by auto
  qed
  then show ?thesis by (simp add: discovered)
qed

text \<open>A model with a page of its own kind of page, one whose specification cannot be read and one whose name
  leaves nothing a URL can carry.\<close>

definition page_model :: "vos_thing list" where
  "page_model = map (\<lambda>(i, name, kind, ps). \<lparr>tId = i, tName = name, tIsArchetype = Some kind, tProperties = ps,
       tPropertyWriteKinds = None, tInheritedOverrides = None, tDerivedProperties = None\<rparr>)
     [(PAGE_ROLE_ID, ''Page role'', False, []), (''k'', ''Dashboard'', True, []), (''is-id'', ''is'', False, []),
      (''binds-id'', ''binds'', False, []), (''q'', ''!!'', False, []),
      (''p'', ''Water Use'', False, [(''specification'', JObj [(''sections'', JArr [])])])]"

definition page_relationships :: "vos_relationship list" where
  "page_relationships = map (\<lambda>(s, p, t). \<lparr>rId = s, rName = None, rSubjectId = s, rPredicateId = p, rTargetId = t, rProperties = []\<rparr>)
     [(PAGE_ROLE_ID, ''binds-id'', ''k''), (''q'', ''is-id'', ''k''), (''p'', ''is-id'', ''k'')]"

lemmas page_defs = page_model_def page_relationships_def PAGE_ROLE_ID_def

lemma page_model_pages: "discoverDashboards compare_code_units page_model page_relationships =
  [\<lparr>dd_id = ''q'', dd_name = ''!!'', dd_routeKey = ''q'', dd_specification = None\<rparr>,
   \<lparr>dd_id = ''p'', dd_name = ''Water Use'', dd_routeKey = ''water-use'',
     dd_specification = Some (JObj [(''sections'', JArr [])])\<rparr>]"
  by code_simp

lemma addresses_apart_witness: "distinct (map dd_routeKey (discoverDashboards compare_code_units page_model page_relationships))"
proof (rule addresses_apart)
  have "slugOf ''!!'' = []" "slugOf ''Water Use'' = ''water-use''" by code_simp+
  then show "a \<in> set (discoverDashboards compare_code_units page_model page_relationships) \<Longrightarrow>
    b \<in> set (discoverDashboards compare_code_units page_model page_relationships) \<Longrightarrow>
    dd_id a \<noteq> dd_id b \<Longrightarrow> slugOf (dd_name a) \<noteq> dd_id b" for a b
    by (auto simp: page_model_pages)
qed

text \<open>Every page is listed. The pages of a model are the Things beneath the kind of page its role binds,
  whatever they carry: a page whose specification cannot be read is listed like the others. Each is listed
  once, in the order of their names.\<close>

lemma pages_listed:
  assumes "fst (thingIdBoundBy PAGE_ROLE_ID (buildModelIndex ts rs)) = Some kind" and "kind \<noteq> []" and "collation lc"
  shows "set (map dd_id (discoverDashboards lc ts rs)) = {i \<in> tId ` set ts. i \<notin> archetype_ids ts
        \<and> (\<exists>a. (kind, a) \<in> (is_one_of ts rs \<inter> UNIV \<times> archetype_ids ts)\<^sup>* \<and> (a, i) \<in> is_one_of ts rs)}
     \<and> distinct (map dd_id (discoverDashboards lc ts rs))
     \<and> sorted_wrt (\<lambda>a b. lc a b \<le> 0) (map dd_name (discoverDashboards lc ts rs))"
proof -
  let ?ix = "buildModelIndex ts rs"
  have pages: "page_things ts rs = thingsWithIds (instancesBelow [kind] ?ix) ?ix" using assms(1,2) by (simp add: page_things_beneath)
  have "tId ` set (page_things ts rs) = set (instancesBelow [kind] ?ix) \<inter> tId ` set ts" by (simp add: pages set_thingsWithIds)
  moreover have "set (map dd_id (discoverDashboards lc ts rs)) = tId ` set (page_things ts rs)"
    unfolding discovered map_descriptors by (simp add: case_prod_beta image_image)
  moreover have "distinct (map dd_id (discoverDashboards lc ts rs))"
    using distinct_pages[of ts rs] unfolding discovered map_descriptors by (simp add: case_prod_beta o_def)
  moreover have "sorted_wrt (\<lambda>a b. lc a b \<le> 0) (map dd_name (discoverDashboards lc ts rs))"
    using collation.sorted_on[OF assms(3), of "\<lambda>x. tName (fst x)"]
    unfolding discovered map_descriptors by (simp add: case_prod_beta sorted_wrt_map)
  ultimately show ?thesis by (auto simp: set_instancesBelow sub_types_build direct_instances_build)
qed

lemma pages_listed_witness:
  "sorted_wrt (\<lambda>a b. compare_code_units a b \<le> 0) (map dd_name (discoverDashboards compare_code_units page_model page_relationships))
   \<and> set (map dd_id (discoverDashboards compare_code_units page_model page_relationships)) = {''p'', ''q''}"
proof -
  have "fst (thingIdBoundBy PAGE_ROLE_ID (buildModelIndex page_model page_relationships)) = Some ''k''" by code_simp
  from pages_listed[OF this _ code_unit_collation.collation_axioms] show ?thesis by (simp add: page_model_pages insert_commute)
qed

subsection \<open>What an address is made of\<close>

text \<open>An address is lower-case letters and digits in runs joined by single hyphens.\<close>

lemma hyphenate_chars: "set (hyphenate inRun s) \<subseteq> {c. slug_char c} \<union> {CHR ''-''}"
  by (induction inRun s rule: hyphenate.induct) auto

lemma slug_chars: "set (slugOf name) \<subseteq> {c. slug_char c} \<union> {CHR ''-''}"
  using hyphenate_chars[of False "toLowerCase (map base_letter name)"]
  by (auto simp: slugOf_def strip_hyphens_def dest!: set_dropWhileD)

end
