(* ===== verification/Levers.thy ===== *)
theory Levers
  imports IndexFacts
begin

section \<open>What would move a judged figure\<close>

text \<open>
  The levers of \<open>src/api/dashboardApi.ts\<close>: the inputs at the bottom of a figure's derivation, the way each would
  have to move for the figure to leave the state it is held in, and the words the model declares for them. What an
  index remembers is read here as it is computed (\<open>remembered_answers\<close>).
\<close>

subsection \<open>The inputs of a derivation\<close>

record influence =
  in_term :: string
  in_memberArchetype :: "string option"
  in_sign :: int

text \<open>The way a figure moves with a term: \<open>None\<close> where the definition declares none.\<close>

definition term_direction :: "derived_definition \<Rightarrow> string \<Rightarrow> int option" where
  "term_direction d t = (if t \<in> set (list_or_empty (dRisesWith d)) then Some 1
     else if t \<in> set (list_or_empty (dFallsWith d)) then Some (- 1) else None)"

text \<open>\<open>visiting\<close> is the set a property is added to around the walk below it, so what is passed down is the set as it
  stood on the way in. The walk ends because a term is gone into only while it is not being visited.\<close>

function leafInfluences :: "string \<Rightarrow> (string, derived_definition) omap \<Rightarrow> int \<Rightarrow> string list \<Rightarrow> influence list" where
  "leafInfluences property definitions sign visiting = (case oget definitions property of
     None \<Rightarrow> []
   | Some d \<Rightarrow> concat (map (\<lambda>t. case term_direction d t of
         None \<Rightarrow> []
       | Some direction \<Rightarrow>
           if dExpression d = None
           then [\<lparr>in_term = t, in_memberArchetype = dRelatedType d, in_sign = sign * direction\<rparr>]
           else (let below = (if oget definitions t \<noteq> None \<and> t \<notin> set (sadd property visiting)
                   then leafInfluences t definitions (sign * direction) (sadd property visiting) else [])
             in if below \<noteq> [] then below
                else [\<lparr>in_term = t, in_memberArchetype = None, in_sign = sign * direction\<rparr>]))
       (list_or_empty (dReads d))))"
  by pat_completeness auto
termination
proof (relation "measure (\<lambda>(property, definitions, sign, visiting).
    2 * card (fst ` set definitions - set visiting) + (if property \<in> set visiting then 1 else 0))", goal_cases)
  case (2 property definitions sign visiting d t direction)
  let ?K = "fst ` set definitions"
  from 2(1) have property: "property \<in> ?K" by (force dest: map_of_SomeD)
  show ?case
  proof (cases "property \<in> set visiting")
    case True
    with 2 show ?thesis by (simp add: insert_absorb)
  next
    case False
    with property have "?K - set (sadd property visiting) \<subset> ?K - set visiting" by auto
    then have "card (?K - set (sadd property visiting)) < card (?K - set visiting)" by (simp add: psubset_card_mono)
    with 2 False show ?thesis by simp
  qed
qed simp

declare leafInfluences.simps [simp del]

subsection \<open>The words for an input\<close>

definition names_of :: "(string \<Rightarrow> string \<Rightarrow> int) \<Rightarrow> model_index \<Rightarrow> (string, (string, words) omap) omap" where
  "names_of lc ix = fst (propertyNamesByArchetype lc (unremembered ix))"

text \<open>One level of the climb: its Things are seen, and those they are which were not are the next level.\<close>

fun climb_level :: "(string \<Rightarrow> string list) \<Rightarrow> string list \<Rightarrow> string list \<Rightarrow> string list \<Rightarrow> string list \<times> string list" where
  "climb_level parents [] seen higher = (seen, higher)"
| "climb_level parents (i # level) seen higher =
     climb_level parents level (sadd i seen) (higher @ filter (\<lambda>p. p \<notin> set (sadd i seen)) (parents i))"

lemma climb_level_sets:
  "climb_level parents level seen higher = (seen', higher') \<Longrightarrow> set seen' = set seen \<union> set level
   \<and> set higher \<subseteq> set higher' \<and> set higher' \<subseteq> set higher \<union> (\<Union> (set ` parents ` set level) - set seen)"
proof (induction level arbitrary: seen higher)
  case (Cons i level)
  then have "climb_level parents level (sadd i seen) (higher @ filter (\<lambda>p. p \<notin> set (sadd i seen)) (parents i)) = (seen', higher')"
    by simp
  from Cons.IH[OF this] have ih: "set seen' = set (sadd i seen) \<union> set level"
    "set higher \<union> (set (parents i) - set (sadd i seen)) \<subseteq> set higher'"
    "set higher' \<subseteq> set higher \<union> (set (parents i) - set (sadd i seen)) \<union> (\<Union> (set ` parents ` set level) - set (sadd i seen))"
    by auto
  show ?case
  proof (intro conjI)
    show "set seen' = set seen \<union> set (i # level)" using ih(1) by simp
    show "set higher \<subseteq> set higher'" using ih(2) by blast
    show "set higher' \<subseteq> set higher \<union> (\<Union> (set ` parents ` set (i # level)) - set seen)" using ih(3) by auto
  qed
qed simp

lemma set_listed: "set (listed m k) \<subseteq> \<Union> (set ` snd ` set m)"
proof (cases "oget m k")
  case (Some vs)
  then have "vs \<in> snd ` set m" by (metis map_of_SomeD imageI snd_conv)
  with Some show ?thesis by (auto simp: listed_def)
qed (simp add: listed_def)

function words_up :: "(string, string list) omap \<Rightarrow> (string \<Rightarrow> words option) \<Rightarrow> string list \<Rightarrow> string list \<Rightarrow> words option" where
  "words_up parents declared level seen =
     (if level = [] then None
      else case first_some declared level of Some ws \<Rightarrow> Some ws
      | None \<Rightarrow> (case climb_level (listed parents) level seen [] of (seen', higher) \<Rightarrow> words_up parents declared higher seen'))"
  by pat_completeness auto
termination
proof (relation "measure (\<lambda>(parents, declared, level, seen).
    2 * card ((\<Union> (set ` snd ` set parents) \<union> set level) - set seen)
    + (if level = [] then 0 else if set level \<subseteq> set seen then 2 else 1))", goal_cases)
  case (2 parents declared level seen seen' higher)
  define P where "P = \<Union> (set ` snd ` set parents)"
  have "finite P" by (simp add: P_def)
  from climb_level_sets[OF 2(3)[symmetric]] have sets: "set seen' = set seen \<union> set level"
    "set higher \<subseteq> \<Union> (set ` listed parents ` set level) - set seen" by simp_all
  have "set (listed parents k) \<subseteq> P" for k unfolding P_def by (rule set_listed)
  then have "\<Union> (set ` listed parents ` set level) \<subseteq> P" by (simp add: UN_subset_iff)
  moreover have "X \<subseteq> A - S \<Longrightarrow> A \<subseteq> B \<Longrightarrow> X \<subseteq> B \<and> X \<inter> S = {}" for X A S B :: "string set" by blast
  ultimately have higher: "set higher \<subseteq> P" "set higher \<inter> set seen = {}" using sets(2) by metis+
  have U: "P \<union> set higher - set seen' \<subseteq> P \<union> set level - set seen"
    unfolding sets(1) using higher(1) by blast
  have fin: "finite (P \<union> set level - set seen)" using \<open>finite P\<close> by simp
  show ?case
  proof (cases "set level \<subseteq> set seen")
    case True
    with sets(1) have "set seen' = set seen" by blast
    with higher(2) have "higher = [] \<or> \<not> set higher \<subseteq> set seen'" by (cases higher) auto
    then have "(if higher = [] then 0 else if set higher \<subseteq> set seen' then 2 else 1) \<le> (1::nat)" by auto
    moreover have "(if level = [] then 0 else if set level \<subseteq> set seen then 2 else 1) = (2::nat)" using True 2(1) by simp
    ultimately show ?thesis using card_mono[OF fin U] by (simp only: in_measure prod.case P_def)
  next
    case False
    then obtain x where x: "x \<in> set level" "x \<notin> set seen" by blast
    then have "x \<in> P \<union> set level - set seen" "x \<notin> P \<union> set higher - set seen'" unfolding sets(1) by simp_all
    with U have "P \<union> set higher - set seen' \<subset> P \<union> set level - set seen" by blast
    note smaller = psubset_card_mono[OF fin this]
    have "(if higher = [] then 0 else if set higher \<subseteq> set seen' then 2 else 1) \<le> (2::nat)" by auto
    moreover have "(if level = [] then 0 else if set level \<subseteq> set seen then 2 else 1) = (1::nat)" using False 2(1) by simp
    ultimately show ?thesis using smaller by (simp only: in_measure prod.case P_def)
  qed
qed simp

declare words_up.simps [simp del]

definition declaredWords :: "(string \<Rightarrow> string \<Rightarrow> int) \<Rightarrow> string \<Rightarrow> string list \<Rightarrow> model_index \<Rightarrow> words option" where
  "declaredWords lc property holderIds ix =
     words_up (mi_isParents ix) (\<lambda>i. Option.bind (oget (names_of lc ix) i) (\<lambda>m. oget m property)) holderIds []"

subsection \<open>The levers\<close>

datatype lever_direction = Raise | Lower

record lever =
  lv_term :: string
  lv_memberArchetype :: "string option"
  lv_direction :: lever_direction
  lv_words :: "words option"

definition route_key :: "influence \<Rightarrow> string" where
  "route_key leaf = in_term leaf @ [char_of (0::nat)] @ (case in_memberArchetype leaf of Some a \<Rightarrow> a | None \<Rightarrow> [])"

text \<open>Leaves by their key; one whose routes disagree keeps the sign zero.\<close>

definition add_route :: "(string, influence) omap \<Rightarrow> influence \<Rightarrow> (string, influence) omap" where
  "add_route routes leaf = (case oget routes (route_key leaf) of
     None \<Rightarrow> oput (route_key leaf) leaf routes
   | Some seen \<Rightarrow> if in_sign seen \<noteq> in_sign leaf then oput (route_key leaf) (seen\<lparr>in_sign := 0\<rparr>) routes else routes)"

definition result_must_move :: "string \<Rightarrow> int option" where
  "result_must_move operator = (if operator = ''<'' \<or> operator = ''<='' then Some 1
     else if operator = ''>'' \<or> operator = ''>='' then Some (- 1) else None)"

definition lever_of :: "(string \<Rightarrow> string \<Rightarrow> int) \<Rightarrow> vos_thing \<Rightarrow> model_index \<Rightarrow> int \<Rightarrow> influence \<Rightarrow> lever" where
  "lever_of lc judged ix must leaf = \<lparr>lv_term = in_term leaf, lv_memberArchetype = in_memberArchetype leaf,
     lv_direction = (if 0 < must * in_sign leaf then Raise else Lower),
     lv_words = declaredWords lc (in_term leaf)
       (case in_memberArchetype leaf of Some a \<Rightarrow> typeIdsNamed a ix | None \<Rightarrow> [tId judged]) ix\<rparr>"

definition leversFor :: "(string \<Rightarrow> string \<Rightarrow> int) \<Rightarrow> string \<Rightarrow> string \<Rightarrow> vos_thing \<Rightarrow> model_index \<Rightarrow> lever list" where
  "leversFor lc property operator judged ix = (case result_must_move operator of
     None \<Rightarrow> []
   | Some must \<Rightarrow> map (lever_of lc judged ix must) (filter (\<lambda>leaf. in_sign leaf \<noteq> 0)
       (map snd (foldl add_route [] (leafInfluences property (definitions_held lc ix judged) 1 [])))))"

subsection \<open>Where a lever comes from\<close>

text \<open>A chain of declared directions from a figure to an input, its sign the product of theirs.\<close>

inductive moves :: "(string, derived_definition) omap \<Rightarrow> string \<Rightarrow> influence \<Rightarrow> bool" for definitions where
  reduced: "oget definitions p = Some d \<Longrightarrow> dExpression d = None \<Longrightarrow> t \<in> set (list_or_empty (dReads d)) \<Longrightarrow>
    term_direction d t = Some s \<Longrightarrow> moves definitions p \<lparr>in_term = t, in_memberArchetype = dRelatedType d, in_sign = s\<rparr>"
| read: "oget definitions p = Some d \<Longrightarrow> dExpression d \<noteq> None \<Longrightarrow> t \<in> set (list_or_empty (dReads d)) \<Longrightarrow>
    term_direction d t = Some s \<Longrightarrow> moves definitions p \<lparr>in_term = t, in_memberArchetype = None, in_sign = s\<rparr>"
| through: "oget definitions p = Some d \<Longrightarrow> dExpression d \<noteq> None \<Longrightarrow> t \<in> set (list_or_empty (dReads d)) \<Longrightarrow>
    term_direction d t = Some s \<Longrightarrow> moves definitions t leaf \<Longrightarrow> moves definitions p (leaf\<lparr>in_sign := s * in_sign leaf\<rparr>)"

lemma term_direction_sign: "term_direction d t = Some s \<Longrightarrow> s = 1 \<or> s = - 1"
  by (auto simp: term_direction_def split: if_splits)

lemma moves_sign: "moves definitions p leaf \<Longrightarrow> in_sign leaf = 1 \<or> in_sign leaf = - 1"
  by (induction rule: moves.induct) (auto dest: term_direction_sign)

lemma leaf_moves:
  "leaf \<in> set (leafInfluences p definitions sign visiting) \<Longrightarrow>
   \<exists>l. moves definitions p l \<and> leaf = l\<lparr>in_sign := sign * in_sign l\<rparr>"
proof (induction p definitions sign visiting arbitrary: leaf rule: leafInfluences.induct)
  case (1 p definitions sign visiting)
  note unfolded = "1.prems"[unfolded leafInfluences.simps[of p definitions sign visiting]]
  then obtain d where d1: "oget definitions p = Some d" by (cases "oget definitions p") auto
  with unfolded obtain t where t: "t \<in> set (list_or_empty (dReads d))" and in_t: "leaf \<in> set (case term_direction d t of
      None \<Rightarrow> [] | Some s \<Rightarrow> if dExpression d = None
        then [\<lparr>in_term = t, in_memberArchetype = dRelatedType d, in_sign = sign * s\<rparr>]
        else (let below = (if oget definitions t \<noteq> None \<and> t \<notin> set (sadd p visiting)
                then leafInfluences t definitions (sign * s) (sadd p visiting) else [])
          in if below \<noteq> [] then below else [\<lparr>in_term = t, in_memberArchetype = None, in_sign = sign * s\<rparr>]))" by auto
  from in_t obtain s where "term_direction d t = Some s" by (cases "term_direction d t") auto
  note d = d1 t this
  note leaf = in_t[unfolded d(3) option.case]
  consider "dExpression d = None" "leaf = \<lparr>in_term = t, in_memberArchetype = dRelatedType d, in_sign = sign * s\<rparr>"
    | "dExpression d \<noteq> None" "leaf = \<lparr>in_term = t, in_memberArchetype = None, in_sign = sign * s\<rparr>"
    | "dExpression d \<noteq> None" "oget definitions t \<noteq> None \<and> t \<notin> set (sadd p visiting)"
        "leaf \<in> set (leafInfluences t definitions (sign * s) (sadd p visiting))"
    using leaf by (auto simp: Let_def split: if_splits)
  then show ?case
  proof cases
    case 1
    with moves.reduced[OF d(1) _ d(2,3)] show ?thesis by (intro exI conjI) auto
  next
    case 2
    with moves.read[OF d(1) _ d(2,3)] show ?thesis by (intro exI conjI) auto
  next
    case 3
    from "1.IH"[OF d(1,2,3) 3] obtain l where "moves definitions t l" "leaf = l\<lparr>in_sign := sign * s * in_sign l\<rparr>" by blast
    with moves.through[OF d(1) 3(1) d(2,3)] show ?thesis by (intro exI conjI) auto
  qed
qed

text \<open>The entry of a key after any number of leaves: the first leaf of the key, its sign kept while all agree.\<close>

definition routes_of :: "influence list \<Rightarrow> string \<Rightarrow> influence list" where
  "routes_of leaves k = filter (\<lambda>l. route_key l = k) leaves"

definition agreeing :: "influence list \<Rightarrow> bool" where
  "agreeing ls \<longleftrightarrow> list_all (\<lambda>l. in_sign l = in_sign (hd ls)) ls"

lemma oget_add_route: "oget (add_route m x) k = (if route_key x = k
    then (case oget m k of None \<Rightarrow> Some x | Some seen \<Rightarrow> Some (if in_sign seen \<noteq> in_sign x then seen\<lparr>in_sign := 0\<rparr> else seen))
    else oget m k)"
  by (auto simp: add_route_def split: option.split)

lemma route_entry:
  assumes "\<forall>l\<in>set leaves. in_sign l \<noteq> 0"
  shows "oget (foldl add_route [] leaves) k = (case routes_of leaves k of [] \<Rightarrow> None
    | l # ls \<Rightarrow> Some (if agreeing (routes_of leaves k) then l else l\<lparr>in_sign := 0\<rparr>))"
  using assms
proof (induction leaves rule: rev_induct)
  case (snoc x leaves)
  show ?case
  proof (cases "route_key x = k")
    case True
    from snoc have ih: "oget (foldl add_route [] leaves) k = (case routes_of leaves k of [] \<Rightarrow> None
      | l # ls \<Rightarrow> Some (if agreeing (routes_of leaves k) then l else l\<lparr>in_sign := 0\<rparr>))" by simp
    have r: "routes_of (leaves @ [x]) k = routes_of leaves k @ [x]" using True by (simp add: routes_of_def)
    show ?thesis
    proof (cases "routes_of leaves k")
      case Nil
      with True ih r show ?thesis by (simp add: oget_add_route agreeing_def)
    next
      case (Cons l ls)
      have "in_sign x \<noteq> 0" using snoc.prems by simp
      with Cons True ih r show ?thesis by (auto simp: oget_add_route agreeing_def)
    qed
  next
    case False
    then have r: "routes_of (leaves @ [x]) k = routes_of leaves k" by (simp add: routes_of_def)
    show ?thesis unfolding r using False snoc by (simp add: oget_add_route)
  qed
qed (simp add: routes_of_def)

lemma routes_distinct: "okeys_distinct (foldl add_route [] leaves)"
proof -
  have "okeys_distinct m \<Longrightarrow> okeys_distinct (foldl add_route m leaves)" for m
    by (induction leaves arbitrary: m) (auto simp: add_route_def split: option.split)
  then show ?thesis by simp
qed

lemma set_values: "okeys_distinct m \<Longrightarrow> set (map snd m) = {v. \<exists>k. oget m k = Some v}"
  by (force simp: okeys_distinct_def image_iff)

definition leaves_of :: "(string \<Rightarrow> string \<Rightarrow> int) \<Rightarrow> model_index \<Rightarrow> vos_thing \<Rightarrow> string \<Rightarrow> influence list" where
  "leaves_of lc ix judged property = leafInfluences property (definitions_held lc ix judged) 1 []"

lemma leaves_move: "leaf \<in> set (leaves_of lc ix judged property) \<Longrightarrow> moves (definitions_held lc ix judged) property leaf"
  by (auto simp: leaves_of_def dest: leaf_moves)


text \<open>A margin that rises with revenue and falls with cost, held in a state for being below a bound.\<close>

definition margin_shop :: vos_thing where
  "margin_shop = \<lparr>tId = ''s'', tName = ''shop'', tIsArchetype = None, tProperties = [], tPropertyWriteKinds = None,
     tInheritedOverrides = None, tDerivedProperties = Some [(''margin'', \<lparr>dExpression = Some ''revenue - cost'', dFunction = None,
       dPath = None, dRelatedType = None, dPropertyPath = None, dScope = None, dReads = Some [''revenue'', ''cost''],
       dRisesWith = Some [''revenue''], dFallsWith = Some [''cost'']\<rparr>)]\<rparr>"


end
