(* ===== verification/JsArithmetic.thy ===== *)
theory JsArithmetic
  imports JsValue Complex_Main "HOL-Library.Log_Nat"
begin

section \<open>Arithmetic on numbers\<close>

text \<open>
  Addition, division and the least and greatest of several numbers, as the language has them on 64-bit floating
  point. A number is the shortest decimal of its double (\<open>JsValue\<close>), so an operation computes the exact quotient of
  two integers, rounds it to the nearest double, ties to even, and takes the shortest decimal that rounds to the
  same double. A whole quotient of at most \<open>2 ^ 53\<close> is a double and its own shortest decimal.
\<close>

subsection \<open>Rounding to a double\<close>

definition max_exact :: int where
  "max_exact = 9007199254740992"

text \<open>A positive quotient \<open>a / b\<close> to the nearest whole number, a tie to the even one.\<close>

definition round_half_even :: "int \<Rightarrow> int \<Rightarrow> int" where
  "round_half_even a b = (let q = a div b; r = a mod b in if 2 * r < b \<or> 2 * r = b \<and> even q then q else q + 1)"

text \<open>\<open>a * f ^ s / b\<close> as a quotient of integers.\<close>

definition scaled :: "int \<Rightarrow> int \<Rightarrow> int \<Rightarrow> int \<Rightarrow> int \<times> int" where
  "scaled f a b s = (if 0 \<le> s then (a * f ^ nat s, b) else (a, b * f ^ nat (- s)))"

text \<open>A positive quotient as a double: a significand below \<open>2 ^ 53\<close> (or the power itself after rounding up) and its
  binary exponent.\<close>

definition binary_exponent :: "int \<Rightarrow> int \<Rightarrow> int" where
  "binary_exponent a b =
     (let s = bitlen a - bitlen b - 53; (n, d) = scaled 2 a b (- s)
      in max (if max_exact * d \<le> n then s + 1 else s) (- 1074))"

definition to_double :: "int \<Rightarrow> int \<Rightarrow> int \<times> int" where
  "to_double a b =
     (let s = binary_exponent a b; (n, d) = scaled 2 a b (- s); k = round_half_even n d
      in if k = max_exact then (k div 2, s + 1) else (k, s))"

text \<open>The decimal exponent \<open>e\<close> of a positive quotient, \<open>10 ^ (e - 1) \<le> a / b < 10 ^ e\<close>.\<close>

function decimal_exponent :: "int \<Rightarrow> int \<Rightarrow> int" where
  "decimal_exponent a b =
     (if a \<le> 0 \<or> b \<le> 0 then 1
      else if a < b then decimal_exponent (10 * a) b - 1
      else if 10 * b \<le> a then decimal_exponent a (10 * b) + 1 else 1)"
  by pat_completeness auto
termination
  by (relation "measure (\<lambda>(a, b). nat (if a < b then b - a else if 10 * b \<le> a then a - b else 0))") auto

declare decimal_exponent.simps [simp del]

text \<open>The decimal of \<open>n\<close> digits nearest to \<open>a / b\<close> among those that are the double, if there is one.\<close>

definition decimal_with :: "int \<times> int \<Rightarrow> int \<Rightarrow> int \<Rightarrow> int \<Rightarrow> int \<Rightarrow> (int \<times> int) option" where
  "decimal_with double a b e n =
     (let p = e - n; (x, y) = scaled 10 a b (- p); low = x div y; high = low + 1;
          is_it = (\<lambda>c. 0 < c \<and> (case scaled 10 c 1 p of (u, v) \<Rightarrow> to_double u v = double))
      in if is_it low \<and> is_it high
         then Some (if 2 * (x mod y) < y \<or> 2 * (x mod y) = y \<and> even low then low else high, p)
         else if is_it low then Some (low, p) else if is_it high then Some (high, p) else None)"

text \<open>Seventeen digits tell every double from its neighbours.\<close>

fun first_decimal :: "int \<times> int \<Rightarrow> int \<Rightarrow> int \<Rightarrow> int \<Rightarrow> int list \<Rightarrow> jsnum" where
  "first_decimal double a b e [] = NaN"
| "first_decimal double a b e (n # ns) = (case decimal_with double a b e n of Some (m, p) \<Rightarrow> norm_dec m p
     | None \<Rightarrow> first_decimal double a b e ns)"

definition shortest_decimal :: "int \<times> int \<Rightarrow> jsnum" where
  "shortest_decimal double = (case scaled 2 (fst double) 1 (snd double) of
     (a, b) \<Rightarrow> first_decimal double a b (decimal_exponent a b) [1..17])"

definition positive_number :: "int \<Rightarrow> int \<Rightarrow> jsnum" where
  "positive_number a b =
     (if b dvd a \<and> a div b \<le> max_exact then js_int (a div b)
      else (let (k, s) = to_double a b in
        if k = 0 then Dec 0 0
        else if 971 < s then Infty True
        else shortest_decimal (k, s)))"

definition negated :: "jsnum \<Rightarrow> jsnum" where
  "negated n = (case n of NaN \<Rightarrow> NaN | Infty b \<Rightarrow> Infty (\<not> b) | Dec m e \<Rightarrow> Dec (- m) e)"

text \<open>The number of a quotient, for \<open>b\<close> positive.\<close>

definition number_of_quotient :: "int \<Rightarrow> int \<Rightarrow> jsnum" where
  "number_of_quotient a b = (if a = 0 then Dec 0 0 else if 0 < a then positive_number a b
     else negated (positive_number (- a) b))"

subsection \<open>The operations\<close>

text \<open>The exact value of the double a decimal stands for.\<close>

definition quotient :: "int \<Rightarrow> int \<Rightarrow> int \<times> int" where
  "quotient m e = (let (a, b) = scaled 10 m 1 e in
     if b = 1 \<and> \<bar>a\<bar> \<le> max_exact then (a, 1)
     else (let (k, s) = to_double \<bar>a\<bar> b in scaled 2 (if a < 0 then - k else k) 1 s))"

fun num_add :: "jsnum \<Rightarrow> jsnum \<Rightarrow> jsnum" where
  "num_add NaN _ = NaN"
| "num_add _ NaN = NaN"
| "num_add (Infty a) (Infty b) = (if a = b then Infty a else NaN)"
| "num_add (Infty a) _ = Infty a"
| "num_add _ (Infty b) = Infty b"
| "num_add (Dec m e) (Dec n f) = (case (quotient m e, quotient n f) of
     ((a, b), (c, d)) \<Rightarrow> number_of_quotient (a * d + c * b) (b * d))"

text \<open>Zero has one sign here, so dividing by it answers the infinity of the dividend's sign.\<close>

fun num_div :: "jsnum \<Rightarrow> jsnum \<Rightarrow> jsnum" where
  "num_div NaN _ = NaN"
| "num_div _ NaN = NaN"
| "num_div (Infty a) (Infty b) = NaN"
| "num_div (Infty a) (Dec n f) = Infty (if n < 0 then \<not> a else a)"
| "num_div (Dec m e) (Infty b) = Dec 0 0"
| "num_div (Dec m e) (Dec n f) = (if n = 0 then (if m = 0 then NaN else Infty (0 < m))
     else (case (quotient m e, quotient n f) of
       ((a, b), (c, d)) \<Rightarrow> number_of_quotient (if 0 < c then a * d else - (a * d)) (b * \<bar>c\<bar>)))"

fun num_mul :: "jsnum \<Rightarrow> jsnum \<Rightarrow> jsnum" where
  "num_mul NaN _ = NaN"
| "num_mul _ NaN = NaN"
| "num_mul (Infty a) (Infty b) = Infty (a = b)"
| "num_mul (Infty a) (Dec n f) = (if n = 0 then NaN else Infty (a = (0 < n)))"
| "num_mul (Dec m e) (Infty b) = (if m = 0 then NaN else Infty (b = (0 < m)))"
| "num_mul (Dec m e) (Dec n f) = (case (quotient m e, quotient n f) of
     ((a, b), (c, d)) \<Rightarrow> number_of_quotient (a * c) (b * d))"

text \<open>Subtraction; \<open>Math.abs\<close>; \<open>Math.floor\<close>; and the double a literal with more digits than a double keeps is read as.\<close>

definition num_sub :: "jsnum \<Rightarrow> jsnum \<Rightarrow> jsnum" where
  "num_sub a b = num_add a (negated b)"

definition num_abs :: "jsnum \<Rightarrow> jsnum" where
  "num_abs n = (case n of NaN \<Rightarrow> NaN | Infty b \<Rightarrow> Infty True | Dec m e \<Rightarrow> Dec \<bar>m\<bar> e)"

definition num_floor :: "jsnum \<Rightarrow> jsnum" where
  "num_floor n = (case n of Dec m e \<Rightarrow> (case quotient m e of (a, b) \<Rightarrow> number_of_quotient (a div b) 1) | _ \<Rightarrow> n)"

definition as_double :: "jsnum \<Rightarrow> jsnum" where
  "as_double n = (case n of Dec m e \<Rightarrow> (case quotient m e of (a, b) \<Rightarrow> number_of_quotient a b) | _ \<Rightarrow> n)"

text \<open>The whole number a position in a list is rounded to, towards zero; and what an array gives from one position up to
  another, a negative position counted from its end.\<close>

fun whole_part :: "int \<Rightarrow> jsnum \<Rightarrow> int" where
  "whole_part len NaN = 0"
| "whole_part len (Infty b) = (if b then len else - len)"
| "whole_part len (Dec m e) = (if 0 \<le> e then m * 10 ^ nat e else sgn m * (\<bar>m\<bar> div 10 ^ nat (- e)))"

definition position_in :: "int \<Rightarrow> int \<Rightarrow> nat" where
  "position_in len p = nat (if p < 0 then max 0 (len + p) else min p len)"

definition js_slice :: "'a list \<Rightarrow> jsnum \<Rightarrow> jsnum \<Rightarrow> 'a list" where
  "js_slice xs i j = (let len = int (length xs); first = position_in len (whole_part len i);
       last = position_in len (whole_part len j) in take (last - first) (drop first xs))"

definition num_sum :: "jsnum list \<Rightarrow> jsnum" where
  "num_sum ns = foldl num_add (Dec 0 0) ns"

text \<open>\<open>Math.min(...ns)\<close> and \<open>Math.max(...ns)\<close>.\<close>

definition least_of :: "jsnum list \<Rightarrow> jsnum" where
  "least_of ns = foldl math_min (Infty True) ns"

definition greatest_of :: "jsnum list \<Rightarrow> jsnum" where
  "greatest_of ns = foldl math_max (Infty False) ns"

subsection \<open>Whole numbers are added exactly\<close>

lemma norm_dec_shift: "\<exists>m k. norm_dec n e = Dec m (e + int k) \<and> m * 10 ^ k = n \<or> n = 0 \<and> norm_dec n e = Dec 0 0"
proof (induction n e rule: norm_dec.induct)
  case (1 n e)
  show ?case
  proof (cases "n = 0 \<or> n mod 10 \<noteq> 0")
    case True
    then show ?thesis by (subst (1 2) norm_dec.simps) (auto intro!: exI[of _ n] exI[of _ "0::nat"])
  next
    case False
    then obtain m k where "norm_dec (n div 10) (e + 1) = Dec m (e + 1 + int k) \<and> m * 10 ^ k = n div 10
        \<or> n div 10 = 0 \<and> norm_dec (n div 10) (e + 1) = Dec 0 0" using 1 False by auto
    moreover have "n = 10 * (n div 10)" using False by auto
    ultimately have "norm_dec n e = Dec m (e + int (Suc k)) \<and> m * 10 ^ Suc k = n"
      using False by (subst norm_dec.simps) auto
    then show ?thesis by blast
  qed
qed

lemma js_int_dec: "\<exists>m e. js_int n = Dec m e \<and> 0 \<le> e \<and> m * 10 ^ nat e = n"
  using norm_dec_shift[of n 0] by (force simp: js_int_def)

lemma quotient_js_int: "\<bar>n\<bar> \<le> max_exact \<Longrightarrow> js_int n = Dec m e \<Longrightarrow> quotient m e = (n, 1)"
  using js_int_dec[of n] by (auto simp: quotient_def scaled_def)

lemma negated_js_int: "negated (js_int n) = js_int (- n)"
proof -
  have "negated (norm_dec n e) = norm_dec (- n) e" for e
  proof (induction n e rule: norm_dec.induct)
    case (1 n e)
    consider "n = 0" | "n \<noteq> 0" "n mod 10 = 0" | "n \<noteq> 0" "n mod 10 \<noteq> 0" by blast
    then show ?case
    proof cases
      case 2
      then have "- n mod 10 = 0" "- n div 10 = - (n div 10)" by (auto simp: zmod_zminus1_eq_if zdiv_zminus1_eq_if)
      with 1 2 show ?thesis by (subst (1 2) norm_dec.simps) simp
    next
      case 3
      then have "- n mod 10 \<noteq> 0" by (simp add: zmod_zminus1_eq_if)
      with 3 show ?thesis by (subst (1 2) norm_dec.simps) (simp add: negated_def)
    qed (simp add: norm_dec.simps negated_def)
  qed
  then show ?thesis by (simp add: js_int_def)
qed

lemma js_int_zero [simp]: "js_int 0 = Dec 0 0"
  by (simp add: js_int_def norm_dec.simps)

lemma whole_number: "\<bar>n\<bar> \<le> max_exact \<Longrightarrow> number_of_quotient n 1 = js_int n"
  by (auto simp: number_of_quotient_def positive_number_def negated_js_int)

lemma num_add_whole:
  assumes "\<bar>a\<bar> \<le> max_exact" "\<bar>b\<bar> \<le> max_exact" "\<bar>a + b\<bar> \<le> max_exact"
  shows "num_add (js_int a) (js_int b) = js_int (a + b)"
proof -
  obtain m e n f where "js_int a = Dec m e" "js_int b = Dec n f" using js_int_dec by meson
  with quotient_js_int[OF assms(1), of m e] quotient_js_int[OF assms(2), of n f] whole_number[OF assms(3)]
  show ?thesis by simp
qed

text \<open>A sum of whole numbers, none of them negative, is exact as long as it stays within \<open>2 ^ 53\<close>.\<close>

lemma num_sum_whole:
  assumes "\<forall>n\<in>set ns. 0 \<le> n" and "sum_list ns \<le> max_exact"
  shows "num_sum (map js_int ns) = js_int (sum_list ns)"
proof -
  have "foldl num_add (js_int a) (map js_int ns) = js_int (a + sum_list ns)"
    if "0 \<le> a" "a + sum_list ns \<le> max_exact" "\<forall>n\<in>set ns. 0 \<le> n" for a
    using that
  proof (induction ns arbitrary: a)
    case (Cons n ns)
    then have "0 \<le> sum_list ns" by (auto intro: sum_list_nonneg)
    with Cons.prems have "num_add (js_int a) (js_int n) = js_int (a + n)" by (intro num_add_whole) auto
    with Cons show ?case by (simp add: add.assoc)
  qed simp
  from this[of 0] assms show ?thesis by (simp add: num_sum_def)
qed

subsection \<open>The order of numbers, the least and the greatest\<close>

definition dec_value :: "int \<Rightarrow> int \<Rightarrow> real" where
  "dec_value m e = of_int m * 10 powi e"

lemma dec_le_value: "dec_le m e n f \<longleftrightarrow> dec_value m e \<le> dec_value n f"
proof -
  let ?l = "min e f"
  have "dec_value i g = of_int (i * 10 ^ nat (g - ?l)) * 10 powi ?l" if "?l \<le> g" for i g
  proof -
    have "(10::real) powi g = 10 powi (g - ?l) * 10 powi ?l" by (simp flip: power_int_add)
    moreover have "(10::real) powi (g - ?l) = 10 ^ nat (g - ?l)" using that by (simp add: power_int_def)
    ultimately show ?thesis by (simp add: dec_value_def)
  qed
  from this[of e m] this[of f n] have "dec_value m e \<le> dec_value n f \<longleftrightarrow>
      (of_int (m * 10 ^ nat (e - ?l)) :: real) \<le> of_int (n * 10 ^ nat (f - ?l))"
    by (simp del: of_int_mult of_int_power)
  then show ?thesis unfolding dec_le_def Let_def
    by (simp del: of_int_mult of_int_power)
qed

lemma jsnum_cases [case_names NaN Most Least Dec]:
  obtains "n = NaN" | "n = Infty True" | "n = Infty False" | m e where "n = Dec m e"
proof (cases n)
  case (Infty b)
  with that show ?thesis by (cases b) auto
qed (use that in auto)

lemma num_le_trans: "num_le a b \<Longrightarrow> num_le b c \<Longrightarrow> num_le a c"
  by (cases a rule: jsnum_cases; cases b rule: jsnum_cases; cases c rule: jsnum_cases) (auto simp: dec_le_value)

text \<open>A choice between two numbers folded over a list picks one of them that stands to all as the choice does.\<close>

lemma chosen_of:
  assumes choose: "\<And>a b. a \<noteq> NaN \<Longrightarrow> b \<noteq> NaN \<Longrightarrow> (f a b = a \<or> f a b = b) \<and> R (f a b) a \<and> R (f a b) b"
    and trans: "\<And>a b c. R a b \<Longrightarrow> R b c \<Longrightarrow> R a c" and refl: "\<And>a. a \<noteq> NaN \<Longrightarrow> R a a"
  shows "z \<noteq> NaN \<Longrightarrow> NaN \<notin> set ns \<Longrightarrow>
    foldl f z ns \<in> insert z (set ns) \<and> (\<forall>n\<in>insert z (set ns). R (foldl f z ns) n)"
proof (induction ns arbitrary: z)
  case (Cons n ns)
  have c: "f z n = z \<or> f z n = n" "R (f z n) z" "R (f z n) n" using choose[of z n] Cons.prems by auto
  with Cons.prems have "f z n \<noteq> NaN" "NaN \<notin> set ns" by auto
  note ih = Cons.IH[OF this]
  then have "R (foldl f (f z n) ns) (f z n)" by blast
  with ih c(1) trans[OF this c(2)] trans[OF this c(3)] show ?case by auto
qed (use refl in auto)

lemma num_le_refl: "a \<noteq> NaN \<Longrightarrow> num_le a a"
  using num_le_total[of a a] by simp

lemma math_min_chooses: "a \<noteq> NaN \<Longrightarrow> b \<noteq> NaN \<Longrightarrow>
    (math_min a b = a \<or> math_min a b = b) \<and> num_le (math_min a b) a \<and> num_le (math_min a b) b"
  using num_le_total[of a b] num_le_refl[of a] num_le_refl[of b] by (auto simp: math_min_def)

lemma math_max_chooses: "a \<noteq> NaN \<Longrightarrow> b \<noteq> NaN \<Longrightarrow>
    (math_max a b = a \<or> math_max a b = b) \<and> num_le a (math_max a b) \<and> num_le b (math_max a b)"
  using num_le_total[of a b] num_le_refl[of a] num_le_refl[of b] by (auto simp: math_max_def)

lemma least_of_least:
  assumes "NaN \<notin> set ns" and "ns \<noteq> []"
  shows "least_of ns \<in> set ns \<and> (\<forall>n\<in>set ns. num_le (least_of ns) n)"
proof -
  have "foldl math_min (Infty True) ns \<in> insert (Infty True) (set ns)
      \<and> (\<forall>n\<in>insert (Infty True) (set ns). num_le (foldl math_min (Infty True) ns) n)"
    by (rule chosen_of[OF math_min_chooses num_le_trans num_le_refl]) (use assms(1) in simp_all)
  moreover obtain n where "n \<in> set ns" using assms(2) by (cases ns) auto
  moreover have "num_le (Infty True) n \<Longrightarrow> n = Infty True" for n by (cases n rule: jsnum_cases) auto
  ultimately show ?thesis unfolding least_of_def by (metis insertE insertI2)
qed

lemma greatest_of_greatest:
  assumes "NaN \<notin> set ns" and "ns \<noteq> []"
  shows "greatest_of ns \<in> set ns \<and> (\<forall>n\<in>set ns. num_le n (greatest_of ns))"
proof -
  have "foldl math_max (Infty False) ns \<in> insert (Infty False) (set ns)
      \<and> (\<forall>n\<in>insert (Infty False) (set ns). num_le n (foldl math_max (Infty False) ns))"
    by (rule chosen_of[where R = "\<lambda>a b. num_le b a", OF math_max_chooses num_le_trans num_le_refl]) (use assms(1) in simp_all)
  moreover obtain n where "n \<in> set ns" using assms(2) by (cases ns) auto
  moreover have "num_le n (Infty False) \<Longrightarrow> n = Infty False" for n by (cases n rule: jsnum_cases) auto
  ultimately show ?thesis unfolding greatest_of_def by (metis insertE insertI2)
qed

end
