(* ===== verification/BindingResolution.thy ===== *)
theory BindingResolution
  imports Levers JsArithmetic
begin

section \<open>Resolving a binding\<close>

text \<open>
  The second half of \<open>src/api/dashboardApi.ts\<close>, with the questions of \<open>src/api/modelReads.ts\<close> and
  \<open>src/api/stateQuery.ts\<close> and the ranges of \<open>src/utils/rangeHelpers.ts\<close>: from a binding and the context it is
  resolved in to a number, a text, rows or a series, which are JSON values here as they are in the language. The
  reads are what a loaded model cannot answer: functions of the question, as they are within one generation of
  reads. A read may be refused, so a resolution answers a refusal or a value; where two questions asked together are
  both refused, the first is reported. What an index remembers is read as it is computed (\<open>remembered_answers\<close>).
\<close>

subsection \<open>Questions and answers\<close>

datatype read_refusal = ReadRefused | StateCountMissing string | Malformed

type_synonym 'a read_result = "read_refusal + 'a"

definition and_then :: "'a read_result \<Rightarrow> ('a \<Rightarrow> 'b read_result) \<Rightarrow> 'b read_result" where
  "and_then x f = (case x of Inl e \<Rightarrow> Inl e | Inr v \<Rightarrow> f v)"

fun each :: "('a \<Rightarrow> 'b read_result) \<Rightarrow> 'a list \<Rightarrow> 'b list read_result" where
  "each f [] = Inr []"
| "each f (x # xs) = and_then (f x) (\<lambda>y. and_then (each f xs) (\<lambda>ys. Inr (y # ys)))"

record state_narrowing =
  sn_alsoIn :: "string list option"
  sn_notIn :: "string list option"
  sn_type :: "string option"
  sn_within :: "string option"
  sn_withinPredicate :: "string option"
  sn_includeArchetypes :: "bool option"
  sn_limit :: "jsnum option"
  sn_properties :: "string list option"
  sn_countOnly :: "bool option"

record state_member =
  sm_Id :: string
  sm_Name :: string
  sm_Properties :: "props option"

record things_in_state =
  ts_StateName :: string
  ts_Things :: "state_member list option"
  ts_Count :: "jsnum option"

record criteria_comparison =
  cp_PropertyName :: string
  cp_Operator :: string
  cp_Value :: "json option"

record judge_range =
  rn_Name :: string
  rn_Comparisons :: "criteria_comparison list"

datatype inherited_ranges = InheritedRanges "judge_range list" "inherited_ranges list"

record thing_ranges =
  rn_OwnRanges :: "judge_range list"
  rn_InheritedRanges :: "inherited_ranges list"

record aggregate_query =
  aq_function :: reduction
  aq_memberType :: string
  aq_timestampProperty :: string
  aq_measureProperty :: "string option"
  aq_windowSeconds :: jsnum
  aq_bucketSeconds :: jsnum
  aq_within :: "string option"
  aq_withinPredicate :: "string option"

record numeric_step =
  ns_fold :: history_fold
  ns_function :: history_function
  ns_percentile :: "jsnum option"
  ns_from :: "jsnum option"
  ns_to :: "jsnum option"
  ns_threshold :: "jsnum option"

record reduce_query =
  rq_thingId :: string
  rq_property :: string
  rq_windowSeconds :: jsnum
  rq_utcOffsetSeconds :: "jsnum option"
  rq_steps :: "numeric_step list"

record model_reads =
  rd_thingsInState :: "string \<Rightarrow> state_narrowing option \<Rightarrow> things_in_state read_result"
  rd_thingRanges :: "string \<Rightarrow> thing_ranges option read_result"
  rd_aggregate :: "aggregate_query \<Rightarrow> jsnum list read_result"
  rd_reduce :: "reduce_query \<Rightarrow> (string \<times> jsnum) list read_result"
  rd_fromService :: "string \<Rightarrow> json \<Rightarrow> json option read_result"

record resolve_context =
  rc_index :: model_index
  rc_scopeId :: "string option"
  rc_compareArchetype :: "string option"
  rc_reads :: model_reads

definition no_narrowing :: state_narrowing where
  "no_narrowing = \<lparr>sn_alsoIn = None, sn_notIn = None, sn_type = None, sn_within = None, sn_withinPredicate = None,
     sn_includeArchetypes = None, sn_limit = None, sn_properties = None, sn_countOnly = None\<rparr>"

text \<open>\<open>if (text)\<close> on an optional text: the empty text reads as absent.\<close>

definition written :: "string option \<Rightarrow> string option" where
  "written t = (if t = Some [] then None else t)"

subsection \<open>The scope\<close>

definition containerFor :: "scope_reference option \<Rightarrow> resolve_context \<Rightarrow> (string \<times> string) option" where
  "containerFor scope c = (case (scope, written (rc_scopeId c)) of
     (Some sc, Some i) \<Rightarrow> if sr_direction sc = Some In then None else Some (i, sr_viaPredicate sc)
   | _ \<Rightarrow> None)"

definition within_container :: "(string \<times> string) option \<Rightarrow> state_narrowing \<Rightarrow> state_narrowing" where
  "within_container scope n = (case scope of None \<Rightarrow> n
     | Some (container, predicate) \<Rightarrow> n\<lparr>sn_within := Some container, sn_withinPredicate := Some predicate\<rparr>)"

text \<open>The walk from the scope's Thing along one predicate: those walked, the Thing itself first, and those still to
  follow.\<close>

function scope_loop :: "(string, string list) omap \<Rightarrow> string list \<Rightarrow> string list \<Rightarrow> string list" where
  "scope_loop edges walked frontier =
     (if frontier = [] then walked
      else (case find_children (listed edges (last frontier)) walked (butlast frontier) of
        (walked', frontier') \<Rightarrow> scope_loop edges walked' frontier'))"
  by pat_completeness auto
termination
proof (relation "measures [\<lambda>(edges, walked, frontier). card (\<Union> (set ` snd ` set edges) - set walked),
    \<lambda>(edges, walked, frontier). length frontier]", goal_cases)
  case (2 edges walked frontier walked' frontier')
  from find_children_decreases[OF _ set_listed 2(1) 2(2)[symmetric]] show ?case by auto
qed simp

declare scope_loop.simps [simp del]

text \<open>The Thing the walk starts from is seeded as walked and never a member of its own scope.\<close>

definition scopeMemberIds :: "scope_reference option \<Rightarrow> resolve_context \<Rightarrow> string list option" where
  "scopeMemberIds scope c = (case (scope, written (rc_scopeId c)) of
     (Some sc, Some i) \<Rightarrow> Some (case written (oget (mi_predicateNameToId (rc_index c)) (sr_viaPredicate sc)) of
         None \<Rightarrow> []
       | Some p \<Rightarrow> tl (scope_loop (edges_of p (sr_direction sc = Some In) (rc_index c)) [i] [i]))
   | _ \<Rightarrow> None)"

subsection \<open>Values\<close>

definition numeric :: "json option \<Rightarrow> jsnum" where
  "numeric v = (case v of Some (JNum n) \<Rightarrow> n | Some (JBool b) \<Rightarrow> if b then Dec 1 0 else Dec 0 0 | _ \<Rightarrow> NaN)"

definition nullableNumber :: "json option \<Rightarrow> jsnum option" where
  "nullableNumber v = (if numeric v = NaN then None else Some (numeric v))"

definition number_or_null :: "jsnum option \<Rightarrow> json" where
  "number_or_null n = (case n of Some x \<Rightarrow> JNum x | None \<Rightarrow> JNull)"

definition text_or_null :: "string option \<Rightarrow> json" where
  "text_or_null s = (case s of Some x \<Rightarrow> JStr x | None \<Rightarrow> JNull)"

text \<open>\<open>===\<close> and the comparison of \<open>includes\<close> between a value held and one written in a specification: two objects are
  never the same one.\<close>

fun same_value :: "json \<Rightarrow> json \<Rightarrow> bool" where
  "same_value (JArr a) _ = False"
| "same_value (JObj a) _ = False"
| "same_value a b = (a = b)"

definition strictly_equal :: "json option \<Rightarrow> json \<Rightarrow> bool" where
  "strictly_equal v w = (case v of None \<Rightarrow> False | Some x \<Rightarrow> same_value x w \<and> x \<noteq> JNum NaN)"

definition passes_filter :: "props \<Rightarrow> property_filter \<Rightarrow> bool" where
  "passes_filter ps f = (let v = oget ps (pf_property f); n = numeric v; w = numeric (Some (pf_value f)) in
     case pf_operator f of
       OpEq \<Rightarrow> strictly_equal v (pf_value f)
     | OpNe \<Rightarrow> \<not> strictly_equal v (pf_value f)
     | OpGt \<Rightarrow> num_lt w n | OpGe \<Rightarrow> num_le w n | OpLt \<Rightarrow> num_lt n w | OpLe \<Rightarrow> num_le n w
     | OpIn \<Rightarrow> (case (pf_value f, v) of (JArr ws, Some x) \<Rightarrow> list_ex (same_value x) ws | _ \<Rightarrow> False))"

definition passesFilters :: "(string \<Rightarrow> string \<Rightarrow> int) \<Rightarrow> vos_thing \<Rightarrow> property_filter list option \<Rightarrow> model_index \<Rightarrow> bool" where
  "passesFilters lc t filters ix = (case filters of None \<Rightarrow> True
     | Some fs \<Rightarrow> list_all (passes_filter (effective lc ix t)) fs)"

definition referencedThing :: "string option \<Rightarrow> resolve_context \<Rightarrow> vos_thing option" where
  "referencedThing reference c = (case written reference of
     Some r \<Rightarrow>
       if r = SCOPE_REFERENCE then Option.bind (written (rc_scopeId c)) (oget (mi_byId (rc_index c)))
       else (case oget (mi_byId (rc_index c)) r of Some t \<Rightarrow> Some t | None \<Rightarrow> oget (mi_byName (rc_index c)) r)
   | None \<Rightarrow> Option.bind (written (rc_scopeId c)) (oget (mi_byId (rc_index c))))"

subsection \<open>Walks\<close>

definition member_ids :: "things_in_state \<Rightarrow> string list" where
  "member_ids r = map sm_Id (list_or_empty (ts_Things r))"

definition stateMemberIds :: "string \<Rightarrow> resolve_context \<Rightarrow> string list read_result" where
  "stateMemberIds state c = and_then (rd_thingsInState (rc_reads c) state None) (\<lambda>r. Inr (set_of (member_ids r)))"

text \<open>Keeping, of the Things reached, those a state holds or those it does not; no state named or nothing reached asks
  nothing.\<close>

definition keep_by_state :: "bool \<Rightarrow> string option \<Rightarrow> resolve_context \<Rightarrow> string list \<Rightarrow> string list read_result" where
  "keep_by_state keeping state c ids = (case written state of None \<Rightarrow> Inr ids
     | Some s \<Rightarrow> if ids = [] then Inr []
         else and_then (stateMemberIds s c) (\<lambda>members. Inr (filter (\<lambda>i. (i \<in> set members) = keeping) ids)))"

definition reached_along :: "relation_step \<Rightarrow> model_index \<Rightarrow> string list \<Rightarrow> string list" where
  "reached_along step ix fromIds = (case written (oget (mi_predicateNameToId ix) (rs_predicate step)) of
     None \<Rightarrow> []
   | Some p \<Rightarrow>
       (let ids = set_of (concat (map (listed (edges_of p (rs_direction step = Some In) ix)) fromIds)) in
        case written (rs_archetype step) of None \<Rightarrow> ids
        | Some archetype \<Rightarrow> filter (\<lambda>i. i \<in> set (members_of archetype ix)) ids))"

definition followStep :: "string list \<Rightarrow> relation_step \<Rightarrow> resolve_context \<Rightarrow> string list read_result" where
  "followStep fromIds step c =
     and_then (keep_by_state True (rs_inState step) c (reached_along step (rc_index c) fromIds))
       (keep_by_state False (rs_notInState step) c)"

fun follow_path :: "resolve_context \<Rightarrow> relation_step list \<Rightarrow> string list \<Rightarrow> string list read_result" where
  "follow_path c [] reached = Inr reached"
| "follow_path c (step # via) reached = and_then (followStep reached step c)
     (\<lambda>ids. if ids = [] then Inr [] else follow_path c via ids)"

definition thingsReached ::
  "(string \<Rightarrow> string \<Rightarrow> int) \<Rightarrow> string option \<Rightarrow> relation_step list option \<Rightarrow> resolve_context \<Rightarrow> vos_thing list read_result" where
  "thingsReached lc reference via c = (case referencedThing reference c of None \<Rightarrow> Inr []
     | Some start \<Rightarrow>
        if list_or_empty via = [] then Inr [start]
        else and_then (follow_path c (list_or_empty via) [tId start]) (\<lambda>reached.
          Inr (sort_by (\<lambda>a b. lc (tName a) (tName b)) (thingsWithIds reached (rc_index c)))))"

subsection \<open>Reductions over Things\<close>

definition things_of :: "string \<Rightarrow> resolve_context \<Rightarrow> vos_thing list" where
  "things_of archetype c = thingsWithIds (members_of archetype (rc_index c)) (rc_index c)"

text \<open>The members an aggregate reduces: those of its archetype, or of the scope's members those of its archetype.\<close>

definition aggregateMembers :: "(string \<Rightarrow> string \<Rightarrow> int) \<Rightarrow> string \<Rightarrow> property_filter list option \<Rightarrow> scope_reference option
    \<Rightarrow> resolve_context \<Rightarrow> vos_thing list" where
  "aggregateMembers lc archetype wh scope c =
     (let ofArchetype = members_of archetype (rc_index c);
          candidates = (case scopeMemberIds scope c of Some members \<Rightarrow> filter (\<lambda>i. i \<in> set ofArchetype) members
            | None \<Rightarrow> ofArchetype)
      in filter (\<lambda>t. passesFilters lc t wh (rc_index c)) (thingsWithIds candidates (rc_index c)))"

definition value_of :: "(string \<Rightarrow> string \<Rightarrow> int) \<Rightarrow> resolve_context \<Rightarrow> string \<Rightarrow> vos_thing \<Rightarrow> jsnum" where
  "value_of lc c property t = numeric (oget (effective lc (rc_index c) t) property)"

definition numbers_of :: "(string \<Rightarrow> string \<Rightarrow> int) \<Rightarrow> resolve_context \<Rightarrow> string \<Rightarrow> vos_thing list \<Rightarrow> jsnum list" where
  "numbers_of lc c property ts = filter (\<lambda>n. n \<noteq> NaN) (map (value_of lc c property) ts)"

definition average :: "jsnum list \<Rightarrow> jsnum" where
  "average ns = num_div (num_sum ns) (js_int (int (length ns)))"

definition aggregateValue :: "(string \<Rightarrow> string \<Rightarrow> int) \<Rightarrow> reduction \<Rightarrow> string option \<Rightarrow> vos_thing list \<Rightarrow> resolve_context \<Rightarrow> jsnum" where
  "aggregateValue lc red property members c =
     (if red = RCount then js_int (int (length members))
      else (let ns = numbers_of lc c (case property of Some p \<Rightarrow> p | None \<Rightarrow> []) members in
        if ns = [] then Dec 0 0
        else case red of RSum \<Rightarrow> num_sum ns | RAverage \<Rightarrow> average ns | RMin \<Rightarrow> least_of ns | RMax \<Rightarrow> greatest_of ns
          | RCount \<Rightarrow> Dec 0 0))"

definition divide_numbers :: "jsnum option \<Rightarrow> jsnum option \<Rightarrow> jsnum option" where
  "divide_numbers dividend divisor = (case (dividend, divisor) of
     (Some a, Some b) \<Rightarrow> if b = Dec 0 0 then None else Some (num_div a b) | _ \<Rightarrow> None)"

definition asNumber :: "json \<Rightarrow> jsnum option" where
  "asNumber r = (case r of JNum n \<Rightarrow> if n = NaN then None else Some n | _ \<Rightarrow> None)"

definition asCell :: "json \<Rightarrow> json" where
  "asCell r = (case r of JStr s \<Rightarrow> r | _ \<Rightarrow> number_or_null (asNumber r))"

definition asRows :: "json \<Rightarrow> json list" where
  "asRows r = (case r of JArr (x # xs) \<Rightarrow>
     (case x of JObj _ \<Rightarrow> x # xs | JArr _ \<Rightarrow> x # xs | JNull \<Rightarrow> x # xs | _ \<Rightarrow> []) | _ \<Rightarrow> [])"

definition asSeries :: "json \<Rightarrow> json list" where
  "asSeries r = (case r of JArr (JNum n # xs) \<Rightarrow> JNum n # xs | _ \<Rightarrow> [])"

subsection \<open>Single values\<close>

definition resolve_property :: "(string \<Rightarrow> string \<Rightarrow> int) \<Rightarrow> string \<Rightarrow> string \<Rightarrow> resolve_context \<Rightarrow> json" where
  "resolve_property lc thing property c =
     (if thing = SCOPE_REFERENCE then (case written (rc_scopeId c) of
         Some i \<Rightarrow> (case oget (mi_byId (rc_index c)) i of Some t \<Rightarrow> JNum (value_of lc c property t) | None \<Rightarrow> JNull)
       | None \<Rightarrow>
          (let ns = numbers_of lc c property
             (case written (rc_compareArchetype c) of Some a \<Rightarrow> things_of a c | None \<Rightarrow> [])
           in if ns = [] then JNull else JNum (average ns)))
      else (case referencedThing (Some thing) c of Some t \<Rightarrow> JNum (value_of lc c property t) | None \<Rightarrow> JNull))"

definition resolve_related ::
  "(string \<Rightarrow> string \<Rightarrow> int) \<Rightarrow> relation_step list \<Rightarrow> string option \<Rightarrow> string option \<Rightarrow> resolve_context \<Rightarrow> json read_result" where
  "resolve_related lc via thing property c = and_then (thingsReached lc thing (Some via) c) (\<lambda>reached.
     (let vs = List.map_filter (\<lambda>t. case (case written property of
              Some p \<Rightarrow> oget (effective lc (rc_index c) t) p | None \<Rightarrow> Some (JStr (tName t))) of
            Some v \<Rightarrow> if v = JNull \<or> v = JStr [] then None else Some v
          | None \<Rightarrow> None) reached
      in Inr (case vs of [] \<Rightarrow> JNull | [JNum n] \<Rightarrow> JNum n
        | _ \<Rightarrow> JStr (join '', '' (sort_by lc (set_of (map js_string vs)))))))"

fun first_state :: "resolve_context \<Rightarrow> string \<Rightarrow> string list \<Rightarrow> json read_result" where
  "first_state c i [] = Inr JNull"
| "first_state c i (s # states) = and_then (stateMemberIds s c)
     (\<lambda>members. if i \<in> set members then Inr (JStr s) else first_state c i states)"

definition resolve_stateOf :: "string list \<Rightarrow> string option \<Rightarrow> resolve_context \<Rightarrow> json read_result" where
  "resolve_stateOf states thing c = (case referencedThing thing c of None \<Rightarrow> Inr JNull | Some t \<Rightarrow> first_state c (tId t) states)"

subsection \<open>Verdicts\<close>

fun range_in :: "string \<Rightarrow> inherited_ranges \<Rightarrow> judge_range option" where
  "range_in name (InheritedRanges ranges nested) = (case List.find (\<lambda>r. rn_Name r = name) ranges of Some r \<Rightarrow> Some r
     | None \<Rightarrow> foldr (\<lambda>s rest. case range_in name s of Some r \<Rightarrow> Some r | None \<Rightarrow> rest) nested None)"

definition findRange :: "string \<Rightarrow> thing_ranges \<Rightarrow> judge_range option" where
  "findRange name ranges = (case List.find (\<lambda>r. rn_Name r = name) (rn_OwnRanges ranges) of Some r \<Rightarrow> Some r
     | None \<Rightarrow> first_some (range_in name) (rn_InheritedRanges ranges))"

definition words_json :: "words \<Rightarrow> json" where
  "words_json ws = JObj (map (\<lambda>(k, w). (k, JStr w)) ws)"

definition lever_json :: "lever \<Rightarrow> json" where
  "lever_json l = JObj ([(''term'', JStr (lv_term l))]
     @ (case lv_memberArchetype l of Some a \<Rightarrow> [(''memberArchetype'', JStr a)] | None \<Rightarrow> [])
     @ [(''direction'', JStr (if lv_direction l = Raise then ''raise'' else ''lower''))]
     @ (case lv_words l of Some ws \<Rightarrow> [(''words'', words_json ws)] | None \<Rightarrow> []))"

definition verdict_row_of :: "(string \<Rightarrow> string \<Rightarrow> int) \<Rightarrow> resolve_context \<Rightarrow> vos_thing \<Rightarrow> thing_ranges option \<Rightarrow> verdict_candidate \<Rightarrow> json" where
  "verdict_row_of lc c t ranges candidate =
     (let against = Option.bind ranges (\<lambda>rs. Option.bind (findRange (vc_state candidate) rs)
            (\<lambda>r. case rn_Comparisons r of [] \<Rightarrow> None | x # _ \<Rightarrow> Some x));
          levers = (case against of Some a \<Rightarrow> if vc_levers candidate \<noteq> None
              then leversFor lc (cp_PropertyName a) (cp_Operator a) t (rc_index c) else [] | None \<Rightarrow> [])
      in JObj ([(''state'', JStr (vc_state candidate)), (''reads'', JStr (vc_reads candidate)),
          (''property'', text_or_null (map_option cp_PropertyName against)),
          (''operator'', text_or_null (map_option cp_Operator against)),
          (''target'', number_or_null (Option.bind against (\<lambda>a. nullableNumber (cp_Value a)))),
          (''value'', number_or_null (Option.bind against (\<lambda>a. nullableNumber (oget (effective lc (rc_index c) t) (cp_PropertyName a)))))]
        @ (if levers = [] then [] else [(''levers'', JArr (map lever_json levers))])))"

definition verdicts_of :: "(string \<Rightarrow> string \<Rightarrow> int) \<Rightarrow> verdict_candidate list \<Rightarrow> string list list \<Rightarrow> resolve_context
    \<Rightarrow> vos_thing \<Rightarrow> json list read_result" where
  "verdicts_of lc states membership c t =
     (let holding = map fst (filter (\<lambda>(candidate, members). tId t \<in> set members) (zip states membership)) in
      if holding = [] then Inr []
      else and_then (rd_thingRanges (rc_reads c) (tId t)) (\<lambda>ranges. Inr (map (verdict_row_of lc c t ranges) holding)))"

definition resolve_verdict :: "(string \<Rightarrow> string \<Rightarrow> int) \<Rightarrow> verdict_candidate list \<Rightarrow> string option \<Rightarrow> relation_step list option
    \<Rightarrow> resolve_context \<Rightarrow> json read_result" where
  "resolve_verdict lc states thing via c = and_then (thingsReached lc thing via c) (\<lambda>judged.
     if judged = [] then Inr (JArr [])
     else and_then (each (\<lambda>s. stateMemberIds (vc_state s) c) states) (\<lambda>membership.
       and_then (each (verdicts_of lc states membership c) judged) (\<lambda>rows. Inr (JArr (concat rows)))))"

subsection \<open>Origins and workings\<close>

definition recordedSourceOf :: "(string \<Rightarrow> string \<Rightarrow> int) \<Rightarrow> vos_thing \<Rightarrow> origin_source option \<Rightarrow> resolve_context
    \<Rightarrow> (string option \<times> string option) read_result" where
  "recordedSourceOf lc carrying source c = (case source of None \<Rightarrow> Inr (None, None)
     | Some src \<Rightarrow> and_then (thingsReached lc (Some (tId carrying)) (os_via src) c) (\<lambda>reached.
         Inr (case reached of [] \<Rightarrow> (None, None)
           | t # others \<Rightarrow>
              (let named = join '', '' (map tName reached) in
               case (others, written (os_resolvedAt src)) of
                 ([], Some at_property) \<Rightarrow> (Some named, (case not_null (oget (effective lc (rc_index c) t) at_property) of
                    Some v \<Rightarrow> Some (js_string v) | None \<Rightarrow> None))
               | _ \<Rightarrow> (Some named, None)))))"

definition origin_word :: "origin_kind \<Rightarrow> string" where
  "origin_word k = (case k of Stated \<Rightarrow> ''stated'' | Measured \<Rightarrow> ''measured'' | Assumed \<Rightarrow> ''assumed''
     | UnknownOrigin \<Rightarrow> ''unknown'')"

definition origin_row :: "(string \<Rightarrow> string \<Rightarrow> int) \<Rightarrow> string \<Rightarrow> (string \<times> string) list \<Rightarrow> origin_source option \<Rightarrow> resolve_context
    \<Rightarrow> vos_thing \<Rightarrow> json read_result" where
  "origin_row lc property reads source c t =
     (let from_what = valueOrigin lc (lookup_of (rc_index c)) t property;
          recorded = (case vo_assumedFrom from_what of Some archetype \<Rightarrow> Inr (Some archetype, None)
            | None \<Rightarrow> recordedSourceOf lc t source c)
      in and_then recorded (\<lambda>(src, resolvedAt). Inr (JObj [(''origin'', JStr (origin_word (vo_origin from_what))),
           (''reads'', text_or_null (oget reads (origin_word (vo_origin from_what)))),
           (''source'', text_or_null src), (''resolvedAt'', text_or_null resolvedAt)])))"

definition resolve_origin :: "(string \<Rightarrow> string \<Rightarrow> int) \<Rightarrow> string \<Rightarrow> string option \<Rightarrow> relation_step list option
    \<Rightarrow> (string \<times> string) list \<Rightarrow> origin_source option \<Rightarrow> resolve_context \<Rightarrow> json read_result" where
  "resolve_origin lc property thing via reads source c = and_then (thingsReached lc thing via c) (\<lambda>carrying.
     and_then (each (origin_row lc property reads source c) carrying) (\<lambda>rows. Inr (JArr rows)))"

definition working_rows :: "(string \<Rightarrow> string \<Rightarrow> int) \<Rightarrow> string \<Rightarrow> resolve_context \<Rightarrow> vos_thing \<Rightarrow> json list" where
  "working_rows lc property c t = (case oget (definitions_held lc (rc_index c) t) property of None \<Rightarrow> []
     | Some d \<Rightarrow> map (\<lambda>term. case dExpression d of
           None \<Rightarrow> JObj [(''formula'', JNull), (''term'', JStr term), (''memberArchetype'', text_or_null (dRelatedType d))]
         | Some formula \<Rightarrow> JObj [(''formula'', JStr formula), (''term'', JStr term),
             (''value'', number_or_null (nullableNumber (oget (effective lc (rc_index c) t) term)))])
       (list_or_empty (dReads d)))"

definition resolve_working :: "(string \<Rightarrow> string \<Rightarrow> int) \<Rightarrow> string \<Rightarrow> string option \<Rightarrow> relation_step list option \<Rightarrow> resolve_context \<Rightarrow> json read_result" where
  "resolve_working lc property thing via c = and_then (thingsReached lc thing via c) (\<lambda>computing.
     Inr (JArr (concat (map (working_rows lc property c) computing))))"

subsection \<open>Rows\<close>

text \<open>A row is an object. The identity is written first and the properties over it, one called \<open>id\<close> or \<open>name\<close> included.\<close>

definition row_with :: "string \<Rightarrow> string \<Rightarrow> props \<Rightarrow> props" where
  "row_with i name ps = oassign [(''id'', JStr i), (''name'', JStr name)] ps"

definition rowOfThing :: "(string \<Rightarrow> string \<Rightarrow> int) \<Rightarrow> string \<Rightarrow> string \<Rightarrow> resolve_context \<Rightarrow> props" where
  "rowOfThing lc i name c = row_with i name (case oget (mi_byId (rc_index c)) i of
     Some t \<Rightarrow> effective lc (rc_index c) t | None \<Rightarrow> [])"

text \<open>The context a computed column of a row is resolved in: the row's own Thing as the scope. An identity that is not
  text is taken by its printing; it names no Thing either way, Things being identified by UUIDs.\<close>

definition row_context :: "resolve_context \<Rightarrow> props \<Rightarrow> resolve_context" where
  "row_context c row = c\<lparr>rc_scopeId := (case oget row ''id'' of None \<Rightarrow> None | Some JNull \<Rightarrow> None
     | Some v \<Rightarrow> Some (js_string v))\<rparr>"

definition compute_row :: "(binding \<Rightarrow> resolve_context \<Rightarrow> json read_result) \<Rightarrow> (string \<times> binding option) list
    \<Rightarrow> resolve_context \<Rightarrow> props \<Rightarrow> props read_result" where
  "compute_row resolve computed c row =
     and_then (each (\<lambda>(key, value). case value of None \<Rightarrow> Inl Malformed | Some b \<Rightarrow> resolve b (row_context c row)) computed)
       (\<lambda>vs. Inr (foldl (\<lambda>r ((key, value), v). oput key (asCell v) r) row (zip computed vs)))"

definition withComputedColumns :: "(binding \<Rightarrow> resolve_context \<Rightarrow> json read_result) \<Rightarrow> (string \<times> binding option) list option
    \<Rightarrow> resolve_context \<Rightarrow> props list \<Rightarrow> json read_result" where
  "withComputedColumns resolve computed c rows =
     (if list_or_empty computed = [] then Inr (JArr (map JObj rows))
      else and_then (each (compute_row resolve (list_or_empty computed) c) rows) (\<lambda>rs. Inr (JArr (map JObj rs))))"

definition reference_row :: "state_member \<Rightarrow> props" where
  "reference_row t = row_with (sm_Id t) (sm_Name t) (case sm_Properties t of Some ps \<Rightarrow> ps | None \<Rightarrow> [])"

definition no_number :: "jsnum \<Rightarrow> bool" where
  "no_number n \<longleftrightarrow> n = NaN \<or> n = Dec 0 0"

text \<open>\<open>if (limit) list.slice(0, limit)\<close>.\<close>

definition limited :: "jsnum option \<Rightarrow> 'a list \<Rightarrow> 'a list" where
  "limited most xs = (case most of Some n \<Rightarrow> if no_number n then xs else js_slice xs (Dec 0 0) n | None \<Rightarrow> xs)"

definition state_question :: "string option \<Rightarrow> string option \<Rightarrow> (string \<times> string) option \<Rightarrow> state_narrowing" where
  "state_question archetype excludeState scope = within_container scope
     (no_narrowing\<lparr>sn_type := archetype, sn_notIn := map_option (\<lambda>s. [s]) (written excludeState)\<rparr>)"

text \<open>The members a scope the request cannot carry is narrowed to afterwards.\<close>

definition members_left :: "scope_reference option \<Rightarrow> resolve_context \<Rightarrow> string list option" where
  "members_left scope c = (if containerFor scope c \<noteq> None then None else scopeMemberIds scope c)"

definition resolve_stateCount :: "string \<Rightarrow> scope_reference option \<Rightarrow> string option \<Rightarrow> string option \<Rightarrow> resolve_context \<Rightarrow> json read_result" where
  "resolve_stateCount state scope archetype excludeState c =
     (let narrowing = state_question archetype excludeState (containerFor scope c) in
      case members_left scope c of
        Some members \<Rightarrow> and_then (rd_thingsInState (rc_reads c) state (Some narrowing)) (\<lambda>response.
          Inr (JNum (js_int (int (length (filter (\<lambda>t. sm_Id t \<in> set members) (list_or_empty (ts_Things response))))))))
      | None \<Rightarrow> and_then (rd_thingsInState (rc_reads c) state (Some (narrowing\<lparr>sn_countOnly := Some True\<rparr>))) (\<lambda>response.
          case ts_Count response of None \<Rightarrow> Inl (StateCountMissing state) | Some n \<Rightarrow> Inr (JNum n)))"

definition state_list_question :: "string option \<Rightarrow> string option \<Rightarrow> jsnum option \<Rightarrow> string list option \<Rightarrow> scope_reference option
    \<Rightarrow> resolve_context \<Rightarrow> state_narrowing" where
  "state_list_question archetype excludeState most properties scope c =
     (state_question archetype excludeState (containerFor scope c))\<lparr>
       sn_limit := (if members_left scope c \<noteq> None then None else most), sn_properties := properties\<rparr>"

definition state_list_members :: "string \<Rightarrow> string option \<Rightarrow> scope_reference option \<Rightarrow> jsnum option \<Rightarrow> string option
    \<Rightarrow> string list option \<Rightarrow> resolve_context \<Rightarrow> state_member list read_result" where
  "state_list_members state excludeState scope most archetype properties c =
     and_then (rd_thingsInState (rc_reads c) state (Some (state_list_question archetype excludeState most properties scope c)))
       (\<lambda>response. Inr (case members_left scope c of
           Some members \<Rightarrow> limited most (filter (\<lambda>t. sm_Id t \<in> set members) (list_or_empty (ts_Things response)))
         | None \<Rightarrow> list_or_empty (ts_Things response)))"

definition thing_list_members :: "(string \<Rightarrow> string \<Rightarrow> int) \<Rightarrow> string \<Rightarrow> scope_reference option \<Rightarrow> string option
    \<Rightarrow> property_filter list option \<Rightarrow> resolve_context \<Rightarrow> vos_thing list read_result" where
  "thing_list_members lc archetype scope inState wh c =
     (let listed_things = filter (\<lambda>t. passesFilters lc t wh (rc_index c))
            (filter (\<lambda>t. case scopeMemberIds scope c of Some members \<Rightarrow> tId t \<in> set members | None \<Rightarrow> True) (things_of archetype c))
      in case written inState of
           Some s \<Rightarrow> if listed_things = [] then Inr []
             else and_then (rd_thingsInState (rc_reads c) s (Some (no_narrowing\<lparr>sn_type := Some archetype\<rparr>)))
               (\<lambda>response. Inr (filter (\<lambda>t. tId t \<in> set (member_ids response)) listed_things))
         | None \<Rightarrow> Inr listed_things)"

definition compare_row :: "(string \<Rightarrow> string \<Rightarrow> int) \<Rightarrow> string list \<Rightarrow> resolve_context \<Rightarrow> vos_thing \<Rightarrow> props" where
  "compare_row lc properties c t = foldl (\<lambda>row p. oput p (JNum (value_of lc c p t)) row)
     [(''id'', JStr (tId t)), (''name'', JStr (tName t))] properties"

subsection \<open>Services\<close>

fun withScope :: "string option \<Rightarrow> json \<Rightarrow> json" where
  "withScope scopeId (JArr xs) = JArr (map (withScope scopeId) xs)"
| "withScope scopeId (JObj m) = JObj (of_entries (map (\<lambda>(k, v). (k, withScope scopeId v)) m))"
| "withScope scopeId v = (if v = JStr SCOPE_REFERENCE then text_or_null scopeId else v)"

text \<open>\<open>object[key]\<close>: an element or the length of an array, a field of an object.\<close>

definition member_at :: "json option \<Rightarrow> string \<Rightarrow> json option" where
  "member_at v key = (case v of
     Some (JObj m) \<Rightarrow> oget m key
   | Some (JArr xs) \<Rightarrow>
      if key = ''length'' then Some (JNum (js_int (int (length xs))))
      else map_option fst (List.find (\<lambda>(x, i). nat_digits i = key) (zip xs [0..<length xs]))
   | _ \<Rightarrow> None)"

definition selectPath :: "json option \<Rightarrow> string option \<Rightarrow> json option" where
  "selectPath v path = (case written path of None \<Rightarrow> v | Some p \<Rightarrow> foldl member_at v (split_on CHR ''.'' p))"

definition resolve_service :: "string \<Rightarrow> json option \<Rightarrow> string option \<Rightarrow> resolve_context \<Rightarrow> json read_result" where
  "resolve_service endpoint body select c =
     Inr (case rd_fromService (rc_reads c) endpoint (withScope (rc_scopeId c) (coalesce body (JObj []))) of
       Inl e \<Rightarrow> JNull | Inr response \<Rightarrow> coalesce (selectPath response select) JNull)"

subsection \<open>Series over time\<close>

definition REDUCTION_FOLD :: "reduction \<Rightarrow> (jsnum list \<Rightarrow> jsnum) option" where
  "REDUCTION_FOLD red = (case red of RCount \<Rightarrow> Some num_sum | RSum \<Rightarrow> Some num_sum | RMin \<Rightarrow> Some least_of
     | RMax \<Rightarrow> Some greatest_of | RAverage \<Rightarrow> None)"

definition point_fold :: "jsnum \<Rightarrow> reduction \<Rightarrow> (jsnum list \<Rightarrow> jsnum) option" where
  "point_fold per red = (if per = Dec 1 0 then Some (\<lambda>buckets. case buckets of b # _ \<Rightarrow> b | [] \<Rightarrow> NaN) else REDUCTION_FOLD red)"

text \<open>The points: one for each bucket from which as many buckets as a point covers can be taken.\<close>

definition points_of :: "(jsnum list \<Rightarrow> jsnum) \<Rightarrow> jsnum \<Rightarrow> jsnum list \<Rightarrow> jsnum list" where
  "points_of fold_buckets per buckets =
     map (\<lambda>oldest. fold_buckets (js_slice buckets (js_int (int oldest)) (num_add (js_int (int oldest)) per)))
       (takeWhile (\<lambda>oldest. num_le (num_add (js_int (int oldest)) per) (js_int (int (length buckets))))
         [0..<length buckets + nat \<bar>whole_part 0 per\<bar> + 2])"

definition series_question :: "string \<Rightarrow> string \<Rightarrow> string option \<Rightarrow> reduction \<Rightarrow> jsnum \<Rightarrow> jsnum \<Rightarrow> jsnum \<Rightarrow> scope_reference option
    \<Rightarrow> resolve_context \<Rightarrow> aggregate_query" where
  "series_question archetype happenedAt property red bucketSeconds buckets per scope c =
     \<lparr>aq_function = red, aq_memberType = archetype, aq_timestampProperty = happenedAt,
      aq_measureProperty = (if red = RCount then None else property),
      aq_windowSeconds = num_mul bucketSeconds (num_add (num_add buckets per) (Dec (- 1) 0)), aq_bucketSeconds = bucketSeconds,
      aq_within = map_option fst (containerFor scope c), aq_withinPredicate = map_option snd (containerFor scope c)\<rparr>"

definition seriesPoints :: "binding \<Rightarrow> resolve_context \<Rightarrow> jsnum list option" where
  "seriesPoints b c = (case b of
     Timeseries archetype happenedAt property red bucketSeconds buckets bucketsPerPoint scope \<Rightarrow>
       (let per = (case bucketsPerPoint of Some n \<Rightarrow> n | None \<Rightarrow> Dec 1 0) in
        if Option.bind scope sr_direction = Some In then None
        else case point_fold per red of None \<Rightarrow> None
        | Some fold_buckets \<Rightarrow>
           (case rd_aggregate (rc_reads c) (series_question archetype happenedAt property red bucketSeconds buckets per scope c) of
              Inl e \<Rightarrow> None | Inr bs \<Rightarrow> Some (points_of fold_buckets per bs)))
   | _ \<Rightarrow> None)"

definition resolveTimeseries :: "binding \<Rightarrow> resolve_context \<Rightarrow> json" where
  "resolveTimeseries b c = (case b of
     Timeseries archetype happenedAt property red bucketSeconds buckets bucketsPerPoint scope \<Rightarrow>
       (case seriesPoints b c of None \<Rightarrow> JNull
        | Some points \<Rightarrow> if num_lt (Dec 1 0) buckets then JArr (map JNum points)
            else (case points of p # _ \<Rightarrow> JNum p | [] \<Rightarrow> JNull))
   | _ \<Rightarrow> JNull)"

definition resolve_latest :: "binding \<Rightarrow> resolve_context \<Rightarrow> json" where
  "resolve_latest series c = (case seriesPoints series c of Some (p # ps) \<Rightarrow> JNum (last (p # ps)) | _ \<Rightarrow> JNull)"

subsection \<open>History\<close>

definition UTC_OFFSET_PROPERTY :: string where
  "UTC_OFFSET_PROPERTY = ''utcOffsetSeconds''"

text \<open>A bound parameter: absent, a number, or what its binding answers, which may be nothing.\<close>

definition resolve_parameter :: "(binding \<Rightarrow> resolve_context \<Rightarrow> json read_result) \<Rightarrow> resolve_context \<Rightarrow> bound_number option
    \<Rightarrow> jsnum option option read_result" where
  "resolve_parameter resolve c v = (case v of None \<Rightarrow> Inr (Some None)
     | Some (Written n) \<Rightarrow> Inr (Some (Some n))
     | Some (Bound b) \<Rightarrow> and_then (resolve b c) (\<lambda>r. Inr (map_option Some (asNumber r))))"

text \<open>The parameters in their order, stopping at the first that has no answer.\<close>

fun resolve_parameters :: "(binding \<Rightarrow> resolve_context \<Rightarrow> json read_result) \<Rightarrow> resolve_context \<Rightarrow> bound_number option list
    \<Rightarrow> jsnum option list option read_result" where
  "resolve_parameters resolve c [] = Inr (Some [])"
| "resolve_parameters resolve c (v # vs) = and_then (resolve_parameter resolve c v) (\<lambda>n. case n of None \<Rightarrow> Inr None
     | Some x \<Rightarrow> and_then (resolve_parameters resolve c vs) (\<lambda>xs. Inr (map_option (\<lambda>ys. x # ys) xs)))"

fun resolveSteps :: "(binding \<Rightarrow> resolve_context \<Rightarrow> json read_result) \<Rightarrow> resolve_context \<Rightarrow> history_step list
    \<Rightarrow> numeric_step list option read_result" where
  "resolveSteps resolve c [] = Inr (Some [])"
| "resolveSteps resolve c (HistoryStep period function percentile low high threshold # steps) =
     and_then (resolve_parameters resolve c [percentile, low, high, threshold]) (\<lambda>ns. case ns of
       Some [n1, n2, n3, n4] \<Rightarrow> and_then (resolveSteps resolve c steps) (\<lambda>rest. Inr (map_option (\<lambda>more_steps.
          \<lparr>ns_fold = period, ns_function = function, ns_percentile = n1, ns_from = n2, ns_to = n3, ns_threshold = n4\<rparr> # more_steps) rest))
     | _ \<Rightarrow> Inr None)"

definition resolveHistory :: "(string \<Rightarrow> string \<Rightarrow> int) \<Rightarrow> (binding \<Rightarrow> resolve_context \<Rightarrow> json read_result) \<Rightarrow> string \<Rightarrow> jsnum
    \<Rightarrow> history_step list \<Rightarrow> resolve_context \<Rightarrow> json read_result" where
  "resolveHistory lc resolve property windowSeconds steps c = (case written (rc_scopeId c) of None \<Rightarrow> Inr JNull
     | Some i \<Rightarrow>
        (let offset = Option.bind (oget (mi_byId (rc_index c)) i)
               (\<lambda>t. nullableNumber (oget (effective lc (rc_index c) t) UTC_OFFSET_PROPERTY))
         in and_then (resolveSteps resolve c steps) (\<lambda>resolved. case resolved of None \<Rightarrow> Inr JNull
            | Some ns \<Rightarrow> Inr (case rd_reduce (rc_reads c) \<lparr>rq_thingId = i, rq_property = property, rq_windowSeconds = windowSeconds,
                 rq_utcOffsetSeconds = offset, rq_steps = ns\<rparr> of
                Inl e \<Rightarrow> JNull
              | Inr groups \<Rightarrow> JArr (map (\<lambda>(k, v). JObj [(''key'', JStr k), (''value'', JNum v)]) groups)))))"

subsection \<open>The resolver\<close>

text \<open>One binding, those written inside it resolved by \<open>resolve\<close>. A binding a specification names and does not write
  fails as reading its kind does.\<close>

definition resolve_inner :: "(binding \<Rightarrow> resolve_context \<Rightarrow> json read_result) \<Rightarrow> binding option \<Rightarrow> resolve_context \<Rightarrow> json read_result" where
  "resolve_inner resolve b c = (case b of None \<Rightarrow> Inl Malformed | Some x \<Rightarrow> resolve x c)"

definition resolve_with :: "(string \<Rightarrow> string \<Rightarrow> int) \<Rightarrow> (binding \<Rightarrow> resolve_context \<Rightarrow> json read_result) \<Rightarrow> binding
    \<Rightarrow> resolve_context \<Rightarrow> json read_result" where
  "resolve_with lc resolve b c = (case b of
     Const n \<Rightarrow> Inr (JNum n)
   | PropertyOf thing property \<Rightarrow> Inr (resolve_property lc thing property c)
   | Aggregate archetype red property wh scope \<Rightarrow>
       Inr (JNum (aggregateValue lc red property (aggregateMembers lc archetype wh scope c) c))
   | Ratio numerator denominator \<Rightarrow>
       and_then (resolve_inner resolve numerator c) (\<lambda>n. and_then (resolve_inner resolve denominator c) (\<lambda>d.
         Inr (number_or_null (divide_numbers (asNumber n) (asNumber d)))))
   | Related via thing property \<Rightarrow> resolve_related lc via thing property c
   | StateOf states thing \<Rightarrow> resolve_stateOf states thing c
   | Verdict states thing via \<Rightarrow> resolve_verdict lc states thing via c
   | Origin property thing via reads source \<Rightarrow> resolve_origin lc property thing via reads source c
   | Working property thing via \<Rightarrow> resolve_working lc property thing via c
   | CompareEntities properties computed \<Rightarrow> withComputedColumns resolve computed c
       (map (compare_row lc properties c) (case written (rc_compareArchetype c) of Some a \<Rightarrow> things_of a c | None \<Rightarrow> []))
   | StateCount state scope archetype excludeState \<Rightarrow> resolve_stateCount state scope archetype excludeState c
   | StateList state excludeState scope most archetype properties computed \<Rightarrow>
       and_then (state_list_members state excludeState scope most archetype properties c)
         (\<lambda>members. withComputedColumns resolve computed c (map reference_row members))
   | ThingList archetype scope most computed inState wh \<Rightarrow>
       and_then (thing_list_members lc archetype scope inState wh c) (\<lambda>ts. withComputedColumns resolve computed c
         (map (\<lambda>t. row_with (tId t) (tName t) (effective lc (rc_index c) t))
           (limited most (sort_by (\<lambda>a b. lc (tName a) (tName b)) ts))))
   | Timeseries archetype happenedAt property red bucketSeconds buckets bucketsPerPoint scope \<Rightarrow> Inr (resolveTimeseries b c)
   | Latest series \<Rightarrow> (case series of None \<Rightarrow> Inl Malformed | Some s \<Rightarrow> Inr (resolve_latest s c))
   | Service endpoint body select \<Rightarrow> resolve_service endpoint body select c
   | History property windowSeconds steps \<Rightarrow> resolveHistory lc resolve property windowSeconds steps c)"

text \<open>The bindings written inside one are smaller, so resolution ends; only they are asked of \<open>resolve\<close>.\<close>

lemma each_cong [fundef_cong]: "xs = ys \<Longrightarrow> (\<And>x. x \<in> set ys \<Longrightarrow> f x = g x) \<Longrightarrow> each f xs = each g ys"
  by (induction ys arbitrary: xs) auto

lemma and_then_simps [simp]: "and_then (Inl e) f = Inl e" "and_then (Inr v) f = f v"
  by (simp_all add: and_then_def)

lemma columns_inner:
  assumes "(k, Some b') \<in> set (list_or_empty computed)" and "computed_of b = list_or_empty computed"
  shows "b' \<in> set (inner_bindings b)"
  using assms by (force simp: inner_bindings_def)

lemma withComputedColumns_cong:
  assumes "\<And>k b' c'. (k, Some b') \<in> set (list_or_empty computed) \<Longrightarrow> r b' c' = s b' c'"
  shows "withComputedColumns r computed c rows = withComputedColumns s computed c rows"
proof -
  have "compute_row r (list_or_empty computed) c = compute_row s (list_or_empty computed) c"
    unfolding compute_row_def fun_eq_iff by (intro allI arg_cong2[where f = and_then] each_cong refl) (use assms in \<open>auto split: option.split\<close>)
  then show ?thesis by (simp add: withComputedColumns_def)
qed

lemma resolve_parameters_cong:
  "(\<And>b' c'. Some (Bound b') \<in> set vs \<Longrightarrow> r b' c' = s b' c') \<Longrightarrow> resolve_parameters r c vs = resolve_parameters s c vs"
  by (induction vs) (auto simp: resolve_parameter_def and_then_def split: option.split bound_number.split sum.split)

lemma resolveSteps_cong:
  assumes "\<And>b' c' st. st \<in> set steps \<Longrightarrow> Some b' \<in> set (step_bindings st) \<Longrightarrow> r b' c' = s b' c'"
  shows "resolveSteps r c steps = resolveSteps s c steps"
  using assms
proof (induction steps)
  case (Cons st steps)
  obtain p f a b d e where st: "st = HistoryStep p f a b d e" by (cases st)
  have "resolve_parameters r c [a, b, d, e] = resolve_parameters s c [a, b, d, e]"
    by (rule resolve_parameters_cong) (use Cons.prems[of st] st in \<open>auto simp: step_bindings_def bound_of_def\<close>)
  moreover have "resolveSteps r c steps = resolveSteps s c steps"
    by (rule Cons.IH, rule Cons.prems) auto
  ultimately show ?case by (simp only: st resolveSteps.simps)
qed simp

lemma resolve_with_cong [fundef_cong]:
  assumes "b = b0" and "c = c0" and inner: "\<And>b' c'. b' \<in> set (inner_bindings b0) \<Longrightarrow> r b' c' = s b' c'"
  shows "resolve_with lc r b c = resolve_with lc s b0 c0"
proof (cases b0)
  case (History p w steps)
  have "resolveSteps r c0 steps = resolveSteps s c0 steps"
    by (rule resolveSteps_cong) (use inner History in \<open>auto simp: inner_bindings_def\<close>)
  with History show ?thesis by (simp add: assms(1,2) resolve_with_def resolveHistory_def cong: option.case_cong)
next
  case (Ratio n d)
  have "resolve_inner r x c0 = resolve_inner s x c0" if "x = n \<or> x = d" for x
    using inner[of "the x"] Ratio that by (auto simp: resolve_inner_def inner_bindings_def split: option.split)
  with Ratio show ?thesis by (simp add: assms(1,2) resolve_with_def)
next
  case (CompareEntities ps computed)
  have "withComputedColumns r computed c0 rows = withComputedColumns s computed c0 rows" for rows
    by (rule withComputedColumns_cong) (use inner columns_inner[of _ _ computed b0] CompareEntities in \<open>simp add: computed_of_def\<close>)
  with CompareEntities show ?thesis by (simp add: assms(1,2) resolve_with_def)
next
  case (StateList st ex sc most arch ps computed)
  have "withComputedColumns r computed c0 rows = withComputedColumns s computed c0 rows" for rows
    by (rule withComputedColumns_cong) (use inner columns_inner[of _ _ computed b0] StateList in \<open>simp add: computed_of_def\<close>)
  with StateList show ?thesis by (simp add: assms(1,2) resolve_with_def)
next
  case (ThingList arch sc most computed st wh)
  have "withComputedColumns r computed c0 rows = withComputedColumns s computed c0 rows" for rows
    by (rule withComputedColumns_cong) (use inner columns_inner[of _ _ computed b0] ThingList in \<open>simp add: computed_of_def\<close>)
  with ThingList show ?thesis by (simp add: assms(1,2) resolve_with_def)
qed (simp_all add: assms(1,2) resolve_with_def)

function resolveBinding :: "(string \<Rightarrow> string \<Rightarrow> int) \<Rightarrow> binding \<Rightarrow> resolve_context \<Rightarrow> json read_result" where
  "resolveBinding lc b c = resolve_with lc (resolveBinding lc) b c"
  by pat_completeness auto
termination by (relation "measure (\<lambda>(lc, b, c). size b)") (auto simp: inner_smaller)

declare resolveBinding.simps [simp del]

end
