(* ===== verification/BindingFacts.thy ===== *)
theory BindingFacts
  imports BindingResolution
begin

section \<open>What a binding resolves to\<close>

text \<open>
  The walks and reductions of \<open>BindingResolution\<close> in terms of the model: the members of a scope, the Things a path
  reaches, the value of a reduction and the points of a series.
\<close>

subsection \<open>The members of a scope\<close>

text \<open>One step along a predicate, as the model's relationships have it.\<close>

definition one_hop :: "vos_relationship list \<Rightarrow> string \<Rightarrow> bool \<Rightarrow> (string \<times> string) set" where
  "one_hop rs p inbound = {(a, b). \<exists>r\<in>set rs. rPredicateId r = p
     \<and> (if inbound then rTargetId r = a \<and> rSubjectId r = b else rSubjectId r = a \<and> rTargetId r = b)}"

interpretation scope_walk: frontier_walk "scope_loop edges" "listed edges" "\<Union> (set ` snd ` set edges)" for edges
proof unfold_locales
  show "frontier \<noteq> [] \<Longrightarrow> scope_loop edges found frontier =
      (case find_children (listed edges (last frontier)) found (butlast frontier) of
        (found', frontier') \<Rightarrow> scope_loop edges found' frontier')" for found frontier
    by (subst scope_loop.simps) simp
  show "scope_loop edges found [] = found" for found by (subst scope_loop.simps) simp
  show "set (listed edges x) \<subseteq> \<Union> (set ` snd ` set edges)" for x by (rule set_listed)
qed simp

lemma edges_one_hop: "b \<in> set (listed (edges_of p inbound (buildModelIndex ts rs)) a) \<longleftrightarrow> (a, b) \<in> one_hop rs p inbound"
  by (auto simp: listed_edges buildModelIndex_simps one_hop_def)

lemma scope_one_step: "scope_walk.one_step (edges_of p inbound (buildModelIndex ts rs)) = one_hop rs p inbound"
  by (auto simp: scope_walk.one_step_def edges_one_hop)

lemma scope_loop_members:
  "distinct (tl (scope_loop edges [i] [i])) \<and> set (tl (scope_loop edges [i] [i])) = (scope_walk.one_step edges)\<^sup>* `` {i} - {i}"
proof -
  obtain more_found where w: "scope_loop edges [i] [i] = i # more_found"
    using scope_walk.walk_extends[of edges "[i]" "[i]"] by auto
  with scope_walk.walk_distinct[of "[i]" edges "[i]"] scope_walk.walk_reaches[of edges i] show ?thesis by auto
qed

text \<open>C9. The members of a scope are everything the selected Thing reaches through the scope's predicate at any depth,
  in the direction the scope asks for, each once and the Thing itself never, however the relationships branch or
  circle back to it.\<close>

theorem scope_members:
  assumes "rc_index c = buildModelIndex ts rs" and "rc_scopeId c = Some i" and "i \<noteq> []"
    and "oget (mi_predicateNameToId (rc_index c)) (sr_viaPredicate sc) = Some p" and "p \<noteq> []"
  shows "\<exists>members. scopeMemberIds (Some sc) c = Some members \<and> distinct members
    \<and> set members = {x. x \<noteq> i \<and> (i, x) \<in> (one_hop rs p (sr_direction sc = Some In))\<^sup>*}"
  using assms scope_loop_members[of "edges_of p (sr_direction sc = Some In) (buildModelIndex ts rs)" i]
  by (auto simp: scopeMemberIds_def written_def scope_one_step)

text \<open>Three Things in a row that circle back.\<close>

definition circle_relationships :: "vos_relationship list" where
  "circle_relationships = map (\<lambda>(s, t). \<lparr>rId = s @ t, rName = None, rSubjectId = s, rPredicateId = ''at'', rTargetId = t, rProperties = []\<rparr>)
     [(''a'', ''b''), (''b'', ''c''), (''c'', ''a'')]"

definition circle_things :: "vos_thing list" where
  "circle_things = map (\<lambda>i. \<lparr>tId = i, tName = i, tIsArchetype = None, tProperties = [], tPropertyWriteKinds = None,
     tInheritedOverrides = None, tDerivedProperties = None\<rparr>) [''a'', ''b'', ''c'', ''at'']"

definition circle_context :: resolve_context where
  "circle_context = \<lparr>rc_index = buildModelIndex circle_things circle_relationships, rc_scopeId = Some ''a'', rc_compareArchetype = None,
     rc_reads = \<lparr>rd_thingsInState = (\<lambda>s n. Inl ReadRefused), rd_thingRanges = (\<lambda>i. Inr None), rd_aggregate = (\<lambda>q. Inl ReadRefused),
       rd_reduce = (\<lambda>q. Inl ReadRefused), rd_fromService = (\<lambda>e b. Inl ReadRefused)\<rparr>\<rparr>"

lemma scope_members_witness:
  "\<exists>members. scopeMemberIds (Some \<lparr>sr_viaPredicate = ''at'', sr_direction = None\<rparr>) circle_context = Some members
     \<and> set members = {''b'', ''c''} \<and> ''c'' \<in> {x. x \<noteq> ''a'' \<and> (''a'', x) \<in> (one_hop circle_relationships ''at'' False)\<^sup>*}"
proof -
  have "oget (mi_predicateNameToId (rc_index circle_context)) ''at'' = Some ''at''" by code_simp
  then have "\<exists>members. scopeMemberIds (Some \<lparr>sr_viaPredicate = ''at'', sr_direction = None\<rparr>) circle_context = Some members \<and> distinct members
    \<and> set members = {x. x \<noteq> ''a'' \<and> (''a'', x) \<in> (one_hop circle_relationships ''at'' False)\<^sup>*}"
    using scope_members[of circle_context circle_things circle_relationships "''a''" "\<lparr>sr_viaPredicate = ''at'', sr_direction = None\<rparr>" "''at''"]
    by (simp add: circle_context_def)
  moreover have "scopeMemberIds (Some \<lparr>sr_viaPredicate = ''at'', sr_direction = None\<rparr>) circle_context = Some [''b'', ''c'']" by code_simp
  ultimately show ?thesis by auto
qed

subsection \<open>The Things a path reaches\<close>

text \<open>Whether a step keeps a Thing, and one step as a relation: what the predicate reaches, of the archetype the step
  names, in the state it names and not in the one it excludes.\<close>

definition state_keeps :: "bool \<Rightarrow> string option \<Rightarrow> resolve_context \<Rightarrow> string \<Rightarrow> bool" where
  "state_keeps keeping state c x = (case written state of None \<Rightarrow> True
     | Some s \<Rightarrow> (case stateMemberIds s c of Inr members \<Rightarrow> (x \<in> set members) = keeping | Inl e \<Rightarrow> False))"

definition step_reaches :: "resolve_context \<Rightarrow> vos_relationship list \<Rightarrow> relation_step \<Rightarrow> (string \<times> string) set" where
  "step_reaches c rs step = {(a, b). \<exists>p. written (oget (mi_predicateNameToId (rc_index c)) (rs_predicate step)) = Some p
     \<and> (a, b) \<in> one_hop rs p (rs_direction step = Some In)
     \<and> (case written (rs_archetype step) of None \<Rightarrow> True | Some archetype \<Rightarrow> b \<in> set (members_of archetype (rc_index c)))
     \<and> state_keeps True (rs_inState step) c b \<and> state_keeps False (rs_notInState step) c b}"

lemma set_reached_along:
  "set (reached_along step (buildModelIndex ts rs) ids) =
     {b. \<exists>a\<in>set ids. \<exists>p. written (oget (mi_predicateNameToId (buildModelIndex ts rs)) (rs_predicate step)) = Some p
        \<and> (a, b) \<in> one_hop rs p (rs_direction step = Some In)
        \<and> (case written (rs_archetype step) of None \<Rightarrow> True
            | Some archetype \<Rightarrow> b \<in> set (members_of archetype (buildModelIndex ts rs)))}"
  unfolding reached_along_def
  by (cases "written (oget (mi_predicateNameToId (buildModelIndex ts rs)) (rs_predicate step))"; cases "written (rs_archetype step)")
    (auto simp: Let_def edges_one_hop)

lemma keep_by_state_set: "keep_by_state k st c ids = Inr out \<Longrightarrow> set out = {x \<in> set ids. state_keeps k st c x}"
  by (auto simp: keep_by_state_def state_keeps_def and_then_def split: option.splits if_splits sum.splits)

lemma followStep_reaches:
  assumes ix: "rc_index c = buildModelIndex ts rs" and step: "followStep ids step c = Inr out"
  shows "set out = step_reaches c rs step `` set ids"
proof -
  from step obtain kept where kept: "keep_by_state True (rs_inState step) c (reached_along step (rc_index c) ids) = Inr kept"
      "keep_by_state False (rs_notInState step) c kept = Inr out"
    by (auto simp: followStep_def and_then_def split: sum.splits)
  show ?thesis unfolding keep_by_state_set[OF kept(2)] keep_by_state_set[OF kept(1)] ix set_reached_along step_reaches_def
    by blast
qed

lemma follow_path_reaches:
  "rc_index c = buildModelIndex ts rs \<Longrightarrow> follow_path c via ids = Inr out \<Longrightarrow> set out = foldl (\<lambda>S step. step_reaches c rs step `` S) (set ids) via"
proof (induction via arbitrary: ids)
  case (Cons step via)
  then obtain next_ids where n: "followStep ids step c = Inr next_ids"
      "(if next_ids = [] then Inr [] else follow_path c via next_ids) = Inr out"
    by (auto simp: and_then_def split: sum.splits)
  have none: "foldl (\<lambda>S step. step_reaches c rs step `` S) {} steps = {}" for steps by (induction steps) auto
  show ?case
  proof (cases "next_ids = []")
    case True
    with n followStep_reaches[OF Cons.prems(1) n(1)] show ?thesis by (simp add: none)
  next
    case False
    with n have "follow_path c via next_ids = Inr out" by simp
    from Cons.IH[OF Cons.prems(1) this] followStep_reaches[OF Cons.prems(1) n(1)] show ?thesis by simp
  qed
qed simp

text \<open>A path reaches the Things its steps lead to one after another from the Thing it starts at, each step kept
  to the archetype and the states it names, and they are answered in the order of their names whatever order the
  relationships are in.\<close>

lemma path_reaches:
  assumes "thingsReached lc reference (Some via) c = Inr found" and "referencedThing reference c = Some start" and "via \<noteq> []"
    and "rc_index c = buildModelIndex ts rs" and "collation lc"
  shows "tId ` set found = tId ` set ts \<inter> foldl (\<lambda>S step. step_reaches c rs step `` S) {tId start} via
    \<and> sorted_wrt (\<lambda>a b. lc (tName a) (tName b) \<le> 0) found"
proof -
  from assms(1-3) obtain ids where ids: "follow_path c via [tId start] = Inr ids"
      "found = sort_by (\<lambda>a b. lc (tName a) (tName b)) (thingsWithIds ids (rc_index c))"
    by (auto simp: thingsReached_def list_or_empty_def and_then_def split: sum.splits)
  have "tId ` set (thingsWithIds ids (rc_index c)) = tId ` set ts \<inter> set ids" using set_thingsWithIds[of ids ts rs] assms(4) by auto
  with follow_path_reaches[OF assms(4) ids(1)] ids(2) collation.sorted_on[OF assms(5), of tName] show ?thesis by simp
qed

definition round_trip :: "relation_step list" where
  "round_trip = [\<lparr>rs_predicate = ''at'', rs_direction = None, rs_archetype = None, rs_inState = None, rs_notInState = None\<rparr>,
     \<lparr>rs_predicate = ''at'', rs_direction = None, rs_archetype = None, rs_inState = None, rs_notInState = None\<rparr>]"

lemma path_reaches_witness:
  "\<exists>found. thingsReached compare_code_units (Some ''a'') (Some round_trip) circle_context = Inr found \<and> map tId found = [''c'']
   \<and> tId ` set found = tId ` set circle_things
       \<inter> foldl (\<lambda>S step. step_reaches circle_context circle_relationships step `` S) {''a''} round_trip"
proof -
  have r: "map_sum id (map tId) (thingsReached compare_code_units (Some ''a'') (Some round_trip) circle_context) = Inr [''c'']"
    by code_simp
  then obtain found where found: "thingsReached compare_code_units (Some ''a'') (Some round_trip) circle_context = Inr found"
      "map tId found = [''c'']"
    by (cases "thingsReached compare_code_units (Some ''a'') (Some round_trip) circle_context") auto
  have "map_option tId (referencedThing (Some ''a'') circle_context) = Some ''a''" by code_simp
  then obtain start where start: "referencedThing (Some ''a'') circle_context = Some start" "tId start = ''a''" by auto
  have "round_trip \<noteq> []" by (simp add: round_trip_def)
  from path_reaches[OF found(1) start(1) this _ code_unit_collation.collation_axioms, of circle_things circle_relationships] found start
  show ?thesis by (simp add: circle_context_def)
qed

end
