(* ===== verification/FigureBreakdown.thy ===== *)
theory FigureBreakdown
  imports BindingResolution
begin

section \<open>What a figure is made of\<close>

text \<open>
  \<open>src/api/figureBreakdown.ts\<close>: the Things, the two sides or the buckets behind one figure, formed by asking the
  figure's own question for its members instead of its number. The theorem is what the breakdown is for: the list
  and the figure above it cannot disagree.
\<close>

record figure_terms =
  ft_archetype :: "string option"
  ft_state :: "string option"
  ft_property :: "string option"
  ft_happenedAt :: "string option"
  ft_within :: "string option"
  ft_where :: "property_filter list option"

text \<open>How the rows became the figure: a reduction, or \<open>None\<close> for a value read off one Thing.\<close>

datatype figure_breakdown = FigureBreakdown (figure_value: "jsnum option") (figure_terms_of: figure_terms) (figure_behind: "behind_the_figure option")
and behind_the_figure =
    BehindThings "reduction option" "props list" "string option"
  | Division figure_breakdown figure_breakdown
  | BehindBuckets reduction "json list" jsnum jsnum jsnum

definition no_terms :: figure_terms where
  "no_terms = \<lparr>ft_archetype = None, ft_state = None, ft_property = None, ft_happenedAt = None, ft_within = None, ft_where = None\<rparr>"

fun hasBreakdown :: "binding option \<Rightarrow> bool" where
  "hasBreakdown None = False"
| "hasBreakdown (Some (StateCount _ _ _ _)) = True"
| "hasBreakdown (Some (Aggregate _ _ _ _ _)) = True"
| "hasBreakdown (Some (PropertyOf _ _)) = True"
| "hasBreakdown (Some (Ratio n d)) = (hasBreakdown n \<or> hasBreakdown d)"
| "hasBreakdown (Some (Latest (Some (Timeseries _ _ _ _ _ _ per _)))) = (case per of Some n \<Rightarrow> num_lt (Dec 1 0) n | None \<Rightarrow> False)"
| "hasBreakdown (Some b) = False"

definition selected_name :: "resolve_context \<Rightarrow> string option" where
  "selected_name c = Option.bind (written (rc_scopeId c)) (\<lambda>i. map_option tName (oget (mi_byId (rc_index c)) i))"

definition row_text :: "string \<Rightarrow> json \<Rightarrow> string" where
  "row_text key row = (case row of JObj m \<Rightarrow> (case oget m key of Some v \<Rightarrow> js_string v | None \<Rightarrow> ''undefined'') | _ \<Rightarrow> ''undefined'')"

definition rows_of_things :: "(string \<Rightarrow> string \<Rightarrow> int) \<Rightarrow> resolve_context \<Rightarrow> vos_thing list \<Rightarrow> props list" where
  "rows_of_things lc c ts = map (\<lambda>t. rowOfThing lc (tId t) (tName t) c) ts"

definition count_breakdown :: "(string \<Rightarrow> string \<Rightarrow> int) \<Rightarrow> string \<Rightarrow> scope_reference option \<Rightarrow> string option \<Rightarrow> string option
    \<Rightarrow> resolve_context \<Rightarrow> figure_breakdown option read_result" where
  "count_breakdown lc state scope archetype excludeState c =
     and_then (resolveBinding lc (StateList state excludeState scope None archetype None None) c) (\<lambda>r.
       (let counted = asRows r in Inr (Some (FigureBreakdown (Some (js_int (int (length counted))))
          (no_terms\<lparr>ft_archetype := archetype, ft_state := Some state, ft_within := (if scope = None then None else selected_name c)\<rparr>)
          (Some (BehindThings (Some RCount)
            (map (\<lambda>row. rowOfThing lc (row_text ''id'' row) (row_text ''name'' row) c) counted) None))))))"

definition aggregate_breakdown :: "(string \<Rightarrow> string \<Rightarrow> int) \<Rightarrow> string \<Rightarrow> reduction \<Rightarrow> string option \<Rightarrow> property_filter list option
    \<Rightarrow> scope_reference option \<Rightarrow> resolve_context \<Rightarrow> figure_breakdown" where
  "aggregate_breakdown lc archetype red property wh scope c =
     (let members = aggregateMembers lc archetype wh scope c; measure_name = (if red = RCount then None else property)
      in FigureBreakdown (Some (aggregateValue lc red property members c))
           (no_terms\<lparr>ft_archetype := Some archetype, ft_property := measure_name,
              ft_within := (if scope = None then None else selected_name c), ft_where := wh\<rparr>)
           (Some (BehindThings (Some red) (rows_of_things lc c members) measure_name)))"

definition property_breakdown :: "(string \<Rightarrow> string \<Rightarrow> int) \<Rightarrow> string \<Rightarrow> string \<Rightarrow> resolve_context \<Rightarrow> figure_breakdown option read_result" where
  "property_breakdown lc thing property c =
     (let named = referencedThing (Some thing) c;
          averaged = (if named = None \<and> thing = SCOPE_REFERENCE
            then (case written (rc_compareArchetype c) of Some a \<Rightarrow> things_of a c | None \<Rightarrow> []) else []);
          holders = (case named of Some t \<Rightarrow> [t] | None \<Rightarrow> averaged)
      in if holders = [] then Inr None
         else and_then (resolveBinding lc (PropertyOf thing property) c) (\<lambda>r. Inr (Some (FigureBreakdown (asNumber r)
           (no_terms\<lparr>ft_property := Some property, ft_archetype := (if averaged = [] then None else rc_compareArchetype c)\<rparr>)
           (Some (BehindThings (if averaged = [] then None else Some RAverage) (rows_of_things lc c holders) (Some property)))))))"

text \<open>The series over the buckets of one point, a point for each.\<close>

definition parts_of :: "binding \<Rightarrow> binding" where
  "parts_of series = (case series of
     Timeseries archetype happenedAt property red bucketSeconds buckets per scope \<Rightarrow>
       Timeseries archetype happenedAt property red bucketSeconds (case per of Some n \<Rightarrow> n | None \<Rightarrow> Dec 1 0) (Some (Dec 1 0)) scope
   | b \<Rightarrow> b)"

definition latest_breakdown :: "(string \<Rightarrow> string \<Rightarrow> int) \<Rightarrow> jsnum \<Rightarrow> binding \<Rightarrow> resolve_context \<Rightarrow> figure_breakdown option read_result" where
  "latest_breakdown lc now series c = (case series of
     Timeseries archetype happenedAt property red bucketSeconds buckets bucketsPerPoint scope \<Rightarrow>
       (let per = (case bucketsPerPoint of Some n \<Rightarrow> n | None \<Rightarrow> Dec 1 0) in
        and_then (resolveBinding lc (Latest (Some series)) c) (\<lambda>figure.
        and_then (resolveBinding lc (parts_of series) c) (\<lambda>parts.
          Inr (Some (FigureBreakdown (asNumber figure)
            (no_terms\<lparr>ft_archetype := Some archetype, ft_property := property, ft_happenedAt := Some happenedAt\<rparr>)
            (if asSeries parts = [] then None
             else Some (BehindBuckets red (asSeries parts) bucketSeconds (num_mul bucketSeconds per) now)))))))
   | _ \<Rightarrow> Inr None)"

definition divide_breakdown :: "figure_breakdown option \<Rightarrow> figure_breakdown option \<Rightarrow> figure_breakdown option" where
  "divide_breakdown n d = (case (n, d) of
     (Some a, Some b) \<Rightarrow> Some (FigureBreakdown (divide_numbers (figure_value a) (figure_value b)) no_terms
        (if figure_behind a = None \<and> figure_behind b = None then None else Some (Division a b)))
   | _ \<Rightarrow> None)"

function breakdownOf :: "(string \<Rightarrow> string \<Rightarrow> int) \<Rightarrow> jsnum \<Rightarrow> binding \<Rightarrow> resolve_context \<Rightarrow> figure_breakdown option read_result" where
  "breakdownOf lc now b c = (case b of
     Const n \<Rightarrow> Inr (Some (FigureBreakdown (Some n) no_terms None))
   | StateCount state scope archetype excludeState \<Rightarrow> count_breakdown lc state scope archetype excludeState c
   | Aggregate archetype red property wh scope \<Rightarrow> Inr (Some (aggregate_breakdown lc archetype red property wh scope c))
   | PropertyOf thing property \<Rightarrow> property_breakdown lc thing property c
   | Ratio numerator denominator \<Rightarrow> (case (numerator, denominator) of
       (Some n, Some d) \<Rightarrow> and_then (breakdownOf lc now n c) (\<lambda>x. and_then (breakdownOf lc now d c) (\<lambda>y. Inr (divide_breakdown x y)))
     | _ \<Rightarrow> Inl Malformed)
   | Latest series \<Rightarrow> (case series of None \<Rightarrow> Inl Malformed | Some s \<Rightarrow> latest_breakdown lc now s c)
   | _ \<Rightarrow> Inr None)"
  by pat_completeness auto
termination by (relation "measure (\<lambda>(lc, now, b, c). size b)") auto

declare breakdownOf.simps [simp del]

subsection \<open>The list and the figure agree\<close>

text \<open>What the platform promises of a count: asked for how many alone, it answers the size of the list the same
  narrowing would have come back with.\<close>

definition counts_agree :: "model_reads \<Rightarrow> bool" where
  "counts_agree reads \<longleftrightarrow> (\<forall>state n r. sn_countOnly n = None \<longrightarrow> sn_limit n = None \<longrightarrow> rd_thingsInState reads state (Some n) = Inr r \<longrightarrow>
     (\<exists>r'. rd_thingsInState reads state (Some (n\<lparr>sn_countOnly := Some True\<rparr>)) = Inr r'
        \<and> ts_Count r' = Some (js_int (int (length (list_or_empty (ts_Things r)))))))"

definition a_number :: "jsnum option \<Rightarrow> jsnum option" where
  "a_number n = (if n = Some NaN then None else n)"

lemma asNumber_simps [simp]: "asNumber (JNum n) = a_number (Some n)" "asNumber JNull = None"
  by (simp_all add: asNumber_def a_number_def)

lemma asNumber_number_or_null [simp]: "asNumber (number_or_null n) = a_number n"
  by (cases n) (simp_all add: number_or_null_def a_number_def)

lemma a_number_asNumber [simp]: "a_number (asNumber r) = asNumber r"
  by (auto simp: a_number_def asNumber_def split: json.splits if_splits)

lemma a_number_idem [simp]: "a_number (a_number n) = a_number n"
  by (simp add: a_number_def)

lemma num_div_NaN [simp]: "num_div NaN n = NaN" "num_div n NaN = NaN"
  by (cases n; simp)+

lemma a_number_divide: "a_number (divide_numbers (a_number a) (a_number b)) = a_number (divide_numbers a b)"
  by (auto simp: a_number_def divide_numbers_def split: option.split)

lemma question_fields [simp]:
  "sn_countOnly (state_question a e w) = None" "sn_limit (state_question a e w) = None"
  "(state_question a e w)\<lparr>sn_limit := None, sn_properties := None\<rparr> = state_question a e w"
  by (simp_all add: state_question_def within_container_def no_narrowing_def split: option.split)

lemma resolve_plain_list:
  "resolveBinding lc (StateList state ex scope None archetype None None) c =
     and_then (state_list_members state ex scope None archetype None c) (\<lambda>ms. Inr (JArr (map (\<lambda>m. JObj (reference_row m)) ms)))"
  by (simp add: resolveBinding.simps[of lc "StateList state ex scope None archetype None None"] resolve_with_def
      withComputedColumns_def list_or_empty_def o_def)

lemma asRows_objects [simp]: "asRows (JArr (map (\<lambda>m. JObj (f m)) ms)) = map (\<lambda>m. JObj (f m)) ms"
  by (cases ms) (simp_all add: asRows_def)

text \<open>The count of a state is the number of rows its list has, where the platform answers a count as it promises.\<close>

lemma count_is_list:
  assumes "counts_agree (rc_reads c)" and "state_list_members state ex scope None archetype None c = Inr ms"
  shows "resolve_stateCount state scope archetype ex c = Inr (JNum (js_int (int (length ms))))"
proof (cases "members_left scope c")
  case None
  with assms(2) obtain r where r: "rd_thingsInState (rc_reads c) state (Some (state_question archetype ex (containerFor scope c))) = Inr r"
      "ms = list_or_empty (ts_Things r)"
    by (auto simp: state_list_members_def state_list_question_def and_then_def split: sum.splits)
  with assms(1)[unfolded counts_agree_def, rule_format, OF _ _ r(1)] None show ?thesis
    by (auto simp: resolve_stateCount_def Let_def)
next
  case (Some members)
  with assms(2) show ?thesis
    by (auto simp: state_list_members_def state_list_question_def resolve_stateCount_def and_then_def limited_def split: sum.splits)
qed

lemma resolve_ratio: "resolveBinding lc (Ratio n d) c =
  and_then (resolve_inner (resolveBinding lc) n c) (\<lambda>x. and_then (resolve_inner (resolveBinding lc) d c) (\<lambda>y.
    Inr (number_or_null (divide_numbers (asNumber x) (asNumber y)))))"
  by (simp add: resolveBinding.simps[of lc "Ratio n d"] resolve_with_def)

lemma divide_breakdown_Some: "divide_breakdown x y = Some bd \<longleftrightarrow> (\<exists>a b. x = Some a \<and> y = Some b \<and>
    bd = FigureBreakdown (divide_numbers (figure_value a) (figure_value b)) no_terms
      (if figure_behind a = None \<and> figure_behind b = None then None else Some (Division a b)))"
  by (cases x; cases y) (auto simp: divide_breakdown_def)

lemma and_then_Inr: "and_then x f = Inr v \<longleftrightarrow> (\<exists>y. x = Inr y \<and> f y = Inr v)"
  by (auto simp: and_then_def split: sum.splits)

lemma property_breakdown_value: "property_breakdown lc thing property c = Inr (Some bd) \<Longrightarrow>
    \<exists>r. resolveBinding lc (PropertyOf thing property) c = Inr r \<and> asNumber r = a_number (figure_value bd)"
  by (auto simp: property_breakdown_def Let_def and_then_Inr split: if_splits)

lemma latest_breakdown_value: "latest_breakdown lc now series c = Inr (Some bd) \<Longrightarrow>
    \<exists>r. resolveBinding lc (Latest (Some series)) c = Inr r \<and> asNumber r = a_number (figure_value bd)"
  by (cases series) (simp_all add: latest_breakdown_def Let_def and_then_Inr, auto)

lemma figure_value_agrees:
  assumes "counts_agree (rc_reads c)" and "breakdownOf lc now b c = Inr (Some bd)"
  shows "\<exists>r. resolveBinding lc b c = Inr r \<and> asNumber r = a_number (figure_value bd)"
  using assms
proof (induction lc now b c arbitrary: bd rule: breakdownOf.induct)
  case (1 lc now b c)
  note unfolded = "1.prems"(2)[unfolded breakdownOf.simps[of lc now b c]]
  note resolved = resolveBinding.simps resolve_with_def
  show ?case
  proof (cases b)
    case (StateCount state scope archetype ex)
    with unfolded obtain ms where ms: "state_list_members state ex scope None archetype None c = Inr ms"
        "figure_value bd = Some (js_int (int (length ms)))"
      by (auto simp: count_breakdown_def resolve_plain_list and_then_Inr Let_def)
    from count_is_list[OF "1.prems"(1) ms(1)] StateCount ms(2) show ?thesis by (simp add: resolved)
  next
    case (Ratio n d)
    with unfolded obtain n' d' x y where nd: "n = Some n'" "d = Some d'" "breakdownOf lc now n' c = Inr (Some x)"
        "breakdownOf lc now d' c = Inr (Some y)" and bd: "figure_value bd = divide_numbers (figure_value x) (figure_value y)"
      by (auto simp: and_then_Inr divide_breakdown_Some split: option.splits)
    from "1.IH"(1)[OF Ratio refl nd(1,2) "1.prems"(1) nd(3)] "1.IH"(2)[OF Ratio refl nd(1,2) "1.prems"(1) nd(4)] obtain r s where
      "resolveBinding lc n' c = Inr r" "asNumber r = a_number (figure_value x)"
      "resolveBinding lc d' c = Inr s" "asNumber s = a_number (figure_value y)" by blast
    with Ratio nd bd show ?thesis by (simp add: resolve_ratio resolve_inner_def a_number_divide)
  next
    case (PropertyOf thing property)
    with unfolded property_breakdown_value show ?thesis by simp
  next
    case (Latest series)
    with unfolded latest_breakdown_value show ?thesis by (simp split: option.splits)
  qed (use unfolded in \<open>simp_all\<close>, auto simp: resolved aggregate_breakdown_def Let_def)
qed


text \<open>Two Things hold a state: their count over two, and the two rows it opens to.\<close>

definition sample_reads :: model_reads where
  "sample_reads = \<lparr>rd_thingsInState = (\<lambda>state n. Inr (if Option.bind n sn_countOnly = Some True
       then \<lparr>ts_StateName = state, ts_Things = None, ts_Count = Some (Dec 2 0)\<rparr>
       else \<lparr>ts_StateName = state, ts_Things = Some [\<lparr>sm_Id = ''p'', sm_Name = ''P'', sm_Properties = None\<rparr>,
          \<lparr>sm_Id = ''q'', sm_Name = ''Q'', sm_Properties = None\<rparr>], ts_Count = None\<rparr>)),
     rd_thingRanges = (\<lambda>i. Inr None), rd_aggregate = (\<lambda>q. Inr []), rd_reduce = (\<lambda>q. Inl ReadRefused),
     rd_fromService = (\<lambda>e b. Inr None)\<rparr>"

definition sample_context :: resolve_context where
  "sample_context = \<lparr>rc_index = buildModelIndex page_model page_relationships, rc_scopeId = None, rc_compareArchetype = None,
     rc_reads = sample_reads\<rparr>"


end
