(* ===== verification/BindingRefresh.thy ===== *)
theory BindingRefresh
  imports BindingResolution
begin

section \<open>When a binding is resolved again\<close>

text \<open>
  \<open>src/api/bindingRefresh.ts\<close>, the waits of \<open>src/hooks/useDashboard.ts\<close> and \<open>src/api/selectedEntity.ts\<close>: which derived states
  a binding's answer is made of, whether answering it costs a request, and what it waits for before it is resolved
  again. The theorem says the waits are long enough for the bindings they are complete for; the two lemmas at the end
  are the bindings they are not.
\<close>

definition stepStates :: "relation_step list option \<Rightarrow> string list" where
  "stepStates via = concat (map (\<lambda>step. written_ones (map written [rs_inState step, rs_notInState step])) (list_or_empty via))"

text \<open>A column whose binding is not written reads nothing here.\<close>

function statesRead :: "binding \<Rightarrow> string list" where
  "statesRead b = (case b of
     StateCount state scope archetype excludeState \<Rightarrow> [state]
   | StateList state excludeState scope most archetype properties computed \<Rightarrow>
       state # written_ones [written excludeState] @ concat (map statesRead (written_ones (map snd (list_or_empty computed))))
   | StateOf states thing \<Rightarrow> states
   | Verdict states thing via \<Rightarrow> map vc_state states @ stepStates via
   | Related via thing property \<Rightarrow> stepStates (Some via)
   | Working property thing via \<Rightarrow> stepStates via
   | Origin property thing via reads source \<Rightarrow> stepStates via @ stepStates (Option.bind source os_via)
   | Ratio numerator denominator \<Rightarrow> concat (map statesRead (written_ones [numerator, denominator]))
   | ThingList archetype scope most computed inState wh \<Rightarrow> concat (map statesRead (written_ones (map snd (list_or_empty computed))))
   | CompareEntities properties computed \<Rightarrow> concat (map statesRead (written_ones (map snd (list_or_empty computed))))
   | _ \<Rightarrow> [])"
  by pat_completeness auto
termination
proof (relation "measure size")
  have col: "x \<in> set (written_ones (map snd (list_or_empty computed))) \<Longrightarrow> computed_of b = list_or_empty computed \<Longrightarrow> size x < size b"
    for x computed b by (rule inner_smaller) (auto simp: inner_bindings_def)
  show "(x, b) \<in> measure size" if "b = StateList st ex sc most arch ps computed"
    "x \<in> set (written_ones (map snd (list_or_empty computed)))" for b st ex sc most arch ps computed x
    using col[of x computed b] that by (simp add: computed_of_def)
  show "(x, b) \<in> measure size" if "b = ThingList arch sc most computed st wh"
    "x \<in> set (written_ones (map snd (list_or_empty computed)))" for b st sc most arch wh computed x
    using col[of x computed b] that by (simp add: computed_of_def)
  show "(x, b) \<in> measure size" if "b = CompareEntities ps computed"
    "x \<in> set (written_ones (map snd (list_or_empty computed)))" for b ps computed x
    using col[of x computed b] that by (simp add: computed_of_def)
qed auto

declare statesRead.simps [simp del]

function askedOfTheBroker :: "binding \<Rightarrow> bool" where
  "askedOfTheBroker b = (case b of
     StateCount state scope archetype excludeState \<Rightarrow> True
   | StateList state excludeState scope most archetype properties computed \<Rightarrow> True
   | StateOf states thing \<Rightarrow> True
   | Verdict states thing via \<Rightarrow> True
   | Timeseries archetype happenedAt property red bucketSeconds buckets bucketsPerPoint scope \<Rightarrow> True
   | Latest series \<Rightarrow> True
   | Service endpoint body select \<Rightarrow> True
   | History property windowSeconds steps \<Rightarrow> True
   | Ratio numerator denominator \<Rightarrow> list_ex askedOfTheBroker (written_ones [numerator, denominator])
   | ThingList archetype scope most computed inState wh \<Rightarrow> list_ex askedOfTheBroker (written_ones (map snd (list_or_empty computed)))
   | CompareEntities properties computed \<Rightarrow> list_ex askedOfTheBroker (written_ones (map snd (list_or_empty computed)))
   | Related via thing property \<Rightarrow> statesRead b \<noteq> []
   | Working property thing via \<Rightarrow> statesRead b \<noteq> []
   | Origin property thing via reads source \<Rightarrow> statesRead b \<noteq> []
   | _ \<Rightarrow> False)"
  by pat_completeness auto
termination
proof (relation "measure size")
  have col: "x \<in> set (written_ones (map snd (list_or_empty computed))) \<Longrightarrow> computed_of b = list_or_empty computed \<Longrightarrow> size x < size b"
    for x computed b by (rule inner_smaller) (auto simp: inner_bindings_def)
  show "(x, b) \<in> measure size" if "b = ThingList arch sc most computed st wh"
    "x \<in> set (written_ones (map snd (list_or_empty computed)))" for b st sc most arch wh computed x
    using col[of x computed b] that by (simp add: computed_of_def)
  show "(x, b) \<in> measure size" if "b = CompareEntities ps computed"
    "x \<in> set (written_ones (map snd (list_or_empty computed)))" for b ps computed x
    using col[of x computed b] that by (simp add: computed_of_def)
qed auto

declare askedOfTheBroker.simps [simp del]

subsection \<open>The waits\<close>

record waiting_context =
  wc_generation :: nat
  wc_stateVersions :: "(string, jsnum) omap"
  wc_serverRefresh :: "jsnum option"
  wc_loadsApplied :: "jsnum option"

definition waitOf :: "binding \<Rightarrow> waiting_context \<Rightarrow> string" where
  "waitOf b w = (if \<not> askedOfTheBroker b then ''model:'' @ nat_digits (wc_generation w)
     else ''broker:'' @ num_string (case wc_serverRefresh w of Some n \<Rightarrow> n | None \<Rightarrow> Dec 0 0) @ '':''
       @ (case wc_loadsApplied w of Some n \<Rightarrow> num_string n | None \<Rightarrow> ''undefined'') @ '':''
       @ join '','' (map (\<lambda>state. state @ ''='' @ num_string (case oget (wc_stateVersions w) state of Some n \<Rightarrow> n | None \<Rightarrow> Dec 0 0))
           (statesRead b)))"

definition waitFor :: "binding option list \<Rightarrow> waiting_context \<Rightarrow> string" where
  "waitFor bs w = join ''|'' (map (\<lambda>b. case b of Some x \<Rightarrow> waitOf x w | None \<Rightarrow> []) bs)"

subsection \<open>What needs one compared entity\<close>

definition names_scope :: "string option \<Rightarrow> bool" where
  "names_scope thing \<longleftrightarrow> thing = None \<or> thing = Some SCOPE_REFERENCE"

fun needsOneEntity :: "binding \<Rightarrow> bool" where
  "needsOneEntity (Related via thing property) = names_scope thing"
| "needsOneEntity (StateOf states thing) = names_scope thing"
| "needsOneEntity (Verdict states thing via) = names_scope thing"
| "needsOneEntity (Origin property thing via reads source) = names_scope thing"
| "needsOneEntity (Working property thing via) = names_scope thing"
| "needsOneEntity (History property windowSeconds steps) = True"
| "needsOneEntity (Ratio n d) = ((case n of Some x \<Rightarrow> needsOneEntity x | None \<Rightarrow> False)
     \<or> (case d of Some x \<Rightarrow> needsOneEntity x | None \<Rightarrow> False))"
| "needsOneEntity b = False"

definition is_origin :: "binding \<Rightarrow> bool" where
  "is_origin b = (case b of Origin property thing via reads source \<Rightarrow> True | _ \<Rightarrow> False)"

definition widgetNeedsOneEntity :: "widget \<Rightarrow> bool" where
  "widgetNeedsOneEntity w = list_ex (\<lambda>b. \<not> is_origin b \<and> needsOneEntity b) (slotsOf w)"

subsection \<open>An answer moves only with what it waits for\<close>

text \<open>Two generations of reads that agree on some states and, where a binding may ask them, on the other questions.\<close>

definition agree_on :: "string set \<Rightarrow> bool \<Rightarrow> model_reads \<Rightarrow> model_reads \<Rightarrow> bool" where
  "agree_on S others r r' \<longleftrightarrow> (\<forall>s\<in>S. rd_thingsInState r s = rd_thingsInState r' s)
     \<and> (others \<longrightarrow> rd_thingRanges r = rd_thingRanges r' \<and> rd_aggregate r = rd_aggregate r' \<and> rd_reduce r = rd_reduce r'
          \<and> rd_fromService r = rd_fromService r')"

text \<open>A binding the waits are complete for: no roster kept to a state, and no reduction over history with a parameter
  another binding answers, in it or in what is written inside it.\<close>

definition waited_for :: "binding \<Rightarrow> bool" where
  "waited_for b = (case b of
     ThingList archetype scope most computed inState wh \<Rightarrow> written inState = None
   | History property windowSeconds steps \<Rightarrow> written_ones (concat (map step_bindings steps)) = []
   | _ \<Rightarrow> True)"

definition all_waited_for :: "binding \<Rightarrow> bool" where
  "all_waited_for b \<longleftrightarrow> list_all waited_for (withNested b)"

abbreviation reading :: "resolve_context \<Rightarrow> model_reads \<Rightarrow> resolve_context" where
  "reading c r \<equiv> c\<lparr>rc_reads := r\<rparr>"

lemma not_asked_no_states: "\<not> askedOfTheBroker b \<Longrightarrow> statesRead b = []"
proof (induction b rule: statesRead.induct)
  case (1 b)
  then show ?case
    by (cases b) (auto simp: statesRead.simps askedOfTheBroker.simps list_ex_iff concat_eq_Nil_conv split: option.splits)
qed

lemma fields_reading: "rc_index (reading c r) = rc_index c" "rc_scopeId (reading c r) = rc_scopeId c"
  "rc_compareArchetype (reading c r) = rc_compareArchetype c" "rc_reads (reading c r) = r"
  by simp_all

lemma scopes_reading [simp]:
  "containerFor sc (reading c r) = containerFor sc c" "scopeMemberIds sc (reading c r) = scopeMemberIds sc c"
  "referencedThing t (reading c r) = referencedThing t c" "things_of a (reading c r) = things_of a c"
  "value_of lc (reading c r) = value_of lc c"
  unfolding containerFor_def scopeMemberIds_def referencedThing_def things_of_def value_of_def fields_reading by (rule refl)+

lemma values_reading [simp]:
  "numbers_of lc (reading c r) = numbers_of lc c" "members_left sc (reading c r) = members_left sc c"
  "row_context (reading c r) row = reading (row_context c row) r"
  "verdict_row_of lc (reading c r) = verdict_row_of lc c" "working_rows lc q (reading c r) = working_rows lc q c"
  unfolding numbers_of_def members_left_def verdict_row_of_def working_rows_def row_context_def fields_reading scopes_reading
  by simp_all

lemma figures_reading [simp]:
  "aggregateMembers lc a w sc (reading c r) = aggregateMembers lc a w sc c"
  "aggregateValue lc red p ms (reading c r) = aggregateValue lc red p ms c"
  "resolve_property lc i q (reading c r) = resolve_property lc i q c" "compare_row lc ps (reading c r) = compare_row lc ps c"
  unfolding aggregateMembers_def aggregateValue_def resolve_property_def compare_row_def fields_reading scopes_reading values_reading
  by (rule refl)+

lemma agree_state: "agree_on S others r r' \<Longrightarrow> s \<in> S \<Longrightarrow> rd_thingsInState r s = rd_thingsInState r' s"
  by (simp add: agree_on_def)

lemma agree_members:
  "agree_on S others r r' \<Longrightarrow> s \<in> S \<Longrightarrow> stateMemberIds s (reading c r) = stateMemberIds s (reading c r')"
  using agree_state by (simp add: stateMemberIds_def)

lemma agree_keep:
  "agree_on S others r r' \<Longrightarrow> set (written_ones [written st]) \<subseteq> S \<Longrightarrow> keep_by_state k st (reading c r) = keep_by_state k st (reading c r')"
  using agree_members by (auto simp: keep_by_state_def fun_eq_iff split: option.split)

lemma agree_step:
  assumes "agree_on S others r r'" and "set (stepStates (Some [step])) \<subseteq> S"
  shows "followStep ids step (reading c r) = followStep ids step (reading c r')"
proof -
  have "set (written_ones [written (rs_inState step)]) \<subseteq> S" "set (written_ones [written (rs_notInState step)]) \<subseteq> S"
    using assms(2) by (auto simp: stepStates_def list_or_empty_def)
  from agree_keep[OF assms(1) this(1)] agree_keep[OF assms(1) this(2)] show ?thesis by (simp add: followStep_def)
qed

lemma agree_path:
  "agree_on S others r r' \<Longrightarrow> set (stepStates (Some via)) \<subseteq> S \<Longrightarrow> follow_path (reading c r) via ids = follow_path (reading c r') via ids"
proof (induction via arbitrary: ids)
  case (Cons step via)
  then have "set (stepStates (Some [step])) \<subseteq> S" "set (stepStates (Some via)) \<subseteq> S"
    by (auto simp: stepStates_def list_or_empty_def)
  with agree_step[OF Cons.prems(1)] Cons.IH[OF Cons.prems(1)] show ?case by (simp cong: if_cong)
qed simp

lemma agree_reached:
  assumes "agree_on S others r r'" and "set (stepStates via) \<subseteq> S"
  shows "thingsReached lc t via (reading c r) = thingsReached lc t via (reading c r')"
proof -
  have "set (stepStates (Some (list_or_empty via))) \<subseteq> S" using assms(2) by (simp add: stepStates_def list_or_empty_def split: option.split)
  from agree_path[OF assms(1) this] show ?thesis by (simp add: thingsReached_def split: option.split)
qed

lemma agree_first: "agree_on S others r r' \<Longrightarrow> set states \<subseteq> S \<Longrightarrow> first_state (reading c r) i states = first_state (reading c r') i states"
  by (induction states) (simp_all add: agree_members cong: if_cong)

lemma agree_each: "agree_on S others r r' \<Longrightarrow> f ` set xs \<subseteq> S \<Longrightarrow>
    each (\<lambda>x. stateMemberIds (f x) (reading c r)) xs = each (\<lambda>x. stateMemberIds (f x) (reading c r')) xs"
  by (intro each_cong) (auto simp: agree_members)

lemma columns_reading:
  assumes "\<And>k b' c'. (k, Some b') \<in> set (list_or_empty computed) \<Longrightarrow> R b' (reading c' r) = R b' (reading c' r')"
  shows "withComputedColumns R computed (reading c r) = withComputedColumns R computed (reading c r')"
proof -
  have "compute_row R (list_or_empty computed) (reading c r) = compute_row R (list_or_empty computed) (reading c r')"
    unfolding compute_row_def values_reading fun_eq_iff
    by (intro allI arg_cong2[where f = and_then] each_cong refl) (use assms in \<open>auto split: option.split\<close>)
  then show ?thesis unfolding withComputedColumns_def by (rule arg_cong)
qed

lemma steps_reading:
  "written_ones (concat (map step_bindings steps)) = [] \<Longrightarrow> resolveSteps R (reading c r) steps = resolveSteps R (reading c r') steps"
proof (induction steps)
  case (Cons st steps)
  obtain p f a b d e where st: "st = HistoryStep p f a b d e" by (cases st)
  have none: "bound_of v = None" if "v \<in> {a, b, d, e}" for v
  proof (rule ccontr)
    assume "bound_of v \<noteq> None"
    then obtain x where "bound_of v = Some x" by blast
    then have "Some x \<in> set (step_bindings st)" using that st by (auto simp: step_bindings_def intro: sym)
    then have "x \<in> set (written_ones (concat (map step_bindings (st # steps))))" by simp
    with Cons.prems show False by simp
  qed
  have plain: "resolve_parameter R (reading c r) v = resolve_parameter R (reading c r') v" if "v \<in> {a, b, d, e}" for v
    using none[OF that] by (auto simp: resolve_parameter_def bound_of_def split: option.splits bound_number.splits)
  have "resolve_parameters R (reading c r) [a, b, d, e] = resolve_parameters R (reading c r') [a, b, d, e]"
    using plain by simp
  moreover have "resolveSteps R (reading c r) steps = resolveSteps R (reading c r') steps"
    by (rule Cons.IH) (use Cons.prems in \<open>auto simp: written_ones_def List.map_filter_def filter_empty_conv\<close>)
  ultimately show ?case by (simp only: st resolveSteps.simps)
qed simp

lemma written_ones_Nil: "written_ones xs = [] \<longleftrightarrow> (\<forall>x. Some x \<notin> set xs)"
  using set_written_ones[of xs] by (metis (lifting) Collect_empty_eq set_empty)

lemma inner_waits:
  assumes "b' \<in> set (inner_bindings b)" and "all_waited_for b"
  shows "all_waited_for b'"
  using assms unfolding all_waited_for_def withNested.simps[of b] by (auto simp: list_all_iff)

lemma inner_states:
  assumes "b' \<in> set (inner_bindings b)" and "waited_for b" and "\<not> (\<exists>s. b = Latest s)"
  shows "set (statesRead b') \<subseteq> set (statesRead b) \<and> (askedOfTheBroker b' \<longrightarrow> askedOfTheBroker b)"
  using assms
  by (cases b) (auto simp: inner_bindings_def computed_of_def waited_for_def written_ones_Nil list_ex_iff
      statesRead.simps[of "Ratio x y" for x y] askedOfTheBroker.simps[of "Ratio x y" for x y]
      statesRead.simps[of "StateList st ex sc m a ps cols" for st ex sc m a ps cols]
      askedOfTheBroker.simps[of "StateList st ex sc m a ps cols" for st ex sc m a ps cols]
      statesRead.simps[of "ThingList a sc m cols st wh" for a sc m cols st wh]
      askedOfTheBroker.simps[of "ThingList a sc m cols st wh" for a sc m cols st wh]
      statesRead.simps[of "CompareEntities ps cols" for ps cols] askedOfTheBroker.simps[of "CompareEntities ps cols" for ps cols])

lemma and_then_first: "x = y \<Longrightarrow> and_then x f = and_then y f"
  by simp

lemma agree_others: "agree_on S True r r' \<Longrightarrow> rd_thingRanges r = rd_thingRanges r' \<and> rd_aggregate r = rd_aggregate r'
    \<and> rd_reduce r = rd_reduce r' \<and> rd_fromService r = rd_fromService r'"
  by (simp add: agree_on_def)

lemma agree_related: "agree_on S others r r' \<Longrightarrow> set (stepStates (Some via)) \<subseteq> S \<Longrightarrow>
    resolve_related lc via t p (reading c r) = resolve_related lc via t p (reading c r')"
  unfolding resolve_related_def fields_reading by (rule and_then_first[OF agree_reached])

lemma agree_working: "agree_on S others r r' \<Longrightarrow> set (stepStates via) \<subseteq> S \<Longrightarrow>
    resolve_working lc p t via (reading c r) = resolve_working lc p t via (reading c r')"
  unfolding resolve_working_def fields_reading values_reading by (rule and_then_first[OF agree_reached])

lemma agree_stateOf: "agree_on S others r r' \<Longrightarrow> set states \<subseteq> S \<Longrightarrow>
    resolve_stateOf states t (reading c r) = resolve_stateOf states t (reading c r')"
  unfolding resolve_stateOf_def scopes_reading by (cases "referencedThing t c") (simp_all only: option.case agree_first[of S others])

lemma agree_verdict:
  assumes agree: "agree_on S True r r'" and states: "vc_state ` set states \<subseteq> S" "set (stepStates via) \<subseteq> S"
  shows "resolve_verdict lc states t via (reading c r) = resolve_verdict lc states t via (reading c r')"
proof -
  have ranges: "rd_thingRanges r = rd_thingRanges r'" using agree_others[OF agree] by blast
  have v: "verdicts_of lc states m (reading c r) = verdicts_of lc states m (reading c r')" for m
    unfolding verdicts_of_def fields_reading values_reading by (subst ranges, rule refl)
  note e = agree_each[OF agree states(1), of c]
  show ?thesis unfolding resolve_verdict_def by (subst v, subst e, rule and_then_first[OF agree_reached[OF agree states(2)]])
qed

lemma agree_origin:
  assumes agree: "agree_on S others r r'" and states: "set (stepStates via) \<subseteq> S" "set (stepStates (Option.bind source os_via)) \<subseteq> S"
  shows "resolve_origin lc p t via reads source (reading c r) = resolve_origin lc p t via reads source (reading c r')"
proof -
  have "recordedSourceOf lc x source (reading c r) = recordedSourceOf lc x source (reading c r')" for x
  proof (cases source)
    case (Some src)
    with states(2) have "set (stepStates (os_via src)) \<subseteq> S" by simp
    then show ?thesis
      unfolding recordedSourceOf_def Some option.case fields_reading by (rule and_then_first[OF agree_reached[OF agree]])
  qed (simp add: recordedSourceOf_def)
  then have o: "origin_row lc p reads source (reading c r) = origin_row lc p reads source (reading c r')"
    unfolding origin_row_def fields_reading fun_eq_iff by metis
  show ?thesis unfolding resolve_origin_def by (subst o, rule and_then_first[OF agree_reached[OF agree states(1)]])
qed

lemma agree_history:
  assumes agree: "agree_on S True r r'" and "written_ones (concat (map step_bindings steps)) = []"
  shows "resolveHistory lc R p w steps (reading c r) = resolveHistory lc R p w steps (reading c r')"
proof -
  note st = steps_reading[OF assms(2), where R = R and c = c and r = r and r' = r']
  have reduce: "rd_reduce r = rd_reduce r'" using agree_others[OF agree] by blast
  show ?thesis unfolding resolveHistory_def fields_reading by (subst st, subst reduce, rule refl)
qed

lemma agree_series:
  assumes agree: "agree_on S True r r'"
  shows "seriesPoints b (reading c r) = seriesPoints b (reading c r')"
proof -
  have q: "series_question a h p red s n per sc (reading c r) = series_question a h p red s n per sc c" for a h p red s n per sc r
    unfolding series_question_def scopes_reading by (rule refl)
  have aggregate: "rd_aggregate r = rd_aggregate r'" using agree_others[OF agree] by blast
  show ?thesis unfolding seriesPoints_def q fields_reading by (subst aggregate, rule refl)
qed

lemma agree_service:
  assumes agree: "agree_on S True r r'"
  shows "resolve_service e body sel (reading c r) = resolve_service e body sel (reading c r')"
proof -
  have service: "rd_fromService r = rd_fromService r'" using agree_others[OF agree] by blast
  show ?thesis unfolding resolve_service_def fields_reading by (subst service, rule refl)
qed

lemma agree_counts: "agree_on S others r r' \<Longrightarrow> state \<in> S \<Longrightarrow>
    resolve_stateCount state sc a ex (reading c r) = resolve_stateCount state sc a ex (reading c r')"
  unfolding resolve_stateCount_def fields_reading scopes_reading values_reading
  by (drule (1) agree_state, erule ssubst, rule refl)

lemma agree_lists: "agree_on S others r r' \<Longrightarrow> state \<in> S \<Longrightarrow>
    state_list_members state ex sc m a ps (reading c r) = state_list_members state ex sc m a ps (reading c r')"
  unfolding state_list_members_def state_list_question_def fields_reading scopes_reading values_reading
  by (drule (1) agree_state, erule ssubst, rule refl)

lemma local_roster: "written inState = None \<Longrightarrow> thing_list_members lc a sc inState wh (reading c r) = thing_list_members lc a sc inState wh c"
  unfolding thing_list_members_def fields_reading scopes_reading by (simp only: option.case)

lemma read_simps [simp]:
  "statesRead (StateOf states t) = states" "statesRead (Related via t q) = stepStates (Some via)"
  "statesRead (Working i t v) = stepStates v" "statesRead (Origin i t v reads src) = stepStates v @ stepStates (Option.bind src os_via)"
  "statesRead (Verdict cs t v) = map vc_state cs @ stepStates v" "statesRead (StateCount state sc a ex) = [state]"
  "state \<in> set (statesRead (StateList state ex sc m a ps cols))"
  by (simp_all add: statesRead.simps)

lemma asked_simps [simp]:
  "askedOfTheBroker (Verdict cs t v)" "askedOfTheBroker (History i w steps)" "askedOfTheBroker (Latest series)"
  "askedOfTheBroker (Service e body sel)" "askedOfTheBroker (Timeseries i h q red secs n per sc)"
  by (simp_all add: askedOfTheBroker.simps)

lemma answer_waits:
  assumes "all_waited_for b" and "set (statesRead b) \<subseteq> S" and "askedOfTheBroker b \<Longrightarrow> others" and agree: "agree_on S others r r'"
  shows "resolveBinding lc b (reading c r) = resolveBinding lc b (reading c r')"
  using assms(1-3)
proof (induction lc b c rule: resolveBinding.induct)
  case (1 lc b c)
  note p = "1.prems"(2)
  have full: "askedOfTheBroker b \<Longrightarrow> agree_on S True r r'" using "1.prems"(3) agree by simp
  have wb: "waited_for b" using "1.prems"(1) by (simp add: all_waited_for_def withNested.simps[of b])
  have inner: "resolveBinding lc b' (reading c' r) = resolveBinding lc b' (reading c' r')"
    if "b' \<in> set (inner_bindings b)" "\<not> (\<exists>s. b = Latest s)" for b' c'
    using "1.IH"[OF that(1)] inner_waits[OF that(1) "1.prems"(1)] inner_states[OF that(1) wb that(2)] "1.prems" by blast
  have cols: "withComputedColumns (resolveBinding lc) computed (reading c r) = withComputedColumns (resolveBinding lc) computed (reading c r')"
    if "computed_of b = list_or_empty computed" "\<not> (\<exists>s. b = Latest s)" for computed
    by (rule columns_reading) (use inner columns_inner[OF _ that(1)] that(2) in blast)
  have "resolve_with lc (resolveBinding lc) b (reading c r) = resolve_with lc (resolveBinding lc) b (reading c r')"
  proof (cases b)
    case (Ratio n d)
    have "resolve_inner (resolveBinding lc) x (reading c r) = resolve_inner (resolveBinding lc) x (reading c r')" if "x = n \<or> x = d" for x
      using inner[of "the x" c] Ratio that by (auto simp: resolve_inner_def inner_bindings_def split: option.split)
    then show ?thesis using Ratio by (simp add: resolve_with_def)
  next
    case (StateOf states thing)
    with p show ?thesis unfolding resolve_with_def StateOf binding.case by (intro agree_stateOf[OF agree]) simp
  next
    case (Related via thing property)
    with p show ?thesis unfolding resolve_with_def Related binding.case by (intro agree_related[OF agree]) simp
  next
    case (Working property thing via)
    with p show ?thesis unfolding resolve_with_def Working binding.case by (intro agree_working[OF agree]) simp
  next
    case (Origin property thing via reads source)
    with p show ?thesis unfolding resolve_with_def Origin binding.case by (intro agree_origin[OF agree]) simp_all
  next
    case (Verdict states thing via)
    then have f: "agree_on S True r r'" using full by simp
    from Verdict p have "vc_state ` set states \<subseteq> S" "set (stepStates via) \<subseteq> S" by simp_all
    from agree_verdict[OF f this] show ?thesis unfolding resolve_with_def Verdict binding.case .
  next
    case (History property w steps)
    with wb full show ?thesis unfolding resolve_with_def History binding.case
      by (intro agree_history) (simp_all add: waited_for_def)
  next
    case (Timeseries a h pr red secs n per sc)
    with full agree_series show ?thesis unfolding resolve_with_def Timeseries binding.case resolveTimeseries_def
      by (intro arg_cong[where f = Inr]) (metis (no_types, lifting) asked_simps(5))
  next
    case (Latest series)
    then have "agree_on S True r r'" using full by simp
    from agree_series[OF this] have "resolve_latest s (reading c r) = resolve_latest s (reading c r')" for s
      unfolding resolve_latest_def by metis
    then show ?thesis unfolding resolve_with_def Latest binding.case by metis
  next
    case (Service e body sel)
    with full show ?thesis unfolding resolve_with_def Service binding.case by (intro agree_service) simp
  next
    case (StateCount state sc a ex)
    with p show ?thesis unfolding resolve_with_def StateCount binding.case by (intro agree_counts[OF agree]) simp
  next
    case (StateList state ex sc m a ps computed)
    with p read_simps(7) have "state \<in> S" by blast
    note members = agree_lists[OF agree this]
    have "computed_of b = list_or_empty computed" "\<not> (\<exists>s. b = Latest s)" using StateList by (simp_all add: computed_of_def)
    note columns = cols[OF this]
    show ?thesis unfolding resolve_with_def StateList binding.case by (subst members, subst columns, rule refl)
  next
    case (ThingList a sc m computed st wh)
    with wb have "written st = None" by (simp add: waited_for_def)
    note roster = local_roster[OF this]
    have "computed_of b = list_or_empty computed" "\<not> (\<exists>s. b = Latest s)" using ThingList by (simp_all add: computed_of_def)
    note columns = cols[OF this]
    show ?thesis unfolding resolve_with_def ThingList binding.case fields_reading roster by (subst columns, rule refl)
  next
    case (CompareEntities ps computed)
    then have "computed_of b = list_or_empty computed" "\<not> (\<exists>s. b = Latest s)" by (simp_all add: computed_of_def)
    note columns = cols[OF this]
    show ?thesis unfolding resolve_with_def CompareEntities binding.case fields_reading scopes_reading figures_reading
      by (subst columns, rule refl)
  qed (simp_all add: resolve_with_def)
  then show ?case by (simp only: resolveBinding.simps[of lc b])
qed


text \<open>Reads that answer one state with the Things named and every other state with none.\<close>

definition reads_of :: "string \<Rightarrow> string list \<Rightarrow> model_reads" where
  "reads_of state ids = \<lparr>rd_thingsInState = (\<lambda>s n. Inr \<lparr>ts_StateName = s,
       ts_Things = Some (if s = state then map (\<lambda>i. \<lparr>sm_Id = i, sm_Name = i, sm_Properties = None\<rparr>) ids else []),
       ts_Count = Some (if s = state then js_int (int (length ids)) else Dec 0 0)\<rparr>),
     rd_thingRanges = (\<lambda>i. Inr None), rd_aggregate = (\<lambda>q. Inr []),
     rd_reduce = (\<lambda>q. Inr (map (\<lambda>st. (''all'', case ns_threshold st of Some n \<Rightarrow> n | None \<Rightarrow> Dec 0 0)) (rq_steps q))),
     rd_fromService = (\<lambda>e b. Inr None)\<rparr>"

definition page_context :: "model_reads \<Rightarrow> resolve_context" where
  "page_context r = \<lparr>rc_index = buildModelIndex page_model page_relationships, rc_scopeId = Some ''p'', rc_compareArchetype = None,
     rc_reads = r\<rparr>"

lemma page_context_reading: "page_context r = reading (page_context r') r"
  by (simp add: page_context_def)


subsection \<open>What the waits leave out\<close>

text \<open>A roster kept to a state is read from the platform, and its wait says it is read from the loaded model: it costs
  a request and a move of the state does not resolve it again.\<close>

definition open_pages :: binding where
  "open_pages = ThingList ''Dashboard'' None None None (Some ''open'') None"

lemma roster_in_state_not_waited_for:
  "\<not> askedOfTheBroker open_pages \<and> statesRead open_pages = []
   \<and> resolveBinding compare_code_units open_pages (page_context (reads_of ''open'' [])) = Inr (JArr [])
   \<and> resolveBinding compare_code_units open_pages (page_context (reads_of ''open'' [''q'']))
       = Inr (JArr [JObj [(''id'', JStr ''q''), (''name'', JStr ''!!'')]])"
  by code_simp

text \<open>A parameter of a reduction over history that another binding answers is made of that binding's states, and the
  wait names none of them.\<close>

definition threshold_by_state :: binding where
  "threshold_by_state = History ''level'' (Dec 1 0)
     [HistoryStep FoldAll HCountAbove None None None (Some (Bound (StateCount ''open'' None None None)))]"

lemma bound_parameter_not_waited_for:
  "statesRead threshold_by_state = []
   \<and> resolveBinding compare_code_units threshold_by_state (page_context (reads_of ''open'' []))
       \<noteq> resolveBinding compare_code_units threshold_by_state (page_context (reads_of ''open'' [''q'']))"
  by code_simp

end
