(* ===== verification/Localization.thy ===== *)
theory Localization
  imports ModelIndex "HOL-Library.State_Monad"
begin

section \<open>A specification in the reader's language\<close>

text \<open>
  \<open>src/api/dashboardLocalization.ts\<close> and the tags of \<open>src/i18n/languages.ts\<close>. One walk over a specification passes
  every display string to a translator. The localiser's translator looks the string up; \<open>displayStringsOf\<close> walks with
  one that records what it is passed, so the walk carries the strings recorded so far as its state.
\<close>

subsection \<open>Languages\<close>

definition BASE_LANGUAGE :: string where
  "BASE_LANGUAGE = ''en''"

definition primarySubtag :: "string \<Rightarrow> string" where
  "primarySubtag tag = toLowerCase (takeWhile (\<lambda>c. c \<noteq> CHR ''-'') tag)"

definition SUPPORTED_LANGUAGES :: "string list" where
  "SUPPORTED_LANGUAGES = [''en'', ''de'', ''es'', ''fr'', ''it'', ''nl'', ''ar-SA'', ''ar-AE'']"

definition matchSupportedLanguage :: "string \<Rightarrow> string option" where
  "matchSupportedLanguage tag = (case List.find (\<lambda>l. toLowerCase l = toLowerCase tag) SUPPORTED_LANGUAGES of
     Some l \<Rightarrow> Some l
   | None \<Rightarrow> List.find (\<lambda>l. primarySubtag l = primarySubtag tag) SUPPORTED_LANGUAGES)"

definition wordsInLanguage :: "(string, string) omap option \<Rightarrow> string \<Rightarrow> string option" where
  "wordsInLanguage ws language = Option.bind ws (\<lambda>m. first_some (oget m) [language, primarySubtag language, BASE_LANGUAGE])"

definition wordsFor :: "(string, (string, string) omap) omap \<Rightarrow> string \<Rightarrow> string \<Rightarrow> string" where
  "wordsFor wording t language = (case wordsInLanguage (oget wording t) language of Some ws \<Rightarrow> ws | None \<Rightarrow> t)"

subsection \<open>Translators\<close>

type_synonym translator = "string \<Rightarrow> (string list, string) state"

definition translationsFor :: "dashboard_specification \<Rightarrow> string \<Rightarrow> (string, string) omap option" where
  "translationsFor sp locale = (let translations = (case sp_translations sp of Some m \<Rightarrow> m | None \<Rightarrow> []) in
     case (oget translations locale, oget translations (primarySubtag locale)) of
       (Some regional, Some language) \<Rightarrow> Some (if locale = primarySubtag locale then regional else oassign language regional)
     | (Some regional, None) \<Rightarrow> Some regional
     | (None, language) \<Rightarrow> language)"

definition translated :: "(string, string) omap option \<Rightarrow> string \<Rightarrow> string" where
  "translated table t = (case Option.bind table (\<lambda>m. oget m t) of Some u \<Rightarrow> u | None \<Rightarrow> t)"

definition translating :: "(string \<Rightarrow> string) \<Rightarrow> translator" where
  "translating g t = State_Monad.return (g t)"

definition makeSpecificationTranslator :: "dashboard_specification \<Rightarrow> string \<Rightarrow> translator" where
  "makeSpecificationTranslator sp locale = translating (translated (translationsFor sp locale))"

definition record_text :: "string \<Rightarrow> string list \<Rightarrow> string list" where
  "record_text t seen = (if t \<noteq> [] \<and> t \<notin> set seen then seen @ [t] else seen)"

definition recording :: translator where
  "recording t = do { State_Monad.update (record_text t); State_Monad.return t }"

text \<open>What is not written is not passed to the translator.\<close>

fun optionally :: "('a \<Rightarrow> (string list, 'b) state) \<Rightarrow> 'a option \<Rightarrow> (string list, 'b option) state" where
  "optionally f None = State_Monad.return None"
| "optionally f (Some x) = do { y \<leftarrow> f x; State_Monad.return (Some y) }"

subsection \<open>The walk over a widget\<close>

definition localizeColumn :: "translator \<Rightarrow> table_column \<Rightarrow> (string list, table_column) state" where
  "localizeColumn tr c = do { label \<leftarrow> tr (tc_label c); State_Monad.return (c\<lparr>tc_label := label\<rparr>) }"

definition localizeColumns :: "translator \<Rightarrow> table_column list option \<Rightarrow> (string list, table_column list option) state" where
  "localizeColumns tr = optionally (State_Monad.traverse_list (localizeColumn tr))"

definition localize_levers :: "translator \<Rightarrow> string \<times> string \<Rightarrow> (string list, string \<times> string) state" where
  "localize_levers tr l = do { raise \<leftarrow> tr (fst l); lower \<leftarrow> tr (snd l); State_Monad.return (raise, lower) }"

definition localize_candidate :: "translator \<Rightarrow> verdict_candidate \<Rightarrow> (string list, verdict_candidate) state" where
  "localize_candidate tr c = do {
     reads \<leftarrow> tr (vc_reads c);
     levers \<leftarrow> optionally (localize_levers tr) (vc_levers c);
     State_Monad.return (c\<lparr>vc_reads := reads, vc_levers := levers\<rparr>) }"

definition localize_entry :: "translator \<Rightarrow> string \<times> string \<Rightarrow> (string list, string \<times> string) state" where
  "localize_entry tr entry = do { wording \<leftarrow> tr (snd entry); State_Monad.return (fst entry, wording) }"

definition localizeWording :: "translator \<Rightarrow> binding \<Rightarrow> (string list, binding) state" where
  "localizeWording tr b = (case b of
     Verdict states thing via \<Rightarrow> do {
       worded \<leftarrow> State_Monad.traverse_list (localize_candidate tr) states;
       State_Monad.return (Verdict worded thing via) }
   | Origin property thing via reads source \<Rightarrow> do {
       worded \<leftarrow> State_Monad.traverse_list (localize_entry tr) reads;
       State_Monad.return (Origin property thing via worded source) }
   | _ \<Rightarrow> State_Monad.return b)"

definition localizeField :: "translator \<Rightarrow> asked_value \<Rightarrow> (string list, asked_value) state" where
  "localizeField tr f = do { label \<leftarrow> tr (av_label f); State_Monad.return (f\<lparr>av_label := label\<rparr>) }"

definition localizeFields :: "translator \<Rightarrow> asked_value list option \<Rightarrow> (string list, asked_value list option) state" where
  "localizeFields tr = optionally (State_Monad.traverse_list (localizeField tr))"

definition localize_kpi :: "translator \<Rightarrow> kpi_widget \<Rightarrow> (string list, kpi_widget) state" where
  "localize_kpi tr w = do {
     title \<leftarrow> tr (kw_title w);
     unit \<leftarrow> optionally tr (kw_unit w);
     targetLabel \<leftarrow> optionally tr (kw_targetLabel w);
     baseline \<leftarrow> optionally tr (kw_sparkBaselineLabel w);
     footnote \<leftarrow> optionally tr (kw_footnote w);
     origin \<leftarrow> optionally (localizeWording tr) (kw_origin w);
     State_Monad.return (w\<lparr>kw_title := title, kw_unit := unit, kw_targetLabel := targetLabel,
       kw_sparkBaselineLabel := baseline, kw_footnote := footnote, kw_origin := origin\<rparr>) }"

definition localize_stage :: "translator \<Rightarrow> funnel_stage \<Rightarrow> (string list, funnel_stage) state" where
  "localize_stage tr s = do {
     label \<leftarrow> tr (fs_label s);
     sublabel \<leftarrow> optionally tr (fs_sublabel s);
     State_Monad.return (s\<lparr>fs_label := label, fs_sublabel := sublabel\<rparr>) }"

definition localize_funnel :: "translator \<Rightarrow> funnel_widget \<Rightarrow> (string list, funnel_widget) state" where
  "localize_funnel tr w = do {
     title \<leftarrow> optionally tr (fw_title w);
     hint \<leftarrow> optionally tr (fw_hint w);
     searchNoun \<leftarrow> optionally tr (fw_searchNoun w);
     stages \<leftarrow> State_Monad.traverse_list (localize_stage tr) (fw_stages w);
     drillColumns \<leftarrow> localizeColumns tr (fw_drillColumns w);
     State_Monad.return (w\<lparr>fw_title := title, fw_hint := hint, fw_searchNoun := searchNoun, fw_stages := stages,
       fw_drillColumns := drillColumns\<rparr>) }"

definition localize_bullet_row :: "translator \<Rightarrow> bullet_row \<Rightarrow> (string list, bullet_row) state" where
  "localize_bullet_row tr r = do { label \<leftarrow> tr (br_label r); State_Monad.return (r\<lparr>br_label := label\<rparr>) }"

definition localize_bullet :: "translator \<Rightarrow> bullet_widget \<Rightarrow> (string list, bullet_widget) state" where
  "localize_bullet tr w = do {
     title \<leftarrow> optionally tr (bw_title w);
     rows \<leftarrow> State_Monad.traverse_list (localize_bullet_row tr) (bw_rows w);
     State_Monad.return (w\<lparr>bw_title := title, bw_rows := rows\<rparr>) }"

definition localize_table :: "translator \<Rightarrow> table_widget \<Rightarrow> (string list, table_widget) state" where
  "localize_table tr w = do {
     title \<leftarrow> optionally tr (tw_title w);
     hint \<leftarrow> optionally tr (tw_hint w);
     columns \<leftarrow> State_Monad.traverse_list (localizeColumn tr) (tw_columns w);
     State_Monad.return (w\<lparr>tw_title := title, tw_hint := hint, tw_columns := columns\<rparr>) }"

definition localize_gantt :: "translator \<Rightarrow> gantt_widget \<Rightarrow> (string list, gantt_widget) state" where
  "localize_gantt tr w = do {
     title \<leftarrow> optionally tr (gw_title w);
     hint \<leftarrow> optionally tr (gw_hint w);
     ticks \<leftarrow> optionally (State_Monad.traverse_list tr) (gw_ticks w);
     State_Monad.return (w\<lparr>gw_title := title, gw_hint := hint, gw_ticks := ticks\<rparr>) }"

definition localize_metric :: "translator \<Rightarrow> leader_metric \<Rightarrow> (string list, leader_metric) state" where
  "localize_metric tr m = do { label \<leftarrow> tr (lm_label m); State_Monad.return (m\<lparr>lm_label := label\<rparr>) }"

definition localize_leaderboard :: "translator \<Rightarrow> leaderboard_widget \<Rightarrow> (string list, leaderboard_widget) state" where
  "localize_leaderboard tr w = do {
     title \<leftarrow> optionally tr (lw_title w);
     hint \<leftarrow> optionally tr (lw_hint w);
     metrics \<leftarrow> State_Monad.traverse_list (localize_metric tr) (lw_metrics w);
     State_Monad.return (w\<lparr>lw_title := title, lw_hint := hint, lw_metrics := metrics\<rparr>) }"

definition localize_working_row :: "translator \<Rightarrow> working_row \<Rightarrow> (string list, working_row) state" where
  "localize_working_row tr r = do {
     label \<leftarrow> tr (wk_label r);
     unit \<leftarrow> optionally tr (wk_unit r);
     State_Monad.return (r\<lparr>wk_label := label, wk_unit := unit\<rparr>) }"

definition localize_working :: "translator \<Rightarrow> working_widget \<Rightarrow> (string list, working_widget) state" where
  "localize_working tr w = do {
     title \<leftarrow> optionally tr (ww_title w);
     hint \<leftarrow> optionally tr (ww_hint w);
     rows \<leftarrow> State_Monad.traverse_list (localize_working_row tr) (ww_rows w);
     State_Monad.return (w\<lparr>ww_title := title, ww_hint := hint, ww_rows := rows\<rparr>) }"

definition localize_verdict_row :: "translator \<Rightarrow> verdict_row \<Rightarrow> (string list, verdict_row) state" where
  "localize_verdict_row tr r = do {
     label \<leftarrow> tr (vr_label r);
     unit \<leftarrow> optionally tr (vr_unit r);
     verdicts \<leftarrow> localizeWording tr (vr_verdicts r);
     State_Monad.return (r\<lparr>vr_label := label, vr_unit := unit, vr_verdicts := verdicts\<rparr>) }"

definition localize_verdict :: "translator \<Rightarrow> verdict_widget \<Rightarrow> (string list, verdict_widget) state" where
  "localize_verdict tr w = do {
     title \<leftarrow> optionally tr (vw_title w);
     hint \<leftarrow> optionally tr (vw_hint w);
     rows \<leftarrow> State_Monad.traverse_list (localize_verdict_row tr) (vw_rows w);
     State_Monad.return (w\<lparr>vw_title := title, vw_hint := hint, vw_rows := rows\<rparr>) }"

definition localize_bucket :: "translator \<Rightarrow> exception_bucket \<Rightarrow> (string list, exception_bucket) state" where
  "localize_bucket tr b = do { label \<leftarrow> tr (eb_label b); State_Monad.return (b\<lparr>eb_label := label\<rparr>) }"

definition localize_exception :: "translator \<Rightarrow> exception_widget \<Rightarrow> (string list, exception_widget) state" where
  "localize_exception tr w = do {
     title \<leftarrow> optionally tr (ew_title w);
     hint \<leftarrow> optionally tr (ew_hint w);
     note \<leftarrow> optionally tr (ew_note w);
     buckets \<leftarrow> State_Monad.traverse_list (localize_bucket tr) (ew_buckets w);
     State_Monad.return (w\<lparr>ew_title := title, ew_hint := hint, ew_note := note, ew_buckets := buckets\<rparr>) }"

definition localize_band :: "translator \<Rightarrow> range_band \<Rightarrow> (string list, range_band) state" where
  "localize_band tr b = do { label \<leftarrow> tr (rb_label b); State_Monad.return (b\<lparr>rb_label := label\<rparr>) }"

definition localize_range_bar :: "translator \<Rightarrow> range_bar_widget \<Rightarrow> (string list, range_bar_widget) state" where
  "localize_range_bar tr w = do {
     title \<leftarrow> optionally tr (rw_title w);
     hint \<leftarrow> optionally tr (rw_hint w);
     unit \<leftarrow> optionally tr (rw_unit w);
     bands \<leftarrow> optionally (State_Monad.traverse_list (localize_band tr)) (rw_bands w);
     State_Monad.return (w\<lparr>rw_title := title, rw_hint := hint, rw_unit := unit, rw_bands := bands\<rparr>) }"

definition localize_series :: "translator \<Rightarrow> string \<times> binding \<Rightarrow> (string list, string \<times> binding) state" where
  "localize_series tr entry = do { label \<leftarrow> tr (fst entry); State_Monad.return (label, snd entry) }"

definition localize_line_series :: "translator \<Rightarrow> line_series_widget \<Rightarrow> (string list, line_series_widget) state" where
  "localize_line_series tr w = do {
     title \<leftarrow> optionally tr (ls_title w);
     hint \<leftarrow> optionally tr (ls_hint w);
     unit \<leftarrow> optionally tr (ls_unit w);
     series \<leftarrow> State_Monad.traverse_list (localize_series tr) (ls_series w);
     State_Monad.return (w\<lparr>ls_title := title, ls_hint := hint, ls_unit := unit, ls_series := series\<rparr>) }"

definition localize_heatmap :: "translator \<Rightarrow> heatmap_widget \<Rightarrow> (string list, heatmap_widget) state" where
  "localize_heatmap tr w = do {
     title \<leftarrow> optionally tr (hw_title w);
     hint \<leftarrow> optionally tr (hw_hint w);
     unit \<leftarrow> optionally tr (hw_unit w);
     State_Monad.return (w\<lparr>hw_title := title, hw_hint := hint, hw_unit := unit\<rparr>) }"

definition localize_side :: "translator \<Rightarrow> diverging_bar_side \<Rightarrow> (string list, diverging_bar_side) state" where
  "localize_side tr d = do { label \<leftarrow> tr (ds_label d); State_Monad.return (d\<lparr>ds_label := label\<rparr>) }"

definition localize_diverging :: "translator \<Rightarrow> diverging_bar_widget \<Rightarrow> (string list, diverging_bar_widget) state" where
  "localize_diverging tr w = do {
     title \<leftarrow> optionally tr (dw_title w);
     hint \<leftarrow> optionally tr (dw_hint w);
     unit \<leftarrow> optionally tr (dw_unit w);
     up \<leftarrow> localize_side tr (dw_up w);
     down \<leftarrow> localize_side tr (dw_down w);
     State_Monad.return (w\<lparr>dw_title := title, dw_hint := hint, dw_unit := unit, dw_up := up, dw_down := down\<rparr>) }"

definition localize_multiple :: "translator \<Rightarrow> small_multiples_series \<Rightarrow> (string list, small_multiples_series) state" where
  "localize_multiple tr m = do {
     label \<leftarrow> tr (sm_label m);
     unit \<leftarrow> optionally tr (sm_unit m);
     State_Monad.return (m\<lparr>sm_label := label, sm_unit := unit\<rparr>) }"

definition localize_multiples :: "translator \<Rightarrow> small_multiples_widget \<Rightarrow> (string list, small_multiples_widget) state" where
  "localize_multiples tr w = do {
     title \<leftarrow> optionally tr (mw_title w);
     hint \<leftarrow> optionally tr (mw_hint w);
     bars \<leftarrow> localize_multiple tr (mw_bars w);
     line \<leftarrow> localize_multiple tr (mw_line w);
     band \<leftarrow> optionally (localize_band tr) (mw_band w);
     State_Monad.return (w\<lparr>mw_title := title, mw_hint := hint, mw_bars := bars, mw_line := line, mw_band := band\<rparr>) }"

definition localize_class :: "translator \<Rightarrow> stacked_shares_class \<Rightarrow> (string list, stacked_shares_class) state" where
  "localize_class tr c = do { label \<leftarrow> tr (sc_label c); State_Monad.return (c\<lparr>sc_label := label\<rparr>) }"

definition localize_shares :: "translator \<Rightarrow> stacked_shares_widget \<Rightarrow> (string list, stacked_shares_widget) state" where
  "localize_shares tr w = do {
     title \<leftarrow> optionally tr (sw_title w);
     hint \<leftarrow> optionally tr (sw_hint w);
     classes \<leftarrow> State_Monad.traverse_list (localize_class tr) (sw_classes w);
     State_Monad.return (w\<lparr>sw_title := title, sw_hint := hint, sw_classes := classes\<rparr>) }"

definition localize_choice :: "translator \<Rightarrow> action_choice \<Rightarrow> (string list, action_choice) state" where
  "localize_choice tr c = do { label \<leftarrow> tr (ch_label c); State_Monad.return (c\<lparr>ch_label := label\<rparr>) }"

definition localize_action :: "translator \<Rightarrow> action_widget \<Rightarrow> (string list, action_widget) state" where
  "localize_action tr w = do {
     title \<leftarrow> optionally tr (aw_title w);
     hint \<leftarrow> optionally tr (aw_hint w);
     asks \<leftarrow> localizeFields tr (aw_asks w);
     choices \<leftarrow> State_Monad.traverse_list (localize_choice tr) (ar_choices (aw_writes w));
     State_Monad.return (w\<lparr>aw_title := title, aw_hint := hint, aw_asks := asks,
       aw_writes := (aw_writes w)\<lparr>ar_choices := choices\<rparr>\<rparr>) }"

definition localize_preview :: "translator \<Rightarrow> string \<times> string \<Rightarrow> (string list, string \<times> string) state" where
  "localize_preview tr p = do { label \<leftarrow> tr (snd p); State_Monad.return (fst p, label) }"

definition localize_form :: "translator \<Rightarrow> form_widget \<Rightarrow> (string list, form_widget) state" where
  "localize_form tr w = do {
     title \<leftarrow> optionally tr (fm_title w);
     hint \<leftarrow> optionally tr (fm_hint w);
     fields \<leftarrow> State_Monad.traverse_list (localizeField tr) (fm_fields w);
     submit \<leftarrow> tr (fm_submit w);
     preview \<leftarrow> optionally (localize_preview tr) (fm_preview w);
     State_Monad.return (w\<lparr>fm_title := title, fm_hint := hint, fm_fields := fields, fm_submit := submit,
       fm_preview := preview\<rparr>) }"

definition localize_kind :: "translator \<Rightarrow> widget_kind \<Rightarrow> (string list, widget_kind) state" where
  "localize_kind tr k = (case k of
     Kpi w \<Rightarrow> do { w' \<leftarrow> localize_kpi tr w; State_Monad.return (Kpi w') }
   | Funnel w \<Rightarrow> do { w' \<leftarrow> localize_funnel tr w; State_Monad.return (Funnel w') }
   | Bullet w \<Rightarrow> do { w' \<leftarrow> localize_bullet tr w; State_Monad.return (Bullet w') }
   | Table w \<Rightarrow> do { w' \<leftarrow> localize_table tr w; State_Monad.return (Table w') }
   | Gantt w \<Rightarrow> do { w' \<leftarrow> localize_gantt tr w; State_Monad.return (Gantt w') }
   | Leaderboard w \<Rightarrow> do { w' \<leftarrow> localize_leaderboard tr w; State_Monad.return (Leaderboard w') }
   | WorkingList w \<Rightarrow> do { w' \<leftarrow> localize_working tr w; State_Monad.return (WorkingList w') }
   | VerdictList w \<Rightarrow> do { w' \<leftarrow> localize_verdict tr w; State_Monad.return (VerdictList w') }
   | ExceptionBar w \<Rightarrow> do { w' \<leftarrow> localize_exception tr w; State_Monad.return (ExceptionBar w') }
   | RangeBar w \<Rightarrow> do { w' \<leftarrow> localize_range_bar tr w; State_Monad.return (RangeBar w') }
   | LineSeries w \<Rightarrow> do { w' \<leftarrow> localize_line_series tr w; State_Monad.return (LineSeries w') }
   | Heatmap w \<Rightarrow> do { w' \<leftarrow> localize_heatmap tr w; State_Monad.return (Heatmap w') }
   | DivergingBar w \<Rightarrow> do { w' \<leftarrow> localize_diverging tr w; State_Monad.return (DivergingBar w') }
   | SmallMultiples w \<Rightarrow> do { w' \<leftarrow> localize_multiples tr w; State_Monad.return (SmallMultiples w') }
   | StackedShares w \<Rightarrow> do { w' \<leftarrow> localize_shares tr w; State_Monad.return (StackedShares w') }
   | Action w \<Rightarrow> do { w' \<leftarrow> localize_action tr w; State_Monad.return (Action w') }
   | Form w \<Rightarrow> do { w' \<leftarrow> localize_form tr w; State_Monad.return (Form w') })"

definition localizeWidget :: "translator \<Rightarrow> widget \<Rightarrow> (string list, widget) state" where
  "localizeWidget tr w = do { kind \<leftarrow> localize_kind tr (wg_kind w); State_Monad.return (w\<lparr>wg_kind := kind\<rparr>) }"

subsection \<open>The walk over a specification\<close>

definition localizeSection :: "translator \<Rightarrow> dashboard_section \<Rightarrow> (string list, dashboard_section) state" where
  "localizeSection tr s = do {
     title \<leftarrow> optionally tr (se_title s);
     hint \<leftarrow> optionally tr (se_hint s);
     widgets \<leftarrow> State_Monad.traverse_list (localizeWidget tr) (se_widgets s);
     State_Monad.return (s\<lparr>se_title := title, se_hint := hint, se_widgets := widgets\<rparr>) }"

fun localizeRelation :: "translator \<Rightarrow> relation_specification \<Rightarrow> (string list, relation_specification) state"
  and localizeRelations :: "translator \<Rightarrow> relation_specification list \<Rightarrow> (string list, relation_specification list) state" where
  "localizeRelation tr (RelationSpecification predicate direction archetype label properties inline relations) = do {
     label' \<leftarrow> optionally tr label;
     relations' \<leftarrow> (case relations of None \<Rightarrow> State_Monad.return None
       | Some rs \<Rightarrow> do { rs' \<leftarrow> localizeRelations tr rs; State_Monad.return (Some rs') });
     State_Monad.return (RelationSpecification predicate direction archetype label' properties inline relations') }"
| "localizeRelations tr [] = State_Monad.return []"
| "localizeRelations tr (r # rs) = do {
     r' \<leftarrow> localizeRelation tr r;
     rs' \<leftarrow> localizeRelations tr rs;
     State_Monad.return (r' # rs') }"

definition localize_group :: "translator \<Rightarrow> string \<times> string list \<Rightarrow> (string list, string \<times> string list) state" where
  "localize_group tr g = do { label \<leftarrow> tr (fst g); State_Monad.return (label, snd g) }"

definition localizeDetail :: "translator \<Rightarrow> detail_specification \<Rightarrow> (string list, detail_specification) state" where
  "localizeDetail tr d = do {
     groups \<leftarrow> optionally (State_Monad.traverse_list (localize_group tr)) (de_propertyGroups d);
     relations \<leftarrow> optionally (localizeRelations tr) (de_relations d);
     State_Monad.return (d\<lparr>de_propertyGroups := groups, de_relations := relations\<rparr>) }"

definition localize_compare :: "translator \<Rightarrow> compare_configuration \<Rightarrow> (string list, compare_configuration) state" where
  "localize_compare tr c = do { label \<leftarrow> tr (cc_label c); State_Monad.return (c\<lparr>cc_label := label\<rparr>) }"

definition localizeWith :: "translator \<Rightarrow> dashboard_specification \<Rightarrow> (string list, dashboard_specification) state" where
  "localizeWith tr sp = do {
     title \<leftarrow> tr (sp_title sp);
     subtitle \<leftarrow> optionally tr (sp_subtitle sp);
     compare \<leftarrow> optionally (localize_compare tr) (sp_compare sp);
     sections \<leftarrow> State_Monad.traverse_list (localizeSection tr) (sp_sections sp);
     detail \<leftarrow> optionally (localizeDetail tr) (sp_detail sp);
     State_Monad.return (sp\<lparr>sp_title := title, sp_subtitle := subtitle, sp_compare := compare, sp_sections := sections,
       sp_detail := detail\<rparr>) }"

definition localizeSpecification :: "dashboard_specification \<Rightarrow> string \<Rightarrow> dashboard_specification" where
  "localizeSpecification sp locale = (case translationsFor sp locale of None \<Rightarrow> sp
     | Some table \<Rightarrow> fst (run_state (localizeWith (makeSpecificationTranslator sp locale) sp) []))"

definition displayStringsOf :: "dashboard_specification \<Rightarrow> string list" where
  "displayStringsOf sp = snd (run_state (localizeWith recording sp) [])"

subsection \<open>What a binding resolves against is not translated\<close>

text \<open>A binding without its words.\<close>

definition unworded_candidate :: "verdict_candidate \<Rightarrow> verdict_candidate" where
  "unworded_candidate c = c\<lparr>vc_reads := [], vc_levers := map_option (\<lambda>l. ([], [])) (vc_levers c)\<rparr>"

definition unworded :: "binding \<Rightarrow> binding" where
  "unworded b = (case b of
     Verdict states thing via \<Rightarrow> Verdict (map unworded_candidate states) thing via
   | Origin property thing via reads source \<Rightarrow> Origin property thing via (map (\<lambda>e. (fst e, [])) reads) source
   | _ \<Rightarrow> b)"

lemma unworded_idem [simp]: "unworded (unworded b) = unworded b"
  by (cases b) (auto simp: unworded_def unworded_candidate_def option.map_comp comp_def)

lemma map_unworded:
  assumes "\<And>b. f (unworded b) = f b" and "map unworded bs = map unworded cs"
  shows "map f bs = map f cs"
proof -
  have "map f (map unworded bs) = map f (map unworded cs)" by (simp only: assms(2))
  then show ?thesis by (simp add: comp_def assms(1))
qed

lemma pred_bind: "(\<And>a. pred_state P (f a)) \<Longrightarrow> pred_state P (State_Monad.bind m f)"
  by (rule bind_predI) (auto intro: pred_stateI)

lemma pred_bind': "pred_state Q m \<Longrightarrow> (\<And>a. Q a \<Longrightarrow> pred_state P (f a)) \<Longrightarrow> pred_state P (State_Monad.bind m f)"
  by (rule bind_predI) (auto intro!: pred_stateI dest: pred_stateD)

lemma pred_return [simp]: "pred_state P (State_Monad.return x) = P x"
  by (auto simp: State_Monad.return_def pred_fun_def)

lemma pred_traverse:
  assumes "\<And>x. x \<in> set xs \<Longrightarrow> pred_state (\<lambda>y. f y = f x) (h x)"
  shows "pred_state (\<lambda>ys. map f ys = map f xs) (State_Monad.traverse_list h xs)"
  using assms
proof (induction xs)
  case (Cons x xs)
  then have head: "pred_state (\<lambda>y. f y = f x) (h x)" and tail: "pred_state (\<lambda>ys. map f ys = map f xs) (State_Monad.traverse_list h xs)"
    by simp_all
  show ?case unfolding State_Monad.traverse_list.simps
    by (rule pred_bind'[OF head], rule pred_bind'[OF tail]) simp
qed simp

lemma pred_optionally:
  assumes "\<And>x. xs = Some x \<Longrightarrow> pred_state (\<lambda>y. f y = f x) (h x)"
  shows "pred_state (\<lambda>ys. map_option f ys = map_option f xs) (optionally h xs)"
proof (cases xs)
  case (Some x)
  show ?thesis unfolding Some optionally.simps by (rule pred_bind'[OF assms[OF Some]]) simp
qed simp

lemma wording_unworded: "pred_state (\<lambda>b'. unworded b' = unworded b) (localizeWording tr b)"
proof -
  have "pred_state (\<lambda>c'. unworded_candidate c' = unworded_candidate c) (localize_candidate tr c)" for c
    by (cases "vc_levers c")
      (auto simp: localize_candidate_def localize_levers_def unworded_candidate_def intro!: pred_bind)
  note states = pred_traverse[of _ unworded_candidate, OF this]
  have "pred_state (\<lambda>e'. (fst e', []::string) = (fst e, [])) (localize_entry tr e)" for e
    by (auto simp: localize_entry_def intro!: pred_bind)
  note reads = pred_traverse[of _ "\<lambda>e. (fst e, []::string)", OF this]
  show ?thesis
    by (cases b) (auto simp: localizeWording_def unworded_def intro!: pred_bind'[OF states] pred_bind'[OF reads])
qed

text \<open>The bindings of a widget, without their words.\<close>

definition bound_slots :: "widget_kind \<Rightarrow> binding option list" where
  "bound_slots k = map (map_option unworded) (widgetBindings \<lparr>wg_kind = k, wg_placement = None\<rparr>)"

lemmas slot_defs = bound_slots_def widgetBindings_def series_bindings_def

lemma rows_keep:
  "pred_state (\<lambda>s'. [Some (fs_count s'), fs_drill s'] = [Some (fs_count s), fs_drill s]) (localize_stage tr s)"
  "pred_state (\<lambda>r'. Some (br_value r') = Some (br_value r)) (localize_bullet_row tr r)"
  "pred_state (\<lambda>k'. [Some (wk_value k'), Some (wk_working k')] = [Some (wk_value k), Some (wk_working k)]) (localize_working_row tr k)"
  "pred_state (\<lambda>b'. Some (eb_value b') = Some (eb_value b)) (localize_bucket tr b)"
  "pred_state (\<lambda>d'. [rb_from d', rb_to d'] = [rb_from d, rb_to d]) (localize_band tr d)"
  "pred_state (\<lambda>e'. Some (snd e') = Some (snd e)) (localize_series tr e)"
  "pred_state (\<lambda>c'. [Some (sc_share c'), (case sc_colour c' of ColourBound b \<Rightarrow> Some b | ColourWritten c \<Rightarrow> None)]
     = [Some (sc_share c), (case sc_colour c of ColourBound b \<Rightarrow> Some b | ColourWritten c \<Rightarrow> None)]) (localize_class tr c)"
  "pred_state (\<lambda>f'. av_options f' = av_options f) (localizeField tr f)"
  by (auto simp: localize_stage_def localize_bullet_row_def localize_working_row_def localize_bucket_def localize_band_def
      localize_series_def localize_class_def localizeField_def intro!: pred_bind)

lemma sides_keep:
  "pred_state (\<lambda>d'. ds_value d' = ds_value d \<and> ds_threshold d' = ds_threshold d) (localize_side tr d)"
  "pred_state (\<lambda>m'. sm_value m' = sm_value m) (localize_multiple tr m)"
  by (auto simp: localize_side_def localize_multiple_def intro!: pred_bind)

lemma verdict_rows_keep:
  "pred_state (\<lambda>r'. map_option unworded (Some (vr_verdicts r')) = map_option unworded (Some (vr_verdicts r))) (localize_verdict_row tr r)"
  unfolding localize_verdict_row_def by (rule pred_bind'[OF wording_unworded] pred_bind)+ simp

lemma bands_keep:
  "pred_state (\<lambda>bs'. map (\<lambda>b. [rb_from b, rb_to b]) (list_or_empty bs') = map (\<lambda>b. [rb_from b, rb_to b]) (list_or_empty bs))
     (optionally (State_Monad.traverse_list (localize_band tr)) bs)"
  by (cases bs) (auto simp: list_or_empty_def intro!: pred_bind'[OF pred_traverse[OF rows_keep(5)]])

lemma fields_keep:
  "pred_state (\<lambda>fs'. map av_options (list_or_empty fs') = map av_options (list_or_empty fs)) (localizeFields tr fs)"
  unfolding localizeFields_def
  by (cases fs) (auto simp: list_or_empty_def intro!: pred_bind'[OF pred_traverse[OF rows_keep(8)]])

text \<open>Each kind of widget keeps its bindings.\<close>

lemma kpi_slots: "pred_state (\<lambda>w'. bound_slots (Kpi w') = bound_slots (Kpi w)) (localize_kpi tr w)"
  unfolding localize_kpi_def by (rule pred_bind'[OF pred_optionally[OF wording_unworded]] pred_bind)+ (simp add: slot_defs)

lemma funnel_slots: "pred_state (\<lambda>w'. bound_slots (Funnel w') = bound_slots (Funnel w)) (localize_funnel tr w)"
  unfolding localize_funnel_def by (rule pred_bind'[OF pred_traverse[OF rows_keep(1)]] pred_bind)+ (simp add: slot_defs)

lemma bullet_slots: "pred_state (\<lambda>w'. bound_slots (Bullet w') = bound_slots (Bullet w)) (localize_bullet tr w)"
  unfolding localize_bullet_def by (rule pred_bind'[OF pred_traverse[OF rows_keep(2)]] pred_bind)+ (simp add: slot_defs del: map_map)

lemma table_slots: "pred_state (\<lambda>w'. bound_slots (Table w') = bound_slots (Table w)) (localize_table tr w)"
  unfolding localize_table_def by (rule pred_bind)+ (simp add: slot_defs)

lemma gantt_slots: "pred_state (\<lambda>w'. bound_slots (Gantt w') = bound_slots (Gantt w)) (localize_gantt tr w)"
  unfolding localize_gantt_def by (rule pred_bind)+ (simp add: slot_defs)

lemma leaderboard_slots: "pred_state (\<lambda>w'. bound_slots (Leaderboard w') = bound_slots (Leaderboard w)) (localize_leaderboard tr w)"
  unfolding localize_leaderboard_def by (rule pred_bind)+ (simp add: slot_defs)

lemma verdict_slots: "pred_state (\<lambda>w'. bound_slots (VerdictList w') = bound_slots (VerdictList w)) (localize_verdict tr w)"
  unfolding localize_verdict_def by (rule pred_bind'[OF pred_traverse[OF verdict_rows_keep]] pred_bind)+ (simp add: slot_defs comp_def)

lemma working_slots: "pred_state (\<lambda>w'. bound_slots (WorkingList w') = bound_slots (WorkingList w)) (localize_working tr w)"
  unfolding localize_working_def by (rule pred_bind'[OF pred_traverse[OF rows_keep(3)]] pred_bind)+ (simp add: slot_defs)

lemma exception_slots: "pred_state (\<lambda>w'. bound_slots (ExceptionBar w') = bound_slots (ExceptionBar w)) (localize_exception tr w)"
  unfolding localize_exception_def by (rule pred_bind'[OF pred_traverse[OF rows_keep(4)]] pred_bind)+ (simp add: slot_defs del: map_map)

lemma range_bar_slots: "pred_state (\<lambda>w'. bound_slots (RangeBar w') = bound_slots (RangeBar w)) (localize_range_bar tr w)"
  unfolding localize_range_bar_def by (rule pred_bind'[OF bands_keep] pred_bind)+ (simp add: slot_defs)

lemma line_series_slots: "pred_state (\<lambda>w'. bound_slots (LineSeries w') = bound_slots (LineSeries w)) (localize_line_series tr w)"
  unfolding localize_line_series_def by (rule pred_bind'[OF pred_traverse[OF rows_keep(6)]] pred_bind)+ (simp add: slot_defs del: map_map)

lemma heatmap_slots: "pred_state (\<lambda>w'. bound_slots (Heatmap w') = bound_slots (Heatmap w)) (localize_heatmap tr w)"
  unfolding localize_heatmap_def by (rule pred_bind)+ (simp add: slot_defs)

lemma shares_slots: "pred_state (\<lambda>w'. bound_slots (StackedShares w') = bound_slots (StackedShares w)) (localize_shares tr w)"
  unfolding localize_shares_def by (rule pred_bind'[OF pred_traverse[OF rows_keep(7)]] pred_bind)+ (simp add: slot_defs)

lemma diverging_slots: "pred_state (\<lambda>w'. bound_slots (DivergingBar w') = bound_slots (DivergingBar w)) (localize_diverging tr w)"
  unfolding localize_diverging_def by (rule pred_bind'[OF sides_keep(1)] pred_bind)+ (simp add: slot_defs)

lemma multiples_slots: "pred_state (\<lambda>w'. bound_slots (SmallMultiples w') = bound_slots (SmallMultiples w)) (localize_multiples tr w)"
  unfolding localize_multiples_def
  by (rule pred_bind'[OF sides_keep(2)] pred_bind'[OF pred_optionally[OF rows_keep(5)]] pred_bind)+ (cases "mw_band w"; auto simp: slot_defs)

lemma action_slots: "pred_state (\<lambda>w'. bound_slots (Action w') = bound_slots (Action w)) (localize_action tr w)"
  unfolding localize_action_def by (rule pred_bind'[OF fields_keep] pred_bind)+ (simp add: slot_defs del: map_map)

lemma form_slots: "pred_state (\<lambda>w'. bound_slots (Form w') = bound_slots (Form w)) (localize_form tr w)"
  unfolding localize_form_def by (rule pred_bind'[OF pred_traverse[OF rows_keep(8)]] pred_bind)+ (simp add: slot_defs del: map_map)

lemmas widget_slots = kpi_slots funnel_slots bullet_slots table_slots gantt_slots leaderboard_slots verdict_slots working_slots exception_slots range_bar_slots line_series_slots heatmap_slots shares_slots diverging_slots multiples_slots action_slots form_slots

lemma kind_slots: "pred_state (\<lambda>k'. bound_slots k' = bound_slots k) (localize_kind tr k)"
  unfolding localize_kind_def by (cases k; simp only: widget_kind.case; rule pred_bind', rule widget_slots, simp)

lemma widget_keeps: "pred_state (\<lambda>w'. map unworded (slotsOf w') = map unworded (slotsOf w)) (localizeWidget tr w)"
proof -
  have slots: "map unworded (slotsOf w) = written_ones (bound_slots (wg_kind w))" for w
    by (simp add: slotsOf_def bound_slots_def written_ones_def List.map_filter_def widgetBindings_def filter_map comp_def option.map_sel)
  show ?thesis unfolding localizeWidget_def by (rule pred_bind'[OF kind_slots]) (simp add: slots)
qed

lemma section_keeps:
  "pred_state (\<lambda>s'. map (\<lambda>w. map unworded (slotsOf w)) (se_widgets s') = map (\<lambda>w. map unworded (slotsOf w)) (se_widgets s))
     (localizeSection tr s)"
  unfolding localizeSection_def by (rule pred_bind'[OF pred_traverse[OF widget_keeps]] pred_bind)+ simp

lemma relation_keeps:
  "pred_state (\<lambda>r'. detail_paths r' = detail_paths r) (localizeRelation tr r)"
  "pred_state (\<lambda>rs'. map detail_paths rs' = map detail_paths rs) (localizeRelations tr rs)"
proof (induction tr r and tr rs rule: localizeRelation_localizeRelations.induct)
  case (1 tr predicate direction archetype label properties inline relations)
  show ?case
  proof (cases relations)
    case (Some rs)
    show ?thesis unfolding localizeRelation.simps Some option.case State_Monad.bind_assoc
      by (rule pred_bind, rule pred_bind'[OF 1[OF Some]]) simp
  qed (auto intro!: pred_bind)
next
  case (3 tr r rs)
  show ?case unfolding localizeRelations.simps by (rule pred_bind'[OF 3(1)], rule pred_bind'[OF 3(2)]) simp
qed simp

lemma detail_keeps: "pred_state (\<lambda>d'. detailWalks (de_relations d') = detailWalks (de_relations d)) (localizeDetail tr d)"
proof -
  have "pred_state (\<lambda>rs'. detailWalks rs' = detailWalks rs) (optionally (localizeRelations tr) rs)" for rs
    by (cases rs) (auto simp: detailWalks_def intro!: pred_bind'[OF relation_keeps(2)])
  note relations = this[of "de_relations d"]
  show ?thesis unfolding localizeDetail_def by (rule pred_bind'[OF relations] pred_bind)+ simp
qed

lemma nested_unworded: "map unworded (withNested (unworded b)) = map unworded (withNested b)"
proof -
  have "inner_bindings (unworded b) = inner_bindings b" by (cases b) (simp_all add: unworded_def inner_bindings_def computed_of_def)
  then show ?thesis by (simp add: withNested.simps[of b] withNested.simps[of "unworded b"])
qed

lemma bindings_unworded: "map unworded (bindingsOf w) = concat (map (\<lambda>b. map unworded (withNested b)) (map unworded (slotsOf w)))"
  by (simp add: bindingsOf_def map_concat comp_def nested_unworded)

definition all_slots :: "dashboard_section list \<Rightarrow> binding list list" where
  "all_slots ss = concat (map (\<lambda>s. map (\<lambda>w. map unworded (slotsOf w)) (se_widgets s)) ss)"

lemma specification_unworded:
  "map unworded (specificationBindings sp) = concat (map (concat \<circ> map (\<lambda>b. map unworded (withNested b))) (all_slots (sp_sections sp)))"
  by (simp add: specificationBindings_def all_slots_def map_concat comp_def bindings_unworded)

definition reads_as :: "dashboard_specification \<Rightarrow> dashboard_specification \<Rightarrow> bool" where
  "reads_as sp' sp \<longleftrightarrow> all_slots (sp_sections sp') = all_slots (sp_sections sp)
     \<and> detailWalks (Option.bind (sp_detail sp') de_relations) = detailWalks (Option.bind (sp_detail sp) de_relations)
     \<and> map_option cc_archetype (sp_compare sp') = map_option cc_archetype (sp_compare sp)"

lemma specification_keeps: "pred_state (\<lambda>sp'. reads_as sp' sp) (localizeWith tr sp)"
proof -
  have "pred_state (\<lambda>c'. cc_archetype c' = cc_archetype c) (localize_compare tr c)" for c
    by (auto simp: localize_compare_def intro!: pred_bind)
  note compare = pred_optionally[of "sp_compare sp", OF this]
  have detail: "pred_state (\<lambda>d'. map_option (\<lambda>d. detailWalks (de_relations d)) d' = map_option (\<lambda>d. detailWalks (de_relations d)) (sp_detail sp))
      (optionally (localizeDetail tr) (sp_detail sp))" by (rule pred_optionally[OF detail_keeps])
  have walks: "detailWalks (Option.bind d de_relations) = list_or_empty (map_option (\<lambda>d. detailWalks (de_relations d)) d)"
    for d by (cases d) (simp_all add: detailWalks_def list_or_empty_def)
  show ?thesis unfolding localizeWith_def
    by (rule pred_bind'[OF compare] pred_bind'[OF pred_traverse[OF section_keeps]] pred_bind'[OF detail] pred_bind)+
      (simp add: reads_as_def all_slots_def walks)
qed

lemma localized_reads: "reads_as (localizeSpecification sp locale) sp"
proof (cases "translationsFor sp locale")
  case (Some table)
  with pred_state_run_state[OF specification_keeps] show ?thesis by (simp add: localizeSpecification_def)
qed (simp add: localizeSpecification_def reads_as_def)

lemma unworded_reads [simp]:
  "bindingWalk (unworded b) = bindingWalk b" "scope_of (unworded b) = scope_of b"
  "drawn_type i (unworded b) = drawn_type i b" "named_thing (unworded b) = named_thing b"
  by (cases b; simp add: unworded_def bindingWalk_def scope_of_def drawn_type_def reads_its_type_locally_def archetype_of_def
      named_thing_def thing_of_def)+

definition offers_levers :: "binding \<Rightarrow> bool" where
  "offers_levers b = (case b of Verdict states thing via \<Rightarrow> list_ex (\<lambda>state. vc_levers state \<noteq> None) states | _ \<Rightarrow> False)"

lemma offersLevers_alt: "offersLevers sp = (True \<in> set (map offers_levers (specificationBindings sp)))"
  by (auto simp: offersLevers_def list_ex_iff image_iff offers_levers_def)

lemma offers_levers_unworded [simp]: "offers_levers (unworded b) = offers_levers b"
  by (cases b) (simp_all add: offers_levers_def unworded_def unworded_candidate_def list_ex_iff)

definition at_scope :: "string list \<times> traverse_rule list \<Rightarrow> scope_reference option \<Rightarrow> string list \<times> traverse_rule list" where
  "at_scope s sc = scope_rule_step s (StateCount [] sc None None)"

lemma scopeRules_alt: "scopeRules sp = snd (foldl at_scope ([], []) (map scope_of (specificationBindings sp)))"
proof -
  have "scope_rule_step = (\<lambda>s b. at_scope s (scope_of b))"
    by (intro ext, rename_tac s b, case_tac s) (simp add: at_scope_def scope_rule_step_def scope_of_def[of "StateCount _ _ _ _"])
  then show ?thesis by (simp add: scopeRules_def foldl_map)
qed

text \<open>C13. Translating a specification changes nothing it is resolved by. Whatever strings a model's translations
  hold, and in whatever language it is read, the page declares the same subscription as the specification its
  author wrote, and its bindings are the author's, one for one and in order, but for the words a verdict and an
  origin are shown with.\<close>

theorem translation_keeps_meaning:
  "subscriptionForSpecification (localizeSpecification sp locale) scopeId = subscriptionForSpecification sp scopeId
   \<and> map unworded (specificationBindings (localizeSpecification sp locale)) = map unworded (specificationBindings sp)"
proof -
  let ?sp = "localizeSpecification sp locale"
  from localized_reads have reads: "reads_as ?sp sp" .
  then have same: "map unworded (specificationBindings ?sp) = map unworded (specificationBindings sp)"
    by (simp add: specification_unworded reads_as_def)
  note by_binding = map_unworded[OF _ same]
  have levers: "offersLevers ?sp = offersLevers sp"
    by (simp add: offersLevers_alt by_binding[of offers_levers])
  have "scopeRules ?sp = scopeRules sp" unfolding scopeRules_alt by (simp add: by_binding[of scope_of])
  moreover have "specificationWalks ?sp = specificationWalks sp"
    using reads by (simp add: specificationWalks_def by_binding[of bindingWalk] reads_as_def)
  ultimately have "traversal ?sp = traversal sp" by (simp add: traversal_def levers)
  moreover have "namedThings ?sp = namedThings sp" by (simp add: namedThings_def by_binding[of named_thing])
  moreover have "drawnTypes ?sp scopeId = drawnTypes sp scopeId"
    using reads by (cases "sp_compare ?sp"; cases "sp_compare sp") (auto simp: drawnTypes_def by_binding[of "drawn_type scopeId"] reads_as_def)
  ultimately show ?thesis using same by (simp add: subscriptionForSpecification_def levers)
qed

subsection \<open>Every string that is translated is offered for translation\<close>

text \<open>Three walks side by side: one that records, and two that translate with \<open>g\<close> and with \<open>h\<close>. While what has been
  recorded stays within \<open>S\<close>, the two that translate go the same way.\<close>

definition agree_on_strings :: "string set \<Rightarrow> (string \<Rightarrow> string) \<Rightarrow> (string \<Rightarrow> string) \<Rightarrow> bool" where
  "agree_on_strings S g h \<longleftrightarrow> (\<forall>t\<in>S. g t = h t) \<and> g [] = h []"

definition tidy :: "string list \<Rightarrow> bool" where
  "tidy seen \<longleftrightarrow> distinct seen \<and> [] \<notin> set seen"

definition walks_alike :: "string set \<Rightarrow> (string list, 'a) state \<Rightarrow> (string list, 'b) state \<Rightarrow> (string list, 'b) state \<Rightarrow> bool" where
  "walks_alike S m m1 m2 \<longleftrightarrow> (\<forall>seen s1 s2. set seen \<subseteq> set (snd (run_state m seen)) \<and> (tidy seen \<longrightarrow> tidy (snd (run_state m seen)))
     \<and> (set (snd (run_state m seen)) \<subseteq> S \<longrightarrow> fst (run_state m1 s1) = fst (run_state m2 s2)
        \<and> snd (run_state m1 s1) = s1 \<and> snd (run_state m2 s2) = s2))"

lemma alike_return: "walks_alike S (State_Monad.return x) (State_Monad.return y) (State_Monad.return y)"
  by (simp add: walks_alike_def)

lemma alike_grows: "walks_alike S m m1 m2 \<Longrightarrow> run_state m seen = (x, seen') \<Longrightarrow> set seen \<subseteq> set seen' \<and> (tidy seen \<longrightarrow> tidy seen')"
  unfolding walks_alike_def by (metis snd_conv)

lemma alike_same:
  "walks_alike S m m1 m2 \<Longrightarrow> run_state m seen = (x, seen') \<Longrightarrow> set seen' \<subseteq> S \<Longrightarrow>
   \<exists>y. run_state m1 s1 = (y, s1) \<and> run_state m2 s2 = (y, s2)"
  unfolding walks_alike_def by (metis prod.collapse snd_conv)

lemma alike_bind:
  assumes "walks_alike S m m1 m2" and "\<And>x y. walks_alike S (k x) (k1 y) (k2 y)"
  shows "walks_alike S (State_Monad.bind m k) (State_Monad.bind m1 k1) (State_Monad.bind m2 k2)"
  unfolding walks_alike_def
proof (intro allI conjI)
  fix seen s1 s2
  obtain x seen' where m: "run_state m seen = (x, seen')" by fastforce
  obtain z seen'' where k: "run_state (k x) seen' = (z, seen'')" by fastforce
  note grows = alike_grows[OF assms(1) m] alike_grows[OF assms(2) k]
  from grows show "set seen \<subseteq> set (snd (run_state (State_Monad.bind m k) seen))"
    and "tidy seen \<longrightarrow> tidy (snd (run_state (State_Monad.bind m k) seen))" by (auto simp: m k)
  show "set (snd (run_state (State_Monad.bind m k) seen)) \<subseteq> S \<longrightarrow>
      fst (run_state (State_Monad.bind m1 k1) s1) = fst (run_state (State_Monad.bind m2 k2) s2)
      \<and> snd (run_state (State_Monad.bind m1 k1) s1) = s1 \<and> snd (run_state (State_Monad.bind m2 k2) s2) = s2"
  proof
    assume "set (snd (run_state (State_Monad.bind m k) seen)) \<subseteq> S"
    then have S: "set seen'' \<subseteq> S" by (simp add: m k)
    with grows have "set seen' \<subseteq> S" by blast
    with alike_same[OF assms(1) m] obtain y where "run_state m1 s1 = (y, s1)" "run_state m2 s2 = (y, s2)" by blast
    with alike_same[OF assms(2) k S, of y s1 s2] show
      "fst (run_state (State_Monad.bind m1 k1) s1) = fst (run_state (State_Monad.bind m2 k2) s2)
      \<and> snd (run_state (State_Monad.bind m1 k1) s1) = s1 \<and> snd (run_state (State_Monad.bind m2 k2) s2) = s2" by auto
  qed
qed

lemma alike_text: "agree_on_strings S g h \<Longrightarrow> walks_alike S (recording t) (translating g t) (translating h t)"
  by (auto simp: walks_alike_def recording_def translating_def agree_on_strings_def record_text_def State_Monad.update_def tidy_def
      split: if_splits)

lemma alike_traverse:
  assumes "\<And>x. walks_alike S (f x) (f1 x) (f2 x)"
  shows "walks_alike S (State_Monad.traverse_list f xs) (State_Monad.traverse_list f1 xs) (State_Monad.traverse_list f2 xs)"
  by (induction xs) (auto intro!: alike_return alike_bind assms)

lemma alike_optionally:
  assumes "\<And>x. walks_alike S (f x) (f1 x) (f2 x)"
  shows "walks_alike S (optionally f v) (optionally f1 v) (optionally f2 v)"
  by (cases v) (auto intro!: alike_return alike_bind assms)

lemmas alike_rules = alike_return alike_bind alike_text alike_traverse alike_optionally

lemma alike_levers:
  assumes "agree_on_strings S g h"
  shows "walks_alike S (localize_levers recording l) (localize_levers (translating g) l) (localize_levers (translating h) l)"
  unfolding localize_levers_def by (intro alike_rules assms)

lemma alike_rows:
  assumes "agree_on_strings S g h"
  shows "walks_alike S (localizeColumn recording x0) (localizeColumn (translating g) x0) (localizeColumn (translating h) x0)"
    and "walks_alike S (localize_candidate recording x1) (localize_candidate (translating g) x1) (localize_candidate (translating h) x1)"
    and "walks_alike S (localize_entry recording x2) (localize_entry (translating g) x2) (localize_entry (translating h) x2)"
    and "walks_alike S (localizeField recording x3) (localizeField (translating g) x3) (localizeField (translating h) x3)"
    and "walks_alike S (localize_band recording x4) (localize_band (translating g) x4) (localize_band (translating h) x4)"
    and "walks_alike S (localize_stage recording x5) (localize_stage (translating g) x5) (localize_stage (translating h) x5)"
    and "walks_alike S (localize_bullet_row recording x6) (localize_bullet_row (translating g) x6) (localize_bullet_row (translating h) x6)"
    and "walks_alike S (localize_metric recording x7) (localize_metric (translating g) x7) (localize_metric (translating h) x7)"
    and "walks_alike S (localize_working_row recording x8) (localize_working_row (translating g) x8) (localize_working_row (translating h) x8)"
    and "walks_alike S (localize_bucket recording x9) (localize_bucket (translating g) x9) (localize_bucket (translating h) x9)"
    and "walks_alike S (localize_series recording x10) (localize_series (translating g) x10) (localize_series (translating h) x10)"
    and "walks_alike S (localize_side recording x11) (localize_side (translating g) x11) (localize_side (translating h) x11)"
    and "walks_alike S (localize_multiple recording x12) (localize_multiple (translating g) x12) (localize_multiple (translating h) x12)"
    and "walks_alike S (localize_class recording x13) (localize_class (translating g) x13) (localize_class (translating h) x13)"
    and "walks_alike S (localize_choice recording x14) (localize_choice (translating g) x14) (localize_choice (translating h) x14)"
    and "walks_alike S (localize_preview recording x15) (localize_preview (translating g) x15) (localize_preview (translating h) x15)"
    and "walks_alike S (localize_group recording x16) (localize_group (translating g) x16) (localize_group (translating h) x16)"
    and "walks_alike S (localize_compare recording x17) (localize_compare (translating g) x17) (localize_compare (translating h) x17)"
  unfolding localizeColumn_def localize_candidate_def localize_entry_def localizeField_def localize_band_def localize_stage_def localize_bullet_row_def localize_metric_def localize_working_row_def localize_bucket_def localize_series_def localize_side_def localize_multiple_def localize_class_def localize_choice_def localize_preview_def localize_group_def localize_compare_def
  by (intro alike_rules alike_levers assms)+

lemma alike_wording:
  "agree_on_strings S g h \<Longrightarrow> walks_alike S (localizeWording recording b) (localizeWording (translating g) b) (localizeWording (translating h) b)"
  unfolding localizeWording_def by (cases b; simp only: binding.case) (intro alike_rules alike_rows; assumption)+

lemma alike_verdict_row:
  "agree_on_strings S g h \<Longrightarrow> walks_alike S (localize_verdict_row recording r) (localize_verdict_row (translating g) r) (localize_verdict_row (translating h) r)"
  unfolding localize_verdict_row_def by (intro alike_rules alike_wording; assumption)

lemmas widget_walks = localize_kpi_def localize_funnel_def localize_bullet_def localize_table_def localize_gantt_def
  localize_leaderboard_def localize_working_def localize_verdict_def localize_exception_def localize_range_bar_def
  localize_line_series_def localize_heatmap_def localize_diverging_def localize_multiples_def localize_shares_def
  localize_action_def localize_form_def localizeColumns_def localizeFields_def

lemma alike_kind:
  assumes "agree_on_strings S g h"
  shows "walks_alike S (localize_kind recording k) (localize_kind (translating g) k) (localize_kind (translating h) k)"
  unfolding localize_kind_def
  by (cases k; simp only: widget_kind.case widget_walks) (intro alike_rules alike_rows alike_wording alike_verdict_row assms)+

lemma alike_widgets:
  assumes "agree_on_strings S g h"
  shows "walks_alike S (localizeWidget recording w) (localizeWidget (translating g) w) (localizeWidget (translating h) w)"
  unfolding localizeWidget_def by (intro alike_rules alike_kind assms)

lemma alike_relations:
  assumes "agree_on_strings S g h"
  shows "walks_alike S (localizeRelation recording r) (localizeRelation (translating g) r) (localizeRelation (translating h) r)"
    and "walks_alike S (localizeRelations recording rs) (localizeRelations (translating g) rs) (localizeRelations (translating h) rs)"
proof (induction recording r and recording rs rule: localizeRelation_localizeRelations.induct)
  case (1 predicate direction archetype label properties inline relations)
  show ?case
    by (cases relations; simp only: localizeRelation.simps option.case) (intro alike_rules assms 1; simp)+
qed (auto intro!: alike_return alike_bind)

lemma alike_sections:
  assumes "agree_on_strings S g h"
  shows "walks_alike S (localizeSection recording x) (localizeSection (translating g) x) (localizeSection (translating h) x)"
    and "walks_alike S (localizeDetail recording d) (localizeDetail (translating g) d) (localizeDetail (translating h) d)"
  unfolding localizeSection_def localizeDetail_def by (intro alike_rules alike_rows alike_widgets alike_relations assms)+

lemma alike_specification:
  "agree_on_strings S g h \<Longrightarrow> walks_alike S (localizeWith recording sp) (localizeWith (translating g) sp) (localizeWith (translating h) sp)"
  unfolding localizeWith_def by (intro alike_rules alike_rows alike_sections; assumption)

definition localized_by :: "(string, string) omap \<Rightarrow> dashboard_specification \<Rightarrow> dashboard_specification" where
  "localized_by table sp = fst (run_state (localizeWith (translating (translated (Some table))) sp) [])"

lemma localizeSpecification_by: "translationsFor sp locale = Some table \<Longrightarrow> localizeSpecification sp locale = localized_by table sp"
  by (simp add: localizeSpecification_def localized_by_def makeSpecificationTranslator_def)


text \<open>A page of one figure whose verdict speaks, read in German.\<close>

definition worded_page :: dashboard_specification where
  "worded_page = \<lparr>sp_title = ''Water'', sp_subtitle = None, sp_icon = None, sp_compare = None,
     sp_sections = [\<lparr>se_title = Some ''Now'', se_hint = None, se_layout = None, se_widths = None, se_widgets =
       [\<lparr>wg_kind = VerdictList \<lparr>vw_title = Some ''Water'', vw_hint = None, vw_rows = [\<lparr>vr_label = ''Tank'', vr_verdicts =
          Verdict [\<lparr>vc_state = ''low'', vc_reads = ''Too low'', vc_levers = Some (''more'', ''less'')\<rparr>] None None,
          vr_format = None, vr_unit = None\<rparr>]\<rparr>, wg_placement = None\<rparr>],
       se_theme = None, se_facts = None, se_tab = None\<rparr>],
     sp_refreshSeconds = None, sp_detail = None,
     sp_translations = Some [(''de'', [(''Water'', ''Wasser''), (''low'', ''niedrig''), (''Too low'', ''Zu niedrig'')])],
     sp_composed = None, sp_designed = None\<rparr>"


end
