(* ===== verification/Search.thy ===== *)
theory Search
  imports EffectiveProperties JsonText
begin

section \<open>Searching a model\<close>

text \<open>
  The searches of the client: the graph filter of \<open>src/utils/searchFilter.ts\<close>, the Things of \<open>src/utils/thingSearch.ts\<close>
  and the properties of \<open>src/pages/propertySearch.ts\<close>, with what they print of \<open>src/utils/formatters.ts\<close> and
  \<open>src/utils/relationshipLabel.ts\<close>. A regular expression is a parameter: what a query and its flag compile to, \<open>None\<close>
  where it does not compile.
\<close>

subsection \<open>Matching a string\<close>

record search_options =
  so_caseSensitive :: bool
  so_exactMatch :: bool
  so_useRegex :: bool

type_synonym regular_expressions = "string \<Rightarrow> bool \<Rightarrow> (string \<Rightarrow> bool) option"

definition in_case :: "search_options \<Rightarrow> string \<Rightarrow> string" where
  "in_case options s = (if so_caseSensitive options then s else toLowerCase s)"

definition term_matches :: "search_options \<Rightarrow> string \<Rightarrow> string \<Rightarrow> bool" where
  "term_matches options t s = (if so_exactMatch options then in_case options s = in_case options t
     else str_includes (in_case options s) (in_case options t))"

definition terms_of :: "string \<Rightarrow> string list" where
  "terms_of query = filter (\<lambda>t. t \<noteq> []) (map trim (split_on CHR '','' query))"

definition plain_matcher :: "string \<Rightarrow> search_options \<Rightarrow> string \<Rightarrow> bool" where
  "plain_matcher query options s = (if CHR '','' \<in> set query then list_ex (\<lambda>t. term_matches options t s) (terms_of query)
     else term_matches options query s)"

definition buildStringMatcher :: "regular_expressions \<Rightarrow> string \<Rightarrow> search_options \<Rightarrow> string \<Rightarrow> bool" where
  "buildStringMatcher regex query options = (if so_useRegex options
     then (case regex query (\<not> so_caseSensitive options) of Some test \<Rightarrow> test | None \<Rightarrow> plain_matcher query options)
     else plain_matcher query options)"

definition buildMatcher :: "regular_expressions \<Rightarrow> string \<Rightarrow> search_options \<Rightarrow> vos_thing \<Rightarrow> bool" where
  "buildMatcher regex query options t = (let matches = buildStringMatcher regex query options in
     if \<not> so_useRegex options \<and> CHR '','' \<in> set query then tId t \<in> set (terms_of query) \<or> matches (tName t)
     else if so_useRegex options then matches (tName t) \<or> matches (tId t)
     else matches (tName t))"

subsection \<open>The graph a query leaves\<close>

definition touches :: "string list \<Rightarrow> vos_relationship \<Rightarrow> bool" where
  "touches ids r \<longleftrightarrow> rSubjectId r \<in> set ids \<or> rTargetId r \<in> set ids \<or> rPredicateId r \<in> set ids"

definition expanded :: "string list \<Rightarrow> vos_relationship list \<Rightarrow> string list" where
  "expanded ids rs = foldl (\<lambda>acc r. sadd (rPredicateId r) (sadd (rTargetId r) (sadd (rSubjectId r) acc))) ids (filter (touches ids) rs)"

definition ids_of :: "vos_thing list \<Rightarrow> string list" where
  "ids_of ts = set_of (map tId ts)"

definition filterGraph :: "regular_expressions \<Rightarrow> string \<Rightarrow> vos_thing list \<Rightarrow> vos_relationship list \<Rightarrow> search_options
    \<Rightarrow> vos_thing list \<times> vos_relationship list \<times> nat" where
  "filterGraph regex query ts rs options = (if query = [] then (ts, rs, 0)
     else (let matched = ids_of (filter (buildMatcher regex query options) ts);
               within_reach = expanded matched rs;
               ft = filter (\<lambda>t. tId t \<in> set within_reach) ts;
               ftIds = ids_of ft;
               fr = filter (\<lambda>r. rSubjectId r \<in> set ftIds \<and> rTargetId r \<in> set ftIds) rs;
               predicateIds = set_of (map rPredicateId fr);
               extra = filter (\<lambda>t. tId t \<in> set predicateIds \<and> tId t \<notin> set ftIds) ts
           in (if extra \<noteq> [] then ft @ extra else ft, fr, length matched)))"

lemma set_ids_of [simp]: "set (ids_of ts) = tId ` set ts"
  by (simp add: ids_of_def)

definition ends_of :: "vos_relationship \<Rightarrow> string set" where
  "ends_of r = {rSubjectId r, rTargetId r, rPredicateId r}"

lemma touches_ends: "touches ids r \<longleftrightarrow> ends_of r \<inter> set ids \<noteq> {}"
  by (auto simp: touches_def ends_of_def)

lemma set_expanded: "set (expanded ids rs) = set ids \<union> \<Union> (ends_of ` {r \<in> set rs. touches ids r})"
proof -
  have "set (foldl (\<lambda>acc r. sadd (rPredicateId r) (sadd (rTargetId r) (sadd (rSubjectId r) acc))) acc rs) = set acc \<union> \<Union> (ends_of ` set rs)"
    for acc rs by (induction rs arbitrary: acc) (auto simp: ends_of_def)
  then show ?thesis by (simp add: expanded_def)
qed

text \<open>The matches, what touching relationships reach from them, and the Things of the model among those.\<close>

definition matched_ids :: "regular_expressions \<Rightarrow> string \<Rightarrow> search_options \<Rightarrow> vos_thing list \<Rightarrow> string set" where
  "matched_ids regex query options ts = tId ` {t \<in> set ts. buildMatcher regex query options t}"

definition reach_of :: "string set \<Rightarrow> vos_relationship list \<Rightarrow> string set" where
  "reach_of M rs = M \<union> \<Union> (ends_of ` {r \<in> set rs. ends_of r \<inter> M \<noteq> {}})"

definition held_of :: "string set \<Rightarrow> vos_thing list \<Rightarrow> vos_thing set" where
  "held_of ids ts = {t \<in> set ts. tId t \<in> ids}"

lemma filtered_parts:
  assumes "filterGraph regex query ts rs options = (fts, frs, n)" and "query \<noteq> []"
  defines "F \<equiv> held_of (reach_of (matched_ids regex query options ts) rs) ts"
  shows "set frs = {r \<in> set rs. rSubjectId r \<in> tId ` F \<and> rTargetId r \<in> tId ` F}"
    and "set fts = F \<union> {t \<in> set ts. tId t \<in> rPredicateId ` set frs \<and> tId t \<notin> tId ` F}"
proof -
  define ft where "ft = filter (\<lambda>t. tId t \<in> set (expanded (ids_of (filter (buildMatcher regex query options) ts)) rs)) ts"
  have "set (ids_of (filter (buildMatcher regex query options) ts)) = matched_ids regex query options ts"
    by (auto simp: matched_ids_def)
  then have ft: "set ft = F" by (auto simp: ft_def F_def held_of_def reach_of_def set_expanded touches_ends)
  from assms(1,2) have whole: "frs = filter (\<lambda>r. rSubjectId r \<in> set (ids_of ft) \<and> rTargetId r \<in> set (ids_of ft)) rs"
    "fts = ft @ filter (\<lambda>t. tId t \<in> set (set_of (map rPredicateId frs)) \<and> tId t \<notin> set (ids_of ft)) ts"
    by (auto simp: filterGraph_def Let_def ft_def[symmetric] simp del: set_ids_of split: if_splits)
  show "set frs = {r \<in> set rs. rSubjectId r \<in> tId ` F \<and> rTargetId r \<in> tId ` F}" by (simp add: whole(1) ft)
  show "set fts = F \<union> {t \<in> set ts. tId t \<in> rPredicateId ` set frs \<and> tId t \<notin> tId ` F}" by (simp add: whole(2) ft)
qed

lemma filtered_ends:
  assumes "filterGraph regex query ts rs options = (fts, frs, n)" and "query \<noteq> []" and r: "r \<in> set frs"
  shows "rSubjectId r \<in> tId ` set fts" and "rTargetId r \<in> tId ` set fts"
    and "rPredicateId r \<in> tId ` set ts \<Longrightarrow> rPredicateId r \<in> tId ` set fts"
proof -
  note frs = filtered_parts(1)[OF assms(1,2)] and fts = filtered_parts(2)[OF assms(1,2)]
  define F where "F = held_of (reach_of (matched_ids regex query options ts) rs) ts"
  have kept: "tId ` F \<subseteq> tId ` set fts" by (auto simp: fts F_def)
  from r have "rSubjectId r \<in> tId ` F" "rTargetId r \<in> tId ` F" by (simp_all add: frs F_def)
  with kept show "rSubjectId r \<in> tId ` set fts" "rTargetId r \<in> tId ` set fts" by blast+
  assume "rPredicateId r \<in> tId ` set ts"
  then obtain t where t: "t \<in> set ts" "tId t = rPredicateId r" by auto
  show "rPredicateId r \<in> tId ` set fts"
  proof (cases "tId t \<in> tId ` F")
    case True
    with kept t(2) show ?thesis by auto
  next
    case False
    with t r have "t \<in> set fts" by (simp add: fts F_def)
    with t(2) show ?thesis by (metis imageI)
  qed
qed

lemma matched_reach: "i \<in> M \<Longrightarrow> r \<in> set rs \<Longrightarrow> i \<in> ends_of r \<Longrightarrow> ends_of r \<subseteq> reach_of M rs"
  by (auto simp: reach_of_def)

text \<open>C21. The graph a search leaves stands on its own. Every Thing that matches is kept; what else is kept is one end
  or the predicate of a relationship that touches a match, or the predicate of a kept relationship; every kept
  relationship has both its ends and, where the model holds it, its predicate among the Things that are kept; and a
  relationship that touches a match is kept whenever the model holds its ends.\<close>

theorem filtered_graph_closed:
  assumes "filterGraph regex query ts rs options = (fts, frs, n)" and "query \<noteq> []"
  defines "M \<equiv> matched_ids regex query options ts"
  shows "held_of M ts \<subseteq> set fts \<and> set fts \<subseteq> set ts \<and> set frs \<subseteq> set rs
    \<and> (\<forall>t\<in>set fts. tId t \<in> M \<or> tId t \<in> rPredicateId ` set frs \<or> (\<exists>r\<in>set rs. ends_of r \<inter> M \<noteq> {} \<and> tId t \<in> ends_of r))
    \<and> (\<forall>r\<in>set frs. {rSubjectId r, rTargetId r} \<subseteq> tId ` set fts
         \<and> (rPredicateId r \<in> tId ` set ts \<longrightarrow> rPredicateId r \<in> tId ` set fts))
    \<and> (\<forall>r\<in>set rs. ends_of r \<inter> M \<noteq> {} \<longrightarrow> {rSubjectId r, rTargetId r} \<subseteq> tId ` set ts \<longrightarrow> r \<in> set frs)"
proof (intro conjI ballI impI)
  note frs = filtered_parts(1)[OF assms(1,2), folded M_def] and fts = filtered_parts(2)[OF assms(1,2), folded M_def]
  show "held_of M ts \<subseteq> set fts" unfolding fts by (auto simp: held_of_def reach_of_def)
  show "set fts \<subseteq> set ts" "set frs \<subseteq> set rs" unfolding fts frs by (auto simp: held_of_def)
  fix t assume "t \<in> set fts"
  then show "tId t \<in> M \<or> tId t \<in> rPredicateId ` set frs \<or> (\<exists>r\<in>set rs. ends_of r \<inter> M \<noteq> {} \<and> tId t \<in> ends_of r)"
    unfolding fts held_of_def reach_of_def by blast
next
  fix r assume "r \<in> set frs"
  note ends = filtered_ends[OF assms(1,2) this]
  from ends(1,2) show "{rSubjectId r, rTargetId r} \<subseteq> tId ` set fts" by simp
  assume "rPredicateId r \<in> tId ` set ts"
  then show "rPredicateId r \<in> tId ` set fts" by (rule ends(3))
next
  fix r assume r: "r \<in> set rs" "ends_of r \<inter> M \<noteq> {}" and held: "{rSubjectId r, rTargetId r} \<subseteq> tId ` set ts"
  then obtain i where "i \<in> M" "i \<in> ends_of r" by blast
  from matched_reach[OF this(1) r(1) this(2)] have "rSubjectId r \<in> reach_of M rs" "rTargetId r \<in> reach_of M rs"
    by (auto simp: ends_of_def)
  with held r(1) show "r \<in> set frs" by (auto simp: filtered_parts(1)[OF assms(1,2), folded M_def] held_of_def)
qed

text \<open>One Thing of four matches: its relationship, the other end and the predicate stay, the Thing apart goes.\<close>

definition search_things :: "vos_thing list" where
  "search_things = map (\<lambda>(i, n). \<lparr>tId = i, tName = n, tIsArchetype = None, tProperties = [], tPropertyWriteKinds = None,
     tInheritedOverrides = None, tDerivedProperties = None\<rparr>) [(''1'', ''Tank''), (''2'', ''Valve''), (''3'', ''feeds''), (''4'', ''Pond'')]"

definition search_relationships :: "vos_relationship list" where
  "search_relationships = [\<lparr>rId = ''r'', rName = None, rSubjectId = ''1'', rPredicateId = ''3'', rTargetId = ''2'', rProperties = []\<rparr>]"

definition plain_search :: search_options where
  "plain_search = \<lparr>so_caseSensitive = False, so_exactMatch = False, so_useRegex = False\<rparr>"

lemma filtered_graph_closed_witness:
  "\<exists>fts frs n. filterGraph (\<lambda>p i. None) ''TAN'' search_things search_relationships plain_search = (fts, frs, n)
     \<and> map tName fts = [''Tank'', ''Valve'', ''feeds''] \<and> map rId frs = [''r''] \<and> n = 1
     \<and> (\<forall>r\<in>set frs. {rSubjectId r, rTargetId r} \<subseteq> tId ` set fts)"
proof -
  obtain fts frs n where g: "filterGraph (\<lambda>p i. None) ''TAN'' search_things search_relationships plain_search = (fts, frs, n)"
    by (cases "filterGraph (\<lambda>p i. None) ''TAN'' search_things search_relationships plain_search")
  have "(case filterGraph (\<lambda>p i. None) ''TAN'' search_things search_relationships plain_search of (fts, frs, n) \<Rightarrow>
      map tName fts = [''Tank'', ''Valve'', ''feeds''] \<and> map rId frs = [''r''] \<and> n = 1)" by code_simp
  with filtered_graph_closed[OF g] g show ?thesis by auto
qed

subsection \<open>Searching Things\<close>

definition THING_SEARCH_SKIP_KEYS :: "string list" where
  "THING_SEARCH_SKIP_KEYS = [''geometry'', ''footprint'', ''__geometry_envelope'']"

definition PREVIEW_PROPERTIES :: nat where
  "PREVIEW_PROPERTIES = 4"

record thing_match =
  tm_id :: string
  tm_name :: string
  tm_score :: nat
  tm_typeName :: "string option"
  tm_ownPropertyCount :: nat
  tm_relationshipCount :: nat
  tm_previewProperties :: "(string \<times> json option) list"

record thing_search_index =
  ti_isSubjectToTypeName :: "(string, string) omap"
  ti_relationshipCountByThing :: "(string, nat) omap"

definition counted :: "string \<Rightarrow> (string, nat) omap \<Rightarrow> (string, nat) omap" where
  "counted i m = oput i (Suc (case oget m i of Some n \<Rightarrow> n | None \<Rightarrow> 0)) m"

definition search_step :: "(string, vos_thing) omap \<Rightarrow> thing_search_index \<Rightarrow> vos_relationship \<Rightarrow> thing_search_index" where
  "search_step thingMap ix r =
     (let ix1 = ix\<lparr>ti_relationshipCountByThing := counted (rTargetId r) (counted (rSubjectId r) (ti_relationshipCountByThing ix))\<rparr> in
      if map_option tName (oget thingMap (rPredicateId r)) = Some ''is'' \<and> oget (ti_isSubjectToTypeName ix1) (rSubjectId r) = None
      then (case map_option tName (oget thingMap (rTargetId r)) of
          Some targetName \<Rightarrow> if targetName \<noteq> []
            then ix1\<lparr>ti_isSubjectToTypeName := oput (rSubjectId r) targetName (ti_isSubjectToTypeName ix1)\<rparr> else ix1
        | None \<Rightarrow> ix1)
      else ix1)"

definition buildThingSearchIndex :: "vos_thing list \<Rightarrow> vos_relationship list \<Rightarrow> thing_search_index" where
  "buildThingSearchIndex ts rs = foldl (search_step (of_entries (map (\<lambda>t. (tId t, t)) ts)))
     \<lparr>ti_isSubjectToTypeName = [], ti_relationshipCountByThing = []\<rparr> rs"

definition scoreThingMatch :: "vos_thing \<Rightarrow> string \<Rightarrow> nat option" where
  "scoreThingMatch t query = (let q = toLowerCase query; name = toLowerCase (tName t) in
     if name = q then Some 0
     else if starts_with name q then Some 1
     else if str_includes name q then Some 2
     else if str_includes (toLowerCase (tId t)) q then Some 3 else None)"

definition thing_match_of :: "thing_search_index \<Rightarrow> vos_thing \<Rightarrow> nat \<Rightarrow> thing_match" where
  "thing_match_of ix t score = (let ownKeys = filter (\<lambda>k. k \<notin> set THING_SEARCH_SKIP_KEYS) (map fst (tProperties t)) in
     \<lparr>tm_id = tId t, tm_name = tName t, tm_score = score, tm_typeName = oget (ti_isSubjectToTypeName ix) (tId t),
      tm_ownPropertyCount = length ownKeys,
      tm_relationshipCount = (case oget (ti_relationshipCountByThing ix) (tId t) of Some n \<Rightarrow> n | None \<Rightarrow> 0),
      tm_previewProperties = map (\<lambda>k. (k, oget (tProperties t) k)) (take PREVIEW_PROPERTIES ownKeys)\<rparr>)"

definition before_match :: "(string \<Rightarrow> string \<Rightarrow> int) \<Rightarrow> thing_match \<Rightarrow> thing_match \<Rightarrow> int" where
  "before_match lc a b = (if tm_score a \<noteq> tm_score b then int (tm_score a) - int (tm_score b) else lc (tm_name a) (tm_name b))"

definition searchThings :: "(string \<Rightarrow> string \<Rightarrow> int) \<Rightarrow> string \<Rightarrow> vos_thing list \<Rightarrow> thing_search_index \<Rightarrow> thing_match list" where
  "searchThings lc query ts ix = (let q = trim query in
     if q = [] then [] else sort_by (before_match lc)
       (List.map_filter (\<lambda>t. map_option (thing_match_of ix t) (scoreThingMatch t q)) ts))"

lemma score_matches:
  "scoreThingMatch t q \<noteq> None \<longleftrightarrow>
     str_includes (toLowerCase (tName t)) (toLowerCase q) \<or> str_includes (toLowerCase (tId t)) (toLowerCase q)"
proof -
  have "starts_with s p \<Longrightarrow> str_includes s p" for s p unfolding starts_with_iff str_includes_iff by (metis append_Nil)
  moreover have "str_includes s s" for s unfolding str_includes_iff by (metis append_Nil append_Nil2)
  ultimately show ?thesis by (auto simp: scoreThingMatch_def Let_def)
qed

lemma before_match_comparator:
  assumes "collation lc" shows "comparator (before_match lc)"
proof -
  note lc = collation.lc_total[OF assms] collation.lc_trans[OF assms]
  show ?thesis
  proof
    show "before_match lc a b \<le> 0 \<or> before_match lc b a \<le> 0" for a b using lc(1) by (auto simp: before_match_def)
    show "before_match lc a b \<le> 0 \<Longrightarrow> before_match lc b c \<le> 0 \<Longrightarrow> before_match lc a c \<le> 0" for a b c
      by (auto simp: before_match_def split: if_splits intro: lc(2))
  qed
qed

text \<open>Every match once, the closest names first: a Thing is found by its name or its identifier in any case, an exact
  name stands before one that begins with the query, that before one that holds it, and that before an identifier;
  names of the same standing are in order.\<close>

lemma search_ranks:
  assumes "collation lc" and "trim query \<noteq> []"
  shows "sorted_wrt (\<lambda>a b. tm_score a < tm_score b \<or> tm_score a = tm_score b \<and> lc (tm_name a) (tm_name b) \<le> 0) (searchThings lc query ts ix)
    \<and> set (map tm_id (searchThings lc query ts ix)) = tId ` {t \<in> set ts. scoreThingMatch t (trim query) \<noteq> None}
    \<and> length (searchThings lc query ts ix) = length (filter (\<lambda>t. scoreThingMatch t (trim query) \<noteq> None) ts)"
proof -
  let ?found = "List.map_filter (\<lambda>t. map_option (thing_match_of ix t) (scoreThingMatch t (trim query))) ts"
  have ms: "searchThings lc query ts ix = sort_by (before_match lc) ?found" using assms(2) by (simp add: searchThings_def Let_def)
  have found: "?found = map (\<lambda>t. thing_match_of ix t (the (scoreThingMatch t (trim query))))
      (filter (\<lambda>t. scoreThingMatch t (trim query) \<noteq> None) ts)"
    by (induction ts) (auto simp: List.map_filter_def)
  have "sorted_wrt (\<lambda>a b. before_match lc a b \<le> 0) (searchThings lc query ts ix)"
    unfolding ms by (rule comparator.sorted_sort_by[OF before_match_comparator[OF assms(1)]])
  then have "sorted_wrt (\<lambda>a b. tm_score a < tm_score b \<or> tm_score a = tm_score b \<and> lc (tm_name a) (tm_name b) \<le> 0) (searchThings lc query ts ix)"
    by (rule sorted_wrt_mono_rel[rotated]) (auto simp: before_match_def split: if_splits)
  moreover have "set (map tm_id (searchThings lc query ts ix)) = tId ` {t \<in> set ts. scoreThingMatch t (trim query) \<noteq> None}"
    unfolding ms set_map set_sort_by found by (simp add: thing_match_of_def Let_def image_image)
  moreover have "length (searchThings lc query ts ix) = length (filter (\<lambda>t. scoreThingMatch t (trim query) \<noteq> None) ts)"
    unfolding ms length_sort_by found by simp
  ultimately show ?thesis by blast
qed

lemma counted_ends:
  "(case oget (ti_relationshipCountByThing (buildThingSearchIndex ts rs)) i of Some n \<Rightarrow> n | None \<Rightarrow> 0)
     = length (filter (\<lambda>r. rSubjectId r = i) rs) + length (filter (\<lambda>r. rTargetId r = i) rs)"
proof -
  have step: "ti_relationshipCountByThing (search_step m ix r)
      = counted (rTargetId r) (counted (rSubjectId r) (ti_relationshipCountByThing ix))" for m ix r
    by (auto simp: search_step_def Let_def split: option.splits)
  have one: "(case oget (counted k m) i of Some n \<Rightarrow> n | None \<Rightarrow> 0) = (case oget m i of Some n \<Rightarrow> n | None \<Rightarrow> 0) + (if k = i then 1 else 0)" for k m
    by (auto simp: counted_def)
  have "(case oget (ti_relationshipCountByThing (foldl (search_step m) ix rs)) i of Some n \<Rightarrow> n | None \<Rightarrow> 0)
      = (case oget (ti_relationshipCountByThing ix) i of Some n \<Rightarrow> n | None \<Rightarrow> 0)
        + length (filter (\<lambda>r. rSubjectId r = i) rs) + length (filter (\<lambda>r. rTargetId r = i) rs)" for m ix
    by (induction rs arbitrary: ix) (simp_all add: step one)
  then show ?thesis by (simp add: buildThingSearchIndex_def)
qed

subsection \<open>Searching properties\<close>

definition formatGuid :: "string \<Rightarrow> string" where
  "formatGuid guid = take 8 guid @ ''...''"

definition relationshipLabel :: "vos_relationship \<Rightarrow> (string \<Rightarrow> string option) \<Rightarrow> string" where
  "relationshipLabel r nameOf = (case rName r of
     Some n \<Rightarrow> if n \<noteq> [] then n else join '' '' (map (\<lambda>i. case nameOf i of Some name \<Rightarrow> name | None \<Rightarrow> formatGuid i)
       [rSubjectId r, rPredicateId r, rTargetId r])
   | None \<Rightarrow> join '' '' (map (\<lambda>i. case nameOf i of Some name \<Rightarrow> name | None \<Rightarrow> formatGuid i)
       [rSubjectId r, rPredicateId r, rTargetId r]))"

text \<open>A value as it reads where no type is declared for it.\<close>

definition format_untyped :: "json option \<Rightarrow> string" where
  "format_untyped v = (case v of None \<Rightarrow> ''(null)'' | Some JNull \<Rightarrow> ''(null)''
     | Some (JArr xs) \<Rightarrow> json_stringify (JArr xs) | Some (JObj kvs) \<Rightarrow> json_stringify (JObj kvs) | Some x \<Rightarrow> js_string x)"

record effective_property =
  ef_Value :: "json option"
  ef_Type :: string
  ef_IsInherited :: bool
  ef_InheritedFrom :: "string option"

datatype owner_type = OwnerThing | OwnerRelationship

record property_match =
  pm_propertyName :: string
  pm_value :: "json option"
  pm_declaredType :: "string option"
  pm_ownerType :: owner_type
  pm_ownerId :: string
  pm_ownerName :: string
  pm_ownerDetail :: "string option"
  pm_inheritedFrom :: "string option"

datatype search_mode = ByName | ByValue

definition property_hit :: "search_mode \<Rightarrow> string \<Rightarrow> string \<Rightarrow> json option \<Rightarrow> bool" where
  "property_hit mode q key v = (case mode of ByName \<Rightarrow> str_includes (toLowerCase key) q
     | ByValue \<Rightarrow> str_includes (toLowerCase (format_untyped v)) q)"

definition after_last_dot :: "string \<Rightarrow> string" where
  "after_last_dot key = rev (takeWhile (\<lambda>c. c \<noteq> CHR ''.'') (rev key))"

definition name_or_short :: "(string, string) omap \<Rightarrow> string \<Rightarrow> string" where
  "name_or_short names i = (case oget names i of Some n \<Rightarrow> n | None \<Rightarrow> take 8 i)"

definition thing_property_matches :: "search_mode \<Rightarrow> string \<Rightarrow> (string, string) omap
    \<Rightarrow> string \<times> (string, effective_property) omap \<Rightarrow> property_match list" where
  "thing_property_matches mode q names = (\<lambda>(thingId, ps). List.map_filter (\<lambda>(key, p).
     (let name = (if ef_IsInherited p then after_last_dot key else key) in
      if name \<in> set THING_SEARCH_SKIP_KEYS \<or> \<not> property_hit mode q name (ef_Value p) then None
      else Some \<lparr>pm_propertyName = name, pm_value = ef_Value p, pm_declaredType = Some (ef_Type p), pm_ownerType = OwnerThing,
        pm_ownerId = thingId, pm_ownerName = name_or_short names thingId, pm_ownerDetail = None,
        pm_inheritedFrom = (if ef_IsInherited p then oget names (case ef_InheritedFrom p of Some i \<Rightarrow> i | None \<Rightarrow> []) else None)\<rparr>)) ps)"

definition relationship_property_matches :: "search_mode \<Rightarrow> string \<Rightarrow> (string, string) omap \<Rightarrow> vos_relationship \<Rightarrow> property_match list" where
  "relationship_property_matches mode q names r = List.map_filter (\<lambda>(key, v).
     if key \<in> set THING_SEARCH_SKIP_KEYS \<or> \<not> property_hit mode q key (Some v) then None
     else Some \<lparr>pm_propertyName = key, pm_value = Some v, pm_declaredType = None, pm_ownerType = OwnerRelationship,
       pm_ownerId = rId r, pm_ownerName = relationshipLabel r (oget names),
       pm_ownerDetail = Some (name_or_short names (rSubjectId r) @ '' --['' @ name_or_short names (rPredicateId r) @ '']--> ''
         @ name_or_short names (rTargetId r)), pm_inheritedFrom = None\<rparr>) (rProperties r)"

definition searchProperties :: "(string, (string, effective_property) omap) omap option \<Rightarrow> vos_relationship list
    \<Rightarrow> (string, string) omap \<Rightarrow> string \<Rightarrow> search_mode \<Rightarrow> property_match list" where
  "searchProperties effectiveProps rs names query mode = (let q = toLowerCase (trim query) in
     if q = [] then [] else
       concat (map (thing_property_matches mode q names) (case effectiveProps of Some m \<Rightarrow> m | None \<Rightarrow> []))
       @ concat (map (relationship_property_matches mode q names) rs))"

text \<open>An inherited property is found by its own name, whatever the path it is inherited along is called.\<close>

lemma after_last_dot_path:
  assumes "CHR ''.'' \<notin> set name" shows "after_last_dot (path @ CHR ''.'' # name) = name"
proof -
  have "takeWhile (\<lambda>c. c \<noteq> CHR ''.'') (rev name) = rev name" using assms by (auto simp: takeWhile_eq_all_conv)
  moreover have "takeWhile (\<lambda>c. c \<noteq> CHR ''.'') (rev (path @ CHR ''.'' # name)) = takeWhile (\<lambda>c. c \<noteq> CHR ''.'') (rev name)"
    by (simp add: takeWhile_tail)
  ultimately show ?thesis unfolding after_last_dot_def by (simp only: rev_rev_ident)
qed

lemma in_map_filter: "y \<in> set (List.map_filter f xs) \<longleftrightarrow> (\<exists>x\<in>set xs. f x = Some y)"
  by (induction xs) (auto simp: List.map_filter_def split: option.splits)

lemma inherited_found_by_name:
  assumes "(thingId, ps) \<in> set all" and "(path @ CHR ''.'' # name, p) \<in> set ps" and "ef_IsInherited p"
    and "CHR ''.'' \<notin> set name" and "name \<notin> set THING_SEARCH_SKIP_KEYS" and "toLowerCase (trim query) \<noteq> []"
    and "str_includes (toLowerCase name) (toLowerCase (trim query))"
  shows "\<exists>m\<in>set (searchProperties (Some all) rs names query ByName). pm_propertyName m = name \<and> pm_ownerId m = thingId \<and> pm_value m = ef_Value p"
proof -
  let ?q = "toLowerCase (trim query)"
  have "\<exists>m\<in>set (thing_property_matches ByName ?q names (thingId, ps)). pm_propertyName m = name \<and> pm_ownerId m = thingId \<and> pm_value m = ef_Value p"
    using assms(2-5,7) unfolding thing_property_matches_def prod.case in_map_filter
    by (intro bexI[of _ "\<lparr>pm_propertyName = name, pm_value = ef_Value p, pm_declaredType = Some (ef_Type p), pm_ownerType = OwnerThing,
        pm_ownerId = thingId, pm_ownerName = name_or_short names thingId, pm_ownerDetail = None,
        pm_inheritedFrom = oget names (case ef_InheritedFrom p of Some i \<Rightarrow> i | None \<Rightarrow> [])\<rparr>"])
      (auto simp: in_map_filter after_last_dot_path property_hit_def Let_def intro!: bexI[of _ "(path @ CHR ''.'' # name, p)"])
  with assms(1,6) show ?thesis by (auto simp: searchProperties_def Let_def)
qed

end
