(* ===== verification/ParcelGeometry.thy ===== *)
theory ParcelGeometry
  imports JsArithmetic
begin

section \<open>Parcel geometry (utils/parcelGeometry.ts, utils/mapLink.ts)\<close>

text \<open>
  What a boundary encloses, the square drawn around a site for the area it states, how a drawn area compares with a
  stated one, and which pairs of numbers are a position on the Earth. The sine, cosine and square root are left to the
  host by the language, whose answers may differ in the last digit: they are the parameter \<open>math_functions\<close>.
\<close>

record boundary_point =
  bp_latitude :: jsnum
  bp_longitude :: jsnum

record math_functions =
  mf_sin :: "jsnum \<Rightarrow> jsnum"
  mf_cos :: "jsnum \<Rightarrow> jsnum"
  mf_sqrt :: "jsnum \<Rightarrow> jsnum"

definition math_pi :: jsnum where
  "math_pi = Dec 3141592653589793 (- 15)"

definition EARTH_RADIUS_METRES :: jsnum where
  "EARTH_RADIUS_METRES = Dec 63710088 (- 1)"

definition SQUARE_METRES_PER_HECTARE :: jsnum where
  "SQUARE_METRES_PER_HECTARE = js_int 10000"

definition METRES_PER_DEGREE :: jsnum where
  "METRES_PER_DEGREE = num_div (num_mul EARTH_RADIUS_METRES math_pi) (js_int 180)"

definition AREA_MATCH_TOLERANCE :: jsnum where
  "AREA_MATCH_TOLERANCE = Dec 8 (- 2)"

definition enclosesLand :: "boundary_point list \<Rightarrow> bool" where
  "enclosesLand boundary \<longleftrightarrow> 3 \<le> length boundary"

definition toRadians :: "jsnum \<Rightarrow> jsnum" where
  "toRadians degrees = num_div (num_mul degrees math_pi) (js_int 180)"

text \<open>One side of the boundary, from a corner to the next, the last one to the first.\<close>

definition side_area :: "math_functions \<Rightarrow> boundary_point \<Rightarrow> boundary_point \<Rightarrow> jsnum" where
  "side_area M here next_corner =
     num_mul (toRadians (num_sub (bp_longitude next_corner) (bp_longitude here)))
       (num_add (num_add (js_int 2) (mf_sin M (toRadians (bp_latitude here)))) (mf_sin M (toRadians (bp_latitude next_corner))))"

definition sphericalAreaHectares :: "math_functions \<Rightarrow> boundary_point list \<Rightarrow> jsnum" where
  "sphericalAreaHectares M boundary =
     (if \<not> enclosesLand boundary then Dec 0 0
      else (let total = foldl (\<lambda>total corner. num_add total
                  (side_area M (boundary ! corner) (boundary ! (Suc corner mod length boundary)))) (Dec 0 0) [0..<length boundary];
                squareMetres = num_div (num_mul (num_mul (num_abs total) EARTH_RADIUS_METRES) EARTH_RADIUS_METRES) (js_int 2)
            in num_div squareMetres SQUARE_METRES_PER_HECTARE))"

definition draftSquareAround :: "math_functions \<Rightarrow> boundary_point \<Rightarrow> jsnum \<Rightarrow> boundary_point list" where
  "draftSquareAround M centre areaHectares =
     (if num_le areaHectares (Dec 0 0) then []
      else (let halfSideMetres = num_div (mf_sqrt M (num_mul areaHectares SQUARE_METRES_PER_HECTARE)) (js_int 2);
                latitudeHalf = num_div halfSideMetres METRES_PER_DEGREE;
                longitudeHalf = num_div halfSideMetres (num_mul METRES_PER_DEGREE (mf_cos M (toRadians (bp_latitude centre))));
                south = num_sub (bp_latitude centre) latitudeHalf; north = num_add (bp_latitude centre) latitudeHalf;
                west = num_sub (bp_longitude centre) longitudeHalf; east = num_add (bp_longitude centre) longitudeHalf
            in [\<lparr>bp_latitude = south, bp_longitude = west\<rparr>, \<lparr>bp_latitude = south, bp_longitude = east\<rparr>,
                \<lparr>bp_latitude = north, bp_longitude = east\<rparr>, \<lparr>bp_latitude = north, bp_longitude = west\<rparr>]))"

datatype area_comparison = Match | Differs jsnum

definition areaMatch :: "jsnum \<Rightarrow> jsnum \<Rightarrow> area_comparison" where
  "areaMatch drawnHectares statedHectares =
     (let apart = num_abs (num_sub drawnHectares statedHectares)
      in if num_le apart (num_mul AREA_MATCH_TOLERANCE statedHectares) then Match
         else Differs (num_div apart statedHectares))"

definition onEarth :: "jsnum \<Rightarrow> jsnum \<Rightarrow> bool" where
  "onEarth latitude longitude \<longleftrightarrow> is_finite latitude \<and> is_finite longitude
     \<and> num_le (num_abs latitude) (js_int 90) \<and> num_le (num_abs longitude) (js_int 180)"

text \<open>A square is drawn exactly where the area is positive or no number, and always encloses land.\<close>

lemma square_encloses: "draftSquareAround M centre area \<noteq> [] \<Longrightarrow> enclosesLand (draftSquareAround M centre area)"
  by (simp add: draftSquareAround_def enclosesLand_def Let_def split: if_splits)

end
