(* ===== verification/IntakeDraft.thy ===== *)
theory IntakeDraft
  imports ParcelGeometry JsonText
begin

section \<open>The draft of a land submission (intake/submissionDraft.ts)\<close>

text \<open>
  What the land-intake wizard holds: the answers as they were typed, the split of the parcel over the chosen
  categories, the boundary and its origin, and the document the intake service is posted. A draft is kept in the
  browser's storage as JSON text. A category and a hazard are named by words of the model, none of them a whole number,
  so objects keyed by them keep their order.
\<close>

subsection \<open>The draft\<close>

datatype area_unit = Hectares | Acres

definition HECTARES_PER_ACRE :: jsnum where
  "HECTARES_PER_ACRE = Dec 40468564224 (- 11)"

datatype step_id = ProjectStep | ContactStep | LocationStep | ProgrammeStep | ParcelStep | HazardsStep

definition STEPS :: "step_id list" where
  "STEPS = [ProjectStep, ContactStep, LocationStep, ProgrammeStep, ParcelStep, HazardsStep]"

datatype boundary_obtained_by = DrawnByHand | GeneratedFromStatedArea

type_synonym shares = "(string, jsnum) omap"

record submission_draft =
  sd_submissionId :: string
  sd_projectName :: string
  sd_country :: string
  sd_nearestCity :: string
  sd_existingDataNotes :: string
  sd_contactName :: string
  sd_relationshipToProject :: string
  sd_emailAddress :: string
  sd_phoneNumber :: string
  sd_siteName :: string
  sd_latitude :: string
  sd_longitude :: string
  sd_statedArea :: string
  sd_areaUnit :: area_unit
  sd_population :: string
  sd_householdSize :: string
  sd_shares :: shares
  sd_boundary :: "boundary_point list"
  sd_boundarySource :: "boundary_obtained_by option"
  sd_reportedHazards :: "(string, string) omap"
  sd_visited :: "step_id list"

definition emptyDraft :: "string \<Rightarrow> submission_draft" where
  "emptyDraft submissionId = \<lparr>sd_submissionId = submissionId, sd_projectName = [], sd_country = [], sd_nearestCity = [],
     sd_existingDataNotes = [], sd_contactName = [], sd_relationshipToProject = [], sd_emailAddress = [],
     sd_phoneNumber = [], sd_siteName = [], sd_latitude = [], sd_longitude = [], sd_statedArea = [],
     sd_areaUnit = Hectares, sd_population = [], sd_householdSize = [], sd_shares = [], sd_boundary = [],
     sd_boundarySource = None, sd_reportedHazards = [], sd_visited = [ProjectStep]\<rparr>"

subsection \<open>Figures that were typed\<close>

definition toHectares :: "jsnum \<Rightarrow> area_unit \<Rightarrow> jsnum" where
  "toHectares n unit = (if unit = Acres then num_mul n HECTARES_PER_ACRE else n)"

definition fromHectares :: "jsnum \<Rightarrow> area_unit \<Rightarrow> jsnum" where
  "fromHectares hectares unit = (if unit = Acres then num_div hectares HECTARES_PER_ACRE else hectares)"

definition numberFrom :: "string \<Rightarrow> jsnum option" where
  "numberFrom typed = (let txt = trim typed in
     if txt = [] then None
     else (let n = as_double (string_number txt) in if is_finite n then Some n else None))"

definition positiveNumberFrom :: "string \<Rightarrow> jsnum option" where
  "positiveNumberFrom typed = (case numberFrom typed of None \<Rightarrow> None
     | Some n \<Rightarrow> if num_lt n (Dec 0 0) then None else Some n)"

text \<open>\<open>Number.isInteger\<close> of the double.\<close>

definition is_integer :: "jsnum \<Rightarrow> bool" where
  "is_integer n = (case n of Dec m e \<Rightarrow> (case quotient m e of (a, b) \<Rightarrow> a mod b = 0) | _ \<Rightarrow> False)"

definition wholeNumberFrom :: "string \<Rightarrow> jsnum option" where
  "wholeNumberFrom typed = (case positiveNumberFrom typed of None \<Rightarrow> None
     | Some n \<Rightarrow> if is_integer n then Some n else None)"

definition statedAreaHectares :: "submission_draft \<Rightarrow> jsnum option" where
  "statedAreaHectares draft = map_option (\<lambda>typed. toHectares typed (sd_areaUnit draft)) (positiveNumberFrom (sd_statedArea draft))"

definition coordinatesFrom :: "submission_draft \<Rightarrow> boundary_point option" where
  "coordinatesFrom draft = (case (numberFrom (sd_latitude draft), numberFrom (sd_longitude draft)) of
     (Some latitude, Some longitude) \<Rightarrow>
       if onEarth latitude longitude then Some \<lparr>bp_latitude = latitude, bp_longitude = longitude\<rparr> else None
   | _ \<Rightarrow> None)"

subsection \<open>The split of the parcel\<close>

definition WHOLE_PARCEL :: jsnum where
  "WHOLE_PARCEL = js_int 100"

definition share_at :: "shares \<Rightarrow> string \<Rightarrow> jsnum" where
  "share_at shares name = (case oget shares name of Some s \<Rightarrow> s | None \<Rightarrow> NaN)"

definition without_category :: "shares \<Rightarrow> string \<Rightarrow> shares" where
  "without_category shares category = of_entries (filter (\<lambda>(name, _). name \<noteq> category) shares)"

definition scaledTo :: "shares \<Rightarrow> jsnum \<Rightarrow> shares" where
  "scaledTo shares whole = (let names = map fst shares in
     if names = [] then []
     else (let held = foldl (\<lambda>sum name. num_add sum (share_at shares name)) (Dec 0 0) names;
               equalShare = num_div whole (js_int (int (length names)))
           in of_entries (map (\<lambda>name. (name,
                if num_lt (Dec 0 0) held then num_mul (num_div (share_at shares name) held) whole else equalShare)) names)))"

definition withCategoryChosen :: "shares \<Rightarrow> string \<Rightarrow> shares" where
  "withCategoryChosen shares category =
     (if ohas shares category then shares
      else if shares = [] then [(category, WHOLE_PARCEL)]
      else (let share = num_div WHOLE_PARCEL (js_int (int (length shares) + 1))
            in oput category share (scaledTo shares (num_sub WHOLE_PARCEL share))))"

definition withCategoryDropped :: "shares \<Rightarrow> string \<Rightarrow> shares" where
  "withCategoryDropped shares category =
     (if \<not> ohas shares category then shares else scaledTo (without_category shares category) WHOLE_PARCEL)"

definition withShareSet :: "shares \<Rightarrow> string \<Rightarrow> jsnum \<Rightarrow> shares" where
  "withShareSet shares category share =
     (if \<not> ohas shares category then shares
      else (let held = math_min (math_max share (Dec 0 0)) WHOLE_PARCEL
            in oput category held (scaledTo (without_category shares category) (num_sub WHOLE_PARCEL held))))"

text \<open>What the remainder operator leaves of a share by one is exact, so it is kept as a quotient; the difference of two
  remainders is negative exactly where the first is the smaller, and no number where one of them is none.\<close>

definition remainder_of :: "jsnum \<Rightarrow> (int \<times> int) option" where
  "remainder_of n = (case n of Dec m e \<Rightarrow> (case quotient m e of (a, b) \<Rightarrow> Some (a - b * (sgn a * (\<bar>a\<bar> div b)), b)) | _ \<Rightarrow> None)"

definition by_remainder :: "shares \<Rightarrow> string \<Rightarrow> string \<Rightarrow> int" where
  "by_remainder shares left right = (case (remainder_of (share_at shares right), remainder_of (share_at shares left)) of
     (Some (a, b), Some (c, d)) \<Rightarrow> sgn (a * d - c * b)
   | _ \<Rightarrow> 0)"

definition wholePercentages :: "shares \<Rightarrow> shares" where
  "wholePercentages shares = (let names = map fst shares in
     if names = [] then []
     else (let floors = of_entries (map (\<lambda>name. (name, num_floor (share_at shares name))) names);
               givenOut = foldl (\<lambda>sum name. num_add sum (share_at floors name)) (Dec 0 0) names;
               byRemainder = sort_by (by_remainder shares) names
           in foldl (\<lambda>floors name. oput name (num_add (share_at floors name) (js_int 1)) floors) floors
                (js_slice byRemainder (Dec 0 0) (num_sub WHOLE_PARCEL givenOut))))"

subsection \<open>The boundary, the steps and the hazards\<close>

text \<open>A change of the boundary names the corners and their origin together.\<close>

definition boundaryDrafted :: "math_functions \<Rightarrow> submission_draft \<Rightarrow> (boundary_point list \<times> boundary_obtained_by option) option" where
  "boundaryDrafted M draft = (case (coordinatesFrom draft, statedAreaHectares draft) of
     (Some position, Some hectares) \<Rightarrow> (let boundary = draftSquareAround M position hectares in
        if boundary = [] then None else Some (boundary, Some GeneratedFromStatedArea))
   | _ \<Rightarrow> None)"

definition boundaryDrawn :: "boundary_point list \<Rightarrow> boundary_point list \<times> boundary_obtained_by option" where
  "boundaryDrawn boundary = (boundary, Some DrawnByHand)"

definition boundaryCleared :: "boundary_point list \<times> boundary_obtained_by option" where
  "boundaryCleared = ([], None)"

definition withStepVisited :: "submission_draft \<Rightarrow> step_id \<Rightarrow> submission_draft" where
  "withStepVisited draft step = (if step \<in> set (sd_visited draft) then draft
     else draft\<lparr>sd_visited := sd_visited draft @ [step]\<rparr>)"

definition blank :: "string \<Rightarrow> bool" where
  "blank s \<longleftrightarrow> trim s = []"

definition readyToSubmit :: "submission_draft \<Rightarrow> bool" where
  "readyToSubmit draft \<longleftrightarrow>
     list_all (\<lambda>s. \<not> blank s) [sd_siteName draft, sd_projectName draft, sd_contactName draft, sd_emailAddress draft]
     \<and> enclosesLand (sd_boundary draft)"

definition withHazardReported :: "submission_draft \<Rightarrow> string \<Rightarrow> string \<Rightarrow> submission_draft" where
  "withHazardReported draft hazardType reportedLevel =
     draft\<lparr>sd_reportedHazards := (if reportedLevel = [] then odel hazardType (sd_reportedHazards draft)
       else oput hazardType reportedLevel (sd_reportedHazards draft))\<rparr>"

end
