(* ===== verification/IntakeShares.thy ===== *)
theory IntakeShares
  imports IntakeDraft
begin

section \<open>The whole percentages of a split\<close>

text \<open>
  The figures the programme step shows beside each category: whole percentages handed out by largest remainder. The
  theorem of the theory is that they add to exactly one hundred wherever the shares they stand for add to one hundred
  up to the rounding of their arithmetic, and that nobody is a whole percentage away from their share.
\<close>

text \<open>The exact value of the double a share is.\<close>

definition share_value :: "jsnum \<Rightarrow> real" where
  "share_value n = (case n of Dec m e \<Rightarrow> (case quotient m e of (a, b) \<Rightarrow> of_int a / of_int b) | _ \<Rightarrow> 0)"

lemma scaled_pos: "0 < b \<Longrightarrow> 0 < f \<Longrightarrow> scaled f a b s = (x, y) \<Longrightarrow> 0 < y \<and> (0 \<le> a \<longrightarrow> 0 \<le> x)"
  by (auto simp: scaled_def split: if_splits)

lemma to_double_pos: "0 \<le> a \<Longrightarrow> 0 < b \<Longrightarrow> 0 \<le> fst (to_double a b)"
proof -
  assume a: "0 \<le> a" "0 < b"
  obtain n d where nd: "scaled 2 a b (- binary_exponent a b) = (n, d)" by fastforce
  with scaled_pos[OF a(2) _ nd] a have "0 < d" "0 \<le> n" by auto
  then have "0 \<le> round_half_even n d" by (simp add: round_half_even_def Let_def pos_imp_zdiv_nonneg_iff)
  with nd show ?thesis by (simp add: to_double_def Let_def)
qed

lemma quotient_pos:
  assumes "quotient m e = (a, b)"
  shows "0 < b \<and> (0 \<le> m \<longrightarrow> 0 \<le> a)"
proof -
  obtain x y where xy: "scaled 10 m 1 e = (x, y)" by fastforce
  with scaled_pos[of 1 10 m e x y] have pos: "0 < y" "0 \<le> m \<longrightarrow> 0 \<le> x" by auto
  obtain k s where k: "to_double \<bar>x\<bar> y = (k, s)" by fastforce
  with to_double_pos[of "\<bar>x\<bar>" y] pos have "0 \<le> k" by auto
  with assms xy pos k show ?thesis
    by (auto simp: quotient_def Let_def split: if_splits dest: scaled_pos[rotated 2])
qed

lemma share_floor: "num_le (Dec 0 0) n \<Longrightarrow> is_finite n \<Longrightarrow> 0 \<le> share_value n"
proof (cases n)
  case (Dec m e)
  assume "num_le (Dec 0 0) n"
  with Dec have "0 \<le> m" by simp
  moreover obtain a b where "quotient m e = (a, b)" by fastforce
  ultimately show ?thesis using quotient_pos[of m e a b] Dec by (simp add: share_value_def)
qed (simp_all add: is_finite_def)

lemma num_floor_value:
  assumes "is_finite n" and "\<bar>\<lfloor>share_value n\<rfloor>\<bar> \<le> max_exact"
  shows "num_floor n = js_int \<lfloor>share_value n\<rfloor>"
proof -
  obtain m e where n: "n = Dec m e" using assms(1) by (cases n) (auto simp: is_finite_def)
  obtain a b where q: "quotient m e = (a, b)" by fastforce
  have "\<lfloor>share_value n\<rfloor> = a div b" by (simp add: n q share_value_def floor_divide_of_int_eq)
  with assms(2) q n show ?thesis by (simp add: num_floor_def whole_number)
qed

subsection \<open>The largest remainders come first\<close>

definition share_frac :: "shares \<Rightarrow> string \<Rightarrow> real" where
  "share_frac shares name = frac (share_value (share_at shares name))"

definition by_share_fraction :: "shares \<Rightarrow> string \<Rightarrow> string \<Rightarrow> int" where
  "by_share_fraction shares left right = (let l = share_frac shares left; r = share_frac shares right
     in if r < l then - 1 else if r = l then 0 else 1)"

interpretation fractions: comparator "by_share_fraction shares" for shares
  by unfold_locales (auto simp: by_share_fraction_def Let_def split: if_splits)

lemma remainder_value:
  assumes "is_finite n" and "num_le (Dec 0 0) n"
  obtains a b where "remainder_of n = Some (a, b)" and "0 < b" and "frac (share_value n) = of_int a / of_int b"
proof -
  obtain m e where n: "n = Dec m e" using assms(1) by (cases n) (auto simp: is_finite_def)
  obtain a b where q: "quotient m e = (a, b)" by fastforce
  with quotient_pos[OF q] assms(2) n have pos: "0 < b" "0 \<le> a" by simp_all
  have trunc: "a - b * (sgn a * (\<bar>a\<bar> div b)) = a mod b"
    using pos by (cases "a = 0") (simp_all add: minus_mult_div_eq_mod)
  have "frac (share_value n) = of_int a / of_int b - of_int (a div b)"
    by (simp add: frac_def n q share_value_def floor_divide_of_int_eq)
  also have "\<dots> = of_int (a mod b) / of_int b"
    using pos by (simp add: field_simps flip: of_int_mult of_int_add)
  finally show thesis using that[of "a mod b" b] pos trunc n q by (simp add: remainder_of_def)
qed

lemma by_remainder_fraction:
  assumes "is_finite (share_at shares l)" "num_le (Dec 0 0) (share_at shares l)"
    and "is_finite (share_at shares r)" "num_le (Dec 0 0) (share_at shares r)"
  shows "by_remainder shares l r = by_share_fraction shares l r"
proof -
  obtain a b where r: "remainder_of (share_at shares r) = Some (a, b)" "0 < b" "share_frac shares r = of_int a / of_int b"
    using remainder_value[OF assms(3,4)] unfolding share_frac_def by blast
  obtain c d where l: "remainder_of (share_at shares l) = Some (c, d)" "0 < d" "share_frac shares l = of_int c / of_int d"
    using remainder_value[OF assms(1,2)] unfolding share_frac_def by blast
  have order: "of_int a / of_int b < (of_int c / of_int d :: real) \<longleftrightarrow> a * d < c * b"
    "of_int a / of_int b = (of_int c / of_int d :: real) \<longleftrightarrow> a * d = c * b"
    using l(2) r(2) by (simp_all add: field_simps flip: of_int_mult)
  show ?thesis unfolding by_remainder_def by_share_fraction_def Let_def l(3) r(3) order
    using l(1) r(1) by (simp add: sgn_if)
qed

lemma insert_by_cong: "(\<And>y. y \<in> set xs \<Longrightarrow> f x y = g x y) \<Longrightarrow> insert_by f x xs = insert_by g x xs"
  by (induction xs) auto

lemma sort_by_cong: "(\<And>x y. x \<in> set xs \<Longrightarrow> y \<in> set xs \<Longrightarrow> f x y = g x y) \<Longrightarrow> sort_by f xs = sort_by g xs"
proof (induction xs)
  case (Cons x xs)
  then have "sort_by f xs = sort_by g xs" by simp
  moreover have "insert_by f x (sort_by g xs) = insert_by g x (sort_by g xs)" using Cons.prems by (intro insert_by_cong) simp
  ultimately show ?case by simp
qed simp

lemma distinct_sort_by [simp]: "distinct (sort_by cmp xs) = distinct xs"
  using distinct_map_sort_by[of "\<lambda>x. x" cmp xs] by simp

subsection \<open>Handing out what is left\<close>

lemma js_slice_whole: "0 \<le> n \<Longrightarrow> js_slice xs (Dec 0 0) (js_int n) = take (nat n) xs"
proof -
  assume n: "0 \<le> n"
  obtain m e where "js_int n = Dec m e" "0 \<le> e" "m * 10 ^ nat e = n" using js_int_dec by blast
  then have "whole_part len (js_int n) = n" for len by simp
  with n show ?thesis by (simp add: js_slice_def position_in_def Let_def min_def nat_le_iff)
qed

definition one_more :: "shares \<Rightarrow> string \<Rightarrow> shares" where
  "one_more floors name = oput name (num_add (share_at floors name) (js_int 1)) floors"

lemma oput_same_keys:
  "distinct (map fst m) \<Longrightarrow> k \<in> fst ` set m \<Longrightarrow> oput k v m = map (\<lambda>(j, w). (j, if j = k then v else w)) m"
proof (induction m)
  case (Cons kv m)
  obtain j w where kv: "kv = (j, w)" by (cases kv)
  show ?case
  proof (cases "j = k")
    case True
    then have "map (\<lambda>(j, w). (j, if j = k then v else w)) m = m"
      using Cons.prems(1) kv by (intro map_idI) (auto simp: rev_image_eqI)
    with True kv show ?thesis by simp
  qed (use Cons kv in auto)
qed simp

lemma handed_out:
  assumes "distinct names" "\<forall>n\<in>set ups. 0 \<le> f n \<and> f n < max_exact" "distinct ups" "set ups \<subseteq> set names"
  shows "foldl one_more (map (\<lambda>n. (n, js_int (f n))) names) ups = map (\<lambda>n. (n, js_int (f n + (if n \<in> set ups then 1 else 0)))) names"
  using assms
proof (induction ups arbitrary: f)
  case (Cons u ups)
  let ?g = "\<lambda>n. if n = u then f n + 1 else f n"
  have at: "share_at (map (\<lambda>n. (n, js_int (f n))) names) u = js_int (f u)"
    using Cons.prems(4) by (simp add: share_at_def map_of_map_restrict)
  have "num_add (js_int (f u)) (js_int 1) = js_int (f u + 1)"
    using Cons.prems(2,4) by (intro num_add_whole) (auto simp: max_exact_def)
  then have step: "one_more (map (\<lambda>n. (n, js_int (f n))) names) u = map (\<lambda>n. (n, js_int (?g n))) names"
    using Cons.prems(1,4) by (subst one_more_def, subst oput_same_keys) (auto simp: at comp_def image_image)
  have "foldl one_more (map (\<lambda>n. (n, js_int (?g n))) names) ups
      = map (\<lambda>n. (n, js_int (?g n + (if n \<in> set ups then 1 else 0)))) names"
    using Cons.prems by (intro Cons.IH) auto
  with step Cons.prems(3) show ?case by (auto intro!: arg_cong[of _ _ js_int])
qed simp

lemma share_names: "okeys_distinct shares \<Longrightarrow> (name, s) \<in> set shares \<Longrightarrow> share_at shares name = s"
  by (simp add: share_at_def okeys_distinct_def)

subsection \<open>What is given out, and what is left\<close>

lemma floor_sums:
  "xs \<noteq> [] \<Longrightarrow> of_int (\<Sum>x\<leftarrow>xs. \<lfloor>v x\<rfloor>) \<le> (\<Sum>x\<leftarrow>xs. v x) \<and> (\<Sum>x\<leftarrow>xs. v x) < of_int (\<Sum>x\<leftarrow>xs. \<lfloor>v x\<rfloor>) + real (length xs)"
  for v :: "'a \<Rightarrow> real"
proof (induction xs rule: list_nonempty_induct)
  case (single x)
  have "of_int \<lfloor>v x\<rfloor> \<le> v x" "v x < of_int \<lfloor>v x\<rfloor> + 1" by linarith+
  then show ?case by simp
next
  case (cons x xs)
  have "of_int \<lfloor>v x\<rfloor> \<le> v x" "v x < of_int \<lfloor>v x\<rfloor> + 1" by linarith+
  with cons show ?case
    by (intro conjI; simp only: list.map sum_list_simps of_int_add list.size of_nat_add of_nat_Suc; linarith)
qed

lemma count_chosen:
  "distinct xs \<Longrightarrow> up \<subseteq> set xs \<Longrightarrow> (\<Sum>x\<leftarrow>xs. h x + (if x \<in> up then 1 else 0)) = (\<Sum>x\<leftarrow>xs. h x) + int (card up)"
  by (simp add: sum_list_distinct_conv_sum_set sum.distrib sum.If_cases Int_absorb1)

lemma num_sub_whole: "0 \<le> a \<Longrightarrow> a \<le> max_exact \<Longrightarrow> 0 \<le> b \<Longrightarrow> b \<le> max_exact \<Longrightarrow> num_sub (js_int a) (js_int b) = js_int (a - b)"
  using num_add_whole[of a "- b"] by (simp add: num_sub_def negated_js_int)

lemma floors_given_out:
  assumes "distinct names" and floors: "\<forall>n\<in>set names. num_floor (share_at shares n) = js_int (f n)"
    and "\<forall>n\<in>set names. 0 \<le> f n" and "sum_list (map f names) \<le> max_exact"
  defines "floors \<equiv> of_entries (map (\<lambda>name. (name, num_floor (share_at shares name))) names)"
  shows "floors = map (\<lambda>n. (n, js_int (f n))) names"
    and "foldl (\<lambda>sum name. num_add sum (share_at floors name)) (Dec 0 0) names = js_int (sum_list (map f names))"
proof -
  have "floors = map (\<lambda>name. (name, num_floor (share_at shares name))) names"
    using assms(1) unfolding floors_def by (intro of_entries_distinct) (simp add: comp_def)
  then show eq: "floors = map (\<lambda>n. (n, js_int (f n))) names" using floors by simp
  have at: "share_at floors n = js_int (f n)" if "n \<in> set names" for n
    using that by (simp add: eq share_at_def map_of_map_restrict)
  have "foldl (\<lambda>sum name. num_add sum (share_at floors name)) (Dec 0 0) names = num_sum (map js_int (map f names))"
    using at by (simp add: num_sum_def foldl_map cong: foldl_cong)
  also have "\<dots> = js_int (sum_list (map f names))" using assms(3,4) by (intro num_sum_whole) auto
  finally show "foldl (\<lambda>sum name. num_add sum (share_at floors name)) (Dec 0 0) names = js_int (sum_list (map f names))" .
qed

lemma take_sorted_first:
  assumes "sorted_wrt R xs" and "distinct xs" and "a \<in> set (take k xs)" and "b \<in> set xs" and "b \<notin> set (take k xs)"
  shows "R a b"
proof -
  have "b \<in> set (drop k xs)" using assms(4,5) by (metis append_take_drop_id set_append UnE)
  moreover have "sorted_wrt R (take k xs @ drop k xs)" using assms(1) by simp
  ultimately show ?thesis using assms(3) unfolding sorted_wrt_append by blast
qed

text \<open>What is left of the hundred is at most one for each category.\<close>

lemma left_over:
  assumes shares: "okeys_distinct shares" "\<forall>(name, s)\<in>set shares. is_finite s \<and> num_le (Dec 0 0) s"
    and whole: "99 < (\<Sum>(name, s)\<leftarrow>shares. share_value s)" "(\<Sum>(name, s)\<leftarrow>shares. share_value s) < 101"
  defines "names \<equiv> map fst shares"
  defines "f \<equiv> \<lambda>name. \<lfloor>share_value (share_at shares name)\<rfloor>"
  defines "g \<equiv> sum_list (map f names)"
  shows "0 \<le> g" "g \<le> 100" "100 - g \<le> int (length names)" "names \<noteq> []" "distinct names"
    and "\<And>n. n \<in> set names \<Longrightarrow> is_finite (share_at shares n) \<and> num_le (Dec 0 0) (share_at shares n)"
    and "\<And>n. n \<in> set names \<Longrightarrow> 0 \<le> f n \<and> f n \<le> g"
proof -
  have sum: "(\<Sum>(name, s)\<leftarrow>shares. share_value s) = (\<Sum>n\<leftarrow>names. share_value (share_at shares n))"
    using shares(1) by (auto simp: names_def share_names comp_def intro!: arg_cong[of _ _ sum_list])
  show some: "names \<noteq> []" using whole(1) by (auto simp: names_def)
  show "distinct names" using shares(1) by (simp add: names_def okeys_distinct_def)
  show at: "is_finite (share_at shares n) \<and> num_le (Dec 0 0) (share_at shares n)" if "n \<in> set names" for n
    using that shares by (auto simp: names_def share_names)
  from floor_sums[OF some, of "\<lambda>n. share_value (share_at shares n)"] whole
  show "g \<le> 100" "100 - g \<le> int (length names)" unfolding sum g_def f_def by linarith+
  have nonneg: "0 \<le> f n" if "n \<in> set names" for n using at[OF that] share_floor by (simp add: f_def)
  then show "0 \<le> f n \<and> f n \<le> g" if "n \<in> set names" for n
    using that unfolding g_def by (auto intro!: member_le_sum_list)
  show "0 \<le> g" using nonneg by (auto simp: g_def intro!: sum_list_nonneg)
qed

lemma smaller_fraction_last:
  assumes "okeys_distinct shares" "\<forall>(name, s)\<in>set shares. is_finite s \<and> num_le (Dec 0 0) s"
    and "a \<in> set (take k (sort_by (by_remainder shares) (map fst shares)))"
    and "b \<notin> set (take k (sort_by (by_remainder shares) (map fst shares)))"
    and "(a, s) \<in> set shares" "(b, t) \<in> set shares"
  shows "frac (share_value t) \<le> frac (share_value s)"
proof -
  let ?names = "map fst shares"
  have "sort_by (by_remainder shares) ?names = sort_by (by_share_fraction shares) ?names"
    using assms(1,2) by (intro sort_by_cong by_remainder_fraction) (auto simp: share_names)
  moreover have "sorted_wrt (\<lambda>x y. by_share_fraction shares x y \<le> 0) (sort_by (by_share_fraction shares) ?names)"
    by (rule fractions.sorted_sort_by)
  moreover have "b \<in> set (sort_by (by_share_fraction shares) ?names)" using assms(6) by force
  ultimately have "by_share_fraction shares a b \<le> 0"
    using take_sorted_first[OF _ _ assms(3)] assms(1,4) by (auto simp: okeys_distinct_def)
  then show ?thesis using assms(1,5,6) by (auto simp: by_share_fraction_def Let_def share_frac_def share_names split: if_splits)
qed

text \<open>C19. The whole percentages the programme step shows always add to exactly one hundred: where the shares are figures of
  nought or more that add to one hundred but for the rounding of their arithmetic (to strictly between ninety-nine and a
  hundred and one), every category is shown its share rounded down or, for some of them, one more, nobody shown one more
  has lost a smaller fraction by rounding down than somebody who is not, and the figures add to one hundred.\<close>

theorem whole_percentages:
  assumes shares: "okeys_distinct shares" "\<forall>(name, s)\<in>set shares. is_finite s \<and> num_le (Dec 0 0) s"
    and whole: "99 < (\<Sum>(name, s)\<leftarrow>shares. share_value s)" "(\<Sum>(name, s)\<leftarrow>shares. share_value s) < 101"
  shows "\<exists>up. wholePercentages shares = map (\<lambda>(name, s). (name, js_int (\<lfloor>share_value s\<rfloor> + (if name \<in> up then 1 else 0)))) shares
    \<and> (\<Sum>(name, s)\<leftarrow>shares. \<lfloor>share_value s\<rfloor> + (if name \<in> up then 1 else 0)) = 100
    \<and> (\<forall>(a, s)\<in>set shares. \<forall>(b, t)\<in>set shares. a \<in> up \<and> b \<notin> up \<longrightarrow> frac (share_value t) \<le> frac (share_value s))"
proof -
  define names where "names = map fst shares"
  define f where "f name = \<lfloor>share_value (share_at shares name)\<rfloor>" for name
  define g where "g = sum_list (map f names)"
  define ordered where "ordered = sort_by (by_remainder shares) names"
  define ups where "ups = take (nat (100 - g)) ordered"
  note left = left_over[OF assms, folded names_def f_def[abs_def], folded f_def, folded g_def]
  have floor: "\<forall>n\<in>set names. num_floor (share_at shares n) = js_int (f n)"
  proof
    fix n assume n: "n \<in> set names"
    have "\<bar>f n\<bar> \<le> max_exact" using left(2) left(7)[OF n] by (simp add: max_exact_def)
    with left(6)[OF n] show "num_floor (share_at shares n) = js_int (f n)" unfolding f_def by (intro num_floor_value) auto
  qed
  have nonneg: "\<forall>n\<in>set names. 0 \<le> f n" using left(7) by blast
  have "g \<le> max_exact" using left(2) by (simp add: max_exact_def)
  note floors = floors_given_out[OF left(5) floor nonneg this[unfolded g_def], folded g_def]
  have slice: "js_slice ordered (Dec 0 0) (num_sub WHOLE_PARCEL (js_int g)) = ups"
    using left(1,2) by (simp add: WHOLE_PARCEL_def num_sub_whole max_exact_def js_slice_whole ups_def)
  have ups: "distinct ups" "set ups \<subseteq> set names"
    using left(5) by (auto simp: ups_def ordered_def dest: in_set_takeD)
  have "wholePercentages shares = foldl one_more (map (\<lambda>n. (n, js_int (f n))) names) ups"
    using left(4) unfolding wholePercentages_def Let_def names_def[symmetric] unfolding floors(2) slice[unfolded ordered_def]
    unfolding floors(1) one_more_def[abs_def] by simp
  also have "\<dots> = map (\<lambda>n. (n, js_int (f n + (if n \<in> set ups then 1 else 0)))) names"
    using left(2,5,7) ups by (intro handed_out) (force simp: max_exact_def)+
  finally have shown: "wholePercentages shares
      = map (\<lambda>(name, s). (name, js_int (\<lfloor>share_value s\<rfloor> + (if name \<in> set ups then 1 else 0)))) shares"
    using shares(1) by (auto simp: names_def f_def share_names)
  have "length ups = nat (100 - g)" using left(3) by (simp add: ups_def ordered_def)
  then have "card (set ups) = nat (100 - g)" using ups(1) by (simp add: distinct_card)
  then have "(\<Sum>n\<leftarrow>names. f n + (if n \<in> set ups then 1 else 0)) = 100"
    using count_chosen[OF left(5) ups(2), of f] left(2) by (simp add: g_def)
  moreover have "(\<Sum>(name, s)\<leftarrow>shares. \<lfloor>share_value s\<rfloor> + (if name \<in> set ups then 1 else 0)) = (\<Sum>n\<leftarrow>names. f n + (if n \<in> set ups then 1 else 0))"
    using shares(1) by (auto simp: names_def f_def share_names comp_def intro!: arg_cong[of _ _ sum_list])
  moreover have "frac (share_value t) \<le> frac (share_value s)"
    if "(a, s) \<in> set shares" "(b, t) \<in> set shares" "a \<in> set ups" "b \<notin> set ups" for a s b t
    using smaller_fraction_last[OF shares that(3,4)[unfolded ups_def ordered_def names_def] that(1,2)] .
  ultimately show ?thesis using shown by (intro exI[of _ "set ups"]) auto
qed

theorem whole_percentages_witness:
  "\<exists>up. wholePercentages [(''housing'', Dec 333 (- 1)), (''food'', Dec 334 (- 1)), (''energy'', Dec 333 (- 1))]
      = [(''housing'', js_int (33 + (if ''housing'' \<in> up then 1 else 0))), (''food'', js_int (33 + (if ''food'' \<in> up then 1 else 0))),
         (''energy'', js_int (33 + (if ''energy'' \<in> up then 1 else 0)))]"
proof -
  have q: "quotient 333 (- 1) = (4686558362232422, 140737488355328)" "quotient 334 (- 1) = (4700632111067955, 140737488355328)"
    by code_simp+
  have v: "share_value (Dec 333 (- 1)) = 4686558362232422 / 140737488355328" "share_value (Dec 334 (- 1)) = 4700632111067955 / 140737488355328"
    by (simp_all add: share_value_def q)
  have whole: "\<lfloor>share_value (Dec 333 (- 1))\<rfloor> = 33" "\<lfloor>share_value (Dec 334 (- 1))\<rfloor> = 33"
    by (simp_all add: v floor_eq_iff)
  let ?shares = "[(''housing'', Dec 333 (- 1)), (''food'', Dec 334 (- 1)), (''energy'', Dec 333 (- 1))]"
  have "okeys_distinct ?shares" by (simp add: okeys_distinct_def)
  moreover have "\<forall>(name, s)\<in>set ?shares. is_finite s \<and> num_le (Dec 0 0) s" by (simp add: is_finite_def)
  moreover have "99 < (\<Sum>(name, s)\<leftarrow>?shares. share_value s)" "(\<Sum>(name, s)\<leftarrow>?shares. share_value s) < 101"
    by (simp_all add: v)
  ultimately obtain up where "wholePercentages ?shares
      = map (\<lambda>(name, s). (name, js_int (\<lfloor>share_value s\<rfloor> + (if name \<in> up then 1 else 0)))) ?shares"
    using whole_percentages [of ?shares] by blast
  then show ?thesis by (intro exI[of _ up]) (simp only: list.map prod.case whole)
qed

end
