(* ===== verification/IntakeDocument.thy ===== *)
theory IntakeDocument
  imports IntakeDraft "HOL-Library.Monad_Syntax"
begin

section \<open>The document that is posted, and the draft that is kept (intake/submissionDraft.ts)\<close>

text \<open>
  The document the intake service takes, as the JSON object that is posted; and a draft in the browser's storage, under
  a key of its owner. A draft read back is an object whose fields are checked only in part: \<open>draft_of\<close> is the draft it
  holds where every field has its declared type, and the theorem of the theory is that what is saved is read back so.
\<close>

subsection \<open>The document\<close>

definition unit_name :: "area_unit \<Rightarrow> string" where
  "unit_name unit = (case unit of Hectares \<Rightarrow> ''hectares'' | Acres \<Rightarrow> ''acres'')"

definition step_name :: "step_id \<Rightarrow> string" where
  "step_name step = (case step of ProjectStep \<Rightarrow> ''project'' | ContactStep \<Rightarrow> ''contact'' | LocationStep \<Rightarrow> ''location''
     | ProgrammeStep \<Rightarrow> ''programme'' | ParcelStep \<Rightarrow> ''parcel'' | HazardsStep \<Rightarrow> ''hazards'')"

definition source_name :: "boundary_obtained_by \<Rightarrow> string" where
  "source_name source = (case source of DrawnByHand \<Rightarrow> ''drawn-by-hand'' | GeneratedFromStatedArea \<Rightarrow> ''generated-from-stated-area'')"

definition point_object :: "boundary_point \<Rightarrow> json" where
  "point_object p = JObj [(''latitude'', JNum (bp_latitude p)), (''longitude'', JNum (bp_longitude p))]"

definition defined :: "string \<Rightarrow> jsnum option \<Rightarrow> props" where
  "defined name n = (case n of None \<Rightarrow> [] | Some n \<Rightarrow> [(name, JNum n)])"

definition given_texts :: "(string, string) omap \<Rightarrow> props" where
  "given_texts texts = of_entries (map (\<lambda>(name, s). (name, JStr (trim s))) (filter (\<lambda>(name, s). \<not> blank s) texts))"

definition allocations_of :: "shares \<Rightarrow> json list" where
  "allocations_of shares = map (\<lambda>(category, sharePercent). JObj [(''category'', JStr category), (''sharePercent'', JNum sharePercent)]) shares"

definition hazards_of :: "(string, string) omap \<Rightarrow> json list" where
  "hazards_of reported = map (\<lambda>(hazardType, reportedLevel). JObj [(''hazardType'', JStr hazardType), (''reportedLevel'', JStr reportedLevel)]) reported"

definition documentFrom :: "submission_draft \<Rightarrow> props" where
  "documentFrom draft =
     (let allocations = allocations_of (sd_shares draft);
          hazards = hazards_of (filter (\<lambda>(_, reportedLevel). reportedLevel \<noteq> []) (sd_reportedHazards draft))
      in [(''submissionId'', JStr (sd_submissionId draft)),
          (''project'', JObj (oassign [(''name'', JStr (trim (sd_projectName draft)))]
             (given_texts [(''country'', sd_country draft), (''nearestCity'', sd_nearestCity draft),
                (''existingDataNotes'', sd_existingDataNotes draft)]))),
          (''contact'', JObj (oassign [(''name'', JStr (trim (sd_contactName draft))),
                (''emailAddress'', JStr (trim (sd_emailAddress draft)))]
             (given_texts [(''relationshipToProject'', sd_relationshipToProject draft), (''phoneNumber'', sd_phoneNumber draft)]))),
          (''site'', JObj ([(''name'', JStr (trim (sd_siteName draft)))]
             @ defined ''latitude'' (numberFrom (sd_latitude draft))
             @ defined ''longitude'' (numberFrom (sd_longitude draft))
             @ defined ''statedAreaHectares'' (statedAreaHectares draft)
             @ defined ''population'' (wholeNumberFrom (sd_population draft))
             @ defined ''householdSize'' (positiveNumberFrom (sd_householdSize draft))))]
         @ (case sd_boundarySource draft of
              Some source \<Rightarrow> if 3 \<le> length (sd_boundary draft)
                then [(''parcel'', JObj [(''boundarySource'', JStr (source_name source)),
                        (''boundary'', JArr (map point_object (sd_boundary draft)))])] else []
            | None \<Rightarrow> [])
         @ (if allocations \<noteq> [] then [(''allocations'', JArr allocations)] else [])
         @ (if hazards \<noteq> [] then [(''hazards'', JArr hazards)] else []))"

subsection \<open>A draft in storage\<close>

definition draft_object :: "submission_draft \<Rightarrow> props" where
  "draft_object d = [(''submissionId'', JStr (sd_submissionId d)), (''projectName'', JStr (sd_projectName d)),
     (''country'', JStr (sd_country d)), (''nearestCity'', JStr (sd_nearestCity d)),
     (''existingDataNotes'', JStr (sd_existingDataNotes d)), (''contactName'', JStr (sd_contactName d)),
     (''relationshipToProject'', JStr (sd_relationshipToProject d)), (''emailAddress'', JStr (sd_emailAddress d)),
     (''phoneNumber'', JStr (sd_phoneNumber d)), (''siteName'', JStr (sd_siteName d)),
     (''latitude'', JStr (sd_latitude d)), (''longitude'', JStr (sd_longitude d)), (''statedArea'', JStr (sd_statedArea d)),
     (''areaUnit'', JStr (unit_name (sd_areaUnit d))), (''population'', JStr (sd_population d)),
     (''householdSize'', JStr (sd_householdSize d)),
     (''shares'', JObj (map (\<lambda>(category, share). (category, JNum share)) (sd_shares d))),
     (''boundary'', JArr (map point_object (sd_boundary d))),
     (''boundarySource'', case sd_boundarySource d of None \<Rightarrow> JNull | Some source \<Rightarrow> JStr (source_name source)),
     (''reportedHazards'', JObj (map (\<lambda>(hazard, level). (hazard, JStr level)) (sd_reportedHazards d))),
     (''visited'', JArr (map (\<lambda>step. JStr (step_name step)) (sd_visited d)))]"

definition draftKey :: "string \<Rightarrow> string" where
  "draftKey draftOwner = ''vos-intake-draft:'' @ draftOwner"

text \<open>A number of the JSON text too great for a double is read as an infinity.\<close>

definition finite_number :: "json option \<Rightarrow> bool" where
  "finite_number v = (case v of Some (JNum n) \<Rightarrow> is_finite (as_double n) | _ \<Rightarrow> False)"

fun member_of :: "json \<Rightarrow> string \<Rightarrow> json option" where
  "member_of (JObj m) name = oget m name"
| "member_of _ name = None"

definition parcelIn :: "json option \<Rightarrow> json option \<Rightarrow> (json \<times> json) option" where
  "parcelIn storedBoundary storedSource = (case storedBoundary of
     Some (JArr corners) \<Rightarrow>
       if \<not> list_all (\<lambda>corner. finite_number (member_of corner ''latitude'') \<and> finite_number (member_of corner ''longitude'')) corners
       then None
       else if corners = [] then Some (JArr [], JNull)
       else (case storedSource of
         Some (JStr source) \<Rightarrow> if source \<in> {source_name DrawnByHand, source_name GeneratedFromStatedArea}
            then Some (JArr corners, JStr source) else None
       | _ \<Rightarrow> None)
   | _ \<Rightarrow> None)"

definition sharesIn :: "json option \<Rightarrow> json option" where
  "sharesIn stored = (case stored of
     Some (JObj m) \<Rightarrow> if list_all (\<lambda>(_, share). finite_number (Some share)) m then Some (JObj m) else None
   | Some (JArr xs) \<Rightarrow> if list_all (\<lambda>share. finite_number (Some share)) xs then Some (JArr xs) else None
   | _ \<Rightarrow> None)"

definition stepsIn :: "json option \<Rightarrow> json option" where
  "stepsIn stored = (case stored of
     Some (JArr xs) \<Rightarrow> (let steps = filter (\<lambda>x. x \<in> set (map (\<lambda>step. JStr (step_name step)) STEPS)) xs
       in if steps = [] then None else Some (JArr steps))
   | _ \<Rightarrow> None)"

definition checked_draft :: "props \<Rightarrow> string \<Rightarrow> props" where
  "checked_draft parsed submissionId =
     (let empty = draft_object (emptyDraft submissionId);
          loaded = oassign empty parsed;
          (boundary, source) = (case parcelIn (oget parsed ''boundary'') (oget parsed ''boundarySource'') of
             Some held \<Rightarrow> held | None \<Rightarrow> (JArr [], JNull))
      in oput ''visited'' (case stepsIn (oget parsed ''visited'') of Some steps \<Rightarrow> steps | None \<Rightarrow> JArr [JStr (step_name ProjectStep)])
           (oput ''boundarySource'' source (oput ''boundary'' boundary
             (oput ''shares'' (case sharesIn (oget parsed ''shares'') of Some shares \<Rightarrow> shares | None \<Rightarrow> JObj []) loaded))))"

definition loadDraft :: "string \<Rightarrow> (string, string) omap \<Rightarrow> props option" where
  "loadDraft draftOwner storage = (case oget storage (draftKey draftOwner) of
     None \<Rightarrow> None
   | Some stored \<Rightarrow> if stored = [] then None
       else (case json_parse stored of
         Some (JObj parsed) \<Rightarrow> (case oget parsed ''submissionId'' of
            Some (JStr submissionId) \<Rightarrow> Some (checked_draft parsed submissionId)
          | _ \<Rightarrow> None)
       | _ \<Rightarrow> None))"

definition saveDraft :: "string \<Rightarrow> submission_draft \<Rightarrow> (string, string) omap \<Rightarrow> (string, string) omap" where
  "saveDraft draftOwner draft storage = oput (draftKey draftOwner) (json_stringify (JObj (draft_object draft))) storage"

definition clearDraft :: "string \<Rightarrow> (string, string) omap \<Rightarrow> (string, string) omap" where
  "clearDraft draftOwner storage = odel (draftKey draftOwner) storage"

subsection \<open>The draft an object holds\<close>

definition text_at :: "props \<Rightarrow> string \<Rightarrow> string option" where
  "text_at p name = as_string (oget p name)"

definition unit_of :: "string \<Rightarrow> area_unit option" where
  "unit_of s = List.find (\<lambda>unit. unit_name unit = s) [Hectares, Acres]"

definition step_of :: "json \<Rightarrow> step_id option" where
  "step_of x = List.find (\<lambda>step. JStr (step_name step) = x) STEPS"

definition source_of :: "json option \<Rightarrow> boundary_obtained_by option option" where
  "source_of x = (if x = Some JNull then Some None
     else map_option Some (List.find (\<lambda>source. Some (JStr (source_name source)) = x) [DrawnByHand, GeneratedFromStatedArea]))"

definition point_of :: "json \<Rightarrow> boundary_point option" where
  "point_of x = (case (member_of x ''latitude'', member_of x ''longitude'') of
     (Some (JNum latitude), Some (JNum longitude)) \<Rightarrow> Some \<lparr>bp_latitude = latitude, bp_longitude = longitude\<rparr>
   | _ \<Rightarrow> None)"

definition elements_of :: "(json \<Rightarrow> 'a option) \<Rightarrow> json option \<Rightarrow> 'a list option" where
  "elements_of f x = (case x of Some (JArr xs) \<Rightarrow> those (map f xs) | _ \<Rightarrow> None)"

definition object_members :: "(json \<Rightarrow> 'a option) \<Rightarrow> json option \<Rightarrow> (string, 'a) omap option" where
  "object_members f x = (case x of Some (JObj m) \<Rightarrow> those (map (\<lambda>(k, v). map_option (Pair k) (f v)) m) | _ \<Rightarrow> None)"

definition draft_of :: "props \<Rightarrow> submission_draft option" where
  "draft_of p = do {
     submissionId \<leftarrow> text_at p ''submissionId'';
     projectName \<leftarrow> text_at p ''projectName'';
     country \<leftarrow> text_at p ''country'';
     nearestCity \<leftarrow> text_at p ''nearestCity'';
     existingDataNotes \<leftarrow> text_at p ''existingDataNotes'';
     contactName \<leftarrow> text_at p ''contactName'';
     relationshipToProject \<leftarrow> text_at p ''relationshipToProject'';
     emailAddress \<leftarrow> text_at p ''emailAddress'';
     phoneNumber \<leftarrow> text_at p ''phoneNumber'';
     siteName \<leftarrow> text_at p ''siteName'';
     latitude \<leftarrow> text_at p ''latitude'';
     longitude \<leftarrow> text_at p ''longitude'';
     statedArea \<leftarrow> text_at p ''statedArea'';
     areaUnit \<leftarrow> Option.bind (text_at p ''areaUnit'') unit_of;
     population \<leftarrow> text_at p ''population'';
     householdSize \<leftarrow> text_at p ''householdSize'';
     shares \<leftarrow> object_members (\<lambda>v. case v of JNum n \<Rightarrow> Some n | _ \<Rightarrow> None) (oget p ''shares'');
     boundary \<leftarrow> elements_of point_of (oget p ''boundary'');
     boundarySource \<leftarrow> source_of (oget p ''boundarySource'');
     reportedHazards \<leftarrow> object_members (\<lambda>v. as_string (Some v)) (oget p ''reportedHazards'');
     visited \<leftarrow> elements_of step_of (oget p ''visited'');
     Some \<lparr>sd_submissionId = submissionId, sd_projectName = projectName, sd_country = country, sd_nearestCity = nearestCity,
       sd_existingDataNotes = existingDataNotes, sd_contactName = contactName, sd_relationshipToProject = relationshipToProject,
       sd_emailAddress = emailAddress, sd_phoneNumber = phoneNumber, sd_siteName = siteName, sd_latitude = latitude,
       sd_longitude = longitude, sd_statedArea = statedArea, sd_areaUnit = areaUnit, sd_population = population,
       sd_householdSize = householdSize, sd_shares = shares, sd_boundary = boundary, sd_boundarySource = boundarySource,
       sd_reportedHazards = reportedHazards, sd_visited = visited\<rparr>
   }"

subsection \<open>What is saved is read back\<close>

definition storable_number :: "jsnum \<Rightarrow> bool" where
  "storable_number n \<longleftrightarrow> canonical n \<and> is_finite (as_double n)"

definition storable :: "submission_draft \<Rightarrow> bool" where
  "storable d \<longleftrightarrow> okeys_distinct (sd_shares d) \<and> (\<forall>(_, n)\<in>set (sd_shares d). storable_number n)
     \<and> (\<forall>p\<in>set (sd_boundary d). storable_number (bp_latitude p) \<and> storable_number (bp_longitude p))
     \<and> (sd_boundary d \<noteq> [] \<longrightarrow> sd_boundarySource d \<noteq> None)
     \<and> okeys_distinct (sd_reportedHazards d) \<and> sd_visited d \<noteq> []"

text \<open>A boundary of no corners has no origin once it has been read back.\<close>

definition settled :: "submission_draft \<Rightarrow> submission_draft" where
  "settled d = d\<lparr>sd_boundarySource := if sd_boundary d = [] then None else sd_boundarySource d\<rparr>"

lemma plain_draft: "storable d \<Longrightarrow> plain (JObj (draft_object d))"
proof -
  assume d: "storable d"
  have "plain (JObj (map (\<lambda>(category, share). (category, JNum share)) (sd_shares d)))"
    using d by (auto simp: storable_def okeys_distinct_def storable_number_def list_all_iff comp_def case_prod_beta)
  moreover have "plain (JObj (map (\<lambda>(hazard, level). (hazard, JStr level)) (sd_reportedHazards d)))"
    using d by (auto simp: storable_def okeys_distinct_def list_all_iff comp_def case_prod_beta)
  moreover have "plain (JArr (map point_object (sd_boundary d)))"
    using d by (auto simp: storable_def storable_number_def list_all_iff point_object_def)
  moreover have "plain (JArr (map (\<lambda>step. JStr (step_name step)) (sd_visited d)))"
    by (simp add: list_all_iff)
  moreover have "plain (case sd_boundarySource d of None \<Rightarrow> JNull | Some source \<Rightarrow> JStr (source_name source))"
    by (cases "sd_boundarySource d") simp_all
  ultimately show ?thesis by (simp add: draft_object_def del: plain.simps(2,3)) simp
qed

lemma draft_members:
  "oget (draft_object d) ''submissionId'' = Some (JStr (sd_submissionId d))"
  "oget (draft_object d) ''shares'' = Some (JObj (map (\<lambda>(category, share). (category, JNum share)) (sd_shares d)))"
  "oget (draft_object d) ''boundary'' = Some (JArr (map point_object (sd_boundary d)))"
  "oget (draft_object d) ''boundarySource'' = Some (case sd_boundarySource d of None \<Rightarrow> JNull | Some source \<Rightarrow> JStr (source_name source))"
  "oget (draft_object d) ''visited'' = Some (JArr (map (\<lambda>step. JStr (step_name step)) (sd_visited d)))"
  by (simp_all add: draft_object_def)

lemma point_members: "member_of (point_object p) ''latitude'' = Some (JNum (bp_latitude p))"
  "member_of (point_object p) ''longitude'' = Some (JNum (bp_longitude p))"
  by (simp_all add: point_object_def)

lemma parcel_kept:
  assumes "storable d"
  shows "parcelIn (oget (draft_object d) ''boundary'') (oget (draft_object d) ''boundarySource'')
    = Some (JArr (map point_object (sd_boundary d)), case sd_boundarySource (settled d) of None \<Rightarrow> JNull | Some source \<Rightarrow> JStr (source_name source))"
proof -
  have "list_all (\<lambda>corner. finite_number (member_of corner ''latitude'') \<and> finite_number (member_of corner ''longitude''))
      (map point_object (sd_boundary d))"
    using assms by (auto simp: list_all_iff point_members finite_number_def storable_def storable_number_def)
  moreover have "source_name source \<in> {source_name DrawnByHand, source_name GeneratedFromStatedArea}" for source
    by (cases source) simp_all
  ultimately show ?thesis using assms
    by (auto simp: parcelIn_def draft_members settled_def storable_def)
qed

lemma shares_kept:
  "storable d \<Longrightarrow> sharesIn (oget (draft_object d) ''shares'') = oget (draft_object d) ''shares''"
  by (auto simp: sharesIn_def draft_members list_all_iff finite_number_def storable_def storable_number_def)

lemma steps_kept:
  "storable d \<Longrightarrow> stepsIn (oget (draft_object d) ''visited'') = oget (draft_object d) ''visited''"
proof -
  have "step \<in> set STEPS" for step by (cases step) (simp_all add: STEPS_def)
  then show "storable d \<Longrightarrow> ?thesis"
    by (simp add: stepsIn_def draft_members storable_def Let_def)
qed

lemma draft_keys: "okeys_distinct (draft_object d)" "fst ` set (draft_object d) = fst ` set (draft_object d')"
  by (simp_all add: draft_object_def okeys_distinct_def)

text \<open>The object read back has the members of the settled draft.\<close>

lemma checked_members:
  assumes "storable d"
  shows "oget (checked_draft (draft_object d) (sd_submissionId d)) = oget (draft_object (settled d))"
proof -
  have loaded: "oget (oassign (draft_object e) (draft_object d)) = oget (draft_object d)" for e
  proof -
    have "oget (draft_object e) k = None \<longleftrightarrow> oget (draft_object d) k = None" for k
      using draft_keys(2)[of e d] by (simp add: map_of_eq_None_iff)
    then show ?thesis by (auto simp: oget_oassign oget_rev_distinct draft_keys(1) map_add_def fun_eq_iff split: option.splits)
  qed
  have "oget (draft_object (settled d)) = (oget (draft_object d))(''boundarySource'' \<mapsto>
      (case sd_boundarySource (settled d) of None \<Rightarrow> JNull | Some source \<Rightarrow> JStr (source_name source)))"
    by (simp add: draft_object_def settled_def fun_upd_twist)
  then show ?thesis
    unfolding checked_draft_def Let_def parcel_kept[OF assms] shares_kept[OF assms] steps_kept[OF assms]
    by (simp add: loaded draft_members fun_eq_iff)
qed

lemma draft_of_members: "oget p = oget q \<Longrightarrow> draft_of p = draft_of q"
  by (simp add: draft_of_def text_at_def)

lemma those_map_Some: "(\<And>x. x \<in> set xs \<Longrightarrow> f (g x) = Some (h x)) \<Longrightarrow> those (map f (map g xs)) = Some (map h xs)"
  by (induction xs) simp_all

lemma shares_read: "object_members (\<lambda>v. case v of JNum n \<Rightarrow> Some n | _ \<Rightarrow> None)
    (Some (JObj (map (\<lambda>(category, share). (category, JNum share)) shares))) = Some shares"
  unfolding object_members_def option.case json.case by (subst those_map_Some[where h = id]) auto

lemma hazards_read: "object_members (\<lambda>v. as_string (Some v)) (Some (JObj (map (\<lambda>(hazard, level). (hazard, JStr level)) hazards))) = Some hazards"
  unfolding object_members_def option.case json.case by (subst those_map_Some[where h = id]) auto

lemma points_read: "elements_of point_of (Some (JArr (map point_object ps))) = Some ps"
  unfolding elements_of_def option.case json.case by (subst those_map_Some[where h = id]) (auto simp: point_of_def point_members)

lemma steps_read: "elements_of step_of (Some (JArr (map (\<lambda>step. JStr (step_name step)) steps))) = Some steps"
proof -
  have "step_of (JStr (step_name step)) = Some step" for step
    by (cases step) (simp_all add: step_of_def STEPS_def step_name_def)
  then show ?thesis unfolding elements_of_def option.case json.case by (subst those_map_Some[where h = id]) auto
qed

lemma unit_read: "unit_of (unit_name unit) = Some unit"
  by (cases unit) (simp_all add: unit_of_def unit_name_def)

lemma source_read: "source_of (Some (case source of None \<Rightarrow> JNull | Some source \<Rightarrow> JStr (source_name source))) = Some source"
proof (cases source)
  case (Some s)
  then show ?thesis by (cases s) (simp_all add: source_of_def source_name_def)
qed (simp add: source_of_def)

lemma text_read: "as_string (Some (JStr s)) = Some s"
  by simp

lemma draft_of_object: "draft_of (draft_object d) = Some d"
  by (simp add: draft_of_def text_at_def text_read draft_object_def shares_read hazards_read points_read steps_read unit_read source_read)

lemma draft_read_back:
  assumes "storable d"
  shows "Option.bind (loadDraft draftOwner (saveDraft draftOwner d storage)) draft_of = Some (settled d)"
proof -
  have "json_stringify (JObj (draft_object d)) \<noteq> []" using plain_draft[OF assms] by (rule json_text_not_empty)
  then have "loadDraft draftOwner (saveDraft draftOwner d storage) = Some (checked_draft (draft_object d) (sd_submissionId d))"
    by (simp add: loadDraft_def saveDraft_def json_parse_stringify'[OF plain_draft[OF assms]] draft_members)
  then show ?thesis using draft_of_members[OF checked_members[OF assms]] by (simp add: draft_of_object)
qed

text \<open>A draft that is saved is picked up again as it was left: read back from the browser's storage it is an object that
  holds, field by field, the draft that was written, whatever was under the owner's key before; only the origin of a
  boundary that has no corners is forgotten. Nothing kept under another owner's key is touched.\<close>

lemma draft_survives_reload:
  assumes "storable d"
  shows "Option.bind (loadDraft draftOwner (saveDraft draftOwner d storage)) draft_of = Some (settled d)
    \<and> (\<forall>k. k \<noteq> draftKey draftOwner \<longrightarrow> oget (saveDraft draftOwner d storage) k = oget storage k)"
  using draft_read_back[OF assms] by (simp add: saveDraft_def)

theorem draft_survives_reload_witness:
  "Option.bind (loadDraft ''almere'' (saveDraft ''almere'' ((emptyDraft ''s1'')\<lparr>sd_siteName := ''Almere'',
       sd_shares := [(''housing'', Dec 625 (- 1)), (''food'', Dec 375 (- 1))],
       sd_boundary := [\<lparr>bp_latitude = Dec 5235 (- 2), bp_longitude = Dec 52 (- 1)\<rparr>], sd_boundarySource := Some DrawnByHand\<rparr>) [])) draft_of
    = Some ((emptyDraft ''s1'')\<lparr>sd_siteName := ''Almere'', sd_shares := [(''housing'', Dec 625 (- 1)), (''food'', Dec 375 (- 1))],
       sd_boundary := [\<lparr>bp_latitude = Dec 5235 (- 2), bp_longitude = Dec 52 (- 1)\<rparr>], sd_boundarySource := Some DrawnByHand\<rparr>)"
proof -
  let ?d = "(emptyDraft ''s1'')\<lparr>sd_siteName := ''Almere'', sd_shares := [(''housing'', Dec 625 (- 1)), (''food'', Dec 375 (- 1))],
       sd_boundary := [\<lparr>bp_latitude = Dec 5235 (- 2), bp_longitude = Dec 52 (- 1)\<rparr>], sd_boundarySource := Some DrawnByHand\<rparr>"
  have "storable ?d" by code_simp
  from draft_survives_reload [OF this, of "''almere''" "[]"] show ?thesis by (simp add: settled_def)
qed

text \<open>The shares, the boundary and the steps of a stored draft are checked; the hazards reported and the texts are not, and an
  object that holds no draft is handed to the page.\<close>

lemma draft_texts_unchecked:
  "\<exists>p. loadDraft ''o'' [(draftKey ''o'', json_stringify (JObj [(''submissionId'', JStr ''s1''), (''reportedHazards'', JNull)]))] = Some p
     \<and> oget p ''reportedHazards'' = Some JNull \<and> draft_of p = None"
proof -
  let ?m = "[(''submissionId'', JStr ''s1''), (''reportedHazards'', JNull)]"
  have "json_stringify (JObj ?m) \<noteq> []" by (rule json_text_not_empty) simp
  then have "loadDraft ''o'' [(draftKey ''o'', json_stringify (JObj ?m))] = Some (checked_draft ?m ''s1'')"
    by (simp add: loadDraft_def json_parse_stringify')
  moreover have "oget (checked_draft ?m ''s1'') ''reportedHazards'' = Some JNull" by code_simp
  moreover have "draft_of (checked_draft ?m ''s1'') = None" by code_simp
  ultimately show ?thesis by blast
qed

end
