(* ===== verification/IntakeWizard.thy ===== *)
theory IntakeWizard
  imports IntakeDocument
begin

section \<open>The land-intake wizard (intake/IntakeWizard.tsx)\<close>

text \<open>
  The wizard as a machine: the draft is picked up once its owner is known, every change is kept in the browser's
  storage, and a submission is two acts with a person between them, a code asked for and the document posted with the
  code. What is on the network is the state's \<open>wz_request\<close>, and an answer is a step of its own. A stored draft whose fields
  have other types than the draft declares fails the page, so picking it up is no step.
\<close>

subsection \<open>The controls of the steps\<close>

datatype text_field = ProjectName | Country | NearestCity | ExistingDataNotes | ContactName | RelationshipToProject
  | EmailAddress | PhoneNumber | SiteName | Latitude | Longitude | StatedArea | Population | HouseholdSize

fun set_text :: "text_field \<Rightarrow> string \<Rightarrow> submission_draft \<Rightarrow> submission_draft" where
  "set_text ProjectName s d = d\<lparr>sd_projectName := s\<rparr>"
| "set_text Country s d = d\<lparr>sd_country := s\<rparr>"
| "set_text NearestCity s d = d\<lparr>sd_nearestCity := s\<rparr>"
| "set_text ExistingDataNotes s d = d\<lparr>sd_existingDataNotes := s\<rparr>"
| "set_text ContactName s d = d\<lparr>sd_contactName := s\<rparr>"
| "set_text RelationshipToProject s d = d\<lparr>sd_relationshipToProject := s\<rparr>"
| "set_text EmailAddress s d = d\<lparr>sd_emailAddress := s\<rparr>"
| "set_text PhoneNumber s d = d\<lparr>sd_phoneNumber := s\<rparr>"
| "set_text SiteName s d = d\<lparr>sd_siteName := s\<rparr>"
| "set_text Latitude s d = d\<lparr>sd_latitude := s\<rparr>"
| "set_text Longitude s d = d\<lparr>sd_longitude := s\<rparr>"
| "set_text StatedArea s d = d\<lparr>sd_statedArea := s\<rparr>"
| "set_text Population s d = d\<lparr>sd_population := s\<rparr>"
| "set_text HouseholdSize s d = d\<lparr>sd_householdSize := s\<rparr>"

datatype patch = TypedText text_field string
  | ChoseUnit area_unit
  | ReadPosition jsnum jsnum
  | ToggledCategory string bool
  | MovedShare string jsnum
  | UsedDraftedBoundary
  | DrewBoundary "boundary_point list"
  | ClearedBoundary
  | ReportedHazard string string

definition set_boundary :: "boundary_point list \<times> boundary_obtained_by option \<Rightarrow> submission_draft \<Rightarrow> submission_draft" where
  "set_boundary b d = d\<lparr>sd_boundary := fst b, sd_boundarySource := snd b\<rparr>"

text \<open>The draft a control leaves, or nothing where it asks for no change.\<close>

fun patched :: "math_functions \<Rightarrow> patch \<Rightarrow> submission_draft \<Rightarrow> submission_draft option" where
  "patched M (TypedText field s) d = Some (set_text field s d)"
| "patched M (ChoseUnit unit) d = Some (d\<lparr>sd_areaUnit := unit\<rparr>)"
| "patched M (ReadPosition latitude longitude) d = Some (d\<lparr>sd_latitude := num_string latitude, sd_longitude := num_string longitude\<rparr>)"
| "patched M (ToggledCategory category chosen) d = Some (d\<lparr>sd_shares :=
     (if chosen then withCategoryChosen (sd_shares d) category else withCategoryDropped (sd_shares d) category)\<rparr>)"
| "patched M (MovedShare category share) d = Some (d\<lparr>sd_shares := withShareSet (sd_shares d) category share\<rparr>)"
| "patched M UsedDraftedBoundary d = map_option (\<lambda>b. set_boundary b d) (boundaryDrafted M d)"
| "patched M (DrewBoundary boundary) d = Some (set_boundary (boundaryDrawn boundary) d)"
| "patched M ClearedBoundary d = Some (set_boundary boundaryCleared d)"
| "patched M (ReportedHazard hazard level) d = Some (withHazardReported d hazard level)"

text \<open>Whether the change names the address of the contact. The hazards' control hands over the whole draft.\<close>

fun names_address :: "patch \<Rightarrow> bool" where
  "names_address (TypedText field s) = (field = EmailAddress)"
| "names_address (ReportedHazard hazard level) = True"
| "names_address _ = False"

subsection \<open>The state\<close>

datatype intake_request = AskingCode string | Posting props string

record wizard =
  wz_draftOwner :: "string option"
  wz_loadedFor :: "string option"
  wz_draft :: "submission_draft option"
  wz_step :: step_id
  wz_submitting :: bool
  wz_awaitingCode :: bool
  wz_code :: string
  wz_accepted :: "string option"
  wz_storage :: "(string, string) omap"
  wz_request :: "intake_request option"
  wz_sent :: "intake_request list"

definition wizard_start :: "(string, string) omap \<Rightarrow> wizard" where
  "wizard_start storage = \<lparr>wz_draftOwner = None, wz_loadedFor = None, wz_draft = None, wz_step = ProjectStep, wz_submitting = False,
     wz_awaitingCode = False, wz_code = [], wz_accepted = None, wz_storage = storage, wz_request = None, wz_sent = []\<rparr>"

definition save_for :: "string option \<Rightarrow> submission_draft \<Rightarrow> (string, string) omap \<Rightarrow> (string, string) omap" where
  "save_for owner d storage = (case owner of Some o' \<Rightarrow> if o' = [] then storage else saveDraft o' d storage | None \<Rightarrow> storage)"

definition clear_for :: "string option \<Rightarrow> (string, string) omap \<Rightarrow> (string, string) omap" where
  "clear_for owner storage = (case owner of Some o' \<Rightarrow> if o' = [] then storage else clearDraft o' storage | None \<Rightarrow> storage)"

text \<open>The draft is picked up while rendering, once its owner is known.\<close>

definition pick_up :: "string \<Rightarrow> wizard \<Rightarrow> wizard option" where
  "pick_up uuid w = (case wz_draftOwner w of
     None \<Rightarrow> None
   | Some owner \<Rightarrow>
       if wz_loadedFor w = Some owner then None
       else map_option (\<lambda>d. w\<lparr>wz_loadedFor := Some owner, wz_draft := Some d\<rparr>)
         (case loadDraft owner (wz_storage w) of None \<Rightarrow> Some (emptyDraft uuid) | Some p \<Rightarrow> draft_of p))"

definition change :: "math_functions \<Rightarrow> patch \<Rightarrow> wizard \<Rightarrow> wizard option" where
  "change M p w = (case wz_draft w of None \<Rightarrow> None | Some d \<Rightarrow>
     map_option (\<lambda>d'. (if names_address p then w\<lparr>wz_awaitingCode := False, wz_code := []\<rparr> else w)
         \<lparr>wz_draft := Some d', wz_storage := save_for (wz_draftOwner w) d' (wz_storage w)\<rparr>)
       (patched M p d))"

definition goTo :: "step_id \<Rightarrow> wizard \<Rightarrow> wizard option" where
  "goTo step w = (case wz_draft w of None \<Rightarrow> None | Some d \<Rightarrow>
     (let visited = withStepVisited d step in
      Some (w\<lparr>wz_draft := Some visited, wz_step := step,
        wz_storage := (if visited \<noteq> d then save_for (wz_draftOwner w) visited (wz_storage w) else wz_storage w)\<rparr>)))"

definition heldBack :: "bool \<Rightarrow> submission_draft \<Rightarrow> wizard \<Rightarrow> bool" where
  "heldBack configured d w \<longleftrightarrow> wz_submitting w \<or> \<not> configured \<or> \<not> readyToSubmit d \<or> (wz_awaitingCode w \<and> blank (wz_code w))"

definition send_request :: "intake_request \<Rightarrow> wizard \<Rightarrow> wizard" where
  "send_request r w = w\<lparr>wz_submitting := True, wz_request := Some r, wz_sent := wz_sent w @ [r]\<rparr>"

text \<open>The last step's button: the code is asked for, or the document posted with it.\<close>

definition press :: "bool \<Rightarrow> wizard \<Rightarrow> wizard option" where
  "press configured w = (case wz_draft w of None \<Rightarrow> None | Some d \<Rightarrow>
     if wz_step w \<noteq> last STEPS \<or> heldBack configured d w then None
     else Some (send_request (if wz_awaitingCode w then Posting (documentFrom d) (trim (wz_code w))
            else AskingCode (trim (sd_emailAddress d))) w))"

definition code_answered :: "bool \<Rightarrow> wizard \<Rightarrow> wizard option" where
  "code_answered ok w = (case wz_request w of
     Some (AskingCode _) \<Rightarrow> Some ((if ok then w\<lparr>wz_awaitingCode := True\<rparr> else w)\<lparr>wz_submitting := False, wz_request := None\<rparr>)
   | _ \<Rightarrow> None)"

definition submit_answered :: "string option \<Rightarrow> wizard \<Rightarrow> wizard option" where
  "submit_answered reference w = (case wz_request w of
     Some (Posting _ _) \<Rightarrow> Some ((case reference of
         Some r \<Rightarrow> w\<lparr>wz_accepted := Some r, wz_awaitingCode := False, wz_code := [], wz_storage := clear_for (wz_draftOwner w) (wz_storage w)\<rparr>
       | None \<Rightarrow> w)\<lparr>wz_submitting := False, wz_request := None\<rparr>)
   | _ \<Rightarrow> None)"

definition startAnother :: "string \<Rightarrow> wizard \<Rightarrow> wizard" where
  "startAnother uuid w = w\<lparr>wz_accepted := None, wz_awaitingCode := False, wz_code := [], wz_draft := Some (emptyDraft uuid), wz_step := ProjectStep\<rparr>"

subsection \<open>The steps\<close>

datatype wizard_event = OwnerKnown string | Rendered string | Changed patch | WentTo step_id | CodeTyped string | Pressed
  | CodeAnswered bool | SubmitAnswered "string option" | StartedAnother string

text \<open>A step is reached where it has been visited, or is the one before or after the step on screen.\<close>

definition reachable_step :: "submission_draft \<Rightarrow> step_id \<Rightarrow> step_id \<Rightarrow> bool" where
  "reachable_step d here step \<longleftrightarrow> step \<in> set (sd_visited d)
     \<or> (here, step) \<in> set (zip STEPS (tl STEPS)) \<or> (step, here) \<in> set (zip STEPS (tl STEPS))"

definition form_shown :: "wizard \<Rightarrow> bool" where
  "form_shown w \<longleftrightarrow> wz_draft w \<noteq> None \<and> wz_accepted w = None"

fun wizard_next :: "math_functions \<Rightarrow> bool \<Rightarrow> wizard_event \<Rightarrow> wizard \<Rightarrow> wizard option" where
  "wizard_next M configured (OwnerKnown owner) w = (if wz_draftOwner w = None \<and> owner \<noteq> [] then Some (w\<lparr>wz_draftOwner := Some owner\<rparr>) else None)"
| "wizard_next M configured (Rendered uuid) w = pick_up uuid w"
| "wizard_next M configured (Changed p) w = (if form_shown w then change M p w else None)"
| "wizard_next M configured (WentTo step) w = (case wz_draft w of None \<Rightarrow> None
     | Some d \<Rightarrow> if form_shown w \<and> reachable_step d (wz_step w) step then goTo step w else None)"
| "wizard_next M configured (CodeTyped s) w = (if form_shown w \<and> wz_awaitingCode w then Some (w\<lparr>wz_code := s\<rparr>) else None)"
| "wizard_next M configured Pressed w = (if form_shown w then press configured w else None)"
| "wizard_next M configured (CodeAnswered ok) w = code_answered ok w"
| "wizard_next M configured (SubmitAnswered reference) w = submit_answered reference w"
| "wizard_next M configured (StartedAnother uuid) w = (if wz_accepted w \<noteq> None then Some (startAnother uuid w) else None)"

inductive wizard_run :: "math_functions \<Rightarrow> bool \<Rightarrow> (wizard_event \<Rightarrow> wizard \<Rightarrow> bool) \<Rightarrow> (string, string) omap \<Rightarrow> wizard \<Rightarrow> bool"
  for M configured allowed storage where
  opened: "wizard_run M configured allowed storage (wizard_start storage)"
| stepped: "wizard_run M configured allowed storage w \<Longrightarrow> allowed e w \<Longrightarrow> wizard_next M configured e w = Some w'
    \<Longrightarrow> wizard_run M configured allowed storage w'"

text \<open>An invariant of the steps holds wherever a run comes.\<close>

lemma wizard_invariant:
  assumes "wizard_run M configured allowed storage w" and "P (wizard_start storage)"
    and "\<And>w e w'. P w \<Longrightarrow> allowed e w \<Longrightarrow> wizard_next M configured e w = Some w' \<Longrightarrow> P w'"
  shows "P w"
  using assms(1) by (induction rule: wizard_run.induct) (use assms(2,3) in blast)+

subsection \<open>What is posted is complete\<close>

definition document_member :: "props \<Rightarrow> string \<Rightarrow> string \<Rightarrow> json option" where
  "document_member doc part field = Option.bind (oget doc part) (\<lambda>v. member_of v field)"

definition complete_document :: "props \<Rightarrow> bool" where
  "complete_document doc \<longleftrightarrow>
     (\<forall>(part, field)\<in>{(''project'', ''name''), (''contact'', ''name''), (''contact'', ''emailAddress''), (''site'', ''name'')}.
        \<exists>s. document_member doc part field = Some (JStr s) \<and> s \<noteq> [])
     \<and> (\<exists>source corners. document_member doc ''parcel'' ''boundarySource'' = Some (JStr (source_name source))
          \<and> document_member doc ''parcel'' ''boundary'' = Some (JArr corners) \<and> 3 \<le> length corners)"

lemma given_absent: "name \<notin> fst ` set texts \<Longrightarrow> oget (rev (given_texts texts)) name = None"
proof -
  assume "name \<notin> fst ` set texts"
  then have "name \<notin> fst ` set (map (\<lambda>(name, s). (name, JStr (trim s))) (filter (\<lambda>(name, s). \<not> blank s) texts))" by force
  then have "name \<notin> fst ` set (given_texts texts)" by (simp add: given_texts_def of_entries_def)
  then show ?thesis by (simp add: map_of_eq_None_iff)
qed

lemma document_texts:
  "document_member (documentFrom d) ''project'' ''name'' = Some (JStr (trim (sd_projectName d)))"
  "document_member (documentFrom d) ''contact'' ''name'' = Some (JStr (trim (sd_contactName d)))"
  "document_member (documentFrom d) ''contact'' ''emailAddress'' = Some (JStr (trim (sd_emailAddress d)))"
  "document_member (documentFrom d) ''site'' ''name'' = Some (JStr (trim (sd_siteName d)))"
  by (simp_all add: document_member_def documentFrom_def Let_def oget_oassign given_absent map_add_def)

lemma document_parcel:
  assumes "sd_boundarySource d = Some source" and "3 \<le> length (sd_boundary d)"
  shows "document_member (documentFrom d) ''parcel'' ''boundarySource'' = Some (JStr (source_name source))"
    and "document_member (documentFrom d) ''parcel'' ''boundary'' = Some (JArr (map point_object (sd_boundary d)))"
  using assms by (simp_all add: document_member_def documentFrom_def Let_def)

definition origin_known :: "submission_draft \<Rightarrow> bool" where
  "origin_known d \<longleftrightarrow> (sd_boundary d \<noteq> [] \<longrightarrow> sd_boundarySource d \<noteq> None)"

lemma ready_document:
  assumes "readyToSubmit d" and "origin_known d"
  shows "complete_document (documentFrom d)"
proof -
  from assms obtain source where source: "sd_boundarySource d = Some source" and corners: "3 \<le> length (sd_boundary d)"
    by (cases "sd_boundarySource d") (auto simp: readyToSubmit_def enclosesLand_def origin_known_def)
  have "\<exists>source corners. document_member (documentFrom d) ''parcel'' ''boundarySource'' = Some (JStr (source_name source))
      \<and> document_member (documentFrom d) ''parcel'' ''boundary'' = Some (JArr corners) \<and> 3 \<le> length corners"
    using document_parcel[OF source corners] corners by auto
  then show ?thesis using assms(1) by (simp add: complete_document_def document_texts readyToSubmit_def blank_def)
qed

lemma those_length: "those xs = Some ys \<Longrightarrow> length ys = length xs"
  by (induction xs arbitrary: ys) (auto split: option.splits)

lemma draft_of_boundary:
  "draft_of p = Some d \<Longrightarrow> elements_of point_of (oget p ''boundary'') = Some (sd_boundary d)
     \<and> source_of (oget p ''boundarySource'') = Some (sd_boundarySource d)"
  unfolding draft_of_def by (auto simp: Option.bind_eq_Some_conv)

lemma parcel_origin:
  assumes "parcelIn b s = Some (boundary, source)" and "elements_of point_of (Some boundary) = Some ps" and "source_of (Some source) = Some src"
  shows "(ps = []) = (src = None)"
  using assms by (auto simp: parcelIn_def elements_of_def source_of_def dest!: those_length split: option.splits json.splits if_splits)

lemma loaded_origin:
  assumes "loadDraft owner storage = Some p" and "draft_of p = Some d"
  shows "(sd_boundary d = []) = (sd_boundarySource d = None)"
proof -
  obtain parsed submissionId where p: "p = checked_draft parsed submissionId"
    using assms(1) by (auto simp: loadDraft_def split: option.splits json.splits if_splits)
  obtain boundary source where held: "(case parcelIn (oget parsed ''boundary'') (oget parsed ''boundarySource'') of
      Some held \<Rightarrow> held | None \<Rightarrow> (JArr [], JNull)) = (boundary, source)" by fastforce
  have "oget p ''boundary'' = Some boundary" "oget p ''boundarySource'' = Some source"
    by (simp_all add: p checked_draft_def Let_def held)
  with draft_of_boundary[OF assms(2)] have parts: "elements_of point_of (Some boundary) = Some (sd_boundary d)"
    "source_of (Some source) = Some (sd_boundarySource d)" by simp_all
  show ?thesis
  proof (cases "parcelIn (oget parsed ''boundary'') (oget parsed ''boundarySource'')")
    case None
    with held parts show ?thesis by (auto simp: elements_of_def source_of_def)
  next
    case (Some h)
    with held parcel_origin[OF _ parts] show ?thesis by simp
  qed
qed

text \<open>What each step has done.\<close>

lemma owner_known: "wizard_next M configured (OwnerKnown owner) w = Some w' \<Longrightarrow> wz_draftOwner w = None \<and> w' = w\<lparr>wz_draftOwner := Some owner\<rparr>"
  by (auto split: if_splits)

lemma rendered: "wizard_next M configured (Rendered uuid) w = Some w' \<Longrightarrow> \<exists>owner d. wz_draftOwner w = Some owner \<and> wz_loadedFor w \<noteq> Some owner
    \<and> w' = w\<lparr>wz_loadedFor := Some owner, wz_draft := Some d\<rparr>
    \<and> (case loadDraft owner (wz_storage w) of None \<Rightarrow> d = emptyDraft uuid | Some p \<Rightarrow> draft_of p = Some d)"
  by (auto simp: pick_up_def split: option.splits if_splits)

lemma changed: "wizard_next M configured (Changed p) w = Some w' \<Longrightarrow> \<exists>d d'. wz_draft w = Some d \<and> patched M p d = Some d' \<and> wz_accepted w = None
    \<and> w' = (if names_address p then w\<lparr>wz_awaitingCode := False, wz_code := []\<rparr> else w)
        \<lparr>wz_draft := Some d', wz_storage := save_for (wz_draftOwner w) d' (wz_storage w)\<rparr>"
  by (auto simp: change_def form_shown_def split: if_splits option.splits)

lemma went_to: "wizard_next M configured (WentTo step) w = Some w' \<Longrightarrow> \<exists>d. wz_draft w = Some d \<and> wz_accepted w = None
    \<and> w' = w\<lparr>wz_draft := Some (withStepVisited d step), wz_step := step, wz_storage :=
        (if withStepVisited d step \<noteq> d then save_for (wz_draftOwner w) (withStepVisited d step) (wz_storage w) else wz_storage w)\<rparr>"
  by (auto simp: goTo_def Let_def form_shown_def split: if_splits option.splits)

lemma code_typed: "wizard_next M configured (CodeTyped s) w = Some w' \<Longrightarrow> w' = w\<lparr>wz_code := s\<rparr>"
  by (auto split: if_splits)

lemma pressed: "wizard_next M configured Pressed w = Some w' \<Longrightarrow> \<exists>d. wz_draft w = Some d \<and> wz_accepted w = None \<and> \<not> heldBack configured d w
    \<and> w' = send_request (if wz_awaitingCode w then Posting (documentFrom d) (trim (wz_code w)) else AskingCode (trim (sd_emailAddress d))) w"
  by (auto simp: press_def form_shown_def split: if_splits option.splits)

lemma code_answer: "wizard_next M configured (CodeAnswered ok) w = Some w' \<Longrightarrow> \<exists>a. wz_request w = Some (AskingCode a)
    \<and> w' = w\<lparr>wz_awaitingCode := (ok \<or> wz_awaitingCode w), wz_submitting := False, wz_request := None\<rparr>"
  by (cases ok) (auto simp: code_answered_def split: option.splits intake_request.splits)

lemma submit_answer: "wizard_next M configured (SubmitAnswered reference) w = Some w' \<Longrightarrow> \<exists>doc spent. wz_request w = Some (Posting doc spent)
    \<and> w' = (case reference of Some r \<Rightarrow> w\<lparr>wz_accepted := Some r, wz_awaitingCode := False, wz_code := [],
           wz_storage := clear_for (wz_draftOwner w) (wz_storage w)\<rparr> | None \<Rightarrow> w)\<lparr>wz_submitting := False, wz_request := None\<rparr>"
  by (auto simp: submit_answered_def split: option.splits intake_request.splits)

lemma started_another: "wizard_next M configured (StartedAnother uuid) w = Some w' \<Longrightarrow> wz_accepted w \<noteq> None \<and> w' = startAnother uuid w"
  by (auto split: if_splits)

lemmas wizard_steps = owner_known rendered changed went_to code_typed pressed code_answer submit_answer started_another


lemma origin_patched: "origin_known d \<Longrightarrow> patched M p d = Some d' \<Longrightarrow> origin_known d'"
proof (cases p)
  case (TypedText f s)
  assume "origin_known d" "patched M p d = Some d'"
  with TypedText show ?thesis by (cases f) (auto simp: origin_known_def)
qed (auto simp: origin_known_def set_boundary_def boundaryDrafted_def boundaryDrawn_def boundaryCleared_def
      withHazardReported_def Let_def split: option.splits if_splits)

lemma origin_visited [simp]: "origin_known (withStepVisited d step) = origin_known d"
  by (simp add: origin_known_def withStepVisited_def)

lemma origin_empty [simp]: "origin_known (emptyDraft uuid)"
  by (simp add: origin_known_def emptyDraft_def)

fun complete_request :: "intake_request \<Rightarrow> bool" where
  "complete_request (Posting doc spent) = (complete_document doc \<and> spent \<noteq> [])"
| "complete_request (AskingCode a) = True"

definition posts_complete :: "wizard \<Rightarrow> bool" where
  "posts_complete w \<longleftrightarrow> (\<forall>d. wz_draft w = Some d \<longrightarrow> origin_known d) \<and> (\<forall>r\<in>set (wz_sent w). complete_request r)"

lemma posts_complete_step:
  assumes w: "posts_complete w" and step: "wizard_next M configured e w = Some w'"
  shows "posts_complete w'"
proof (cases e)
  case (OwnerKnown owner)
  with owner_known[OF step[unfolded OwnerKnown]] w show ?thesis by (simp add: posts_complete_def)
next
  case (Rendered uuid)
  from rendered[OF step[unfolded Rendered]] obtain owner d where w': "w' = w\<lparr>wz_loadedFor := Some owner, wz_draft := Some d\<rparr>"
    and d: "case loadDraft owner (wz_storage w) of None \<Rightarrow> d = emptyDraft uuid | Some p \<Rightarrow> draft_of p = Some d" by blast
  from d have "origin_known d" using loaded_origin by (auto simp: origin_known_def emptyDraft_def split: option.splits)
  with w w' show ?thesis by (simp add: posts_complete_def)
next
  case (Changed p)
  with changed[OF step[unfolded Changed]] w show ?thesis by (cases "names_address p") (auto simp: posts_complete_def intro: origin_patched)
next
  case (WentTo s)
  with went_to[OF step[unfolded WentTo]] w show ?thesis by (auto simp: posts_complete_def)
next
  case (CodeTyped s)
  with code_typed[OF step[unfolded CodeTyped]] w show ?thesis by (simp add: posts_complete_def)
next
  case Pressed
  with pressed[OF step[unfolded Pressed]] w show ?thesis
    by (auto simp: posts_complete_def send_request_def heldBack_def blank_def ready_document)
next
  case (CodeAnswered ok)
  with code_answer[OF step[unfolded CodeAnswered]] w show ?thesis by (auto simp: posts_complete_def)
next
  case (SubmitAnswered reference)
  with submit_answer[OF step[unfolded SubmitAnswered]] w show ?thesis by (cases reference) (auto simp: posts_complete_def)
next
  case (StartedAnother uuid)
  with started_another[OF step[unfolded StartedAnother]] w show ?thesis by (simp add: posts_complete_def startAnother_def)
qed

lemma posts_complete_start: "posts_complete (wizard_start storage)"
  by (simp add: posts_complete_def wizard_start_def)

text \<open>C16. Whatever the person does, every document the wizard posts is one the service can take: it names the project, the
  contact, an address and the site, none of them blank, it carries a parcel of at least three corners that says how the
  boundary came to be, and it goes with a code.\<close>

theorem posted_documents_complete:
  assumes "wizard_run M configured allowed storage w" and "Posting doc spent \<in> set (wz_sent w)"
  shows "complete_document doc \<and> spent \<noteq> []"
proof -
  have "posts_complete w"
    using assms(1) posts_complete_start posts_complete_step by (rule wizard_invariant)
  with assms(2) show ?thesis by (auto simp: posts_complete_def)
qed

subsection \<open>A code is spent for the address it was sent to\<close>

text \<open>The address of the last code that was asked for.\<close>

fun asked_address :: "intake_request list \<Rightarrow> string option" where
  "asked_address [] = None"
| "asked_address (r # rs) = (case asked_address rs of Some a \<Rightarrow> Some a
     | None \<Rightarrow> (case r of AskingCode a \<Rightarrow> Some a | Posting _ _ \<Rightarrow> None))"

text \<open>The address is left alone while an answer is awaited.\<close>

fun patient :: "wizard_event \<Rightarrow> wizard \<Rightarrow> bool" where
  "patient (Changed (TypedText field s)) w = (field = EmailAddress \<longrightarrow> wz_request w = None)"
| "patient _ w = True"

text \<open>A draft is there once it was picked up for its owner, one request is on its way at a time, and none is once a
  submission was accepted.\<close>

definition picked_up :: "wizard \<Rightarrow> bool" where
  "picked_up w \<longleftrightarrow> (wz_loadedFor w = None \<longrightarrow> wz_draft w = None \<and> \<not> wz_awaitingCode w \<and> wz_request w = None \<and> wz_accepted w = None)
     \<and> (wz_loadedFor w \<noteq> None \<longrightarrow> wz_loadedFor w = wz_draftOwner w \<and> wz_draft w \<noteq> None)
     \<and> (wz_request w \<noteq> None \<longrightarrow> wz_submitting w) \<and> (wz_accepted w \<noteq> None \<longrightarrow> wz_request w = None)"

lemma picked_up_step:
  assumes w: "picked_up w" and step: "wizard_next M configured e w = Some w'"
  shows "picked_up w'"
proof (cases e)
  case (OwnerKnown owner)
  with owner_known[OF step[unfolded OwnerKnown]] w show ?thesis by (auto simp: picked_up_def)
next
  case (Rendered uuid)
  with rendered[OF step[unfolded Rendered]] w show ?thesis by (auto simp: picked_up_def)
next
  case (Changed p)
  with changed[OF step[unfolded Changed]] w show ?thesis by (cases "names_address p") (auto simp: picked_up_def)
next
  case (WentTo s)
  with went_to[OF step[unfolded WentTo]] w show ?thesis by (auto simp: picked_up_def)
next
  case (CodeTyped s)
  with code_typed[OF step[unfolded CodeTyped]] w show ?thesis by (auto simp: picked_up_def)
next
  case Pressed
  with pressed[OF step[unfolded Pressed]] w show ?thesis by (auto simp: picked_up_def send_request_def)
next
  case (CodeAnswered ok)
  with code_answer[OF step[unfolded CodeAnswered]] w show ?thesis by (auto simp: picked_up_def)
next
  case (SubmitAnswered reference)
  with submit_answer[OF step[unfolded SubmitAnswered]] w show ?thesis by (cases reference) (auto simp: picked_up_def)
next
  case (StartedAnother uuid)
  with started_another[OF step[unfolded StartedAnother]] w show ?thesis by (auto simp: picked_up_def startAnother_def)
qed

lemma asked_address_snoc [simp]: "asked_address (rs @ [AskingCode a]) = Some a"
  "asked_address (rs @ [Posting doc spent]) = asked_address rs"
  by (induction rs) auto

definition code_for_draft :: "wizard \<Rightarrow> bool" where
  "code_for_draft w \<longleftrightarrow> (\<forall>d. wz_draft w = Some d \<longrightarrow> wz_awaitingCode w \<or> (\<exists>a. wz_request w = Some (AskingCode a)) \<longrightarrow>
     asked_address (wz_sent w) = Some (trim (sd_emailAddress d)))"

definition posted_to_asked :: "intake_request list \<Rightarrow> bool" where
  "posted_to_asked rs \<longleftrightarrow> (\<forall>i doc spent. i < length rs \<longrightarrow> rs ! i = Posting doc spent \<longrightarrow>
     (\<exists>a. asked_address (take i rs) = Some a \<and> document_member doc ''contact'' ''emailAddress'' = Some (JStr a)))"

lemma posted_to_asked_snoc: "posted_to_asked (rs @ [r]) \<longleftrightarrow> posted_to_asked rs
    \<and> (\<forall>doc spent. r = Posting doc spent \<longrightarrow> (\<exists>a. asked_address rs = Some a \<and> document_member doc ''contact'' ''emailAddress'' = Some (JStr a)))"
  by (auto simp: posted_to_asked_def nth_append less_Suc_eq)

lemma address_patched:
  "patched M p d = Some d' \<Longrightarrow> \<not> (\<exists>s. p = TypedText EmailAddress s) \<Longrightarrow> sd_emailAddress d' = sd_emailAddress d"
proof (cases p)
  case (TypedText f s)
  assume "patched M p d = Some d'" "\<not> (\<exists>s. p = TypedText EmailAddress s)"
  with TypedText show ?thesis by (cases f) auto
qed (auto simp: set_boundary_def withHazardReported_def)

lemma address_visited [simp]: "sd_emailAddress (withStepVisited d step) = sd_emailAddress d"
  by (simp add: withStepVisited_def)

definition code_kept :: "wizard \<Rightarrow> bool" where
  "code_kept w \<longleftrightarrow> picked_up w \<and> code_for_draft w \<and> posted_to_asked (wz_sent w)"

lemma code_kept_changed:
  assumes "code_kept w" and "patient (Changed p) w" and "wizard_next M configured (Changed p) w = Some w'"
  shows "code_kept w'"
proof -
  have up: "picked_up w'" using picked_up_step[OF _ assms(3)] assms(1) by (simp add: code_kept_def)
  from changed[OF assms(3)] obtain d d' where d: "wz_draft w = Some d" "patched M p d = Some d'" and w': "w' =
      (if names_address p then w\<lparr>wz_awaitingCode := False, wz_code := []\<rparr> else w)
        \<lparr>wz_draft := Some d', wz_storage := save_for (wz_draftOwner w) d' (wz_storage w)\<rparr>" by blast
  have "code_for_draft w'"
  proof (cases "\<exists>s. p = TypedText EmailAddress s")
    case True
    with assms(2) w' show ?thesis by (auto simp: code_for_draft_def)
  next
    case False
    with address_patched[OF d(2)] d(1) assms(1) w' show ?thesis by (auto simp: code_for_draft_def code_kept_def)
  qed
  with up w' assms(1) show ?thesis by (simp add: code_kept_def)
qed

lemma code_kept_step:
  assumes "code_kept w" and "patient e w" and "wizard_next M configured e w = Some w'"
  shows "code_kept w'"
proof -
  have up: "picked_up w" "picked_up w'" using picked_up_step[OF _ assms(3)] assms(1) by (simp_all add: code_kept_def)
  note step = assms(3)
  from assms(1) have w: "code_for_draft w" "posted_to_asked (wz_sent w)" by (simp_all add: code_kept_def)
  have "code_for_draft w' \<and> posted_to_asked (wz_sent w')"
  proof (cases e)
    case (OwnerKnown owner)
    with owner_known[OF step[unfolded OwnerKnown]] w show ?thesis by (auto simp: code_for_draft_def)
  next
    case (Rendered uuid)
    with rendered[OF step[unfolded Rendered]] w up(1) show ?thesis by (auto simp: code_for_draft_def picked_up_def)
  next
    case (Changed p)
    then have "code_kept w'" using code_kept_changed[OF assms(1)] assms(2,3) by blast
    then show ?thesis by (simp add: code_kept_def)
  next
    case (WentTo s)
    with went_to[OF step[unfolded WentTo]] w show ?thesis by (auto simp: code_for_draft_def)
  next
    case (CodeTyped s)
    with code_typed[OF step[unfolded CodeTyped]] w show ?thesis by (auto simp: code_for_draft_def)
  next
    case Pressed
    with pressed[OF step[unfolded Pressed]] w show ?thesis
      by (cases "wz_awaitingCode w") (auto simp: code_for_draft_def send_request_def posted_to_asked_snoc document_texts)
  next
    case (CodeAnswered ok)
    with code_answer[OF step[unfolded CodeAnswered]] w show ?thesis by (auto simp: code_for_draft_def)
  next
    case (SubmitAnswered reference)
    with submit_answer[OF step[unfolded SubmitAnswered]] w show ?thesis by (cases reference) (auto simp: code_for_draft_def)
  next
    case (StartedAnother uuid)
    with started_another[OF step[unfolded StartedAnother]] w up(1) show ?thesis
      by (auto simp: code_for_draft_def startAnother_def picked_up_def)
  qed
  with up(2) show ?thesis by (simp add: code_kept_def)
qed

lemma code_kept_start: "code_kept (wizard_start storage)"
  by (simp add: code_kept_def picked_up_def code_for_draft_def posted_to_asked_def wizard_start_def)

text \<open>C15. A code is spent for the address it was sent to: as long as nobody retypes the address while an answer is awaited,
  every document the wizard posts names, as its contact's address, the one the last code before it was asked for, and
  the box for a code is offered only while the draft still names that address.\<close>

theorem code_spent_for_its_address:
  assumes "wizard_run M configured patient storage w"
  shows "posted_to_asked (wz_sent w)
    \<and> (\<forall>d. wz_draft w = Some d \<longrightarrow> wz_awaitingCode w \<longrightarrow> asked_address (wz_sent w) = Some (trim (sd_emailAddress d)))"
proof -
  have "code_kept w"
    using assms code_kept_start code_kept_step by (rule wizard_invariant)
  then show ?thesis by (auto simp: code_kept_def code_for_draft_def)
qed

subsection \<open>Runs that are played\<close>

fun play :: "math_functions \<Rightarrow> bool \<Rightarrow> (wizard_event \<Rightarrow> wizard \<Rightarrow> bool) \<Rightarrow> wizard_event list \<Rightarrow> wizard \<Rightarrow> wizard option" where
  "play M configured allowed [] w = Some w"
| "play M configured allowed (e # es) w = (if \<not> allowed e w then None
     else (case wizard_next M configured e w of None \<Rightarrow> None | Some w' \<Rightarrow> play M configured allowed es w'))"

lemma played_run:
  "play M configured allowed es w = Some w' \<Longrightarrow> wizard_run M configured allowed storage w \<Longrightarrow> wizard_run M configured allowed storage w'"
proof (induction es arbitrary: w)
  case (Cons e es)
  then show ?case by (auto split: if_splits option.splits intro: wizard_run.stepped)
qed simp

text \<open>A submission filled in, a code asked for and spent.\<close>

definition plain_functions :: math_functions where
  "plain_functions = \<lparr>mf_sin = (\<lambda>x. x), mf_cos = (\<lambda>x. x), mf_sqrt = (\<lambda>x. x)\<rparr>"

definition a_corner :: "int \<Rightarrow> int \<Rightarrow> boundary_point" where
  "a_corner latitude longitude = \<lparr>bp_latitude = Dec latitude (- 2), bp_longitude = Dec longitude (- 2)\<rparr>"

definition filled_in :: "wizard_event list" where
  "filled_in = [OwnerKnown ''almere'', Rendered ''s1'', Changed (TypedText ProjectName ''Oosterwold''), Changed (TypedText ContactName ''Ada''),
     Changed (TypedText EmailAddress '' ada@example.org ''), Changed (TypedText SiteName ''Plot 4''),
     Changed (DrewBoundary [a_corner 5235 521, a_corner 5236 521, a_corner 5236 523]),
     WentTo ContactStep, WentTo LocationStep, WentTo ProgrammeStep, WentTo ParcelStep, WentTo HazardsStep, Pressed]"

definition sent_in :: "wizard_event list" where
  "sent_in = filled_in @ [CodeAnswered True, CodeTyped ''1234'', Pressed]"

lemmas wizard_eval = filled_in_def sent_in_def wizard_start_def pick_up_def loadDraft_def change_def goTo_def press_def heldBack_def
  send_request_def code_answered_def form_shown_def emptyDraft_def set_boundary_def boundaryDrawn_def
 
  withStepVisited_def reachable_step_def STEPS_def readyToSubmit_def enclosesLand_def blank_def

lemma trimmed: "trim ''Oosterwold'' = ''Oosterwold''" "trim ''Ada'' = ''Ada''" "trim '' ada@example.org '' = ''ada@example.org''"
  "trim ''Plot 4'' = ''Plot 4''" "trim ''1234'' = ''1234''" "trim ''eve@example.org'' = ''eve@example.org''"
  by code_simp+

lemma play_append: "play M configured allowed (es @ fs) w = Option.bind (play M configured allowed es w) (play M configured allowed fs)"
  by (induction es arbitrary: w) (auto split: option.splits)

text \<open>Where the run stands while the code is on its way.\<close>

definition awaiting_answer :: "submission_draft \<Rightarrow> wizard \<Rightarrow> bool" where
  "awaiting_answer d w \<longleftrightarrow> wz_draft w = Some d \<and> readyToSubmit d \<and> sd_emailAddress d = '' ada@example.org '' \<and> wz_accepted w = None
     \<and> storable d \<and> wz_loadedFor w = Some ''almere'' \<and> wz_step w = HazardsStep \<and> wz_request w = Some (AskingCode ''ada@example.org'') \<and> wz_sent w = [AskingCode ''ada@example.org'']"

lemma filled_played: "\<exists>w d. play plain_functions True patient filled_in (wizard_start []) = Some w \<and> awaiting_answer d w"
proof -
  have "storable_number (Dec 5235 (- 2)) \<and> storable_number (Dec 5236 (- 2)) \<and> storable_number (Dec 521 (- 2)) \<and> storable_number (Dec 523 (- 2))"
    by code_simp
  then show ?thesis by (simp add: wizard_eval trimmed Let_def awaiting_answer_def storable_def a_corner_def okeys_distinct_def)
qed

lemma patient_played: "play M configured patient es w = Some w' \<Longrightarrow> play M configured (\<lambda>_ _. True) es w = Some w'"
  by (induction es arbitrary: w) (auto split: if_splits option.splits)

lemma sent_played:
  "\<exists>w d. play plain_functions True patient sent_in (wizard_start []) = Some w
     \<and> wz_sent w = [AskingCode ''ada@example.org'', Posting (documentFrom d) ''1234'']"
proof -
  obtain w d where w: "play plain_functions True patient filled_in (wizard_start []) = Some w" "awaiting_answer d w"
    using filled_played by blast
  have "\<exists>v. play plain_functions True patient [CodeAnswered True, CodeTyped ''1234'', Pressed] w = Some v
      \<and> wz_sent v = [AskingCode ''ada@example.org'', Posting (documentFrom d) ''1234'']"
    using w(2) by (simp add: awaiting_answer_def code_answered_def form_shown_def press_def heldBack_def send_request_def
        STEPS_def blank_def trimmed)
  with w(1) show ?thesis by (auto simp: sent_in_def play_append)
qed

lemma sent_run:
  obtains w d where "wizard_run plain_functions True patient [] w"
    and "wz_sent w = [AskingCode ''ada@example.org'', Posting (documentFrom d) ''1234'']"
  using sent_played played_run wizard_run.opened by meson

theorem posted_documents_complete_witness: "\<exists>d. complete_document (documentFrom d) \<and> ''1234'' \<noteq> []"
proof -
  obtain w d where "wizard_run plain_functions True patient [] w"
    and "wz_sent w = [AskingCode ''ada@example.org'', Posting (documentFrom d) ''1234'']" by (rule sent_run)
  then show ?thesis using posted_documents_complete [of plain_functions True patient "[]" w "documentFrom d" "''1234''"] by auto
qed

theorem code_spent_for_its_address_witness:
  "\<exists>d. document_member (documentFrom d) ''contact'' ''emailAddress'' = Some (JStr ''ada@example.org'')"
proof -
  obtain w d where run: "wizard_run plain_functions True patient [] w"
    and sent: "wz_sent w = [AskingCode ''ada@example.org'', Posting (documentFrom d) ''1234'']" by (rule sent_run)
  from code_spent_for_its_address [OF run] have "posted_to_asked (wz_sent w)" by blast
  then have "\<exists>a. asked_address (take 1 (wz_sent w)) = Some a \<and> document_member (documentFrom d) ''contact'' ''emailAddress'' = Some (JStr a)"
    unfolding posted_to_asked_def sent by (auto dest: spec[of _ 1])
  then show ?thesis by (auto simp: sent)
qed

text \<open>Retyped while the code is on its way, the address is offered the box for a code another address was sent: the answer to the
  first act sets what the change of the address had reset, and the document goes out with a code that is not for it.\<close>

definition impatient :: "wizard_event list" where
  "impatient = filled_in @ [Changed (TypedText EmailAddress ''eve@example.org''), CodeAnswered True, CodeTyped ''1234'', Pressed]"

lemma code_for_another_address:
  "\<exists>w d. wizard_run plain_functions True (\<lambda>_ _. True) [] w
     \<and> wz_sent w = [AskingCode ''ada@example.org'', Posting (documentFrom d) ''1234'']
     \<and> document_member (documentFrom d) ''contact'' ''emailAddress'' = Some (JStr ''eve@example.org'')"
proof -
  obtain w d where w: "play plain_functions True patient filled_in (wizard_start []) = Some w" "awaiting_answer d w"
    using filled_played by blast
  let ?d = "d\<lparr>sd_emailAddress := ''eve@example.org''\<rparr>"
  have "readyToSubmit ?d" using w(2) by (simp add: awaiting_answer_def readyToSubmit_def blank_def trimmed)
  then have "\<exists>v. play plain_functions True (\<lambda>_ _. True)
        [Changed (TypedText EmailAddress ''eve@example.org''), CodeAnswered True, CodeTyped ''1234'', Pressed] w = Some v
      \<and> wz_sent v = [AskingCode ''ada@example.org'', Posting (documentFrom ?d) ''1234'']"
    using w(2) by (simp add: awaiting_answer_def change_def code_answered_def form_shown_def press_def heldBack_def
        send_request_def STEPS_def blank_def trimmed)
  with patient_played[OF w(1)] obtain v where v: "play plain_functions True (\<lambda>_ _. True) impatient (wizard_start []) = Some v"
    "wz_sent v = [AskingCode ''ada@example.org'', Posting (documentFrom ?d) ''1234'']"
    by (auto simp: impatient_def play_append)
  have "document_member (documentFrom ?d) ''contact'' ''emailAddress'' = Some (JStr ''eve@example.org'')"
    by (simp add: document_texts trimmed)
  with v played_run[OF v(1) wizard_run.opened] show ?thesis by blast
qed

text \<open>Marking a hazard hands over the whole draft, the unchanged address in it, so a code that was asked for is dropped.\<close>

lemma hazard_drops_code:
  "wizard_next M configured (Changed (ReportedHazard hazard level)) w = Some w' \<Longrightarrow> \<not> wz_awaitingCode w' \<and> wz_code w' = []"
  using changed by fastforce

subsection \<open>The form survives a reload\<close>

definition kept_in :: "(string, string) omap \<Rightarrow> string \<Rightarrow> submission_draft \<Rightarrow> bool" where
  "kept_in storage owner d \<longleftrightarrow> (\<exists>uuid. d = emptyDraft uuid) \<and> loadDraft owner storage = None
     \<or> oget storage (draftKey owner) = Some (json_stringify (JObj (draft_object d)))
     \<or> Option.bind (loadDraft owner storage) draft_of = Some d"

definition form_kept :: "wizard \<Rightarrow> bool" where
  "form_kept w \<longleftrightarrow> picked_up w \<and> wz_draftOwner w \<noteq> Some []
     \<and> (\<forall>owner. wz_loadedFor w = Some owner \<longrightarrow>
          (wz_accepted w \<noteq> None \<longrightarrow> oget (wz_storage w) (draftKey owner) = None)
          \<and> (\<forall>d. wz_accepted w = None \<longrightarrow> wz_draft w = Some d \<longrightarrow> kept_in (wz_storage w) owner d))"

lemma kept_saved: "kept_in (saveDraft owner d storage) owner d"
  by (simp add: kept_in_def saveDraft_def)

lemma kept_read:
  assumes "kept_in storage owner d" and "storable d"
  shows "(\<exists>uuid. d = emptyDraft uuid) \<and> loadDraft owner storage = None
    \<or> (\<exists>p. loadDraft owner storage = Some p \<and> draft_of p = Some (settled d))"
proof -
  consider "(\<exists>uuid. d = emptyDraft uuid) \<and> loadDraft owner storage = None"
    | "oget storage (draftKey owner) = Some (json_stringify (JObj (draft_object d)))"
    | p where "loadDraft owner storage = Some p" "draft_of p = Some d"
    using assms(1) unfolding kept_in_def by (auto simp: Option.bind_eq_Some_conv)
  then show ?thesis
  proof cases
    case 2
    have "loadDraft owner storage = loadDraft owner (saveDraft owner d storage)"
      unfolding loadDraft_def saveDraft_def oget_oput 2 by simp
    with draft_read_back[OF assms(2), of owner storage] show ?thesis by (auto simp: Option.bind_eq_Some_conv)
  next
    case 3
    with loaded_origin have "settled d = d" by (auto simp: settled_def)
    with 3 show ?thesis by simp
  qed blast
qed

lemma form_kept_changed:
  assumes "form_kept w" and "wizard_next M configured (Changed p) w = Some w'"
  shows "form_kept w'"
proof -
  from changed[OF assms(2)] obtain d d' where d: "wz_draft w = Some d" "wz_accepted w = None" and w': "w' =
      (if names_address p then w\<lparr>wz_awaitingCode := False, wz_code := []\<rparr> else w)
        \<lparr>wz_draft := Some d', wz_storage := save_for (wz_draftOwner w) d' (wz_storage w)\<rparr>" by blast
  have up: "picked_up w" "picked_up w'" using picked_up_step[OF _ assms(2)] assms(1) by (simp_all add: form_kept_def)
  obtain owner where owner: "wz_draftOwner w = Some owner" "wz_loadedFor w = Some owner"
    using up(1) d unfolding picked_up_def by (cases "wz_loadedFor w") simp_all
  with assms(1) have "owner \<noteq> []" by (auto simp: form_kept_def)
  with owner have "save_for (wz_draftOwner w) d' (wz_storage w) = saveDraft owner d' (wz_storage w)" by (simp add: save_for_def)
  with owner w' d up(2) assms(1) show ?thesis by (simp add: form_kept_def kept_saved)
qed

lemma form_kept_step:
  assumes w: "form_kept w" and step: "wizard_next M configured e w = Some w'"
  shows "form_kept w'"
proof -
  have up: "picked_up w" "picked_up w'" using picked_up_step[OF _ step] w by (simp_all add: form_kept_def)
  show ?thesis
  proof (cases e)
    case (OwnerKnown owner)
    with owner_known[OF step[unfolded OwnerKnown]] step w up show ?thesis by (auto simp: form_kept_def split: if_splits)
  next
    case (Rendered uuid)
    from rendered[OF step[unfolded Rendered]] obtain owner d where w': "w' = w\<lparr>wz_loadedFor := Some owner, wz_draft := Some d\<rparr>"
      and owner: "wz_draftOwner w = Some owner" "wz_loadedFor w \<noteq> Some owner"
      and d: "case loadDraft owner (wz_storage w) of None \<Rightarrow> d = emptyDraft uuid | Some p \<Rightarrow> draft_of p = Some d" by blast
    from d have "kept_in (wz_storage w) owner d" by (cases "loadDraft owner (wz_storage w)") (auto simp: kept_in_def)
    moreover have "wz_accepted w = None" using owner up(1) by (auto simp: picked_up_def)
    ultimately show ?thesis using w' w up(2) by (simp add: form_kept_def)
  next
    case (Changed p)
    with form_kept_changed[OF w] step show ?thesis by blast
  next
    case (WentTo s)
    with went_to[OF step[unfolded WentTo]] w up show ?thesis
      by (auto simp: form_kept_def save_for_def kept_saved picked_up_def)
  next
    case (CodeTyped s)
    with code_typed[OF step[unfolded CodeTyped]] w up show ?thesis by (auto simp: form_kept_def)
  next
    case Pressed
    with pressed[OF step[unfolded Pressed]] w up show ?thesis by (auto simp: form_kept_def send_request_def)
  next
    case (CodeAnswered ok)
    with code_answer[OF step[unfolded CodeAnswered]] w up show ?thesis by (auto simp: form_kept_def)
  next
    case (SubmitAnswered reference)
    with submit_answer[OF step[unfolded SubmitAnswered]] w up show ?thesis
      by (cases reference) (auto simp: form_kept_def clear_for_def clearDraft_def picked_up_def)
  next
    case (StartedAnother uuid)
    with started_another[OF step[unfolded StartedAnother]] w up show ?thesis
      by (auto simp: form_kept_def startAnother_def kept_in_def loadDraft_def)
  qed
qed

text \<open>A page opened anew over the same storage.\<close>

definition reopened :: "string \<Rightarrow> wizard \<Rightarrow> wizard" where
  "reopened owner w = (wizard_start (wz_storage w))\<lparr>wz_draftOwner := Some owner\<rparr>"


end
