(* ===== verification/ExploreState.thy ===== *)
theory ExploreState
  imports IntakeDocument
begin

section \<open>The plot-first exploration (explore/exploreState.ts)\<close>

text \<open>
  What the explore page holds: a pin, a boundary fetched from a land register or drawn, a name and an address, and the
  dials of the report. What is posted is the same document as the wizard's, under one identifier for the life of the
  exploration. The default name of a site is a translation, the parameter \<open>tr\<close>, of its two coordinates spelled out.
\<close>

datatype explore_boundary_source = FetchedFromRegister | DrawnOnMap

definition explore_source_name :: "explore_boundary_source \<Rightarrow> string" where
  "explore_source_name source = (case source of FetchedFromRegister \<Rightarrow> ''fetched-from-register'' | DrawnOnMap \<Rightarrow> ''drawn-by-hand'')"

datatype position_source = FromMap | FromPlaceSearch | FromDevice

record explore_state =
  es_submissionId :: string
  es_position :: "boundary_point option"
  es_positionSource :: "position_source option"
  es_boundary :: "boundary_point list"
  es_boundarySource :: "explore_boundary_source option"
  es_boundaryAttribution :: "string option"
  es_siteName :: string
  es_contactName :: string
  es_emailAddress :: string
  es_population :: string
  es_householdSize :: string
  es_shares :: shares
  es_reportedHazards :: "(string, string) omap"

definition emptyExplore :: "string \<Rightarrow> explore_state" where
  "emptyExplore submissionId = \<lparr>es_submissionId = submissionId, es_position = None, es_positionSource = None, es_boundary = [],
     es_boundarySource = None, es_boundaryAttribution = None, es_siteName = [], es_contactName = [], es_emailAddress = [],
     es_population = [], es_householdSize = [], es_shares = [], es_reportedHazards = []\<rparr>"

text \<open>The default programme the form's options state, a share per category.\<close>

definition seededShares :: "(string \<times> jsnum) list \<Rightarrow> shares" where
  "seededShares defaultProgramme = of_entries (map (\<lambda>(category, sharePercent). (category, sharePercent)) defaultProgramme)"

text \<open>\<open>Number.prototype.toFixed\<close>: the nearest decimal of so many places, the greater one where two are as near.\<close>

definition to_fixed :: "nat \<Rightarrow> jsnum \<Rightarrow> string" where
  "to_fixed places n = (case n of
     Dec m e \<Rightarrow> if dec_le 1 21 \<bar>m\<bar> e then num_string n
       else (case quotient \<bar>m\<bar> e of (a, b) \<Rightarrow>
         let k = (2 * a * 10 ^ places + b) div (2 * b); ds = nat_digits (nat k);
             padded = replicate (Suc places - length ds) (CHR ''0'') @ ds; whole = length padded - places
         in (if m < 0 then ''-'' else '''') @ take whole padded @ (if places = 0 then '''' else ''.'' @ drop whole padded))
   | _ \<Rightarrow> num_string n)"

definition defaultSiteName :: "(string \<Rightarrow> string \<Rightarrow> string) \<Rightarrow> boundary_point \<Rightarrow> string" where
  "defaultSiteName tr position = tr (to_fixed 4 (bp_latitude position)) (to_fixed 4 (bp_longitude position))"

definition withPosition :: "(string \<Rightarrow> string \<Rightarrow> string) \<Rightarrow> explore_state \<Rightarrow> boundary_point \<Rightarrow> position_source \<Rightarrow> explore_state" where
  "withPosition tr s position placedBy = s\<lparr>es_position := Some position, es_positionSource := Some placedBy, es_boundary := [],
     es_boundarySource := None, es_boundaryAttribution := None, es_siteName := defaultSiteName tr position\<rparr>"

definition withFetchedBoundary :: "explore_state \<Rightarrow> boundary_point list \<Rightarrow> string option \<Rightarrow> explore_state" where
  "withFetchedBoundary s boundary attribution = s\<lparr>es_boundary := boundary, es_boundarySource := Some FetchedFromRegister,
     es_boundaryAttribution := attribution\<rparr>"

definition withDrawnBoundary :: "explore_state \<Rightarrow> boundary_point list \<Rightarrow> explore_state" where
  "withDrawnBoundary s boundary = s\<lparr>es_boundary := boundary, es_boundarySource := Some DrawnOnMap, es_boundaryAttribution := None\<rparr>"

definition withBoundaryCleared :: "explore_state \<Rightarrow> explore_state" where
  "withBoundaryCleared s = s\<lparr>es_boundary := [], es_boundarySource := None, es_boundaryAttribution := None\<rparr>"

definition landDescribed :: "explore_state \<Rightarrow> bool" where
  "landDescribed s \<longleftrightarrow> es_position s \<noteq> None \<and> enclosesLand (es_boundary s)"

definition explore_ready :: "explore_state \<Rightarrow> bool" where
  "explore_ready s \<longleftrightarrow> landDescribed s \<and> list_all (\<lambda>t. \<not> blank t) [es_siteName s, es_contactName s, es_emailAddress s]"

definition dialled_number :: "string \<Rightarrow> jsnum option" where
  "dialled_number typed = (let txt = trim typed in
     if txt = [] then None
     else (let n = as_double (string_number txt) in if is_finite n \<and> num_le (Dec 0 0) n then Some n else None))"

text \<open>\<open>Math.round\<close>: the nearest whole number, the greater of two as near.\<close>

definition math_round :: "jsnum \<Rightarrow> jsnum" where
  "math_round n = (case n of Dec m e \<Rightarrow> (case quotient m e of (a, b) \<Rightarrow> number_of_quotient ((2 * a + b) div (2 * b)) 1) | _ \<Rightarrow> n)"

definition dialled_whole :: "string \<Rightarrow> jsnum option" where
  "dialled_whole typed = map_option math_round (dialled_number typed)"

definition explore_document :: "explore_state \<Rightarrow> props" where
  "explore_document s =
     (let allocations = allocations_of (es_shares s); hazards = hazards_of (es_reportedHazards s)
      in [(''submissionId'', JStr (es_submissionId s)),
          (''project'', JObj [(''name'', JStr (trim (es_siteName s) @ '' exploration''))]),
          (''contact'', JObj [(''name'', JStr (trim (es_contactName s))), (''emailAddress'', JStr (trim (es_emailAddress s)))]),
          (''site'', JObj ([(''name'', JStr (trim (es_siteName s)))]
             @ (case es_position s of Some p \<Rightarrow> [(''latitude'', JNum (bp_latitude p)), (''longitude'', JNum (bp_longitude p))] | None \<Rightarrow> [])
             @ defined ''population'' (dialled_whole (es_population s))
             @ defined ''householdSize'' (dialled_number (es_householdSize s))))]
         @ (case es_boundarySource s of
              Some source \<Rightarrow> if es_boundary s \<noteq> []
                then [(''parcel'', JObj [(''boundarySource'', JStr (explore_source_name source)),
                        (''boundary'', JArr (map point_object (es_boundary s)))])] else []
            | None \<Rightarrow> [])
         @ (if allocations \<noteq> [] then [(''allocations'', JArr allocations)] else [])
         @ (if hazards \<noteq> [] then [(''hazards'', JArr hazards)] else []))"

end
