(* ===== verification/ExplorePage.thy ===== *)
theory ExplorePage
  imports ExploreState
begin

section \<open>The explore page (explore/ExplorePage.tsx)\<close>

text \<open>
  The page as a machine. Every call to the intake service is a request of the state and its answer a step of its own, so
  answers come in any order. A dial that moved is posted again once it has settled: the effect that sees to it runs after
  every render in which the session, what the dials say or a function it calls has changed, and a timer posts what the
  page then holds. Every accepted act hands a fresh ticket back, and the page carries on with whichever came back.
\<close>

subsection \<open>The state\<close>

record fetched_parcel =
  fp_boundary :: "boundary_point list"
  fp_attribution :: "string option"

text \<open>What is on the network. A ticket is exchanged to submit a document or to resume; the findings are read by the
  submission, at the end of a resumption or by a dial, or with nobody waiting.\<close>

datatype reader = EndsBusy | OfDials | Unwatched

datatype explore_request = AskOptions | AskParcel boundary_point | AskCode string
  | AskTicket string string "props option"
  | PostFirst props string
  | PostDials props string
  | ReadFindings string string string reader

record explore_page =
  ep_options :: "(string \<times> jsnum) list option"
  ep_unreachable :: bool
  ep_state :: explore_state
  ep_fetchingParcel :: bool
  ep_awaitingCode :: bool
  ep_code :: string
  ep_busy :: bool
  ep_session :: "string option"
  ep_findings :: "json option"
  ep_expired :: bool
  ep_ticket :: "string option"
  ep_posted :: "string option"
  ep_dialTimer :: bool
  ep_pollTimer :: "nat option"
  ep_requests :: "explore_request list"
  ep_posts :: "props list"

definition explore_start :: "string \<Rightarrow> explore_page" where
  "explore_start uuid = \<lparr>ep_options = None, ep_unreachable = False, ep_state = emptyExplore uuid, ep_fetchingParcel = False,
     ep_awaitingCode = False, ep_code = [], ep_busy = False, ep_session = None, ep_findings = None, ep_expired = False,
     ep_ticket = None, ep_posted = None, ep_dialTimer = False, ep_pollTimer = None, ep_requests = [AskOptions], ep_posts = []\<rparr>"

definition POLLS_AFTER_SUBMIT :: nat where
  "POLLS_AFTER_SUBMIT = 4"

definition send_out :: "explore_request \<Rightarrow> explore_page \<Rightarrow> explore_page" where
  "send_out r p = p\<lparr>ep_requests := ep_requests p @ [r]\<rparr>"

subsection \<open>The effects\<close>

definition dialled :: "explore_state \<Rightarrow> string" where
  "dialled s = json_stringify (JArr [JStr (es_population s), JStr (es_householdSize s),
     JObj (map (\<lambda>(category, share). (category, JNum share)) (es_shares s)),
     JObj (map (\<lambda>(hazard, level). (hazard, JStr level)) (es_reportedHazards s))])"

text \<open>The effect of the dials: what it set up before is cleared first.\<close>

definition dial_effect :: "explore_page \<Rightarrow> explore_page" where
  "dial_effect p0 = (let p = p0\<lparr>ep_dialTimer := False\<rparr>; now = dialled (ep_state p) in
     if ep_session p = None then p
     else if ep_posted p = None then p\<lparr>ep_posted := Some now\<rparr>
     else if ep_posted p = Some now then p
     else p\<lparr>ep_posted := Some now, ep_dialTimer := True\<rparr>)"

definition poll_effect :: "explore_page \<Rightarrow> explore_page" where
  "poll_effect p = p\<lparr>ep_pollTimer := (if ep_session p = None then None else Some 0)\<rparr>"

text \<open>A render from one state to the next runs the effects whose dependencies changed; the language is one of both.\<close>

definition rendered :: "bool \<Rightarrow> explore_page \<Rightarrow> explore_page \<Rightarrow> explore_page" where
  "rendered language before p =
     (let q = (if language \<or> ep_session p \<noteq> ep_session before then poll_effect p else p)
      in if language \<or> ep_session p \<noteq> ep_session before \<or> dialled (ep_state p) \<noteq> dialled (ep_state before) then dial_effect q else q)"

subsection \<open>What the person does\<close>

definition pick :: "(string \<Rightarrow> string \<Rightarrow> string) \<Rightarrow> boundary_point \<Rightarrow> position_source \<Rightarrow> explore_page \<Rightarrow> explore_page" where
  "pick tr position placedBy p = send_out (AskParcel position)
     (p\<lparr>ep_state := withPosition tr (ep_state p) position placedBy, ep_fetchingParcel := True\<rparr>)"

datatype claim_field = ClaimSiteName | ClaimContactName | ClaimEmailAddress

definition claim :: "claim_field \<Rightarrow> string \<Rightarrow> explore_page \<Rightarrow> explore_page" where
  "claim f s p = (case f of
     ClaimSiteName \<Rightarrow> p\<lparr>ep_state := (ep_state p)\<lparr>es_siteName := s\<rparr>\<rparr>
   | ClaimContactName \<Rightarrow> p\<lparr>ep_state := (ep_state p)\<lparr>es_contactName := s\<rparr>\<rparr>
   | ClaimEmailAddress \<Rightarrow> p\<lparr>ep_awaitingCode := False, ep_code := [], ep_state := (ep_state p)\<lparr>es_emailAddress := s\<rparr>\<rparr>)"

datatype dial = DialPopulation string | DialHouseholdSize string | DialShare string jsnum | DialHazard string string

definition turn :: "dial \<Rightarrow> explore_state \<Rightarrow> explore_state" where
  "turn d s = (case d of
     DialPopulation t \<Rightarrow> s\<lparr>es_population := t\<rparr>
   | DialHouseholdSize t \<Rightarrow> s\<lparr>es_householdSize := t\<rparr>
   | DialShare category n \<Rightarrow> s\<lparr>es_shares := withShareSet (es_shares s) category n\<rparr>
   | DialHazard hazard level \<Rightarrow> s\<lparr>es_reportedHazards := (if level = [] then odel hazard (es_reportedHazards s)
       else oput hazard level (es_reportedHazards s))\<rparr>)"

definition ask_code :: "explore_page \<Rightarrow> explore_page" where
  "ask_code p = send_out (AskCode (trim (es_emailAddress (ep_state p)))) (p\<lparr>ep_busy := True\<rparr>)"

definition claim_held_back :: "bool \<Rightarrow> explore_page \<Rightarrow> bool" where
  "claim_held_back configured p \<longleftrightarrow> ep_busy p \<or> \<not> configured \<or> \<not> explore_ready (ep_state p) \<or> (ep_awaitingCode p \<and> blank (ep_code p))"

text \<open>The claim's button. The document is made of the state as it was when the button was pressed.\<close>

definition press_claim :: "explore_page \<Rightarrow> explore_page" where
  "press_claim p = (if ep_awaitingCode p
     then send_out (AskTicket (trim (es_emailAddress (ep_state p))) (trim (ep_code p)) (Some (explore_document (ep_state p)))) (p\<lparr>ep_busy := True\<rparr>)
     else ask_code p)"

definition resume :: "explore_page \<Rightarrow> explore_page" where
  "resume p = send_out (AskTicket (trim (es_emailAddress (ep_state p))) (trim (ep_code p)) None) (p\<lparr>ep_busy := True\<rparr>)"

text \<open>Reading the findings asks nothing while no ticket is held, and whoever waits goes on.\<close>

definition readFindings :: "reader \<Rightarrow> explore_page \<Rightarrow> explore_page" where
  "readFindings who p = (case ep_ticket p of
     None \<Rightarrow> if who = EndsBusy then p\<lparr>ep_busy := False\<rparr> else p
   | Some held \<Rightarrow> send_out (ReadFindings (es_submissionId (ep_state p)) (trim (es_emailAddress (ep_state p))) held who) p)"

subsection \<open>What is answered\<close>

text \<open>A refusal says whether it is the ticket's.\<close>

datatype 'a service_answer = Answered 'a | Refused bool

datatype explore_answer = OptionsAnswer "(string \<times> jsnum) list service_answer" | ParcelAnswer "fetched_parcel option service_answer"
  | CodeAnswer "unit service_answer" | TicketAnswer "string service_answer" | PostAnswer "(string \<times> string) service_answer" | FindingsAnswer "(json \<times> string) service_answer"

definition same_number :: "jsnum \<Rightarrow> jsnum \<Rightarrow> bool" where
  "same_number a b \<longleftrightarrow> a = b \<and> a \<noteq> NaN"

definition same_position :: "boundary_point \<Rightarrow> explore_state \<Rightarrow> bool" where
  "same_position position s = (case es_position s of None \<Rightarrow> False
     | Some here \<Rightarrow> same_number (bp_latitude here) (bp_latitude position) \<and> same_number (bp_longitude here) (bp_longitude position))"

definition options_answered :: "(string \<times> jsnum) list service_answer \<Rightarrow> explore_page \<Rightarrow> explore_page" where
  "options_answered a p = (case a of
     Answered programme \<Rightarrow> p\<lparr>ep_options := Some programme, ep_state :=
       (if es_shares (ep_state p) = [] then (ep_state p)\<lparr>es_shares := seededShares programme\<rparr> else ep_state p)\<rparr>
   | Refused _ \<Rightarrow> p\<lparr>ep_unreachable := True\<rparr>)"

definition parcel_answered :: "boundary_point \<Rightarrow> fetched_parcel option service_answer \<Rightarrow> explore_page \<Rightarrow> explore_page" where
  "parcel_answered position a p = (case a of
     Answered (Some parcel) \<Rightarrow> if same_position position (ep_state p) \<and> 3 \<le> length (fp_boundary parcel)
       then p\<lparr>ep_state := withFetchedBoundary (ep_state p) (fp_boundary parcel) (fp_attribution parcel)\<rparr> else p
   | _ \<Rightarrow> p)\<lparr>ep_fetchingParcel := False\<rparr>"

definition code_answered_page :: "unit service_answer \<Rightarrow> explore_page \<Rightarrow> explore_page" where
  "code_answered_page a p = (case a of Answered _ \<Rightarrow> p\<lparr>ep_awaitingCode := True\<rparr> | Refused _ \<Rightarrow> p)\<lparr>ep_busy := False\<rparr>"

definition post_first :: "props \<Rightarrow> string \<Rightarrow> explore_page \<Rightarrow> explore_page" where
  "post_first doc ticket p = send_out (PostFirst doc ticket) (p\<lparr>ep_posts := ep_posts p @ [doc]\<rparr>)"

definition ticket_answered :: "props option \<Rightarrow> string service_answer \<Rightarrow> explore_page \<Rightarrow> explore_page" where
  "ticket_answered submission a p = (case a of
     Refused _ \<Rightarrow> p\<lparr>ep_busy := False\<rparr>
   | Answered ticket \<Rightarrow> (case submission of
       Some doc \<Rightarrow> post_first doc ticket p
     | None \<Rightarrow> readFindings EndsBusy (p\<lparr>ep_ticket := Some ticket, ep_expired := False, ep_code := []\<rparr>)))"

definition first_posted :: "(string \<times> string) service_answer \<Rightarrow> explore_page \<Rightarrow> explore_page" where
  "first_posted a p = (case a of
     Refused _ \<Rightarrow> p\<lparr>ep_busy := False\<rparr>
   | Answered (reference, ticket) \<Rightarrow> readFindings EndsBusy
       (p\<lparr>ep_ticket := Some ticket, ep_session := Some reference, ep_awaitingCode := False, ep_code := []\<rparr>))"

definition dials_posted :: "(string \<times> string) service_answer \<Rightarrow> explore_page \<Rightarrow> explore_page" where
  "dials_posted a p = (case a of
     Refused ofTicket \<Rightarrow> if ofTicket then p\<lparr>ep_expired := True\<rparr> else p
   | Answered (reference, ticket) \<Rightarrow> readFindings OfDials (p\<lparr>ep_ticket := Some ticket\<rparr>))"

definition findings_answered :: "reader \<Rightarrow> (json \<times> string) service_answer \<Rightarrow> explore_page \<Rightarrow> explore_page" where
  "findings_answered who a p =
     (let q = (case a of
        Answered (findings, ticket) \<Rightarrow> p\<lparr>ep_ticket := Some ticket, ep_findings := Some findings\<rparr>
      | Refused ofTicket \<Rightarrow> if who = OfDials \<and> ofTicket then p\<lparr>ep_expired := True\<rparr> else p)
      in if who = EndsBusy then q\<lparr>ep_busy := False\<rparr> else q)"

fun answered :: "explore_request \<Rightarrow> explore_answer \<Rightarrow> explore_page \<Rightarrow> explore_page option" where
  "answered AskOptions (OptionsAnswer a) p = Some (options_answered a p)"
| "answered (AskParcel position) (ParcelAnswer a) p = Some (parcel_answered position a p)"
| "answered (AskCode _) (CodeAnswer a) p = Some (code_answered_page a p)"
| "answered (AskTicket _ _ submission) (TicketAnswer a) p = Some (ticket_answered submission a p)"
| "answered (PostFirst _ _) (PostAnswer a) p = Some (first_posted a p)"
| "answered (PostDials _ _) (PostAnswer a) p = Some (dials_posted a p)"
| "answered (ReadFindings _ _ _ who) (FindingsAnswer a) p = Some (findings_answered who a p)"
| "answered _ _ p = None"

subsection \<open>The timers\<close>

text \<open>A settled dial posts the document of what the page then holds.\<close>

definition dial_settled :: "explore_page \<Rightarrow> explore_page" where
  "dial_settled p0 = (let p = p0\<lparr>ep_dialTimer := False\<rparr> in case ep_ticket p of
     None \<Rightarrow> p
   | Some held \<Rightarrow> send_out (PostDials (explore_document (ep_state p)) held) (p\<lparr>ep_posts := ep_posts p @ [explore_document (ep_state p)]\<rparr>))"

definition poll_fired :: "nat \<Rightarrow> explore_page \<Rightarrow> explore_page" where
  "poll_fired polled p = (if POLLS_AFTER_SUBMIT \<le> polled then p\<lparr>ep_pollTimer := None\<rparr>
     else readFindings Unwatched (p\<lparr>ep_pollTimer := Some (Suc polled)\<rparr>))"

subsection \<open>The steps\<close>

text \<open>The map and the search can be used until the report opens. The device answers where it is whenever it does, also
  once the report is open.\<close>

datatype explore_event = Picked boundary_point position_source | Drew "boundary_point list" | Cleared
  | Claimed claim_field string | TypedCode string | PressedClaim | AskedCodeAgain | Resumed | Refreshed | Turned dial
  | LanguageChanged | Answer nat explore_answer | DialSettled | PollFired | TicketRenewed string | SurveyRefused bool

text \<open>The page once a request has been answered and taken off it.\<close>

definition taken :: "nat \<Rightarrow> explore_page \<Rightarrow> explore_page" where
  "taken i p = p\<lparr>ep_requests := take i (ep_requests p) @ drop (Suc i) (ep_requests p)\<rparr>"

definition claim_shown :: "explore_page \<Rightarrow> bool" where
  "claim_shown p \<longleftrightarrow> ep_session p = None \<and> landDescribed (ep_state p)"

fun explore_act :: "(string \<Rightarrow> string \<Rightarrow> string) \<Rightarrow> bool \<Rightarrow> explore_event \<Rightarrow> explore_page \<Rightarrow> explore_page option" where
  "explore_act tr configured (Picked position placedBy) p =
     (if (placedBy \<noteq> FromDevice \<longrightarrow> ep_session p = None) \<and> (placedBy = FromMap \<longrightarrow> es_position (ep_state p) = None)
      then Some (pick tr position placedBy p) else None)"
| "explore_act tr configured (Drew boundary) p =
     (if ep_session p = None \<and> es_position (ep_state p) \<noteq> None then Some (p\<lparr>ep_state := withDrawnBoundary (ep_state p) boundary\<rparr>) else None)"
| "explore_act tr configured Cleared p =
     (if ep_session p = None \<and> es_boundary (ep_state p) \<noteq> [] then Some (p\<lparr>ep_state := withBoundaryCleared (ep_state p)\<rparr>) else None)"
| "explore_act tr configured (Claimed f s) p = (if claim_shown p then Some (claim f s p) else None)"
| "explore_act tr configured (TypedCode s) p =
     (if claim_shown p \<and> ep_awaitingCode p \<or> ep_session p \<noteq> None \<and> ep_expired p then Some (p\<lparr>ep_code := s\<rparr>) else None)"
| "explore_act tr configured PressedClaim p = (if claim_shown p \<and> \<not> claim_held_back configured p then Some (press_claim p) else None)"
| "explore_act tr configured AskedCodeAgain p = (if ep_session p \<noteq> None \<and> ep_expired p \<and> \<not> ep_busy p then Some (ask_code p) else None)"
| "explore_act tr configured Resumed p =
     (if ep_session p \<noteq> None \<and> ep_expired p \<and> \<not> ep_busy p \<and> \<not> blank (ep_code p) then Some (resume p) else None)"
| "explore_act tr configured Refreshed p = (if ep_session p \<noteq> None then Some (readFindings Unwatched p) else None)"
| "explore_act tr configured (Turned d) p = (if ep_session p \<noteq> None then Some (p\<lparr>ep_state := turn d (ep_state p)\<rparr>) else None)"
| "explore_act tr configured LanguageChanged p = Some p"
| "explore_act tr configured (Answer i a) p = (if length (ep_requests p) \<le> i then None
     else answered (ep_requests p ! i) a (taken i p))"
| "explore_act tr configured DialSettled p = (if ep_dialTimer p then Some (dial_settled p) else None)"
| "explore_act tr configured PollFired p = map_option (\<lambda>polled. poll_fired polled p) (ep_pollTimer p)"
| "explore_act tr configured (TicketRenewed ticket) p = (if ep_ticket p \<noteq> None then Some (p\<lparr>ep_ticket := Some ticket\<rparr>) else None)"
| "explore_act tr configured (SurveyRefused ofTicket) p =
     (if ep_ticket p \<noteq> None then Some (if ofTicket then p\<lparr>ep_expired := True\<rparr> else p) else None)"

definition explore_next :: "(string \<Rightarrow> string \<Rightarrow> string) \<Rightarrow> bool \<Rightarrow> explore_event \<Rightarrow> explore_page \<Rightarrow> explore_page option" where
  "explore_next tr configured e p = map_option (rendered (e = LanguageChanged) p) (explore_act tr configured e p)"

end
