(* ===== verification/ExploreFacts.thy ===== *)
theory ExploreFacts
  imports ExplorePage IntakeWizard
begin

section \<open>What the explore page keeps\<close>

text \<open>
  Two properties of every run of the explore page. A boundary drawn as a register's is one the register answered for the
  position that is pinned, whatever order answers come in. And what was posted last carries what the dials say, or is
  about to be posted, in the runs in which nothing makes the effect of the dials forget a change; the lemmas at the end
  show what does.
\<close>

inductive explore_run :: "(string \<Rightarrow> string \<Rightarrow> string) \<Rightarrow> bool \<Rightarrow> (explore_event \<Rightarrow> explore_page \<Rightarrow> bool) \<Rightarrow> explore_page \<Rightarrow> bool"
  for tr configured allowed where
  opened: "explore_run tr configured allowed (explore_start uuid)"
| stepped: "explore_run tr configured allowed p \<Longrightarrow> allowed e p \<Longrightarrow> explore_next tr configured e p = Some q \<Longrightarrow> explore_run tr configured allowed q"

lemma explore_invariant:
  assumes "explore_run tr configured allowed p" and "\<And>uuid. I (explore_start uuid)"
    and "\<And>p e q. I p \<Longrightarrow> allowed e p \<Longrightarrow> explore_next tr configured e p = Some q \<Longrightarrow> I q"
  shows "I p"
  using assms(1) by (induction rule: explore_run.induct) (use assms(2,3) in blast)+

text \<open>The effects touch neither what the page holds nor what is on the network.\<close>

lemma rendered_frame [simp]:
  "ep_state (rendered l before p) = ep_state p" "ep_requests (rendered l before p) = ep_requests p"
  "ep_posts (rendered l before p) = ep_posts p" "ep_session (rendered l before p) = ep_session p"
  "ep_ticket (rendered l before p) = ep_ticket p" "ep_busy (rendered l before p) = ep_busy p"
  by (simp_all add: rendered_def dial_effect_def poll_effect_def Let_def)

lemma taken_frame [simp]: "ep_state (taken i p) = ep_state p" "ep_session (taken i p) = ep_session p" "ep_busy (taken i p) = ep_busy p"
  "ep_ticket (taken i p) = ep_ticket p" "ep_posted (taken i p) = ep_posted p" "ep_dialTimer (taken i p) = ep_dialTimer p"
  "ep_posts (taken i p) = ep_posts p"
  by (simp_all add: taken_def)

lemma readFindings_frame [simp]:
  "ep_state (readFindings who p) = ep_state p" "ep_posts (readFindings who p) = ep_posts p"
  "ep_session (readFindings who p) = ep_session p" "ep_ticket (readFindings who p) = ep_ticket p"
  "ep_posted (readFindings who p) = ep_posted p" "ep_dialTimer (readFindings who p) = ep_dialTimer p"
  by (simp_all add: readFindings_def send_out_def split: option.split)

subsection \<open>A register's boundary is the one for the pin\<close>

definition register_fits :: "(boundary_point \<Rightarrow> fetched_parcel \<Rightarrow> bool) \<Rightarrow> explore_state \<Rightarrow> bool" where
  "register_fits R s \<longleftrightarrow> (es_boundarySource s = Some FetchedFromRegister \<longrightarrow> (\<exists>here. es_position s = Some here
     \<and> R here \<lparr>fp_boundary = es_boundary s, fp_attribution = es_boundaryAttribution s\<rparr> \<and> 3 \<le> length (es_boundary s)))"

text \<open>Every parcel the service answers for a position stands in the relation to it.\<close>

fun parcels_fit :: "(boundary_point \<Rightarrow> fetched_parcel \<Rightarrow> bool) \<Rightarrow> explore_event \<Rightarrow> explore_page \<Rightarrow> bool" where
  "parcels_fit R (Answer i (ParcelAnswer (Answered (Some parcel)))) p =
     (\<forall>position. i < length (ep_requests p) \<longrightarrow> ep_requests p ! i = AskParcel position \<longrightarrow> R position parcel)"
| "parcels_fit R _ p = True"

lemma same_position_eq: "same_position position s \<Longrightarrow> es_position s = Some position"
  by (cases position; cases "the (es_position s)") (auto simp: same_position_def same_number_def split: option.splits)

lemma parcel_answered_fits:
  assumes "register_fits R (ep_state p)" and "\<And>parcel. a = Answered (Some parcel) \<Longrightarrow> R position parcel"
  shows "register_fits R (ep_state (parcel_answered position a p))"
proof (cases a)
  case (Answered found)
  show ?thesis
  proof (cases found)
    case (Some parcel)
    with assms Answered same_position_eq[of position "ep_state p"] show ?thesis
      by (cases parcel) (auto simp: parcel_answered_def register_fits_def withFetchedBoundary_def)
  qed (use assms(1) Answered in \<open>simp add: parcel_answered_def\<close>)
qed (use assms(1) in \<open>simp add: parcel_answered_def\<close>)

lemma answered_fits:
  assumes "answered r a p = Some q" and "register_fits R (ep_state p)"
    and "\<And>position parcel. r = AskParcel position \<Longrightarrow> a = ParcelAnswer (Answered (Some parcel)) \<Longrightarrow> R position parcel"
  shows "register_fits R (ep_state q)"
  using assms(1)
proof (cases rule: answered.elims)
  case (2 position b)
  with assms(2,3) show ?thesis by (auto intro!: parcel_answered_fits)
qed (use assms(2) in \<open>auto simp: options_answered_def code_answered_page_def ticket_answered_def first_posted_def dials_posted_def
    findings_answered_def post_first_def send_out_def register_fits_def Let_def split: service_answer.splits option.splits\<close>)

lemma register_fits_step:
  assumes "register_fits R (ep_state p)" and "parcels_fit R e p" and "explore_next tr configured e p = Some q"
  shows "register_fits R (ep_state q)"
proof -
  obtain q' where act: "explore_act tr configured e p = Some q'" and q: "ep_state q = ep_state q'"
    using assms(3) by (auto simp: explore_next_def)
  have "register_fits R (ep_state q')"
  proof (cases e)
    case (Answer i a)
    with act have i: "i < length (ep_requests p)"
      and ans: "answered (ep_requests p ! i) a (taken i p) = Some q'" by (auto split: if_splits)
    show ?thesis by (rule answered_fits[OF ans]) (use assms(1,2) Answer i in auto)
  next
    case (Claimed f s)
    with act assms(1) show ?thesis by (cases f) (auto simp: claim_def register_fits_def split: if_splits)
  next
    case (Turned d)
    with act assms(1) show ?thesis by (cases d) (auto simp: turn_def register_fits_def split: if_splits)
  qed (use act assms(1) in \<open>auto simp: register_fits_def pick_def send_out_def withPosition_def withDrawnBoundary_def withBoundaryCleared_def
      press_claim_def ask_code_def resume_def dial_settled_def poll_fired_def Let_def split: if_splits option.splits\<close>)
  with q show ?thesis by simp
qed

text \<open>C18. A boundary shown as the land register's is the register's answer for the land that is pinned: with the credit line beside
  it, it is what the service answered to the question about exactly the position the pin is at, and it encloses land,
  whatever was picked, drawn or answered before and in whatever order the answers came.\<close>

theorem register_boundary_is_for_the_pin:
  assumes "explore_run tr configured (parcels_fit R) p" and "es_boundarySource (ep_state p) = Some FetchedFromRegister"
  shows "\<exists>here. es_position (ep_state p) = Some here
    \<and> R here \<lparr>fp_boundary = es_boundary (ep_state p), fp_attribution = es_boundaryAttribution (ep_state p)\<rparr>
    \<and> 3 \<le> length (es_boundary (ep_state p))"
proof -
  have "register_fits R (ep_state (explore_start uuid))" for uuid
    by (simp add: register_fits_def explore_start_def emptyExplore_def)
  with assms(1) have "register_fits R (ep_state p)" using register_fits_step by (rule explore_invariant)
  with assms(2) show ?thesis by (simp add: register_fits_def)
qed

subsection \<open>What was posted carries what the dials say\<close>

fun submitted :: "explore_request \<Rightarrow> props option" where
  "submitted (AskTicket _ _ submission) = submission"
| "submitted (PostFirst doc _) = Some doc"
| "submitted _ = None"

fun holds_busy :: "explore_request \<Rightarrow> bool" where
  "holds_busy (AskCode _) = True"
| "holds_busy (AskTicket _ _ _) = True"
| "holds_busy (PostFirst _ _) = True"
| "holds_busy (ReadFindings _ _ _ who) = (who = EndsBusy)"
| "holds_busy _ = False"

abbreviation busy_requests :: "explore_request list \<Rightarrow> nat" where
  "busy_requests rs \<equiv> length (filter holds_busy rs)"

text \<open>The document says what the dials of the state say.\<close>

definition says_dials :: "props \<Rightarrow> explore_state \<Rightarrow> bool" where
  "says_dials doc s \<longleftrightarrow> (\<exists>st. doc = explore_document st \<and> dialled st = dialled s)"

definition last_says :: "props list \<Rightarrow> explore_state \<Rightarrow> bool" where
  "last_says posts s \<longleftrightarrow> posts \<noteq> [] \<and> says_dials (last posts) s"

text \<open>One act of the person is under way at a time, no submission once there is a session, and no dial is watched before.\<close>

definition one_act :: "explore_page \<Rightarrow> bool" where
  "one_act p \<longleftrightarrow> busy_requests (ep_requests p) \<le> (if ep_busy p then 1 else 0)
     \<and> (ep_session p \<noteq> None \<longrightarrow> ep_ticket p \<noteq> None \<and> (\<forall>r\<in>set (ep_requests p). submitted r = None))
     \<and> (ep_session p = None \<longrightarrow> ep_posted p = None \<and> \<not> ep_dialTimer p)"

definition submissions_say :: "explore_request list \<Rightarrow> props list \<Rightarrow> explore_state \<Rightarrow> bool" where
  "submissions_say rs posts s \<longleftrightarrow> (\<forall>r\<in>set rs. \<forall>doc. submitted r = Some doc \<longrightarrow> says_dials doc s
     \<and> ((\<exists>ticket. r = PostFirst doc ticket) \<longrightarrow> posts \<noteq> [] \<and> last posts = doc))"

definition dials_watched :: "explore_page \<Rightarrow> bool" where
  "dials_watched p \<longleftrightarrow> submissions_say (ep_requests p) (ep_posts p) (ep_state p)
     \<and> (ep_session p \<noteq> None \<longrightarrow> ep_posted p = Some (dialled (ep_state p)) \<and> (ep_dialTimer p \<or> last_says (ep_posts p) (ep_state p)))"

text \<open>The runs in which nothing makes the page forget a dial: the language stays, no dials are refused, and the options of the
  form do not arrive while a submission is under way.\<close>

fun steady_answer :: "explore_request \<Rightarrow> explore_answer \<Rightarrow> explore_page \<Rightarrow> bool" where
  "steady_answer AskOptions (OptionsAnswer (Answered programme)) p = (\<forall>r\<in>set (ep_requests p). submitted r = None)"
| "steady_answer (PostDials _ _) (PostAnswer (Refused _)) p = False"
| "steady_answer _ _ p = True"

fun steady :: "explore_event \<Rightarrow> explore_page \<Rightarrow> bool" where
  "steady LanguageChanged p = False"
| "steady (Answer i a) p = (i < length (ep_requests p) \<longrightarrow> steady_answer (ep_requests p ! i) a p)"
| "steady _ p = True"

text \<open>A request that is answered leaves the others.\<close>

lemma taken_out:
  assumes "i < length rs"
  shows "set rs = insert (rs ! i) (set (take i rs @ drop (Suc i) rs))"
    and "busy_requests rs = (if holds_busy (rs ! i) then 1 else 0) + busy_requests (take i rs @ drop (Suc i) rs)"
proof -
  have "rs = take i rs @ rs ! i # drop (Suc i) rs" using assms by (rule id_take_nth_drop)
  then have "set rs = set (take i rs @ rs ! i # drop (Suc i) rs)"
    "busy_requests rs = busy_requests (take i rs @ rs ! i # drop (Suc i) rs)" by simp_all
  then show "set rs = insert (rs ! i) (set (take i rs @ drop (Suc i) rs))"
    "busy_requests rs = (if holds_busy (rs ! i) then 1 else 0) + busy_requests (take i rs @ drop (Suc i) rs)" by auto
qed

lemma one_act_readFindings:
  assumes "one_act p" and "who = EndsBusy \<Longrightarrow> busy_requests (ep_requests p) = 0 \<and> ep_busy p"
  shows "one_act (readFindings who p)"
  using assms by (cases "ep_ticket p") (auto simp: one_act_def readFindings_def send_out_def)

lemma submitted_busy: "submitted r = Some doc \<Longrightarrow> holds_busy r"
  by (cases r) auto

lemma rendered_dials:
  "ep_posted (rendered l before p) = (if (l \<or> ep_session p \<noteq> ep_session before \<or> dialled (ep_state p) \<noteq> dialled (ep_state before))
     \<and> ep_session p \<noteq> None then Some (dialled (ep_state p)) else ep_posted p)"
  "ep_dialTimer (rendered l before p) = (if l \<or> ep_session p \<noteq> ep_session before \<or> dialled (ep_state p) \<noteq> dialled (ep_state before)
     then ep_session p \<noteq> None \<and> ep_posted p \<noteq> None \<and> ep_posted p \<noteq> Some (dialled (ep_state p)) else ep_dialTimer p)"
  unfolding rendered_def Let_def poll_effect_def dial_effect_def
  by (cases l; cases "ep_session p = ep_session before"; cases "dialled (ep_state p) = dialled (ep_state before)"; simp)+

lemma one_act_rendered: "one_act p \<Longrightarrow> one_act (rendered l before p)"
  by (auto simp: one_act_def rendered_dials)

lemma one_act_taken:
  assumes "one_act p" and "i < length (ep_requests p)"
  shows "one_act (taken i p)"
    and "holds_busy (ep_requests p ! i) \<Longrightarrow> busy_requests (ep_requests (taken i p)) = 0 \<and> ep_busy p \<and> (\<forall>r\<in>set (ep_requests (taken i p)). submitted r = None)"
    and "submitted (ep_requests p ! i) \<noteq> None \<Longrightarrow> ep_session p = None"
proof -
  note out = taken_out[OF assms(2)]
  have rest: "ep_requests (taken i p) = take i (ep_requests p) @ drop (Suc i) (ep_requests p)" by (simp add: taken_def)
  show "one_act (taken i p)" using assms(1) out unfolding one_act_def rest taken_frame by auto
  show "submitted (ep_requests p ! i) \<noteq> None \<Longrightarrow> ep_session p = None"
    using assms nth_mem[OF assms(2)] by (auto simp: one_act_def)
  assume "holds_busy (ep_requests p ! i)"
  with assms(1) out(2) have "busy_requests (ep_requests (taken i p)) = 0 \<and> ep_busy p"
    unfolding one_act_def rest by (auto split: if_splits)
  moreover from this have "\<forall>r\<in>set (ep_requests (taken i p)). \<not> holds_busy r" by (auto simp: filter_empty_conv)
  ultimately show "busy_requests (ep_requests (taken i p)) = 0 \<and> ep_busy p \<and> (\<forall>r\<in>set (ep_requests (taken i p)). submitted r = None)"
    by (metis not_None_eq submitted_busy)
qed

lemma one_act_answered:
  assumes p: "one_act p" and i: "i < length (ep_requests p)" and ans: "answered (ep_requests p ! i) a (taken i p) = Some q"
  shows "one_act q"
proof -
  note t = one_act_taken[OF p i]
  show ?thesis using ans
  proof (cases rule: answered.elims)
    case (1 b)
    with t(1) show ?thesis by (cases b) (auto simp: options_answered_def one_act_def)
  next
    case (2 position b)
    with t(1) show ?thesis by (auto simp: parcel_answered_def one_act_def split: service_answer.split option.split)
  next
    case (3 x b)
    with t(1,2) show ?thesis by (cases b) (auto simp: code_answered_page_def one_act_def)
  next
    case (4 x y submission b)
    show ?thesis
    proof (cases b)
      case (Answered ticket)
      show ?thesis
      proof (cases submission)
        case None
        have "one_act ((taken i p)\<lparr>ep_ticket := Some ticket, ep_expired := False, ep_code := []\<rparr>)" using t(1) by (simp add: one_act_def)
        with 4 Answered None t(2) show ?thesis by (simp add: ticket_answered_def) (rule one_act_readFindings, auto)
      next
        case (Some doc)
        with 4 Answered t show ?thesis by (auto simp: ticket_answered_def post_first_def send_out_def one_act_def)
      qed
    next
      case (Refused z)
      with 4 t(1,2) show ?thesis by (auto simp: ticket_answered_def one_act_def)
    qed
  next
    case (5 doc x b)
    show ?thesis
    proof (cases b)
      case (Answered z)
      obtain reference ticket where z: "z = (reference, ticket)" by (cases z)
      have "one_act ((taken i p)\<lparr>ep_ticket := Some ticket, ep_session := Some reference, ep_awaitingCode := False, ep_code := []\<rparr>)"
        using t(1,2) 5 by (auto simp: one_act_def)
      with 5 Answered z t(2) show ?thesis by (simp add: first_posted_def) (rule one_act_readFindings, auto)
    next
      case (Refused z)
      with 5 t(1,2) show ?thesis by (auto simp: first_posted_def one_act_def)
    qed
  next
    case (6 doc x b)
    show ?thesis
    proof (cases b)
      case (Answered z)
      obtain reference ticket where z: "z = (reference, ticket)" by (cases z)
      have "one_act ((taken i p)\<lparr>ep_ticket := Some ticket\<rparr>)" using t(1) by (simp add: one_act_def)
      with 6 Answered z show ?thesis by (simp add: dials_posted_def) (rule one_act_readFindings, auto)
    next
      case (Refused z)
      with 6 t(1) show ?thesis by (auto simp: dials_posted_def one_act_def)
    qed
  next
    case (7 x y z who b)
    with t(1,2) show ?thesis by (cases b) (auto simp: findings_answered_def one_act_def Let_def)
  qed simp_all
qed

lemma one_act_step:
  assumes "one_act p" and "explore_next tr configured e p = Some q"
  shows "one_act q"
proof -
  obtain q' where act: "explore_act tr configured e p = Some q'" and q: "q = rendered (e = LanguageChanged) p q'"
    using assms(2) by (auto simp: explore_next_def)
  have "one_act q'"
  proof (cases e)
    case (Answer i a)
    with act have "i < length (ep_requests p)" "answered (ep_requests p ! i) a (taken i p) = Some q'" by (auto split: if_splits)
    with assms(1) show ?thesis by (rule one_act_answered)
  next
    case Refreshed
    with act assms(1) show ?thesis by (auto intro: one_act_readFindings split: if_splits)
  next
    case PollFired
    have "one_act (p\<lparr>ep_pollTimer := x\<rparr>)" for x using assms(1) by (simp add: one_act_def)
    with PollFired act show ?thesis by (auto simp: poll_fired_def intro!: one_act_readFindings)
  next
    case (Claimed f s)
    with act assms(1) show ?thesis by (cases f) (auto simp: claim_def one_act_def split: if_splits)
  qed (use act assms(1) in \<open>auto simp: one_act_def pick_def send_out_def press_claim_def ask_code_def resume_def dial_settled_def
      claim_held_back_def claim_shown_def Let_def split: if_splits option.splits\<close>)
  with q show ?thesis by (simp add: one_act_rendered)
qed

lemma submissions_readFindings [simp]:
  "submissions_say (ep_requests (readFindings who p)) posts s = submissions_say (ep_requests p) posts s"
  by (auto simp: submissions_say_def readFindings_def send_out_def split: option.split)

lemma submissions_none: "\<forall>r\<in>set rs. submitted r = None \<Longrightarrow> submissions_say rs posts s"
  by (auto simp: submissions_say_def)

lemma submissions_subset: "submissions_say rs posts s \<Longrightarrow> set rs' \<subseteq> set rs \<Longrightarrow> submissions_say rs' posts s"
  unfolding submissions_say_def by blast

lemma says_dials_cong: "dialled s = dialled s' \<Longrightarrow> says_dials doc s = says_dials doc s'"
  by (simp add: says_dials_def)

lemma last_says_cong: "dialled s = dialled s' \<Longrightarrow> last_says posts s = last_says posts s'"
  by (simp add: last_says_def says_dials_def)

lemma submissions_say_cong: "dialled s = dialled s' \<Longrightarrow> submissions_say rs posts s = submissions_say rs posts s'"
  by (simp add: submissions_say_def says_dials_def)

text \<open>What a step has to leave for the effects to keep watch.\<close>

lemma watched_rendered:
  assumes "dials_watched p" and "submissions_say (ep_requests q) (ep_posts q) (ep_state q)"
    and kept: "ep_session p \<noteq> None \<Longrightarrow> ep_session q = ep_session p \<and> ep_posted q = ep_posted p
      \<and> (dialled (ep_state q) = dialled (ep_state p) \<longrightarrow> ep_dialTimer q \<or> last_says (ep_posts q) (ep_state q))"
    and opened: "ep_session p = None \<Longrightarrow> ep_session q \<noteq> None \<Longrightarrow> ep_posted q = None \<and> last_says (ep_posts q) (ep_state q)"
  shows "dials_watched (rendered False p q)"
proof (cases "ep_session p")
  case None
  with assms(2) opened show ?thesis by (auto simp: dials_watched_def rendered_dials)
next
  case (Some r)
  with assms(1) have posted: "ep_posted p = Some (dialled (ep_state p))" by (simp add: dials_watched_def)
  from Some kept have q: "ep_session q = ep_session p" "ep_posted q = ep_posted p" by simp_all
  show ?thesis
  proof (cases "dialled (ep_state q) = dialled (ep_state p)")
    case True
    with kept Some q posted assms(2) show ?thesis by (simp add: dials_watched_def rendered_dials)
  next
    case False
    with Some q posted assms(2) show ?thesis by (simp add: dials_watched_def rendered_dials)
  qed
qed

text \<open>A step that keeps what the dials say only has to leave the submissions as they should be.\<close>

lemma watched_same:
  assumes "dials_watched p" and "dialled (ep_state q) = dialled (ep_state p)" and "ep_session q = ep_session p"
    and "ep_posted q = ep_posted p" and "ep_dialTimer q = ep_dialTimer p" and "ep_posts q = ep_posts p"
    and "submissions_say (ep_requests q) (ep_posts p) (ep_state p)"
  shows "dials_watched (rendered False p q)"
  using assms submissions_say_cong[OF assms(2), of "ep_requests q" "ep_posts p"] last_says_cong[OF assms(2), of "ep_posts p"]
  by (auto simp: dials_watched_def rendered_dials)

lemma dials_watched_answered:
  assumes p: "one_act p" "dials_watched p" and i: "i < length (ep_requests p)" and steady: "steady_answer (ep_requests p ! i) a p"
    and ans: "answered (ep_requests p ! i) a (taken i p) = Some q"
  shows "dials_watched (rendered False p q)"
proof -
  note t = one_act_taken[OF p(1) i]
  have "set (ep_requests (taken i p)) \<subseteq> set (ep_requests p)"
    using taken_out(1)[OF i] by (auto simp: taken_def)
  with p(2) have subs: "submissions_say (ep_requests (taken i p)) (ep_posts p) (ep_state p)"
    unfolding dials_watched_def by (blast intro: submissions_subset)
  have watch: "ep_session p \<noteq> None \<Longrightarrow> ep_dialTimer p \<or> last_says (ep_posts p) (ep_state p)" using p(2) by (simp add: dials_watched_def)
  have at: "ep_requests p ! i \<in> set (ep_requests p)" using i by simp
  have say: "says_dials doc (ep_state p)" if "submitted (ep_requests p ! i) = Some doc" for doc
    using p(2) at that unfolding dials_watched_def submissions_say_def by blast
  show ?thesis using ans
  proof (cases rule: answered.elims)
    case (1 b)
    show ?thesis
    proof (rule watched_rendered[OF p(2)])
      show "submissions_say (ep_requests q) (ep_posts q) (ep_state q)"
      proof (cases b)
        case (Answered programme)
        with 1 steady have "\<forall>r\<in>set (ep_requests p). submitted r = None" by simp
        with \<open>set (ep_requests (taken i p)) \<subseteq> set (ep_requests p)\<close> 1 Answered show ?thesis
          by (intro submissions_none) (auto simp: options_answered_def)
      qed (use 1 subs taken_frame[of i p] in \<open>simp add: options_answered_def\<close>)
    qed (use 1 watch taken_frame[of i p] last_says_cong[of "ep_state q" "ep_state p" "ep_posts p"] in
        \<open>auto simp: options_answered_def split: service_answer.splits\<close>)
  next
    case (2 position b)
    have "dialled (withFetchedBoundary s x y) = dialled s" for s x y by (simp add: dialled_def withFetchedBoundary_def)
    then have state: "dialled (ep_state q) = dialled (ep_state p)" using 2
      by (auto simp: parcel_answered_def split: service_answer.split option.split)
    have frame: "ep_requests q = ep_requests (taken i p)" "ep_posts q = ep_posts p" "ep_session q = ep_session p" "ep_posted q = ep_posted p"
      "ep_dialTimer q = ep_dialTimer p" using 2 by (auto simp: parcel_answered_def split: service_answer.split option.split)
    show ?thesis by (rule watched_same[OF p(2) state]) (use subs frame in simp_all)
  next
    case (3 x b)
    show ?thesis
      by (rule watched_rendered[OF p(2)]) (use 3 subs watch in \<open>auto simp: code_answered_page_def split: service_answer.split\<close>)
  next
    case (4 x y submission b)
    show ?thesis
    proof (rule watched_rendered[OF p(2)])
      show "submissions_say (ep_requests q) (ep_posts q) (ep_state q)"
      proof (cases b)
        case (Answered ticket)
        show ?thesis
        proof (cases submission)
          case None
          with 4 Answered subs taken_frame[of i p] show ?thesis by (simp add: ticket_answered_def)
        next
          case (Some doc)
          with 4 Answered t(2) say show ?thesis
            by (auto simp: ticket_answered_def post_first_def send_out_def submissions_say_def)
        qed
      qed (use 4 subs taken_frame[of i p] in \<open>simp add: ticket_answered_def\<close>)
    qed (use 4 watch t(3) in \<open>auto simp: ticket_answered_def post_first_def send_out_def split: service_answer.split option.split\<close>)
  next
    case (5 doc x b)
    then have "ep_session p = None" using t(3) by simp
    moreover have "last_says (ep_posts p) (ep_state p)"
      using p(2) at say 5 unfolding last_says_def dials_watched_def submissions_say_def by fastforce
    moreover have "ep_posted p = None" using p(1) \<open>ep_session p = None\<close> by (simp add: one_act_def)
    ultimately show ?thesis using 5 subs
      by (intro watched_rendered[OF p(2)]) (auto simp: first_posted_def split: service_answer.split prod.split)
  next
    case (6 doc x b)
    with steady show ?thesis using subs watch
      by (intro watched_rendered[OF p(2)]) (auto simp: dials_posted_def split: service_answer.splits prod.splits)
  next
    case (7 x y z who b)
    then have q: "q = findings_answered who b (taken i p)" by simp
    have frame: "ep_state q = ep_state p" "ep_session q = ep_session p" "ep_posted q = ep_posted p" "ep_dialTimer q = ep_dialTimer p"
      "ep_posts q = ep_posts p" "ep_requests q = ep_requests (taken i p)"
      unfolding q findings_answered_def Let_def by (simp_all split: service_answer.split prod.split)
    show ?thesis by (rule watched_same[OF p(2)]) (use subs frame in simp_all)
  qed simp_all
qed

lemma dialled_frame:
  "dialled (withPosition tr s position placedBy) = dialled s" "dialled (withDrawnBoundary s boundary) = dialled s"
  "dialled (withBoundaryCleared s) = dialled s" "dialled (s\<lparr>es_siteName := t\<rparr>) = dialled s"
  "dialled (s\<lparr>es_contactName := t\<rparr>) = dialled s" "dialled (s\<lparr>es_emailAddress := t\<rparr>) = dialled s"
  by (simp_all add: dialled_def withPosition_def withDrawnBoundary_def withBoundaryCleared_def)

lemma submissions_snoc: "submissions_say (rs @ [r]) posts s \<longleftrightarrow> submissions_say rs posts s \<and> submissions_say [r] posts s"
  by (auto simp: submissions_say_def)

lemma dials_watched_step:
  assumes p: "one_act p" "dials_watched p" and steady: "steady e p" and step: "explore_next tr configured e p = Some q"
  shows "dials_watched q"
proof -
  obtain q' where act: "explore_act tr configured e p = Some q'" and q: "q = rendered (e = LanguageChanged) p q'"
    using step by (auto simp: explore_next_def)
  from p(2) have subs: "submissions_say (ep_requests p) (ep_posts p) (ep_state p)"
    and watch: "ep_session p \<noteq> None \<Longrightarrow> ep_dialTimer p \<or> last_says (ep_posts p) (ep_state p)" by (simp_all add: dials_watched_def)
  have "dials_watched (rendered False p q')"
  proof (cases e)
    case (Answer i a)
    with act have "i < length (ep_requests p)" "answered (ep_requests p ! i) a (taken i p) = Some q'" by (auto split: if_splits)
    with p steady Answer show ?thesis by (intro dials_watched_answered) auto
  next
    case (Claimed f s)
    with act have "q' = claim f s p" by (auto split: if_splits)
    with subs show ?thesis by (intro watched_same[OF p(2)]; cases f) (simp_all add: claim_def dialled_frame)
  next
    case (Turned d)
    with act have "ep_session p \<noteq> None" and q': "q' = p\<lparr>ep_state := turn d (ep_state p)\<rparr>" by (auto split: if_splits)
    with p(1) have "submissions_say (ep_requests p) (ep_posts p) s" for s by (intro submissions_none) (simp add: one_act_def)
    with q' watch last_says_cong[of "turn d (ep_state p)" "ep_state p" "ep_posts p"] show ?thesis
      by (intro watched_rendered[OF p(2)]) auto
  next
    case DialSettled
    with act p(1) have s: "ep_session p \<noteq> None" "ep_ticket p \<noteq> None" "q' = dial_settled p" by (auto simp: one_act_def split: if_splits)
    with p(1) have "\<forall>r\<in>set (ep_requests p). submitted r = None" by (simp add: one_act_def)
    then have "\<forall>r\<in>set (ep_requests q'). submitted r = None" using s by (auto simp: dial_settled_def send_out_def)
    then have "submissions_say (ep_requests q') (ep_posts q') (ep_state q')" by (rule submissions_none)
    then show ?thesis using s by (intro watched_rendered[OF p(2)]) (auto simp: dial_settled_def send_out_def last_says_def says_dials_def)
  next
    case PollFired
    with act obtain z where "q' = poll_fired z p" by auto
    with subs show ?thesis by (intro watched_same[OF p(2)]; cases "POLLS_AFTER_SUBMIT \<le> z") (simp_all add: poll_fired_def)
  next
    case Refreshed
    with act have "q' = readFindings Unwatched p" by (auto split: if_splits)
    with subs show ?thesis by (intro watched_same[OF p(2)]) simp_all
  next
    case PressedClaim
    with act have "q' = press_claim p" by (auto split: if_splits)
    with subs show ?thesis
      by (intro watched_same[OF p(2)]; cases "ep_awaitingCode p")
        (auto simp: press_claim_def ask_code_def send_out_def submissions_snoc submissions_say_def says_dials_def)
  next
    case AskedCodeAgain
    with act have "q' = ask_code p" by (auto split: if_splits)
    with subs show ?thesis by (intro watched_same[OF p(2)]) (auto simp: ask_code_def send_out_def submissions_say_def)
  next
    case Resumed
    with act have "q' = resume p" by (auto split: if_splits)
    with subs show ?thesis by (intro watched_same[OF p(2)]) (auto simp: resume_def send_out_def submissions_say_def)
  next
    case (Picked position placedBy)
    with act have "q' = pick tr position placedBy p" by (auto split: if_splits)
    with subs show ?thesis by (intro watched_same[OF p(2)]) (auto simp: pick_def send_out_def dialled_frame submissions_say_def)
  next
    case (Drew boundary)
    with act have "q' = p\<lparr>ep_state := withDrawnBoundary (ep_state p) boundary\<rparr>" by (auto split: if_splits)
    with subs show ?thesis by (intro watched_same[OF p(2)]) (simp_all add: dialled_frame)
  next
    case Cleared
    with act have "q' = p\<lparr>ep_state := withBoundaryCleared (ep_state p)\<rparr>" by (auto split: if_splits)
    with subs show ?thesis by (intro watched_same[OF p(2)]) (simp_all add: dialled_frame)
  next
    case LanguageChanged
    with steady show ?thesis by simp
  next
    case (SurveyRefused ofTicket)
    with act have "q' = (if ofTicket then p\<lparr>ep_expired := True\<rparr> else p)" by (auto split: if_splits)
    with subs show ?thesis by (intro watched_same[OF p(2)]) simp_all
  qed (use act subs in \<open>auto intro!: watched_same[OF p(2)] split: if_splits\<close>)
  moreover have "(e = LanguageChanged) = False" using steady by (cases e) auto
  ultimately show ?thesis using q by simp
qed

lemma run_watched:
  assumes "explore_run tr configured steady p"
  shows "dials_watched p"
proof -
  from assms have "one_act p \<and> dials_watched p"
  proof (rule explore_invariant)
    show "one_act (explore_start uuid) \<and> dials_watched (explore_start uuid)" for uuid
      by (simp add: one_act_def dials_watched_def submissions_say_def explore_start_def)
  qed (use one_act_step dials_watched_step in blast)
  then show ?thesis ..
qed


subsection \<open>Runs that are played\<close>

fun explore_play :: "(string \<Rightarrow> string \<Rightarrow> string) \<Rightarrow> bool \<Rightarrow> (explore_event \<Rightarrow> explore_page \<Rightarrow> bool) \<Rightarrow> explore_event list
    \<Rightarrow> explore_page \<Rightarrow> explore_page option" where
  "explore_play tr configured allowed [] p = Some p"
| "explore_play tr configured allowed (e # es) p = (if \<not> allowed e p then None
     else (case explore_next tr configured e p of None \<Rightarrow> None | Some q \<Rightarrow> explore_play tr configured allowed es q))"

lemma explore_played:
  "explore_play tr configured allowed es p = Some q \<Longrightarrow> explore_run tr configured allowed p \<Longrightarrow> explore_run tr configured allowed q"
proof (induction es arbitrary: p)
  case (Cons e es)
  then show ?case by (auto split: if_splits option.splits intro: explore_run.stepped)
qed simp

definition a_parcel :: fetched_parcel where
  "a_parcel = \<lparr>fp_boundary = [a_corner 5235 521, a_corner 5236 521, a_corner 5236 523], fp_attribution = Some ''Kadaster''\<rparr>"

text \<open>A pin, the register's parcel for it, a name and an address.\<close>

definition pinned :: "explore_event list" where
  "pinned = [Answer 0 (OptionsAnswer (Answered [])), Picked (a_corner 5235 522) FromMap,
     Answer 0 (ParcelAnswer (Answered (Some a_parcel)))]"

definition claimed :: "explore_event list" where
  "claimed = [Claimed ClaimContactName ''Ada'', Claimed ClaimEmailAddress ''ada@example.org'', PressedClaim, Answer 0 (CodeAnswer (Answered ())),
     TypedCode ''1234'', PressedClaim]"

definition reported :: "explore_event list" where
  "reported = [Answer 0 (TicketAnswer (Answered ''t1'')), Answer 0 (PostAnswer (Answered (''r1'', ''t2''))),
     Answer 0 (FindingsAnswer (Answered (JNull, ''t3''))), Turned (DialPopulation ''40'')]"

definition pin_named :: "string \<Rightarrow> string \<Rightarrow> string" where
  "pin_named latitude longitude = ''Plot 4''"

lemma explore_play_append:
  "explore_play tr configured allowed (es @ fs) p = Option.bind (explore_play tr configured allowed es p) (explore_play tr configured allowed fs)"
  by (induction es arbitrary: p) (auto split: option.splits)

lemmas explore_eval = explore_next_def rendered_def dial_effect_def poll_effect_def Let_def taken_def send_out_def

definition pinned_page :: "explore_page \<Rightarrow> bool" where
  "pinned_page p \<longleftrightarrow> landDescribed (ep_state p) \<and> es_boundarySource (ep_state p) = Some FetchedFromRegister
     \<and> es_siteName (ep_state p) = ''Plot 4'' \<and> ep_requests p = [] \<and> ep_session p = None \<and> \<not> ep_busy p \<and> \<not> ep_dialTimer p \<and> ep_posted p = None
     \<and> \<not> ep_awaitingCode p \<and> ep_posts p = [] \<and> es_population (ep_state p) = [] \<and> es_householdSize (ep_state p) = []
     \<and> es_shares (ep_state p) = [] \<and> es_reportedHazards (ep_state p) = []"

definition fits_pin :: "boundary_point \<Rightarrow> fetched_parcel \<Rightarrow> bool" where
  "fits_pin here parcel \<longleftrightarrow> here = a_corner 5235 522 \<and> parcel = a_parcel"

lemma pinned_played:
  "\<exists>p. explore_play pin_named True (\<lambda>e p. steady e p \<and> parcels_fit fits_pin e p) pinned (explore_start ''s1'') = Some p \<and> pinned_page p"
  by (simp add: pinned_def explore_eval explore_start_def emptyExplore_def options_answered_def seededShares_def pick_def withPosition_def
      parcel_answered_def same_position_def same_number_def a_corner_def a_parcel_def withFetchedBoundary_def pinned_page_def landDescribed_def
      enclosesLand_def fits_pin_def defaultSiteName_def pin_named_def of_entries_def)

lemma escape_char_some: "escape_char c \<noteq> []"
  by (simp add: escape_char_def Let_def)

lemma population_dialled: "es_population s = [] \<Longrightarrow> dialled (s\<lparr>es_population := ''40''\<rparr>) \<noteq> dialled s"
  using escape_char_some by (simp add: dialled_def json_stringify_def quote_def)

lemma unreported_next:
  assumes "ep_session p = None" and "\<not> ep_dialTimer p" and "e \<noteq> LanguageChanged" and "explore_act tr configured e p = Some q"
    and "ep_session q = None" and "\<not> ep_dialTimer q"
  shows "explore_next tr configured e p = Some q"
proof -
  have "rendered False p q = q" using assms(1,2,5,6) by (simp add: rendered_def dial_effect_def)
  with assms(3,4) show ?thesis by (simp add: explore_next_def)
qed

lemma trimmed_address: "trim ''ada@example.org'' = ''ada@example.org''"
  by code_simp

text \<open>The ticket is being asked for, with a document that was made of the claimed land.\<close>

definition submitting :: "explore_page \<Rightarrow> bool" where
  "submitting p \<longleftrightarrow> (\<exists>address code doc. ep_requests p = [AskTicket address code (Some doc)]) \<and> ep_session p = None \<and> \<not> ep_dialTimer p
     \<and> ep_posted p = None \<and> ep_posts p = [] \<and> es_population (ep_state p) = []"

lemma claimed_played:
  assumes "pinned_page p"
  shows "\<exists>q. explore_play pin_named True steady claimed p = Some q \<and> submitting q"
  using assms
  by (simp add: claimed_def unreported_next pinned_page_def claim_shown_def claim_def landDescribed_def press_claim_def claim_held_back_def
      explore_ready_def ask_code_def code_answered_page_def send_out_def taken_def blank_def trimmed trimmed_address submitting_def)

lemma reported_played:
  assumes "submitting p"
  shows "\<exists>q. explore_play pin_named True steady reported p = Some q \<and> ep_session q \<noteq> None \<and> ep_dialTimer q
     \<and> ep_ticket q \<noteq> None \<and> length (ep_posts q) = 1"
  using assms
  by (auto simp: submitting_def reported_def explore_eval ticket_answered_def post_first_def first_posted_def readFindings_def
      findings_answered_def turn_def population_dialled population_dialled[THEN not_sym])

lemma settled_played:
  assumes "ep_session p \<noteq> None" and "ep_dialTimer p" and "ep_ticket p \<noteq> None"
  shows "\<exists>q. explore_play pin_named True steady [DialSettled] p = Some q \<and> ep_session q \<noteq> None \<and> \<not> ep_dialTimer q
     \<and> ep_posts q = ep_posts p @ [explore_document (ep_state p)]"
  using assms by (auto simp: explore_eval dial_settled_def)

lemma allowed_weaker:
  "explore_play tr configured allowed es p = Some q \<Longrightarrow> (\<And>e p. allowed e p \<Longrightarrow> allowed' e p)
    \<Longrightarrow> explore_play tr configured allowed' es p = Some q"
  by (induction es arbitrary: p) (auto split: if_splits option.splits)

theorem register_boundary_is_for_the_pin_witness:
  "\<exists>(s::explore_state) here. es_boundarySource s = Some FetchedFromRegister \<and> es_position s = Some here
     \<and> fits_pin here \<lparr>fp_boundary = es_boundary s, fp_attribution = es_boundaryAttribution s\<rparr>"
proof -
  obtain p where p: "explore_play pin_named True (\<lambda>e p. steady e p \<and> parcels_fit fits_pin e p) pinned (explore_start ''s1'') = Some p"
    "pinned_page p" using pinned_played by blast
  have "explore_run pin_named True (parcels_fit fits_pin) p"
    by (rule explore_played[OF allowed_weaker[OF p(1)] explore_run.opened]) simp
  from register_boundary_is_for_the_pin [OF this] p(2) show ?thesis
    by - (rule exI[of _ "ep_state p"], auto simp: pinned_page_def)
qed

lemma reported_run:
  obtains p where "explore_run pin_named True steady p" and "ep_session p \<noteq> None" and "ep_dialTimer p" and "ep_ticket p \<noteq> None"
    and "length (ep_posts p) = 1"
proof -
  obtain p where p: "explore_play pin_named True (\<lambda>e p. steady e p \<and> parcels_fit fits_pin e p) pinned (explore_start ''s1'') = Some p"
    "pinned_page p" using pinned_played by blast
  have p': "explore_run pin_named True steady p"
    by (rule explore_played[OF allowed_weaker[OF p(1)] explore_run.opened]) simp
  from claimed_played[OF p(2)] obtain q where q: "explore_play pin_named True steady claimed p = Some q" "submitting q" by blast
  from reported_played[OF q(2)] explore_played[OF _ explore_played[OF q(1) p']] that show thesis by blast
qed


subsection \<open>What makes the page forget a dial\<close>

text \<open>A change of language while a dial settles clears the timer, and the value is taken for posted: no effect posts it.\<close>

lemma language_drops_dial:
  "\<exists>p q. explore_run pin_named True steady p \<and> ep_dialTimer p \<and> explore_next pin_named True LanguageChanged p = Some q
     \<and> \<not> ep_dialTimer q \<and> ep_posts q = ep_posts p \<and> ep_posted q = Some (dialled (ep_state q))"
proof -
  obtain p where p: "explore_run pin_named True steady p" "ep_session p \<noteq> None" "ep_dialTimer p" by (rule reported_run)
  from p(1) have "dials_watched p" by (rule run_watched)
  with p show ?thesis by (auto simp: explore_next_def rendered_dials dials_watched_def)
qed

text \<open>A dial whose post is refused is taken for posted as well: the answer leaves what was posted as it was and sets no timer.\<close>

lemma refused_dials_forgotten:
  "explore_next tr configured (Answer i (PostAnswer (Refused ofTicket))) p = Some q \<Longrightarrow> i < length (ep_requests p)
    \<Longrightarrow> ep_requests p ! i = PostDials doc ticket \<Longrightarrow> ep_posted q = ep_posted p \<and> ep_dialTimer q = ep_dialTimer p"
  by (auto simp: explore_next_def rendered_dials dials_posted_def split: if_splits)

text \<open>The register's answer for the pin replaces a boundary that was drawn by hand while it was on its way.\<close>

lemma late_parcel_replaces_drawn:
  assumes "same_position position (ep_state p)" and "3 \<le> length (fp_boundary parcel)"
  shows "es_boundary (ep_state (parcel_answered position (Answered (Some parcel)) p)) = fp_boundary parcel"
  using assms by (simp add: parcel_answered_def withFetchedBoundary_def)
end
