(* ===== verification/ServiceHandling.thy ===== *)
theory ServiceHandling
  imports IndexFacts PipelineRoles
begin

section \<open>Which services ran on a Thing (components/dashboard/detail/serviceHandling.ts)\<close>

text \<open>
  A service is reached through a connection: the predicate of a handled relationship, or the target of a record
  relationship, or of the vigil it names. The wiring is read from one index and the relationships of the Thing from
  another, which may hold none of the wiring. Reading a date is the parameter \<open>time\<close>, nothing where the text is none.
\<close>

definition VIGIL_ROLE_ID :: string where
  "VIGIL_ROLE_ID = ''b1cea8ff-7b7e-584d-9f8e-1e7813f52c7e''"

definition NOTIFIED_CONNECTION_ROLE_ID :: string where
  "NOTIFIED_CONNECTION_ROLE_ID = ''8ac302e3-3de9-51db-8960-65f33396838e''"

definition CALL_RECORD_ROLE_ID :: string where
  "CALL_RECORD_ROLE_ID = ''dfe02bba-b36e-56ca-9dc3-58ca35c71940''"

record service_edge =
  sg_relationshipId :: string
  sg_serviceId :: "string option"
  sg_serviceName :: string
  sg_connectionName :: string

record service_call =
  sc_edge :: service_edge
  sc_at :: "string option"
  sc_state :: "string option"
  sc_error :: "string option"

record service_wiring =
  sw_connectionIds :: "string list"
  sw_serviceByConnection :: "(string, vos_thing) omap"
  sw_connectionByVigil :: "(string, string) omap"
  sw_recordPredicateId :: "string option"

subsection \<open>The wiring\<close>

text \<open>The one Thing a role binds; a role bound twice answers nothing.\<close>

definition role_bindings :: "model_index \<Rightarrow> string \<Rightarrow> vos_relationship list" where
  "role_bindings ix roleId = concat (map (\<lambda>(predicateId, name). if name \<noteq> BINDS_PREDICATE_NAME then []
     else filter (\<lambda>edge. rSubjectId edge = roleId) (listed (mi_relationshipsByPredicate ix) predicateId)) (mi_predicateIdToName ix))"

definition bound_once :: "model_index \<Rightarrow> string \<Rightarrow> vos_thing option" where
  "bound_once ix roleId = (case role_bindings ix roleId of [edge] \<Rightarrow> oget (mi_byId ix) (rTargetId edge) | _ \<Rightarrow> None)"

definition members_bound :: "model_index \<Rightarrow> string \<Rightarrow> string list" where
  "members_bound ix roleId = (case bound_once ix roleId of None \<Rightarrow> [] | Some archetype \<Rightarrow> fst (thingIdsOfArchetype (tName archetype) ix))"

definition wire_service :: "model_index \<Rightarrow> string list \<Rightarrow> string list \<Rightarrow> (string, vos_thing) omap \<Rightarrow> vos_relationship \<Rightarrow> (string, vos_thing) omap" where
  "wire_service ix connectionIds serviceIds m edge =
     (if rSubjectId edge \<in> set connectionIds \<and> rTargetId edge \<in> set serviceIds \<and> \<not> ohas m (rSubjectId edge)
      then (case oget (mi_byId ix) (rTargetId edge) of Some service \<Rightarrow> oput (rSubjectId edge) service m | None \<Rightarrow> m) else m)"

definition wire_vigil :: "string list \<Rightarrow> string option \<Rightarrow> (string, string) omap \<Rightarrow> vos_relationship \<Rightarrow> (string, string) omap" where
  "wire_vigil vigilIds notified m edge =
     (if rSubjectId edge \<in> set vigilIds \<and> Some (rPredicateId edge) = notified \<and> \<not> ohas m (rSubjectId edge)
      then oput (rSubjectId edge) (rTargetId edge) m else m)"

definition serviceWiring :: "model_index \<Rightarrow> service_wiring" where
  "serviceWiring ix =
     (let connectionIds = members_bound ix (ROLE RConnection); serviceIds = members_bound ix (ROLE RService);
          vigilIds = members_bound ix VIGIL_ROLE_ID; notified = map_option tId (bound_once ix NOTIFIED_CONNECTION_ROLE_ID)
      in \<lparr>sw_connectionIds = connectionIds,
          sw_serviceByConnection = foldl (wire_service ix connectionIds serviceIds) [] (mi_relationships ix),
          sw_connectionByVigil = foldl (wire_vigil vigilIds notified) [] (mi_relationships ix),
          sw_recordPredicateId = map_option tId (bound_once ix CALL_RECORD_ROLE_ID)\<rparr>)"

subsection \<open>The calls\<close>

definition called_connection :: "service_wiring \<Rightarrow> vos_relationship \<Rightarrow> string" where
  "called_connection w edge = (if Some (rPredicateId edge) = sw_recordPredicateId w
     then (case oget (sw_connectionByVigil w) (rTargetId edge) of Some c \<Rightarrow> c | None \<Rightarrow> rTargetId edge) else rPredicateId edge)"

definition service_edge_of :: "service_wiring \<Rightarrow> model_index \<Rightarrow> vos_relationship \<Rightarrow> service_edge" where
  "service_edge_of w wiringIndex edge =
     (let connectionId = called_connection w edge;
          connectionName = (case oget (mi_byId wiringIndex) connectionId of Some t \<Rightarrow> tName t | None \<Rightarrow> connectionId);
          service = oget (sw_serviceByConnection w) connectionId
      in \<lparr>sg_relationshipId = rId edge, sg_serviceId = map_option tId service,
          sg_serviceName = (case service of Some s \<Rightarrow> tName s | None \<Rightarrow> connectionName), sg_connectionName = connectionName\<rparr>)"

definition serviceEdgesOn :: "string \<Rightarrow> model_index \<Rightarrow> model_index \<Rightarrow> service_edge list" where
  "serviceEdgesOn thingId ix wiringIndex =
     (let w = serviceWiring wiringIndex
      in map (service_edge_of w wiringIndex) (filter (\<lambda>edge. rSubjectId edge = thingId \<and> called_connection w edge \<in> set (sw_connectionIds w))
           (mi_relationships ix)))"

definition stampedString :: "props \<Rightarrow> string \<Rightarrow> string option" where
  "stampedString ps name = (case oget ps name of Some (JStr s) \<Rightarrow> if s = [] then None else Some s | _ \<Rightarrow> None)"

definition call_of :: "(string, vos_relationship) omap \<Rightarrow> service_edge \<Rightarrow> service_call" where
  "call_of stamped edge =
     (let ps = (case oget stamped (sg_relationshipId edge) of Some r \<Rightarrow> rProperties r | None \<Rightarrow> [])
      in \<lparr>sc_edge = edge, sc_at = stampedString ps ''__CallLastAttemptAt'', sc_state = stampedString ps ''__CallState'',
          sc_error = stampedString ps ''__CallLastError''\<rparr>)"

text \<open>The difference of two dates is no number where either is none, and counts as no difference.\<close>

definition time_between :: "(string \<Rightarrow> int option) \<Rightarrow> string \<Rightarrow> string \<Rightarrow> int" where
  "time_between time a b = (case (time a, time b) of (Some x, Some y) \<Rightarrow> x - y | _ \<Rightarrow> 0)"

definition undated_last :: "(string \<Rightarrow> int option) \<Rightarrow> service_call \<Rightarrow> service_call \<Rightarrow> int" where
  "undated_last time a b = (case sc_at a of None \<Rightarrow> if sc_at b = None then 0 else 1
     | Some x \<Rightarrow> (case sc_at b of None \<Rightarrow> - 1 | Some y \<Rightarrow> time_between time x y))"

definition serviceCallsFrom :: "(string \<Rightarrow> int option) \<Rightarrow> service_edge list \<Rightarrow> (string, vos_relationship) omap \<Rightarrow> service_call list" where
  "serviceCallsFrom time edges stamped = sort_by (undated_last time) (map (call_of stamped) edges)"

subsection \<open>What is shown\<close>

text \<open>The first relationship that qualifies is the one kept.\<close>

lemma service_wired: "oget (foldl (wire_service ix connectionIds serviceIds) m rs) c =
  (case oget m c of Some s \<Rightarrow> Some s
   | None \<Rightarrow> if c \<notin> set connectionIds then None else
       first_some (\<lambda>r. if rSubjectId r = c \<and> rTargetId r \<in> set serviceIds then oget (mi_byId ix) (rTargetId r) else None) rs)"
proof (induction rs arbitrary: m)
  case (Cons r rs)
  then show ?case by (auto simp: wire_service_def ohas_iff_oget split: option.splits)
qed (simp split: option.split)

lemma dates_between: "\<forall>x. time x \<noteq> None \<Longrightarrow> time_between time x y = the (time x) - the (time y)"
  by (frule spec[of _ x], drule spec[of _ y]) (auto simp: time_between_def)

lemma comparator_undated:
  assumes "\<forall>x. time x \<noteq> None"
  shows "comparator (undated_last time)"
proof
  note between = dates_between[OF assms]
  show "undated_last time a b \<le> 0 \<or> undated_last time b a \<le> 0" for a b
    by (cases "sc_at a"; cases "sc_at b") (auto simp: undated_last_def between)
  show "undated_last time a b \<le> 0 \<Longrightarrow> undated_last time b c \<le> 0 \<Longrightarrow> undated_last time a c \<le> 0" for a b c
    by (cases "sc_at a"; cases "sc_at b"; cases "sc_at c") (auto simp: undated_last_def between)
qed

text \<open>Where every text is a date, the calls are shown in the order they were made and those without a time after all others,
  none of them lost.\<close>

lemma calls_in_order:
  assumes "\<forall>x. time x \<noteq> None"
  shows "sorted_wrt (\<lambda>a b. sc_at b = None \<or> (\<exists>x y. sc_at a = Some x \<and> sc_at b = Some y \<and> the (time x) \<le> the (time y)))
      (serviceCallsFrom time edges stamped)
    \<and> set (map sc_edge (serviceCallsFrom time edges stamped)) = set edges
    \<and> length (serviceCallsFrom time edges stamped) = length edges"
proof -
  have sorted: "sorted_wrt (\<lambda>a b. undated_last time a b \<le> 0) (serviceCallsFrom time edges stamped)"
    unfolding serviceCallsFrom_def by (rule comparator.sorted_sort_by[OF comparator_undated[OF assms]])
  have "sc_at b = None \<or> (\<exists>x y. sc_at a = Some x \<and> sc_at b = Some y \<and> the (time x) \<le> the (time y))"
    if "undated_last time a b \<le> 0" for a b
    using that by (cases "sc_at a"; cases "sc_at b") (auto simp: undated_last_def dates_between[OF assms])
  then have "sorted_wrt (\<lambda>a b. sc_at b = None \<or> (\<exists>x y. sc_at a = Some x \<and> sc_at b = Some y \<and> the (time x) \<le> the (time y)))
      (serviceCallsFrom time edges stamped)" by (rule sorted_wrt_mono_rel[OF _ sorted])
  moreover have "set (map sc_edge (serviceCallsFrom time edges stamped)) = set edges"
    by (simp add: serviceCallsFrom_def call_of_def Let_def image_image)
  ultimately show ?thesis by (simp add: serviceCallsFrom_def)
qed

text \<open>Only the end the work was done on counts: a Thing that is pointed at claims no call.\<close>

lemma pointed_at_claims_nothing:
  "\<forall>r\<in>set (mi_relationships ix). rSubjectId r \<noteq> thingId \<Longrightarrow> serviceEdgesOn thingId ix wiringIndex = []"
  by (auto simp: serviceEdgesOn_def Let_def filter_empty_conv)

end
