(* ===== verification/EntityDetail.thy ===== *)
theory EntityDetail
  imports ServiceHandling
begin

section \<open>What a detail card follows (components/dashboard/detail/entityDetail.ts)\<close>

text \<open>
  The relations of a specification, followed from the Thing a card is about outward. A path never comes back to a Thing it
  has passed, so a relation that circles ends; the tree of a specification is as deep as its nesting.
\<close>

datatype resolved_relation = ResolvedRelation (rr_label: string) (rr_predicate: string) (rr_direction: step_direction)
    (rr_edges: "resolved_edge list")
  and resolved_edge = ResolvedEdge (re_thingId: string) (re_subjectName: string) (re_targetName: string) (re_relatedName: string)
    (re_properties: "(string \<times> json) list") (re_children: "resolved_relation list")

text \<open>The archetype of each Thing, from the first relationship along \<open>is\<close>.\<close>

definition archetypeNames :: "model_index \<Rightarrow> (string, string) omap" where
  "archetypeNames ix = (case oget (mi_predicateNameToId ix) IS_PREDICATE of None \<Rightarrow> []
     | Some isId \<Rightarrow> if isId = [] then [] else
         foldl (\<lambda>names r. if rPredicateId r \<noteq> isId \<or> ohas names (rSubjectId r) then names
           else oput (rSubjectId r) (case oget (mi_byId ix) (rTargetId r) of Some t \<Rightarrow> tName t | None \<Rightarrow> rTargetId r) names)
           [] (mi_relationships ix))"

definition selectProperties :: "(string \<Rightarrow> string \<Rightarrow> int) \<Rightarrow> vos_thing \<Rightarrow> shown_properties option \<Rightarrow> model_index \<Rightarrow> (string \<times> json) list" where
  "selectProperties lc t which ix = (case which of None \<Rightarrow> []
     | Some AllProperties \<Rightarrow> effective lc ix t
     | Some (Keys keys) \<Rightarrow> List.map_filter (\<lambda>k. map_option (\<lambda>v. (k, v)) (oget (effective lc ix t) k)) keys)"

text \<open>The Things one relation reaches from the anchor, in the order of the model's relationships.\<close>

definition related_ids :: "model_index \<Rightarrow> (string, string) omap \<Rightarrow> string \<Rightarrow> step_direction \<Rightarrow> string option \<Rightarrow> string \<Rightarrow> string list \<Rightarrow> string list" where
  "related_ids ix archetypeOf predicate direction archetype anchorId visited =
     (case oget (mi_predicateNameToId ix) predicate of None \<Rightarrow> []
      | Some predicateId \<Rightarrow> if predicateId = [] then [] else
          filter (\<lambda>i. i \<noteq> [] \<and> i \<notin> set visited \<and> (case archetype of None \<Rightarrow> True | Some a \<Rightarrow> a = [] \<or> oget archetypeOf i = Some a))
            (List.map_filter (\<lambda>r. if rPredicateId r \<noteq> predicateId then None
               else if direction = Out then (if rSubjectId r = anchorId then Some (rTargetId r) else None)
               else (if rTargetId r = anchorId then Some (rSubjectId r) else None)) (mi_relationships ix)))"

definition name_in :: "model_index \<Rightarrow> string \<Rightarrow> string" where
  "name_in ix i = (case oget (mi_byId ix) i of Some t \<Rightarrow> tName t | None \<Rightarrow> i)"

fun inline_relation :: "relation_specification \<Rightarrow> bool" where
  "inline_relation (RelationSpecification _ _ _ _ _ inline _) \<longleftrightarrow> inline = Some True"

definition nested_relations :: "relation_specification list option \<Rightarrow> relation_specification list" where
  "nested_relations relations = (case relations of None \<Rightarrow> [] | Some rs \<Rightarrow> rs)"

lemma size_nested_relation: "x \<in> set rs \<Longrightarrow> size x \<le> size_list size rs"
  by (induction rs) auto

function resolve_relation :: "(string \<Rightarrow> string \<Rightarrow> int) \<Rightarrow> model_index \<Rightarrow> (string, string) omap \<Rightarrow> string \<Rightarrow> string list
    \<Rightarrow> relation_specification \<Rightarrow> resolved_relation" where
  "resolve_relation lc ix archetypeOf anchorId visited (RelationSpecification predicate direction archetype label properties inline relations) =
     (let direction = (case direction of Some d \<Rightarrow> d | None \<Rightarrow> Out);
          inner = (\<lambda>relatedId. map (\<lambda>child. (inline_relation child, resolve_relation lc ix archetypeOf relatedId (visited @ [relatedId]) child))
            (nested_relations relations));
          edges = map (\<lambda>relatedId.
            let hoisted = concat (map (\<lambda>(_, g). concat (map re_properties (rr_edges g))) (filter fst (inner relatedId)));
                shown = (case oget (mi_byId ix) relatedId of Some related \<Rightarrow> selectProperties lc related properties ix | None \<Rightarrow> [])
            in ResolvedEdge relatedId
                 (if direction = Out then name_in ix anchorId else name_in ix relatedId)
                 (if direction = Out then name_in ix relatedId else name_in ix anchorId)
                 (name_in ix relatedId) (hoisted @ shown) (map snd (filter (\<lambda>(h, _). \<not> h) (inner relatedId))))
            (related_ids ix archetypeOf predicate direction archetype anchorId visited)
      in ResolvedRelation (case label of Some l \<Rightarrow> l | None \<Rightarrow> predicate) predicate direction
           (sort_by (\<lambda>a b. lc (re_relatedName a) (re_relatedName b)) edges))"
  by pat_completeness auto
termination
proof (relation "measure (\<lambda>(lc, ix, archetypeOf, anchorId, visited, specification). size specification)", goal_cases)
  case (2 lc ix archetypeOf anchorId visited predicate direction archetype label properties inline relations)
  then show ?case using size_nested_relation by (cases relations) (fastforce simp: nested_relations_def)+
qed simp

declare resolve_relation.simps [simp del]

definition resolveRelations :: "(string \<Rightarrow> string \<Rightarrow> int) \<Rightarrow> string \<Rightarrow> model_index \<Rightarrow> relation_specification list option \<Rightarrow> resolved_relation list" where
  "resolveRelations lc rootId ix specifications =
     map (resolve_relation lc ix (archetypeNames ix) rootId [rootId]) (nested_relations specifications)"

record state_transition =
  st_At :: string
  st_Entered :: "string list"
  st_Exited :: "string list"

text \<open>The changes of state, oldest first; a transition that moved none is dropped.\<close>

definition buildStateChanges :: "(string \<Rightarrow> int option) \<Rightarrow> state_transition list \<Rightarrow> state_transition list" where
  "buildStateChanges time transitions = sort_by (\<lambda>a b. time_between time (st_At a) (st_At b))
     (filter (\<lambda>t. st_Entered t \<noteq> [] \<or> st_Exited t \<noteq> []) transitions)"

subsection \<open>No Thing stands beneath itself\<close>

fun stands_apart :: "string set \<Rightarrow> resolved_relation \<Rightarrow> bool" and edge_apart :: "string set \<Rightarrow> resolved_edge \<Rightarrow> bool" where
  "stands_apart passed (ResolvedRelation label predicate direction edges) \<longleftrightarrow> list_all (edge_apart passed) edges"
| "edge_apart passed (ResolvedEdge i s t n ps children) \<longleftrightarrow> i \<notin> passed \<and> list_all (stands_apart (insert i passed)) children"

lemma related_not_visited: "i \<in> set (related_ids ix archetypeOf predicate direction archetype anchorId visited) \<Longrightarrow> i \<notin> set visited"
  by (auto simp: related_ids_def split: option.splits if_splits)

lemma resolved_stands_apart: "stands_apart (set visited) (resolve_relation lc ix archetypeOf anchorId visited spec)"
proof (induction lc ix archetypeOf anchorId visited spec rule: resolve_relation.induct)
  case (1 lc ix archetypeOf anchorId visited predicate direction archetype label properties inline relations)
  have "stands_apart (insert i (set visited)) (resolve_relation lc ix archetypeOf i (visited @ [i]) child)"
    if "child \<in> set (nested_relations relations)" for i child
    using 1[OF refl that] by simp
  then show ?case by (auto simp: resolve_relation.simps Let_def list_all_iff dest: related_not_visited)
qed

lemma card_stands_apart: "list_all (stands_apart {rootId}) (resolveRelations lc rootId ix specifications)"
  using resolved_stands_apart[of "[rootId]"] by (auto simp: resolveRelations_def list_all_iff)

end
