(* ===== verification/DecisionExplanation.thy ===== *)
theory DecisionExplanation
  imports IndexFacts JsArithmetic DashboardSubscription
begin

section \<open>Why a service decided (components/dashboard/detail/decisionExplanation.ts)\<close>

text \<open>
  A decision is a Thing; what it is about, what it chose and the considerations behind it are reached over the
  predicates that the roles of the site template bind, or over predicates refined from them. Where the cause of a
  consideration is a constraint, the numbers are read from the Things as they stood at the instant of the decision.
  Asking an index for what a role binds may fill its memory, which \<open>IndexFacts\<close> shows no answer depends on, so only
  the answer is kept here.
\<close>

subsection \<open>The data\<close>

datatype decision_role = SubjectRole | ChosenRole | DecidedUnderRole | RefusalRole | SupportRole | CauseRole | CitedRole
  | RefusedCandidateRole

definition PREDICATE_ROLES :: "decision_role \<Rightarrow> string" where
  "PREDICATE_ROLES r = (case r of
     SubjectRole \<Rightarrow> land_role ''DecisionSubject''
   | ChosenRole \<Rightarrow> land_role ''Chosen''
   | DecidedUnderRole \<Rightarrow> land_role ''DecidedUnder''
   | RefusalRole \<Rightarrow> land_role ''Refusal''
   | SupportRole \<Rightarrow> land_role ''Support''
   | CauseRole \<Rightarrow> land_role ''ConsiderationCause''
   | CitedRole \<Rightarrow> land_role ''ConsiderationEvidence''
   | RefusedCandidateRole \<Rightarrow> land_role ''RefusedCandidate'')"

record card_thing =
  nt_id :: string
  nt_name :: string

record measure_constraint =
  mc_measureSubjectProperty :: "string option"
  mc_measureCandidateProperty :: "string option"
  mc_limitSubjectProperty :: "string option"
  mc_limitCandidateProperty :: "string option"
  mc_unit :: "string option"

datatype decision_half = ForSupport | ForRefusal

record consideration =
  cs_id :: string
  cs_half :: decision_half
  cs_cause :: "card_thing option"
  cs_cited :: "card_thing option"
  cs_refusedCandidates :: "card_thing list"
  cs_candidatesRefused :: "jsnum option"
  cs_measured :: "jsnum option"
  cs_limit :: "jsnum option"
  cs_constraint :: "measure_constraint option"

record decision_explanation =
  de_id :: string
  de_name :: string
  de_kindName :: "string option"
  de_decidedAt :: "string option"
  de_subject :: "card_thing option"
  de_chose :: "card_thing option"
  de_under :: "card_thing option"
  de_score :: "jsnum option"
  de_candidatesConsidered :: "jsnum option"
  de_supports :: "consideration list"
  de_refusals :: "consideration list"

subsection \<open>The walks along \<open>is\<close>\<close>

text \<open>A stack popped from its end; what was popped before is passed over.\<close>

abbreviation walk_universe :: "(string, string list) omap \<Rightarrow> string list \<Rightarrow> string set" where
  "walk_universe m frontier \<equiv> set frontier \<union> (\<Union>(k, vs)\<in>set m. set vs)"

lemma listed_known: "set (listed m k) \<subseteq> (\<Union>(k, vs)\<in>set m. set vs)"
proof (cases "oget m k")
  case (Some vs)
  then have "(k, vs) \<in> set m" by (rule map_of_SomeD)
  with Some show ?thesis by (auto simp: listed_def)
qed (simp add: listed_def)

lemma walk_decreases:
  assumes "frontier \<noteq> []" and "last frontier \<notin> set seen"
  shows "card (walk_universe m (butlast frontier @ listed m (last frontier)) - set (seen @ [last frontier]))
    < card (walk_universe m frontier - set seen)"
proof (rule psubset_card_mono)
  have "set (butlast frontier) \<subseteq> set frontier" by (auto dest: in_set_butlastD)
  moreover have "last frontier \<in> walk_universe m frontier - set seen" using assms by simp
  ultimately show "walk_universe m (butlast frontier @ listed m (last frontier)) - set (seen @ [last frontier])
      \<subset> walk_universe m frontier - set seen" using listed_known[of m "last frontier"] by auto
qed auto

lemma walk_skips:
  assumes "frontier \<noteq> []"
  shows "card (walk_universe m (butlast frontier) - set seen) \<le> card (walk_universe m frontier - set seen)"
  by (rule card_mono) (auto dest: in_set_butlastD)

function below_loop :: "(string, string list) omap \<Rightarrow> string list \<Rightarrow> string list \<Rightarrow> string list" where
  "below_loop m beneath frontier =
     (if frontier = [] then beneath
      else if last frontier \<in> set beneath then below_loop m beneath (butlast frontier)
      else below_loop m (beneath @ [last frontier]) (butlast frontier @ listed m (last frontier)))"
  by pat_completeness auto
termination
proof (relation "measures [\<lambda>(m, seen, frontier). card (walk_universe m frontier - set seen), \<lambda>(m, seen, frontier). length frontier]",
    goal_cases)
  case (2 m seen frontier)
  with walk_skips[of frontier m seen] show ?case by auto
next
  case (3 m seen frontier)
  with walk_decreases[of frontier seen m] show ?case by simp
qed simp

function climb_loop :: "(string, string list) omap \<Rightarrow> string \<Rightarrow> string list \<Rightarrow> string list \<Rightarrow> bool" where
  "climb_loop m archetypeId seen frontier =
     (if frontier = [] then False
      else if last frontier \<in> set seen then climb_loop m archetypeId seen (butlast frontier)
      else if last frontier = archetypeId then True
      else climb_loop m archetypeId (seen @ [last frontier]) (butlast frontier @ listed m (last frontier)))"
  by pat_completeness auto
termination
proof (relation "measures [\<lambda>(m, a, seen, frontier). card (walk_universe m frontier - set seen), \<lambda>(m, a, seen, frontier). length frontier]",
    goal_cases)
  case (2 m a seen frontier)
  with walk_skips[of frontier m seen] show ?case by auto
next
  case (3 m a seen frontier)
  with walk_decreases[of frontier seen m] show ?case by simp
qed simp

declare below_loop.simps [simp del] climb_loop.simps [simp del]

subsection \<open>Reading a decision\<close>

text \<open>The first of a list of identifiers, where it is not empty.\<close>

definition first_id :: "string list \<Rightarrow> string option" where
  "first_id ids = (case ids of [] \<Rightarrow> None | i # _ \<Rightarrow> if i = [] then None else Some i)"

definition role_bound :: "string \<Rightarrow> model_index \<Rightarrow> string option" where
  "role_bound roleId ix = (case fst (thingIdBoundBy roleId ix) of None \<Rightarrow> None | Some i \<Rightarrow> if i = [] then None else Some i)"

definition boundAndBeneath :: "string \<Rightarrow> model_index \<Rightarrow> string list" where
  "boundAndBeneath roleId ix = below_loop (mi_isChildren ix) [] (case role_bound roleId ix of None \<Rightarrow> [] | Some bound \<Rightarrow> [bound])"

text \<open>The predicates playing a role; one that the read did not carry counts for nothing.\<close>

definition decisionWiring :: "model_index \<Rightarrow> decision_role \<Rightarrow> string list" where
  "decisionWiring ix r = filter (ohas (mi_byId ix)) (boundAndBeneath (PREDICATE_ROLES r) ix)"

definition named :: "model_index \<Rightarrow> string \<Rightarrow> card_thing" where
  "named ix i = \<lparr>nt_id = i, nt_name = (case oget (mi_byId ix) i of Some t \<Rightarrow> tName t | None \<Rightarrow> i)\<rparr>"

definition targetsOf :: "string \<Rightarrow> string list \<Rightarrow> model_index \<Rightarrow> string list" where
  "targetsOf subjectId predicateIds ix = concat (map (\<lambda>predicateId.
     map rTargetId (filter (\<lambda>edge. rSubjectId edge = subjectId) (listed (mi_relationshipsByPredicate ix) predicateId))) predicateIds)"

definition subjectsOf :: "string \<Rightarrow> string list \<Rightarrow> model_index \<Rightarrow> string list" where
  "subjectsOf targetId predicateIds ix = concat (map (\<lambda>predicateId.
     map rSubjectId (filter (\<lambda>edge. rTargetId edge = targetId) (listed (mi_relationshipsByPredicate ix) predicateId))) predicateIds)"

definition isOfArchetypeBoundBy :: "string \<Rightarrow> string \<Rightarrow> model_index \<Rightarrow> bool" where
  "isOfArchetypeBoundBy thingId roleId ix = (case role_bound roleId ix of None \<Rightarrow> False
     | Some archetypeId \<Rightarrow> climb_loop (mi_isParents ix) archetypeId [thingId] (listed (mi_isParents ix) thingId))"

definition number_of :: "props \<Rightarrow> string \<Rightarrow> jsnum option" where
  "number_of ps k = (case oget ps k of Some (JNum n) \<Rightarrow> Some n | _ \<Rightarrow> None)"

definition held_text :: "props \<Rightarrow> string \<Rightarrow> string option" where
  "held_text ps k = (case oget ps k of Some (JStr s) \<Rightarrow> if s = [] then None else Some s | _ \<Rightarrow> None)"

definition constraintOf :: "vos_thing \<Rightarrow> measure_constraint" where
  "constraintOf cause = \<lparr>mc_measureSubjectProperty = held_text (tProperties cause) ''measureSubjectProperty'',
     mc_measureCandidateProperty = held_text (tProperties cause) ''measureCandidateProperty'',
     mc_limitSubjectProperty = held_text (tProperties cause) ''limitSubjectProperty'',
     mc_limitCandidateProperty = held_text (tProperties cause) ''limitCandidateProperty'',
     mc_unit = held_text (tProperties cause) ''unit''\<rparr>"

definition held_properties :: "model_index \<Rightarrow> string \<Rightarrow> props" where
  "held_properties ix i = (case oget (mi_byId ix) i of Some t \<Rightarrow> tProperties t | None \<Rightarrow> [])"

definition considerationOf :: "decision_half \<Rightarrow> (decision_role \<Rightarrow> string list) \<Rightarrow> model_index \<Rightarrow> string \<Rightarrow> consideration" where
  "considerationOf half wiring ix considerationId =
     (let ps = held_properties ix considerationId;
          causeId = first_id (targetsOf considerationId (wiring CauseRole) ix);
          citedId = first_id (targetsOf considerationId (wiring CitedRole) ix)
      in \<lparr>cs_id = considerationId, cs_half = half, cs_cause = map_option (named ix) causeId,
          cs_cited = map_option (named ix) citedId,
          cs_refusedCandidates = map (named ix) (targetsOf considerationId (wiring RefusedCandidateRole) ix),
          cs_candidatesRefused = number_of ps ''candidatesRefused'', cs_measured = number_of ps ''measured'',
          cs_limit = number_of ps ''limit'',
          cs_constraint = (case Option.bind causeId (oget (mi_byId ix)) of None \<Rightarrow> None
            | Some cause \<Rightarrow> if isOfArchetypeBoundBy (tId cause) (land_role ''Constraint'') ix then Some (constraintOf cause) else None)\<rparr>)"

definition explanationOf :: "(decision_role \<Rightarrow> string list) \<Rightarrow> model_index \<Rightarrow> string \<Rightarrow> decision_explanation" where
  "explanationOf wiring ix decisionId =
     (let ps = held_properties ix decisionId; reached = (\<lambda>r. map_option (named ix) (first_id (targetsOf decisionId (wiring r) ix)))
      in \<lparr>de_id = decisionId, de_name = nt_name (named ix decisionId),
          de_kindName = Option.bind (first_id (listed (mi_isParents ix) decisionId)) (\<lambda>k. map_option tName (oget (mi_byId ix) k)),
          de_decidedAt = held_text ps ''decidedAt'', de_subject = reached SubjectRole, de_chose = reached ChosenRole,
          de_under = reached DecidedUnderRole, de_score = number_of ps ''score'',
          de_candidatesConsidered = number_of ps ''candidatesConsidered'',
          de_supports = map (considerationOf ForSupport wiring ix) (targetsOf decisionId (wiring SupportRole) ix),
          de_refusals = map (considerationOf ForRefusal wiring ix) (targetsOf decisionId (wiring RefusalRole) ix)\<rparr>)"

definition decided_text :: "decision_explanation \<Rightarrow> string" where
  "decided_text d = (case de_decidedAt d of Some s \<Rightarrow> s | None \<Rightarrow> [])"

definition latest_first :: "(string \<Rightarrow> string \<Rightarrow> int) \<Rightarrow> decision_explanation \<Rightarrow> decision_explanation \<Rightarrow> int" where
  "latest_first lc a b = (let byInstant = lc (decided_text b) (decided_text a) in
     if byInstant \<noteq> 0 then byInstant else lc (de_id a) (de_id b))"

definition decisionsOn :: "(string \<Rightarrow> string \<Rightarrow> int) \<Rightarrow> string \<Rightarrow> model_index \<Rightarrow> decision_explanation list" where
  "decisionsOn lc thingId ix =
     (let wiring = decisionWiring ix; ids = set_of (subjectsOf thingId (wiring SubjectRole) ix);
          ids = (if targetsOf thingId (wiring SubjectRole) ix \<noteq> [] then sadd thingId ids else ids)
      in sort_by (latest_first lc) (map (explanationOf wiring ix) ids))"

subsection \<open>The reads at an instant\<close>

record instant_read =
  ir_thingId :: string
  ir_instant :: string

definition instantReadKey :: "string \<Rightarrow> string \<Rightarrow> string" where
  "instantReadKey thingId instant = thingId @ ''@'' @ instant"

abbreviation read_key :: "instant_read \<Rightarrow> string" where
  "read_key r \<equiv> instantReadKey (ir_thingId r) (ir_instant r)"

definition candidatesOf :: "decision_explanation \<Rightarrow> consideration \<Rightarrow> card_thing list" where
  "candidatesOf d c = (case cs_cited c of Some cited \<Rightarrow> [cited]
     | None \<Rightarrow> if cs_half c = ForRefusal then cs_refusedCandidates c
         else (case de_chose d of Some chose \<Rightarrow> [chose] | None \<Rightarrow> []))"

definition given_name :: "string option \<Rightarrow> bool" where
  "given_name s \<longleftrightarrow> s \<noteq> None \<and> s \<noteq> Some []"

definition readsTheCandidate :: "measure_constraint \<Rightarrow> bool" where
  "readsTheCandidate k \<longleftrightarrow> given_name (mc_measureCandidateProperty k) \<or> given_name (mc_limitCandidateProperty k)"

definition readsTheSubject :: "measure_constraint \<Rightarrow> bool" where
  "readsTheSubject k \<longleftrightarrow> given_name (mc_measureSubjectProperty k) \<or> given_name (mc_limitSubjectProperty k)"

definition want :: "string \<Rightarrow> (string, instant_read) omap \<Rightarrow> card_thing \<Rightarrow> (string, instant_read) omap" where
  "want instant wanted thing = oput (instantReadKey (nt_id thing) instant) \<lparr>ir_thingId = nt_id thing, ir_instant = instant\<rparr> wanted"

definition want_consideration :: "decision_explanation \<Rightarrow> string \<Rightarrow> (string, instant_read) omap \<Rightarrow> consideration \<Rightarrow> (string, instant_read) omap" where
  "want_consideration d instant wanted c = (case cs_constraint c of None \<Rightarrow> wanted
     | Some k \<Rightarrow>
        let wanted = (if readsTheSubject k then (case de_subject d of Some s \<Rightarrow> want instant wanted s | None \<Rightarrow> wanted) else wanted)
        in if readsTheCandidate k then foldl (want instant) wanted (candidatesOf d c) else wanted)"

definition want_decision :: "(string, instant_read) omap \<Rightarrow> decision_explanation \<Rightarrow> (string, instant_read) omap" where
  "want_decision wanted d = (case de_decidedAt d of None \<Rightarrow> wanted
     | Some instant \<Rightarrow> if instant = [] then wanted
         else foldl (want_consideration d instant) wanted (de_supports d @ de_refusals d))"

definition instantReadsFor :: "decision_explanation list \<Rightarrow> instant_read list" where
  "instantReadsFor ds = map snd (foldl want_decision [] ds)"

subsection \<open>The comparisons\<close>

text \<open>A measure or a limit that is \<open>null\<close> was not answered at the instant; a limit that is absent was not declared.\<close>

record comparison =
  cp_candidate :: "card_thing option"
  cp_measure :: "jsnum option"
  cp_limit :: "jsnum option option"
  cp_unit :: "string option"

type_synonym instant_readings = "(string, vos_thing option) omap"

definition valueAtTheInstant :: "vos_thing option \<Rightarrow> string \<Rightarrow> jsnum option" where
  "valueAtTheInstant thing name = (case thing of None \<Rightarrow> None
     | Some t \<Rightarrow> (case number_of (tProperties t) name of Some own \<Rightarrow> Some own
         | None \<Rightarrow> first_some (\<lambda>(source, s). number_of (set_properties s) name)
             (case tInheritedOverrides t of None \<Rightarrow> [] | Some sets \<Rightarrow> sets)))"

text \<open>One side of a comparison: nothing where no property is named, \<open>null\<close> where it was not answered.\<close>

definition read_side :: "decision_explanation \<Rightarrow> instant_readings \<Rightarrow> card_thing option \<Rightarrow> string option \<Rightarrow> jsnum option option" where
  "read_side d readings thing name = (case name of None \<Rightarrow> None
     | Some n \<Rightarrow> if n = [] then None
         else Some (case (thing, de_decidedAt d) of
           (Some t, Some instant) \<Rightarrow> if instant = [] then None
             else valueAtTheInstant (Option.bind (oget readings (instantReadKey (nt_id t) instant)) (\<lambda>x. x)) n
         | _ \<Rightarrow> None))"

definition against :: "decision_explanation \<Rightarrow> consideration \<Rightarrow> measure_constraint \<Rightarrow> instant_readings \<Rightarrow> card_thing option \<Rightarrow> comparison" where
  "against d c k readings candidate =
     (let parts = List.map_filter (\<lambda>x. x) [read_side d readings (de_subject d) (mc_measureSubjectProperty k),
            read_side d readings candidate (mc_measureCandidateProperty k)];
          measure = (if parts \<noteq> [] then
              (if None \<in> set parts then None
               else Some (foldl (\<lambda>total part. num_add total (case part of Some n \<Rightarrow> n | None \<Rightarrow> Dec 0 0)) (Dec 0 0) parts))
            else cs_measured c);
          declaredLimit = (if given_name (mc_limitSubjectProperty k) then read_side d readings (de_subject d) (mc_limitSubjectProperty k)
            else read_side d readings candidate (mc_limitCandidateProperty k))
      in \<lparr>cp_candidate = candidate, cp_measure = measure,
          cp_limit = (case declaredLimit of None \<Rightarrow> map_option Some (cs_limit c) | Some l \<Rightarrow> Some l), cp_unit = mc_unit k\<rparr>)"

definition comparisonsOf :: "decision_explanation \<Rightarrow> consideration \<Rightarrow> instant_readings \<Rightarrow> comparison list" where
  "comparisonsOf d c readings = (case cs_constraint c of
     None \<Rightarrow> (case cs_measured c of None \<Rightarrow> []
       | Some n \<Rightarrow> [\<lparr>cp_candidate = None, cp_measure = Some n, cp_limit = map_option Some (cs_limit c), cp_unit = None\<rparr>])
   | Some k \<Rightarrow> if \<not> readsTheCandidate k then [against d c k readings None]
       else if candidatesOf d c \<noteq> [] then map (\<lambda>candidate. against d c k readings (Some candidate)) (candidatesOf d c)
       else [against d c k readings None])"

end
