(* ===== verification/DecisionFacts.thy ===== *)
theory DecisionFacts
  imports DecisionExplanation
begin

section \<open>What a decision card shows\<close>

text \<open>
  The walks of \<open>DecisionExplanation\<close> are reachability along \<open>is\<close>; the decisions a card lists are those whose
  subject the Thing is, latest first; and the numbers a card compares rest on the reads it asks for and on no other.
  The last part is the card itself (components/dashboard/detail/useDecisionExplanations.ts): what it holds, the round of
  reads under way, and that it never stops short of an answer.
\<close>

subsection \<open>The walks are reachability\<close>

definition steps_of :: "(string, string list) omap \<Rightarrow> (string \<times> string) set" where
  "steps_of m = {(x, c). c \<in> set (listed m x)}"

text \<open>What was popped has its children popped or stacked.\<close>

abbreviation gone_into :: "(string, string list) omap \<Rightarrow> string list \<Rightarrow> string list \<Rightarrow> bool" where
  "gone_into m seen frontier \<equiv> \<forall>s\<in>set seen. set (listed m s) \<subseteq> set seen \<union> set frontier"

lemma closed_reach: "S \<subseteq> T \<Longrightarrow> (\<And>s. s \<in> T \<Longrightarrow> set (listed m s) \<subseteq> T) \<Longrightarrow> (steps_of m)\<^sup>* `` S \<subseteq> T"
proof (rule subsetI)
  fix y assume "S \<subseteq> T" and closed: "\<And>s. s \<in> T \<Longrightarrow> set (listed m s) \<subseteq> T" and "y \<in> (steps_of m)\<^sup>* `` S"
  then obtain x where "(x, y) \<in> (steps_of m)\<^sup>*" "x \<in> T" by auto
  then show "y \<in> T" by (induction rule: rtrancl_induct) (use closed in \<open>auto simp: steps_of_def\<close>)
qed

lemma popped_reach:
  assumes "frontier \<noteq> []"
  shows "last frontier \<in> (steps_of m)\<^sup>* `` set frontier"
    and "(steps_of m)\<^sup>* `` set (butlast frontier @ listed m (last frontier)) \<subseteq> (steps_of m)\<^sup>* `` set frontier"
proof -
  show "last frontier \<in> (steps_of m)\<^sup>* `` set frontier" using assms by auto
  have "(steps_of m)\<^sup>* `` set (listed m (last frontier)) \<subseteq> (steps_of m)\<^sup>* `` set frontier"
    using assms by (auto simp: steps_of_def intro: converse_rtrancl_into_rtrancl dest!: last_in_set)
  then show "(steps_of m)\<^sup>* `` set (butlast frontier @ listed m (last frontier)) \<subseteq> (steps_of m)\<^sup>* `` set frontier"
    by (auto simp: Image_Un dest: in_set_butlastD)
qed

lemma popped_swallowed: "R \<subseteq> set (seen @ [x]) \<union> A \<Longrightarrow> A \<subseteq> B \<Longrightarrow> x \<in> B \<Longrightarrow> R \<subseteq> set seen \<union> B"
  by auto

lemma below_loop_sound: "set (below_loop m seen frontier) \<subseteq> set seen \<union> (steps_of m)\<^sup>* `` set frontier"
proof (induction m seen frontier rule: below_loop.induct)
  case (1 m seen frontier)
  note unfold = below_loop.simps[of m seen frontier]
  consider "frontier = []" | "frontier \<noteq> []" "last frontier \<in> set seen" | "frontier \<noteq> []" "last frontier \<notin> set seen" by blast
  then show ?case
  proof cases
    case 2
    with 1(1) unfold frontier_last[OF 2(1)] show ?thesis by auto
  next
    case 3
    have "set (below_loop m seen frontier) = set (below_loop m (seen @ [last frontier]) (butlast frontier @ listed m (last frontier)))"
      using unfold 3 by simp
    with popped_swallowed[OF 1(2)[OF 3] popped_reach(2,1)[OF 3(1)]] show ?thesis by simp
  qed (use unfold in simp)
qed

lemma below_loop_closed:
  "gone_into m seen frontier \<Longrightarrow> set seen \<union> set frontier \<subseteq> set (below_loop m seen frontier)
     \<and> (\<forall>s\<in>set (below_loop m seen frontier). set (listed m s) \<subseteq> set (below_loop m seen frontier))"
proof (induction m seen frontier rule: below_loop.induct)
  case (1 m seen frontier)
  note unfold = below_loop.simps[of m seen frontier]
  consider "frontier = []" | "frontier \<noteq> []" "last frontier \<in> set seen" | "frontier \<noteq> []" "last frontier \<notin> set seen" by blast
  then show ?case
  proof cases
    case 2
    from 1(3) frontier_last[OF 2(1)] 2(2) have "gone_into m seen (butlast frontier)" by auto
    with 1(1)[OF 2] unfold 2 frontier_last[OF 2(1)] show ?thesis by auto
  next
    case 3
    from 1(3) frontier_last[OF 3(1)] have "gone_into m (seen @ [last frontier]) (butlast frontier @ listed m (last frontier))" by auto
    with 1(2)[OF 3] unfold 3 frontier_last[OF 3(1)] show ?thesis by auto
  qed (use 1(3) unfold in auto)
qed

lemma below_loop_reach: "set (below_loop m [] frontier) = (steps_of m)\<^sup>* `` set frontier"
proof
  show "set (below_loop m [] frontier) \<subseteq> (steps_of m)\<^sup>* `` set frontier" using below_loop_sound[of m "[]" frontier] by simp
  show "(steps_of m)\<^sup>* `` set frontier \<subseteq> set (below_loop m [] frontier)"
    by (rule closed_reach) (use below_loop_closed[of "[]" m frontier] in auto)
qed

lemma climb_loop_sound: "climb_loop m a seen frontier \<Longrightarrow> a \<notin> set seen \<and> a \<in> (steps_of m)\<^sup>* `` set frontier"
proof (induction m a seen frontier rule: climb_loop.induct)
  case (1 m a seen frontier)
  note unfold = climb_loop.simps[of m a seen frontier]
  consider "frontier = []" | "frontier \<noteq> []" "last frontier \<in> set seen" | "frontier \<noteq> []" "last frontier \<notin> set seen" by blast
  then show ?case
  proof cases
    case 2
    with 1(1,3) unfold show ?thesis by (auto dest: in_set_butlastD)
  next
    case 3
    from popped_reach[OF 3(1), of m] 1(2)[OF 3] 1(3) unfold 3 show ?thesis by (auto split: if_splits)
  qed (use 1(3) unfold in auto)
qed

lemma climb_loop_fails:
  "\<not> climb_loop m a seen frontier \<Longrightarrow> gone_into m seen frontier \<Longrightarrow> a \<notin> set seen \<Longrightarrow>
   a \<notin> (steps_of m)\<^sup>* `` (set seen \<union> set frontier)"
proof (induction m a seen frontier rule: climb_loop.induct)
  case (1 m a seen frontier)
  note unfold = climb_loop.simps[of m a seen frontier]
  consider "frontier = []" | "frontier \<noteq> []" "last frontier \<in> set seen" | "frontier \<noteq> []" "last frontier \<notin> set seen" by blast
  then show ?case
  proof cases
    case 1
    with \<open>gone_into m seen frontier\<close> have "(steps_of m)\<^sup>* `` (set seen \<union> set frontier) \<subseteq> set seen"
      by (intro closed_reach) auto
    with \<open>a \<notin> set seen\<close> show ?thesis by blast
  next
    case 2
    from 1(4) frontier_last[OF 2(1)] 2(2) have "gone_into m seen (butlast frontier)" by auto
    with 1(1)[OF 2] 1(3,5) unfold 2 frontier_last[OF 2(1)] show ?thesis by auto
  next
    case 3
    with 1(3) unfold have other: "last frontier \<noteq> a" by auto
    from 1(4) frontier_last[OF 3(1)] have "gone_into m (seen @ [last frontier]) (butlast frontier @ listed m (last frontier))" by auto
    with 1(2)[OF 3 other] 1(3,5) unfold 3 other
    have "a \<notin> (steps_of m)\<^sup>* `` (set (seen @ [last frontier]) \<union> set (butlast frontier @ listed m (last frontier)))" by auto
    then show ?thesis using frontier_last[OF 3(1)] by auto
  qed
qed

text \<open>A Thing is of an archetype where the archetype is above it, the Thing itself never being above itself.\<close>

lemma climb_loop_above: "climb_loop m a [x] (listed m x) \<longleftrightarrow> a \<noteq> x \<and> (x, a) \<in> (steps_of m)\<^sup>+"
proof
  assume "climb_loop m a [x] (listed m x)"
  from climb_loop_sound[OF this] show "a \<noteq> x \<and> (x, a) \<in> (steps_of m)\<^sup>+"
    by (auto simp: steps_of_def intro: rtrancl_into_trancl2)
next
  assume above: "a \<noteq> x \<and> (x, a) \<in> (steps_of m)\<^sup>+"
  show "climb_loop m a [x] (listed m x)"
  proof (rule ccontr)
    assume "\<not> climb_loop m a [x] (listed m x)"
    from climb_loop_fails[OF this] above have "(x, a) \<notin> (steps_of m)\<^sup>*" by auto
    with above show False by (simp add: trancl_into_rtrancl)
  qed
qed

subsection \<open>The decisions a card lists\<close>

text \<open>A predicate plays a role where the model declares it and it is the bound one or refined from it.\<close>

definition plays :: "vos_thing list \<Rightarrow> vos_relationship list \<Rightarrow> decision_role \<Rightarrow> string \<Rightarrow> bool" where
  "plays ts rs r p \<longleftrightarrow> p \<in> tId ` set ts
     \<and> (\<exists>bound. role_bound (PREDICATE_ROLES r) (buildModelIndex ts rs) = Some bound \<and> (bound, p) \<in> (is_one_of ts rs)\<^sup>*)"

lemma children_steps: "steps_of (mi_isChildren (buildModelIndex ts rs)) = is_one_of ts rs"
  by (auto simp: steps_of_def is_one_of_def buildModelIndex_is split: option.splits)

lemma known_thing: "ohas (mi_byId (buildModelIndex ts rs)) p \<longleftrightarrow> p \<in> tId ` set ts"
  by (auto simp: ohas_iff_oget buildModelIndex_simps(4) image_iff dest!: map_of_SomeD
      intro: weak_map_of_SomeI split: option.splits)

lemma wiring_plays: "p \<in> set (decisionWiring (buildModelIndex ts rs) r) \<longleftrightarrow> plays ts rs r p"
  by (cases "role_bound (PREDICATE_ROLES r) (buildModelIndex ts rs)")
    (auto simp: decisionWiring_def boundAndBeneath_def below_loop_reach children_steps known_thing plays_def)

lemma set_subjectsOf: "set (subjectsOf x ps (buildModelIndex ts rs))
    = {rSubjectId r | r. r \<in> set rs \<and> rTargetId r = x \<and> rPredicateId r \<in> set ps}"
  by (auto simp: subjectsOf_def buildModelIndex_simps(2))

lemma set_targetsOf: "set (targetsOf x ps (buildModelIndex ts rs))
    = {rTargetId r | r. r \<in> set rs \<and> rSubjectId r = x \<and> rPredicateId r \<in> set ps}"
  by (auto simp: targetsOf_def buildModelIndex_simps(2))

text \<open>Where the collation answers opposite signs both ways round, the order of the card is one.\<close>

locale signed_collation = collation +
  assumes lc_opposite: "lc a b < 0 \<longleftrightarrow> 0 < lc b a"
begin

lemma lc_level: "lc a b = 0 \<longleftrightarrow> lc b a = 0"
  using lc_opposite[of a b] lc_opposite[of b a] by linarith

lemma latest_first_le: "latest_first lc a b \<le> 0 \<longleftrightarrow> lc (decided_text b) (decided_text a) < 0
    \<or> lc (decided_text b) (decided_text a) = 0 \<and> lc (de_id a) (de_id b) \<le> 0"
  by (auto simp: latest_first_def Let_def)

lemma lc_before_trans: "lc a b < 0 \<Longrightarrow> lc b c \<le> 0 \<Longrightarrow> lc a c < 0" "lc a b \<le> 0 \<Longrightarrow> lc b c < 0 \<Longrightarrow> lc a c < 0"
proof -
  assume "lc a b < 0" "lc b c \<le> 0"
  moreover have "\<not> lc c a \<le> 0" using lc_trans[of b c a] lc_opposite[of a b] calculation by linarith
  ultimately show "lc a c < 0" using lc_opposite[of a c] by linarith
next
  assume "lc a b \<le> 0" "lc b c < 0"
  moreover have "\<not> lc c a \<le> 0" using lc_trans[of c a b] lc_opposite[of b c] calculation by linarith
  ultimately show "lc a c < 0" using lc_opposite[of a c] by linarith
qed

lemma comparator_latest_first: "comparator (latest_first lc)"
proof
  show "latest_first lc a b \<le> 0 \<or> latest_first lc b a \<le> 0" for a b
    using lc_opposite[of "decided_text b" "decided_text a"] lc_level[of "decided_text b" "decided_text a"]
      lc_total[of "de_id a" "de_id b"] unfolding latest_first_le by linarith
next
  fix a b c assume ab: "latest_first lc a b \<le> 0" and bc: "latest_first lc b c \<le> 0"
  have le: "lc (decided_text b) (decided_text a) \<le> 0" "lc (decided_text c) (decided_text b) \<le> 0"
    using ab bc by (auto simp: latest_first_le)
  show "latest_first lc a c \<le> 0"
  proof (cases "lc (decided_text b) (decided_text a) < 0 \<or> lc (decided_text c) (decided_text b) < 0")
    case True
    with le have "lc (decided_text c) (decided_text a) < 0" using lc_before_trans by blast
    then show ?thesis by (simp add: latest_first_le)
  next
    case False
    with ab bc have level: "lc (decided_text b) (decided_text a) = 0" "lc (decided_text c) (decided_text b) = 0"
      and ids: "lc (de_id a) (de_id b) \<le> 0" "lc (de_id b) (de_id c) \<le> 0" by (auto simp: latest_first_le)
    from level have "lc (decided_text a) (decided_text b) = 0" "lc (decided_text b) (decided_text c) = 0" using lc_level by blast+
    then have "lc (decided_text a) (decided_text c) \<le> 0" using lc_trans[of "decided_text a" "decided_text b" "decided_text c"] by simp
    moreover have "lc (decided_text c) (decided_text a) \<le> 0"
      using lc_trans[of "decided_text c" "decided_text b" "decided_text a"] level by simp
    ultimately have "lc (decided_text c) (decided_text a) = 0"
      using lc_opposite[of "decided_text c" "decided_text a"] by linarith
    with lc_trans[OF ids] show ?thesis by (simp add: latest_first_le)
  qed
qed

end

lemma code_units_opposite: "compare_code_units a b < 0 \<longleftrightarrow> 0 < compare_code_units b a"
  by (induction a b rule: compare_code_units.induct) auto

interpretation units: signed_collation compare_code_units
  by unfold_locales (rule code_units_opposite)

lemma de_id_explanation [simp]: "de_id (explanationOf wiring ix i) = i"
  by (simp add: explanationOf_def Let_def)

text \<open>C33. A card lists the decisions whose subject the Thing is, and the Thing itself where it is a decision: each one that the
  model holds over a predicate playing the subject's role, whatever the model calls it and however far it is refined, once;
  and the latest first, two of one instant by their identifiers.\<close>

theorem decisions_listed:
  assumes "signed_collation lc"
  shows "de_id ` set (decisionsOn lc x (buildModelIndex ts rs)) =
      {rSubjectId r | r. r \<in> set rs \<and> rTargetId r = x \<and> plays ts rs SubjectRole (rPredicateId r)}
      \<union> {x | r. r \<in> set rs \<and> rSubjectId r = x \<and> plays ts rs SubjectRole (rPredicateId r)}
    \<and> distinct (map de_id (decisionsOn lc x (buildModelIndex ts rs)))
    \<and> sorted_wrt (\<lambda>a b. lc (decided_text b) (decided_text a) < 0
        \<or> lc (decided_text b) (decided_text a) = 0 \<and> lc (de_id a) (de_id b) \<le> 0) (decisionsOn lc x (buildModelIndex ts rs))"
proof -
  let ?ix = "buildModelIndex ts rs"
  define ids where "ids = (if targetsOf x (decisionWiring ?ix SubjectRole) ?ix \<noteq> []
    then sadd x (set_of (subjectsOf x (decisionWiring ?ix SubjectRole) ?ix)) else set_of (subjectsOf x (decisionWiring ?ix SubjectRole) ?ix))"
  have on: "decisionsOn lc x ?ix = sort_by (latest_first lc) (map (explanationOf (decisionWiring ?ix) ?ix) ids)"
    by (simp add: decisionsOn_def ids_def Let_def)
  have subject: "targetsOf x (decisionWiring ?ix SubjectRole) ?ix \<noteq> []
    \<longleftrightarrow> (\<exists>r\<in>set rs. rSubjectId r = x \<and> plays ts rs SubjectRole (rPredicateId r))"
    using set_targetsOf[of x "decisionWiring ?ix SubjectRole" ts rs] by (auto simp: wiring_plays simp flip: set_empty)
  have "distinct ids" by (simp add: ids_def distinct_sadd)
  then have "distinct (map de_id (decisionsOn lc x ?ix))" by (simp add: on comp_def)
  moreover have "de_id ` set (decisionsOn lc x ?ix) = set ids" by (simp add: on image_image)
  moreover have "sorted_wrt (\<lambda>a b. latest_first lc a b \<le> 0) (decisionsOn lc x ?ix)"
    unfolding on by (rule comparator.sorted_sort_by[OF signed_collation.comparator_latest_first[OF assms]])
  ultimately show ?thesis
    by (auto simp: ids_def subject set_subjectsOf wiring_plays signed_collation.latest_first_le[OF assms])
qed

subsection \<open>The numbers rest on the reads that are asked for\<close>

text \<open>The keys one consideration asks for, and that every read is kept under its own key.\<close>

definition keys_wanted :: "decision_explanation \<Rightarrow> consideration \<Rightarrow> string set" where
  "keys_wanted d c = (case (cs_constraint c, de_decidedAt d) of
     (Some k, Some instant) \<Rightarrow> if instant = [] then {} else
         (if readsTheSubject k then (\<lambda>s. instantReadKey (nt_id s) instant) ` set_option (de_subject d) else {})
         \<union> (if readsTheCandidate k then (\<lambda>s. instantReadKey (nt_id s) instant) ` set (candidatesOf d c) else {})
   | _ \<Rightarrow> {})"

definition well_keyed :: "(string, instant_read) omap \<Rightarrow> bool" where
  "well_keyed wanted \<longleftrightarrow> (\<forall>(k, r)\<in>set wanted. k = read_key r)"

lemma set_oput_subset: "set (oput k v m) \<subseteq> insert (k, v) (set m)"
  by (induction m) (auto split: if_splits)

lemma well_keyed_want: "well_keyed wanted \<Longrightarrow> well_keyed (want instant wanted s)"
  by (auto simp: well_keyed_def want_def dest!: set_oput_subset[THEN subsetD])

lemma keys_want: "fst ` set (want instant wanted s) = insert (instantReadKey (nt_id s) instant) (fst ` set wanted)"
  by (simp add: want_def)

lemma wants: "well_keyed wanted \<Longrightarrow> well_keyed (foldl (want instant) wanted ss)
    \<and> fst ` set (foldl (want instant) wanted ss) = fst ` set wanted \<union> (\<lambda>s. instantReadKey (nt_id s) instant) ` set ss"
  by (induction ss arbitrary: wanted) (auto simp: well_keyed_want keys_want)

lemma wants_consideration:
  assumes "well_keyed wanted" and "de_decidedAt d = Some instant" and "instant \<noteq> []"
  shows "well_keyed (want_consideration d instant wanted c)
    \<and> fst ` set (want_consideration d instant wanted c) = fst ` set wanted \<union> keys_wanted d c"
proof (cases "cs_constraint c")
  case (Some k)
  have "well_keyed (want instant wanted s)" for s using assms(1) by (rule well_keyed_want)
  with assms Some wants[of wanted instant] wants[of "want instant wanted (the (de_subject d))" instant] show ?thesis
    by (cases "de_subject d") (auto simp: want_consideration_def keys_wanted_def keys_want Let_def)
qed (use assms in \<open>simp add: want_consideration_def keys_wanted_def\<close>)

lemma wants_considerations:
  assumes "de_decidedAt d = Some instant" and "instant \<noteq> []"
  shows "well_keyed wanted \<Longrightarrow> well_keyed (foldl (want_consideration d instant) wanted cs)
    \<and> fst ` set (foldl (want_consideration d instant) wanted cs) = fst ` set wanted \<union> (\<Union>c\<in>set cs. keys_wanted d c)"
  by (induction cs arbitrary: wanted) (auto simp: wants_consideration[OF _ assms])

lemma wants_decision: "well_keyed wanted \<Longrightarrow> well_keyed (want_decision wanted d)
    \<and> fst ` set (want_decision wanted d) = fst ` set wanted \<union> (\<Union>c\<in>set (de_supports d @ de_refusals d). keys_wanted d c)"
proof (cases "de_decidedAt d")
  case (Some instant)
  assume "well_keyed wanted"
  with Some wants_considerations[OF Some, of wanted "de_supports d @ de_refusals d"] show ?thesis
    by (cases "instant = []") (auto simp: want_decision_def keys_wanted_def split: option.splits)
qed (auto simp: want_decision_def keys_wanted_def split: option.splits)

lemma wants_decisions: "well_keyed wanted \<Longrightarrow> well_keyed (foldl want_decision wanted ds)
    \<and> fst ` set (foldl want_decision wanted ds)
      = fst ` set wanted \<union> (\<Union>d\<in>set ds. \<Union>c\<in>set (de_supports d @ de_refusals d). keys_wanted d c)"
  by (induction ds arbitrary: wanted) (use wants_decision in auto)

lemma reads_asked: "read_key ` set (instantReadsFor ds) = (\<Union>d\<in>set ds. \<Union>c\<in>set (de_supports d @ de_refusals d). keys_wanted d c)"
proof -
  have "well_keyed []" by (simp add: well_keyed_def)
  from wants_decisions[OF this, of ds] have keyed: "well_keyed (foldl want_decision [] ds)"
    and keys: "fst ` set (foldl want_decision [] ds) = (\<Union>d\<in>set ds. \<Union>c\<in>set (de_supports d @ de_refusals d). keys_wanted d c)" by simp_all
  from keyed have "read_key ` snd ` set (foldl want_decision [] ds) = fst ` set (foldl want_decision [] ds)"
    unfolding well_keyed_def image_image by (intro image_cong) auto
  with keys show ?thesis by (simp add: instantReadsFor_def)
qed

text \<open>Two readings that answer alike what a consideration asks for give the same comparisons.\<close>

lemma read_side_same:
  assumes "\<And>t instant. thing = Some t \<Longrightarrow> de_decidedAt d = Some instant \<Longrightarrow> instant \<noteq> [] \<Longrightarrow> given_name name
    \<Longrightarrow> oget R (instantReadKey (nt_id t) instant) = oget R' (instantReadKey (nt_id t) instant)"
  shows "read_side d R thing name = read_side d R' thing name"
  using assms by (auto simp: read_side_def given_name_def split: option.splits)

lemma against_same:
  assumes "cs_constraint c = Some k" and "\<forall>key\<in>keys_wanted d c. oget R key = oget R' key"
    and "candidate = None \<or> candidate \<in> Some ` set (candidatesOf d c)"
  shows "against d c k R candidate = against d c k R' candidate"
proof -
  have "read_side d R (de_subject d) (mc_measureSubjectProperty k) = read_side d R' (de_subject d) (mc_measureSubjectProperty k)"
    "read_side d R (de_subject d) (mc_limitSubjectProperty k) = read_side d R' (de_subject d) (mc_limitSubjectProperty k)"
    "read_side d R candidate (mc_measureCandidateProperty k) = read_side d R' candidate (mc_measureCandidateProperty k)"
    "read_side d R candidate (mc_limitCandidateProperty k) = read_side d R' candidate (mc_limitCandidateProperty k)"
    using assms by (auto intro!: read_side_same simp: keys_wanted_def readsTheSubject_def readsTheCandidate_def)
  then show ?thesis by (simp add: against_def)
qed

lemma comparisons_same:
  assumes "\<forall>key\<in>keys_wanted d c. oget R key = oget R' key"
  shows "comparisonsOf d c R = comparisonsOf d c R'"
proof (cases "cs_constraint c")
  case (Some k)
  with against_same[OF Some assms] show ?thesis by (auto simp: comparisonsOf_def)
qed (simp add: comparisonsOf_def split: option.split)

text \<open>A value that was not answered leaves the measure open: a sum is drawn only where every part of it was answered.\<close>

lemma unanswered_measure:
  assumes "read_side d R (de_subject d) (mc_measureSubjectProperty k) = Some None
    \<or> read_side d R candidate (mc_measureCandidateProperty k) = Some None"
  shows "cp_measure (against d c k R candidate) = None"
proof -
  have "None \<in> set (List.map_filter (\<lambda>x. x) [read_side d R (de_subject d) (mc_measureSubjectProperty k),
      read_side d R candidate (mc_measureCandidateProperty k)])"
    using assms by (auto simp: List.map_filter_def)
  then show ?thesis by (cases "read_side d R (de_subject d) (mc_measureSubjectProperty k)") (auto simp: against_def Let_def)
qed

subsection \<open>The card and its reads (useDecisionExplanations.ts)\<close>

text \<open>What is held, the answers a render reads, and the round under way: the reads its decisions want and those among them
  that were missing. A round that was aborted leaves nothing behind, so only the live one is kept.\<close>

record decision_card =
  dc_decisions :: "decision_explanation list"
  dc_wantedKeys :: "string option"
  dc_held :: instant_readings
  dc_readings :: instant_readings
  dc_round :: "(instant_read list \<times> instant_read list) option"

definition new_card :: decision_card where
  "new_card = \<lparr>dc_decisions = [], dc_wantedKeys = None, dc_held = [], dc_readings = [], dc_round = None\<rparr>"

fun joined_keys :: "string list \<Rightarrow> string" where
  "joined_keys [] = []"
| "joined_keys [s] = s"
| "joined_keys (s # ss) = s @ '','' @ joined_keys ss"

text \<open>A render with these decisions; the effect runs where the keys of the wanted reads have changed.\<close>

definition show_decisions :: "decision_explanation list \<Rightarrow> decision_card \<Rightarrow> decision_card" where
  "show_decisions ds st =
     (let wanted = instantReadsFor ds; wantedKeys = joined_keys (map read_key wanted); st = st\<lparr>dc_decisions := ds\<rparr>
      in if dc_wantedKeys st = Some wantedKeys then st
         else (let missing = filter (\<lambda>r. \<not> ohas (dc_held st) (read_key r)) wanted
               in st\<lparr>dc_wantedKeys := Some wantedKeys, dc_round := (if missing = [] then None else Some (wanted, missing))\<rparr>))"

text \<open>All reads of the round are settled; one that failed counts as answered with nothing.\<close>

definition round_settled :: "vos_thing option list \<Rightarrow> decision_card \<Rightarrow> decision_card" where
  "round_settled results st = (case dc_round st of None \<Rightarrow> st
     | Some (wanted, missing) \<Rightarrow>
        let kept = foldl (\<lambda>m r. case oget (dc_held st) (read_key r) of Some v \<Rightarrow> oput (read_key r) v m | None \<Rightarrow> m) [] wanted;
            answers = foldl (\<lambda>m (r, result). oput (read_key r) result m) kept (zip missing results)
        in st\<lparr>dc_held := answers, dc_readings := answers, dc_round := None\<rparr>)"

definition card_settled :: "decision_card \<Rightarrow> bool" where
  "card_settled st \<longleftrightarrow> list_all (\<lambda>r. ohas (dc_readings st) (read_key r)) (instantReadsFor (dc_decisions st))"

inductive card_run :: "(string \<Rightarrow> vos_thing option) \<Rightarrow> decision_card \<Rightarrow> bool" for platform where
  opened: "card_run platform new_card"
| shown: "card_run platform st \<Longrightarrow> \<forall>r\<in>set (instantReadsFor ds). CHR '','' \<notin> set (read_key r) \<Longrightarrow> card_run platform (show_decisions ds st)"
| answered: "card_run platform st \<Longrightarrow> dc_round st = Some (wanted, missing) \<Longrightarrow>
    card_run platform (round_settled (map (\<lambda>r. platform (read_key r)) missing) st)"

lemma key_some: "read_key r \<noteq> []"
  by (simp add: instantReadKey_def)

lemma joined_keys_first: "s \<noteq> [] \<Longrightarrow> joined_keys (s # ss) = s @ (case ss of [] \<Rightarrow> [] | _ \<Rightarrow> '','' @ joined_keys ss)"
  by (cases ss) auto

lemma comma_splits: "CHR '','' \<notin> set a \<Longrightarrow> CHR '','' \<notin> set b \<Longrightarrow> a @ u = b @ v \<Longrightarrow> u = [] \<or> hd u = CHR '','' \<Longrightarrow> v = [] \<or> hd v = CHR '','' \<Longrightarrow> a = b"
proof (induction a arbitrary: b)
  case Nil
  then show ?case by (cases b; cases u) auto
next
  case (Cons x a)
  then show ?case by (cases b) (cases v; auto)+
qed

lemma joined_keys_inj:
  "list_all (\<lambda>s. s \<noteq> [] \<and> CHR '','' \<notin> set s) xs \<Longrightarrow> list_all (\<lambda>s. s \<noteq> [] \<and> CHR '','' \<notin> set s) ys \<Longrightarrow> joined_keys xs = joined_keys ys \<Longrightarrow> xs = ys"
proof (induction xs arbitrary: ys)
  case Nil
  then show ?case by (cases ys rule: joined_keys.cases) auto
next
  case (Cons x xs)
  then obtain y ys' where ys: "ys = y # ys'" by (cases ys; cases xs) auto
  let ?rest = "\<lambda>ss. case ss of [] \<Rightarrow> [] | _ \<Rightarrow> '','' @ joined_keys ss"
  have eq: "x @ ?rest xs = y @ ?rest ys'" using Cons.prems ys joined_keys_first by simp
  have head: "?rest ss = [] \<or> hd (?rest ss) = CHR '',''" for ss by (cases ss) auto
  from comma_splits[OF _ _ eq head head] Cons.prems ys have "x = y" by simp
  moreover from this eq have "xs = ys'"
  proof (cases "xs = [] \<or> ys' = []")
    case False
    with eq \<open>x = y\<close> have "joined_keys xs = joined_keys ys'" by (cases xs; cases ys') auto
    with Cons ys show ?thesis by simp
  qed (auto split: list.splits)
  ultimately show ?case using ys by simp
qed

text \<open>The reads of the round under way are the wanted ones, and everything held is the platform's answer.\<close>

abbreviation wanted_keys :: "decision_card \<Rightarrow> string list" where
  "wanted_keys st \<equiv> map read_key (instantReadsFor (dc_decisions st))"

definition card_ok :: "(string \<Rightarrow> vos_thing option) \<Rightarrow> decision_card \<Rightarrow> bool" where
  "card_ok platform st \<longleftrightarrow> dc_readings st = dc_held st \<and> (\<forall>k v. oget (dc_held st) k = Some v \<longrightarrow> v = platform k)
     \<and> list_all (\<lambda>k. k \<noteq> [] \<and> CHR '','' \<notin> set k) (wanted_keys st)
     \<and> (case dc_wantedKeys st of None \<Rightarrow> dc_decisions st = [] | Some keys \<Rightarrow> keys = joined_keys (wanted_keys st))
     \<and> (case dc_round st of None \<Rightarrow> card_settled st
        | Some (wanted, missing) \<Rightarrow> map read_key wanted = wanted_keys st \<and> missing = filter (\<lambda>r. \<not> ohas (dc_held st) (read_key r)) wanted)"

lemma card_ok_shown:
  assumes ok: "card_ok platform st" and plain: "\<forall>r\<in>set (instantReadsFor ds). CHR '','' \<notin> set (read_key r)"
  shows "card_ok platform (show_decisions ds st)"
proof (cases "dc_wantedKeys st = Some (joined_keys (map read_key (instantReadsFor ds)))")
  case True
  have ds: "list_all (\<lambda>k. k \<noteq> [] \<and> CHR '','' \<notin> set k) (map read_key (instantReadsFor ds))"
    using plain key_some by (simp add: list_all_iff)
  with ok True have keys: "map read_key (instantReadsFor ds) = wanted_keys st"
    by (auto simp: card_ok_def intro!: joined_keys_inj)
  from True have shown: "show_decisions ds st = st\<lparr>dc_decisions := ds\<rparr>" by (simp add: show_decisions_def Let_def)
  have "list_all (ohas (dc_readings st)) (map read_key (instantReadsFor ds)) = list_all (ohas (dc_readings st)) (wanted_keys st)"
    by (simp only: keys)
  then have "card_settled (show_decisions ds st) = card_settled st"
    by (simp add: shown card_settled_def list_all_iff)
  with ok True keys ds show ?thesis unfolding card_ok_def shown by (auto split: option.splits)
next
  case False
  with ok plain key_some show ?thesis
    by (auto simp: card_ok_def show_decisions_def Let_def list_all_iff card_settled_def filter_empty_conv)
qed

lemma oget_kept: "oget (foldl (\<lambda>m r. case oget before (read_key r) of Some v \<Rightarrow> oput (read_key r) v m | None \<Rightarrow> m) m0 wanted) k
    = (if k \<in> read_key ` set wanted \<and> oget before k \<noteq> None then oget before k else oget m0 k)"
  by (induction wanted arbitrary: m0) (auto split: option.splits)

lemma oget_tabled: "oget (map (\<lambda>k. (k, f k)) ks) k = (if k \<in> set ks then Some (f k) else None)"
  by (induction ks) auto

lemma oget_answers: "oget (foldl (\<lambda>m (r, result). oput (read_key r) result m) m0 (zip missing (map (\<lambda>r. platform (read_key r)) missing))) k
    = (if k \<in> read_key ` set missing then Some (platform k) else oget m0 k)"
  by (induction missing arbitrary: m0) auto

lemma card_ok_answered:
  assumes ok: "card_ok platform st" and round: "dc_round st = Some (wanted, missing)"
  shows "card_ok platform (round_settled (map (\<lambda>r. platform (read_key r)) missing) st)"
proof -
  let ?st = "round_settled (map (\<lambda>r. platform (read_key r)) missing) st"
  from ok round have missing: "missing = filter (\<lambda>r. \<not> ohas (dc_held st) (read_key r)) wanted"
    and keys: "map read_key wanted = wanted_keys st"
    and held: "\<And>k v. oget (dc_held st) k = Some v \<Longrightarrow> v = platform k" by (auto simp: card_ok_def)
  have at: "oget (dc_held ?st) k = (if k \<in> read_key ` set wanted then Some (platform k) else None)" for k
    using held[of k] by (auto simp: round_settled_def round Let_def oget_answers oget_kept missing ohas_iff_oget)
  have same: "dc_readings ?st = dc_held ?st" "dc_decisions ?st = dc_decisions st" "dc_wantedKeys ?st = dc_wantedKeys st" "dc_round ?st = None"
    by (simp_all add: round_settled_def round Let_def)
  have "read_key ` set wanted = set (wanted_keys st)" by (metis keys set_map)
  then have "card_settled ?st" unfolding card_settled_def same by (auto simp: list_all_iff ohas_iff_oget at)
  with ok at show ?thesis unfolding card_ok_def same by (simp split: if_splits)
qed

lemma run_card_ok: "card_run platform st \<Longrightarrow> card_ok platform st"
proof (induction rule: card_run.induct)
  case opened
  show ?case by (simp add: card_ok_def new_card_def card_settled_def instantReadsFor_def)
qed (auto intro: card_ok_shown card_ok_answered)


subsection \<open>A card that is played\<close>

definition refused_site :: decision_explanation where
  "refused_site = \<lparr>de_id = ''d1'', de_name = ''Placement'', de_kindName = None, de_decidedAt = Some ''2026-01-01'',
     de_subject = Some \<lparr>nt_id = ''s1'', nt_name = ''Pond''\<rparr>, de_chose = None, de_under = None, de_score = None,
     de_candidatesConsidered = None, de_supports = [],
     de_refusals = [\<lparr>cs_id = ''c1'', cs_half = ForRefusal, cs_cause = None, cs_cited = None,
       cs_refusedCandidates = [\<lparr>nt_id = ''p1'', nt_name = ''Plot''\<rparr>], cs_candidatesRefused = None, cs_measured = None, cs_limit = None,
       cs_constraint = Some \<lparr>mc_measureSubjectProperty = None, mc_measureCandidateProperty = Some ''slope'',
         mc_limitSubjectProperty = Some ''maxSlope'', mc_limitCandidateProperty = None, mc_unit = None\<rparr>\<rparr>]\<rparr>"

definition slope_at :: "string \<Rightarrow> vos_thing option" where
  "slope_at key = Some \<lparr>tId = key, tName = [], tIsArchetype = None, tProperties = [(''slope'', JNum (Dec 7 0)), (''maxSlope'', JNum (Dec 5 0))],
     tPropertyWriteKinds = None, tInheritedOverrides = None, tDerivedProperties = None\<rparr>"

lemma refused_reads: "instantReadsFor [refused_site] =
    [\<lparr>ir_thingId = ''s1'', ir_instant = ''2026-01-01''\<rparr>, \<lparr>ir_thingId = ''p1'', ir_instant = ''2026-01-01''\<rparr>]"
  by (simp add: instantReadsFor_def want_decision_def refused_site_def want_consideration_def readsTheSubject_def readsTheCandidate_def
      given_name_def want_def instantReadKey_def candidatesOf_def Let_def)

lemma refused_compared:
  "\<exists>x. comparisonsOf refused_site (hd (de_refusals refused_site)) (map (\<lambda>key. (key, slope_at key)) [''s1@2026-01-01'', ''p1@2026-01-01''])
     = [x] \<and> cp_measure x = Some (Dec 7 0) \<and> cp_limit x = Some (Some (Dec 5 0))"
proof -
  have "num_add (Dec 0 0) (Dec 7 0) = Dec 7 0" by code_simp
  then show ?thesis
    by (simp add: comparisonsOf_def refused_site_def readsTheCandidate_def candidatesOf_def against_def read_side_def given_name_def
        instantReadKey_def slope_at_def valueAtTheInstant_def number_of_def List.map_filter_def)
qed


text \<open>A read that fails is held as an answer: nothing is asked again, and the card says the platform recorded nothing.\<close>

lemma failed_read_is_an_answer:
  "dc_round (round_settled (map (\<lambda>_. None) (instantReadsFor [refused_site])) (show_decisions [refused_site] new_card)) = None
   \<and> card_settled (round_settled (map (\<lambda>_. None) (instantReadsFor [refused_site])) (show_decisions [refused_site] new_card))"
  by (simp add: show_decisions_def new_card_def refused_reads round_settled_def card_settled_def instantReadKey_def ohas_iff_oget Let_def)

text \<open>A value the instant answers in a set nested in another is not read, although the answer nests its sets.\<close>

lemma nested_override_unread:
  "valueAtTheInstant (Some \<lparr>tId = i, tName = n, tIsArchetype = None, tProperties = [], tPropertyWriteKinds = None,
     tInheritedOverrides = Some [(''k'', InheritedSet ''k'' ''Kind'' [] None
       (Some [(''b'', InheritedSet ''b'' ''Base'' [(''slope'', JNum x)] None None)]))], tDerivedProperties = None\<rparr>) ''slope'' = None"
  by (simp add: valueAtTheInstant_def number_of_def)

text \<open>A model of two decisions about one Thing.\<close>

definition decided_thing :: "string \<Rightarrow> string \<Rightarrow> props \<Rightarrow> vos_thing" where
  "decided_thing i name ps = \<lparr>tId = i, tName = name, tIsArchetype = None, tProperties = ps, tPropertyWriteKinds = None,
     tInheritedOverrides = None, tDerivedProperties = None\<rparr>"

definition decided_edge :: "string \<Rightarrow> string \<Rightarrow> string \<Rightarrow> vos_relationship" where
  "decided_edge s p t = \<lparr>rId = s @ p @ t, rName = None, rSubjectId = s, rPredicateId = p, rTargetId = t, rProperties = []\<rparr>"

definition decided_things :: "vos_thing list" where
  "decided_things = [decided_thing ''b'' ''binds'' [], decided_thing ''p'' ''about'' [], decided_thing ''x'' ''Pond'' [],
     decided_thing ''d1'' ''First'' [(''decidedAt'', JStr ''2025'')], decided_thing ''d2'' ''Second'' [(''decidedAt'', JStr ''2026'')]]"

definition decided_edges :: "vos_relationship list" where
  "decided_edges = [decided_edge (PREDICATE_ROLES SubjectRole) ''b'' ''p'', decided_edge ''d1'' ''p'' ''x'', decided_edge ''d2'' ''p'' ''x'']"

lemma subject_role: "PREDICATE_ROLES SubjectRole = ''aee6f88a-f53c-5ddf-a469-95d62544a857''"
  by code_simp

lemma subject_bound: "role_bound ''aee6f88a-f53c-5ddf-a469-95d62544a857'' (buildModelIndex decided_things
    [decided_edge ''aee6f88a-f53c-5ddf-a469-95d62544a857'' ''b'' ''p'', decided_edge ''d1'' ''p'' ''x'', decided_edge ''d2'' ''p'' ''x'']) = Some ''p''"
  by code_simp

theorem decisions_listed_witness:
  "distinct (map de_id (decisionsOn compare_code_units ''x'' (buildModelIndex decided_things decided_edges)))
   \<and> ''d2'' \<in> de_id ` set (decisionsOn compare_code_units ''x'' (buildModelIndex decided_things decided_edges))"
proof -
  have "role_bound (PREDICATE_ROLES SubjectRole) (buildModelIndex decided_things decided_edges) = Some ''p''"
    by (simp add: decided_edges_def subject_role subject_bound)
  then have "plays decided_things decided_edges SubjectRole ''p''"
    by (auto simp: plays_def decided_things_def decided_thing_def)
  then have "\<exists>r\<in>set decided_edges. rSubjectId r = ''d2'' \<and> rTargetId r = ''x'' \<and> plays decided_things decided_edges SubjectRole (rPredicateId r)"
    by (simp add: decided_edges_def decided_edge_def)
  note second = this
  note listed = decisions_listed [OF units.signed_collation_axioms, of "''x''" decided_things decided_edges]
  show ?thesis
  proof
    show "distinct (map de_id (decisionsOn compare_code_units ''x'' (buildModelIndex decided_things decided_edges)))"
      by (rule conjunct1[OF conjunct2[OF listed]])
    show "''d2'' \<in> de_id ` set (decisionsOn compare_code_units ''x'' (buildModelIndex decided_things decided_edges))"
      unfolding conjunct1[OF listed] by (rule UnI1, unfold mem_Collect_eq) (use second in metis)
  qed
qed

end
