(* ===== verification/Composer.thy ===== *)
theory Composer
  imports DesignEdits ModelIndex
begin

section \<open>Pages a person makes (utils/composer.ts, utils/designSpec.ts)\<close>

text \<open>
  A table a person composed is a roster with computed columns, kept as a page that carries the choices it was made from.
  A page opened for design has every section turned into a grid, each widget placed where it was drawn before.
\<close>

subsection \<open>A composed table\<close>

definition NAME_COLUMN :: string where
  "NAME_COLUMN = ''name''"

definition STATE_COLUMN :: string where
  "STATE_COLUMN = ''state''"

definition PAGE_ICON :: string where
  "PAGE_ICON = ''table-2''"

definition stepWord :: "relation_step \<Rightarrow> string" where
  "stepWord step = (if rs_direction step = Some In then ''<'' @ rs_predicate step @ ''>'' else rs_predicate step @ ''>'')
     @ (case rs_archetype step of Some a \<Rightarrow> a | None \<Rightarrow> [])"

fun columnKey :: "composed_column \<Rightarrow> string" where
  "columnKey (ColumnProperty name numeric) = name"
| "columnKey (ColumnState states) = STATE_COLUMN"
| "columnKey (ColumnPath steps property label) = ''path:'' @ join '','' (map stepWord steps)
     @ (case property of Some p \<Rightarrow> if p = [] then [] else ''.'' @ p | None \<Rightarrow> [])"

fun hopsOf :: "composed_column \<Rightarrow> nat" where
  "hopsOf (ColumnPath steps property label) = length steps"
| "hopsOf _ = 0"

definition plain_table_column :: "string \<Rightarrow> string \<Rightarrow> table_column" where
  "plain_table_column key label = \<lparr>tc_key = key, tc_label = label, tc_numeric = None, tc_format = None, tc_render = None\<rparr>"

fun tableColumn :: "composed_column \<Rightarrow> table_column" where
  "tableColumn (ColumnProperty name numeric) = (plain_table_column (columnKey (ColumnProperty name numeric)) name)\<lparr>tc_numeric := numeric\<rparr>"
| "tableColumn (ColumnState states) = (plain_table_column (columnKey (ColumnState states)) STATE_COLUMN)\<lparr>tc_render := Some RenderBadge\<rparr>"
| "tableColumn (ColumnPath steps property label) = plain_table_column (columnKey (ColumnPath steps property label)) label"

fun computedColumn :: "composed_column \<Rightarrow> (string \<times> binding option) option" where
  "computedColumn (ColumnProperty name numeric) = None"
| "computedColumn (ColumnState states) = Some (columnKey (ColumnState states), Some (StateOf states None))"
| "computedColumn (ColumnPath steps property label) = Some (columnKey (ColumnPath steps property label),
     Some (Related steps None (case property of Some p \<Rightarrow> if p = [] then None else Some p | None \<Rightarrow> None)))"

definition given_text :: "string option \<Rightarrow> bool" where
  "given_text s \<longleftrightarrow> s \<noteq> None \<and> s \<noteq> Some []"

fun state_column :: "composed_column \<Rightarrow> bool" where
  "state_column (ColumnState states) = True"
| "state_column _ = False"

text \<open>No state is read at an instant.\<close>

definition stateless :: "composition \<Rightarrow> composition" where
  "stateless c = (if \<not> given_text (co_moment c) then c
     else (let columns = filter (\<lambda>column. \<not> state_column column) (co_columns c);
               sortKey = (if \<exists>column\<in>set columns. Some (columnKey column) = co_sortKey c then co_sortKey c else None)
           in c\<lparr>co_columns := columns, co_inState := None, co_sortKey := sortKey\<rparr>))"

definition roster_of :: "composition \<Rightarrow> binding" where
  "roster_of c = ThingList (co_kind c) None None (Some (List.map_filter computedColumn (co_columns c)))
     (if given_text (co_inState c) then co_inState c else None)
     (case co_where c of Some ws \<Rightarrow> if ws = [] then None else Some ws | None \<Rightarrow> None)"

definition tableOf :: "composition \<Rightarrow> string \<Rightarrow> table_widget" where
  "tableOf chosen title = (let c = stateless chosen in
     \<lparr>tw_title = Some title, tw_hint = None,
      tw_columns = (plain_table_column NAME_COLUMN (co_kind c))\<lparr>tc_render := Some RenderId\<rparr> # map tableColumn (co_columns c),
      tw_rows = roster_of c, tw_minWidth = None, tw_sortKey = co_sortKey c, tw_sortDirection = co_sortDirection c,
      tw_visibleRows = Some 25, tw_searchable = Some True, tw_searchKeys = None, tw_rowDetail = Some True\<rparr>)"

definition plain_section :: "section_layout \<Rightarrow> widget list \<Rightarrow> dashboard_section" where
  "plain_section layout widgets = \<lparr>se_title = None, se_hint = None, se_layout = Some layout, se_widths = None, se_widgets = widgets,
     se_theme = None, se_facts = None, se_tab = None\<rparr>"

definition plain_page :: "string \<Rightarrow> string \<Rightarrow> dashboard_section list \<Rightarrow> dashboard_specification" where
  "plain_page title icon sections = \<lparr>sp_title = title, sp_subtitle = None, sp_icon = Some icon, sp_compare = None, sp_sections = sections,
     sp_refreshSeconds = None, sp_detail = None, sp_translations = None, sp_composed = None, sp_designed = None\<rparr>"

definition pageOf :: "composition \<Rightarrow> string \<Rightarrow> dashboard_specification" where
  "pageOf c name = (plain_page name PAGE_ICON [plain_section Single [\<lparr>wg_kind = Table (tableOf c name), wg_placement = None\<rparr>]])
     \<lparr>sp_composed := Some c\<rparr>"

definition undeclared :: "(string \<Rightarrow> bool) \<Rightarrow> string option \<Rightarrow> string list" where
  "undeclared declared name = (case name of None \<Rightarrow> [] | Some n \<Rightarrow> if n = [] \<or> declared n then [] else [n])"

definition unresolvedNames :: "composition \<Rightarrow> model_index \<Rightarrow> string list \<Rightarrow> string list" where
  "unresolvedNames c ix declaredStates =
     (let thingNamed = undeclared (ohas (mi_byName ix)); stateNamed = undeclared (\<lambda>s. s \<in> set declaredStates)
      in thingNamed (Some (co_kind c))
         @ concat (map (\<lambda>column. case column of
             ColumnPath steps property label \<Rightarrow> concat (map (\<lambda>step. thingNamed (Some (rs_predicate step)) @ thingNamed (rs_archetype step)
               @ stateNamed (rs_inState step) @ stateNamed (rs_notInState step)) steps)
           | ColumnState states \<Rightarrow> concat (map (\<lambda>s. stateNamed (Some s)) states)
           | ColumnProperty name numeric \<Rightarrow> []) (co_columns c))
         @ stateNamed (co_inState c))"

subsection \<open>A page opened for design\<close>

definition NEW_PAGE_ICON :: string where
  "NEW_PAGE_ICON = ''layout-template''"

definition newPage :: "string \<Rightarrow> dashboard_specification" where
  "newPage name = (plain_page name NEW_PAGE_ICON [plain_section Grid []])\<lparr>sp_designed := Some True\<rparr>"

definition isKeptPage :: "dashboard_specification \<Rightarrow> bool" where
  "isKeptPage sp \<longleftrightarrow> sp_composed sp \<noteq> None \<or> sp_designed sp = Some True"

definition asGrid :: "dashboard_section \<Rightarrow> dashboard_section option" where
  "asGrid s = map_option (\<lambda>placements. s\<lparr>se_widths := None, se_layout := Some Grid,
     se_widgets := map (\<lambda>(w, p). w\<lparr>wg_placement := Some p\<rparr>) (zip (se_widgets s) placements)\<rparr>) (placementsOf s)"

definition openedForDesign :: "dashboard_specification \<Rightarrow> dashboard_specification option" where
  "openedForDesign sp = map_option (\<lambda>sections. sp\<lparr>sp_composed := None, sp_sections := sections, sp_designed := Some True\<rparr>)
     (those (map asGrid (sp_sections sp)))"

definition nextPlacement :: "dashboard_section \<Rightarrow> int \<times> int \<Rightarrow> placement" where
  "nextPlacement s sz =
     (let bottom = foldl (\<lambda>deepest w. max deepest (case wg_placement w of Some p \<Rightarrow> pl_row p + pl_height p | None \<Rightarrow> 0)) 0 (se_widgets s)
      in \<lparr>pl_column = 0, pl_row = bottom, pl_width = min (fst sz) GRID_COLUMNS, pl_height = snd sz\<rparr>)"

subsection \<open>What a kept page names is declared\<close>

text \<open>The Things and the states a binding names by itself.\<close>

fun step_things :: "relation_step \<Rightarrow> string option list" where
  "step_things step = [Some (rs_predicate step), rs_archetype step]"

fun step_states :: "relation_step \<Rightarrow> string option list" where
  "step_states step = [rs_inState step, rs_notInState step]"

definition scope_things :: "scope_reference option \<Rightarrow> string option list" where
  "scope_things scope = (case scope of Some s \<Rightarrow> [Some (sr_viaPredicate s)] | None \<Rightarrow> [])"

fun things_named :: "binding \<Rightarrow> string option list" where
  "things_named (StateCount state scope archetype ex) = scope_things scope @ [archetype]"
| "things_named (StateList state ex scope most archetype ps computed) = scope_things scope @ [archetype]"
| "things_named (ThingList archetype scope most computed st wh) = Some archetype # scope_things scope"
| "things_named (Aggregate archetype red p wh scope) = Some archetype # scope_things scope"
| "things_named (Related via thing p) = concat (map step_things via)"
| "things_named (Verdict states thing via) = concat (map step_things (list_or_empty via))"
| "things_named (Origin p thing via reads source) = concat (map step_things (list_or_empty via))
     @ (case source of Some src \<Rightarrow> concat (map step_things (list_or_empty (os_via src))) | None \<Rightarrow> [])"
| "things_named (Working p thing via) = concat (map step_things (list_or_empty via))"
| "things_named (Timeseries archetype happened p red b n pp scope) = Some archetype # scope_things scope"
| "things_named _ = []"

fun states_named :: "binding \<Rightarrow> string option list" where
  "states_named (StateCount state scope archetype ex) = [Some state, ex]"
| "states_named (StateList state ex scope most archetype ps computed) = [Some state, ex]"
| "states_named (ThingList archetype scope most computed st wh) = [st]"
| "states_named (Related via thing p) = concat (map step_states via)"
| "states_named (StateOf states thing) = map Some states"
| "states_named (Verdict states thing via) = map (\<lambda>v. Some (vc_state v)) states @ concat (map step_states (list_or_empty via))"
| "states_named (Origin p thing via reads source) = concat (map step_states (list_or_empty via))
     @ (case source of Some src \<Rightarrow> concat (map step_states (list_or_empty (os_via src))) | None \<Rightarrow> [])"
| "states_named (Working p thing via) = concat (map step_states (list_or_empty via))"
| "states_named _ = []"

definition all_declared :: "model_index \<Rightarrow> string list \<Rightarrow> binding \<Rightarrow> bool" where
  "all_declared ix states b \<longleftrightarrow> (\<forall>n\<in>set (things_named b). undeclared (ohas (mi_byName ix)) n = [])
     \<and> (\<forall>s\<in>set (states_named b). undeclared (\<lambda>s. s \<in> set states) s = [])"

fun column_binding :: "composed_column \<Rightarrow> binding option" where
  "column_binding column = Option.bind (computedColumn column) snd"

lemma page_bindings: "set (specificationBindings (pageOf c name)) =
    insert (roster_of (stateless c)) {b. \<exists>column\<in>set (co_columns (stateless c)). column_binding column = Some b}"
proof -
  have one: "withNested b = [b]" if "column_binding column = Some b" for column b
    using that by (cases column) (auto simp: withNested.simps[of b] inner_bindings_def computed_of_def written_ones_def List.map_filter_def)
  have inner: "set (inner_bindings (roster_of (stateless c))) = {b. \<exists>column\<in>set (co_columns (stateless c)). column_binding column = Some b}"
    by (force simp: inner_bindings_def roster_of_def computed_of_def list_or_empty_def List.map_filter_def bind_eq_Some_conv)
  have "specificationBindings (pageOf c name) = withNested (roster_of (stateless c))"
    by (simp add: specificationBindings_def pageOf_def plain_page_def plain_section_def bindingsOf_def slotsOf_def widgetBindings_def
        written_ones_def List.map_filter_def tableOf_def Let_def)
  moreover have "set (withNested (roster_of (stateless c))) = insert (roster_of (stateless c)) (\<Union>b\<in>set (inner_bindings (roster_of (stateless c))). set (withNested b))"
    by (subst withNested.simps) simp
  moreover have "(\<Union>b\<in>set (inner_bindings (roster_of (stateless c))). set (withNested b)) = set (inner_bindings (roster_of (stateless c)))"
    using one unfolding inner by fastforce
  ultimately show ?thesis by (simp only: inner)
qed

lemma undeclared_none [simp]: "undeclared declared None = []"
  by (simp add: undeclared_def)

lemma names_of_columns: "set (co_columns (stateless c)) \<subseteq> set (co_columns c)" "co_kind (stateless c) = co_kind c"
  by (auto simp: stateless_def Let_def)

lemma columns_declared: "concat (map (\<lambda>column. case column of
       ColumnPath steps property label \<Rightarrow> concat (map (\<lambda>step. undeclared (ohas (mi_byName ix)) (Some (rs_predicate step))
         @ undeclared (ohas (mi_byName ix)) (rs_archetype step) @ undeclared (\<lambda>s. s \<in> set states) (rs_inState step)
         @ undeclared (\<lambda>s. s \<in> set states) (rs_notInState step)) steps)
     | ColumnState sts \<Rightarrow> concat (map (\<lambda>s. undeclared (\<lambda>s. s \<in> set states) (Some s)) sts)
     | ColumnProperty name numeric \<Rightarrow> []) columns) = []
   \<longleftrightarrow> (\<forall>column\<in>set columns. \<forall>b. column_binding column = Some b \<longrightarrow> all_declared ix states b)"
proof (induction columns)
  case (Cons column columns)
  then show ?case by (cases column) (auto simp: all_declared_def)
qed simp

lemma roster_declared: "all_declared ix states (roster_of c) \<longleftrightarrow> undeclared (ohas (mi_byName ix)) (Some (co_kind c)) = []
    \<and> undeclared (\<lambda>s. s \<in> set states) (co_inState c) = []"
  by (auto simp: all_declared_def roster_of_def scope_things_def given_text_def undeclared_def)

lemma unresolved_none: "unresolvedNames c ix states = [] \<longleftrightarrow> all_declared ix states (roster_of c)
    \<and> (\<forall>column\<in>set (co_columns c). \<forall>b. column_binding column = Some b \<longrightarrow> all_declared ix states b)"
  unfolding unresolvedNames_def Let_def append_is_Nil_conv columns_declared roster_declared by blast

text \<open>A table of the pumps in a state, each with what it feeds.\<close>

definition sample_composition :: composition where
  "sample_composition = \<lparr>co_kind = ''Pump'', co_columns = [ColumnState [''running''],
     ColumnPath [\<lparr>rs_predicate = ''feeds'', rs_direction = None, rs_archetype = Some ''Tank'', rs_inState = None, rs_notInState = None\<rparr>] None ''Feeds''],
     co_inState = Some ''running'', co_moment = None, co_where = None, co_sortKey = None, co_sortDirection = None\<rparr>"

definition sample_named :: model_index where
  "sample_named = buildModelIndex (map (\<lambda>n. \<lparr>tId = n, tName = n, tIsArchetype = Some True, tProperties = [],
     tPropertyWriteKinds = None, tInheritedOverrides = None, tDerivedProperties = None\<rparr>) [''Pump'', ''feeds'', ''Tank'']) []"



subsection \<open>Opening a page moves nothing\<close>

lemma grid_placements: "length ps = length ws \<Longrightarrow> foldl (stack_one Grid) placed (map (\<lambda>(w, p). w\<lparr>wg_placement := Some p\<rparr>) (zip ws ps)) = placed @ ps"
  by (induction ws ps arbitrary: placed rule: list_induct2') (auto simp: stack_one_def Let_def)

lemma stacked_length: "length (foldl (stack_one layout) placed ws) = length placed + length ws"
  by (induction ws arbitrary: placed) (auto simp: stack_one_def Let_def)

lemma split_length: "split_placements start widths sizes = Some ps \<Longrightarrow> length ps = length sizes"
  by (induction start widths sizes arbitrary: ps rule: split_placements.induct) auto

lemma strip_length: "length (strip_placements sizes) = length sizes"
  by (simp add: strip_placements_def Let_def)

lemma placements_length: "placementsOf s = Some ps \<Longrightarrow> length ps = length (se_widgets s)"
  by (auto simp: placementsOf_def Let_def stacked_length split_length strip_length split: if_splits)

lemma opened_section:
  assumes "placementsOf s = Some ps" and "asGrid s = Some g"
  shows "placementsOf g = Some ps" and "map wg_kind (se_widgets g) = map wg_kind (se_widgets s)" and "asGrid g = Some g"
proof -
  from assms have g: "g = s\<lparr>se_widths := None, se_layout := Some Grid,
      se_widgets := map (\<lambda>(w, p). w\<lparr>wg_placement := Some p\<rparr>) (zip (se_widgets s) ps)\<rparr>" by (simp add: asGrid_def)
  note n = placements_length[OF assms(1)]
  show "placementsOf g = Some ps" unfolding g by (simp add: placementsOf_def layoutOf_def Let_def grid_placements[OF n])
  show "map wg_kind (se_widgets g) = map wg_kind (se_widgets s)" unfolding g using n
    by (auto simp: case_prod_beta comp_def simp flip: map_map intro!: nth_equalityI)
  have "map (\<lambda>(w, p). w\<lparr>wg_placement := Some p\<rparr>) (zip (map (\<lambda>(w, p). w\<lparr>wg_placement := Some p\<rparr>) (zip (se_widgets s) ps)) ps)
      = map (\<lambda>(w, p). w\<lparr>wg_placement := Some p\<rparr>) (zip (se_widgets s) ps)"
    using n by (auto intro!: nth_equalityI)
  with \<open>placementsOf g = Some ps\<close> show "asGrid g = Some g" unfolding asGrid_def by (simp add: g)
qed

lemma opened_sections:
  "those (map asGrid ss) = Some gs \<Longrightarrow> map placementsOf gs = map placementsOf ss
     \<and> map (map wg_kind \<circ> se_widgets) gs = map (map wg_kind \<circ> se_widgets) ss \<and> those (map asGrid gs) = Some gs"
proof (induction ss arbitrary: gs)
  case (Cons s ss)
  then obtain g hs where g: "asGrid s = Some g" and hs: "those (map asGrid ss) = Some hs" "gs = g # hs"
    by (auto split: option.splits)
  from g obtain ps where ps: "placementsOf s = Some ps" by (auto simp: asGrid_def)
  from opened_section[OF ps g] Cons.IH[OF hs(1)] hs(2) ps show ?case by simp
qed simp



lemma opened_page_is_kept: "openedForDesign sp = Some opened \<Longrightarrow> isKeptPage opened"
  by (auto simp: openedForDesign_def isKeptPage_def)

text \<open>A widget added at the next placement stands clear of every widget that is placed.\<close>

lemma bottom_reached: "w \<in> set ws \<Longrightarrow> wg_placement w = Some p \<Longrightarrow>
    pl_row p + pl_height p \<le> foldl (\<lambda>deepest w. max deepest (case wg_placement w of Some p \<Rightarrow> pl_row p + pl_height p | None \<Rightarrow> 0)) n ws"
proof (induction ws arbitrary: n)
  case (Cons v ws)
  have grows: "m \<le> foldl (\<lambda>deepest w. max deepest (case wg_placement w of Some p \<Rightarrow> pl_row p + pl_height p | None \<Rightarrow> (0::int))) m ws" for m
    by (induction ws arbitrary: m) (auto intro: order_trans[OF max.cobounded1])
  from Cons show ?case using grows[of "max n (pl_row p + pl_height p)"] by auto
qed simp

lemma next_placement_clear:
  assumes "w \<in> set (se_widgets s)" and "wg_placement w = Some p"
  shows "\<not> overlap p (nextPlacement s sz)"
  using bottom_reached[OF assms, of 0] by (auto simp: nextPlacement_def overlap_def Let_def)

subsection \<open>Columns that share a key\<close>

text \<open>A property called as the column of the states lands on the same key: the table reads the state for both.\<close>

lemma state_property_shares_key: "columnKey (ColumnProperty ''state'' numeric) = columnKey (ColumnState states)"
  by (simp add: STATE_COLUMN_def)

end
