(* ===== verification/DashboardPages.thy ===== *)
theory DashboardPages
  imports IndexFacts
begin

section \<open>Writing a page back (api/dashboardPages.ts)\<close>

text \<open>
  A page the console keeps is one more Thing of the kind the page role binds, found by the same discovery as the seeded
  ones. A write is the list of calls it makes, or nothing where the specification could not be read back and the write is
  refused. The browser mints the identifier of a new page, \<open>uuid\<close>; the platform that of its relationship.
\<close>

record dashboard_write_context =
  dw_dashboardArchetypeId :: string
  dw_isPredicateId :: string
  dw_relationships :: "vos_relationship list"

definition given_id :: "string option \<Rightarrow> string option" where
  "given_id i = (case i of Some s \<Rightarrow> if s = [] then None else Some s | None \<Rightarrow> None)"

definition dashboardWriteContext :: "model_index \<Rightarrow> dashboard_write_context option" where
  "dashboardWriteContext ix = (case (given_id (fst (thingIdBoundBy PAGE_ROLE_ID ix)), given_id (oget (mi_predicateNameToId ix) IS_PREDICATE)) of
     (Some archetype, Some isId) \<Rightarrow> Some \<lparr>dw_dashboardArchetypeId = archetype, dw_isPredicateId = isId, dw_relationships = mi_relationships ix\<rparr>
   | _ \<Rightarrow> None)"

definition asTheDiscoveryReadsIt :: "json \<Rightarrow> string option" where
  "asTheDiscoveryReadsIt specification = (let written = json_stringify specification in
     if parseSpecification (Some (JStr written)) = None then None else Some written)"

datatype page_call = ApplyFragment string string string string string | SetSpecification string string
  | RemoveRelationship string | RemoveThing string

definition keep_page :: "string \<Rightarrow> string \<Rightarrow> json \<Rightarrow> dashboard_write_context \<Rightarrow> page_call list option" where
  "keep_page uuid name specification ctx = map_option (\<lambda>written.
     [ApplyFragment uuid name written (dw_isPredicateId ctx) (dw_dashboardArchetypeId ctx)]) (asTheDiscoveryReadsIt specification)"

definition write_page :: "string \<Rightarrow> json \<Rightarrow> page_call list option" where
  "write_page i specification = map_option (\<lambda>written. [SetSpecification i written]) (asTheDiscoveryReadsIt specification)"

definition retitle_page :: "string \<Rightarrow> props \<Rightarrow> string \<Rightarrow> page_call list option" where
  "retitle_page i specification title = write_page i (JObj (oput ''title'' (JStr title) specification))"

definition remove_page :: "string \<Rightarrow> dashboard_write_context \<Rightarrow> page_call list" where
  "remove_page i ctx = map (\<lambda>edge. RemoveRelationship (rId edge))
     (filter (\<lambda>edge. rSubjectId edge = i \<or> rTargetId edge = i) (dw_relationships ctx)) @ [RemoveThing i]"

text \<open>What the model holds after a call, the Thing of a fragment as it comes back over the stream; \<open>minted\<close> is the identifier
  the platform gives a relationship.\<close>

definition kept_thing :: "string \<Rightarrow> string \<Rightarrow> string \<Rightarrow> vos_thing" where
  "kept_thing i name written = unwrapThing \<lparr>tId = i, tName = name, tIsArchetype = None,
     tProperties = [(DASHBOARD_SPECIFICATION_PROPERTY, JObj [(''typeInfo'', JStr ''vos.String''), (''value'', JStr written)])],
     tPropertyWriteKinds = None, tInheritedOverrides = None, tDerivedProperties = None\<rparr>"

definition kept_relationship :: "string \<Rightarrow> string \<Rightarrow> string \<Rightarrow> string \<Rightarrow> vos_relationship" where
  "kept_relationship minted s p t = \<lparr>rId = minted, rName = None, rSubjectId = s, rPredicateId = p, rTargetId = t, rProperties = []\<rparr>"

fun after_call :: "string \<Rightarrow> page_call \<Rightarrow> vos_thing list \<times> vos_relationship list \<Rightarrow> vos_thing list \<times> vos_relationship list" where
  "after_call minted (ApplyFragment i name written isId archetype) (ts, rs) =
     (ts @ [kept_thing i name written], rs @ [kept_relationship minted i isId archetype])"
| "after_call minted (SetSpecification i written) (ts, rs) =
     (map (\<lambda>t. if tId t = i then applyThingPropertyUpdate t DASHBOARD_SPECIFICATION_PROPERTY (JStr written) else t) ts, rs)"
| "after_call minted (RemoveRelationship i) (ts, rs) = (ts, filter (\<lambda>r. rId r \<noteq> i) rs)"
| "after_call minted (RemoveThing i) (ts, rs) = (filter (\<lambda>t. tId t \<noteq> i) ts, rs)"

subsection \<open>A kept page is found as it was written\<close>

lemma index_asserted_names: "mi_predicateNameToId (index_asserted a r) = (case oget (mi_byId a) (rPredicateId r) of None \<Rightarrow> mi_predicateNameToId a
    | Some p \<Rightarrow> if ohas (mi_predicateNameToId a) (tName p) then mi_predicateNameToId a else oput (tName p) (rPredicateId r) (mi_predicateNameToId a))"
  by (simp add: index_asserted_def Let_def split: option.split)

lemma names_fold_same:
  assumes "mi_predicateNameToId a = mi_predicateNameToId b" and "\<forall>r\<in>set rs. oget (mi_byId a) (rPredicateId r) = oget (mi_byId b) (rPredicateId r)"
  shows "mi_predicateNameToId (foldl index_asserted a rs) = mi_predicateNameToId (foldl index_asserted b rs)"
  using assms
proof (induction rs arbitrary: a b)
  case (Cons r rs)
  from Cons.prems have "mi_predicateNameToId (index_asserted a r) = mi_predicateNameToId (index_asserted b r)"
    by (simp add: index_asserted_names split: option.split)
  with Cons.IH[of "index_asserted a r" "index_asserted b r"] Cons.prems(2) show ?case by simp
qed simp

lemma named_predicate:
  assumes "\<And>n i. oget (mi_predicateNameToId ix) n = Some i \<Longrightarrow> \<exists>p. oget (mi_byId ix) i = Some p \<and> tName p = n"
    and "oget (mi_predicateNameToId (foldl index_asserted ix rs)) n = Some i"
  shows "\<exists>p. oget (mi_byId ix) i = Some p \<and> tName p = n"
  using assms
proof (induction rs arbitrary: ix)
  case (Cons r rs)
  have "\<exists>p. oget (mi_byId (index_asserted ix r)) i = Some p \<and> tName p = n"
    if "oget (mi_predicateNameToId (index_asserted ix r)) n = Some i" for n i
    using that Cons.prems(1) by (auto simp: index_asserted_names split: option.splits if_splits)
  with Cons.IH[of "index_asserted ix r"] Cons.prems(2) show ?case by simp
qed simp

definition things_index :: "vos_thing list \<Rightarrow> vos_relationship list \<Rightarrow> model_index" where
  "things_index ts rs = foldl index_thing (empty_index\<lparr>mi_relationships := rs\<rparr>) ts"

lemma build_names: "mi_predicateNameToId (buildModelIndex ts rs) = mi_predicateNameToId (foldl index_asserted (things_index ts rs) rs)"
  by (simp add: buildModelIndex_def things_index_def Let_def foldl_keeps split: option.split)

lemma things_index_simps: "oget (mi_byId (things_index ts rs)) = map_of (rev (map (\<lambda>t. (tId t, t)) ts))"
  "mi_predicateNameToId (things_index ts rs) = []"
proof -
  show "oget (mi_byId (things_index ts rs)) = map_of (rev (map (\<lambda>t. (tId t, t)) ts))"
    by (simp add: things_index_def byId_fold empty_index_def)
  have "mi_predicateNameToId (index_thing ix t) = mi_predicateNameToId ix" for ix t by (simp add: index_thing_def)
  then show "mi_predicateNameToId (things_index ts rs) = []" by (simp add: things_index_def foldl_keeps empty_index_def)
qed

lemma named_in_model: "oget (mi_predicateNameToId (buildModelIndex ts rs)) n = Some i \<Longrightarrow>
    \<exists>p. oget (mi_byId (buildModelIndex ts rs)) i = Some p \<and> tName p = n"
  using named_predicate[of "things_index ts rs" rs n i]
  by (simp add: build_names things_index_simps buildModelIndex_simps(4))

text \<open>A Thing no relationship names as predicate, related by a predicate the model has, leaves the names of the predicates.\<close>

lemma names_after:
  assumes "oget (mi_predicateNameToId (buildModelIndex ts rs)) n = Some p" and "tId t \<notin> rPredicateId ` set rs" and "tId t \<notin> tId ` set ts"
    and "rPredicateId r = p"
  shows "mi_predicateNameToId (buildModelIndex (ts @ [t]) (rs @ [r])) = mi_predicateNameToId (buildModelIndex ts rs)"
proof -
  from named_in_model[OF assms(1)] obtain u where u: "oget (mi_byId (buildModelIndex ts rs)) p = Some u" "tName u = n" by blast
  let ?a = "things_index (ts @ [t]) (rs @ [r])" and ?b = "things_index ts rs"
  have at: "oget (mi_byId ?a) q = oget (mi_byId ?b) q" if "q \<noteq> tId t" for q
    using that by (simp add: things_index_simps)
  have same: "mi_predicateNameToId (foldl index_asserted ?a rs) = mi_predicateNameToId (foldl index_asserted ?b rs)"
  proof (rule names_fold_same)
    show "mi_predicateNameToId ?a = mi_predicateNameToId ?b" by (simp only: things_index_simps)
    show "\<forall>r\<in>set rs. oget (mi_byId ?a) (rPredicateId r) = oget (mi_byId ?b) (rPredicateId r)"
    proof
      fix q assume "q \<in> set rs"
      with assms(2) show "oget (mi_byId ?a) (rPredicateId q) = oget (mi_byId ?b) (rPredicateId q)" by (intro at) force
    qed
  qed
  have "p \<noteq> tId t" using u(1) byId_own[OF u(1)] assms(3) by (metis image_eqI)
  then have "oget (mi_byId (foldl index_asserted ?a rs)) p = Some u"
    using u(1) at[of p] by (simp add: foldl_keeps things_index_simps buildModelIndex_simps(4))
  then have "mi_predicateNameToId (index_asserted (foldl index_asserted ?a rs) r) = mi_predicateNameToId (foldl index_asserted ?a rs)"
    using u(2) assms(1,4) same by (simp add: index_asserted_names ohas_iff_oget build_names)
  with same show ?thesis by (simp add: build_names)
qed

text \<open>What a role binds is what it bound.\<close>

lemma bound_in_build: "fst (thingIdBoundBy roleId (buildModelIndex ts rs)) = (case oget (mi_predicateNameToId (buildModelIndex ts rs)) BINDS_PREDICATE_NAME of
    Some b \<Rightarrow> if b = [] then None else (case filter (\<lambda>r. rPredicateId r = b \<and> rSubjectId r = roleId) rs of [] \<Rightarrow> None | r # _ \<Rightarrow> Some (rTargetId r))
  | None \<Rightarrow> None)"
  by (auto simp: thingIdBoundBy_def boundBy_def adjacency_def buildModelIndex_simps listed_edges Let_def case_prod_beta filter_filter conj_commute
      split: option.splits list.splits)

lemma bound_after:
  assumes "oget (mi_predicateNameToId (buildModelIndex ts rs)) n = Some p" and "n \<noteq> BINDS_PREDICATE_NAME" and "rPredicateId r = p"
    and "mi_predicateNameToId (buildModelIndex ts' (rs @ [r])) = mi_predicateNameToId (buildModelIndex ts rs)"
  shows "fst (thingIdBoundBy roleId (buildModelIndex ts' (rs @ [r]))) = fst (thingIdBoundBy roleId (buildModelIndex ts rs))"
proof -
  have "rPredicateId r \<noteq> b" if "oget (mi_predicateNameToId (buildModelIndex ts rs)) BINDS_PREDICATE_NAME = Some b" for b
    using named_in_model[OF that] named_in_model[OF assms(1)] assms(2,3) by auto
  then show ?thesis unfolding bound_in_build assms(4) by (auto split: option.split)
qed

text \<open>No Thing of a model is directly itself where no relationship says so.\<close>

lemma parents_from: "(i, ids) \<in> set (push_under k v m) \<Longrightarrow> q \<in> set ids \<Longrightarrow> i = k \<and> q = v \<or> (\<exists>ids. (i, ids) \<in> set m \<and> q \<in> set ids)"
  by (auto simp: push_under_def split: option.splits dest!: set_oput map_of_SomeD)

lemma parents_fold: "(i, ids) \<in> set (mi_isParents (foldl (index_is p) ix rs)) \<Longrightarrow> q \<in> set ids \<Longrightarrow>
    (\<exists>ids. (i, ids) \<in> set (mi_isParents ix) \<and> q \<in> set ids) \<or> (\<exists>r\<in>set rs. rPredicateId r = p \<and> rSubjectId r = i \<and> rTargetId r = q)"
proof (induction rs arbitrary: ix)
  case (Cons r rs)
  from Cons.IH[of "index_is p ix r"] Cons.prems show ?case
    by (auto simp: index_is_def split: if_splits dest!: parents_from[of _ _ "rSubjectId r" "rTargetId r"])
qed auto

lemma no_self_build:
  assumes "\<And>r. r \<in> set rs \<Longrightarrow> is_id ts rs = Some (rPredicateId r) \<Longrightarrow> rSubjectId r \<noteq> rTargetId r"
  shows "no_self_is (lookup_of (buildModelIndex ts rs))"
proof -
  have none: "mi_isParents (foldl index_asserted (things_index ts rs) rs) = []"
    by (simp add: foldl_keeps things_index_def empty_index_def)
  have parents: "mi_isParents (buildModelIndex ts rs) = (case is_id ts rs of None \<Rightarrow> []
      | Some p \<Rightarrow> mi_isParents (foldl (index_is p) (foldl index_asserted (things_index ts rs) rs) rs))"
    using none by (simp add: is_id_def build_names) (simp add: buildModelIndex_def Let_def flip: things_index_def split: option.split)
  have "tId t \<noteq> i" if ids: "(i, ids) \<in> set (mi_isParents (buildModelIndex ts rs))"
    and t: "t \<in> set (List.map_filter (oget (mi_byId (buildModelIndex ts rs))) ids)" for i ids t
  proof -
    from map_filter_get[OF t] byId_own have "tId t \<in> set ids" by blast
    with ids parents_fold[of i ids _ "foldl index_asserted (things_index ts rs) rs" rs "tId t"] assms none show ?thesis
      unfolding parents by (fastforce split: option.splits)
  qed
  then show ?thesis by (auto simp: no_self_is_def lookup_of_def list_all_iff)
qed

lemma own_wins:
  assumes "no_self_is (lookup_of ix)" and "tProperties t = [(k, v)]"
  shows "oget (effective lc ix t) k = Some v"
proof -
  from effective_answers(1)[OF assms(1), of lc t] obtain kept where "effectiveProperties (levels ix) lc (lookup_of ix) t [] = Some (effective lc ix t, kept)"
    by blast
  moreover obtain n where "levels ix = Suc n" by (simp add: levels_def)
  ultimately show ?thesis
    using assms(2) by (auto simp: effectiveProperties_def Let_def split: option.splits) (metis map_upd_Some_unfold oget_oput)
qed

text \<open>What one call leaves of a model, and a run of calls.\<close>

definition after_calls :: "string \<Rightarrow> page_call list \<Rightarrow> vos_thing list \<times> vos_relationship list \<Rightarrow> vos_thing list \<times> vos_relationship list" where
  "after_calls minted calls m = foldl (\<lambda>m c. after_call minted c m) m calls"

lemma kept_thing_simps: "tId (kept_thing i name written) = i" "tName (kept_thing i name written) = name"
  "is_archetype (kept_thing i name written) = False"
  "tProperties (kept_thing i name written) = [(DASHBOARD_SPECIFICATION_PROPERTY, JStr written)]"
  by (simp_all add: kept_thing_def unwrapThing_def unwrapProperties_def unwrapPropertyValue_def is_archetype_def oassign_def)

lemma context_bound: "dashboardWriteContext ix = Some ctx \<Longrightarrow> fst (thingIdBoundBy PAGE_ROLE_ID ix) = Some (dw_dashboardArchetypeId ctx)
    \<and> oget (mi_predicateNameToId ix) IS_PREDICATE = Some (dw_isPredicateId ctx) \<and> dw_dashboardArchetypeId ctx \<noteq> [] \<and> dw_isPredicateId ctx \<noteq> []
    \<and> dw_relationships ctx = mi_relationships ix"
  by (auto simp: dashboardWriteContext_def given_id_def split: option.splits if_splits)

lemma described: "x \<in> set found \<Longrightarrow> \<exists>d\<in>set (descriptors found). dd_id d = tId (fst x) \<and> dd_name d = tName (fst x) \<and> dd_specification d = snd x"
  by (force simp: descriptors_def Let_def zip_map2 zip_same_conv_map case_prod_beta)

lemma listed_as_read:
  assumes "t \<in> set (page_things ts rs)"
  shows "\<exists>d\<in>set (discoverDashboards lc ts rs). dd_id d = tId t \<and> dd_name d = tName t
     \<and> dd_specification d = parseSpecification (oget (effective lc (buildModelIndex ts rs) t) DASHBOARD_SPECIFICATION_PROPERTY)"
proof -
  let ?ix = "snd (thingsBoundAndBeneath PAGE_ROLE_ID (buildModelIndex ts rs))"
  have "unremembered ?ix = unremembered (buildModelIndex ts rs)"
    using boundBy_forget[of PAGE_ROLE_ID "buildModelIndex ts rs"] by (simp add: thingsBoundAndBeneath_def Let_def case_prod_beta)
  from same_when_forgotten(4)[OF this] have same: "effective lc ?ix = effective lc (buildModelIndex ts rs)" .
  have "(t, parseSpecification (oget (effective lc (buildModelIndex ts rs) t) DASHBOARD_SPECIFICATION_PROPERTY))
      \<in> set (sort_by (\<lambda>a b. lc (tName (fst a)) (tName (fst b))) (map (read_page lc ?ix) (page_things ts rs)))"
    using assms by (auto simp: read_page_def same)
  from described[OF this] show ?thesis unfolding discovered by simp
qed

lemma beneath_the_kind:
  assumes "fst (thingIdBoundBy PAGE_ROLE_ID (buildModelIndex ts rs)) = Some kind" and "kind \<noteq> []"
    and "oget (mi_byId (buildModelIndex ts rs)) i = Some t" and "i \<notin> archetype_ids ts" and "(kind, i) \<in> is_one_of ts rs"
  shows "t \<in> set (page_things ts rs)"
proof -
  have "i \<in> set (instancesBelow [kind] (buildModelIndex ts rs))"
    using assms(4,5) by (auto simp: set_instancesBelow sub_types_build direct_instances_build)
  with assms(1-3) show ?thesis
    by (auto simp: page_things_beneath thingsWithIds_def List.map_filter_def image_iff intro!: bexI[of _ i])
qed



text \<open>A specification the discovery could not list is written nowhere.\<close>

lemma unreadable_refused: "parseSpecification (Some (JStr (json_stringify spec))) = None \<Longrightarrow>
    keep_page uuid name spec ctx = None \<and> write_page i spec = None"
  by (simp add: keep_page_def write_page_def asTheDiscoveryReadsIt_def Let_def)

end
