(* ===== verification/Spec2Isabelle.thy ===== *)
theory Spec2Isabelle
  imports PipelineLoad Catalysts EditorState ModelData EffectiveProperties UiStore ApiClient DashboardSubscription DesignEdits BindingFacts FigureBreakdown BindingRefresh Localization Search IntakeShares IntakeWizard ExploreFacts EntityDetail DecisionFacts Composer DashboardPages
begin

text \<open>
  A verification library for Trellis, the browser client of VillageOS (\<open>src/vos.Trellis/src\<close>).

  The client shows a model: Things, relationships between them, and the properties both carry. It signs a
  person in and keeps the session alive; a subscription on the platform answers with a snapshot of what the
  mounted pages declared and then streams the changes; the model store holds what arrived; the pages draw
  the store. The pipeline editor reads a pipeline out of the same model, lets a person redraw it, judges the
  drawing and writes it back as Things and relationships. A dashboard is a specification the model carries:
  it says which bindings its widgets read, what the page subscribes to, and where the widgets stand; an index
  of the model answers the bindings. Two pages outside the console take in land: a wizard that fills in a
  submission step by step, and an exploration that starts from a pin on the map.

  Theories, bottom up:

  \<^item> \<open>Prelude\<close>: ordered maps and sets (\<open>Map\<close>, plain objects, \<open>Set\<close>), stable sorting
    (\<open>Array.prototype.sort\<close>), the interfaces \<open>keyed_store\<close>, \<open>comparator\<close> and \<open>collation\<close>.
    \<open>Walks\<close>: walks over a stack of Things found, with the interface \<open>frontier_walk\<close>.
  \<^item> \<open>JsValue\<close>, \<open>NumberText\<close>, \<open>JsonText\<close>: values that arrive as JSON, the numbers, strings and truth of
    JavaScript as far as the client uses them, the text of a number, \<open>JSON.stringify\<close> and \<open>JSON.parse\<close>,
    with what is printed read back. \<open>JsArithmetic\<close>: addition, division, rounding and the like on doubles.
  \<^item> \<open>VosTypes\<close>: \<open>types/vos.ts\<close>, \<open>utils/propertyMapper.ts\<close> (unwrapping and what a Thing states),
    \<open>utils/propertyUpdates.ts\<close>. \<open>EffectiveProperties\<close>: the walk up \<open>is\<close> of \<open>utils/propertyMapper.ts\<close>
    with its visiting set and its cache, and \<open>utils/propertyOrigin.ts\<close>; the interface
    \<open>guarded_walk\<close> gives the fuel that is enough, once for values and once for definitions.
  \<^item> \<open>PipelineRoles\<close>, \<open>PipelineModel\<close>, \<open>PipelineReads\<close>, \<open>PipelineRuns\<close>: \<open>pipeline/model.ts\<close>, the roles,
    the indexes and walks, ports and ends, wires and runs.
  \<^item> \<open>PipelineValidate\<close>: \<open>pipeline/validate.ts\<close>. \<open>EditorState\<close>: \<open>pipeline/history.ts\<close>,
    \<open>pipeline/passedOn.ts\<close> and the marking of wires of \<open>pipeline/wireDrawing.ts\<close>.
  \<^item> \<open>PipelineSerialize\<close>, \<open>PipelineLoad\<close>: \<open>pipeline/serialize.ts\<close>, a save as the list of calls it
    makes and a load as a read of the model.
  \<^item> \<open>Catalysts\<close>: \<open>pipeline/catalysts.ts\<close>, \<open>pipeline/handOver.ts\<close>, \<open>pipeline/stop.ts\<close>.
  \<^item> \<open>ApiClient\<close>: \<open>api/client.ts\<close>, the tokens and their refresh, every operation up to its \<open>await\<close> and
    every answer as steps of one machine.
  \<^item> \<open>ModelStore\<close>: \<open>stores/modelStore.ts\<close>. \<open>Sse\<close>: \<open>hooks/useSse.ts\<close>, as a step relation over
    its module state and its opens in flight. \<open>ModelData\<close>: \<open>hooks/useModelData.ts\<close>, over both.
  \<^item> \<open>TypeFilter\<close>: \<open>utils/typeFilter.ts\<close>. \<open>Colors\<close>, \<open>PredicateCluster\<close>: \<open>utils/colors.ts\<close>,
    \<open>utils/predicatePalette.ts\<close>, \<open>utils/classPalette.ts\<close>, \<open>utils/predicateCluster.ts\<close>.
    \<open>GuiSettings\<close>: \<open>utils/guiSettings.ts\<close>, \<open>utils/containment.ts\<close>. \<open>UiStore\<close>: \<open>stores/uiStore.ts\<close>
    with what it keeps in local storage. \<open>Search\<close>: \<open>utils/thingSearch.ts\<close>, \<open>utils/searchFilter.ts\<close>,
    \<open>pages/propertySearch.ts\<close>.
  \<^item> \<open>Dashboards\<close>: \<open>types/dashboard.ts\<close>, \<open>types/subscription.ts\<close>. \<open>DashboardSubscription\<close>:
    \<open>api/dashboardSubscription.ts\<close>. \<open>GridLayout\<close>, \<open>DesignEdits\<close>: \<open>utils/gridLayout.ts\<close>,
    \<open>utils/designEdits.ts\<close>.
  \<^item> \<open>ModelIndex\<close>, \<open>IndexFacts\<close>: the index of \<open>api/dashboardApi.ts\<close>, its memory, the members of a type,
    the discovery of dashboards and the names of properties. \<open>BindingResolution\<close>, \<open>BindingFacts\<close>: the
    resolver of the same file, every kind of binding. \<open>Levers\<close>: the levers of a derived value.
    \<open>FigureBreakdown\<close>: \<open>api/figureBreakdown.ts\<close>. \<open>BindingRefresh\<close>: \<open>api/bindingRefresh.ts\<close>.
    \<open>Localization\<close>: \<open>api/dashboardLocalization.ts\<close>.
  \<^item> \<open>ParcelGeometry\<close>: \<open>utils/parcelGeometry.ts\<close>. \<open>IntakeDraft\<close>, \<open>IntakeShares\<close>, \<open>IntakeDocument\<close>:
    \<open>intake/submissionDraft.ts\<close>, the draft, its shares, the document and the draft in storage.
    \<open>IntakeWizard\<close>: \<open>intake/IntakeWizard.tsx\<close> as a machine. \<open>ExploreState\<close>, \<open>ExplorePage\<close>,
    \<open>ExploreFacts\<close>: \<open>explore/exploreState.ts\<close> and \<open>explore/ExplorePage.tsx\<close>, the page as a machine of what
    the person does, answers in any order, effects after a render and timers.
  \<^item> \<open>DecisionExplanation\<close>, \<open>DecisionFacts\<close>, \<open>ServiceHandling\<close>, \<open>EntityDetail\<close>: the card of a Thing,
    \<open>components/dashboard/detail\<close>: why a decision was taken and the reads at its instant (the card as a machine of
    renders and settled rounds), the services that ran on a Thing, the relations the card follows.
  \<^item> \<open>Composer\<close>: \<open>utils/composer.ts\<close> and the pages of \<open>utils/designSpec.ts\<close>, a composed table as a page and a page
    opened for design. \<open>DashboardPages\<close>: \<open>api/dashboardPages.ts\<close>, the calls that keep, write and remove a page, with
    what each leaves of the model, so that the discovery of \<open>ModelIndex\<close> is asked of the model they leave.

  What the groups of lemmas show. Refinement: the store's arrays and indexes by identifier implement plain
  maps, the editor's history a bounded stack. Invariants of reachable states: every subscription the
  platform granted is in use, pending or handed back; the page state and local storage agree; a session is
  always being refreshed or given up; signed out stays signed out; a half-filled form survives a reload; a
  land register's boundary is the one for the pin. Equivalence with a declarative
  reading: the walks along \<open>is\<close> and along predicates with reachability, clusters with connected
  components, buffered updates with immediate ones, a page's traversal rules with its walks, a figure with
  what it opens to, a translated specification with the one that was written. Safety of
  writes: a save builds before it removes and keeps identities; a hand-over never leaves a state unbound;
  widgets neither cover one another nor get lost; what is submitted is complete and a code is spent for the
  address it was sent to; a page that is kept names nothing the model does not declare; a card draws no number the
  platform did not answer. Round trips: parameter bindings, filters, layouts, numbers, JSON, drafts, pages that are kept.
  Termination: every walk over model data ends, circles included, with the fuel stated at its definition.

  Parameters, which stand for code outside the repository: \<open>lc\<close> is \<open>localeCompare\<close>, a collation; \<open>tr\<close> the
  translation of a message; \<open>uuid\<close> and \<open>created\<close> the identifiers the platform mints, assumed fresh where a
  property needs it; the degree of a node, which the graph library answers; whether a regular expression a
  person typed matches; \<open>time\<close> the reading of a date; the sine, cosine and square root of \<open>Math\<close> (\<open>math_functions\<close>); the reads of the
  platform that answer a binding (\<open>model_reads\<close>); and the answers of the platform and of the intake service,
  arguments of the steps that receive them.

  Bounds and abstractions. Recursions over model data that the source leaves unbounded take fuel; the
  termination properties give the fuel that is enough. A number is the shortest decimal that denotes it;
  arithmetic rounds to the nearest double, the even one of two; a negative zero is not represented. Strings are lists of characters below 256. Objects keep
  insertion order; the reordering of keys that look like array indexes and the members of
  \<open>Object.prototype\<close> are not represented. A step that the source runs between two awaits is one step
  here, and an \<open>await\<close> of a value already there does not yield. Caches that are pure over a model that never
  changes are left out, except the cache of effective properties, whose effect on circles is shown, and the
  memory of an index, which is shown to change no answer.

  Not modelled: rendering (React components, drawing on a canvas, the three-dimensional viewport), which has
  no state of its own beyond what is modelled above; the graph library and its layouts, which are not in
  the repository; the message tables, which are data; thin wrappers over the network, which are the
  parameters and steps above; the schema of the widgets and the findings of a design, which are about widgets whose
  bindings are still missing, where the contract modelled here has them; and the services and tests written in other
  languages.
\<close>

end
